(* ===== verification/Prelude.thy ===== *)
theory Prelude
  imports Complex_Main "HOL-Library.Multiset" "HOL-Library.Sublist"
begin

text \<open>
  The part of the development that every component shares.

  \<^item> Names for the types of the model: primary keys are \<open>nat\<close>, points in time are
    \<open>int\<close> (microseconds), amounts of money are \<open>rat\<close> (Python's \<open>Decimal\<close>; the sums of the
    12-digit columns of the repository stay far inside the 28 digits of the default context).
  \<^item> The meaning of the few ORM idioms that the code uses on a table: a table is the list of
    its rows, a query is a \<open>filter\<close>, \<open>values(k).annotate(Sum(v))\<close> collected in a
    \<open>defaultdict(int)\<close> is \<open>group_sum\<close>, and \<open>bulk_update\<close> applies to each row the
    \<^emph>\<open>first\<close> object given for its key (Django: ``if objs contains duplicates, only the
    first one is updated'').  What the code relies on of \<open>bulk_update\<close> is the locale
    \<open>row_updater\<close>.
  \<^item> The order of rows that a query without an order returns is a parameter
    (\<open>row_order\<close> of the environment), as is the clock.
  \<^item> The greedy loop ``take as much as is needed and available from each element'', which
    allocation, deallocation and reservation write three times, as the locale
    \<open>greedy_loop\<close>.
\<close>

section \<open>Types\<close>

type_synonym pk = nat
type_synonym time = int
type_synonym decimal = rat

record env =
  now :: time
  row_order :: "pk list \<Rightarrow> pk list"
  slug_rank :: "string \<Rightarrow> nat"   \<comment> \<open>the place of a string in the database's collation\<close>

definition row_order_ok :: "env \<Rightarrow> bool" where
  "row_order_ok e \<longleftrightarrow> (\<forall>xs. mset (row_order e xs) = mset xs)"

section \<open>Tables\<close>

definition sum_of :: "('r \<Rightarrow> int) \<Rightarrow> 'r list \<Rightarrow> int" where
  "sum_of f rows = sum_list (map f rows)"

lemma sum_of_simps [simp]:
  "sum_of f [] = 0"
  "sum_of f (r # rs) = f r + sum_of f rs"
  "sum_of f (xs @ ys) = sum_of f xs + sum_of f ys"
  by (simp_all add: sum_of_def)

lemma sum_of_nonneg: "(\<And>r. r \<in> set rs \<Longrightarrow> 0 \<le> f r) \<Longrightarrow> 0 \<le> sum_of f rs"
  by (induction rs) auto

lemma sum_of_zero: "(\<And>r. r \<in> set rs \<Longrightarrow> f r = 0) \<Longrightarrow> sum_of f rs = 0"
  by (induction rs) auto

lemma sum_of_mono: "(\<And>r. r \<in> set rs \<Longrightarrow> f r \<le> g r) \<Longrightarrow> sum_of f rs \<le> sum_of g rs"
  by (induction rs) (auto intro: add_mono)

lemma sum_of_eq_iff:
  assumes "\<And>x. x \<in> set xs \<Longrightarrow> f x \<le> g x"
  shows "sum_of f xs = sum_of g xs \<longleftrightarrow> (\<forall>x \<in> set xs. f x = g x)"
  using assms
proof (induction xs)
  case (Cons x xs)
  have le: "f x \<le> g x" "sum_of f xs \<le> sum_of g xs" using Cons.prems by (auto intro: sum_of_mono)
  have "sum_of f xs = sum_of g xs \<longleftrightarrow> (\<forall>x \<in> set xs. f x = g x)" using Cons by simp
  moreover have "f x + sum_of f xs = g x + sum_of g xs \<longleftrightarrow> f x = g x \<and> sum_of f xs = sum_of g xs"
    using le by linarith
  ultimately show ?case by simp
qed simp

lemma sum_of_pos_iff:
  assumes "\<And>x. x \<in> set xs \<Longrightarrow> 0 \<le> f x"
  shows "0 < sum_of f xs \<longleftrightarrow> (\<exists>x \<in> set xs. 0 < f x)"
  using assms
proof (induction xs)
  case (Cons x xs)
  have le: "0 \<le> f x" "0 \<le> sum_of f xs" using Cons.prems by (auto intro: sum_of_nonneg)
  have "0 < sum_of f xs \<longleftrightarrow> (\<exists>x \<in> set xs. 0 < f x)" using Cons by simp
  moreover have "0 < f x + sum_of f xs \<longleftrightarrow> 0 < f x \<or> 0 < sum_of f xs" using le by linarith
  ultimately show ?case by simp
qed simp

definition group_sum :: "('r \<Rightarrow> pk) \<Rightarrow> ('r \<Rightarrow> int) \<Rightarrow> 'r list \<Rightarrow> pk \<Rightarrow> int" where
  "group_sum key val rows k = sum_of val (filter (\<lambda>r. key r = k) rows)"

lemma group_sum_simps [simp]:
  "group_sum key val [] k = 0"
  "group_sum key val (r # rs) k = (if key r = k then val r else 0) + group_sum key val rs k"
  "group_sum key val (xs @ ys) k = group_sum key val xs k + group_sum key val ys k"
  by (simp_all add: group_sum_def)

lemma group_sum_nonneg: "(\<And>r. r \<in> set rs \<Longrightarrow> 0 \<le> val r) \<Longrightarrow> 0 \<le> group_sum key val rs k"
  by (auto simp: group_sum_def intro: sum_of_nonneg)

lemma group_sum_filter_pos:
  assumes "\<And>r. r \<in> set rs \<Longrightarrow> 0 \<le> val r"
  shows "group_sum key val (filter (\<lambda>r. 0 < val r) rs) k = group_sum key val rs k"
  using assms by (induction rs) (auto simp: order_antisym)

definition find_row :: "('r \<Rightarrow> pk) \<Rightarrow> pk \<Rightarrow> 'r list \<Rightarrow> 'r option" where
  "find_row key k rows = find (\<lambda>r. key r = k) rows"

definition in_row_order :: "env \<Rightarrow> ('r \<Rightarrow> pk) \<Rightarrow> 'r list \<Rightarrow> 'r list" where
  "in_row_order e key rows = List.map_filter (\<lambda>k. find_row key k rows) (row_order e (map key rows))"

definition bulk_update :: "('r \<Rightarrow> pk) \<Rightarrow> (pk \<times> ('r \<Rightarrow> 'r)) list \<Rightarrow> 'r list \<Rightarrow> 'r list" where
  "bulk_update key us rows =
     map (\<lambda>r. case map_of us (key r) of None \<Rightarrow> r | Some f \<Rightarrow> f r) rows"

definition may_insert :: "('r \<Rightarrow> 'u) \<Rightarrow> ('r \<Rightarrow> int) \<Rightarrow> 'r list \<Rightarrow> 'r list \<Rightarrow> bool" where
  \<comment> \<open>A \<open>unique_together\<close> constraint \<open>u\<close> and a \<open>PositiveIntegerField\<close> \<open>q\<close> allow the new rows.\<close>
  "may_insert u q rows new \<longleftrightarrow> distinct (map u new) \<and> list_all (\<lambda>r. u r \<notin> u ` set rows \<and> 0 \<le> q r) new"

section \<open>What the code relies on of a bulk update\<close>

locale row_updater =
  fixes key :: "'r \<Rightarrow> pk"
    and upd :: "(pk \<times> ('r \<Rightarrow> 'r)) list \<Rightarrow> 'r list \<Rightarrow> 'r list"
  assumes upd_Nil: "upd us [] = []"
    and upd_Cons: "upd us (r # rs) =
      (case map_of us (key r) of None \<Rightarrow> r | Some f \<Rightarrow> f r) # upd us rs"
begin

lemma upd_no_objects [simp]: "upd [] rs = rs"
  by (induction rs) (simp_all add: upd_Nil upd_Cons)

lemma upd_append: "upd us (xs @ ys) = upd us xs @ upd us ys"
  by (induction xs) (simp_all add: upd_Nil upd_Cons)

lemma upd_length: "length (upd us rs) = length rs"
  by (induction rs) (simp_all add: upd_Nil upd_Cons)

lemma upd_map:
  assumes "\<And>k f r. (k, f) \<in> set us \<Longrightarrow> g (f r) = g r"
  shows "map g (upd us rs) = map g rs"
  using assms by (induction rs) (auto simp: upd_Nil upd_Cons split: option.splits dest: map_of_SomeD)

lemma upd_untouched: "k \<notin> fst ` set us \<Longrightarrow> r \<in> set rs \<Longrightarrow> key r = k \<Longrightarrow> r \<in> set (upd us rs)"
  by (induction rs) (force simp: upd_Nil upd_Cons map_of_eq_None_iff split: option.splits
      dest: map_of_SomeD)+

text \<open>Only the first object of a key counts: later duplicates change nothing.\<close>

lemma upd_first_wins: "k \<in> fst ` set us \<Longrightarrow> upd (us @ [(k, f)]) rs = upd us rs"
proof (induction rs)
  case (Cons r rs)
  have "map_of (us @ [(k, f)]) (key r) = map_of us (key r)"
    using Cons.prems map_of_eq_None_iff [of us k] by (auto simp: map_add_def split: option.splits)
  then show ?case using Cons by (simp add: upd_Cons)
qed (simp add: upd_Nil)

lemma upd_in: "r' \<in> set (upd us rs) \<Longrightarrow>
   \<exists>r \<in> set rs. r' = (case map_of us (key r) of None \<Rightarrow> r | Some f \<Rightarrow> f r)"
  by (induction rs) (auto simp: upd_Nil upd_Cons)

end

interpretation bulk: row_updater key "bulk_update key" for key
  by unfold_locales (simp_all add: bulk_update_def)

lemma not_isl_Inr: "\<not> isl r \<Longrightarrow> r = Inr (projr r)"
  by (cases r) auto

lemma subseq_distinct: "subseq xs ys \<Longrightarrow> distinct ys \<Longrightarrow> distinct xs"
  by (induction rule: list_emb.induct) (auto dest: list_emb_set)

lemma group_sum_distinct:
  assumes "distinct (map key rs)" and "r \<in> set rs"
  shows "group_sum key val rs (key r) = val r"
  using assms
proof (induction rs)
  case (Cons a rs)
  have zero: "group_sum key val rs k = 0" if "k \<notin> key ` set rs" for k
    using that by (induction rs) auto
  from Cons show ?case by (auto simp: zero)
qed simp

lemma group_sum_absent: "k \<notin> key ` set rs \<Longrightarrow> group_sum key val rs k = 0"
  by (induction rs) auto

lemma group_sum_cong_key: "(\<And>r. r \<in> set rs \<Longrightarrow> key r = k \<Longrightarrow> val r = val' r) \<Longrightarrow>
  group_sum key val rs k = group_sum key val' rs k"
  by (induction rs) auto

lemma group_sum_mset: "mset xs = mset ys \<Longrightarrow> group_sum key val xs k = group_sum key val ys k"
  by (simp add: group_sum_def sum_of_def flip: sum_mset_sum_list)

lemma group_sum_const: "(\<And>r. r \<in> set rs \<Longrightarrow> key r = k) \<Longrightarrow>
  group_sum key val rs x = (if k = x then sum_of val rs else 0)"
  by (induction rs) auto

lemma sum_of_add: "sum_of (\<lambda>r. f r + g r) rs = sum_of f rs + sum_of g rs"
  by (induction rs) simp_all

lemma sum_of_diff: "sum_of (\<lambda>r. f r - g r) rs = sum_of f rs - sum_of g rs"
  by (induction rs) simp_all

lemma sum_of_hit: "distinct (map k rows) \<Longrightarrow>
  sum_of (\<lambda>r. if x = k r then v else 0) rows = (if x \<in> k ` set rows then v else 0)"
  by (induction rows) (auto simp: image_iff)

lemma sum_of_group_sum:
  assumes "distinct (map k rows)"
  shows "sum_of (\<lambda>r. group_sum key val items (k r)) rows =
    sum_of val (filter (\<lambda>it. key it \<in> k ` set rows) items)"
  by (induction items) (simp_all add: sum_of_add sum_of_hit [OF assms] sum_of_zero)

lemma group_sum_uminus: "group_sum key (\<lambda>r. - f r) rs x = - group_sum key f rs x"
  by (induction rs) auto

lemma group_sum_filter_key:
  "(\<And>r. sel r \<longleftrightarrow> key r \<in> S) \<Longrightarrow>
   group_sum key f (filter sel rs) x = (if x \<in> S then group_sum key f rs x else 0)"
  by (induction rs) auto

lemma group_sum_filter_mono:
  "(\<And>r. r \<in> set rs \<Longrightarrow> 0 \<le> f r) \<Longrightarrow> (\<And>r. r \<in> set rs \<Longrightarrow> P r \<Longrightarrow> Q r) \<Longrightarrow>
   group_sum key f (filter P rs) x \<le> group_sum key f (filter Q rs) x"
  by (induction rs) (auto simp: add_increasing)

lemma sum_of_mset: "mset xs = mset ys \<Longrightarrow> sum_of f xs = sum_of f ys"
  by (simp add: sum_of_def flip: sum_mset_sum_list)

lemma list_all2_in_right:
  "list_all2 P xs ys \<Longrightarrow> y \<in> set ys \<Longrightarrow> \<exists>x \<in> set xs. P x y"
  by (induction rule: list_all2_induct) auto

lemma group_sum_update_one:
  assumes "distinct (map pk rows)" and "r \<in> set rows" and "key (g r) = key r" and "val (g r) = val r + v"
  shows "group_sum key val (map (\<lambda>x. if pk x = pk r then g x else x) rows) k =
    group_sum key val rows k + (if k = key r then v else 0)"
  using assms(1,2)
proof (induction rows)
  case (Cons a rows)
  have "map (\<lambda>x. if pk x = pk r then g x else x) rows = rows" if "pk r \<notin> pk ` set rows"
    using that by (intro map_idI) (auto simp: image_iff)
  moreover have "pk r \<notin> pk ` set rows \<and> a = r \<or> pk a \<noteq> pk r \<and> r \<in> set rows"
    using Cons.prems by (auto simp: image_iff)
  ultimately show ?case using Cons.IH Cons.prems(1) by (elim disjE) (simp_all add: assms(3,4))
qed simp

lemma find_SomeD: "find P xs = Some x \<Longrightarrow> x \<in> set xs \<and> P x"
  by (induction xs) (auto split: if_splits)

lemma find_append_None: "find P xs = None \<Longrightarrow> find P (xs @ ys) = find P ys"
  by (induction xs) (auto split: if_splits)

lemma map_of_map_filter:
  "map_of (List.map_filter (\<lambda>k. map_option (\<lambda>m. (k, f m)) (g k)) ks) x =
     (if x \<in> set ks then map_option f (g x) else None)"
  by (induction ks) (auto simp: List.map_filter_simps split: option.splits)

lemma find_row_distinct: "distinct (map key rows) \<Longrightarrow> r \<in> set rows \<Longrightarrow> find_row key (key r) rows = Some r"
  unfolding find_row_def by (induction rows) auto

text \<open>Lists matched element by element where a property can only belong to one key.\<close>

lemma one_match:
  assumes "list_all2 P xs ys" and "distinct (map k xs)" and "\<And>x y. P x y \<Longrightarrow> Q y \<Longrightarrow> k x = K"
  shows "filter Q ys = [] \<or> (\<exists>x \<in> set xs. \<exists>y. P x y \<and> Q y \<and> filter Q ys = [y])"
  using assms(1,2)
proof (induction rule: list_all2_induct)
  case (Cons x xs y ys)
  have "filter Q ys = []" if "Q y"
  proof -
    have "\<not> Q y'" if y': "y' \<in> set ys" for y'
    proof
      assume "Q y'"
      from list_all2_in_right [OF Cons.hyps(2) y'] obtain x' where "x' \<in> set xs" "P x' y'" by blast
      with assms(3) Cons.hyps(1) \<open>Q y\<close> \<open>Q y'\<close> Cons.prems show False by (auto simp: image_iff)
    qed
    then show ?thesis by (simp add: filter_empty_conv)
  qed
  with Cons show ?case by auto
qed simp

lemma list_all2_in_left:
  "list_all2 P xs ys \<Longrightarrow> x \<in> set xs \<Longrightarrow> \<exists>y \<in> set ys. P x y"
  by (induction rule: list_all2_induct) auto

section \<open>The greedy loop\<close>

text \<open>
  \<open>run q d acc xs\<close> is the loop in the middle of its run: \<open>q\<close> is requested, \<open>d\<close> is
  done, \<open>acc\<close> holds what was taken.  \<open>Inr\<close> is the early return with the whole quantity
  taken, \<open>Inl\<close> the loop that fell off the end.
\<close>

locale greedy_loop =
  fixes avail :: "'s \<Rightarrow> int"
    and mk :: "'s \<Rightarrow> int \<Rightarrow> 't"
    and amount :: "'t \<Rightarrow> int"
    and run :: "int \<Rightarrow> int \<Rightarrow> 't list \<Rightarrow> 's list \<Rightarrow> (int \<times> 't list) + 't list"
  assumes run_Nil: "run q d acc [] = Inl (d, acc)"
    and run_Cons: "run q d acc (s # ss) =
      (let t = min (q - d) (avail s) in
       if 0 < t then
         (if d + t = q then Inr (acc @ [mk s t]) else run q (d + t) (acc @ [mk s t]) ss)
       else run q d acc ss)"
    and amount_mk: "amount (mk s t) = t"
begin

lemma run_step:
  obtains (skip) "avail s \<le> 0 \<or> q \<le> d" "run q d acc (s # ss) = run q d acc ss"
  | (stop) t where "0 < t" "t \<le> avail s" "d + t = q" "run q d acc (s # ss) = Inr (acc @ [mk s t])"
  | (more) t where "0 < t" "t = avail s" "d + t < q"
      "run q d acc (s # ss) = run q (d + t) (acc @ [mk s t]) ss"
proof -
  define t where "t = min (q - d) (avail s)"
  have run: "run q d acc (s # ss) =
      (if 0 < t then (if d + t = q then Inr (acc @ [mk s t]) else run q (d + t) (acc @ [mk s t]) ss)
       else run q d acc ss)"
    unfolding run_Cons t_def by (simp only: Let_def)
  have le: "t \<le> q - d" "t \<le> avail s" by (auto simp: t_def)
  show thesis
  proof (cases "0 < t")
    case False
    then have "avail s \<le> 0 \<or> q \<le> d" by (auto simp: t_def)
    with False run show thesis by (intro skip) auto
  next
    case pos: True
    show thesis
    proof (cases "d + t = q")
      case True
      with pos run le show thesis by (intro stop) auto
    next
      case False
      with le have "t = avail s" "d + t < q" by (auto simp: t_def)
      with False pos run show thesis by (intro more) auto
    qed
  qed
qed

lemma run_done_total:
  "run q d acc ss = Inr ts \<Longrightarrow> sum_of amount acc = d \<Longrightarrow> sum_of amount ts = q"
proof (induction ss arbitrary: d acc)
  case (Cons s ss)
  show ?case by (rule run_step [of s q d acc ss]) (use Cons in \<open>auto simp: amount_mk\<close>)
qed (simp add: run_Nil)

lemma run_end_total:
  "run q d acc ss = Inl (d', ts) \<Longrightarrow> sum_of amount acc = d \<Longrightarrow> sum_of amount ts = d'"
proof (induction ss arbitrary: d acc)
  case (Cons s ss)
  show ?case by (rule run_step [of s q d acc ss]) (use Cons in \<open>auto simp: amount_mk\<close>)
qed (simp add: run_Nil)

text \<open>Everything taken is positive and at most what the element had.\<close>

lemma run_done_bounds:
  "run q d acc ss = Inr ts \<Longrightarrow> t \<in> set ts \<Longrightarrow>
   t \<in> set acc \<or> (\<exists>s \<in> set ss. t = mk s (amount t) \<and> 0 < amount t \<and> amount t \<le> avail s)"
proof (induction ss arbitrary: d acc)
  case (Cons s ss)
  show ?case
  proof (rule run_step [of s q d acc ss])
    assume "run q d acc (s # ss) = run q d acc ss"
    with Cons show ?case by auto
  next
    fix u assume "0 < u" "u \<le> avail s" "run q d acc (s # ss) = Inr (acc @ [mk s u])"
    with Cons.prems show ?case by (auto simp: amount_mk)
  next
    fix u assume "0 < u" "u = avail s"
      "run q d acc (s # ss) = run q (d + u) (acc @ [mk s u]) ss"
    with Cons.prems Cons.IH [of "d + u" "acc @ [mk s u]"] show ?case by (auto simp: amount_mk)
  qed
qed (simp add: run_Nil)

lemma run_end_bounds:
  "run q d acc ss = Inl (d', ts) \<Longrightarrow> t \<in> set ts \<Longrightarrow>
   t \<in> set acc \<or> (\<exists>s \<in> set ss. t = mk s (amount t) \<and> 0 < amount t \<and> amount t \<le> avail s)"
proof (induction ss arbitrary: d acc)
  case (Cons s ss)
  show ?case
  proof (rule run_step [of s q d acc ss])
    assume "run q d acc (s # ss) = run q d acc ss"
    with Cons show ?case by auto
  next
    fix u assume "run q d acc (s # ss) = Inr (acc @ [mk s u])"
    with Cons.prems show ?case by auto
  next
    fix u assume "0 < u" "u = avail s"
      "run q d acc (s # ss) = run q (d + u) (acc @ [mk s u]) ss"
    with Cons.prems Cons.IH [of "d + u" "acc @ [mk s u]"] show ?case by (auto simp: amount_mk)
  qed
qed (simp add: run_Nil)

text \<open>What was taken comes from the elements in their order, each at most once.\<close>

lemma run_done_subseq:
  assumes key: "\<And>s t. key (mk s t) = skey s"
  shows "run q d acc ss = Inr ts \<Longrightarrow> \<exists>us. ts = acc @ us \<and> subseq (map key us) (map skey ss)"
proof (induction ss arbitrary: d acc)
  case (Cons s ss)
  show ?case
  proof (rule run_step [of s q d acc ss])
    assume "run q d acc (s # ss) = run q d acc ss"
    with Cons.prems have "run q d acc ss = Inr ts" by simp
    from Cons.IH [OF this] show ?case by (auto intro: list_emb_Cons)
  next
    fix u assume "run q d acc (s # ss) = Inr (acc @ [mk s u])"
    with Cons.prems show ?case by (intro exI [of _ "[mk s u]"]) (simp add: key)
  next
    fix u assume "run q d acc (s # ss) = run q (d + u) (acc @ [mk s u]) ss"
    with Cons.prems Cons.IH [of "d + u" "acc @ [mk s u]"] obtain us
      where "ts = acc @ mk s u # us" "subseq (map key us) (map skey ss)" by auto
    then show ?case by (intro exI [of _ "mk s u # us"]) (simp add: key)
  qed
qed (simp add: run_Nil)

lemma run_done_keyed:
  assumes key: "\<And>s t. key (mk s t) = skey s"
  shows "run q d acc ss = Inr ts \<Longrightarrow>
    group_sum key amount ts x
      \<le> group_sum key amount acc x + group_sum skey (\<lambda>s. max 0 (avail s)) ss x"
proof (induction ss arbitrary: d acc)
  case (Cons s ss)
  have nn: "0 \<le> group_sum skey (\<lambda>s. max 0 (avail s)) ss x" by (rule group_sum_nonneg) simp
  show ?case
  proof (rule run_step [of s q d acc ss])
    assume "run q d acc (s # ss) = run q d acc ss"
    with Cons.prems Cons.IH [of d acc] have "group_sum key amount ts x
        \<le> group_sum key amount acc x + group_sum skey (\<lambda>s. max 0 (avail s)) ss x" by simp
    then show ?case by (auto simp: max_def)
  next
    fix u assume "u \<le> avail s" "run q d acc (s # ss) = Inr (acc @ [mk s u])"
    with Cons.prems nn show ?case by (auto simp: key amount_mk)
  next
    fix u assume "u = avail s" "0 < u" "run q d acc (s # ss) = run q (d + u) (acc @ [mk s u]) ss"
    with Cons.prems Cons.IH [of "d + u" "acc @ [mk s u]"] show ?case
      by (auto simp: key amount_mk split: if_splits)
  qed
qed (simp add: run_Nil)

text \<open>The loop finds the whole quantity exactly when the elements hold that much.\<close>

lemma run_done_iff:
  "d < q \<Longrightarrow> (\<exists>ts. run q d acc ss = Inr ts) \<longleftrightarrow> q - d \<le> sum_of (\<lambda>s. max 0 (avail s)) ss"
proof (induction ss arbitrary: d acc)
  case Nil
  then show ?case by (simp add: run_Nil)
next
  case (Cons s ss)
  have nn: "0 \<le> sum_of (\<lambda>s. max 0 (avail s)) ss" by (rule sum_of_nonneg) simp
  show ?case
  proof (rule run_step [of s q d acc ss])
    assume "avail s \<le> 0 \<or> q \<le> d" "run q d acc (s # ss) = run q d acc ss"
    with Cons show ?case by auto
  next
    fix u assume "u \<le> avail s" "d + u = q" "run q d acc (s # ss) = Inr (acc @ [mk s u])"
    with nn show ?case by auto
  next
    fix u assume "0 < u" "u = avail s" "d + u < q"
      "run q d acc (s # ss) = run q (d + u) (acc @ [mk s u]) ss"
    with Cons.IH [of "d + u" "acc @ [mk s u]"] show ?case by auto
  qed
qed

lemma run_nothing: "q \<le> d \<Longrightarrow> run q d acc ss = Inl (d, acc)"
proof (induction ss)
  case (Cons s ss)
  show ?case by (rule run_step [of s q d acc ss]) (use Cons in auto)
qed (simp add: run_Nil)

lemma run_end_short: "run q d acc ss = Inl (d', ts) \<Longrightarrow> d < q \<Longrightarrow> d' < q"
proof (induction ss arbitrary: d acc)
  case (Cons s ss)
  show ?case by (rule run_step [of s q d acc ss]) (use Cons in auto)
qed (simp add: run_Nil)

text \<open>A loop that falls off the end has taken everything that was there.\<close>

lemma run_end_all:
  "run q d acc ss = Inl (d', ts) \<Longrightarrow> d < q \<Longrightarrow> d' = d + sum_of (\<lambda>s. max 0 (avail s)) ss"
proof (induction ss arbitrary: d acc)
  case (Cons s ss)
  show ?case by (rule run_step [of s q d acc ss]) (use Cons in \<open>auto simp: max_def\<close>)
qed (simp add: run_Nil)

lemma run_end_subseq:
  assumes key: "\<And>s t. key (mk s t) = skey s"
  shows "run q d acc ss = Inl (d', ts) \<Longrightarrow> \<exists>us. ts = acc @ us \<and> subseq (map key us) (map skey ss)"
proof (induction ss arbitrary: d acc)
  case (Cons s ss)
  show ?case
  proof (rule run_step [of s q d acc ss])
    assume "run q d acc (s # ss) = run q d acc ss"
    with Cons.prems have "run q d acc ss = Inl (d', ts)" by simp
    from Cons.IH [OF this] show ?case by (auto intro: list_emb_Cons)
  next
    fix u assume "run q d acc (s # ss) = Inr (acc @ [mk s u])"
    with Cons.prems show ?case by simp
  next
    fix u assume "run q d acc (s # ss) = run q (d + u) (acc @ [mk s u]) ss"
    with Cons.prems Cons.IH [of "d + u" "acc @ [mk s u]"] obtain us
      where "ts = acc @ mk s u # us" "subseq (map key us) (map skey ss)" by auto
    then show ?case by (intro exI [of _ "mk s u # us"]) (simp add: key)
  qed
qed (simp add: run_Nil)

end

end
