(* ===== verification/Warehouse_Models.thy ===== *)
theory Warehouse_Models
  imports Prelude
begin

text \<open>
  The tables that the stock code reads and writes (\<open>saleor/warehouse/models.py\<close>, and what it
  uses of \<open>product/models.py\<close>, \<open>channel/models.py\<close>, \<open>order/models.py\<close>) and the query-set
  methods of \<open>StockQuerySet\<close>, \<open>AllocationQueryset\<close> and \<open>ReservationQuerySet\<close>.

  A row is a record, a table the list of its rows in the order of their keys (the models'
  \<open>Meta.ordering\<close>), and the state of the database the record \<open>db\<close>.  Webhook calls that are
  queued with \<open>transaction.on_commit\<close> are the list \<open>hooks\<close>.  The \<open>_seq\<close> fields hold the next value
  of a table's key sequence.  Locks (\<open>select_for_update\<close>) have no effect on one sequential run.
\<close>

section \<open>Rows\<close>

datatype allocation_strategy = PRIORITIZE_SORTING_ORDER | PRIORITIZE_HIGH_STOCK

record channel =
  ch_id :: pk
  ch_slug :: string
  ch_allocation_strategy :: allocation_strategy

datatype cc_option = DISABLED | LOCAL_STOCK | ALL_WAREHOUSES

record warehouse =
  w_id :: pk
  w_slug :: string
  w_click_and_collect_option :: cc_option

record shipping_zone =
  z_id :: pk
  z_countries :: string

record channel_warehouse =
  cw_pk :: pk
  cw_channel :: pk
  cw_warehouse :: pk
  cw_sort_order :: "int option"

record product_variant =
  v_id :: pk
  v_product :: pk
  v_track_inventory :: bool
  v_is_preorder :: bool
  v_preorder_end_date :: "time option"
  v_preorder_global_threshold :: "int option"
  v_quantity_limit_per_customer :: "int option"

definition is_preorder_active :: "env \<Rightarrow> product_variant \<Rightarrow> bool" where
  "is_preorder_active e v \<longleftrightarrow> v_is_preorder v \<and>
     (case v_preorder_end_date v of None \<Rightarrow> True | Some d \<Rightarrow> now e \<le> d)"

record channel_listing =
  l_id :: pk
  l_variant :: pk
  l_channel :: pk
  l_preorder_quantity_threshold :: "int option"

datatype order_status =
    DRAFT | UNCONFIRMED | UNFULFILLED | PARTIALLY_FULFILLED | FULFILLED
  | PARTIALLY_RETURNED | RETURNED | CANCELED | EXPIRED

record order =
  o_id :: pk
  o_status :: order_status
  o_shipping_zone :: "pk option"
  o_shipping_country :: "string option"
  o_billing_country :: "string option"
  o_channel_country :: string

record order_line =
  ol_pk :: pk
  ol_order :: order
  ol_variant :: "pk option"

record checkout_line =
  cl_pk :: pk
  cl_variant :: product_variant
  cl_quantity :: int

record stock =
  s_pk :: pk
  s_warehouse :: pk
  s_variant :: pk
  s_quantity :: int
  s_quantity_allocated :: int

record allocation =
  a_pk :: pk
  a_order_line :: pk
  a_stock :: pk
  a_quantity_allocated :: int

record preorder_allocation =
  pa_pk :: pk
  pa_order_line :: pk
  pa_quantity :: int
  pa_listing :: pk

record reservation =
  r_pk :: pk
  r_checkout_line :: pk
  r_stock :: pk
  r_quantity_reserved :: int
  r_reserved_until :: time

record preorder_reservation =
  pr_pk :: pk
  pr_checkout_line :: pk
  pr_listing :: pk
  pr_quantity_reserved :: int
  pr_reserved_until :: time

datatype hook = Out_Of_Stock pk | Back_In_Stock pk

record db =
  channels :: "channel list"
  warehouses :: "warehouse list"
  shipping_zones :: "shipping_zone list"
  zone_channels :: "(pk \<times> pk) list"        \<comment> \<open>(shipping zone, channel)\<close>
  warehouse_zones :: "(pk \<times> pk) list"      \<comment> \<open>(warehouse, shipping zone)\<close>
  channel_warehouses :: "channel_warehouse list"
  product_variants :: "product_variant list"
  channel_listings :: "channel_listing list"
  order_lines :: "order_line list"
  stocks :: "stock list"
  allocations :: "allocation list"
  preorder_allocations :: "preorder_allocation list"
  reservations :: "reservation list"
  preorder_reservations :: "preorder_reservation list"
  hooks :: "hook list"
  stock_seq :: pk
  allocation_seq :: pk
  preorder_allocation_seq :: pk
  reservation_seq :: pk
  preorder_reservation_seq :: pk

section \<open>Errors (\<open>saleor/core/exceptions.py\<close>)\<close>

record insufficient_stock_data =
  i_available_quantity :: int
  i_variant :: "pk option"
  i_order_line :: "pk option"
  i_warehouse_pk :: "pk option"

datatype error =
    Insufficient_Stock "insufficient_stock_data list"
  | Allocation_Error "pk list"
  | Preorder_Allocation_Error pk
  | Quantity_Limit_Error int
  | Integrity_Error
  | Value_Error
  | Key_Error
  | Index_Error
  | Type_Error
  | Attribute_Error
  | Assertion_Error
  | Unbound_Local_Error

section \<open>Country (\<open>core/utils/country.py\<close>, \<open>order/utils.py\<close>)\<close>

definition get_active_country ::
  "string \<Rightarrow> string option \<Rightarrow> string option \<Rightarrow> string option \<Rightarrow> string" where
  "get_active_country channel_default shipping_address billing_address address_data =
     (case address_data of Some c \<Rightarrow> c | None \<Rightarrow>
       (case shipping_address of Some c \<Rightarrow> c | None \<Rightarrow>
         (case billing_address of Some c \<Rightarrow> c | None \<Rightarrow> channel_default)))"

definition get_order_country :: "order \<Rightarrow> string" where
  "get_order_country o' =
     get_active_country (o_channel_country o') (o_shipping_country o') (o_billing_country o') None"

section \<open>Queries on stocks\<close>

definition allocated_sum :: "db \<Rightarrow> pk \<Rightarrow> int" where
  "allocated_sum d sk = group_sum a_stock a_quantity_allocated (allocations d) sk"

definition available_quantity :: "db \<Rightarrow> stock \<Rightarrow> int" where
  "available_quantity d s = s_quantity s -
     group_sum a_stock a_quantity_allocated
       (filter (\<lambda>a. 0 < a_quantity_allocated a) (allocations d)) (s_pk s)"

definition reserved_quantity :: "env \<Rightarrow> db \<Rightarrow> stock \<Rightarrow> int" where
  "reserved_quantity e d s =
     group_sum r_stock r_quantity_reserved
       (filter (\<lambda>r. now e < r_reserved_until r) (reservations d)) (s_pk s)"

definition channels_of_slug :: "db \<Rightarrow> string \<Rightarrow> pk list" where
  "channels_of_slug d slug = map ch_id (filter (\<lambda>c. ch_slug c = slug) (channels d))"

definition warehouse_in_channels :: "db \<Rightarrow> pk list \<Rightarrow> pk \<Rightarrow> bool" where
  "warehouse_in_channels d chs w \<longleftrightarrow>
     list_ex (\<lambda>cw. cw_warehouse cw = w \<and> cw_channel cw \<in> set chs) (channel_warehouses d)"

definition for_channel_and_click_and_collect :: "db \<Rightarrow> string \<Rightarrow> stock list" where
  "for_channel_and_click_and_collect d slug =
     filter (\<lambda>s. warehouse_in_channels d (channels_of_slug d slug) (s_warehouse s)) (stocks d)"

definition truthy_str :: "string option \<Rightarrow> bool" where
  "truthy_str c \<longleftrightarrow> c \<noteq> None \<and> c \<noteq> Some []"

definition zone_serves :: "db \<Rightarrow> string option \<Rightarrow> pk \<Rightarrow> bool" where
  "zone_serves d country_code z \<longleftrightarrow>
     (case country_code of None \<Rightarrow> True | Some c \<Rightarrow> c = [] \<or>
        list_ex (\<lambda>sz. z_id sz = z \<and> sublist c (z_countries sz)) (shipping_zones d))"

definition for_channel_and_country ::
  "db \<Rightarrow> string \<Rightarrow> string option \<Rightarrow> bool \<Rightarrow> stock list" where
  "for_channel_and_country d slug country_code include_cc_warehouses =
     (let chs = channels_of_slug d slug;
          zones = filter (zone_serves d country_code)
                    (map fst (filter (\<lambda>(z, c). c \<in> set chs) (zone_channels d)));
          by_zone = (\<lambda>w. list_ex (\<lambda>(w', z). w' = w \<and> z \<in> set zones) (warehouse_zones d)
                          \<and> warehouse_in_channels d chs w);
          cc = (\<lambda>w. (\<not> truthy_str country_code \<or> include_cc_warehouses)
                     \<and> warehouse_in_channels d chs w
                     \<and> list_ex (\<lambda>wh. w_id wh = w
                          \<and> w_click_and_collect_option wh \<in> {LOCAL_STOCK, ALL_WAREHOUSES}) (warehouses d))
      in filter (\<lambda>s. by_zone (s_warehouse s) \<or> cc (s_warehouse s)) (stocks d))"

definition get_variant_stocks_for_country :: "db \<Rightarrow> string option \<Rightarrow> string \<Rightarrow> pk \<Rightarrow> stock list" where
  "get_variant_stocks_for_country d country slug v =
     filter (\<lambda>s. s_variant s = v) (for_channel_and_country d slug country False)"

definition get_variants_stocks_for_country ::
  "db \<Rightarrow> string option \<Rightarrow> string \<Rightarrow> pk list \<Rightarrow> stock list" where
  "get_variants_stocks_for_country d country slug vs =
     filter (\<lambda>s. s_variant s \<in> set vs) (for_channel_and_country d slug country False)"

definition get_product_stocks_for_country_and_channel ::
  "db \<Rightarrow> string option \<Rightarrow> string \<Rightarrow> pk \<Rightarrow> stock list" where
  "get_product_stocks_for_country_and_channel d country slug p =
     filter (\<lambda>s. list_ex (\<lambda>v. v_id v = s_variant s \<and> v_product v = p) (product_variants d))
       (for_channel_and_country d slug country False)"

section \<open>Operations of the row classes\<close>

text \<open>\<open>Stock.increase_stock\<close> and \<open>Stock.decrease_stock\<close> with \<open>commit\<close>: one \<open>UPDATE\<close> by \<open>F\<close> expression.\<close>

definition stock_increase_stock :: "pk \<Rightarrow> int \<Rightarrow> db \<Rightarrow> db" where
  "stock_increase_stock sk q d = d\<lparr>stocks :=
     bulk_update s_pk [(sk, \<lambda>s. s\<lparr>s_quantity := s_quantity s + q\<rparr>)] (stocks d)\<rparr>"

definition stock_decrease_stock :: "pk \<Rightarrow> int \<Rightarrow> db \<Rightarrow> db" where
  "stock_decrease_stock sk q d = d\<lparr>stocks :=
     bulk_update s_pk [(sk, \<lambda>s. s\<lparr>s_quantity := s_quantity s - q\<rparr>)] (stocks d)\<rparr>"

text \<open>\<open>annotate_stock_available_quantity\<close>: no clamping at 0, every allocation counted.\<close>

definition stock_available_quantity :: "db \<Rightarrow> stock \<Rightarrow> int" where
  "stock_available_quantity d s = s_quantity s - allocated_sum d (s_pk s)"

definition available_quantity_for_stock :: "db \<Rightarrow> stock \<Rightarrow> int" where
  "available_quantity_for_stock d s = max (s_quantity s - allocated_sum d (s_pk s)) 0"

definition not_expired :: "env \<Rightarrow> reservation list \<Rightarrow> reservation list" where
  "not_expired e rs = filter (\<lambda>r. now e < r_reserved_until r) rs"

definition exclude_checkout_lines :: "checkout_line list \<Rightarrow> reservation list \<Rightarrow> reservation list" where
  "exclude_checkout_lines ls rs =
     (if ls = [] then rs else filter (\<lambda>r. r_checkout_line r \<notin> cl_pk ` set ls) rs)"

definition preorder_not_expired :: "env \<Rightarrow> preorder_reservation list \<Rightarrow> preorder_reservation list" where
  "preorder_not_expired e rs = filter (\<lambda>r. now e < pr_reserved_until r) rs"

definition preorder_exclude_checkout_lines ::
  "checkout_line list \<Rightarrow> preorder_reservation list \<Rightarrow> preorder_reservation list" where
  "preorder_exclude_checkout_lines ls rs =
     (if ls = [] then rs else filter (\<lambda>r. pr_checkout_line r \<notin> cl_pk ` set ls) rs)"

section \<open>Inserting rows\<close>

text \<open>
  \<open>bulk_create\<close> gives the objects the next keys of the sequence; the database refuses the
  whole statement when a \<open>unique_together\<close> pair is already there or comes twice, or when a
  \<open>PositiveIntegerField\<close> would be negative.
\<close>

fun number_from :: "pk \<Rightarrow> (pk \<Rightarrow> 'r) list \<Rightarrow> 'r list" where
  "number_from k [] = []"
| "number_from k (f # fs) = f k # number_from (Suc k) fs"

definition insert_allocations ::
  "(pk \<Rightarrow> allocation) list \<Rightarrow> db \<Rightarrow> error + (allocation list \<times> db)" where
  "insert_allocations objs d =
     (let new = number_from (allocation_seq d) objs in
      if may_insert (\<lambda>a. (a_order_line a, a_stock a)) (a_quantity_allocated) (allocations d) new
      then Inr (new, d\<lparr>allocations := allocations d @ new,
                      allocation_seq := allocation_seq d + length objs\<rparr>)
      else Inl Integrity_Error)"

definition insert_stocks ::
  "(pk \<Rightarrow> stock) list \<Rightarrow> db \<Rightarrow> error + (stock list \<times> db)" where
  "insert_stocks objs d =
     (let new = number_from (stock_seq d) objs in
      if may_insert (\<lambda>s. (s_warehouse s, s_variant s)) (\<lambda>_. 0) (stocks d) new
      then Inr (new, d\<lparr>stocks := stocks d @ new,
                      stock_seq := stock_seq d + length objs\<rparr>)
      else Inl Integrity_Error)"

definition insert_preorder_allocations ::
  "(pk \<Rightarrow> preorder_allocation) list \<Rightarrow> db \<Rightarrow> error + (preorder_allocation list \<times> db)" where
  "insert_preorder_allocations objs d =
     (let new = number_from (preorder_allocation_seq d) objs in
      if may_insert (\<lambda>a. (pa_order_line a, pa_listing a)) (pa_quantity) (preorder_allocations d) new
      then Inr (new, d\<lparr>preorder_allocations := preorder_allocations d @ new,
                      preorder_allocation_seq := preorder_allocation_seq d + length objs\<rparr>)
      else Inl Integrity_Error)"

definition insert_reservations ::
  "(pk \<Rightarrow> reservation) list \<Rightarrow> db \<Rightarrow> error + (reservation list \<times> db)" where
  "insert_reservations objs d =
     (let new = number_from (reservation_seq d) objs in
      if may_insert (\<lambda>r. (r_checkout_line r, r_stock r)) (r_quantity_reserved) (reservations d) new
      then Inr (new, d\<lparr>reservations := reservations d @ new,
                      reservation_seq := reservation_seq d + length objs\<rparr>)
      else Inl Integrity_Error)"

definition insert_preorder_reservations ::
  "(pk \<Rightarrow> preorder_reservation) list \<Rightarrow> db \<Rightarrow> error + (preorder_reservation list \<times> db)" where
  "insert_preorder_reservations objs d =
     (let new = number_from (preorder_reservation_seq d) objs in
      if may_insert (\<lambda>r. (pr_checkout_line r, pr_listing r)) (pr_quantity_reserved) (preorder_reservations d) new
      then Inr (new, d\<lparr>preorder_reservations := preorder_reservations d @ new,
                      preorder_reservation_seq := preorder_reservation_seq d + length objs\<rparr>)
      else Inl Integrity_Error)"

section \<open>A small shop, for the examples\<close>

definition ex_env :: env where
  "ex_env = \<lparr>now = 100, row_order = (\<lambda>xs. xs), slug_rank = (\<lambda>s. length s)\<rparr>"

definition ex_channel :: channel where
  "ex_channel = \<lparr>ch_id = 1, ch_slug = ''us'', ch_allocation_strategy = PRIORITIZE_HIGH_STOCK\<rparr>"

definition ex_variant :: "pk \<Rightarrow> product_variant" where
  "ex_variant k = \<lparr>v_id = k, v_product = k, v_track_inventory = True, v_is_preorder = False,
     v_preorder_end_date = None, v_preorder_global_threshold = None,
     v_quantity_limit_per_customer = None\<rparr>"

definition ex_order :: order where
  "ex_order = \<lparr>o_id = 1, o_status = UNCONFIRMED, o_shipping_zone = Some 1, o_shipping_country = Some ''US'',
     o_billing_country = None, o_channel_country = ''US''\<rparr>"

definition ex_order_line :: "pk \<Rightarrow> pk \<Rightarrow> order_line" where
  "ex_order_line k v = \<lparr>ol_pk = k, ol_order = ex_order, ol_variant = Some v\<rparr>"

definition ex_stock :: "pk \<Rightarrow> pk \<Rightarrow> pk \<Rightarrow> int \<Rightarrow> int \<Rightarrow> stock" where
  "ex_stock k w v q qa = \<lparr>s_pk = k, s_warehouse = w, s_variant = v, s_quantity = q,
     s_quantity_allocated = qa\<rparr>"

definition ex_allocation :: "pk \<Rightarrow> pk \<Rightarrow> pk \<Rightarrow> int \<Rightarrow> allocation" where
  "ex_allocation k line sk q = \<lparr>a_pk = k, a_order_line = line, a_stock = sk, a_quantity_allocated = q\<rparr>"

definition ex_db :: "stock list \<Rightarrow> allocation list \<Rightarrow> db" where
  "ex_db ss as = \<lparr>channels = [ex_channel],
     warehouses = [\<lparr>w_id = 1, w_slug = ''a'', w_click_and_collect_option = DISABLED\<rparr>,
                   \<lparr>w_id = 2, w_slug = ''bb'', w_click_and_collect_option = DISABLED\<rparr>],
     shipping_zones = [\<lparr>z_id = 1, z_countries = ''US''\<rparr>],
     zone_channels = [(1, 1)], warehouse_zones = [(1, 1), (2, 1)],
     channel_warehouses = [\<lparr>cw_pk = 1, cw_channel = 1, cw_warehouse = 1, cw_sort_order = Some 0\<rparr>,
                           \<lparr>cw_pk = 2, cw_channel = 1, cw_warehouse = 2, cw_sort_order = Some 1\<rparr>],
     product_variants = [ex_variant 1, ex_variant 2], channel_listings = [],
     order_lines = [ex_order_line 1 1, ex_order_line 2 1],
     stocks = ss, allocations = as, preorder_allocations = [], reservations = [],
     preorder_reservations = [], hooks = [],
     stock_seq = 10, allocation_seq = 10, preorder_allocation_seq = 1, reservation_seq = 1,
     preorder_reservation_seq = 1\<rparr>"

lemmas ex_defs = ex_env_def ex_channel_def ex_variant_def ex_order_def ex_order_line_def
  ex_stock_def ex_allocation_def ex_db_def

end
