(* ===== verification/Payment_Models.thy ===== *)
theory Payment_Models
  imports Prelude
begin

text \<open>
  The constants of \<open>saleor/payment/__init__.py\<close> and the rows of \<open>saleor/payment/models.py\<close>:
  \<open>TransactionItem\<close> with its eight amounts, \<open>TransactionEvent\<close>, \<open>Payment\<close> and \<open>Transaction\<close>, with
  the methods of \<open>Payment\<close>.  Amounts are exact rationals; columns that the modelled code neither reads nor writes
  (names, addresses, tokens of the gateway, metadata) are left out.
\<close>

section \<open>Constants\<close>

datatype transaction_event_type =
    AUTHORIZATION_SUCCESS | AUTHORIZATION_FAILURE | AUTHORIZATION_ADJUSTMENT
  | AUTHORIZATION_REQUEST | AUTHORIZATION_ACTION_REQUIRED
  | CHARGE_SUCCESS | CHARGE_FAILURE | CHARGE_BACK | CHARGE_ACTION_REQUIRED | CHARGE_REQUEST
  | REFUND_SUCCESS | REFUND_FAILURE | REFUND_REVERSE | REFUND_REQUEST
  | CANCEL_SUCCESS | CANCEL_FAILURE | CANCEL_REQUEST | INFO

datatype transaction_action = CHARGE | REFUND | CANCEL

datatype transaction_kind =
    EXTERNAL | AUTH | CAPTURE | CAPTURE_FAILED | ACTION_TO_CONFIRM | VOID | PENDING
  | REFUND_KIND | REFUND_ONGOING | REFUND_FAILED | REFUND_REVERSED | CONFIRM | CANCEL_KIND

datatype charge_status =
    NOT_CHARGED | PENDING_STATUS | PARTIALLY_CHARGED | FULLY_CHARGED | PARTIALLY_REFUNDED
  | FULLY_REFUNDED | REFUSED | CANCELLED

section \<open>Transaction items and their events\<close>

record transaction_item =
  ti_pk :: pk
  ti_name :: "string option"
  ti_checkout :: "pk option"
  ti_order :: "pk option"
  ti_user :: "pk option"
  ti_app :: "pk option"
  ti_app_identifier :: "string option"
  ti_psp_reference :: "string option"
  ti_message :: "string option"
  ti_available_actions :: "transaction_action list"
  ti_currency :: string
  ti_authorized_value :: decimal
  ti_charged_value :: decimal
  ti_refunded_value :: decimal
  ti_canceled_value :: decimal
  ti_authorize_pending_value :: decimal
  ti_charge_pending_value :: decimal
  ti_refund_pending_value :: decimal
  ti_cancel_pending_value :: decimal

record transaction_event =
  te_pk :: pk
  te_transaction :: pk
  te_created_at :: time
  te_psp_reference :: "string option"
  te_message :: "string option"
  te_type :: transaction_event_type
  te_amount_value :: decimal
  te_currency :: string
  te_external_url :: "string option"
  te_user :: "pk option"
  te_app :: "pk option"
  te_app_identifier :: "string option"
  te_include_in_calculations :: bool

text \<open>The amounts by name, for \<open>getattr\<close> and \<open>setattr\<close>.\<close>

datatype amount_field =
    Authorized_Value | Charged_Value | Refunded_Value | Canceled_Value
  | Authorize_Pending_Value | Charge_Pending_Value | Refund_Pending_Value | Cancel_Pending_Value

fun getattr_value :: "amount_field \<Rightarrow> transaction_item \<Rightarrow> decimal" where
  "getattr_value Authorized_Value t = ti_authorized_value t"
| "getattr_value Charged_Value t = ti_charged_value t"
| "getattr_value Refunded_Value t = ti_refunded_value t"
| "getattr_value Canceled_Value t = ti_canceled_value t"
| "getattr_value Authorize_Pending_Value t = ti_authorize_pending_value t"
| "getattr_value Charge_Pending_Value t = ti_charge_pending_value t"
| "getattr_value Refund_Pending_Value t = ti_refund_pending_value t"
| "getattr_value Cancel_Pending_Value t = ti_cancel_pending_value t"

fun setattr_value :: "amount_field \<Rightarrow> decimal \<Rightarrow> transaction_item \<Rightarrow> transaction_item" where
  "setattr_value Authorized_Value v t = t\<lparr>ti_authorized_value := v\<rparr>"
| "setattr_value Charged_Value v t = t\<lparr>ti_charged_value := v\<rparr>"
| "setattr_value Refunded_Value v t = t\<lparr>ti_refunded_value := v\<rparr>"
| "setattr_value Canceled_Value v t = t\<lparr>ti_canceled_value := v\<rparr>"
| "setattr_value Authorize_Pending_Value v t = t\<lparr>ti_authorize_pending_value := v\<rparr>"
| "setattr_value Charge_Pending_Value v t = t\<lparr>ti_charge_pending_value := v\<rparr>"
| "setattr_value Refund_Pending_Value v t = t\<lparr>ti_refund_pending_value := v\<rparr>"
| "setattr_value Cancel_Pending_Value v t = t\<lparr>ti_cancel_pending_value := v\<rparr>"

definition truthy_text :: "string option \<Rightarrow> bool" where
  "truthy_text s \<longleftrightarrow> s \<noteq> None \<and> s \<noteq> Some []"

section \<open>Payments and their transactions\<close>

record transaction =
  tx_pk :: pk
  tx_token :: string
  tx_kind :: transaction_kind
  tx_is_success :: bool
  tx_action_required :: bool
  tx_amount :: decimal
  tx_currency :: string
  tx_error :: "string option"
  tx_customer_id :: "string option"
  tx_already_processed :: bool

record payment =
  p_pk :: pk
  p_gateway :: string
  p_is_active :: bool
  p_partial :: bool
  p_order :: "pk option"
  p_to_confirm :: bool
  p_charge_status :: charge_status
  p_total :: decimal
  p_captured_amount :: decimal
  p_currency :: string
  p_psp_reference :: "string option"
  p_transactions :: "transaction list"

definition get_last_transaction :: "payment \<Rightarrow> transaction option" where
  "get_last_transaction p = (case p_transactions p of [] \<Rightarrow> None
     | t # ts \<Rightarrow> Some (fold (\<lambda>x m. if tx_pk m < tx_pk x then x else m) ts t))"

definition authorizes :: "transaction \<Rightarrow> bool" where
  "authorizes t \<longleftrightarrow> tx_kind t = AUTH \<and> tx_is_success t \<and> \<not> tx_action_required t"

definition get_authorized_amount :: "payment \<Rightarrow> decimal" where
  "get_authorized_amount p =
     (if list_ex (\<lambda>t. tx_kind t = CAPTURE \<and> tx_is_success t) (p_transactions p) then 0
      else sum_list (map tx_amount (filter authorizes (p_transactions p))))"

definition get_charge_amount :: "payment \<Rightarrow> decimal" where
  "get_charge_amount p = p_total p - p_captured_amount p"

definition is_authorized :: "payment \<Rightarrow> bool" where
  "is_authorized p \<longleftrightarrow> list_ex authorizes (p_transactions p)"

definition not_charged :: "payment \<Rightarrow> bool" where
  "not_charged p \<longleftrightarrow> p_charge_status p = NOT_CHARGED"

definition can_authorize :: "payment \<Rightarrow> bool" where
  "can_authorize p \<longleftrightarrow> p_is_active p \<and> not_charged p"

definition can_capture :: "payment \<Rightarrow> bool" where
  "can_capture p \<longleftrightarrow> p_is_active p \<and> not_charged p"

definition can_void :: "payment \<Rightarrow> bool" where
  "can_void p \<longleftrightarrow> not_charged p \<and> is_authorized p"

definition can_refund :: "payment \<Rightarrow> bool" where
  "can_refund p \<longleftrightarrow> p_charge_status p \<in> {PARTIALLY_CHARGED, FULLY_CHARGED, PARTIALLY_REFUNDED}"

definition can_confirm :: "payment \<Rightarrow> bool" where
  "can_confirm p \<longleftrightarrow> p_is_active p \<and> not_charged p"

end
