(* ===== verification/Order_Models.thy ===== *)
theory Order_Models
  imports Warehouse_Models Payment_Models
begin

text \<open>
  Orders as the money side of \<open>saleor/order\<close> sees them: the constants of
  \<open>saleor/order/__init__.py\<close>, the columns of \<open>Order\<close>, \<open>OrderLine\<close>, \<open>Fulfillment\<close>,
  \<open>FulfillmentLine\<close> and \<open>OrderGrantedRefund\<close> that the modelled code uses, and the methods of \<open>Order\<close>.
  The rows extend the ones that the warehouse uses.
\<close>

section \<open>Constants and rows\<close>

datatype fulfillment_status =
    FULFILLED_F | REFUNDED_F | RETURNED_F | REFUNDED_AND_RETURNED | REPLACED | CANCELED_F
  | WAITING_FOR_APPROVAL

datatype order_authorize_status = AUTHORIZE_NONE | AUTHORIZE_PARTIAL | AUTHORIZE_FULL

datatype order_charge_status = CHARGE_NONE | CHARGE_PARTIAL | CHARGE_FULL | CHARGE_OVERCHARGED

datatype order_origin = CHECKOUT_ORIGIN | DRAFT_ORIGIN | REISSUE | BULK_CREATE

record sales_order = order +
  so_currency :: string
  so_total_gross_amount :: decimal
  so_total_charged_amount :: decimal
  so_total_authorized_amount :: decimal
  so_charge_status :: order_charge_status
  so_authorize_status :: order_authorize_status
  so_channel_slug :: string
  so_shipping_price_gross_amount :: decimal
  so_origin :: order_origin
  so_original :: "pk option"

record sales_line = order_line +
  sl_is_gift_card :: bool
  sl_is_shipping_required :: bool
  sl_quantity :: int
  sl_quantity_fulfilled :: int
  sl_unit_price_net_amount :: decimal
  sl_unit_price_gross_amount :: decimal
  sl_undiscounted_unit_price_net_amount :: decimal
  sl_undiscounted_unit_price_gross_amount :: decimal
  sl_total_price_net_amount :: decimal
  sl_total_price_gross_amount :: decimal
  sl_undiscounted_total_price_net_amount :: decimal
  sl_undiscounted_total_price_gross_amount :: decimal

record fulfillment_line =
  fl_pk :: pk
  fl_order_line :: pk
  fl_quantity :: int
  fl_stock :: "pk option"

record fulfillment =
  f_pk :: pk
  f_order :: pk
  f_status :: fulfillment_status
  f_fulfillment_order :: nat
  f_tracking_number :: string
  f_total_refund_amount :: "decimal option"
  f_shipping_refund_amount :: "decimal option"
  f_lines :: "fulfillment_line list"

record granted_refund =
  gr_pk :: pk
  gr_order :: pk
  gr_amount :: decimal

record order_tables =
  orders :: "sales_order list"
  lines :: "sales_line list"
  fulfillments :: "fulfillment list"
  payments :: "payment list"
  payment_transactions :: "transaction_item list"
  granted_refunds :: "granted_refund list"
  order_seq :: pk
  line_seq :: pk
  fulfillment_seq :: pk
  fulfillment_line_seq :: pk

text \<open>The related managers of an order, \<open>order.payments.all()\<close> and so on.\<close>

definition order_payments :: "order_tables \<Rightarrow> 'a order_scheme \<Rightarrow> payment list" where
  "order_payments T o1 = filter (\<lambda>p. p_order p = Some (o_id o1)) (payments T)"

definition order_transactions :: "order_tables \<Rightarrow> 'a order_scheme \<Rightarrow> transaction_item list" where
  "order_transactions T o1 = filter (\<lambda>t. ti_order t = Some (o_id o1)) (payment_transactions T)"

definition order_granted_refunds :: "order_tables \<Rightarrow> 'a order_scheme \<Rightarrow> granted_refund list" where
  "order_granted_refunds T o1 = filter (\<lambda>r. gr_order r = o_id o1) (granted_refunds T)"

definition order_fulfillments :: "order_tables \<Rightarrow> 'a order_scheme \<Rightarrow> fulfillment list" where
  "order_fulfillments T o1 = filter (\<lambda>f. f_order f = o_id o1) (fulfillments T)"

definition order_lines_of :: "order_tables \<Rightarrow> 'a order_scheme \<Rightarrow> sales_line list" where
  "order_lines_of T o1 = filter (\<lambda>l. o_id (ol_order l) = o_id o1) (lines T)"

section \<open>Methods of \<open>Order\<close> and \<open>Fulfillment\<close>\<close>

definition is_fully_paid :: "sales_order \<Rightarrow> bool" where
  "is_fully_paid o1 \<longleftrightarrow> so_total_gross_amount o1 \<le> so_total_charged_amount o1"

definition is_partly_paid :: "sales_order \<Rightarrow> bool" where
  "is_partly_paid o1 \<longleftrightarrow> 0 < so_total_charged_amount o1"

definition is_draft :: "'a order_scheme \<Rightarrow> bool" where
  "is_draft o1 \<longleftrightarrow> o_status o1 = DRAFT"

definition is_unconfirmed :: "'a order_scheme \<Rightarrow> bool" where
  "is_unconfirmed o1 \<longleftrightarrow> o_status o1 = UNCONFIRMED"

definition is_expired :: "'a order_scheme \<Rightarrow> bool" where
  "is_expired o1 \<longleftrightarrow> o_status o1 = EXPIRED"

definition is_open :: "'a order_scheme \<Rightarrow> bool" where
  "is_open o1 \<longleftrightarrow> o_status o1 \<in> {UNFULFILLED, PARTIALLY_FULFILLED}"

definition get_last_payment :: "payment list \<Rightarrow> payment option" where
  \<comment> \<open>\<open>payment/model_helpers.py\<close>; \<open>Order.get_last_payment\<close> is the same on the order's payments.\<close>
  "get_last_payment ps = (case filter (\<lambda>p. \<not> p_partial p) ps of [] \<Rightarrow> None
     | p # ps' \<Rightarrow> Some (fold (\<lambda>x m. if p_pk m < p_pk x then x else m) ps' p))"

definition get_total_authorized :: "payment list \<Rightarrow> decimal" where
  "get_total_authorized ps = (case get_last_payment ps of None \<Rightarrow> 0
     | Some p \<Rightarrow> if p_is_active p then get_authorized_amount p else 0)"

definition can_cancel :: "order_tables \<Rightarrow> 'a order_scheme \<Rightarrow> bool" where
  "can_cancel T o1 \<longleftrightarrow>
     filter (\<lambda>f. f_status f \<notin> {CANCELED_F, REFUNDED_F, REPLACED, REFUNDED_AND_RETURNED, RETURNED_F})
       (order_fulfillments T o1) = []
     \<and> o_status o1 \<notin> {CANCELED, DRAFT, EXPIRED}"

definition order_payment :: "order_tables \<Rightarrow> 'a order_scheme \<Rightarrow> payment option \<Rightarrow> payment option" where
  "order_payment T o1 p = (case p of None \<Rightarrow> get_last_payment (order_payments T o1) | Some p \<Rightarrow> Some p)"

definition order_can_capture :: "order_tables \<Rightarrow> 'a order_scheme \<Rightarrow> payment option \<Rightarrow> bool" where
  "order_can_capture T o1 p = (case order_payment T o1 p of None \<Rightarrow> False
     | Some p \<Rightarrow> can_capture p \<and> o_status o1 \<notin> {DRAFT, CANCELED, EXPIRED})"

definition order_can_void :: "order_tables \<Rightarrow> 'a order_scheme \<Rightarrow> payment option \<Rightarrow> bool" where
  "order_can_void T o1 p = (case order_payment T o1 p of None \<Rightarrow> False | Some p \<Rightarrow> can_void p)"

definition order_can_refund :: "order_tables \<Rightarrow> 'a order_scheme \<Rightarrow> payment option \<Rightarrow> bool" where
  "order_can_refund T o1 p = (case order_payment T o1 p of None \<Rightarrow> False | Some p \<Rightarrow> can_refund p)"

definition can_mark_as_paid :: "order_tables \<Rightarrow> 'a order_scheme \<Rightarrow> payment list \<Rightarrow> bool" where
  \<comment> \<open>An empty list of payments is falsy, as no list is.\<close>
  "can_mark_as_paid T o1 ps \<longleftrightarrow> length (if ps = [] then order_payments T o1 else ps) = 0"

definition total_balance :: "sales_order \<Rightarrow> decimal" where
  "total_balance o1 = so_total_charged_amount o1 - so_total_gross_amount o1"

definition get_total_quantity :: "order_tables \<Rightarrow> 'a order_scheme \<Rightarrow> int" where
  "get_total_quantity T o1 = sum_of sl_quantity (order_lines_of T o1)"

definition fulfillment_total_quantity :: "fulfillment \<Rightarrow> int" where
  "fulfillment_total_quantity f = sum_of fl_quantity (f_lines f)"

section \<open>Querysets of orders\<close>

definition confirmed :: "sales_order list \<Rightarrow> sales_order list" where
  "confirmed qs = filter (\<lambda>o1. o_status o1 \<notin> {DRAFT, UNCONFIRMED}) qs"

definition ready_to_fulfill :: "order_tables \<Rightarrow> sales_order list \<Rightarrow> sales_order list" where
  "ready_to_fulfill T qs = filter (\<lambda>o1. list_ex p_is_active (order_payments T o1)
     \<and> o_status o1 \<in> {UNFULFILLED, PARTIALLY_FULFILLED}
     \<and> so_total_gross_amount o1 \<le> so_total_charged_amount o1) qs"

definition ready_to_confirm :: "sales_order list \<Rightarrow> sales_order list" where
  "ready_to_confirm qs = filter (\<lambda>o1. o_status o1 = UNCONFIRMED) qs"

end
