(* ===== verification/Order_Amounts.thy ===== *)
theory Order_Amounts
  imports Order_Models
begin

text \<open>
  What an order is charged and authorized for, \<open>updates_amounts_for_order\<close> and its parts in
  \<open>saleor/order/utils.py\<close>, with \<open>quantize_price\<close> of \<open>saleor/core/prices.py\<close>.  The number of digits of a currency is \<open>babel\<close>'s and a parameter \<open>precision\<close>.
\<close>

section \<open>Rounding to the currency\<close>

definition round_half_even :: "rat \<Rightarrow> int" where
  \<comment> \<open>\<open>ROUND_HALF_EVEN\<close> of the default decimal context.\<close>
  "round_half_even x = (let f = \<lfloor>x\<rfloor>; r = x - of_int f
     in if r < 1 / 2 then f else if 1 / 2 < r then f + 1 else if even f then f else f + 1)"

definition quantize :: "nat \<Rightarrow> decimal \<Rightarrow> decimal" where
  "quantize places x = of_int (round_half_even (x * 10 ^ places)) / 10 ^ places"

definition quantize_price :: "(string \<Rightarrow> nat) \<Rightarrow> decimal \<Rightarrow> string \<Rightarrow> decimal" where
  "quantize_price precision price currency = quantize (precision currency) price"

text \<open>What the status functions rely on of the rounding.\<close>

locale quantizer =
  fixes q :: "decimal \<Rightarrow> decimal"
  assumes q_mono: "x \<le> y \<Longrightarrow> q x \<le> q y"
    and q_zero: "q 0 = 0"
    and q_again: "q (q x) = q x"
    and q_minus: "q x = x \<Longrightarrow> q y = y \<Longrightarrow> q (x - y) = x - y"
begin

lemma q_nonneg: "0 \<le> x \<Longrightarrow> 0 \<le> q x"
  using q_mono [of 0 x] by (simp add: q_zero)

lemma q_between: "q x = x \<Longrightarrow> x \<le> y \<Longrightarrow> x \<le> q y"
  using q_mono [of x y] by simp

end

lemma round_half_even_mono: "x \<le> y \<Longrightarrow> round_half_even x \<le> round_half_even y"
proof -
  assume "x \<le> y"
  then have "\<lfloor>x\<rfloor> \<le> \<lfloor>y\<rfloor>" by (rule floor_mono)
  show ?thesis
  proof (cases "\<lfloor>x\<rfloor> = \<lfloor>y\<rfloor>")
    case True
    with \<open>x \<le> y\<close> show ?thesis by (simp add: round_half_even_def Let_def)
  next
    case False
    with \<open>\<lfloor>x\<rfloor> \<le> \<lfloor>y\<rfloor>\<close> have "\<lfloor>x\<rfloor> + 1 \<le> \<lfloor>y\<rfloor>" by simp
    moreover have "round_half_even x \<le> \<lfloor>x\<rfloor> + 1" "\<lfloor>y\<rfloor> \<le> round_half_even y"
      by (simp_all add: round_half_even_def Let_def)
    ultimately show ?thesis by simp
  qed
qed

lemma round_half_even_of_int [simp]: "round_half_even (of_int n) = n"
  by (simp add: round_half_even_def)

lemma round_half_even_error: "\<bar>of_int (round_half_even x) - x\<bar> \<le> 1 / 2"
proof -
  have "of_int \<lfloor>x\<rfloor> \<le> x" "x < of_int \<lfloor>x\<rfloor> + 1" by linarith+
  then show ?thesis by (auto simp: round_half_even_def Let_def abs_le_iff)
qed

lemma quantize_fixed: "quantize p x = x \<longleftrightarrow> (\<exists>n. x = of_int n / 10 ^ p)"
proof
  assume "quantize p x = x"
  then show "\<exists>n. x = of_int n / 10 ^ p" by (metis quantize_def)
qed (auto simp: quantize_def)

lemma quantize_error: "\<bar>quantize p x - x\<bar> \<le> 1 / 2 / 10 ^ p"
proof -
  have "quantize p x - x = (of_int (round_half_even (x * 10 ^ p)) - x * 10 ^ p) / 10 ^ p"
    by (simp add: quantize_def diff_divide_distrib)
  then have "\<bar>quantize p x - x\<bar> = \<bar>of_int (round_half_even (x * 10 ^ p)) - x * 10 ^ p\<bar> / 10 ^ p"
    by (simp add: abs_divide)
  with divide_right_mono [OF round_half_even_error [of "x * 10 ^ p"], of "10 ^ p"] show ?thesis by simp
qed

interpretation price: quantizer "quantize p" for p
proof unfold_locales
  fix x y :: decimal
  show "quantize p x \<le> quantize p y" if "x \<le> y"
    using that by (auto simp: quantize_def intro!: divide_right_mono round_half_even_mono)
  show "quantize p 0 = 0" using round_half_even_of_int [of 0] by (simp add: quantize_def)
  show "quantize p (quantize p x) = quantize p x" by (auto simp: quantize_fixed) (auto simp: quantize_def)
  show "quantize p (x - y) = x - y" if "quantize p x = x" "quantize p y = y"
    using that unfolding quantize_fixed by (metis diff_divide_distrib of_int_diff)
qed

section \<open>Statuses\<close>

text \<open>The statuses in the order in which more money moves them.\<close>

instantiation order_charge_status :: linorder
begin

fun charge_rank :: "order_charge_status \<Rightarrow> nat" where
  "charge_rank CHARGE_NONE = 0" | "charge_rank CHARGE_PARTIAL = 1"
| "charge_rank CHARGE_FULL = 2" | "charge_rank CHARGE_OVERCHARGED = 3"

definition less_eq_order_charge_status :: "order_charge_status \<Rightarrow> order_charge_status \<Rightarrow> bool" where
  "s \<le> s' \<longleftrightarrow> charge_rank s \<le> charge_rank s'"

definition less_order_charge_status :: "order_charge_status \<Rightarrow> order_charge_status \<Rightarrow> bool" where
  "s < s' \<longleftrightarrow> charge_rank s < charge_rank s'"

instance
proof
  fix s s' :: order_charge_status
  show "s \<le> s' \<Longrightarrow> s' \<le> s \<Longrightarrow> s = s'"
    by (cases s; cases s') (simp_all add: less_eq_order_charge_status_def)
qed (auto simp: less_eq_order_charge_status_def less_order_charge_status_def)

end

definition update_order_charge_status :: "(string \<Rightarrow> nat) \<Rightarrow> decimal \<Rightarrow> sales_order \<Rightarrow> sales_order" where
  "update_order_charge_status precision granted_refund_amount o1 =
     (let total_charged = quantize_price precision (so_total_charged_amount o1) (so_currency o1);
          current_total_gross = so_total_gross_amount o1 - granted_refund_amount;
          current_total_gross = max current_total_gross 0;
          current_total_gross =
            quantize_price precision (current_total_gross - granted_refund_amount) (so_currency o1)
      in if total_charged = current_total_gross then o1\<lparr>so_charge_status := CHARGE_FULL\<rparr>
         else if total_charged \<le> 0 then o1\<lparr>so_charge_status := CHARGE_NONE\<rparr>
         else if total_charged < current_total_gross then o1\<lparr>so_charge_status := CHARGE_PARTIAL\<rparr>
         else o1\<lparr>so_charge_status := CHARGE_OVERCHARGED\<rparr>)"

definition update_order_total_charged ::
  "payment list \<Rightarrow> transaction_item list \<Rightarrow> sales_order \<Rightarrow> sales_order" where
  "update_order_total_charged ps ts o1 = o1\<lparr>so_total_charged_amount :=
     sum_list (map p_captured_amount ps) + sum_list (map ti_charged_value ts)\<rparr>"

definition granted_amount :: "granted_refund list \<Rightarrow> decimal" where
  "granted_amount rs = sum_list (map gr_amount rs)"

definition update_order_charge_data ::
  "(string \<Rightarrow> nat) \<Rightarrow> payment list \<Rightarrow> transaction_item list \<Rightarrow> granted_refund list \<Rightarrow> sales_order \<Rightarrow> sales_order" where
  "update_order_charge_data precision ps ts rs o1 =
     update_order_charge_status precision (granted_amount rs) (update_order_total_charged ps ts o1)"

definition update_order_total_authorized ::
  "payment list \<Rightarrow> transaction_item list \<Rightarrow> sales_order \<Rightarrow> sales_order" where
  "update_order_total_authorized ps ts o1 = o1\<lparr>so_total_authorized_amount :=
     get_total_authorized ps + sum_list (map ti_authorized_value ts)\<rparr>"

definition update_order_authorize_status :: "(string \<Rightarrow> nat) \<Rightarrow> decimal \<Rightarrow> sales_order \<Rightarrow> sales_order" where
  "update_order_authorize_status precision granted_refund_amount o1 =
     (let total_covered = quantize_price precision
            (so_total_authorized_amount o1 + so_total_charged_amount o1) (so_currency o1);
          current_total_gross = so_total_gross_amount o1 - granted_refund_amount;
          current_total_gross = max current_total_gross 0;
          current_total_gross = quantize_price precision current_total_gross (so_currency o1)
      in if total_covered = 0 \<and> so_total_gross_amount o1 = 0 then o1\<lparr>so_authorize_status := AUTHORIZE_FULL\<rparr>
         else if total_covered = 0 then o1\<lparr>so_authorize_status := AUTHORIZE_NONE\<rparr>
         else if current_total_gross \<le> total_covered then o1\<lparr>so_authorize_status := AUTHORIZE_FULL\<rparr>
         else o1\<lparr>so_authorize_status := AUTHORIZE_PARTIAL\<rparr>)"

definition update_order_authorize_data ::
  "(string \<Rightarrow> nat) \<Rightarrow> payment list \<Rightarrow> transaction_item list \<Rightarrow> granted_refund list \<Rightarrow> sales_order \<Rightarrow> sales_order" where
  "update_order_authorize_data precision ps ts rs o1 =
     update_order_authorize_status precision (granted_amount rs) (update_order_total_authorized ps ts o1)"

definition save_order :: "sales_order \<Rightarrow> order_tables \<Rightarrow> order_tables" where
  "save_order o1 T = T\<lparr>orders := map (\<lambda>x. if o_id x = o_id o1 then o1 else x) (orders T)\<rparr>"

definition updated_amounts :: "(string \<Rightarrow> nat) \<Rightarrow> order_tables \<Rightarrow> sales_order \<Rightarrow> sales_order" where
  "updated_amounts precision T o1 =
     update_order_authorize_data precision (order_payments T o1) (order_transactions T o1) (order_granted_refunds T o1)
       (update_order_charge_data precision (order_payments T o1) (order_transactions T o1)
          (order_granted_refunds T o1) o1)"

definition updates_amounts_for_order :: "(string \<Rightarrow> nat) \<Rightarrow> sales_order \<Rightarrow> order_tables \<Rightarrow> order_tables" where
  "updates_amounts_for_order precision o1 T = save_order (updated_amounts precision T o1) T"

section \<open>What the statuses say\<close>

text \<open>The two status functions as classifications, and the columns they leave alone.\<close>

definition charge_class :: "decimal \<Rightarrow> decimal \<Rightarrow> order_charge_status" where
  "charge_class charged goal = (if charged = goal then CHARGE_FULL else if charged \<le> 0 then CHARGE_NONE
     else if charged < goal then CHARGE_PARTIAL else CHARGE_OVERCHARGED)"

lemma charge_class_mono: "0 \<le> c \<Longrightarrow> c \<le> c' \<Longrightarrow> charge_class c goal \<le> charge_class c' goal"
  by (auto simp: charge_class_def less_eq_order_charge_status_def)

lemma update_order_charge_data_simps:
  "so_charge_status (update_order_charge_data precision ps ts rs o1) = charge_class
     (quantize (precision (so_currency o1)) (sum_list (map p_captured_amount ps) + sum_list (map ti_charged_value ts)))
     (quantize (precision (so_currency o1)) (max (so_total_gross_amount o1 - granted_amount rs) 0 - granted_amount rs))"
  "so_total_charged_amount (update_order_charge_data precision ps ts rs o1) =
     sum_list (map p_captured_amount ps) + sum_list (map ti_charged_value ts)"
  "so_total_gross_amount (update_order_charge_data precision ps ts rs o1) = so_total_gross_amount o1"
  "so_currency (update_order_charge_data precision ps ts rs o1) = so_currency o1"
  by (simp_all add: update_order_charge_data_def update_order_total_charged_def update_order_charge_status_def
      quantize_price_def charge_class_def Let_def)

lemma update_order_authorize_data_simps:
  "so_charge_status (update_order_authorize_data precision ps ts rs o1) = so_charge_status o1"
  "so_total_charged_amount (update_order_authorize_data precision ps ts rs o1) = so_total_charged_amount o1"
  "so_total_gross_amount (update_order_authorize_data precision ps ts rs o1) = so_total_gross_amount o1"
  by (simp_all add: update_order_authorize_data_def update_order_total_authorized_def
      update_order_authorize_status_def Let_def)

text \<open>
  Charging more never lowers the charge status of an order, whatever its total and the refunds granted.
\<close>

lemma charge_status_monotone:
  assumes "0 \<le> sum_list (map p_captured_amount ps) + sum_list (map ti_charged_value ts)"
    and "sum_list (map p_captured_amount ps) + sum_list (map ti_charged_value ts)
         \<le> sum_list (map p_captured_amount ps') + sum_list (map ti_charged_value ts')"
  shows "so_charge_status (update_order_charge_data precision ps ts rs o1)
         \<le> so_charge_status (update_order_charge_data precision ps' ts' rs o1)"
  unfolding update_order_charge_data_simps
  by (rule charge_class_mono) (use assms in \<open>auto intro: price.q_nonneg price.q_mono\<close>)

text \<open>
  A granted refund is subtracted twice from the total: an order that has been charged exactly its
  total less the refund, which the documentation calls fully charged, is overcharged, or not
  charged at all when the whole total is refunded.
\<close>

lemma granted_refund_counts_twice:
  assumes "quantize (precision (so_currency o1)) (so_total_gross_amount o1) = so_total_gross_amount o1"
    and "quantize (precision (so_currency o1)) (granted_amount rs) = granted_amount rs"
    and "0 < granted_amount rs" and "granted_amount rs \<le> so_total_gross_amount o1"
    and "sum_list (map p_captured_amount ps) + sum_list (map ti_charged_value ts)
         = so_total_gross_amount o1 - granted_amount rs"
  shows "so_charge_status (update_order_charge_data precision ps ts rs o1) =
    (if granted_amount rs = so_total_gross_amount o1 then CHARGE_NONE else CHARGE_OVERCHARGED)"
proof -
  let ?q = "quantize (precision (so_currency o1))"
  have one: "?q (so_total_gross_amount o1 - granted_amount rs) = so_total_gross_amount o1 - granted_amount rs"
    by (rule price.q_minus [OF assms(1,2)])
  have "?q (so_total_gross_amount o1 - granted_amount rs - granted_amount rs)
      = so_total_gross_amount o1 - granted_amount rs - granted_amount rs"
    by (rule price.q_minus [OF one assms(2)])
  with one assms(3-5) show ?thesis
    by (simp add: update_order_charge_data_simps charge_class_def max_absorb1)
qed

text \<open>
  Without granted refunds the statuses agree: an order is fully paid exactly when its charge status
  is at least full, it is then also fully authorized, and an order that is charged in part is not
  unauthorized.
\<close>

lemma order_statuses_agree:
  assumes "order_granted_refunds T o1 = []"
    and "0 \<le> so_total_gross_amount o1"
    and "quantize (precision (so_currency o1)) (so_total_gross_amount o1) = so_total_gross_amount o1"
    and "quantize (precision (so_currency o1)) (so_total_charged_amount (updated_amounts precision T o1))
         = so_total_charged_amount (updated_amounts precision T o1)"
    and "0 \<le> so_total_charged_amount (updated_amounts precision T o1)"
    and "0 \<le> so_total_authorized_amount (updated_amounts precision T o1)"
  shows "(is_fully_paid (updated_amounts precision T o1) \<longleftrightarrow> CHARGE_FULL \<le> so_charge_status (updated_amounts precision T o1))
    \<and> (is_fully_paid (updated_amounts precision T o1) \<longrightarrow> so_authorize_status (updated_amounts precision T o1) = AUTHORIZE_FULL)
    \<and> (so_charge_status (updated_amounts precision T o1) = CHARGE_PARTIAL
       \<longrightarrow> so_authorize_status (updated_amounts precision T o1) \<noteq> AUTHORIZE_NONE)"
proof -
  let ?q = "quantize (precision (so_currency o1))" and ?o = "updated_amounts precision T o1"
  let ?c = "so_total_charged_amount ?o" and ?a = "so_total_authorized_amount ?o" and ?t = "so_total_gross_amount o1"
  have status: "so_charge_status ?o = charge_class ?c ?t"
    using assms(1-4) by (simp add: updated_amounts_def update_order_authorize_data_simps
        update_order_charge_data_simps granted_amount_def max_absorb1)
  have gross: "so_total_gross_amount ?o = ?t"
    by (simp add: updated_amounts_def update_order_authorize_data_simps update_order_charge_data_simps)
  have authorize: "so_authorize_status ?o = (if ?q (?a + ?c) = 0 \<and> ?t = 0 then AUTHORIZE_FULL
      else if ?q (?a + ?c) = 0 then AUTHORIZE_NONE else if ?t \<le> ?q (?a + ?c) then AUTHORIZE_FULL else AUTHORIZE_PARTIAL)"
    using assms(1-3) by (simp add: updated_amounts_def update_order_authorize_data_def update_order_total_authorized_def
        update_order_authorize_status_def update_order_charge_data_simps granted_amount_def quantize_price_def
        max_absorb1 Let_def)
  have covered: "?c \<le> ?q (?a + ?c)" by (rule price.q_between [OF assms(4)]) (use assms(6) in simp)
  have paid: "is_fully_paid ?o \<longleftrightarrow> ?t \<le> ?c" by (simp add: is_fully_paid_def gross)
  have "is_fully_paid ?o \<longleftrightarrow> CHARGE_FULL \<le> so_charge_status ?o"
    using assms(2,5) by (auto simp: paid status charge_class_def less_eq_order_charge_status_def)
  moreover have "is_fully_paid ?o \<longrightarrow> so_authorize_status ?o = AUTHORIZE_FULL"
    using assms(2) covered by (auto simp: paid authorize)
  moreover have "so_charge_status ?o = CHARGE_PARTIAL \<longrightarrow> so_authorize_status ?o \<noteq> AUTHORIZE_NONE"
    using covered by (auto simp: status authorize charge_class_def split: if_splits)
  ultimately show ?thesis by blast
qed

section \<open>An example\<close>

definition ex_sales_order :: sales_order where
  "ex_sales_order = \<lparr>o_id = 1, o_status = UNFULFILLED, o_shipping_zone = None, o_shipping_country = None,
     o_billing_country = None, o_channel_country = ''US'', so_currency = ''USD'', so_total_gross_amount = 100,
     so_total_charged_amount = 0, so_total_authorized_amount = 0, so_charge_status = CHARGE_NONE,
     so_authorize_status = AUTHORIZE_NONE,
     so_channel_slug = ''us'', so_shipping_price_gross_amount = 10, so_origin = CHECKOUT_ORIGIN, so_original = None\<rparr>"

definition ex_payment :: payment where
  "ex_payment = \<lparr>p_pk = 1, p_gateway = ''stripe'', p_is_active = True, p_partial = False, p_order = Some 1,
     p_to_confirm = False, p_charge_status = PARTIALLY_CHARGED, p_total = 100, p_captured_amount = 60,
     p_currency = ''USD'', p_psp_reference = None, p_transactions = []\<rparr>"

definition ex_tables :: order_tables where
  "ex_tables = \<lparr>orders = [ex_sales_order], lines = [], fulfillments = [],
     payments = [ex_payment, ex_payment\<lparr>p_pk := 2, p_captured_amount := 40\<rparr>],
     payment_transactions = [], granted_refunds = [], order_seq = 10, line_seq = 10, fulfillment_seq = 10,
     fulfillment_line_seq = 10\<rparr>"

definition two_digits :: "string \<Rightarrow> nat" where "two_digits = (\<lambda>_. 2)"

lemma charge_status_monotone_witness:
  "so_charge_status (update_order_charge_data two_digits [ex_payment] [] [] ex_sales_order)
   \<le> so_charge_status (update_order_charge_data two_digits (payments ex_tables) [] [] ex_sales_order)"
  by (rule charge_status_monotone) (simp_all add: ex_payment_def ex_tables_def)

lemma granted_refund_counts_twice_witness:
  "so_charge_status (update_order_charge_data two_digits [ex_payment] []
      [\<lparr>gr_pk = 1, gr_order = 1, gr_amount = 40\<rparr>] ex_sales_order) = CHARGE_OVERCHARGED"
  using granted_refund_counts_twice [of two_digits ex_sales_order "[\<lparr>gr_pk = 1, gr_order = 1, gr_amount = 40\<rparr>]"
      "[ex_payment]" "[]"]
  by (simp add: ex_sales_order_def ex_payment_def two_digits_def granted_amount_def quantize_def round_half_even_def)

lemma order_statuses_agree_witness:
  "is_fully_paid (updated_amounts two_digits ex_tables ex_sales_order)
   \<and> so_authorize_status (updated_amounts two_digits ex_tables ex_sales_order) = AUTHORIZE_FULL"
proof -
  let ?o = "updated_amounts two_digits ex_tables ex_sales_order"
  have "order_granted_refunds ex_tables ex_sales_order = []" "0 \<le> so_total_gross_amount ex_sales_order"
    "quantize (two_digits (so_currency ex_sales_order)) (so_total_gross_amount ex_sales_order)
      = so_total_gross_amount ex_sales_order"
    "quantize (two_digits (so_currency ex_sales_order)) (so_total_charged_amount ?o) = so_total_charged_amount ?o"
    "0 \<le> so_total_charged_amount ?o" "0 \<le> so_total_authorized_amount ?o" "is_fully_paid ?o" by code_simp+
  with order_statuses_agree [of ex_tables ex_sales_order two_digits] show ?thesis by blast
qed

end
