(* ===== verification/Decimal_Context.thy ===== *)
theory Decimal_Context
  imports Order_Amounts
begin

text \<open>
  The default context of Python's \<open>decimal\<close>: results are rounded, half to even, to 28 significant digits.
  Sums and products of amounts are exact (lemma \<open>ctx_exact\<close>); quotients, and what is computed from them,
  are rounded by \<open>ctx\<close>.  Dividing by zero raises \<open>InvalidOperation\<close> or \<open>DivisionByZero\<close>.
\<close>

fun ndigits :: "nat \<Rightarrow> nat" where
  "ndigits n = (if n < 10 then 1 else Suc (ndigits (n div 10)))"

declare ndigits.simps [simp del]

definition exponent :: "decimal \<Rightarrow> int" where
  \<comment> \<open>The exponent of the leading digit of a positive number.\<close>
  "exponent x = (case quotient_of x of (a, b) \<Rightarrow>
     let k = int (ndigits (nat a)) - int (ndigits (nat b)) in if 10 powi k \<le> x then k else k - 1)"

definition ctx :: "decimal \<Rightarrow> decimal" where
  "ctx x = (if x = 0 then 0 else let p = 27 - exponent \<bar>x\<bar> in of_int (round_half_even (x * 10 powi p)) / 10 powi p)"

definition dec_div :: "decimal \<Rightarrow> decimal \<Rightarrow> decimal option" where
  "dec_div a b = (if b = 0 then None else Some (ctx (a / b)))"

lemma ndigits_bounds: "0 < n \<Longrightarrow> 10 ^ (ndigits n - 1) \<le> n \<and> n < 10 ^ ndigits n"
proof (induction n rule: ndigits.induct)
  case (1 n)
  show ?case
  proof (cases "n < 10")
    case True
    with 1 show ?thesis by (simp add: ndigits.simps [of n])
  next
    case False
    with 1 have IH: "10 ^ (ndigits (n div 10) - 1) \<le> n div 10 \<and> n div 10 < 10 ^ ndigits (n div 10)" by auto
    have pos: "0 < ndigits (n div 10)" by (simp add: ndigits.simps [of "n div 10"])
    then have "(10::nat) ^ ndigits (n div 10) = 10 * 10 ^ (ndigits (n div 10) - 1)" by (metis power_eq_if less_numeral_extra(3))
    with IH have "(10::nat) ^ ndigits (n div 10) \<le> n" by linarith
    moreover have "n < 10 * 10 ^ ndigits (n div 10)" using IH by linarith
    ultimately show ?thesis using False by (simp add: ndigits.simps [of n])
  qed
qed

lemma exponent_bounds:
  assumes "0 < x"
  shows "10 powi exponent x \<le> x" "x < 10 powi (exponent x + 1)"
proof -
  obtain a b where q: "quotient_of x = (a, b)" by fastforce
  have b: "0 < b" using quotient_of_denom_pos [OF q] .
  have x: "x = of_int a / of_int b" using quotient_of_div [OF q] .
  with assms b have a: "0 < a" by (simp add: zero_less_divide_iff)
  define m where "m = ndigits (nat a)"
  define n where "n = ndigits (nat b)"
  have m: "10 ^ (m - 1) \<le> nat a" "nat a < 10 ^ m" and n: "10 ^ (n - 1) \<le> nat b" "nat b < 10 ^ n"
    using ndigits_bounds [of "nat a"] ndigits_bounds [of "nat b"] a b by (simp_all add: m_def n_def)
  have pos: "0 < m" "0 < n" by (simp_all add: m_def n_def ndigits.simps [of "nat a"] ndigits.simps [of "nat b"])
  have lower: "(10::rat) powi (int k - 1) \<le> of_int c" if "10 ^ (k - 1) \<le> nat c" "0 < c" "0 < k" for k c
  proof -
    have le: "(of_nat (10 ^ (k - 1)) :: rat) \<le> of_nat (nat c)" using that(1) by (subst of_nat_le_iff)
    have k: "int k - 1 = int (k - 1)" using that(3) by simp
    show ?thesis unfolding k power_int_of_nat using le that(2) by simp
  qed
  have upper: "(of_int c :: rat) < 10 powi int k" if "nat c < 10 ^ k" "0 < c" for k c
  proof -
    have "(of_nat (nat c) :: rat) < of_nat (10 ^ k)" using that(1) by (subst of_nat_less_iff)
    then show ?thesis using that(2) by simp
  qed
  note A = lower [OF m(1) a pos(1)] upper [OF m(2) a] and B = lower [OF n(1) b pos(2)] upper [OF n(2) b]
  define k where "k = int m - int n"
  have "10 powi (k - 1) \<le> x"
  proof -
    have "10 powi (k - 1) * of_int b \<le> 10 powi (k - 1) * (10 powi int n :: rat)" using B(2) by (intro mult_left_mono) simp_all
    also have "\<dots> = 10 powi (k - 1 + int n)" by (subst power_int_add) simp_all
    also have "\<dots> = 10 powi (int m - 1)" by (simp add: k_def algebra_simps)
    also have "\<dots> \<le> of_int a" by (rule A(1))
    finally show ?thesis using b by (simp add: x pos_le_divide_eq)
  qed
  moreover have "x < 10 powi (k + 1)"
  proof -
    have "of_int a < (10::rat) powi int m" by (rule A(2))
    also have "\<dots> = 10 powi (k + 1 + (int n - 1))" by (simp add: k_def)
    also have "\<dots> = 10 powi (k + 1) * 10 powi (int n - 1)" by (subst power_int_add) simp_all
    also have "\<dots> \<le> 10 powi (k + 1) * of_int b" using B(1) by (intro mult_left_mono) simp_all
    finally show ?thesis using b by (simp add: x pos_divide_less_eq)
  qed
  ultimately show "10 powi exponent x \<le> x" "x < 10 powi (exponent x + 1)"
    by (auto simp: exponent_def q Let_def k_def m_def n_def)
qed

lemma ctx_zero [simp]: "ctx 0 = 0"
  by (simp add: ctx_def)

lemma round_half_even_zero [simp]: "round_half_even 0 = 0"
  using round_half_even_of_int [of 0] by simp

lemma ctx_nonneg: "0 \<le> x \<Longrightarrow> 0 \<le> ctx x"
proof -
  assume "0 \<le> x"
  then have "0 \<le> x * 10 powi p" for p by simp
  from round_half_even_mono [OF this] have "0 \<le> round_half_even (x * 10 powi p)" for p by simp
  then show ?thesis by (simp add: ctx_def Let_def)
qed

lemma ctx_error: "\<bar>ctx x - x\<bar> \<le> 5 * 10 powi (- 28) * \<bar>x\<bar>"
proof (cases "x = 0")
  case False
  define p where "p = 27 - exponent \<bar>x\<bar>"
  have "ctx x - x = (of_int (round_half_even (x * 10 powi p)) - x * 10 powi p) / 10 powi p"
    using False by (simp add: ctx_def Let_def p_def diff_divide_distrib)
  then have "\<bar>ctx x - x\<bar> = \<bar>of_int (round_half_even (x * 10 powi p)) - x * 10 powi p\<bar> / 10 powi p" by simp
  also have "\<dots> \<le> 1 / 2 / 10 powi p" by (intro divide_right_mono round_half_even_error) simp
  also have "\<dots> = 5 * 10 powi (- 28) * 10 powi exponent \<bar>x\<bar>"
  proof -
    have "(10::rat) powi p = 10 powi 27 * 10 powi (- exponent \<bar>x\<bar>)" unfolding p_def by (subst power_int_add [symmetric]) simp_all
    then show ?thesis by (simp add: power_int_minus field_simps)
  qed
  also have "\<dots> \<le> 5 * 10 powi (- 28) * \<bar>x\<bar>" using exponent_bounds(1) [of "\<bar>x\<bar>"] False by (intro mult_left_mono) simp_all
  finally show ?thesis .
qed simp

lemma round_half_even_fixed: "x \<in> \<int> \<Longrightarrow> of_int (round_half_even x) = x"
  by (auto elim: Ints_cases)

lemma ctx_exact:
  \<comment> \<open>A number with \<open>p\<close> places and no more than 28 digits is a result as it is.\<close>
  assumes "quantize p x = x" and "\<bar>x\<bar> < 10 powi (28 - int p)"
  shows "ctx x = x"
proof (cases "x = 0")
  case False
  from assms(1) obtain n where x: "x = of_int n / 10 ^ p" by (auto simp: quantize_fixed)
  define q where "q = 27 - exponent \<bar>x\<bar>"
  have "10 powi exponent \<bar>x\<bar> < (10::rat) powi (28 - int p)" using exponent_bounds(1) [of "\<bar>x\<bar>"] False assms(2) by simp
  then have "exponent \<bar>x\<bar> < 28 - int p" using power_int_increasing [of "28 - int p" "exponent \<bar>x\<bar>" "10 :: rat"] by force
  then obtain j where q: "q = int p + int j" using zle_iff_zadd [of "int p" q] by (auto simp: q_def)
  have "10 powi q = (10::rat) ^ p * 10 ^ j" unfolding q by (subst power_int_add) simp_all
  then have "x * 10 powi q \<in> \<int>" by (simp add: x)
  then show ?thesis using False by (simp add: ctx_def Let_def round_half_even_fixed flip: q_def)
qed simp

lemma ctx_int [simp]:
  \<comment> \<open>For evaluation.\<close>
  "ctx 1 = 1" "numeral n < (10 :: rat) ^ 28 \<Longrightarrow> ctx (numeral n) = numeral n"
proof -
  have "quantize 0 (of_int n) = of_int n" for n by (auto simp: quantize_fixed)
  from this [of 1] this [of "numeral n"] ctx_exact [of 0 1] ctx_exact [of 0 "numeral n"]
  show "ctx 1 = 1" "numeral n < (10 :: rat) ^ 28 \<Longrightarrow> ctx (numeral n) = numeral n" by simp_all
qed

section \<open>What the prices rely on\<close>

text \<open>A rounding with a relative error: the bounds of what is computed with it.\<close>

locale relative_rounding =
  fixes r :: "decimal \<Rightarrow> decimal" and e :: decimal
  assumes r_nonneg: "0 \<le> x \<Longrightarrow> 0 \<le> r x"
    and r_error: "\<bar>r x - x\<bar> \<le> e * \<bar>x\<bar>"
    and e_nonneg: "0 \<le> e"
begin

lemma r_upper: "0 \<le> x \<Longrightarrow> x \<le> b \<Longrightarrow> r x \<le> (1 + e) * b"
proof -
  assume x: "0 \<le> x" "x \<le> b"
  then have "r x \<le> x + e * x" using r_error [of x] by simp
  also have "\<dots> = (1 + e) * x" by (simp add: algebra_simps)
  also have "\<dots> \<le> (1 + e) * b" using x e_nonneg by (intro mult_left_mono) auto
  finally show ?thesis .
qed

lemma r_upper_any: "x \<le> b \<Longrightarrow> 0 \<le> b \<Longrightarrow> e \<le> 1 \<Longrightarrow> r x \<le> (1 + e) * b"
proof (cases "0 \<le> x")
  case False
  assume e: "e \<le> 1" and b: "0 \<le> b"
  from False have "r x \<le> x + e * (- x)" using r_error [of x] by simp
  also have "\<dots> = (1 - e) * x" by (simp add: algebra_simps)
  also have "\<dots> \<le> 0" using False e by (simp add: mult_nonneg_nonpos)
  also have "0 \<le> (1 + e) * b" using b e_nonneg by simp
  finally show ?thesis .
qed (rule r_upper)

lemma sum_error:
  \<comment> \<open>Of a sum that is rounded at each addition.\<close>
  assumes "list_all (\<lambda>x. 0 \<le> x) xs" and "of_nat (length xs) * (2 * e) \<le> 1"
  shows "\<bar>fold (\<lambda>x s. r (s + x)) xs 0 - sum_list xs\<bar> \<le> of_nat (length xs) * (2 * e) * sum_list xs"
proof -
  have "\<bar>fold (\<lambda>x s. r (s + x)) ys s - (s + sum_list ys)\<bar> \<le> of_nat (length ys) * (e * B)"
    if "list_all (\<lambda>x. 0 \<le> x) ys" "0 \<le> s" "s + sum_list ys + of_nat (length ys) * (e * B) \<le> B" "0 \<le> B" for ys s B
    using that
  proof (induction ys arbitrary: s)
    case (Cons y ys)
    have y: "0 \<le> y" "0 \<le> sum_list ys" using Cons.prems(1) by (auto simp: list_all_iff intro: sum_list_nonneg)
    have eB: "0 \<le> e * B" "0 \<le> of_nat (length ys) * (e * B)" using Cons.prems(4) e_nonneg by simp_all
    have len: "of_nat (length (y # ys)) * (e * B) = e * B + of_nat (length ys) * (e * B)" by (simp add: algebra_simps)
    have total: "s + (y + sum_list ys) + (e * B + of_nat (length ys) * (e * B)) \<le> B" using Cons.prems(3) unfolding len by simp
    then have sy: "0 \<le> s + y" "s + y \<le> B" using Cons.prems(2) y eB by linarith+
    have "\<bar>r (s + y) - (s + y)\<bar> \<le> e * (s + y)" using r_error [of "s + y"] sy by simp
    also have "\<dots> \<le> e * B" using sy e_nonneg by (intro mult_left_mono)
    finally have step: "\<bar>r (s + y) - (s + y)\<bar> \<le> e * B" .
    have "\<bar>fold (\<lambda>x s. r (s + x)) ys (r (s + y)) - (r (s + y) + sum_list ys)\<bar> \<le> of_nat (length ys) * (e * B)"
      using Cons.prems step len r_nonneg [OF sy(1)] by (intro Cons.IH) auto
    with step len show ?case by simp
  qed simp
  from this [OF assms(1), of 0 "2 * sum_list xs"] show ?thesis
  proof -
    have S: "0 \<le> sum_list xs" using assms(1) by (auto simp: list_all_iff intro: sum_list_nonneg)
    have "of_nat (length xs) * (2 * e) * sum_list xs \<le> 1 * sum_list xs" using assms(2) S by (intro mult_right_mono)
    with S \<open>\<lbrakk>_; _; _\<rbrakk> \<Longrightarrow> _\<close> show ?thesis by (simp add: algebra_simps)
  qed
qed

end

interpretation decimal: relative_rounding ctx "5 * 10 powi (- 28)"
  by unfold_locales (rule ctx_nonneg ctx_error | simp)+

lemma quantize_not_above:
  \<comment> \<open>Less than half a unit above a price of the currency rounds to no more than it.\<close>
  assumes "quantize p t = t" and "x < t + 1 / 2 / 10 ^ p"
  shows "quantize p x \<le> t"
proof -
  from assms(1) obtain n where t: "t = of_int n / 10 ^ p" by (auto simp: quantize_fixed)
  obtain m where q: "quantize p x = of_int m / 10 ^ p" using quantize_def by metis
  have "quantize p x \<le> x + 1 / 2 / 10 ^ p" using quantize_error [of p x] by (simp add: abs_le_iff)
  also have "\<dots> < t + 1 / 10 ^ p" using assms(2) by simp
  finally have "of_int m / (10::rat) ^ p < (of_int n + 1) / 10 ^ p" unfolding q t by (simp add: add_divide_distrib)
  then have "(of_int m :: rat) < of_int n + 1" by (simp add: divide_less_cancel)
  then have "m \<le> n" by (metis of_int_1 of_int_add of_int_less_iff zle_add1_eq_le)
  then show ?thesis unfolding q t by (intro divide_right_mono) simp_all
qed

lemma powi_less_iff: "(10::rat) powi a < 10 powi b \<longleftrightarrow> a < b"
  using power_int_strict_increasing [of a b "10 :: rat"] power_int_increasing [of b a "10 :: rat"] by force

lemma exponent_unique: "0 < x \<Longrightarrow> 10 powi k \<le> x \<Longrightarrow> x < 10 powi (k + 1) \<Longrightarrow> exponent x = k"
proof -
  assume "0 < x" "10 powi k \<le> x" "x < 10 powi (k + 1)"
  with exponent_bounds [of x] have "10 powi k < (10::rat) powi (exponent x + 1)" "10 powi exponent x < (10::rat) powi (k + 1)" by simp_all
  then show ?thesis unfolding powi_less_iff by simp
qed

lemma ctx_digits:
  \<comment> \<open>The value of \<open>ctx\<close>, given the exponent.\<close>
  "0 < x \<Longrightarrow> 10 powi k \<le> x \<Longrightarrow> x < 10 powi (k + 1)
   \<Longrightarrow> ctx x = of_int (round_half_even (x * 10 powi (27 - k))) / 10 powi (27 - k)"
  using exponent_unique [of x k] by (simp add: ctx_def Let_def)

lemma exponent_mono: "0 < x \<Longrightarrow> x \<le> y \<Longrightarrow> exponent x \<le> exponent y"
proof -
  assume "0 < x" "x \<le> y"
  with exponent_bounds [of x] exponent_bounds [of y] have "10 powi exponent x < (10::rat) powi (exponent y + 1)" by simp
  then show ?thesis unfolding powi_less_iff by simp
qed

lemma ctx_decade:
  assumes "0 < x"
  shows "10 powi exponent x \<le> ctx x" and "ctx x \<le> 10 powi (exponent x + 1)"
proof -
  define p where "p = 27 - exponent x"
  have ctx: "ctx x = of_int (round_half_even (x * 10 powi p)) / 10 powi p" using assms by (simp add: ctx_def p_def Let_def)
  have sum: "(10::rat) powi (exponent x + i) * 10 powi p = 10 powi (27 + i)" for i
    unfolding p_def by (subst power_int_add [symmetric]) (simp_all add: add.commute)
  have "10 powi (exponent x + 0) * 10 powi p \<le> x * 10 powi p" "x * 10 powi p \<le> 10 powi (exponent x + 1) * 10 powi p"
    using exponent_bounds [OF assms] by (intro mult_right_mono; simp)+
  then have "of_int (10 ^ 27) \<le> x * 10 powi p" "x * 10 powi p \<le> of_int (10 ^ 28)" unfolding sum by simp_all
  then have "round_half_even (of_int (10 ^ 27)) \<le> round_half_even (x * 10 powi p)"
    "round_half_even (x * 10 powi p) \<le> round_half_even (of_int (10 ^ 28))" by (intro round_half_even_mono; simp)+
  then have "(10 ^ 27 :: int) \<le> round_half_even (x * 10 powi p)" "round_half_even (x * 10 powi p) \<le> 10 ^ 28"
    unfolding round_half_even_of_int by simp_all
  then have "(of_int (10 ^ 27) :: rat) \<le> of_int (round_half_even (x * 10 powi p))" "of_int (round_half_even (x * 10 powi p)) \<le> (of_int (10 ^ 28) :: rat)"
    by (simp_all only: of_int_le_iff)
  then have "(10::rat) powi (exponent x + 0) * 10 powi p \<le> of_int (round_half_even (x * 10 powi p))"
    "of_int (round_half_even (x * 10 powi p)) \<le> 10 powi (exponent x + 1) * (10::rat) powi p" unfolding sum by simp_all
  then show "10 powi exponent x \<le> ctx x" "ctx x \<le> 10 powi (exponent x + 1)"
    unfolding ctx by (simp_all add: pos_le_divide_eq pos_divide_le_eq)
qed

lemma ctx_mono: "0 \<le> x \<Longrightarrow> x \<le> y \<Longrightarrow> ctx x \<le> ctx y"
proof (cases "x = 0")
  case False
  assume "0 \<le> x" "x \<le> y"
  with False have pos: "0 < x" "0 < y" by auto
  show ?thesis
  proof (cases "exponent x = exponent y")
    case True
    have "round_half_even (x * 10 powi p) \<le> round_half_even (y * 10 powi p)" for p
      using \<open>x \<le> y\<close> by (intro round_half_even_mono mult_right_mono) simp_all
    with pos True show ?thesis by (simp add: ctx_def Let_def divide_right_mono)
  next
    case False
    with exponent_mono [OF pos(1) \<open>x \<le> y\<close>] have "exponent x + 1 \<le> exponent y" by simp
    then have "(10::rat) powi (exponent x + 1) \<le> 10 powi exponent y" by (intro power_int_increasing) simp_all
    with ctx_decade(2) [OF pos(1)] ctx_decade(1) [OF pos(2)] show ?thesis by simp
  qed
qed (simp add: ctx_nonneg)

lemma ctx_ctx: "ctx (ctx x) = ctx x" if "0 \<le> x"
proof (cases "x = 0")
  case False
  with that have pos: "0 < x" by simp
  define p where "p = 27 - exponent x"
  have ctx: "ctx x = of_int (round_half_even (x * 10 powi p)) / 10 powi p" using pos by (simp add: ctx_def p_def Let_def)
  note dec = ctx_decade [OF pos]
  have "0 < (10::rat) powi exponent x" by simp
  with dec(1) have c: "0 < ctx x" by linarith
  show ?thesis
  proof (cases "ctx x = 10 powi (exponent x + 1)")
    case True
    let ?T = "(10::rat) powi (exponent x + 1)" and ?q = "(10::rat) powi (27 - (exponent x + 1))"
    have T: "ctx ?T = of_int (round_half_even (?T * ?q)) / ?q" by (rule ctx_digits) (simp_all add: powi_less_iff)
    have q: "?T * ?q = of_int (10 ^ 27)" by (subst power_int_add [symmetric]) simp_all
    have "ctx ?T = of_int (10 ^ 27) / ?q" unfolding T q round_half_even_of_int ..
    also have "\<dots> = ?T" unfolding q [symmetric] by simp
    finally show ?thesis unfolding True .
  next
    case False
    with dec have "exponent (ctx x) = exponent x" by (intro exponent_unique [OF c]) simp_all
    then have "ctx (ctx x) = of_int (round_half_even (ctx x * 10 powi p)) / 10 powi p" using c by (simp add: ctx_def [of "ctx x"] p_def Let_def)
    moreover have "ctx x * 10 powi p = of_int (round_half_even (x * 10 powi p))" by (simp add: ctx)
    ultimately show ?thesis by (simp only: round_half_even_of_int ctx)
  qed
qed simp

end
