(* ===== verification/Discounts.thy ===== *)
theory Discounts
  imports Decimal_Context
begin

text \<open>
  Vouchers and promotions: the methods of \<open>Voucher\<close> and \<open>PromotionRule\<close> in \<open>saleor/discount/models.py\<close> and the
  functions of \<open>saleor/discount/utils.py\<close>.

  All prices of a checkout or order are in the currency of its channel, so a \<open>Money\<close> is its amount.
  \<open>fixed_discount\<close> and \<open>percentage_discount\<close> are functions of the library \<open>prices\<close>, and parameters here;
  what is relied on is \<open>pricing_ok\<close>.
\<close>

section \<open>Constants, parameters and rows\<close>

datatype discount_value_type = FIXED | PERCENTAGE

datatype discount_type = SALE | PROMOTION | VOUCHER | MANUAL

datatype voucher_type = SHIPPING | ENTIRE_ORDER | SPECIFIC_PRODUCT

datatype not_applicable = Not_In_Channel | Min_Spent decimal | Min_Items_Quantity int | Once_Per_Customer | Only_For_Staff
  | No_Shipping_Required | No_Delivery_Method | Not_In_Country | Only_Selected_Items | Rule_Not_Applicable

datatype price_error = Not_Applicable not_applicable | Not_Implemented | Price_Type_Error | Price_Value_Error
  | Price_Index_Error | Division_Error | Price_Integrity_Error

record pricing =
  pr_precision :: "string \<Rightarrow> nat"
  pr_fixed_discount :: "decimal \<Rightarrow> decimal \<Rightarrow> decimal"                    \<comment> \<open>price, discount\<close>
  pr_percentage_discount :: "string \<Rightarrow> decimal \<Rightarrow> decimal \<Rightarrow> decimal"     \<comment> \<open>currency, price, percentage\<close>

definition pricing_ok :: "pricing \<Rightarrow> bool" where
  \<comment> \<open>A discount does not raise a price, and a fixed discount leaves no less than zero.\<close>
  "pricing_ok pr \<longleftrightarrow> (\<forall>c b d. 0 \<le> b \<longrightarrow> 0 \<le> d \<longrightarrow>
     0 \<le> pr_fixed_discount pr b d \<and> pr_fixed_discount pr b d \<le> b
     \<and> pr_percentage_discount pr c b d \<le> b)"

record sales_channel =
  sc_id :: pk
  sc_slug :: string
  sc_is_active :: bool
  sc_currency_code :: string
  sc_default_country :: string

record voucher_listing =
  vl_channel :: pk
  vl_channel_slug :: string
  vl_channel_is_active :: bool
  vl_discount_value :: decimal
  vl_min_spent_amount :: "decimal option"

record voucher =
  vo_pk :: pk
  vo_type :: voucher_type
  vo_name :: "string option"
  vo_code :: string
  vo_usage_limit :: "int option"
  vo_used :: int
  vo_start_date :: time
  vo_end_date :: "time option"
  vo_apply_once_per_order :: bool
  vo_apply_once_per_customer :: bool
  vo_only_for_staff :: bool
  vo_discount_value_type :: discount_value_type
  vo_countries :: "string list"
  vo_min_checkout_items_quantity :: "int option"
  vo_products :: "pk list"
  vo_variants :: "pk list"
  vo_collections :: "pk list"
  vo_categories :: "pk list"
  vo_listings :: "voucher_listing list"
  vo_translations :: "(string \<times> string option) list"     \<comment> \<open>language and name\<close>

record voucher_tables =
  vouchers :: "voucher list"
  voucher_customers :: "(pk \<times> string) list"

record promotion_rule =
  ru_pk :: pk
  ru_name :: "string option"
  ru_reward_value_type :: "discount_value_type option"
  ru_reward_value :: "decimal option"

record line_discount =
  ld_pk :: pk
  ld_line :: pk
  ld_type :: discount_type
  ld_value_type :: "discount_value_type option"
  ld_value :: "decimal option"
  ld_amount_value :: decimal
  ld_name :: "string option"
  ld_translated_name :: "string option"
  ld_rule :: "pk option"

section \<open>Vouchers\<close>

definition voucher_active :: "time \<Rightarrow> voucher \<Rightarrow> bool" where
  \<comment> \<open>\<open>VoucherQueryset.active\<close>\<close>
  "voucher_active date v \<longleftrightarrow> (case vo_usage_limit v of None \<Rightarrow> True | Some n \<Rightarrow> vo_used v < n)
     \<and> (case vo_end_date v of None \<Rightarrow> True | Some d \<Rightarrow> date \<le> d) \<and> vo_start_date v \<le> date"

definition voucher_active_in_channel :: "time \<Rightarrow> string \<Rightarrow> voucher \<Rightarrow> bool" where
  "voucher_active_in_channel date channel_slug v \<longleftrightarrow> voucher_active date v
     \<and> list_ex (\<lambda>l. vl_channel_slug l = channel_slug \<and> vl_channel_is_active l) (vo_listings v)"

definition voucher_expired :: "time \<Rightarrow> voucher \<Rightarrow> bool" where
  "voucher_expired date v \<longleftrightarrow> ((case vo_usage_limit v of None \<Rightarrow> False | Some n \<Rightarrow> n \<le> vo_used v)
     \<or> (case vo_end_date v of None \<Rightarrow> False | Some d \<Rightarrow> d < date)) \<and> vo_start_date v < date"

definition voucher_listing_of :: "voucher \<Rightarrow> sales_channel \<Rightarrow> voucher_listing option" where
  "voucher_listing_of v ch = find (\<lambda>l. vl_channel l = sc_id ch) (vo_listings v)"

definition apply_discount_to_value :: "pricing \<Rightarrow> decimal \<Rightarrow> discount_value_type \<Rightarrow> string \<Rightarrow> decimal \<Rightarrow> decimal" where
  "apply_discount_to_value pr value value_type currency price_to_discount =
     (case value_type of FIXED \<Rightarrow> pr_fixed_discount pr price_to_discount value
      | PERCENTAGE \<Rightarrow> pr_percentage_discount pr currency price_to_discount value)"

definition voucher_get_discount :: "pricing \<Rightarrow> voucher \<Rightarrow> sales_channel \<Rightarrow> price_error + (decimal \<Rightarrow> decimal)" where
  "voucher_get_discount pr v ch = (case voucher_listing_of v ch of None \<Rightarrow> Inl (Not_Applicable Not_In_Channel)
     | Some l \<Rightarrow> Inr (case vo_discount_value_type v of
         FIXED \<Rightarrow> (\<lambda>price. pr_fixed_discount pr price (vl_discount_value l))
       | PERCENTAGE \<Rightarrow> (\<lambda>price. pr_percentage_discount pr (sc_currency_code ch) price (vl_discount_value l))))"

definition get_discount_amount_for :: "pricing \<Rightarrow> voucher \<Rightarrow> decimal \<Rightarrow> sales_channel \<Rightarrow> price_error + decimal" where
  "get_discount_amount_for pr v price ch = (case voucher_get_discount pr v ch of Inl er \<Rightarrow> Inl er
     | Inr discount \<Rightarrow> let after_discount = discount price
         in Inr (if after_discount < 0 then price else ctx (price - after_discount)))"

definition validate_min_spent :: "voucher \<Rightarrow> decimal \<Rightarrow> sales_channel \<Rightarrow> not_applicable option" where
  "validate_min_spent v value ch = (case voucher_listing_of v ch of None \<Rightarrow> Some Not_In_Channel
     | Some l \<Rightarrow> (case vl_min_spent_amount l of None \<Rightarrow> None
         | Some m \<Rightarrow> if m \<noteq> 0 \<and> value < m then Some (Min_Spent m) else None))"

definition validate_min_checkout_items_quantity :: "voucher \<Rightarrow> int \<Rightarrow> not_applicable option" where
  "validate_min_checkout_items_quantity v quantity = (case vo_min_checkout_items_quantity v of None \<Rightarrow> None
     | Some n \<Rightarrow> if n \<noteq> 0 \<and> quantity < n then Some (Min_Items_Quantity n) else None)"

definition validate_once_per_customer :: "voucher \<Rightarrow> string \<Rightarrow> voucher_tables \<Rightarrow> not_applicable option" where
  "validate_once_per_customer v customer_email V =
     (if (vo_pk v, customer_email) \<in> set (voucher_customers V) then Some Once_Per_Customer else None)"

definition validate_only_for_staff :: "voucher \<Rightarrow> bool option \<Rightarrow> not_applicable option" where
  \<comment> \<open>The customer, and whether it is staff.\<close>
  "validate_only_for_staff v customer = (if \<not> vo_only_for_staff v then None
     else if customer = Some True then None else Some Only_For_Staff)"

fun first_some :: "'a option list \<Rightarrow> 'a option" where
  \<comment> \<open>The first check that raises.\<close>
  "first_some [] = None"
| "first_some (x # xs) = (case x of None \<Rightarrow> first_some xs | Some a \<Rightarrow> Some a)"

definition validate_voucher ::
  "voucher \<Rightarrow> decimal \<Rightarrow> int \<Rightarrow> string \<Rightarrow> sales_channel \<Rightarrow> bool option \<Rightarrow> voucher_tables \<Rightarrow> not_applicable option" where
  "validate_voucher v total_price quantity customer_email ch customer V = first_some
     [validate_min_spent v total_price ch, validate_min_checkout_items_quantity v quantity,
      if vo_apply_once_per_customer v then validate_once_per_customer v customer_email V else None,
      if vo_only_for_staff v then validate_only_for_staff v customer else None]"

definition get_products_voucher_discount ::
  "pricing \<Rightarrow> voucher \<Rightarrow> decimal list \<Rightarrow> sales_channel \<Rightarrow> price_error + decimal" where
  \<comment> \<open>\<open>min\<close> of no prices raises \<open>ValueError\<close>.\<close>
  "get_products_voucher_discount pr v prices ch =
     (if vo_apply_once_per_order v
      then (case prices of [] \<Rightarrow> Inl Price_Value_Error | p # ps \<Rightarrow> get_discount_amount_for pr v (fold min ps p) ch)
      else fold (\<lambda>price total. case total of Inl er \<Rightarrow> Inl er
          | Inr t \<Rightarrow> (case get_discount_amount_for pr v price ch of Inl er \<Rightarrow> Inl er | Inr d \<Rightarrow> Inr (t + d))) prices (Inr 0))"

section \<open>Usage of vouchers\<close>

definition change_usage :: "int \<Rightarrow> pk \<Rightarrow> voucher_tables \<Rightarrow> price_error + voucher_tables" where
  \<comment> \<open>\<open>used = F("used") + n\<close>, a \<open>PositiveIntegerField\<close>\<close>
  "change_usage n k V = (if list_ex (\<lambda>v. vo_pk v = k \<and> vo_used v + n < 0) (vouchers V) then Inl Price_Integrity_Error
     else Inr (V\<lparr>vouchers := map (\<lambda>v. if vo_pk v = k then v\<lparr>vo_used := vo_used v + n\<rparr> else v) (vouchers V)\<rparr>))"

definition increase_voucher_usage :: "voucher \<Rightarrow> voucher_tables \<Rightarrow> price_error + voucher_tables" where
  "increase_voucher_usage v = change_usage 1 (vo_pk v)"

definition decrease_voucher_usage :: "voucher \<Rightarrow> voucher_tables \<Rightarrow> price_error + voucher_tables" where
  "decrease_voucher_usage v = change_usage (- 1) (vo_pk v)"

definition add_voucher_usage_by_customer :: "voucher \<Rightarrow> string \<Rightarrow> voucher_tables \<Rightarrow> price_error + voucher_tables" where
  "add_voucher_usage_by_customer v customer_email V =
     (if (vo_pk v, customer_email) \<in> set (voucher_customers V) then Inl (Not_Applicable Once_Per_Customer)
      else Inr (V\<lparr>voucher_customers := voucher_customers V @ [(vo_pk v, customer_email)]\<rparr>))"

definition remove_voucher_usage_by_customer :: "voucher \<Rightarrow> string \<Rightarrow> voucher_tables \<Rightarrow> voucher_tables" where
  "remove_voucher_usage_by_customer v customer_email V =
     V\<lparr>voucher_customers := filter (\<lambda>x. x \<noteq> (vo_pk v, customer_email)) (voucher_customers V)\<rparr>"

definition release_voucher_usage ::
  "voucher option \<Rightarrow> string option \<Rightarrow> voucher_tables \<Rightarrow> price_error + voucher_tables" where
  "release_voucher_usage v user_email V = (case v of None \<Rightarrow> Inr V
     | Some v \<Rightarrow> (case (if vo_usage_limit v \<notin> {None, Some 0} then decrease_voucher_usage v V else Inr V) of Inl er \<Rightarrow> Inl er
         | Inr V \<Rightarrow> Inr (if user_email \<notin> {None, Some []} then remove_voucher_usage_by_customer v (the user_email) V else V)))"

section \<open>Promotions\<close>

definition rule_get_discount :: "pricing \<Rightarrow> promotion_rule \<Rightarrow> string \<Rightarrow> decimal \<Rightarrow> price_error + decimal" where
  \<comment> \<open>\<open>rule.get_discount(currency)(price)\<close>\<close>
  "rule_get_discount pr r currency price = (case ru_reward_value_type r of None \<Rightarrow> Inl Not_Implemented
     | Some t \<Rightarrow> (case ru_reward_value r of None \<Rightarrow> Inl Price_Type_Error
         | Some value \<Rightarrow> Inr (apply_discount_to_value pr value t currency price)))"

definition calculate_discounted_price_for_rules ::
  "pricing \<Rightarrow> decimal \<Rightarrow> promotion_rule list \<Rightarrow> string \<Rightarrow> price_error + decimal" where
  "calculate_discounted_price_for_rules pr price rules currency =
     (case fold (\<lambda>r total. case total of Inl er \<Rightarrow> Inl er
          | Inr t \<Rightarrow> (case rule_get_discount pr r currency price of Inl er \<Rightarrow> Inl er | Inr d \<Rightarrow> Inr (t + (price - d))))
        rules (Inr 0) of
        Inl er \<Rightarrow> Inl er | Inr total_discount \<Rightarrow> Inr (max (price - total_discount) 0))"

record promotion_rule_info =
  ri_rule :: promotion_rule
  ri_variant_ids :: "pk list"
  ri_channel_ids :: "pk list"

definition rule_applies :: "promotion_rule_info \<Rightarrow> sales_channel \<Rightarrow> pk option \<Rightarrow> bool" where
  \<comment> \<open>\<open>get_product_discount_on_promotion\<close>: whether \<open>NotApplicable\<close> is not raised.\<close>
  "rule_applies ri ch variant_id \<longleftrightarrow> (case variant_id of None \<Rightarrow> False | Some v \<Rightarrow> v \<in> set (ri_variant_ids ri))
     \<and> sc_id ch \<in> set (ri_channel_ids ri)"

fun rule_discounts ::
  "pricing \<Rightarrow> promotion_rule_info list \<Rightarrow> sales_channel \<Rightarrow> pk option \<Rightarrow> decimal \<Rightarrow> price_error + (pk \<times> decimal) list" where
  \<comment> \<open>The rules of one promotion that apply, with their discount amounts.\<close>
  "rule_discounts pr [] ch variant_id price = Inr []"
| "rule_discounts pr (ri # ris) ch variant_id price =
     (if \<not> rule_applies ri ch variant_id then rule_discounts pr ris ch variant_id price
      else case rule_get_discount pr (ri_rule ri) (sc_currency_code ch) price of Inl er \<Rightarrow> Inl er
        | Inr d \<Rightarrow> (case rule_discounts pr ris ch variant_id price of Inl er \<Rightarrow> Inl er
            | Inr ds \<Rightarrow> Inr ((ru_pk (ri_rule ri), price - d) # ds)))"

definition saving :: "(pk \<times> decimal) list \<Rightarrow> decimal" where
  "saving ds = sum_list (map snd ds)"

fun first_max :: "('a \<Rightarrow> decimal) \<Rightarrow> 'a \<Rightarrow> 'a list \<Rightarrow> 'a" where
  \<comment> \<open>Python's \<open>max\<close>: the first of the largest.\<close>
  "first_max key m [] = m"
| "first_max key m (x # xs) = first_max key (if key m < key x then x else m) xs"

fun all_rule_discounts ::
  "pricing \<Rightarrow> (pk \<times> promotion_rule_info list) list \<Rightarrow> sales_channel \<Rightarrow> pk option \<Rightarrow> decimal
   \<Rightarrow> price_error + (pk \<times> decimal) list list" where
  "all_rule_discounts pr [] ch variant_id price = Inr []"
| "all_rule_discounts pr ((p, ris) # ps) ch variant_id price =
     (case rule_discounts pr ris ch variant_id price of Inl er \<Rightarrow> Inl er
      | Inr ds \<Rightarrow> (case all_rule_discounts pr ps ch variant_id price of Inl er \<Rightarrow> Inl er | Inr dss \<Rightarrow> Inr (ds # dss)))"

definition calculate_discounted_price_for_promotions ::
  "pricing \<Rightarrow> decimal \<Rightarrow> (pk \<times> promotion_rule_info list) list \<Rightarrow> sales_channel \<Rightarrow> pk option
   \<Rightarrow> price_error + (pk \<times> decimal) list" where
  \<comment> \<open>With \<open>get_best_promotion_discount\<close>.\<close>
  "calculate_discounted_price_for_promotions pr price rules_info_per_promotion_id ch variant_id =
     (case all_rule_discounts pr rules_info_per_promotion_id ch variant_id price of Inl er \<Rightarrow> Inl er
      | Inr [] \<Rightarrow> Inr []
      | Inr (ds # dss) \<Rightarrow> Inr (first_max saving ds dss))"

section \<open>Discounts of checkout lines from promotions\<close>

record variant_rule_info =
  vi_pk :: pk                             \<comment> \<open>the \<open>VariantChannelListingPromotionRule\<close>\<close>
  vi_rule :: promotion_rule
  vi_discount_amount :: decimal
  vi_promotion_name :: string
  vi_promotion_translation :: "string option option"     \<comment> \<open>its \<open>name\<close> may be null\<close>
  vi_rule_translation :: "string option option"

record variant_listing =
  li_pk :: pk
  li_price_amount :: "decimal option"
  li_discounted_price_amount :: "decimal option"

record tax_class =
  tc_pk :: pk
  tc_name :: string
  tc_country_rates :: "(string \<times> decimal) list"

record priced_line =
  pl_id :: pk
  pl_quantity :: int
  pl_price_override :: "decimal option"
  pl_variant :: pk
  pl_product :: pk
  pl_category :: "pk option"
  pl_collections :: "pk list"
  pl_is_shipping_required :: bool
  pl_listing :: variant_listing
  pl_discounts :: "line_discount list"
  pl_rules_info :: "variant_rule_info list"
  pl_tax_class :: "tax_class option"
  pl_voucher :: "voucher option"
  pl_total_net :: decimal
  pl_total_gross :: decimal
  pl_tax_rate :: decimal

definition get_promotion_discounts :: "priced_line \<Rightarrow> line_discount list" where
  "get_promotion_discounts l = filter (\<lambda>d. ld_type d = PROMOTION) (pl_discounts l)"

definition line_discount_amount :: "variant_listing \<Rightarrow> int \<Rightarrow> decimal" where
  \<comment> \<open>\<open>_get_discount_amount\<close>\<close>
  "line_discount_amount li line_quantity = (case (li_price_amount li, li_discounted_price_amount li) of
     (Some p, Some d) \<Rightarrow> if p = d then 0 else (p - d) * of_int line_quantity
   | _ \<Rightarrow> 0)"

definition truthy_name :: "string option \<Rightarrow> bool" where
  "truthy_name n \<longleftrightarrow> n \<noteq> None \<and> n \<noteq> Some []"

definition get_discount_name :: "variant_rule_info \<Rightarrow> string option" where
  "get_discount_name ri = (let rule_name = ru_name (vi_rule ri); promotion_name = vi_promotion_name ri
     in if promotion_name \<noteq> [] \<and> truthy_name rule_name then Some (promotion_name @ '': '' @ the rule_name)
        else if truthy_name rule_name then rule_name else Some promotion_name)"

definition py_str :: "string option \<Rightarrow> string" where
  "py_str s = (case s of None \<Rightarrow> ''None'' | Some s \<Rightarrow> s)"

definition get_discount_translated_name :: "variant_rule_info \<Rightarrow> string option" where
  "get_discount_translated_name ri = (case (vi_promotion_translation ri, vi_rule_translation ri) of
     (Some p, Some r) \<Rightarrow> Some (py_str p @ '': '' @ py_str r)
   | (None, Some r) \<Rightarrow> r
   | (Some p, None) \<Rightarrow> p
   | (None, None) \<Rightarrow> None)"

datatype discount_field = F_Value_Type | F_Value | F_Amount_Value | F_Name | F_Translated_Name

definition updated_discount :: "variant_rule_info \<Rightarrow> decimal \<Rightarrow> line_discount \<Rightarrow> line_discount" where
  \<comment> \<open>\<open>_update_line_discount\<close>: the object after it.\<close>
  "updated_discount ri rule_discount_amount d = d\<lparr>ld_value_type := ru_reward_value_type (vi_rule ri),
     ld_value := ru_reward_value (vi_rule ri), ld_amount_value := rule_discount_amount,
     ld_name := get_discount_name ri, ld_translated_name := get_discount_translated_name ri\<rparr>"

definition updated_fields :: "variant_rule_info \<Rightarrow> decimal \<Rightarrow> line_discount \<Rightarrow> discount_field list" where
  \<comment> \<open>\<open>_update_line_discount\<close>: the fields it reports.\<close>
  "updated_fields ri rule_discount_amount d =
     (if ld_value_type d \<noteq> ru_reward_value_type (vi_rule ri) then [F_Value_Type] else []) @
     (if ld_value d \<noteq> ru_reward_value (vi_rule ri) then [F_Value] else []) @
     (if ld_amount_value d \<noteq> rule_discount_amount then [F_Amount_Value] else []) @
     (if ld_name d \<noteq> get_discount_name ri then [F_Name] else []) @
     (if ld_translated_name d \<noteq> get_discount_translated_name ri then [F_Translated_Name] else [])"

definition write_fields :: "discount_field list \<Rightarrow> line_discount \<Rightarrow> line_discount \<Rightarrow> line_discount" where
  \<comment> \<open>What \<open>bulk_update\<close> writes of an object to its row.\<close>
  "write_fields fs d row = row\<lparr>
     ld_value_type := (if F_Value_Type \<in> set fs then ld_value_type d else ld_value_type row),
     ld_value := (if F_Value \<in> set fs then ld_value d else ld_value row),
     ld_amount_value := (if F_Amount_Value \<in> set fs then ld_amount_value d else ld_amount_value row),
     ld_name := (if F_Name \<in> set fs then ld_name d else ld_name row),
     ld_translated_name := (if F_Translated_Name \<in> set fs then ld_translated_name d else ld_translated_name row)\<rparr>"

definition new_line_discount :: "pk \<Rightarrow> pk \<Rightarrow> variant_rule_info \<Rightarrow> decimal \<Rightarrow> line_discount" where
  "new_line_discount k line ri rule_discount_amount =
     \<lparr>ld_pk = k, ld_line = line, ld_type = PROMOTION, ld_value_type = ru_reward_value_type (vi_rule ri),
      ld_value = ru_reward_value (vi_rule ri), ld_amount_value = rule_discount_amount, ld_name = get_discount_name ri,
      ld_translated_name = get_discount_translated_name ri, ld_rule = Some (ru_pk (vi_rule ri))\<rparr>"

fun put :: "'k \<Rightarrow> 'v \<Rightarrow> ('k \<times> 'v) list \<Rightarrow> ('k \<times> 'v) list" where
  \<comment> \<open>Assignment to a key of a dictionary.\<close>
  "put k v [] = [(k, v)]"
| "put k v ((k', v') # kvs) = (if k' = k then (k, v) # kvs else (k', v') # put k v kvs)"

definition rule_id_to_discount :: "line_discount list \<Rightarrow> (pk option \<times> line_discount) list" where
  "rule_id_to_discount ds = fold (\<lambda>d. put (ld_rule d) d) ds []"

definition discounts_not_valid_anymore :: "variant_rule_info list \<Rightarrow> (pk option \<times> line_discount) list \<Rightarrow> pk list" where
  \<comment> \<open>\<open>_get_discounts_that_are_not_valid_anymore\<close>: their ids.\<close>
  "discounts_not_valid_anymore rules_info m = map (\<lambda>(k, d). ld_pk d)
     (filter (\<lambda>(k, d). k \<notin> (\<lambda>ri. Some (ru_pk (vi_rule ri))) ` set rules_info) m)"

record promotion_run =
  pm_discounts :: "line_discount list"   \<comment> \<open>\<open>line_info.discounts\<close> of the line at hand\<close>
  pm_to_create :: "line_discount list"
  pm_to_update :: "line_discount list"
  pm_to_remove :: "pk list"
  pm_fields :: "discount_field list"
  pm_drawn :: nat                        \<comment> \<open>how many ids \<open>uuid4\<close> has given\<close>
  pm_table :: "line_discount list"

definition promotion_rule_step ::
  "(nat \<Rightarrow> pk) \<Rightarrow> priced_line \<Rightarrow> (pk option \<times> line_discount) list \<Rightarrow> variant_rule_info \<Rightarrow> promotion_run \<Rightarrow> promotion_run" where
  "promotion_rule_step uuid l m ri s =
     (let rule_discount_amount = vi_discount_amount ri * of_int (pl_quantity l)
      in case map_of m (Some (ru_pk (vi_rule ri))) of
        None \<Rightarrow> (let d = new_line_discount (uuid (pm_drawn s)) (pl_id l) ri rule_discount_amount
          in s\<lparr>pm_to_create := pm_to_create s @ [d], pm_discounts := pm_discounts s @ [d], pm_drawn := Suc (pm_drawn s)\<rparr>)
      | Some d \<Rightarrow> (let d' = updated_discount ri rule_discount_amount d
          in s\<lparr>pm_discounts := map (\<lambda>x. if ld_pk x = ld_pk d then d' else x) (pm_discounts s),
               pm_fields := pm_fields s @ updated_fields ri rule_discount_amount d,
               pm_to_update := pm_to_update s @ [d']\<rparr>))"

definition promotion_line_step :: "(nat \<Rightarrow> pk) \<Rightarrow> priced_line \<Rightarrow> promotion_run \<Rightarrow> promotion_run" where
  \<comment> \<open>The body of the loop; the discounts of the line afterwards are \<open>pm_discounts\<close>.\<close>
  "promotion_line_step uuid l s =
     (let discounts_to_update = get_promotion_discounts l; m = rule_id_to_discount discounts_to_update
      in if line_discount_amount (pl_listing l) (pl_quantity l) = 0
         then s\<lparr>pm_table := filter (\<lambda>d. ld_pk d \<notin> ld_pk ` set discounts_to_update) (pm_table s), pm_discounts := []\<rparr>
         else let ids = discounts_not_valid_anymore (pl_rules_info l) m
           in fold (promotion_rule_step uuid l m) (pl_rules_info l)
                (s\<lparr>pm_to_remove := pm_to_remove s @ ids,
                   pm_discounts := filter (\<lambda>d. ld_pk d \<notin> set ids) (pl_discounts l)\<rparr>))"

fun promotion_lines :: "(nat \<Rightarrow> pk) \<Rightarrow> priced_line list \<Rightarrow> promotion_run \<Rightarrow> priced_line list \<times> promotion_run" where
  "promotion_lines uuid [] s = ([], s)"
| "promotion_lines uuid (l # ls) s = (let s = promotion_line_step uuid l s; (ls, s') = promotion_lines uuid ls s
     in (l\<lparr>pl_discounts := pm_discounts s\<rparr> # ls, s'))"

definition discount_row_ok :: "line_discount \<Rightarrow> bool" where
  \<comment> \<open>The columns \<open>value_type\<close> and \<open>value\<close> are not null.\<close>
  "discount_row_ok d \<longleftrightarrow> ld_value_type d \<noteq> None \<and> ld_value d \<noteq> None"

definition create_or_update_discount_objects_from_promotion_for_checkout ::
  "(nat \<Rightarrow> pk) \<Rightarrow> priced_line list \<Rightarrow> line_discount list \<Rightarrow> price_error + priced_line list \<times> line_discount list" where
  "create_or_update_discount_objects_from_promotion_for_checkout uuid lines_info table =
     (let (ls, s) = promotion_lines uuid lines_info
        \<lparr>pm_discounts = [], pm_to_create = [], pm_to_update = [], pm_to_remove = [], pm_fields = [], pm_drawn = 0,
         pm_table = table\<rparr>;
        created = pm_table s @ pm_to_create s;
        updated = (if pm_to_update s \<noteq> [] \<and> pm_fields s \<noteq> []
          then bulk_update ld_pk (map (\<lambda>d. (ld_pk d, write_fields (pm_fields s) d)) (pm_to_update s)) created else created)
      in if \<not> list_all discount_row_ok (pm_to_create s) \<or> \<not> list_all discount_row_ok updated then Inl Price_Integrity_Error
         else Inr (ls, filter (\<lambda>d. ld_pk d \<notin> set (pm_to_remove s)) updated))"

section \<open>What the operations do\<close>

lemma first_max_in: "first_max key m xs \<in> set (m # xs)"
  by (induction xs arbitrary: m) auto

lemma first_max_ge: "x \<in> set (m # xs) \<Longrightarrow> key x \<le> key (first_max key m xs)"
proof (induction xs arbitrary: m x)
  case (Cons y ys)
  define m' where "m' = (if key m < key y then y else m)"
  have "key m \<le> key m'" "key y \<le> key m'" by (simp_all add: m'_def)
  moreover have "key m' \<le> key (first_max key m' ys)" using Cons.IH [of m' m'] by simp
  moreover have "x \<in> set ys \<Longrightarrow> key x \<le> key (first_max key m' ys)" using Cons.IH [of x m'] by simp
  ultimately show ?case using Cons.prems by (auto simp flip: m'_def intro: order_trans)
qed simp

lemma all_rule_discounts_Inr:
  "all_rule_discounts pr ps ch v price = Inr dss \<longleftrightarrow> list_all2 (\<lambda>(p, ris) ds. rule_discounts pr ris ch v price = Inr ds) ps dss"
  by (induction pr ps ch v price arbitrary: dss rule: all_rule_discounts.induct)
     (auto split: sum.splits simp: list_all2_Cons1)

text \<open>
  C31: The promotion that is applied to a price is one of the active promotions, with the discounts of its
  rules for the variant and channel, and no other promotion saves more.
\<close>
theorem best_promotion_saves_most:
  assumes "calculate_discounted_price_for_promotions pr price promotions ch variant_id = Inr ds" and "promotions \<noteq> []"
  shows "(\<exists>(p, ris) \<in> set promotions. rule_discounts pr ris ch variant_id price = Inr ds)
    \<and> (\<forall>(p, ris) \<in> set promotions. \<exists>ds'. rule_discounts pr ris ch variant_id price = Inr ds' \<and> saving ds' \<le> saving ds)"
proof -
  from assms obtain dss where all: "all_rule_discounts pr promotions ch variant_id price = Inr dss"
    by (auto simp: calculate_discounted_price_for_promotions_def split: sum.splits)
  note rel = all [unfolded all_rule_discounts_Inr]
  from rel assms(2) obtain d es where dss: "dss = d # es" by (cases dss) auto
  with assms all have ds: "ds = first_max saving d es" by (simp add: calculate_discounted_price_for_promotions_def)
  have "ds \<in> set dss" unfolding ds dss by (rule first_max_in)
  from list_all2_in_right [OF rel this] have "\<exists>(p, ris) \<in> set promotions. rule_discounts pr ris ch variant_id price = Inr ds" by auto
  moreover have "\<exists>ds'. rule_discounts pr ris ch variant_id price = Inr ds' \<and> saving ds' \<le> saving ds"
    if "(p, ris) \<in> set promotions" for p ris
  proof -
    from list_all2_in_left [OF rel that] obtain e where "e \<in> set dss" "rule_discounts pr ris ch variant_id price = Inr e" by auto
    then show ?thesis using first_max_ge [of e d es saving] by (auto simp: ds dss)
  qed
  ultimately show ?thesis by blast
qed

abbreviation is_promotion :: "line_discount \<Rightarrow> bool" where
  "is_promotion d \<equiv> ld_type d = PROMOTION"

abbreviation rule_key :: "variant_rule_info \<Rightarrow> pk option" where
  "rule_key ri \<equiv> Some (ru_pk (vi_rule ri))"

lemma rule_id_to_discount_distinct:
  \<comment> \<open>With distinct rules nothing is overwritten.\<close>
  assumes "distinct (map ld_rule ds)"
  shows "rule_id_to_discount ds = map (\<lambda>d. (ld_rule d, d)) ds"
proof -
  have put: "put k v kvs = kvs @ [(k, v)]" if "k \<notin> fst ` set kvs" for k v and kvs :: "(pk option \<times> line_discount) list"
    using that by (induction kvs) auto
  have "fold (\<lambda>d. put (ld_rule d) d) ds m = m @ map (\<lambda>d. (ld_rule d, d)) ds"
    if "distinct (map ld_rule ds)" "ld_rule ` set ds \<inter> fst ` set m = {}" for m
    using that by (induction ds arbitrary: m) (auto simp: put)
  with assms show ?thesis by (simp add: rule_id_to_discount_def)
qed

lemma map_of_rule_ids: "map_of (map (\<lambda>d. (ld_rule d, d)) ds) k = find (\<lambda>d. ld_rule d = k) ds"
  by (induction ds) auto

definition rule_entry :: "int \<Rightarrow> variant_rule_info \<Rightarrow> pk option \<times> decimal" where
  \<comment> \<open>The rule of a line, and its discount for the quantity.\<close>
  "rule_entry quantity ri = (rule_key ri, vi_discount_amount ri * of_int quantity)"

definition discount_entry :: "line_discount \<Rightarrow> pk option \<times> decimal" where
  "discount_entry d = (ld_rule d, ld_amount_value d)"

definition unused_ids :: "(nat \<Rightarrow> pk) \<Rightarrow> nat \<Rightarrow> line_discount list \<Rightarrow> bool" where
  \<comment> \<open>What \<open>uuid4\<close> gives from now on is new.\<close>
  "unused_ids uuid n ds \<longleftrightarrow> (\<forall>k \<ge> n. uuid k \<notin> ld_pk ` set ds)"

lemma updated_discount_simps [simp]:
  "ld_pk (updated_discount ri a d) = ld_pk d" "ld_type (updated_discount ri a d) = ld_type d"
  "ld_rule (updated_discount ri a d) = ld_rule d" "ld_amount_value (updated_discount ri a d) = a"
  by (simp_all add: updated_discount_def)

lemma new_line_discount_simps [simp]:
  "ld_pk (new_line_discount k l ri a) = k" "ld_type (new_line_discount k l ri a) = PROMOTION"
  "ld_rule (new_line_discount k l ri a) = rule_key ri" "ld_amount_value (new_line_discount k l ri a) = a"
  by (simp_all add: new_line_discount_def)

lemma filter_map_same: "(\<And>x. x \<in> set xs \<Longrightarrow> P (f x) \<longleftrightarrow> P x) \<Longrightarrow> filter P (map f xs) = map f (filter P xs)"
  by (induction xs) auto

lemma filter_map_untouched: "(\<And>x. x \<in> set xs \<Longrightarrow> \<not> P x \<Longrightarrow> f x = x \<and> \<not> P (f x)) \<Longrightarrow> (\<And>x. x \<in> set xs \<Longrightarrow> P x \<Longrightarrow> P (f x))
  \<Longrightarrow> filter (\<lambda>x. \<not> P x) (map f xs) = filter (\<lambda>x. \<not> P x) xs"
  by (induction xs) auto

lemma replaced_promotion:
  assumes pks: "distinct (map ld_pk ds)" and d: "d \<in> set ds" "is_promotion d"
    and d': "ld_pk d' = ld_pk d" "is_promotion d'"
  defines "r \<equiv> \<lambda>x. if ld_pk x = ld_pk d then d' else x"
  shows "filter is_promotion (map r ds) = map r (filter is_promotion ds)"
    and "filter (\<lambda>x. \<not> is_promotion x) (map r ds) = filter (\<lambda>x. \<not> is_promotion x) ds"
proof -
  have same: "x = d" if "x \<in> set ds" "ld_pk x = ld_pk d" for x
    using pks that d by (meson distinct_map inj_onD)
  show "filter is_promotion (map r ds) = map r (filter is_promotion ds)"
    using d(2) d'(2) by (intro filter_map_same) (auto simp: r_def dest: same)
  show "filter (\<lambda>x. \<not> is_promotion x) (map r ds) = filter (\<lambda>x. \<not> is_promotion x) ds"
    using d(2) d'(2) by (intro filter_map_untouched) (auto simp: r_def dest: same)
qed


lemma promotion_rules_fold:
  assumes "distinct (map rule_key ris)" and "inj uuid" and "unused_ids uuid (pm_drawn s) (pm_discounts s)"
    and "distinct (map ld_pk (pm_discounts s))" and "distinct (map ld_rule (filter is_promotion (pm_discounts s)))"
    and "\<And>ri. ri \<in> set ris \<Longrightarrow> map_of m (rule_key ri) = find (\<lambda>d. ld_rule d = rule_key ri) (filter is_promotion (pm_discounts s))"
  shows "let s' = fold (promotion_rule_step uuid l m) ris s; ds = filter is_promotion (pm_discounts s) in
    distinct (map ld_pk (pm_discounts s')) \<and> distinct (map ld_rule (filter is_promotion (pm_discounts s')))
    \<and> unused_ids uuid (pm_drawn s') (pm_discounts s')
    \<and> discount_entry ` set (filter is_promotion (pm_discounts s'))
      = discount_entry ` {d \<in> set ds. ld_rule d \<notin> rule_key ` set ris} \<union> rule_entry (pl_quantity l) ` set ris
    \<and> filter (\<lambda>d. \<not> is_promotion d) (pm_discounts s') = filter (\<lambda>d. \<not> is_promotion d) (pm_discounts s)"
  using assms(1,3-6)
proof (induction ris arbitrary: s)
  case (Cons ri ris)
  let ?P = "filter is_promotion (pm_discounts s)"
  let ?a = "vi_discount_amount ri * of_int (pl_quantity l)"
  define t where "t = promotion_rule_step uuid l m ri s"
  let ?Q = "filter is_promotion (pm_discounts t)"
  have fresh_ri: "rule_key ri \<notin> rule_key ` set ris" and dist: "distinct (map rule_key ris)" using Cons.prems(1) by auto
  have found: "map_of m (rule_key ri) = find (\<lambda>d. ld_rule d = rule_key ri) ?P" by (rule Cons.prems(5)) simp
  have step: "distinct (map ld_pk (pm_discounts t)) \<and> distinct (map ld_rule ?Q) \<and> unused_ids uuid (pm_drawn t) (pm_discounts t)
    \<and> set ?Q = {d \<in> set ?P. ld_rule d \<noteq> rule_key ri} \<union> {x \<in> set ?Q. ld_rule x = rule_key ri}
    \<and> discount_entry ` {x \<in> set ?Q. ld_rule x = rule_key ri} = {rule_entry (pl_quantity l) ri}
    \<and> (\<forall>k. k \<noteq> rule_key ri \<longrightarrow> find (\<lambda>d. ld_rule d = k) ?Q = find (\<lambda>d. ld_rule d = k) ?P)
    \<and> filter (\<lambda>d. \<not> is_promotion d) (pm_discounts t) = filter (\<lambda>d. \<not> is_promotion d) (pm_discounts s)"
  proof (cases "find (\<lambda>d. ld_rule d = rule_key ri) ?P")
    case None
    define d where "d = new_line_discount (uuid (pm_drawn s)) (pl_id l) ri ?a"
    have t: "pm_discounts t = pm_discounts s @ [d]" "pm_drawn t = Suc (pm_drawn s)"
      using None found by (simp_all add: t_def promotion_rule_step_def Let_def d_def)
    have none: "ld_rule x \<noteq> rule_key ri" if "x \<in> set (pm_discounts s)" "is_promotion x" for x
      using None that by (auto simp: find_None_iff)
    have new: "ld_pk d \<notin> ld_pk ` set (pm_discounts s)" using Cons.prems(2) by (simp add: d_def unused_ids_def)
    have "uuid k \<noteq> ld_pk d" if "Suc (pm_drawn s) \<le> k" for k using that injD [OF assms(2), of k "pm_drawn s"] by (auto simp: d_def)
    then have "unused_ids uuid (pm_drawn t) (pm_discounts t)" using Cons.prems(2) by (auto simp: t unused_ids_def)
    moreover have d: "ld_rule d = rule_key ri" "is_promotion d" "discount_entry d = rule_entry (pl_quantity l) ri"
      by (simp_all add: d_def discount_entry_def rule_entry_def)
    moreover have "{x \<in> set ?Q. ld_rule x = rule_key ri} = {d}" using none d by (auto simp: t)
    moreover have "find (\<lambda>d. ld_rule d = k) ?Q = find (\<lambda>d. ld_rule d = k) ?P" if "k \<noteq> rule_key ri" for k
    proof -
      have "find (\<lambda>d. ld_rule d = k) (xs @ [d]) = find (\<lambda>d. ld_rule d = k) xs" for xs using that d by (induction xs) auto
      then show ?thesis using d by (simp add: t)
    qed
    moreover have "rule_key ri \<notin> ld_rule ` set ?P" using none by force
    ultimately show ?thesis using Cons.prems(3,4) new by (auto simp: t)
  next
    case (Some d)
    define d' where "d' = updated_discount ri ?a d"
    let ?r = "\<lambda>x. if ld_pk x = ld_pk d then d' else x"
    have t: "pm_discounts t = map ?r (pm_discounts s)" "pm_drawn t = pm_drawn s"
      using Some found by (simp_all add: t_def promotion_rule_step_def Let_def d'_def)
    from find_SomeD [OF Some] have d: "d \<in> set (pm_discounts s)" "is_promotion d" "ld_rule d = rule_key ri" by auto
    have d': "ld_pk d' = ld_pk d" "is_promotion d'" "ld_rule d' = ld_rule d" "discount_entry d' = rule_entry (pl_quantity l) ri"
      using d by (simp_all add: d'_def discount_entry_def rule_entry_def)
    have pks: "map ld_pk (pm_discounts t) = map ld_pk (pm_discounts s)" by (simp add: t d')
    note rep = replaced_promotion [OF Cons.prems(3) d(1,2) d'(1,2)]
    have same: "x = d" if "x \<in> set (pm_discounts s)" "ld_pk x = ld_pk d" for x
      using Cons.prems(3) that d(1) by (meson distinct_map inj_onD)
    have only: "x = d" if "x \<in> set (pm_discounts s)" "is_promotion x" "ld_rule x = rule_key ri" for x
    proof -
      have "d \<in> set ?P" "x \<in> set ?P" using d that by simp_all
      then show ?thesis using Cons.prems(4) that d(3) unfolding distinct_map by (metis inj_onD)
    qed
    have Q: "?Q = map ?r ?P" by (simp add: t rep)
    have rules: "map ld_rule ?Q = map ld_rule ?P" by (auto simp: Q d' dest: same)
    have setQ: "set ?Q = insert d' {x \<in> set ?P. ld_rule x \<noteq> rule_key ri}"
      using d d' by (auto simp: Q image_iff dest: same only)
    have only': "{x \<in> set ?Q. ld_rule x = rule_key ri} = {d'}" unfolding setQ using d d' by auto
    have finds: "find (\<lambda>d. ld_rule d = k) ?Q = find (\<lambda>d. ld_rule d = k) ?P" if "k \<noteq> rule_key ri" for k
    proof -
      have "find (\<lambda>d. ld_rule d = k) (map ?r xs) = find (\<lambda>d. ld_rule d = k) xs" if "set xs \<subseteq> set (pm_discounts s)" for xs
        using that
      proof (induction xs)
        case (Cons x xs)
        then show ?case using same [of x] d d' \<open>k \<noteq> rule_key ri\<close> by auto
      qed simp
      from this [of ?P] show ?thesis by (simp add: Q)
    qed
    have "unused_ids uuid (pm_drawn t) (pm_discounts t)"
      using Cons.prems(2) arg_cong [OF pks, of set] by (simp add: unused_ids_def t(2) del: t(1))
    moreover have "set ?Q = {d \<in> set ?P. ld_rule d \<noteq> rule_key ri} \<union> {x \<in> set ?Q. ld_rule x = rule_key ri}"
      unfolding setQ using d d' by auto
    moreover have "filter (\<lambda>d. \<not> is_promotion d) (pm_discounts t) = filter (\<lambda>d. \<not> is_promotion d) (pm_discounts s)"
      by (simp only: t rep(2))
    moreover have "distinct (map ld_pk (pm_discounts t))" "distinct (map ld_rule ?Q)"
      using Cons.prems(3,4) by (simp_all only: pks rules)
    moreover have "discount_entry ` {x \<in> set ?Q. ld_rule x = rule_key ri} = {rule_entry (pl_quantity l) ri}"
      unfolding only' by (simp add: d')
    ultimately show ?thesis using finds by blast
  qed
  have find: "map_of m (rule_key x) = find (\<lambda>d. ld_rule d = rule_key x) ?Q" if "x \<in> set ris" for x
  proof -
    from that fresh_ri have "rule_key x \<noteq> rule_key ri" by (metis imageI)
    with step Cons.prems(5) [of x] that show ?thesis by simp
  qed
  from step have "unused_ids uuid (pm_drawn t) (pm_discounts t)" "distinct (map ld_pk (pm_discounts t))"
    "distinct (map ld_rule ?Q)" by blast+
  note IH = Cons.IH [OF dist this find, unfolded Let_def]
  have other: "filter (\<lambda>d. \<not> is_promotion d) (pm_discounts t) = filter (\<lambda>d. \<not> is_promotion d) (pm_discounts s)"
    using step by blast
  have entries: "discount_entry ` {d \<in> set ?Q. ld_rule d \<notin> rule_key ` set ris}
      = discount_entry ` {d \<in> set ?P. ld_rule d \<notin> rule_key ` set (ri # ris)} \<union> {rule_entry (pl_quantity l) ri}"
    (is "?L = ?R")
  proof -
    have "{d \<in> set ?Q. ld_rule d \<notin> rule_key ` set ris}
        = {d \<in> set ?P. ld_rule d \<notin> rule_key ` set (ri # ris)} \<union> {x \<in> set ?Q. ld_rule x = rule_key ri}"
    proof -
      have "{d \<in> Q. ld_rule d \<notin> R} = {d \<in> P. ld_rule d \<notin> insert k R} \<union> {x \<in> Q. ld_rule x = k}"
        if "Q = {d \<in> P. ld_rule d \<noteq> k} \<union> {x \<in> Q. ld_rule x = k}" "k \<notin> R" for Q P R and k :: "pk option"
        using that by blast
      from this [of "set ?Q" "set ?P", OF _ fresh_ri] step show ?thesis unfolding list.set(2) image_insert by blast
    qed
    moreover have "discount_entry ` {x \<in> set ?Q. ld_rule x = rule_key ri} = {rule_entry (pl_quantity l) ri}" using step by blast
    ultimately show ?thesis by (simp only: image_Un)
  qed
  have "rule_entry (pl_quantity l) ` set (ri # ris) = {rule_entry (pl_quantity l) ri} \<union> rule_entry (pl_quantity l) ` set ris" by simp
  with IH entries other show ?case unfolding fold_simps Let_def t_def [symmetric] by (simp only: Un_assoc HOL.simp_thms)
qed simp


lemma find_implied_filter: "(\<And>x. x \<in> set xs \<Longrightarrow> Q x \<Longrightarrow> P x) \<Longrightarrow> find Q (filter P xs) = find Q xs"
  by (induction xs) auto

definition line_discounts_ok :: "priced_line \<Rightarrow> bool" where
  \<comment> \<open>Ids are primary keys; a rule gives a line at most one discount, and a listing one entry of a rule.\<close>
  "line_discounts_ok l \<longleftrightarrow> distinct (map ld_pk (pl_discounts l)) \<and> distinct (map ld_rule (get_promotion_discounts l))
     \<and> distinct (map rule_key (pl_rules_info l))"

lemma discounted_line_step:
  assumes "line_discounts_ok l" and "line_discount_amount (pl_listing l) (pl_quantity l) \<noteq> 0"
    and "inj uuid" and "unused_ids uuid (pm_drawn s) (pl_discounts l)"
  shows "mset (map discount_entry (filter is_promotion (pm_discounts (promotion_line_step uuid l s))))
      = mset (map (rule_entry (pl_quantity l)) (pl_rules_info l))"
    and "filter (\<lambda>d. \<not> is_promotion d) (pm_discounts (promotion_line_step uuid l s)) = filter (\<lambda>d. \<not> is_promotion d) (pl_discounts l)"
proof -
  let ?P = "get_promotion_discounts l" and ?R = "rule_key ` set (pl_rules_info l)"
  let ?m = "map (\<lambda>d. (ld_rule d, d)) ?P"
  let ?ids = "discounts_not_valid_anymore (pl_rules_info l) ?m"
  let ?s = "s\<lparr>pm_to_remove := pm_to_remove s @ ?ids, pm_discounts := filter (\<lambda>d. ld_pk d \<notin> set ?ids) (pl_discounts l)\<rparr>"
  note ok = assms(1) [unfolded line_discounts_ok_def]
  have ids: "set ?ids = ld_pk ` {d \<in> set ?P. ld_rule d \<notin> ?R}" by (auto simp: discounts_not_valid_anymore_def)
  have removed: "ld_pk d \<in> set ?ids \<longleftrightarrow> is_promotion d \<and> ld_rule d \<notin> ?R" if "d \<in> set (pl_discounts l)" for d
  proof -
    have "e = d" if "e \<in> set (pl_discounts l)" "ld_pk e = ld_pk d" for e
      using ok that \<open>d \<in> _\<close> by (meson distinct_map inj_onD)
    then show ?thesis unfolding ids using that by (auto simp: get_promotion_discounts_def image_iff)
  qed
  have step: "promotion_line_step uuid l s = fold (promotion_rule_step uuid l ?m) (pl_rules_info l) ?s"
    using assms(2) ok by (simp add: promotion_line_step_def Let_def rule_id_to_discount_distinct)
  have kept: "filter is_promotion (pm_discounts ?s) = filter (\<lambda>d. ld_rule d \<in> ?R) ?P"
    using removed by (auto simp: get_promotion_discounts_def intro!: filter_cong)
  have others: "filter (\<lambda>d. \<not> is_promotion d) (pm_discounts ?s) = filter (\<lambda>d. \<not> is_promotion d) (pl_discounts l)"
    using removed by (auto intro!: filter_cong)
  have "distinct (map ld_rule (filter is_promotion (pm_discounts ?s)))" unfolding kept using ok by (simp add: distinct_map_filter)
  moreover have "distinct (map ld_pk (pm_discounts ?s))" using ok by (simp add: distinct_map_filter)
  moreover have "unused_ids uuid (pm_drawn ?s) (pm_discounts ?s)" using assms(4) by (auto simp: unused_ids_def)
  moreover have "map_of ?m (rule_key ri) = find (\<lambda>d. ld_rule d = rule_key ri) (filter is_promotion (pm_discounts ?s))"
    if "ri \<in> set (pl_rules_info l)" for ri
    unfolding kept map_of_rule_ids using that by (intro find_implied_filter [symmetric]) auto
  ultimately have result: "distinct (map ld_rule (filter is_promotion (pm_discounts (promotion_line_step uuid l s))))"
    "discount_entry ` set (filter is_promotion (pm_discounts (promotion_line_step uuid l s)))
      = discount_entry ` {d \<in> set (filter (\<lambda>d. ld_rule d \<in> ?R) ?P). ld_rule d \<notin> ?R} \<union> rule_entry (pl_quantity l) ` set (pl_rules_info l)"
    "filter (\<lambda>d. \<not> is_promotion d) (pm_discounts (promotion_line_step uuid l s)) = filter (\<lambda>d. \<not> is_promotion d) (pm_discounts ?s)"
    using promotion_rules_fold [of "pl_rules_info l" uuid ?s ?m l, OF _ assms(3), unfolded Let_def kept] ok unfolding step kept by blast+
  then show "filter (\<lambda>d. \<not> is_promotion d) (pm_discounts (promotion_line_step uuid l s)) = filter (\<lambda>d. \<not> is_promotion d) (pl_discounts l)"
    using others by simp
  have fst: "map fst (map discount_entry ds) = map ld_rule ds" "map fst (map (rule_entry q) ris) = map rule_key ris" for ds q ris
    by (simp_all add: discount_entry_def rule_entry_def)
  have "distinct (map discount_entry (filter is_promotion (pm_discounts (promotion_line_step uuid l s))))"
    using result(1) by (metis distinct_map fst(1))
  moreover have "distinct (map (rule_entry (pl_quantity l)) (pl_rules_info l))" using ok by (metis distinct_map fst(2))
  moreover have "set (map discount_entry (filter is_promotion (pm_discounts (promotion_line_step uuid l s))))
      = set (map (rule_entry (pl_quantity l)) (pl_rules_info l))"
    using result(2) by auto
  ultimately show "mset (map discount_entry (filter is_promotion (pm_discounts (promotion_line_step uuid l s))))
      = mset (map (rule_entry (pl_quantity l)) (pl_rules_info l))"
    using set_eq_iff_mset_eq_distinct by blast
qed


lemma promotion_step_draws: "pm_drawn s \<le> pm_drawn (promotion_rule_step uuid l m ri s)"
  by (simp add: promotion_rule_step_def Let_def split: option.split)

lemma promotion_line_draws: "pm_drawn s \<le> pm_drawn (promotion_line_step uuid l s)"
proof -
  have "pm_drawn t \<le> pm_drawn (fold (promotion_rule_step uuid l m) ris t)" for m ris t
    by (induction ris arbitrary: t) (auto intro: order_trans [OF promotion_step_draws])
  from this [of "s\<lparr>pm_to_remove := x, pm_discounts := y\<rparr>" for x y] show ?thesis by (simp add: promotion_line_step_def Let_def)
qed

definition promotions_applied :: "priced_line \<Rightarrow> priced_line \<Rightarrow> bool" where
  \<comment> \<open>A discounted line has, of each of its rules, one discount, of the rule's amount for the quantity; the discounts
     that are not promotions are kept.  A line that is not discounted has none.\<close>
  "promotions_applied l l' \<longleftrightarrow> (if line_discount_amount (pl_listing l) (pl_quantity l) = 0 then pl_discounts l' = []
     else mset (map discount_entry (get_promotion_discounts l')) = mset (map (rule_entry (pl_quantity l)) (pl_rules_info l)
       ) \<and> filter (\<lambda>d. \<not> is_promotion d) (pl_discounts l') = filter (\<lambda>d. \<not> is_promotion d) (pl_discounts l))"

lemma promotion_lines_applied:
  assumes "list_all line_discounts_ok ls" and "inj uuid" and "list_all (\<lambda>l. unused_ids uuid (pm_drawn s) (pl_discounts l)) ls"
  shows "list_all2 promotions_applied ls (fst (promotion_lines uuid ls s))"
  using assms(1,3)
proof (induction ls arbitrary: s)
  case (Cons l ls)
  let ?t = "promotion_line_step uuid l s"
  have "list_all (\<lambda>l. unused_ids uuid (pm_drawn ?t) (pl_discounts l)) ls"
    using Cons.prems(2) order_trans [OF promotion_line_draws] by (fastforce simp: unused_ids_def list_all_iff)
  with Cons have "list_all2 promotions_applied ls (fst (promotion_lines uuid ls ?t))" by simp
  moreover have "promotions_applied l (l\<lparr>pl_discounts := pm_discounts ?t\<rparr>)"
  proof (cases "line_discount_amount (pl_listing l) (pl_quantity l) = 0")
    case True
    then show ?thesis by (simp add: promotions_applied_def promotion_line_step_def Let_def)
  next
    case False
    with Cons.prems show ?thesis unfolding promotions_applied_def get_promotion_discounts_def
      using discounted_line_step [OF _ False assms(2)] by simp
  qed
  ultimately show ?case by (auto simp: Let_def split: prod.split)
qed simp



section \<open>Examples\<close>

definition ex_pricing :: pricing where
  \<comment> \<open>With two digits, and a percentage rounded half up.\<close>
  "ex_pricing = \<lparr>pr_precision = two_digits, pr_fixed_discount = (\<lambda>b d. max (b - d) 0),
     pr_percentage_discount = (\<lambda>c b d. b - of_int \<lfloor>b * d / 100 * 100 + 1 / 2\<rfloor> / 100)\<rparr>"

definition ex_rule :: "pk \<Rightarrow> decimal \<Rightarrow> promotion_rule" where
  "ex_rule k value = \<lparr>ru_pk = k, ru_name = Some ''rule'', ru_reward_value_type = Some FIXED, ru_reward_value = Some value\<rparr>"

definition ex_rule_info :: "pk \<Rightarrow> decimal \<Rightarrow> variant_rule_info" where
  "ex_rule_info k value = \<lparr>vi_pk = k, vi_rule = ex_rule k value, vi_discount_amount = value, vi_promotion_name = ''promotion'',
     vi_promotion_translation = None, vi_rule_translation = None\<rparr>"

definition ex_listing :: variant_listing where
  "ex_listing = \<lparr>li_pk = 1, li_price_amount = Some 10, li_discounted_price_amount = Some 7\<rparr>"

definition ex_line_discount :: "pk \<Rightarrow> pk option \<Rightarrow> line_discount" where
  "ex_line_discount k r = \<lparr>ld_pk = k, ld_line = 1, ld_type = PROMOTION, ld_value_type = Some FIXED, ld_value = Some 2,
     ld_amount_value = 2, ld_name = Some ''promotion: rule'', ld_translated_name = None, ld_rule = r\<rparr>"

definition ex_priced_line :: "pk \<Rightarrow> int \<Rightarrow> line_discount list \<Rightarrow> variant_rule_info list \<Rightarrow> priced_line" where
  "ex_priced_line k quantity ds ris = \<lparr>pl_id = k, pl_quantity = quantity, pl_price_override = None, pl_variant = 1, pl_product = 1,
     pl_category = None, pl_collections = [], pl_is_shipping_required = True, pl_listing = ex_listing, pl_discounts = ds,
     pl_rules_info = ris, pl_tax_class = None, pl_voucher = None, pl_total_net = 0, pl_total_gross = 0, pl_tax_rate = 0\<rparr>"

definition ex_channel :: sales_channel where
  "ex_channel = \<lparr>sc_id = 1, sc_slug = ''main'', sc_is_active = True, sc_currency_code = ''USD'', sc_default_country = ''US''\<rparr>"

definition ex_promotions :: "(pk \<times> promotion_rule_info list) list" where
  "ex_promotions = [(1, [\<lparr>ri_rule = ex_rule 1 2, ri_variant_ids = [1], ri_channel_ids = [1]\<rparr>,
      \<lparr>ri_rule = ex_rule 2 3, ri_variant_ids = [2], ri_channel_ids = [1]\<rparr>]),
    (2, [\<lparr>ri_rule = ex_rule 3 1, ri_variant_ids = [1, 2], ri_channel_ids = [1]\<rparr>,
      \<lparr>ri_rule = ex_rule 4 2, ri_variant_ids = [1], ri_channel_ids = [1, 2]\<rparr>])]"

lemma ex_best: "calculate_discounted_price_for_promotions ex_pricing 10 ex_promotions ex_channel (Some 1) = Inr [(3, 1), (4, 2)]"
  by code_simp

lemma best_promotion_saves_most_witness:
  "list_ex (\<lambda>(p, ris). rule_discounts ex_pricing ris ex_channel (Some 1) 10 = Inr [(3, 1), (4, 2)]) ex_promotions
   \<and> list_all (\<lambda>(p, ris). \<not> isl (rule_discounts ex_pricing ris ex_channel (Some 1) 10)) ex_promotions"
  using best_promotion_saves_most [OF ex_best] by (fastforce simp: ex_promotions_def list_ex_iff list_all_iff)

definition ex_promoted_lines :: "priced_line list" where
  "ex_promoted_lines = [ex_priced_line 1 2 [ex_line_discount 5 (Some 1), ex_line_discount 6 (Some 9)] [ex_rule_info 1 2, ex_rule_info 2 1]]"

definition ex_uuid :: "nat \<Rightarrow> pk" where
  "ex_uuid n = n + 100"

lemma ex_promoted:
  "\<not> isl (create_or_update_discount_objects_from_promotion_for_checkout ex_uuid ex_promoted_lines [])"
  by code_simp


text \<open>
  Discounts whose rule was deleted have a null rule.  They are one entry of \<open>rule_id_to_discount\<close>, so that
  of several only the last is removed: the others stay on the line, next to the discount of the current rule.
\<close>

lemma stale_null_rule_discounts:
  "map discount_entry (pl_discounts (hd (fst (projr (create_or_update_discount_objects_from_promotion_for_checkout ex_uuid
     [ex_priced_line 1 2 [ex_line_discount 5 None, ex_line_discount 6 None] [ex_rule_info 2 3]] [])))))
   = [(None, 2), (Some 2, 6)]"
  by code_simp

text \<open>A translation without a name is shown as \<open>None\<close>.\<close>

lemma translation_without_name:
  "get_discount_translated_name ((ex_rule_info 1 2)\<lparr>vi_promotion_translation := Some None, vi_rule_translation := Some (Some ''rabais'')\<rparr>)
   = Some ''None: rabais''"
  by code_simp

end
