(* ===== verification/Base_Prices.thy ===== *)
theory Base_Prices
  imports Discounts
begin

text \<open>
  The prices of a checkout before taxes, \<open>saleor/checkout/base_calculations.py\<close>, and the voucher of a checkout:
  the functions of \<open>saleor/checkout/utils.py\<close> that validate, apply, recalculate and remove it, and
  \<open>apply_voucher_to_checkout_line\<close> of \<open>saleor/checkout/fetch.py\<close>.

  Quotients, and what is computed from them, go through \<open>ctx\<close>, the rounding of the decimal context.  Sums, differences and
  products of stored amounts are exact.  A line with no price (its listing has none) raises \<open>Price_Type_Error\<close>.
\<close>

section \<open>Sequencing\<close>

definition and_then :: "'e + 'a \<Rightarrow> ('a \<Rightarrow> 'e + 'b) \<Rightarrow> 'e + 'b" where
  \<comment> \<open>What raises ends the function.\<close>
  "and_then r f = (case r of Inl er \<Rightarrow> Inl er | Inr x \<Rightarrow> f x)"

lemma and_then_simps [simp]:
  "and_then (Inl er) f = Inl er" "and_then (Inr x) f = f x"
  "and_then r f = Inr y \<longleftrightarrow> (\<exists>x. r = Inr x \<and> f x = Inr y)"
  by (auto simp: and_then_def split: sum.splits)

fun all_of :: "('a \<Rightarrow> 'e + 'b) \<Rightarrow> 'a list \<Rightarrow> 'e + 'b list" where
  \<comment> \<open>A list comprehension over a function that may raise.\<close>
  "all_of f [] = Inr []"
| "all_of f (x # xs) = and_then (f x) (\<lambda>y. and_then (all_of f xs) (\<lambda>ys. Inr (y # ys)))"

lemma all_of_Inr: "all_of f xs = Inr ys \<longleftrightarrow> list_all2 (\<lambda>x y. f x = Inr y) xs ys"
  by (induction xs arbitrary: ys) (auto simp: list_all2_Cons1)

definition divided :: "decimal \<Rightarrow> decimal \<Rightarrow> price_error + decimal" where
  "divided a b = (case dec_div a b of None \<Rightarrow> Inl Division_Error | Some q \<Rightarrow> Inr q)"

section \<open>Checkouts\<close>

datatype delivery_method = No_Delivery | Shipping_Method decimal "tax_class option" | Collection_Point

record priced_checkout =
  pc_channel :: sales_channel
  pc_voucher :: "voucher option"             \<comment> \<open>\<open>checkout_info.voucher\<close>\<close>
  pc_voucher_code :: "string option"
  pc_discount_amount :: decimal
  pc_discount_name :: "string option"
  pc_translated_discount_name :: "string option"
  pc_language_code :: string
  pc_delivery :: delivery_method
  pc_lines_require_shipping :: bool          \<comment> \<open>\<open>checkout.is_shipping_required()\<close>, from the table of lines\<close>
  pc_customer_email :: string
  pc_customer_is_staff :: "bool option"      \<comment> \<open>of the user, if there is one\<close>
  pc_country :: "string option"              \<comment> \<open>of the shipping or billing address\<close>
  pc_shipping_price :: "decimal \<times> decimal"   \<comment> \<open>net and gross\<close>
  pc_shipping_tax_rate :: decimal
  pc_subtotal :: "decimal \<times> decimal"
  pc_total :: "decimal \<times> decimal"
  pc_price_expiration :: time
  pc_tax_exemption :: bool

abbreviation channel_quantize :: "pricing \<Rightarrow> sales_channel \<Rightarrow> decimal \<Rightarrow> decimal" where
  \<comment> \<open>\<open>quantize_price(price, currency)\<close>\<close>
  "channel_quantize pr ch x \<equiv> quantize_price (pr_precision pr) x (sc_currency_code ch)"

section \<open>\<open>checkout/base_calculations.py\<close>\<close>

definition get_base_price :: "priced_line \<Rightarrow> price_error + decimal" where
  \<comment> \<open>\<open>ProductVariant.get_base_price\<close>\<close>
  "get_base_price l = (case pl_price_override l of Some p \<Rightarrow> Inr p
     | None \<Rightarrow> (case li_price_amount (pl_listing l) of Some p \<Rightarrow> Inr p | None \<Rightarrow> Inl Price_Type_Error))"

definition line_voucher_price :: "pricing \<Rightarrow> sales_channel \<Rightarrow> voucher \<Rightarrow> int \<Rightarrow> decimal \<Rightarrow> price_error + decimal" where
  \<comment> \<open>The total price of a line after its voucher.\<close>
  "line_voucher_price pr ch v quantity total_price =
     (if \<not> vo_apply_once_per_order v then
        (case vo_discount_value_type v of
           PERCENTAGE \<Rightarrow> and_then (get_discount_amount_for pr v total_price ch) (\<lambda>voucher_discount_amount.
             Inr (max (total_price - voucher_discount_amount) 0))
         | FIXED \<Rightarrow> and_then (divided total_price (of_int quantity)) (\<lambda>unit_price.
             and_then (get_discount_amount_for pr v unit_price ch) (\<lambda>voucher_unit_discount_amount.
               Inr (max (ctx (total_price - ctx (voucher_unit_discount_amount * of_int quantity))) 0))))
      else and_then (divided total_price (of_int quantity)) (\<lambda>unit_price.
        and_then (get_discount_amount_for pr v unit_price ch) (\<lambda>voucher_unit_discount_amount.
          let variant_price_with_discounts = max (ctx (unit_price - voucher_unit_discount_amount)) 0
          in Inr (ctx (ctx (unit_price * of_int (quantity - 1)) + variant_price_with_discounts)))))"

definition calculate_base_line_total_price :: "pricing \<Rightarrow> sales_channel \<Rightarrow> priced_line \<Rightarrow> price_error + decimal" where
  "calculate_base_line_total_price pr ch l = and_then (get_base_price l) (\<lambda>variant_price.
     let total_price = variant_price * of_int (pl_quantity l);
         total_price = fold (\<lambda>d total. total - ld_amount_value d) (pl_discounts l) total_price
     in and_then (case pl_voucher l of None \<Rightarrow> Inr total_price | Some v \<Rightarrow> line_voucher_price pr ch v (pl_quantity l) total_price)
          (\<lambda>total_price. Inr (channel_quantize pr ch total_price)))"

definition calculate_base_line_unit_price :: "pricing \<Rightarrow> sales_channel \<Rightarrow> priced_line \<Rightarrow> price_error + decimal" where
  "calculate_base_line_unit_price pr ch l = and_then (calculate_base_line_total_price pr ch l) (\<lambda>total_line_price.
     and_then (divided total_line_price (of_int (pl_quantity l))) (\<lambda>p. Inr (channel_quantize pr ch p)))"

definition calculate_undiscounted_base_line_unit_price :: "pricing \<Rightarrow> sales_channel \<Rightarrow> priced_line \<Rightarrow> price_error + decimal" where
  "calculate_undiscounted_base_line_unit_price pr ch l = and_then (get_base_price l) (\<lambda>variant_price.
     Inr (channel_quantize pr ch variant_price))"

definition calculate_undiscounted_base_line_total_price :: "pricing \<Rightarrow> sales_channel \<Rightarrow> priced_line \<Rightarrow> price_error + decimal" where
  "calculate_undiscounted_base_line_total_price pr ch l =
     and_then (calculate_undiscounted_base_line_unit_price pr ch l) (\<lambda>unit_price.
       Inr (channel_quantize pr ch (unit_price * of_int (pl_quantity l))))"

definition is_shipping_required :: "priced_line list \<Rightarrow> bool" where
  "is_shipping_required ls = list_ex pl_is_shipping_required ls"

definition base_checkout_undiscounted_delivery_price :: "pricing \<Rightarrow> priced_checkout \<Rightarrow> priced_line list option \<Rightarrow> decimal" where
  \<comment> \<open>With \<open>calculate_base_price_for_shipping_method\<close>.\<close>
  "base_checkout_undiscounted_delivery_price pr ck ls = (case pc_delivery ck of
     Shipping_Method price tc \<Rightarrow>
       (let shipping_required = (case ls of Some ls \<Rightarrow> is_shipping_required ls | None \<Rightarrow> pc_lines_require_shipping ck)
        in if \<not> shipping_required then 0 else channel_quantize pr (pc_channel ck) price)
   | _ \<Rightarrow> 0)"

definition base_checkout_delivery_price :: "pricing \<Rightarrow> priced_checkout \<Rightarrow> priced_line list option \<Rightarrow> decimal" where
  "base_checkout_delivery_price pr ck ls =
     (let shipping_price = base_checkout_undiscounted_delivery_price pr ck ls;
          is_shipping_voucher = (case pc_voucher ck of None \<Rightarrow> False | Some v \<Rightarrow> vo_type v = SHIPPING);
          shipping_price = (if is_shipping_voucher then max 0 (shipping_price - pc_discount_amount ck) else shipping_price)
      in channel_quantize pr (pc_channel ck) shipping_price)"

definition base_checkout_subtotal :: "pricing \<Rightarrow> sales_channel \<Rightarrow> priced_line list \<Rightarrow> price_error + decimal" where
  "base_checkout_subtotal pr ch ls = and_then (all_of (calculate_base_line_total_price pr ch) ls) (\<lambda>line_totals.
     Inr (sum_list line_totals))"

definition base_checkout_total :: "pricing \<Rightarrow> priced_checkout \<Rightarrow> priced_line list \<Rightarrow> price_error + decimal" where
  "base_checkout_total pr ck ls = and_then (base_checkout_subtotal pr (pc_channel ck) ls) (\<lambda>subtotal.
     Inr (subtotal + base_checkout_delivery_price pr ck (Some ls)))"

definition base_discounted_checkout_total :: "pricing \<Rightarrow> priced_checkout \<Rightarrow> priced_line list \<Rightarrow> price_error + decimal" where
  \<comment> \<open>\<open>base_calculations.checkout_total\<close>\<close>
  "base_discounted_checkout_total pr ck ls = and_then (base_checkout_subtotal pr (pc_channel ck) ls) (\<lambda>subtotal.
     let discount_not_included = (case pc_voucher ck of None \<Rightarrow> False
           | Some v \<Rightarrow> vo_type v = ENTIRE_ORDER \<and> \<not> vo_apply_once_per_order v);
         subtotal' = (if discount_not_included then max 0 (subtotal - pc_discount_amount ck) else subtotal)
     in Inr (subtotal' + base_checkout_delivery_price pr ck (Some ls)))"

definition ctx_sum :: "decimal list \<Rightarrow> decimal" where
  \<comment> \<open>\<open>sum\<close> of decimals that may need all digits.\<close>
  "ctx_sum xs = fold (\<lambda>x s. ctx (s + x)) xs 0"

definition discount_share :: "decimal \<Rightarrow> decimal \<Rightarrow> decimal \<Rightarrow> price_error + decimal" where
  \<comment> \<open>\<open>line_total_price / total_price * total_discount_amount\<close>\<close>
  "discount_share total_price total_discount_amount line_total_price =
     and_then (divided line_total_price total_price) (\<lambda>rate. Inr (ctx (rate * total_discount_amount)))"

definition calculate_discount_for_last_element :: "decimal list \<Rightarrow> decimal \<Rightarrow> decimal \<Rightarrow> price_error + decimal" where
  "calculate_discount_for_last_element lines_total_prices total_price total_discount_amount =
     and_then (all_of (discount_share total_price total_discount_amount) lines_total_prices) (\<lambda>shares.
       Inr (ctx (total_discount_amount - ctx_sum shares)))"

definition entire_order_discount :: "priced_checkout \<Rightarrow> bool" where
  \<comment> \<open>The vouchers that \<open>apply_checkout_discount_on_checkout_line\<close> does not return for.\<close>
  "entire_order_discount ck \<longleftrightarrow> (case pc_voucher ck of None \<Rightarrow> False
     | Some v \<Rightarrow> \<not> vo_apply_once_per_order v \<and> vo_type v \<notin> {SHIPPING, SPECIFIC_PRODUCT})"

definition checkout_line_discount_amount ::
  "pricing \<Rightarrow> priced_checkout \<Rightarrow> priced_line list \<Rightarrow> priced_line \<Rightarrow> decimal \<Rightarrow> price_error + decimal" where
  \<comment> \<open>The \<open>discount_amount\<close> of a line of several.\<close>
  "checkout_line_discount_amount pr ck ls l line_total_price =
     and_then (all_of (calculate_base_line_total_price pr (pc_channel ck)) (filter (\<lambda>x. pl_id x \<noteq> pl_id l) ls))
       (\<lambda>lines_total_prices. let total_price = sum_list lines_total_prices + line_total_price
         in if ls = [] then Inl Price_Index_Error
            else if pl_id (last ls) = pl_id l
            then calculate_discount_for_last_element lines_total_prices total_price (pc_discount_amount ck)
            else discount_share total_price (pc_discount_amount ck) line_total_price)"

definition apply_checkout_discount_on_checkout_line ::
  "pricing \<Rightarrow> priced_checkout \<Rightarrow> priced_line list \<Rightarrow> priced_line \<Rightarrow> decimal \<Rightarrow> price_error + decimal" where
  "apply_checkout_discount_on_checkout_line pr ck ls l line_total_price =
     (if \<not> entire_order_discount ck then Inr line_total_price
      else if length ls = 1 then Inr (max (line_total_price - pc_discount_amount ck) 0)
      else and_then (checkout_line_discount_amount pr ck ls l line_total_price) (\<lambda>discount_amount.
        Inr (max (ctx (line_total_price - discount_amount)) 0)))"

section \<open>Vouchers of a checkout\<close>

definition voucher_covers :: "voucher \<Rightarrow> priced_line \<Rightarrow> bool" where
  "voucher_covers v l \<longleftrightarrow> pl_variant l \<in> set (vo_variants v) \<or> pl_product l \<in> set (vo_products v)
     \<or> (case pl_category l of None \<Rightarrow> False | Some c \<Rightarrow> c \<in> set (vo_categories v))
     \<or> set (pl_collections l) \<inter> set (vo_collections v) \<noteq> {}"

definition get_discounted_lines :: "priced_line list \<Rightarrow> voucher \<Rightarrow> priced_line list" where
  \<comment> \<open>With \<open>fetch_voucher_info\<close>.\<close>
  "get_discounted_lines ls v =
     (if vo_products v \<noteq> [] \<or> vo_collections v \<noteq> [] \<or> vo_categories v \<noteq> [] \<or> vo_variants v \<noteq> []
      then filter (voucher_covers v) ls else ls)"

definition get_base_lines_prices :: "priced_line list \<Rightarrow> price_error + decimal list" where
  \<comment> \<open>A price that is null raises where the prices are used.\<close>
  "get_base_lines_prices ls = all_of (\<lambda>p. case p of None \<Rightarrow> Inl Price_Type_Error | Some p \<Rightarrow> Inr p)
     (concat (map (\<lambda>l. replicate (nat (pl_quantity l)) (li_discounted_price_amount (pl_listing l))) ls))"

definition get_shipping_voucher_discount_for_checkout ::
  "pricing \<Rightarrow> voucher \<Rightarrow> priced_checkout \<Rightarrow> priced_line list \<Rightarrow> price_error + decimal" where
  "get_shipping_voucher_discount_for_checkout pr v ck ls =
     (if \<not> is_shipping_required ls then Inl (Not_Applicable No_Shipping_Required)
      else if pc_delivery ck = No_Delivery then Inl (Not_Applicable No_Delivery_Method)
      else if (case pc_country ck of None \<Rightarrow> False | Some c \<Rightarrow> vo_countries v \<noteq> [] \<and> c \<notin> set (vo_countries v))
        then Inl (Not_Applicable Not_In_Country)
      else get_discount_amount_for pr v (base_checkout_undiscounted_delivery_price pr ck (Some ls)) (pc_channel ck))"

definition products_voucher_discount_for_checkout ::
  "pricing \<Rightarrow> voucher \<Rightarrow> priced_checkout \<Rightarrow> priced_line list \<Rightarrow> price_error + decimal" where
  \<comment> \<open>\<open>_get_products_voucher_discount\<close>\<close>
  "products_voucher_discount_for_checkout pr v ck ls = and_then (get_base_lines_prices (get_discounted_lines ls v)) (\<lambda>prices.
     if prices = [] then Inl (Not_Applicable Only_Selected_Items) else get_products_voucher_discount pr v prices (pc_channel ck))"

definition validate_voucher_for_checkout ::
  "pricing \<Rightarrow> voucher \<Rightarrow> priced_checkout \<Rightarrow> priced_line list \<Rightarrow> voucher_tables \<Rightarrow> price_error + unit" where
  "validate_voucher_for_checkout pr v ck ls V = and_then (base_checkout_subtotal pr (pc_channel ck) ls) (\<lambda>subtotal.
     case validate_voucher v subtotal (sum_list (map pl_quantity ls)) (pc_customer_email ck) (pc_channel ck)
       (pc_customer_is_staff ck) V of
       None \<Rightarrow> Inr () | Some reason \<Rightarrow> Inl (Not_Applicable reason))"

definition get_voucher_discount_for_checkout ::
  "pricing \<Rightarrow> voucher \<Rightarrow> priced_checkout \<Rightarrow> priced_line list \<Rightarrow> voucher_tables \<Rightarrow> price_error + decimal" where
  "get_voucher_discount_for_checkout pr v ck ls V = and_then (validate_voucher_for_checkout pr v ck ls V) (\<lambda>_.
     case vo_type v of
       ENTIRE_ORDER \<Rightarrow> (if vo_apply_once_per_order v
         then and_then (get_base_lines_prices ls) (\<lambda>prices. case prices of [] \<Rightarrow> Inl Price_Value_Error
           | p # ps \<Rightarrow> get_discount_amount_for pr v (fold min ps p) (pc_channel ck))
         else and_then (base_checkout_subtotal pr (pc_channel ck) ls) (\<lambda>subtotal.
           get_discount_amount_for pr v subtotal (pc_channel ck)))
     | SHIPPING \<Rightarrow> get_shipping_voucher_discount_for_checkout pr v ck ls
     | SPECIFIC_PRODUCT \<Rightarrow> products_voucher_discount_for_checkout pr v ck ls)"

definition get_voucher_for_checkout :: "time \<Rightarrow> voucher_tables \<Rightarrow> priced_checkout \<Rightarrow> voucher option" where
  "get_voucher_for_checkout t V ck = (case pc_voucher_code ck of None \<Rightarrow> None
     | Some code \<Rightarrow> find (\<lambda>v. voucher_active_in_channel t (sc_slug (pc_channel ck)) v \<and> vo_code v = code) (vouchers V))"

definition remove_voucher_from_checkout :: "priced_checkout \<Rightarrow> priced_checkout" where
  "remove_voucher_from_checkout ck = ck\<lparr>pc_voucher_code := None, pc_discount_name := None,
     pc_translated_discount_name := None, pc_discount_amount := 0\<rparr>"

definition check_voucher_for_checkout ::
  "pricing \<Rightarrow> voucher \<Rightarrow> priced_line list \<Rightarrow> voucher_tables \<Rightarrow> priced_checkout \<Rightarrow> price_error + decimal option \<times> priced_checkout" where
  "check_voucher_for_checkout pr v ls V ck = (case get_voucher_discount_for_checkout pr v ck ls V of
     Inr discount \<Rightarrow> Inr (Some discount, ck)
   | Inl (Not_Applicable reason) \<Rightarrow> Inr (None, (remove_voucher_from_checkout ck)\<lparr>pc_voucher := None\<rparr>)
   | Inl er \<Rightarrow> Inl er)"

definition translated_voucher_name :: "voucher \<Rightarrow> string \<Rightarrow> string option" where
  \<comment> \<open>\<open>get_translation(voucher, language_code).name\<close>\<close>
  "translated_voucher_name v language_code = (case map_of (vo_translations v) language_code of
     Some name \<Rightarrow> name | None \<Rightarrow> vo_name v)"

definition set_discount_names :: "voucher \<Rightarrow> priced_checkout \<Rightarrow> priced_checkout" where
  "set_discount_names v ck = (let name = translated_voucher_name v (pc_language_code ck)
     in ck\<lparr>pc_discount_name := vo_name v, pc_translated_discount_name := (if name \<noteq> vo_name v then name else Some [])\<rparr>)"

definition recalculate_checkout_discount ::
  "pricing \<Rightarrow> priced_line list \<Rightarrow> voucher_tables \<Rightarrow> priced_checkout \<Rightarrow> price_error + priced_checkout" where
  "recalculate_checkout_discount pr ls V ck = (case pc_voucher ck of None \<Rightarrow> Inr (remove_voucher_from_checkout ck)
     | Some v \<Rightarrow> and_then (check_voucher_for_checkout pr v ls V ck) (\<lambda>(discount, ck).
         case discount of None \<Rightarrow> Inr ck
         | Some discount \<Rightarrow> if discount = 0 then Inr ck
             else and_then (base_checkout_subtotal pr (pc_channel ck) ls) (\<lambda>subtotal.
               Inr (set_discount_names v
                 (ck\<lparr>pc_discount_amount := (if vo_type v \<noteq> SHIPPING then min discount subtotal else discount)\<rparr>)))))"

definition add_voucher_to_checkout ::
  "pricing \<Rightarrow> priced_line list \<Rightarrow> voucher_tables \<Rightarrow> voucher \<Rightarrow> priced_checkout \<Rightarrow> price_error + priced_checkout" where
  "add_voucher_to_checkout pr ls V v ck = and_then (get_voucher_discount_for_checkout pr v ck ls V) (\<lambda>discount.
     Inr (set_discount_names v (ck\<lparr>pc_voucher_code := Some (vo_code v), pc_discount_amount := discount, pc_voucher := Some v\<rparr>)))"

datatype promo_error = Invalid_Promo_Code | Voucher_Not_Applicable | Promo_Crash price_error

definition add_voucher_code_to_checkout ::
  "pricing \<Rightarrow> time \<Rightarrow> priced_line list \<Rightarrow> voucher_tables \<Rightarrow> string \<Rightarrow> priced_checkout \<Rightarrow> promo_error + priced_checkout" where
  "add_voucher_code_to_checkout pr t ls V voucher_code ck =
     (case find (\<lambda>v. voucher_active_in_channel t (sc_slug (pc_channel ck)) v \<and> vo_code v = voucher_code) (vouchers V) of
        None \<Rightarrow> Inl Invalid_Promo_Code
      | Some v \<Rightarrow> (case add_voucher_to_checkout pr ls V v ck of Inr ck \<Rightarrow> Inr ck
          | Inl (Not_Applicable reason) \<Rightarrow> Inl Voucher_Not_Applicable
          | Inl er \<Rightarrow> Inl (Promo_Crash er)))"

definition remove_voucher_code_from_checkout :: "string \<Rightarrow> priced_checkout \<Rightarrow> bool \<times> priced_checkout" where
  "remove_voucher_code_from_checkout voucher_code ck = (case pc_voucher ck of None \<Rightarrow> (False, ck)
     | Some v \<Rightarrow> if vo_code v = voucher_code then (True, (remove_voucher_from_checkout ck)\<lparr>pc_voucher := None\<rparr>) else (False, ck))"

definition invalidate_checkout_prices ::
  "pricing \<Rightarrow> (nat \<Rightarrow> pk) \<Rightarrow> time \<Rightarrow> bool \<Rightarrow> voucher_tables \<Rightarrow> priced_checkout \<Rightarrow> priced_line list \<Rightarrow> line_discount list
   \<Rightarrow> price_error + priced_checkout \<times> priced_line list \<times> line_discount list" where
  "invalidate_checkout_prices pr uuid t recalculate_discount V ck ls table =
     and_then (if recalculate_discount
       then and_then (create_or_update_discount_objects_from_promotion_for_checkout uuid ls table) (\<lambda>(ls, table).
         and_then (recalculate_checkout_discount pr ls V ck) (\<lambda>ck. Inr (ck, ls, table)))
       else Inr (ck, ls, table))
     (\<lambda>(ck, ls, table). Inr (ck\<lparr>pc_price_expiration := t\<rparr>, ls, table))"

section \<open>The voucher of a line, \<open>checkout/fetch.py\<close>\<close>

definition same_line_info :: "priced_line \<Rightarrow> priced_line \<Rightarrow> bool" where
  \<comment> \<open>Equality of two \<open>CheckoutLineInfo\<close>: field by field, two lines being equal when variant and quantity are, and two rows
     when their keys are.\<close>
  "same_line_info x y \<longleftrightarrow> pl_variant x = pl_variant y \<and> pl_quantity x = pl_quantity y
     \<and> li_pk (pl_listing x) = li_pk (pl_listing y) \<and> pl_product x = pl_product y \<and> pl_collections x = pl_collections y
     \<and> map ld_pk (pl_discounts x) = map ld_pk (pl_discounts y) \<and> map vi_pk (pl_rules_info x) = map vi_pk (pl_rules_info y)
     \<and> map_option tc_pk (pl_tax_class x) = map_option tc_pk (pl_tax_class y)
     \<and> map_option vo_pk (pl_voucher x) = map_option vo_pk (pl_voucher y)"

fun first_min :: "('a \<Rightarrow> decimal) \<Rightarrow> 'a \<Rightarrow> 'a list \<Rightarrow> 'a" where
  "first_min key m [] = m"
| "first_min key m (x # xs) = first_min key (if key x < key m then x else m) xs"

definition get_the_cheapest_line :: "priced_line list \<Rightarrow> price_error + priced_line" where
  "get_the_cheapest_line ls = (case ls of [] \<Rightarrow> Inl Price_Value_Error
     | l # ls' \<Rightarrow> if list_ex (\<lambda>l. li_discounted_price_amount (pl_listing l) = None) ls then Inl Price_Type_Error
         else Inr (first_min (\<lambda>l. the (li_discounted_price_amount (pl_listing l))) l ls'))"

fun attach_voucher :: "voucher \<Rightarrow> pk list \<Rightarrow> priced_line list \<Rightarrow> priced_line list \<Rightarrow> priced_line list" where
  \<comment> \<open>The last loop of \<open>apply_voucher_to_checkout_line\<close>: the lines already passed, with their voucher, and the rest.
     \<open>ids\<close> are the lines of \<open>discounted_lines_by_voucher\<close>, which are the objects of the list itself.\<close>
  "attach_voucher v ids done [] = done"
| "attach_voucher v ids done (l # ls) =
     (let member = pl_id l \<in> set ids \<or> list_ex (\<lambda>x. pl_id x \<in> set ids \<and> same_line_info x l) (done @ l # ls)
      in attach_voucher v ids (done @ [if member then l\<lparr>pl_voucher := Some v\<rparr> else l]) ls)"

definition apply_voucher_to_checkout_line :: "voucher \<Rightarrow> priced_line list \<Rightarrow> price_error + priced_line list" where
  "apply_voucher_to_checkout_line v ls =
     (let by_voucher = (if vo_type v = SPECIFIC_PRODUCT then get_discounted_lines ls v else []);
          included = (if vo_type v = SPECIFIC_PRODUCT then by_voucher else ls)
      in and_then (if vo_apply_once_per_order v then and_then (get_the_cheapest_line included) (\<lambda>l. Inr [l]) else Inr by_voucher)
           (\<lambda>by_voucher. Inr (attach_voucher v (map pl_id by_voucher) [] ls)))"

definition attach_checkout_voucher :: "time \<Rightarrow> voucher_tables \<Rightarrow> priced_checkout \<Rightarrow> priced_line list \<Rightarrow> price_error + priced_line list" where
  \<comment> \<open>The end of \<open>fetch_checkout_lines\<close>, without a voucher given.\<close>
  "attach_checkout_voucher t V ck ls =
     (if pc_voucher_code ck \<notin> {None, Some []} \<and> ls \<noteq> []
      then (case get_voucher_for_checkout t V ck of None \<Rightarrow> Inr ls
        | Some v \<Rightarrow> if vo_type v = SPECIFIC_PRODUCT \<or> vo_apply_once_per_order v
            then apply_voucher_to_checkout_line v ls else Inr ls)
      else Inr ls)"

section \<open>Bounds of the base prices\<close>

abbreviation ulp :: decimal where
  \<comment> \<open>The relative error of the context.\<close>
  "ulp \<equiv> 5 * 10 powi (- 28)"

definition voucher_values_ok :: "voucher \<Rightarrow> bool" where
  "voucher_values_ok v \<longleftrightarrow> list_all (\<lambda>l. 0 \<le> vl_discount_value l) (vo_listings v)"

lemma discounted_price_le:
  assumes "pricing_ok pr" and "voucher_values_ok v" and "voucher_get_discount pr v ch = Inr f" and "0 \<le> price"
  shows "f price \<le> price"
proof -
  from assms(3) obtain l where l: "voucher_listing_of v ch = Some l"
    by (auto simp: voucher_get_discount_def split: option.splits)
  then have "0 \<le> vl_discount_value l"
    using assms(2) find_SomeD [of _ "vo_listings v" l] by (auto simp: voucher_listing_of_def voucher_values_ok_def list_all_iff)
  with assms l show ?thesis by (auto simp: voucher_get_discount_def pricing_ok_def split: discount_value_type.splits)
qed

lemma discount_amount_bounds:
  assumes "pricing_ok pr" and "voucher_values_ok v" and "get_discount_amount_for pr v price ch = Inr d" and "0 \<le> price"
  shows "0 \<le> d" and "d \<le> (1 + ulp) * price"
proof -
  from assms(3) obtain f where f: "voucher_get_discount pr v ch = Inr f"
    and d: "d = (if f price < 0 then price else ctx (price - f price))"
    by (auto simp: get_discount_amount_for_def Let_def split: sum.splits)
  note le = discounted_price_le [OF assms(1,2) f assms(4)]
  show "0 \<le> d" using le assms(4) by (simp add: d ctx_nonneg)
  show "d \<le> (1 + ulp) * price"
  proof (cases "f price < 0")
    case True
    then show ?thesis using assms(4) by (simp add: d)
  next
    case False
    then show ?thesis using le decimal.r_upper [of "price - f price" price] by (simp add: d)
  qed
qed

lemma divided_bounds:
  assumes "divided a b = Inr q" and "0 \<le> a" and "0 \<le> b"
  shows "0 < b" "0 \<le> q" "q * b \<le> (1 + ulp) * a"
proof -
  from assms have b: "0 < b" and q: "q = ctx (a / b)" by (auto simp: divided_def dec_div_def split: if_splits)
  have "0 \<le> a / b" using assms(2) b by simp
  with decimal.r_upper [OF this order.refl] show "0 < b" "0 \<le> q" "q * b \<le> (1 + ulp) * a"
    using b by (auto simp: q ctx_nonneg field_simps)
qed

lemma line_voucher_price_bounds:
  assumes "pricing_ok pr" and "voucher_values_ok v" and "line_voucher_price pr ch v quantity total_price = Inr r"
    and "0 \<le> total_price" and "1 \<le> quantity"
  shows "0 \<le> r \<and> r \<le> (1 + ulp) ^ 3 * total_price"
proof -
  have up: "total_price \<le> (1 + ulp) ^ 3 * total_price" "(1 + ulp) * total_price \<le> (1 + ulp) ^ 3 * total_price"
    using assms(4) by (auto simp: field_simps)
  have less: "max (ctx x) 0 \<le> (1 + ulp) * b" if "x \<le> b" "0 \<le> b" for x b
    using decimal.r_upper_any [OF that] that by simp
  note amount = discount_amount_bounds [OF assms(1,2)]
  show ?thesis
  proof (cases "vo_apply_once_per_order v")
    case False
    show ?thesis
    proof (cases "vo_discount_value_type v")
      case PERCENTAGE
      with False assms(3) obtain d where "get_discount_amount_for pr v total_price ch = Inr d" "r = max (total_price - d) 0"
        by (auto simp: line_voucher_price_def)
      with amount [of total_price ch d] assms(4) up show ?thesis by auto
    next
      case FIXED
      with False assms(3) obtain u d where u: "divided total_price (of_int quantity) = Inr u"
        and d: "get_discount_amount_for pr v u ch = Inr d" and r: "r = max (ctx (total_price - ctx (d * of_int quantity))) 0"
        by (auto simp: line_voucher_price_def)
      have "0 \<le> ctx (d * of_int quantity)"
        using amount [OF d] divided_bounds [OF u assms(4)] assms(5) by (intro ctx_nonneg) simp
      with less [of "total_price - ctx (d * of_int quantity)" total_price] assms(4) up show ?thesis by (simp add: r)
    qed
  next
    case True
    with assms(3) obtain u d where u: "divided total_price (of_int quantity) = Inr u"
      and d: "get_discount_amount_for pr v u ch = Inr d"
      and r: "r = ctx (ctx (u * of_int (quantity - 1)) + max (ctx (u - d)) 0)"
      by (auto simp: line_voucher_price_def Let_def)
    note u' = divided_bounds [OF u assms(4)]
    have pos: "0 \<le> u" "0 \<le> d" using u' amount [OF d] assms(5) by auto
    have prod: "0 \<le> u * of_int (quantity - 1)" using pos assms(5) by simp
    note parts = decimal.r_upper [OF prod order.refl] less [of "u - d" u] ctx_nonneg [OF prod]
    have "ctx (u * of_int (quantity - 1)) + max (ctx (u - d)) 0 \<le> (1 + ulp) * (u * of_int (quantity - 1)) + (1 + ulp) * u"
      using parts pos by (intro add_mono) auto
    also have "\<dots> = (1 + ulp) * (u * of_int quantity)"
    proof -
      have "a * (u * of_int (quantity - 1)) + a * u = a * (u * of_int quantity)" for a by (simp add: algebra_simps)
      then show ?thesis .
    qed
    also have "\<dots> \<le> (1 + ulp) * ((1 + ulp) * total_price)" using u' assms(5) by (intro mult_left_mono) auto
    finally have le: "ctx (u * of_int (quantity - 1)) + max (ctx (u - d)) 0 \<le> (1 + ulp) * ((1 + ulp) * total_price)" .
    have nonneg: "0 \<le> ctx (u * of_int (quantity - 1)) + max (ctx (u - d)) 0" using parts by simp
    show ?thesis unfolding r using decimal.r_upper [OF nonneg le] ctx_nonneg [OF nonneg] by (simp add: power3_eq_cube mult.assoc)
  qed
qed

text \<open>
  What a line costs with its promotions, before its voucher.  It is negative where the line has a price of its own that
  is lower than what the promotions take off (\<open>overridden_price_below_promotion\<close> below).
\<close>

definition promoted_total :: "priced_line \<Rightarrow> decimal \<Rightarrow> decimal" where
  "promoted_total l price = price * of_int (pl_quantity l) - sum_list (map ld_amount_value (pl_discounts l))"

definition line_price_ok :: "pricing \<Rightarrow> sales_channel \<Rightarrow> priced_line \<Rightarrow> decimal \<Rightarrow> bool" where
  \<comment> \<open>The quantity is positive, and the total before the voucher is in units of the currency and of at most 26 digits.\<close>
  "line_price_ok pr ch l price \<longleftrightarrow> 1 \<le> pl_quantity l \<and> channel_quantize pr ch (promoted_total l price) = promoted_total l price
     \<and> promoted_total l price * 10 ^ pr_precision pr (sc_currency_code ch) \<le> 10 ^ 26"

lemma fold_minus: "fold (\<lambda>d total. total - ld_amount_value d) ds t = t - sum_list (map ld_amount_value ds)"
  by (induction ds arbitrary: t) (auto simp: algebra_simps)

lemma base_total_of_promoted:
  assumes "get_base_price l = Inr price" and "calculate_base_line_total_price pr ch l = Inr base_total"
  obtains r where "(case pl_voucher l of None \<Rightarrow> Inr (promoted_total l price)
      | Some v \<Rightarrow> line_voucher_price pr ch v (pl_quantity l) (promoted_total l price)) = Inr r"
    and "base_total = channel_quantize pr ch r"
proof -
  have "calculate_base_line_total_price pr ch l = and_then (case pl_voucher l of None \<Rightarrow> Inr (promoted_total l price)
      | Some v \<Rightarrow> line_voucher_price pr ch v (pl_quantity l) (promoted_total l price)) (\<lambda>x. Inr (channel_quantize pr ch x))"
    using assms(1) unfolding promoted_total_def calculate_base_line_total_price_def Let_def fold_minus by simp
  with assms(2) that show thesis by auto
qed

lemma base_total_nonneg:
  assumes "pricing_ok pr" and "\<And>v. pl_voucher l = Some v \<Longrightarrow> voucher_values_ok v"
    and "get_base_price l = Inr price" and "1 \<le> pl_quantity l" and "0 \<le> promoted_total l price"
    and "calculate_base_line_total_price pr ch l = Inr base_total"
  shows "0 \<le> base_total"
proof -
  from base_total_of_promoted [OF assms(3,6)] obtain r where
    r: "(case pl_voucher l of None \<Rightarrow> Inr (promoted_total l price)
      | Some v \<Rightarrow> line_voucher_price pr ch v (pl_quantity l) (promoted_total l price)) = Inr r"
    and base: "base_total = channel_quantize pr ch r" .
  have "0 \<le> r"
    using r line_voucher_price_bounds [OF assms(1,2) _ assms(5,4)] assms(5) by (cases "pl_voucher l") auto
  then show ?thesis by (simp add: base quantize_price_def price.q_nonneg)
qed

text \<open>
  C33: The base price of a checkout line whose promotions take off at most its price is at least zero and at most that
  price less the promotions, whatever its voucher takes off and however unit prices are rounded on the way.
  Where the promotions take off more, a line without a voucher costs the (negative) difference, and a voucher that does
  not apply once per order still leaves at least zero.
\<close>
theorem base_line_total_bounds:
  assumes "pricing_ok pr" and "\<And>v. pl_voucher l = Some v \<Longrightarrow> voucher_values_ok v"
    and "get_base_price l = Inr price" and "line_price_ok pr ch l price"
    and "calculate_base_line_total_price pr ch l = Inr base_total"
  shows "(sum_list (map ld_amount_value (pl_discounts l)) \<le> price * of_int (pl_quantity l) \<longrightarrow>
        0 \<le> base_total \<and> base_total \<le> price * of_int (pl_quantity l) - sum_list (map ld_amount_value (pl_discounts l)))
    \<and> (pl_voucher l = None \<longrightarrow> base_total = price * of_int (pl_quantity l) - sum_list (map ld_amount_value (pl_discounts l)))
    \<and> (\<forall>v. pl_voucher l = Some v \<and> \<not> vo_apply_once_per_order v \<longrightarrow> 0 \<le> base_total)"
proof -
  let ?p = "pr_precision pr (sc_currency_code ch)" and ?t = "promoted_total l price"
  have ok: "1 \<le> pl_quantity l" "quantize ?p ?t = ?t" "?t * 10 ^ ?p \<le> 10 ^ 26"
    using assms(4) by (auto simp: line_price_ok_def quantize_price_def)
  from base_total_of_promoted [OF assms(3,5)] obtain r where
    r: "(case pl_voucher l of None \<Rightarrow> Inr ?t | Some v \<Rightarrow> line_voucher_price pr ch v (pl_quantity l) ?t) = Inr r"
    and base: "base_total = quantize ?p r" unfolding quantize_price_def .
  have covered: "0 \<le> base_total \<and> base_total \<le> ?t" if t: "0 \<le> ?t"
  proof -
    have "?t \<le> (1 + ulp) ^ 3 * ?t" using t by (auto simp: field_simps)
    then have "r \<le> (1 + ulp) ^ 3 * ?t"
      using r line_voucher_price_bounds [OF assms(1,2) _ t ok(1)] by (cases "pl_voucher l") auto
    also have "\<dots> < ?t + 1 / 2 / 10 ^ ?p"
    proof -
      have "(1 + ulp) ^ 3 * ?t \<le> ?t + 2 * 10 powi (- 27) * ?t" using t by (simp add: field_simps power3_eq_cube)
      moreover have "2 * 10 powi (- 27) * ?t < 1 / 2 / 10 ^ ?p" using ok(3) by (simp add: field_simps)
      ultimately show ?thesis by linarith
    qed
    finally show ?thesis
      using base_total_nonneg [OF assms(1-3) ok(1) t assms(5)] quantize_not_above [OF ok(2)] unfolding base by force
  qed
  have "pl_voucher l = None \<longrightarrow> base_total = ?t" using r ok(2) by (auto simp: base)
  moreover have "0 \<le> base_total" if "pl_voucher l = Some v" "\<not> vo_apply_once_per_order v" for v
  proof -
    have "0 \<le> r" using r that by (auto simp: line_voucher_price_def split: discount_value_type.splits)
    then show ?thesis by (simp add: base price.q_nonneg)
  qed
  moreover have "0 \<le> ?t \<longleftrightarrow> sum_list (map ld_amount_value (pl_discounts l)) \<le> price * of_int (pl_quantity l)"
    by (auto simp: promoted_total_def)
  ultimately show ?thesis using covered unfolding promoted_total_def by blast
qed


section \<open>Examples\<close>

definition ex_voucher :: "voucher_type \<Rightarrow> discount_value_type \<Rightarrow> bool \<Rightarrow> decimal \<Rightarrow> voucher" where
  "ex_voucher t vt once value = \<lparr>vo_pk = 1, vo_type = t, vo_name = Some ''ten off'', vo_code = ''TEN'', vo_usage_limit = None, vo_used = 0,
     vo_start_date = 0, vo_end_date = None, vo_apply_once_per_order = once, vo_apply_once_per_customer = False,
     vo_only_for_staff = False, vo_discount_value_type = vt, vo_countries = [], vo_min_checkout_items_quantity = None,
     vo_products = [], vo_variants = [], vo_collections = [], vo_categories = [],
     vo_listings = [\<lparr>vl_channel = 1, vl_channel_slug = ''main'', vl_channel_is_active = True, vl_discount_value = value,
       vl_min_spent_amount = None\<rparr>], vo_translations = []\<rparr>"

definition ex_priced_checkout :: "voucher option \<Rightarrow> decimal \<Rightarrow> priced_checkout" where
  "ex_priced_checkout v discount = \<lparr>pc_channel = ex_channel, pc_voucher = v, pc_voucher_code = map_option vo_code v,
     pc_discount_amount = discount, pc_discount_name = None, pc_translated_discount_name = None, pc_language_code = ''en'',
     pc_delivery = No_Delivery, pc_lines_require_shipping = True, pc_customer_email = ''a@b'', pc_customer_is_staff = None,
     pc_country = None, pc_shipping_price = (0, 0), pc_shipping_tax_rate = 0, pc_subtotal = (0, 0), pc_total = (0, 0),
     pc_price_expiration = 0, pc_tax_exemption = False\<rparr>"

definition ex_two :: priced_line where
  \<comment> \<open>Two pieces for 18 with their promotion, and a voucher of 1 for one of them.\<close>
  "ex_two = (ex_priced_line 1 2 [ex_line_discount 5 (Some 1)] [])\<lparr>pl_voucher := Some (ex_voucher ENTIRE_ORDER FIXED True 1)\<rparr>"

lemma ex_pricing_ok: "pricing_ok ex_pricing"
proof -
  have "0 \<le> \<lfloor>b * d + 1 / 2\<rfloor>" if "0 \<le> b" "0 \<le> d" for b d :: decimal
    using mult_nonneg_nonneg [OF that] by simp
  then show ?thesis by (simp add: pricing_ok_def ex_pricing_def)
qed

lemma ex_amount [simp]:
  "get_discount_amount_for ex_pricing (ex_voucher t FIXED once value) price ex_channel = Inr (ctx (price - max (price - value) 0))"
  by (simp add: get_discount_amount_for_def voucher_get_discount_def voucher_listing_of_def ex_voucher_def ex_channel_def ex_pricing_def)

lemma ex_voucher_simps [simp]:
  "vo_apply_once_per_order (ex_voucher t vt once value) = once" "vo_discount_value_type (ex_voucher t vt once value) = vt"
  "vo_type (ex_voucher t vt once value) = t"
  by (simp_all add: ex_voucher_def)

lemma ex_quantize [simp]: "channel_quantize ex_pricing ex_channel x = quantize 2 x"
  by (simp add: quantize_price_def ex_pricing_def two_digits_def)

lemma quantize_int [simp]: "quantize p 0 = 0" "quantize p 1 = 1" "quantize p (numeral n) = numeral n"
proof -
  have "quantize p (of_int n) = of_int n" for n unfolding quantize_fixed by (metis nonzero_mult_div_cancel_right of_int_mult of_int_power
    of_int_numeral power_not_zero zero_neq_numeral)
  from this [of 0] this [of 1] this [of "numeral n"] show "quantize p 0 = 0" "quantize p 1 = 1" "quantize p (numeral n) = numeral n" by simp_all
qed

lemma ex_line_voucher: "line_voucher_price ex_pricing ex_channel (ex_voucher ENTIRE_ORDER FIXED True 1) 2 18 = Inr 17"
  by (simp add: line_voucher_price_def divided_def dec_div_def)

lemma base_line_total_bounds_witness:
  "0 \<le> projr (calculate_base_line_total_price ex_pricing ex_channel ex_two)
   \<and> projr (calculate_base_line_total_price ex_pricing ex_channel ex_two) \<le> 18
   \<and> projr (calculate_base_line_total_price ex_pricing ex_channel ex_two) = 17"
proof -
  have eval: "calculate_base_line_total_price ex_pricing ex_channel ex_two = Inr 17"
    by (simp add: calculate_base_line_total_price_def ex_two_def ex_priced_line_def get_base_price_def ex_listing_def
      ex_line_discount_def ex_line_voucher)
  have price: "get_base_price ex_two = Inr 10" by code_simp
  have ok: "line_price_ok ex_pricing ex_channel ex_two 10" by code_simp
  have listed: "voucher_values_ok v" if "pl_voucher ex_two = Some v" for v
    using that by (auto simp: ex_two_def ex_voucher_def voucher_values_ok_def)
  have before: "10 * of_int (pl_quantity ex_two) - sum_list (map ld_amount_value (pl_discounts ex_two)) = (18 :: decimal)"
    by code_simp
  show ?thesis using base_line_total_bounds [OF ex_pricing_ok listed price ok eval] eval by (simp add: before)
qed

section \<open>A voucher for the cheapest line\<close>

definition first_least :: "('a \<Rightarrow> decimal) \<Rightarrow> 'a \<Rightarrow> 'a list \<Rightarrow> bool" where
  "first_least key c xs \<longleftrightarrow> (\<exists>us vs. xs = us @ c # vs \<and> (\<forall>x \<in> set us. key c < key x) \<and> (\<forall>x \<in> set xs. key c \<le> key x))"

lemma first_least_Cons: "first_least key c xs \<Longrightarrow> key c < key m \<Longrightarrow> first_least key c (m # xs)"
  unfolding first_least_def by (metis append_Cons less_imp_le set_ConsD)

lemma first_least_drop: "first_least key c (m # xs) \<Longrightarrow> key m \<le> key x \<Longrightarrow> first_least key c (m # x # xs)"
proof -
  assume "first_least key c (m # xs)" and le: "key m \<le> key x"
  then obtain us vs where split: "m # xs = us @ c # vs" "\<forall>x \<in> set us. key c < key x" "\<forall>x \<in> set (m # xs). key c \<le> key x"
    unfolding first_least_def by blast
  have x: "key c \<le> key x" using split(3) le by force
  show "first_least key c (m # x # xs)"
  proof (cases us)
    case Nil
    with split(1) have "m # x # xs = [] @ c # x # vs" by simp
    with split(3) x show ?thesis unfolding first_least_def by (metis empty_iff empty_set set_ConsD list.set_intros)
  next
    case (Cons u us')
    with split have "m # x # xs = (m # x # us') @ c # vs" "key c < key m" "\<forall>x \<in> set us'. key c < key x" by auto
    moreover have "key c < key x" using \<open>key c < key m\<close> le by simp
    ultimately show ?thesis using split(3) x unfolding first_least_def
      by (intro exI [of _ "m # x # us'"] exI [of _ vs]) simp
  qed
qed

lemma first_min_least: "first_least key (first_min key m xs) (m # xs)"
proof (induction xs arbitrary: m)
  case Nil
  show ?case unfolding first_least_def by (intro exI [of _ "[]"]) simp
next
  case (Cons x xs)
  show ?case
  proof (cases "key x < key m")
    case True
    have "key (first_min key x xs) \<le> key x" using Cons [of x] by (auto simp: first_least_def)
    with True first_least_Cons [OF Cons [of x]] show ?thesis by simp
  next
    case False
    with first_least_drop [OF Cons [of m]] show ?thesis by simp
  qed
qed

lemma attach_skip:
  assumes "\<And>x y. x \<in> set us \<Longrightarrow> y \<in> set (done @ us @ ls) \<Longrightarrow> pl_id y \<in> set ids \<Longrightarrow> pl_id x \<noteq> pl_id y \<and> \<not> same_line_info y x"
    and "\<And>x. x \<in> set us \<Longrightarrow> pl_id x \<notin> set ids"
  shows "attach_voucher v ids done (us @ ls) = attach_voucher v ids (done @ us) ls"
  using assms
proof (induction us arbitrary: "done")
  case (Cons u us)
  have "\<not> (pl_id u \<in> set ids \<or> list_ex (\<lambda>x. pl_id x \<in> set ids \<and> same_line_info x u) (done @ u # us @ ls))"
    using Cons.prems(1) [of u] Cons.prems(2) [of u] by (fastforce simp: list_ex_iff)
  with Cons.IH [of "done @ [u]"] Cons.prems show ?case by (simp add: Let_def)
qed simp

lemma filter_split: "filter P xs = us @ c # vs \<Longrightarrow> \<exists>us' vs'. xs = us' @ c # vs' \<and> filter P us' = us \<and> P c"
proof (induction xs arbitrary: us)
  case (Cons x xs)
  show ?case
  proof (cases "P x \<and> us = []")
    case True
    with Cons.prems show ?thesis by (intro exI [of _ "[]"] exI [of _ xs]) auto
  next
    case False
    with Cons.prems have "filter P xs = (if P x then tl us else us) @ c # vs" "P x \<longrightarrow> us = x # tl us" by (cases us; auto)+
    with Cons.IH [OF this(1)] obtain us' vs' where "xs = us' @ c # vs'" "filter P us' = (if P x then tl us else us)" "P c" by blast
    with \<open>P x \<longrightarrow> us = x # tl us\<close> show ?thesis by (intro exI [of _ "x # us'"] exI [of _ vs']) auto
  qed
qed simp

definition rows_consistent :: "priced_line list \<Rightarrow> bool" where
  \<comment> \<open>Lines have keys, equal keys of listings and products are the same rows, and no line has its voucher yet.\<close>
  "rows_consistent ls \<longleftrightarrow> distinct (map pl_id ls) \<and> (\<forall>x \<in> set ls. pl_voucher x = None)
     \<and> (\<forall>x \<in> set ls. \<forall>y \<in> set ls. (li_pk (pl_listing x) = li_pk (pl_listing y) \<longrightarrow> pl_listing x = pl_listing y)
         \<and> (pl_product x = pl_product y \<longrightarrow> pl_category x = pl_category y))"

lemma attach_one:
  assumes "rows_consistent ls" and "ls = us @ c # vs" and "\<And>x. x \<in> set us \<Longrightarrow> \<not> same_line_info c x"
  shows "attach_voucher v [pl_id c] [] ls = us @ c\<lparr>pl_voucher := Some v\<rparr> # vs"
proof -
  have "distinct (map pl_id (us @ c # vs))" and all: "\<forall>x \<in> set (us @ c # vs). pl_voucher x = None"
    using assms(1) unfolding assms(2) rows_consistent_def by blast+
  then have "pl_id c \<notin> pl_id ` (set us \<union> set vs)" by auto
  then have ids: "pl_id x \<noteq> pl_id c" if "x \<in> set us \<union> set vs" for x using that by (metis imageI)
  have none: "pl_voucher x = None" if "x \<in> set vs" for x using all that by simp
  have "attach_voucher v [pl_id c] [] (us @ c # vs) = attach_voucher v [pl_id c] us (c # vs)"
    by (subst attach_skip) (use ids assms(3) in auto)
  also have "\<dots> = attach_voucher v [pl_id c] (us @ [c\<lparr>pl_voucher := Some v\<rparr>]) (vs @ [])" by simp
  also have "\<dots> = attach_voucher v [pl_id c] ((us @ [c\<lparr>pl_voucher := Some v\<rparr>]) @ vs) []"
    by (rule attach_skip) (use ids none in \<open>auto simp: same_line_info_def\<close>)
  finally show ?thesis by (simp add: assms(2))
qed

lemma same_line_included:
  assumes "rows_consistent ls" and "x \<in> set ls" and "y \<in> set ls" and "same_line_info x y"
  shows "voucher_covers v x = voucher_covers v y" and "pl_listing x = pl_listing y"
proof -
  have same: "li_pk (pl_listing x) = li_pk (pl_listing y)" "pl_product x = pl_product y" "pl_variant x = pl_variant y"
    "pl_collections x = pl_collections y" using assms(4) by (simp_all add: same_line_info_def)
  have "pl_category x = pl_category y" "pl_listing x = pl_listing y"
    using assms(1-3) same(1,2) unfolding rows_consistent_def by blast+
  with same show "voucher_covers v x = voucher_covers v y" "pl_listing x = pl_listing y" by (simp_all add: voucher_covers_def)
qed

text \<open>
  C34: A voucher that applies once per order is attached to exactly one line of the checkout, and this is a cheapest one
  of the lines the voucher covers, although lines are compared by their fields and not by their keys.
\<close>
theorem once_per_order_voucher_on_one_line:
  assumes "vo_apply_once_per_order v" and "rows_consistent ls" and "apply_voucher_to_checkout_line v ls = Inr ls'"
  defines "included \<equiv> if vo_type v = SPECIFIC_PRODUCT then get_discounted_lines ls v else ls"
  shows "\<exists>us c vs. ls = us @ c # vs \<and> ls' = us @ c\<lparr>pl_voucher := Some v\<rparr> # vs \<and> c \<in> set included
    \<and> (\<forall>x \<in> set included. the (li_discounted_price_amount (pl_listing c)) \<le> the (li_discounted_price_amount (pl_listing x)))"
proof -
  let ?key = "\<lambda>l. the (li_discounted_price_amount (pl_listing l))"
  define P where "P x \<longleftrightarrow> vo_type v = SPECIFIC_PRODUCT \<longrightarrow>
    (vo_products v \<noteq> [] \<or> vo_collections v \<noteq> [] \<or> vo_categories v \<noteq> [] \<or> vo_variants v \<noteq> []) \<longrightarrow> voucher_covers v x" for x
  have included: "included = filter P ls"
    by (auto simp: included_def get_discounted_lines_def P_def intro!: filter_cong filter_True [symmetric])
  from assms(1,3) obtain c where cheapest: "get_the_cheapest_line included = Inr c" and ls': "ls' = attach_voucher v [pl_id c] [] ls"
    by (auto simp: apply_voucher_to_checkout_line_def Let_def included_def cong: if_cong)
  from cheapest obtain m xs where m: "included = m # xs" and c: "c = first_min ?key m xs"
    by (auto simp: get_the_cheapest_line_def split: list.splits if_splits)
  from first_min_least [of ?key m xs] obtain us vs where split: "included = us @ c # vs"
    and before: "\<forall>x \<in> set us. ?key c < ?key x" and least: "\<forall>x \<in> set included. ?key c \<le> ?key x"
    unfolding m c first_least_def by blast
  from split included obtain us' vs' where ls: "ls = us' @ c # vs'" and us: "us = filter P us'" and Pc: "P c"
    using filter_split [of P ls us c vs] by metis
  have "\<not> same_line_info c x" if "x \<in> set us'" for x
  proof
    assume same: "same_line_info c x"
    have "P x" using Pc same_line_included(1) [OF assms(2) _ _ same] that by (auto simp: P_def ls)
    with that before us have "?key c < ?key x" by auto
    moreover have "pl_listing c = pl_listing x" using same_line_included(2) [OF assms(2) _ _ same] that by (auto simp: ls)
    ultimately show False by simp
  qed
  from attach_one [OF assms(2) ls this] ls ls' least split show ?thesis by (intro exI [of _ us'] exI [of _ c] exI [of _ vs']) auto
qed

definition ex_twins :: "priced_line list" where
  \<comment> \<open>Two lines with the same variant and quantity.\<close>
  "ex_twins = [ex_priced_line 1 1 [] [], ex_priced_line 2 1 [] []]"

lemma once_per_order_voucher_on_one_line_witness:
  "length (filter (\<lambda>l. pl_voucher l \<noteq> None)
     (projr (apply_voucher_to_checkout_line (ex_voucher ENTIRE_ORDER FIXED True 1) ex_twins))) = 1"
proof -
  let ?v = "ex_voucher ENTIRE_ORDER FIXED True 1"
  have ok: "rows_consistent ex_twins" by (simp add: rows_consistent_def ex_twins_def ex_priced_line_def)
  have "\<not> isl (apply_voucher_to_checkout_line ?v ex_twins)" by code_simp
  note fact = once_per_order_voucher_on_one_line [OF _ ok not_isl_Inr [OF this]]
  obtain us c vs where split: "ex_twins = us @ c # vs"
    and ls': "projr (apply_voucher_to_checkout_line ?v ex_twins) = us @ c\<lparr>pl_voucher := Some ?v\<rparr> # vs"
    using fact by auto
  have "\<forall>x \<in> set (us @ c # vs). pl_voucher x = None" using ok unfolding split rows_consistent_def by blast
  then have "filter (\<lambda>l. pl_voucher l \<noteq> None) us = []" "filter (\<lambda>l. pl_voucher l \<noteq> None) vs = []"
    by (auto simp: filter_empty_conv)
  then show ?thesis by (simp add: ls')
qed

text \<open>
  The cheapest of no lines: a voucher for specific products that applies once per order, and no line with such a product.
  The same for the discount of a checkout without lines.  Both raise \<open>ValueError\<close>, which nothing catches.
\<close>

lemma no_line_for_cheapest:
  "apply_voucher_to_checkout_line ((ex_voucher SPECIFIC_PRODUCT FIXED True 1)\<lparr>vo_products := [9]\<rparr>) ex_twins = Inl Price_Value_Error"
  by code_simp

lemma empty_checkout_once_per_order:
  "recalculate_checkout_discount ex_pricing [] \<lparr>vouchers = [], voucher_customers = []\<rparr>
     (ex_priced_checkout (Some (ex_voucher ENTIRE_ORDER FIXED True 1)) 1) = Inl Price_Value_Error"
  by code_simp

text \<open>Several lines that cost nothing, and a voucher for the entire order: the share of a line is a division by zero.\<close>

lemma free_lines_divide_by_zero:
  "apply_checkout_discount_on_checkout_line ex_pricing (ex_priced_checkout (Some (ex_voucher ENTIRE_ORDER FIXED False 1)) 0)
     (map (\<lambda>l. l\<lparr>pl_price_override := Some 0\<rparr>) ex_twins) ((ex_priced_line 1 1 [] [])\<lparr>pl_price_override := Some 0\<rparr>) 0
   = Inl Division_Error"
  by (simp add: apply_checkout_discount_on_checkout_line_def entire_order_discount_def ex_priced_checkout_def ex_twins_def
    checkout_line_discount_amount_def ex_priced_line_def calculate_base_line_total_price_def get_base_price_def
    discount_share_def divided_def dec_div_def)

text \<open>
  The promotion of a line is computed from the listing of the variant, also when the line has a price of its own: with a
  price below the promotion's discount, the base price of the line is negative.
\<close>

lemma overridden_price_below_promotion:
  "and_then (create_or_update_discount_objects_from_promotion_for_checkout ex_uuid
       [(ex_priced_line 1 2 [] [ex_rule_info 1 3])\<lparr>pl_price_override := Some 1\<rparr>] [])
     (\<lambda>(ls, table). calculate_base_line_total_price ex_pricing ex_channel (hd ls)) = Inr (- 4)"
  by code_simp

text \<open>A discount that has become zero is not written: the checkout keeps the one it had.\<close>

lemma zero_discount_keeps_the_old:
  "map_sum (\<lambda>_. ()) pc_discount_amount (recalculate_checkout_discount ex_pricing (map (\<lambda>l. l\<lparr>pl_price_override := Some 0\<rparr>) ex_twins)
     \<lparr>vouchers = [], voucher_customers = []\<rparr> (ex_priced_checkout (Some (ex_voucher ENTIRE_ORDER FIXED False 1)) 5)) = Inr 5"
  by code_simp

section \<open>The shares of a discount\<close>

lemma all_of_filter:
  "all_of f ls = Inr ts \<Longrightarrow> all_of f (filter P ls) = Inr (map snd (filter (\<lambda>(l, t). P l) (zip ls ts)))"
  by (induction ls arbitrary: ts) auto

lemma others_and_own:
  assumes "distinct (map k ps)" and "p \<in> set ps"
  shows "sum_list (map snd (filter (\<lambda>q. k q \<noteq> k p) ps)) + snd p = (sum_list (map snd ps) :: decimal)"
  using assms
proof (induction ps)
  case (Cons q ps)
  have "filter (\<lambda>r. k r \<noteq> k q) ps = ps" if "k q \<notin> k ` set ps" using that by (intro filter_True ballI) (metis imageI)
  with Cons show ?case by (auto simp: image_iff algebra_simps)
qed simp

lemma all_but_last: "distinct (map k ps) \<Longrightarrow> ps \<noteq> [] \<Longrightarrow> filter (\<lambda>q. k q \<noteq> k (last ps)) ps = butlast ps"
proof (induction ps rule: rev_induct)
  case (snoc p ps)
  then have "k p \<notin> k ` set ps" by simp
  then have "filter (\<lambda>q. k q \<noteq> k p) ps = ps" by (intro filter_True ballI) (metis imageI)
  then show ?case by simp
qed simp

definition share :: "decimal \<Rightarrow> decimal \<Rightarrow> decimal \<Rightarrow> decimal" where
  "share T td t = ctx (ctx (t / T) * td)"

lemma discount_share_eq: "T \<noteq> 0 \<Longrightarrow> discount_share T td t = Inr (share T td t)"
  by (simp add: discount_share_def divided_def dec_div_def share_def)

lemma all_of_shares: "T \<noteq> 0 \<Longrightarrow> all_of (discount_share T td) ts = Inr (map (share T td) ts)"
  by (induction ts) (auto simp: discount_share_eq)

definition line_shares :: "decimal list \<Rightarrow> decimal \<Rightarrow> decimal list" where
  \<comment> \<open>Every line but the last gets its share, and the last what is left.\<close>
  "line_shares ts td = (let T = sum_list ts; others = map (share T td) (butlast ts) in others @ [ctx (td - ctx_sum others)])"

lemma checkout_line_discounts:
  assumes totals: "all_of (calculate_base_line_total_price pr (pc_channel ck)) ls = Inr ts"
    and ids: "distinct (map pl_id ls)" and "ls \<noteq> []" and T: "sum_list ts \<noteq> 0"
  shows "all_of (\<lambda>(l, t). checkout_line_discount_amount pr ck ls l t) (zip ls ts) = Inr (line_shares ts (pc_discount_amount ck))"
proof -
  let ?ps = "zip ls ts" and ?td = "pc_discount_amount ck"
  have len: "length ts = length ls" using totals by (auto simp: all_of_Inr dest: list_all2_lengthD)
  have keys: "distinct (map (pl_id \<circ> fst) ?ps)" "map snd ?ps = ts" using ids len by (simp_all flip: map_map)
  have "ts \<noteq> []" using assms(3) len by auto
  then have ps: "?ps \<noteq> []" "fst (last ?ps) = last ls" using assms(3) len by (simp_all add: last_zip zip_eq_Nil_iff)
  have one: "checkout_line_discount_amount pr ck ls (fst p) (snd p) =
      Inr (if p = last ?ps then ctx (?td - ctx_sum (map (share (sum_list ts) ?td) (butlast ts))) else share (sum_list ts) ?td (snd p))"
    if p: "p \<in> set ?ps" for p
  proof -
    have same: "pl_id (last ls) = pl_id (fst p) \<longleftrightarrow> p = last ?ps"
      using keys(1) p ps by (metis comp_apply distinct_map inj_onD last_in_set)
    have filt: "filter (\<lambda>(l, t). pl_id l \<noteq> pl_id (fst p)) ?ps = filter (\<lambda>q. (pl_id \<circ> fst) q \<noteq> (pl_id \<circ> fst) p) ?ps"
      by (intro filter_cong) auto
    have sum: "sum_list (map snd (filter (\<lambda>(l, t). pl_id l \<noteq> pl_id (fst p)) ?ps)) + snd p = sum_list ts"
      unfolding filt others_and_own [OF keys(1) p] by (simp only: keys(2))
    have last: "map snd (filter (\<lambda>(l, t). pl_id l \<noteq> pl_id (fst p)) ?ps) = butlast ts" if "p = last ?ps"
    proof -
      have "filter (\<lambda>q. (pl_id \<circ> fst) q \<noteq> (pl_id \<circ> fst) p) ?ps = butlast ?ps"
        unfolding that by (rule all_but_last [OF keys(1) ps(1)])
      then show ?thesis unfolding filt by (simp only: map_butlast keys(2))
    qed
    show ?thesis using sum last assms(3) T same
      by (auto simp: checkout_line_discount_amount_def all_of_filter [OF totals] calculate_discount_for_last_element_def
        all_of_shares discount_share_eq)
  qed
  have "all_of f qs = Inr (map g qs)" if "\<And>q. q \<in> set qs \<Longrightarrow> f q = Inr (g q)" for f :: "priced_line \<times> decimal \<Rightarrow> price_error + decimal" and g qs
    using that by (induction qs) auto
  note all = this [of ?ps "\<lambda>p. checkout_line_discount_amount pr ck ls (fst p) (snd p)", OF one]
  have "map (\<lambda>p. if p = last ?ps then x else share (sum_list ts) ?td (snd p)) ?ps
      = map (share (sum_list ts) ?td) (butlast ts) @ [x]" for x
  proof -
    obtain qs q where split: "?ps = qs @ [q]" using ps(1) by (metis append_butlast_last_id)
    have "distinct ?ps" using keys(1) by (metis distinct_map)
    then have "q \<notin> set qs" unfolding split by simp
    then have "map (\<lambda>p. if p = q then x else share (sum_list ts) ?td (snd p)) qs = map (share (sum_list ts) ?td) (map snd qs)"
      by (auto simp: comp_def)
    moreover have "butlast (map snd ?ps) = map snd qs" unfolding split by simp
    then have "butlast ts = map snd qs" by (simp only: keys(2))
    ultimately show ?thesis unfolding split by simp
  qed
  with all show ?thesis by (simp add: line_shares_def Let_def case_prod_beta')
qed


lemma share_bounds:
  assumes "0 \<le> t" and "0 < T" and "0 \<le> td"
  shows "0 \<le> share T td t" and "share T td t \<le> (1 + ulp) ^ 2 * (t / T * td)"
proof -
  have rate: "0 \<le> t / T" "0 \<le> ctx (t / T)" using assms by (simp_all add: ctx_nonneg)
  then show "0 \<le> share T td t" using assms(3) by (simp add: share_def ctx_nonneg)
  have "ctx (t / T) * td \<le> (1 + ulp) * (t / T) * td" using decimal.r_upper [OF rate(1) order.refl] assms(3) by (intro mult_right_mono)
  from decimal.r_upper [OF _ this] rate assms(3) show "share T td t \<le> (1 + ulp) ^ 2 * (t / T * td)"
    by (simp add: share_def power2_eq_square mult.assoc)
qed

lemma line_shares_sum:
  assumes "list_all (\<lambda>t. 0 \<le> t) ts" and "0 < sum_list ts" and "0 \<le> td" and "length ts \<le> 10 ^ 6"
  shows "\<bar>sum_list (line_shares ts td) - td\<bar> \<le> of_nat (length ts) * 10 powi (- 26) * td"
proof -
  let ?T = "sum_list ts"
  define xs where "xs = map (share ?T td) (butlast ts)"
  define n where "n = (of_nat (length xs) :: rat)"
  have ne: "ts \<noteq> []" using assms(2) by auto
  have nonneg: "0 \<le> t" if "t \<in> set ts" for t using assms(1) that by (simp add: list_all_iff)
  have xs: "list_all (\<lambda>x. 0 \<le> x) xs" using share_bounds(1) [OF _ assms(2,3)] nonneg
    by (auto simp: xs_def list_all_iff dest: in_set_butlastD)
  have n: "0 \<le> n" "n \<le> 10 ^ 6" "of_nat (length ts) = n + 1"
    using assms(4) ne by (simp_all add: n_def xs_def of_nat_diff Suc_leI)
  have S: "0 \<le> sum_list xs" "sum_list xs \<le> 2 * td"
  proof -
    show "0 \<le> sum_list xs" using xs by (auto simp: list_all_iff intro: sum_list_nonneg)
    have "sum_list xs \<le> sum_list (map (\<lambda>t. (1 + ulp) ^ 2 * (t / ?T * td)) (butlast ts))"
      unfolding xs_def using share_bounds(2) [OF _ assms(2,3)] nonneg by (intro sum_list_mono) (auto dest: in_set_butlastD)
    also have "\<dots> = (1 + ulp) ^ 2 * (sum_list (butlast ts) / ?T * td)"
    proof -
      have "sum_list (map (\<lambda>t. c * (t / T * td)) us) = c * (sum_list us / T * td)" for us and c T :: decimal
        by (induction us) (simp_all add: algebra_simps add_divide_distrib)
      then show ?thesis .
    qed
    also have "\<dots> \<le> (1 + ulp) ^ 2 * (1 * td)"
    proof -
      have "sum_list ts = sum_list (butlast ts) + last ts" using ne by (metis append_butlast_last_id sum_list.append sum_list.Cons sum_list.Nil add_0_right)
      then have "sum_list (butlast ts) \<le> ?T" using nonneg [of "last ts"] ne by simp
      then have "sum_list (butlast ts) / ?T \<le> 1" using assms(2) by simp
      then show ?thesis using assms(3) by (intro mult_left_mono mult_right_mono) simp_all
    qed
    also have "\<dots> \<le> 2 * td" using assms(3) by (simp add: power2_eq_square field_simps)
    finally show "sum_list xs \<le> 2 * td" .
  qed
  have "n * (2 * ulp) \<le> 10 ^ 6 * (2 * ulp)" using n(2) by (intro mult_right_mono) simp_all
  then have small: "n * (2 * ulp) \<le> 1" by simp
  have C: "\<bar>ctx_sum xs - sum_list xs\<bar> \<le> n * (2 * ulp) * sum_list xs"
    using decimal.sum_error [OF xs] small by (simp add: n_def ctx_sum_def)
  have "n * (2 * ulp) * sum_list xs \<le> n * (2 * ulp) * (2 * td)" using S n(1) by (intro mult_left_mono) simp_all
  with C have C1: "\<bar>ctx_sum xs - sum_list xs\<bar> \<le> n * (4 * ulp) * td" by simp
  have "n * (4 * ulp) * td \<le> 2 * td"
  proof -
    have "(n * (2 * ulp)) * (2 * td) \<le> 1 * (2 * td)" using small assms(3) by (intro mult_right_mono) simp_all
    then show ?thesis by simp
  qed
  with C1 S have "\<bar>td - ctx_sum xs\<bar> \<le> 4 * td" using assms(3) by linarith
  then have "ulp * \<bar>td - ctx_sum xs\<bar> \<le> ulp * (4 * td)" by (intro mult_left_mono) simp_all
  with decimal.r_error [of "td - ctx_sum xs"] have "\<bar>ctx (td - ctx_sum xs) - (td - ctx_sum xs)\<bar> \<le> ulp * (4 * td)" by linarith
  with C1 have "\<bar>sum_list xs + ctx (td - ctx_sum xs) - td\<bar> \<le> n * (4 * ulp) * td + ulp * (4 * td)" by linarith
  also have "\<dots> = (n + 1) * (4 * ulp) * td" by (simp add: algebra_simps)
  also have "\<dots> \<le> (n + 1) * 10 powi (- 26) * td" using n(1) assms(3) by (intro mult_right_mono mult_left_mono) simp_all
  finally show ?thesis unfolding n(3) by (simp add: line_shares_def Let_def flip: xs_def)
qed

text \<open>
  C35: The voucher of an entire order is divided among the lines of a checkout in proportion to their prices, and the
  parts add up to the discount of the checkout but for the rounding of the decimal context: a part in \<open>10 ^ 26\<close>
  of it per line.
\<close>
theorem entire_order_discount_is_divided:
  assumes "all_of (calculate_base_line_total_price pr (pc_channel ck)) ls = Inr ts"
    and "distinct (map pl_id ls)" and "list_all (\<lambda>t. 0 \<le> t) ts" and "0 < sum_list ts"
    and "0 \<le> pc_discount_amount ck" and "length ls \<le> 10 ^ 6"
  shows "\<exists>ds. all_of (\<lambda>(l, t). checkout_line_discount_amount pr ck ls l t) (zip ls ts) = Inr ds
    \<and> \<bar>sum_list ds - pc_discount_amount ck\<bar> \<le> of_nat (length ls) * 10 powi (- 26) * pc_discount_amount ck"
proof -
  have len: "length ts = length ls" using assms(1) by (auto simp: all_of_Inr dest: list_all2_lengthD)
  with assms(4) have "ls \<noteq> []" by auto
  from checkout_line_discounts [OF assms(1,2) this] line_shares_sum [OF assms(3-5)] assms(4,6) len show ?thesis by auto
qed


definition ex_halves :: priced_checkout where
  "ex_halves = ex_priced_checkout (Some (ex_voucher ENTIRE_ORDER FIXED False 5)) 5"

lemma entire_order_discount_is_divided_witness:
  "\<bar>sum_list (projr (all_of (\<lambda>(l, t). checkout_line_discount_amount ex_pricing ex_halves ex_twins l t) (zip ex_twins [10, 10]))) - 5\<bar>
   \<le> 10 powi (- 25)"
proof -
  have pc: "pc_channel ex_halves = ex_channel" "pc_discount_amount ex_halves = 5" by (simp_all add: ex_halves_def ex_priced_checkout_def)
  have totals: "all_of (calculate_base_line_total_price ex_pricing (pc_channel ex_halves)) ex_twins = Inr [10, 10]"
    by (simp add: pc ex_twins_def ex_priced_line_def calculate_base_line_total_price_def get_base_price_def ex_listing_def)
  have ids: "distinct (map pl_id ex_twins)" "length ex_twins = 2" by (simp_all add: ex_twins_def ex_priced_line_def)
  from entire_order_discount_is_divided [OF totals ids(1)] obtain ds
    where "all_of (\<lambda>(l, t). checkout_line_discount_amount ex_pricing ex_halves ex_twins l t) (zip ex_twins [10, 10]) = Inr ds"
      "\<bar>sum_list ds - 5\<bar> \<le> 2 * 10 powi (- 26) * 5" by (auto simp: pc ids(2))
  then show ?thesis by simp
qed

end
