(* ===== verification/Checkout_Prices.thy ===== *)
theory Checkout_Prices
  imports Base_Prices
begin

text \<open>
  The prices of a checkout with taxes: \<open>saleor/tax/utils.py\<close>, \<open>saleor/tax/calculations/\<close> for checkouts,
  \<open>saleor/checkout/calculations.py\<close>, and the price functions of the plugin manager that it calls.  A \<open>TaxedMoney\<close> is the pair
  of its net and gross amount.  A plugin is a record of functions, \<open>None\<close> being \<open>NotImplemented\<close>; the answer of a
  tax app (a webhook) is a parameter.
\<close>

section \<open>Tax configuration\<close>

datatype tax_strategy = FLAT_RATES | TAX_APP

type_synonym taxed = "decimal \<times> decimal"

record country_tax_configuration =
  tcc_country :: string
  tcc_charge_taxes :: bool
  tcc_tax_calculation_strategy :: "tax_strategy option"
  tcc_display_gross_prices :: bool

record tax_configuration =
  tcf_charge_taxes :: bool
  tcf_tax_calculation_strategy :: "tax_strategy option"
  tcf_display_gross_prices :: bool
  tcf_prices_entered_with_tax :: bool
  tcf_country_exceptions :: "country_tax_configuration list"

definition get_active_country :: "sales_channel \<Rightarrow> string option \<Rightarrow> string option \<Rightarrow> string" where
  "get_active_country ch shipping_address billing_address = (case shipping_address of Some c \<Rightarrow> c
     | None \<Rightarrow> (case billing_address of Some c \<Rightarrow> c | None \<Rightarrow> sc_default_country ch))"

definition country_configuration :: "tax_configuration \<Rightarrow> string \<Rightarrow> country_tax_configuration option" where
  "country_configuration tc country_code = find (\<lambda>c. tcc_country c = country_code) (tcf_country_exceptions tc)"

definition get_display_gross_prices :: "tax_configuration \<Rightarrow> country_tax_configuration option \<Rightarrow> bool" where
  "get_display_gross_prices tc c = (case c of Some c \<Rightarrow> tcc_display_gross_prices c | None \<Rightarrow> tcf_display_gross_prices tc)"

definition get_charge_taxes :: "tax_configuration \<Rightarrow> country_tax_configuration option \<Rightarrow> bool" where
  "get_charge_taxes tc c = (case c of Some c \<Rightarrow> tcc_charge_taxes c | None \<Rightarrow> tcf_charge_taxes tc)"

definition get_tax_calculation_strategy :: "tax_configuration \<Rightarrow> country_tax_configuration option \<Rightarrow> tax_strategy" where
  "get_tax_calculation_strategy tc c =
     (case (case c of Some c \<Rightarrow> tcc_tax_calculation_strategy c | None \<Rightarrow> tcf_tax_calculation_strategy tc) of
        Some s \<Rightarrow> s | None \<Rightarrow> FLAT_RATES)"

definition get_tax_rate_for_tax_class :: "tax_class option \<Rightarrow> decimal \<Rightarrow> string \<Rightarrow> decimal" where
  "get_tax_rate_for_tax_class tc default_tax_rate country_code = (case tc of None \<Rightarrow> default_tax_rate
     | Some tc \<Rightarrow> fold (\<lambda>(country, rate) r. if country = country_code then rate else r) (tc_country_rates tc) default_tax_rate)"

definition default_tax_rate :: "(string \<times> decimal) list \<Rightarrow> string \<Rightarrow> decimal" where
  \<comment> \<open>The rates without a tax class.\<close>
  "default_tax_rate rates country_code = (case map_of rates country_code of Some r \<Rightarrow> r | None \<Rightarrow> 0)"

definition normalize_tax_rate_for_db :: "decimal \<Rightarrow> decimal" where
  "normalize_tax_rate_for_db tax_rate = ctx (tax_rate / 100)"

definition denormalize_tax_rate_from_db :: "decimal \<Rightarrow> decimal" where
  "denormalize_tax_rate_from_db tax_rate = ctx (tax_rate * 100)"

definition calculate_tax_rate :: "taxed \<Rightarrow> decimal" where
  \<comment> \<open>The tax of a price is gross less net.\<close>
  "calculate_tax_rate price = (case price of (net, gross) \<Rightarrow> if gross \<noteq> 0 \<and> net \<noteq> 0 then ctx ((gross - net) / net) else 0)"

section \<open>Flat rates\<close>

definition calculate_flat_rate_tax :: "decimal \<Rightarrow> decimal \<Rightarrow> bool \<Rightarrow> price_error + taxed" where
  "calculate_flat_rate_tax money tax_rate prices_entered_with_tax =
     (let tax_rate = ctx (1 + ctx (tax_rate / 100))
      in if prices_entered_with_tax then and_then (divided money tax_rate) (\<lambda>net. Inr (net, money))
         else Inr (money, ctx (money * tax_rate)))"

definition quantize_taxed :: "pricing \<Rightarrow> sales_channel \<Rightarrow> taxed \<Rightarrow> taxed" where
  "quantize_taxed pr ch price = map_prod (channel_quantize pr ch) (channel_quantize pr ch) price"

definition add_taxed :: "taxed \<Rightarrow> taxed \<Rightarrow> taxed" where
  "add_taxed a b = (fst a + fst b, snd a + snd b)"

definition sum_taxed :: "taxed list \<Rightarrow> taxed" where
  "sum_taxed xs = fold (\<lambda>x s. add_taxed s x) xs (0, 0)"

definition calculate_checkout_shipping ::
  "pricing \<Rightarrow> priced_checkout \<Rightarrow> priced_line list \<Rightarrow> decimal \<Rightarrow> bool \<Rightarrow> price_error + taxed" where
  "calculate_checkout_shipping pr ck ls tax_rate prices_entered_with_tax =
     and_then (calculate_flat_rate_tax (base_checkout_delivery_price pr ck (Some ls)) tax_rate prices_entered_with_tax)
       (\<lambda>p. Inr (quantize_taxed pr (pc_channel ck) p))"

definition calculate_checkout_line_total ::
  "pricing \<Rightarrow> priced_checkout \<Rightarrow> priced_line list \<Rightarrow> priced_line \<Rightarrow> decimal \<Rightarrow> bool \<Rightarrow> price_error + taxed" where
  "calculate_checkout_line_total pr ck ls l tax_rate prices_entered_with_tax =
     and_then (calculate_base_line_total_price pr (pc_channel ck) l) (\<lambda>base_total_price.
       and_then (apply_checkout_discount_on_checkout_line pr ck ls l base_total_price) (\<lambda>total_price.
         and_then (calculate_flat_rate_tax total_price tax_rate prices_entered_with_tax) (\<lambda>p.
           Inr (quantize_taxed pr (pc_channel ck) p))))"

abbreviation line_total :: "priced_line \<Rightarrow> taxed" where
  "line_total l \<equiv> (pl_total_net l, pl_total_gross l)"

definition set_line_total :: "taxed \<Rightarrow> decimal \<Rightarrow> priced_line \<Rightarrow> priced_line" where
  "set_line_total total_price tax_rate l =
     l\<lparr>pl_total_net := fst total_price, pl_total_gross := snd total_price, pl_tax_rate := tax_rate\<rparr>"

definition flat_rate_line ::
  "pricing \<Rightarrow> priced_checkout \<Rightarrow> priced_line list \<Rightarrow> decimal \<Rightarrow> string \<Rightarrow> bool \<Rightarrow> priced_line \<Rightarrow> price_error + priced_line" where
  \<comment> \<open>The body of the loop over the lines.\<close>
  "flat_rate_line pr ck ls default_rate country_code prices_entered_with_tax l =
     (let tax_rate = get_tax_rate_for_tax_class (pl_tax_class l) default_rate country_code
      in and_then (calculate_checkout_line_total pr ck ls l tax_rate prices_entered_with_tax) (\<lambda>p.
           Inr (set_line_total p (normalize_tax_rate_for_db tax_rate) l)))"

definition shipping_tax_class :: "delivery_method \<Rightarrow> tax_class option" where
  "shipping_tax_class d = (case d of Shipping_Method price tc \<Rightarrow> tc | _ \<Rightarrow> None)"

definition update_checkout_prices_with_flat_rates ::
  "pricing \<Rightarrow> (string \<times> decimal) list \<Rightarrow> priced_checkout \<Rightarrow> priced_line list \<Rightarrow> bool \<Rightarrow> string option
   \<Rightarrow> price_error + priced_checkout \<times> priced_line list" where
  "update_checkout_prices_with_flat_rates pr rates ck ls prices_entered_with_tax address =
     (let country_code = get_active_country (pc_channel ck) address None;
          default_rate = default_tax_rate rates country_code
      in and_then (all_of (flat_rate_line pr ck ls default_rate country_code prices_entered_with_tax) ls) (\<lambda>ls'.
           let shipping_tax_rate = get_tax_rate_for_tax_class (shipping_tax_class (pc_delivery ck)) default_rate country_code
           in and_then (calculate_checkout_shipping pr ck ls shipping_tax_rate prices_entered_with_tax) (\<lambda>shipping_price.
             let subtotal = sum_taxed (map line_total ls')
             in Inr (ck\<lparr>pc_shipping_price := shipping_price,
                  pc_shipping_tax_rate := normalize_tax_rate_for_db shipping_tax_rate,
                  pc_subtotal := subtotal, pc_total := add_taxed subtotal shipping_price\<rparr>, ls'))))"

section \<open>Plugins and tax apps\<close>

record price_plugin =
  pg_checkout_total :: "priced_checkout \<Rightarrow> priced_line list \<Rightarrow> taxed \<Rightarrow> taxed option"
  pg_checkout_shipping :: "priced_checkout \<Rightarrow> priced_line list \<Rightarrow> taxed \<Rightarrow> taxed option"
  pg_checkout_shipping_tax_rate :: "priced_checkout \<Rightarrow> priced_line list \<Rightarrow> decimal \<Rightarrow> decimal option"
  pg_checkout_line_total :: "priced_checkout \<Rightarrow> priced_line list \<Rightarrow> priced_line \<Rightarrow> taxed \<Rightarrow> taxed option"
  pg_checkout_line_tax_rate :: "priced_checkout \<Rightarrow> priced_line list \<Rightarrow> priced_line \<Rightarrow> decimal \<Rightarrow> decimal option"

definition run_method_on_plugins :: "('p \<Rightarrow> 'v \<Rightarrow> 'v option) \<Rightarrow> 'v \<Rightarrow> 'p list \<Rightarrow> 'v" where
  \<comment> \<open>\<open>__run_method_on_plugins\<close>, with \<open>__run_method_on_single_plugin\<close>: each gets the value of the one before.\<close>
  "run_method_on_plugins method default_value plugins =
     fold (\<lambda>p v. case method p v of Some v' \<Rightarrow> v' | None \<Rightarrow> v) plugins default_value"

definition manager_checkout_total ::
  "pricing \<Rightarrow> price_plugin list \<Rightarrow> priced_checkout \<Rightarrow> priced_line list \<Rightarrow> price_error + taxed" where
  "manager_checkout_total pr plugins ck ls = and_then (base_discounted_checkout_total pr ck ls) (\<lambda>default_value.
     if default_value \<le> 0 then Inr (quantize_taxed pr (pc_channel ck) (default_value, default_value))
     else Inr (quantize_taxed pr (pc_channel ck)
       (run_method_on_plugins (\<lambda>p. pg_checkout_total p ck ls) (default_value, default_value) plugins)))"

definition manager_checkout_line_total ::
  "pricing \<Rightarrow> price_plugin list \<Rightarrow> priced_checkout \<Rightarrow> priced_line list \<Rightarrow> priced_line \<Rightarrow> price_error + taxed" where
  "manager_checkout_line_total pr plugins ck ls l =
     and_then (calculate_base_line_total_price pr (pc_channel ck) l) (\<lambda>default_value.
       and_then (apply_checkout_discount_on_checkout_line pr ck ls l default_value) (\<lambda>default_value.
         let default_value = channel_quantize pr (pc_channel ck) default_value
         in Inr (quantize_taxed pr (pc_channel ck)
              (run_method_on_plugins (\<lambda>p. pg_checkout_line_total p ck ls l) (default_value, default_value) plugins))))"

definition manager_checkout_subtotal ::
  "pricing \<Rightarrow> price_plugin list \<Rightarrow> priced_checkout \<Rightarrow> priced_line list \<Rightarrow> price_error + taxed" where
  "manager_checkout_subtotal pr plugins ck ls = and_then (all_of (manager_checkout_line_total pr plugins ck ls) ls) (\<lambda>line_totals.
     Inr (quantize_taxed pr (pc_channel ck) (sum_taxed line_totals)))"

definition manager_checkout_shipping :: "pricing \<Rightarrow> price_plugin list \<Rightarrow> priced_checkout \<Rightarrow> priced_line list \<Rightarrow> taxed" where
  "manager_checkout_shipping pr plugins ck ls = (let price = base_checkout_delivery_price pr ck (Some ls)
     in quantize_taxed pr (pc_channel ck) (run_method_on_plugins (\<lambda>p. pg_checkout_shipping p ck ls) (price, price) plugins))"

definition manager_checkout_shipping_tax_rate ::
  "price_plugin list \<Rightarrow> priced_checkout \<Rightarrow> priced_line list \<Rightarrow> taxed \<Rightarrow> decimal" where
  "manager_checkout_shipping_tax_rate plugins ck ls shipping_price =
     quantize 4 (run_method_on_plugins (\<lambda>p. pg_checkout_shipping_tax_rate p ck ls) (calculate_tax_rate shipping_price) plugins)"

definition manager_checkout_line_tax_rate ::
  "price_plugin list \<Rightarrow> priced_checkout \<Rightarrow> priced_line list \<Rightarrow> priced_line \<Rightarrow> taxed \<Rightarrow> decimal" where
  "manager_checkout_line_tax_rate plugins ck ls l price =
     quantize 4 (run_method_on_plugins (\<lambda>p. pg_checkout_line_tax_rate p ck ls l) (calculate_tax_rate price) plugins)"

record tax_line_data =
  tx_tax_rate :: decimal
  tx_total_gross_amount :: decimal
  tx_total_net_amount :: decimal

record tax_data =
  td_shipping_price_gross_amount :: decimal
  td_shipping_price_net_amount :: decimal
  td_shipping_tax_rate :: decimal
  td_lines :: "tax_line_data list"

section \<open>\<open>checkout/calculations.py\<close>\<close>

fun plugin_lines ::
  "pricing \<Rightarrow> price_plugin list \<Rightarrow> priced_checkout \<Rightarrow> priced_line list \<Rightarrow> priced_line list \<Rightarrow> price_error + priced_line list" where
  \<comment> \<open>The loop of \<open>_apply_tax_data_from_plugins\<close>: the lines passed, and the rest.\<close>
  "plugin_lines pr plugins ck done [] = Inr done"
| "plugin_lines pr plugins ck done (l # ls) =
     and_then (manager_checkout_line_total pr plugins ck (done @ l # ls) l) (\<lambda>total_price.
       let l' = l\<lparr>pl_total_net := fst total_price, pl_total_gross := snd total_price\<rparr>;
           tax_rate = manager_checkout_line_tax_rate plugins ck (done @ l' # ls) l' total_price
       in plugin_lines pr plugins ck (done @ [l'\<lparr>pl_tax_rate := tax_rate\<rparr>]) ls)"

definition apply_tax_data_from_plugins ::
  "pricing \<Rightarrow> price_plugin list \<Rightarrow> priced_checkout \<Rightarrow> priced_line list \<Rightarrow> price_error + priced_checkout \<times> priced_line list" where
  "apply_tax_data_from_plugins pr plugins ck ls = and_then (plugin_lines pr plugins ck [] ls) (\<lambda>ls.
     let ck = ck\<lparr>pc_shipping_price := manager_checkout_shipping pr plugins ck ls\<rparr>;
         ck = ck\<lparr>pc_shipping_tax_rate := manager_checkout_shipping_tax_rate plugins ck ls (pc_shipping_price ck)\<rparr>
     in and_then (manager_checkout_subtotal pr plugins ck ls) (\<lambda>subtotal.
          let ck = ck\<lparr>pc_subtotal := subtotal\<rparr>
          in and_then (manager_checkout_total pr plugins ck ls) (\<lambda>total. Inr (ck\<lparr>pc_total := total\<rparr>, ls))))"

fun tax_data_lines :: "pricing \<Rightarrow> sales_channel \<Rightarrow> priced_line list \<Rightarrow> tax_line_data list \<Rightarrow> priced_line list" where
  \<comment> \<open>\<open>zip\<close> ends with the shorter list.\<close>
  "tax_data_lines pr ch (l # ls) (x # xs) = set_line_total
     (quantize_taxed pr ch (tx_total_net_amount x, tx_total_gross_amount x)) (normalize_tax_rate_for_db (tx_tax_rate x)) l
     # tax_data_lines pr ch ls xs"
| "tax_data_lines pr ch ls xs = ls"

definition calculate_checkout_subtotal :: "pricing \<Rightarrow> sales_channel \<Rightarrow> priced_line list \<Rightarrow> taxed" where
  "calculate_checkout_subtotal pr ch ls = quantize_taxed pr ch (sum_taxed (map line_total ls))"

definition apply_tax_data ::
  "pricing \<Rightarrow> tax_data option \<Rightarrow> priced_checkout \<Rightarrow> priced_line list \<Rightarrow> priced_checkout \<times> priced_line list" where
  "apply_tax_data pr d ck ls = (case d of None \<Rightarrow> (ck, ls)
     | Some d \<Rightarrow> (let ch = pc_channel ck; ls = tax_data_lines pr ch ls (td_lines d);
         shipping_price = quantize_taxed pr ch (td_shipping_price_net_amount d, td_shipping_price_gross_amount d);
         subtotal = calculate_checkout_subtotal pr ch ls
       in (ck\<lparr>pc_shipping_tax_rate := normalize_tax_rate_for_db (td_shipping_tax_rate d), pc_shipping_price := shipping_price,
            pc_subtotal := subtotal, pc_total := quantize_taxed pr ch (add_taxed subtotal shipping_price)\<rparr>, ls)))"

definition calculate_and_add_tax ::
  "pricing \<Rightarrow> price_plugin list \<Rightarrow> (priced_checkout \<Rightarrow> priced_line list \<Rightarrow> tax_data option) \<Rightarrow> (string \<times> decimal) list \<Rightarrow> tax_strategy
   \<Rightarrow> priced_checkout \<Rightarrow> priced_line list \<Rightarrow> bool \<Rightarrow> string option \<Rightarrow> price_error + priced_checkout \<times> priced_line list" where
  "calculate_and_add_tax pr plugins get_taxes_for_checkout rates strategy ck ls prices_entered_with_tax address = (case strategy of
     TAX_APP \<Rightarrow> and_then (apply_tax_data_from_plugins pr plugins ck ls) (\<lambda>(ck, ls).
       Inr (apply_tax_data pr (get_taxes_for_checkout ck ls) ck ls))
   | FLAT_RATES \<Rightarrow> update_checkout_prices_with_flat_rates pr rates ck ls prices_entered_with_tax address)"

definition untaxed :: "taxed \<Rightarrow> taxed" where
  "untaxed p = (fst p, fst p)"

definition remove_tax :: "priced_checkout \<Rightarrow> priced_line list \<Rightarrow> priced_checkout \<times> priced_line list" where
  "remove_tax ck ls =
     (ck\<lparr>pc_total := untaxed (pc_total ck), pc_subtotal := untaxed (pc_subtotal ck),
        pc_shipping_price := untaxed (pc_shipping_price ck), pc_shipping_tax_rate := 0\<rparr>,
      map (\<lambda>l. l\<lparr>pl_total_gross := pl_total_net l, pl_tax_rate := 0\<rparr>) ls)"

definition base_price_line :: "pricing \<Rightarrow> priced_checkout \<Rightarrow> priced_line list \<Rightarrow> priced_line \<Rightarrow> price_error + priced_line" where
  \<comment> \<open>The body of the loop of \<open>_get_checkout_base_prices\<close>.\<close>
  "base_price_line pr ck ls l = and_then (calculate_base_line_unit_price pr (pc_channel ck) l) (\<lambda>unit_price.
     and_then (apply_checkout_discount_on_checkout_line pr ck ls l (unit_price * of_int (pl_quantity l))) (\<lambda>total_price.
       let line_total_price = channel_quantize pr (pc_channel ck) total_price
       in Inr (set_line_total (line_total_price, line_total_price) 0 l)))"

definition get_checkout_base_prices ::
  "pricing \<Rightarrow> priced_checkout \<Rightarrow> priced_line list \<Rightarrow> price_error + priced_checkout \<times> priced_line list" where
  "get_checkout_base_prices pr ck ls = and_then (all_of (base_price_line pr ck ls) ls) (\<lambda>ls'.
     let subtotal = sum_list (map pl_total_net ls'); shipping_price = base_checkout_delivery_price pr ck (Some ls);
         total = subtotal + shipping_price
     in Inr (ck\<lparr>pc_shipping_price := quantize_taxed pr (pc_channel ck) (shipping_price, shipping_price), pc_shipping_tax_rate := 0,
          pc_subtotal := (subtotal, subtotal), pc_total := quantize_taxed pr (pc_channel ck) (total, total)\<rparr>, ls'))"

record price_env =
  pe_pricing :: pricing
  pe_now :: time
  pe_prices_ttl :: time                         \<comment> \<open>\<open>settings.CHECKOUT_PRICES_TTL\<close>\<close>
  pe_uuid :: "nat \<Rightarrow> pk"
  pe_plugins :: "price_plugin list"
  pe_get_taxes_for_checkout :: "priced_checkout \<Rightarrow> priced_line list \<Rightarrow> tax_data option"
  pe_rates :: "(string \<times> decimal) list"
  pe_tax_configuration :: tax_configuration

definition taxed_checkout_prices ::
  "price_env \<Rightarrow> string option \<Rightarrow> priced_checkout \<Rightarrow> priced_line list \<Rightarrow> price_error + priced_checkout \<times> priced_line list" where
  \<comment> \<open>The branches of \<open>_fetch_checkout_prices_if_expired\<close> on the tax configuration.\<close>
  "taxed_checkout_prices e address ck ls =
     (let pr = pe_pricing e; tc = pe_tax_configuration e;
          country = country_configuration tc (get_active_country (pc_channel ck) (pc_country ck) None);
          strategy = get_tax_calculation_strategy tc country;
          prices_entered_with_tax = tcf_prices_entered_with_tax tc;
          should_charge_tax = (get_charge_taxes tc country \<and> \<not> pc_tax_exemption ck);
          add_tax = calculate_and_add_tax pr (pe_plugins e) (pe_get_taxes_for_checkout e) (pe_rates e) strategy ck ls
            prices_entered_with_tax address
      in if prices_entered_with_tax
         then and_then add_tax (\<lambda>(ck, ls). Inr (if should_charge_tax then (ck, ls) else remove_tax ck ls))
         else if should_charge_tax then add_tax else get_checkout_base_prices pr ck ls)"

definition fetch_checkout_prices_if_expired ::
  "price_env \<Rightarrow> string option \<Rightarrow> bool \<Rightarrow> priced_checkout \<Rightarrow> priced_line list \<Rightarrow> line_discount list
   \<Rightarrow> price_error + priced_checkout \<times> priced_line list \<times> line_discount list" where
  "fetch_checkout_prices_if_expired e address force_update ck ls table =
     (if \<not> force_update \<and> pe_now e < pc_price_expiration ck then Inr (ck, ls, table)
      else and_then (create_or_update_discount_objects_from_promotion_for_checkout (pe_uuid e) ls table) (\<lambda>(ls, table).
        and_then (taxed_checkout_prices e address ck ls) (\<lambda>(ck, ls).
          Inr (ck\<lparr>pc_price_expiration := pe_now e + pe_prices_ttl e\<rparr>, ls, table))))"

definition fetched ::
  "price_env \<Rightarrow> string option \<Rightarrow> priced_checkout \<Rightarrow> priced_line list \<Rightarrow> line_discount list
   \<Rightarrow> (priced_checkout \<Rightarrow> priced_line list \<Rightarrow> price_error + 'a) \<Rightarrow> price_error + 'a" where
  \<comment> \<open>What the functions below do with \<open>fetch_checkout_data\<close>.\<close>
  "fetched e address ck ls table f = and_then (fetch_checkout_prices_if_expired e address False ck ls table) (\<lambda>(ck, ls, table). f ck ls)"

definition checkout_shipping_price :: "price_env \<Rightarrow> string option \<Rightarrow> priced_checkout \<Rightarrow> priced_line list \<Rightarrow> line_discount list \<Rightarrow> price_error + taxed" where
  "checkout_shipping_price e address ck ls table = fetched e address ck ls table
     (\<lambda>ck ls. Inr (quantize_taxed (pe_pricing e) (pc_channel ck) (pc_shipping_price ck)))"

definition checkout_shipping_tax_rate :: "price_env \<Rightarrow> string option \<Rightarrow> priced_checkout \<Rightarrow> priced_line list \<Rightarrow> line_discount list \<Rightarrow> price_error + decimal" where
  "checkout_shipping_tax_rate e address ck ls table = fetched e address ck ls table (\<lambda>ck ls. Inr (pc_shipping_tax_rate ck))"

definition checkout_subtotal :: "price_env \<Rightarrow> string option \<Rightarrow> priced_checkout \<Rightarrow> priced_line list \<Rightarrow> line_discount list \<Rightarrow> price_error + taxed" where
  "checkout_subtotal e address ck ls table = fetched e address ck ls table
     (\<lambda>ck ls. Inr (quantize_taxed (pe_pricing e) (pc_channel ck) (pc_subtotal ck)))"

definition checkout_total :: "price_env \<Rightarrow> string option \<Rightarrow> priced_checkout \<Rightarrow> priced_line list \<Rightarrow> line_discount list \<Rightarrow> price_error + taxed" where
  "checkout_total e address ck ls table = fetched e address ck ls table
     (\<lambda>ck ls. Inr (quantize_taxed (pe_pricing e) (pc_channel ck) (pc_total ck)))"

definition calculate_checkout_total_with_gift_cards ::
  "price_env \<Rightarrow> string option \<Rightarrow> decimal \<Rightarrow> priced_checkout \<Rightarrow> priced_line list \<Rightarrow> line_discount list \<Rightarrow> price_error + taxed" where
  \<comment> \<open>Prices with taxes are compared by their gross amounts.\<close>
  "calculate_checkout_total_with_gift_cards e address gift_cards_balance ck ls table =
     and_then (checkout_total e address ck ls table) (\<lambda>(net, gross).
       Inr (if gross - gift_cards_balance < 0 then (0, 0) else (net - gift_cards_balance, gross - gift_cards_balance)))"

definition find_checkout_line_info :: "priced_line list \<Rightarrow> pk \<Rightarrow> price_error + priced_line" where
  \<comment> \<open>\<open>next\<close> of nothing raises.\<close>
  "find_checkout_line_info ls k = (case find (\<lambda>l. pl_id l = k) ls of None \<Rightarrow> Inl Price_Index_Error | Some l \<Rightarrow> Inr l)"

definition checkout_line_total :: "price_env \<Rightarrow> priced_checkout \<Rightarrow> priced_line list \<Rightarrow> line_discount list \<Rightarrow> pk \<Rightarrow> price_error + taxed" where
  "checkout_line_total e ck ls table k = fetched e (pc_country ck) ck ls table (\<lambda>ck ls.
     and_then (find_checkout_line_info ls k) (\<lambda>l. Inr (quantize_taxed (pe_pricing e) (pc_channel ck) (line_total l))))"

definition checkout_line_unit_price :: "price_env \<Rightarrow> priced_checkout \<Rightarrow> priced_line list \<Rightarrow> line_discount list \<Rightarrow> pk \<Rightarrow> price_error + taxed" where
  "checkout_line_unit_price e ck ls table k = fetched e (pc_country ck) ck ls table (\<lambda>ck ls.
     and_then (find_checkout_line_info ls k) (\<lambda>l.
       and_then (divided (pl_total_net l) (of_int (pl_quantity l))) (\<lambda>net.
         and_then (divided (pl_total_gross l) (of_int (pl_quantity l))) (\<lambda>gross.
           Inr (quantize_taxed (pe_pricing e) (pc_channel ck) (net, gross))))))"

definition checkout_line_tax_rate :: "price_env \<Rightarrow> string option \<Rightarrow> priced_checkout \<Rightarrow> priced_line list \<Rightarrow> line_discount list \<Rightarrow> pk \<Rightarrow> price_error + decimal" where
  "checkout_line_tax_rate e address ck ls table k = fetched e address ck ls table (\<lambda>ck ls.
     and_then (find_checkout_line_info ls k) (\<lambda>l. Inr (pl_tax_rate l)))"

section \<open>Consistent prices\<close>

lemma ctx_le_zero: "x \<le> 0 \<Longrightarrow> ctx x \<le> 0"
proof -
  assume x: "x \<le> 0"
  have "ctx x \<le> x + ulp * \<bar>x\<bar>" using ctx_error [of x] by linarith
  also have "\<dots> = (1 - ulp) * x" using x by (simp add: algebra_simps)
  also have "\<dots> \<le> 0" using x by (intro mult_nonneg_nonpos) simp_all
  finally show ?thesis .
qed

lemma quantize_finer: "quantize p x = x \<Longrightarrow> p \<le> p' \<Longrightarrow> quantize p' x = x"
proof -
  assume "quantize p x = x" "p \<le> p'"
  then obtain n where x: "x = of_int n / 10 ^ p" by (auto simp: quantize_fixed)
  have "(10::rat) ^ p' = 10 ^ p * 10 ^ (p' - p)" using \<open>p \<le> p'\<close> by (simp flip: power_add)
  then have "x = of_int (n * 10 ^ (p' - p)) / 10 ^ p'" by (simp add: x)
  then show ?thesis unfolding quantize_fixed by blast
qed

lemma quantize_add: "quantize p x = x \<Longrightarrow> quantize p y = y \<Longrightarrow> quantize p (x + y) = x + y"
  unfolding quantize_fixed by (metis add_divide_distrib of_int_add)

lemma quantize_sum_list: "list_all (\<lambda>x. quantize p x = x) xs \<Longrightarrow> quantize p (sum_list xs) = sum_list xs"
  by (induction xs) (auto simp: quantize_add price.q_zero)

lemma sum_taxed: "sum_taxed xs = (sum_list (map fst xs), sum_list (map snd xs))"
proof -
  have "fold (\<lambda>x s. add_taxed s x) xs s = (fst s + sum_list (map fst xs), snd s + sum_list (map snd xs))" for s
    by (induction xs arbitrary: s) (auto simp: add_taxed_def)
  then show ?thesis by (simp add: sum_taxed_def)
qed

definition exact :: "decimal \<Rightarrow> bool" where
  \<comment> \<open>An amount that is not negative and that the decimal context does not round.\<close>
  "exact x \<longleftrightarrow> 0 \<le> x \<and> ctx x = x"

lemma flat_rate_between:
  assumes "exact money" and "0 \<le> tax_rate" and "calculate_flat_rate_tax money tax_rate with_tax = Inr (net, gross)"
  shows "0 \<le> net" and "net \<le> gross"
proof -
  define t where "t = ctx (1 + ctx (tax_rate / 100))"
  have "1 \<le> 1 + ctx (tax_rate / 100)" using assms(2) by (simp add: ctx_nonneg)
  from ctx_mono [OF _ this] have t: "1 \<le> t" by (simp add: t_def)
  have money: "0 \<le> money" "ctx money = money" using assms(1) by (simp_all add: exact_def)
  have "ctx (money / t) \<le> money" "money \<le> ctx (money * t)" "0 \<le> ctx (money / t)"
  proof -
    have le: "money / t \<le> money" "money \<le> money * t" "0 \<le> money / t" using money(1) t by (simp_all add: divide_le_eq mult_le_cancel_left1)
    from ctx_mono [OF le(3,1)] ctx_mono [OF money(1) le(2)] le(3)
    show "ctx (money / t) \<le> money" "money \<le> ctx (money * t)" "0 \<le> ctx (money / t)" by (simp_all add: money(2) ctx_nonneg)
  qed
  with assms(3) money show "0 \<le> net" "net \<le> gross"
    by (auto simp: calculate_flat_rate_tax_def Let_def divided_def dec_div_def t_def split: if_splits)
qed

definition ordered :: "taxed \<Rightarrow> bool" where
  "ordered p \<longleftrightarrow> 0 \<le> fst p \<and> fst p \<le> snd p"

definition in_units :: "pricing \<Rightarrow> sales_channel \<Rightarrow> decimal \<Rightarrow> bool" where
  "in_units pr ch x \<longleftrightarrow> channel_quantize pr ch x = x"

lemma quantized_in_units [simp]: "in_units pr ch (channel_quantize pr ch x)"
  by (simp add: in_units_def quantize_price_def price.q_again)

lemma quantize_ordered: "ordered p \<Longrightarrow> ordered (quantize_taxed pr ch p)"
  by (cases p) (auto simp: ordered_def quantize_taxed_def quantize_price_def price.q_mono price.q_nonneg)

text \<open>
  The promotions of a line are of the price of its variant, so that they can take off more than a price that the line
  has of its own.  For such a line nothing is claimed of its sign.
\<close>

definition promotions_covered :: "priced_line \<Rightarrow> bool" where
  "promotions_covered l \<longleftrightarrow> (case get_base_price l of Inl er \<Rightarrow> False
     | Inr price \<Rightarrow> sum_list (map ld_amount_value (pl_discounts l)) \<le> price * of_int (pl_quantity l))"

definition prices_add_up :: "priced_line list \<Rightarrow> priced_checkout \<Rightarrow> priced_line list \<Rightarrow> bool" where
  \<comment> \<open>The lines before, the checkout and the lines after: no net amount of shipping or of a line whose promotions its
     price covers is negative or above its gross amount; the subtotal is the sum of the lines, and the total that of
     subtotal and shipping.\<close>
  "prices_add_up before ck ls \<longleftrightarrow> list_all2 (\<lambda>l l'. promotions_covered l \<longrightarrow> ordered (line_total l')) before ls
     \<and> ordered (pc_shipping_price ck)
     \<and> pc_subtotal ck = sum_taxed (map line_total ls) \<and> pc_total ck = add_taxed (pc_subtotal ck) (pc_shipping_price ck)"

definition amounts_ok :: "pricing \<Rightarrow> priced_checkout \<Rightarrow> priced_line list \<Rightarrow> bool" where
  \<comment> \<open>Positive quantities, three places, as the columns have, amounts far below \<open>10 ^ 28\<close>, vouchers and prices of
     delivery that are not negative.\<close>
  "amounts_ok pr ck ls \<longleftrightarrow> pr_precision pr (sc_currency_code (pc_channel ck)) \<le> 3
     \<and> quantize 3 (pc_discount_amount ck) = pc_discount_amount ck \<and> 0 \<le> pc_discount_amount ck \<and> pc_discount_amount ck < 10 ^ 24
     \<and> list_all (\<lambda>l. 1 \<le> pl_quantity l \<and> (case pl_voucher l of None \<Rightarrow> True | Some v \<Rightarrow> voucher_values_ok v)
         \<and> (case calculate_base_line_total_price pr (pc_channel ck) l of Inr b \<Rightarrow> b < 10 ^ 24 | Inl er \<Rightarrow> True)) ls
     \<and> (case pc_delivery ck of Shipping_Method price tc \<Rightarrow> 0 \<le> price \<and> price < 10 ^ 24 | _ \<Rightarrow> True)"

lemma covered_line_nonneg:
  assumes "pricing_ok pr" and "amounts_ok pr ck ls" and "l \<in> set ls" and "promotions_covered l"
    and b: "calculate_base_line_total_price pr (pc_channel ck) l = Inr b"
  shows "1 \<le> pl_quantity l" and "0 \<le> b" and "b < 10 ^ 24"
proof -
  have l: "1 \<le> pl_quantity l" "case pl_voucher l of None \<Rightarrow> True | Some v \<Rightarrow> voucher_values_ok v" "b < 10 ^ 24"
    using assms(2,3) b by (auto simp: amounts_ok_def list_all_iff)
  then show "1 \<le> pl_quantity l" "b < 10 ^ 24" by simp_all
  obtain price where price: "get_base_price l = Inr price" "0 \<le> promoted_total l price"
    using assms(4) by (auto simp: promotions_covered_def promoted_total_def split: sum.splits)
  show "0 \<le> b" by (rule base_total_nonneg [OF assms(1) _ price(1) l(1) price(2) b]) (use l(2) in auto)
qed

definition rates_ok :: "(string \<times> decimal) list \<Rightarrow> priced_checkout \<Rightarrow> priced_line list \<Rightarrow> bool" where
  "rates_ok rates ck ls \<longleftrightarrow> list_all (\<lambda>(c, r). 0 \<le> r) rates
     \<and> list_all (\<lambda>tc. case tc of None \<Rightarrow> True | Some tc \<Rightarrow> list_all (\<lambda>(c, r). 0 \<le> r) (tc_country_rates tc))
         (shipping_tax_class (pc_delivery ck) # map pl_tax_class ls)"

lemma default_rate_nonneg: "list_all (\<lambda>(c, r). 0 \<le> r) rates \<Longrightarrow> 0 \<le> default_tax_rate rates c"
  by (auto simp: default_tax_rate_def list_all_iff split: option.split dest!: map_of_SomeD)

lemma tax_rate_nonneg:
  assumes "0 \<le> d" and "case tc of None \<Rightarrow> True | Some tc \<Rightarrow> list_all (\<lambda>(c, r). 0 \<le> r) (tc_country_rates tc)"
  shows "0 \<le> get_tax_rate_for_tax_class tc d country"
proof -
  have "0 \<le> fold (\<lambda>(c, rate) r. if c = country then rate else r) rates d" if "list_all (\<lambda>(c, r). 0 \<le> r) rates" "0 \<le> d" for rates d
    using that by (induction rates arbitrary: d) (auto split: prod.splits)
  with assms show ?thesis by (auto simp: get_tax_rate_for_tax_class_def split: option.splits)
qed

lemma base_total_in_units: "calculate_base_line_total_price pr ch l = Inr b \<Longrightarrow> in_units pr ch b"
  by (auto simp: calculate_base_line_total_price_def Let_def)

lemma exact_small: "0 \<le> x \<Longrightarrow> quantize 3 x = x \<Longrightarrow> x < 10 ^ 25 \<Longrightarrow> exact x"
  using ctx_exact [of 3 x] by (simp add: exact_def)

lemma discounted_exact:
  assumes "amounts_ok pr ck ls" and "0 \<le> b" and "b < 10 ^ 24" and "in_units pr (pc_channel ck) b"
    and "apply_checkout_discount_on_checkout_line pr ck ls l b = Inr r"
  shows "exact r"
proof -
  have places: "quantize 3 b = b" using assms(1,4) by (auto simp: amounts_ok_def in_units_def quantize_price_def intro: quantize_finer)
  have disc: "quantize 3 (pc_discount_amount ck) = pc_discount_amount ck" "0 \<le> pc_discount_amount ck"
    using assms(1) by (simp_all add: amounts_ok_def)
  have "quantize 3 (b - pc_discount_amount ck) = b - pc_discount_amount ck" using places disc by (simp add: price.q_minus)
  then have single: "exact (max (b - pc_discount_amount ck) 0)"
    using assms(2,3) disc(2) by (cases "b \<le> pc_discount_amount ck") (auto simp: max_def exact_def intro!: exact_small [unfolded exact_def, THEN conjunct2])
  have several: "exact (max (ctx x) 0)" for x
    using ctx_le_zero [of x] by (cases "x \<le> 0") (auto simp: exact_def max_def ctx_ctx)
  show ?thesis using assms(2,3,5) places single several
    by (auto simp: apply_checkout_discount_on_checkout_line_def intro: exact_small split: if_splits)
qed


lemma flat_rate_line_ordered:
  assumes pr: "pricing_ok pr" and ok: "amounts_ok pr ck ls" and l: "l \<in> set ls" and covered: "promotions_covered l" and rate: "0 \<le> get_tax_rate_for_tax_class (pl_tax_class l) d c"
    and line: "flat_rate_line pr ck ls d c with_tax l = Inr l'"
  shows "ordered (line_total l')"
proof -
  from line obtain b r p where b: "calculate_base_line_total_price pr (pc_channel ck) l = Inr b"
    and r: "apply_checkout_discount_on_checkout_line pr ck ls l b = Inr r"
    and p: "calculate_flat_rate_tax r (get_tax_rate_for_tax_class (pl_tax_class l) d c) with_tax = Inr p"
    and l': "line_total l' = quantize_taxed pr (pc_channel ck) p"
    by (auto simp: flat_rate_line_def calculate_checkout_line_total_def Let_def set_line_total_def)
  from discounted_exact [OF ok covered_line_nonneg(2,3) [OF pr ok l covered b] base_total_in_units [OF b] r] have "exact r" .
  from flat_rate_between [OF this rate, of with_tax "fst p" "snd p"] p have "ordered p" by (simp add: ordered_def)
  then show ?thesis unfolding l' by (rule quantize_ordered)
qed

lemma quantize_upto: "0 \<le> x \<Longrightarrow> x \<le> 10 ^ 24 \<Longrightarrow> 0 \<le> quantize p x \<and> quantize p x \<le> 10 ^ 24"
  using price.q_mono [of x "10 ^ 24" p] by (simp add: price.q_nonneg)

lemma delivery_price_exact:
  assumes "amounts_ok pr ck ls" shows "exact (base_checkout_delivery_price pr ck ols)"
proof -
  have p: "pr_precision pr (sc_currency_code (pc_channel ck)) \<le> 3" and d: "0 \<le> pc_discount_amount ck"
    and delivery: "case pc_delivery ck of Shipping_Method price tc \<Rightarrow> 0 \<le> price \<and> price < 10 ^ 24 | _ \<Rightarrow> True"
    using assms by (simp_all add: amounts_ok_def)
  define u where "u = base_checkout_undiscounted_delivery_price pr ck ols"
  have u: "0 \<le> u \<and> u \<le> 10 ^ 24"
    using delivery quantize_upto by (auto simp: u_def base_checkout_undiscounted_delivery_price_def quantize_price_def Let_def
      split: delivery_method.splits)
  then have "0 \<le> max 0 (u - pc_discount_amount ck) \<and> max 0 (u - pc_discount_amount ck) \<le> 10 ^ 24" using d by auto
  moreover have "base_checkout_delivery_price pr ck ols = channel_quantize pr (pc_channel ck)
      (if (case pc_voucher ck of None \<Rightarrow> False | Some v \<Rightarrow> vo_type v = SHIPPING) then max 0 (u - pc_discount_amount ck) else u)"
    by (simp only: base_checkout_delivery_price_def Let_def u_def)
  ultimately obtain x where x: "base_checkout_delivery_price pr ck ols = quantize (pr_precision pr (sc_currency_code (pc_channel ck))) x"
    "0 \<le> x" "x \<le> 10 ^ 24" using u unfolding quantize_price_def by metis
  show ?thesis unfolding x(1) using quantize_upto [OF x(2,3)] quantize_finer [OF price.q_again p]
    by (intro exact_small) (auto intro: le_less_trans [of _ "10 ^ 24"])
qed

lemma flat_rates_add_up:
  assumes pr: "pricing_ok pr" and ok: "amounts_ok pr ck ls" and rates: "rates_ok rates ck ls"
    and run: "update_checkout_prices_with_flat_rates pr rates ck ls with_tax address = Inr (ck', ls')"
  shows "prices_add_up ls ck' ls'"
proof -
  let ?c = "get_active_country (pc_channel ck) address None"
  let ?d = "default_tax_rate rates ?c"
  have d: "0 \<le> ?d" using rates by (intro default_rate_nonneg) (simp add: rates_ok_def)
  have rate: "0 \<le> get_tax_rate_for_tax_class tc ?d ?c" if "tc \<in> set (shipping_tax_class (pc_delivery ck) # map pl_tax_class ls)" for tc
    using tax_rate_nonneg [OF d] rates that unfolding rates_ok_def list_all_iff by blast
  from run obtain shipping where lines: "list_all2 (\<lambda>l l'. flat_rate_line pr ck ls ?d ?c with_tax l = Inr l') ls ls'"
    and shipping: "calculate_checkout_shipping pr ck ls (get_tax_rate_for_tax_class (shipping_tax_class (pc_delivery ck)) ?d ?c) with_tax
      = Inr shipping"
    and ck': "pc_shipping_price ck' = shipping" "pc_subtotal ck' = sum_taxed (map line_total ls')"
      "pc_total ck' = add_taxed (sum_taxed (map line_total ls')) shipping"
    by (auto simp: update_checkout_prices_with_flat_rates_def Let_def all_of_Inr)
  have "list_all2 (\<lambda>l l'. promotions_covered l \<longrightarrow> ordered (line_total l')) ls ls'"
    using lines flat_rate_line_ordered [OF pr ok _ _ rate] by (elim list.rel_mono_strong) simp
  moreover have "ordered shipping"
  proof -
    from shipping obtain p where p: "calculate_flat_rate_tax (base_checkout_delivery_price pr ck (Some ls))
        (get_tax_rate_for_tax_class (shipping_tax_class (pc_delivery ck)) ?d ?c) with_tax = Inr p"
      "shipping = quantize_taxed pr (pc_channel ck) p" by (auto simp: calculate_checkout_shipping_def)
    have "0 \<le> get_tax_rate_for_tax_class (shipping_tax_class (pc_delivery ck)) ?d ?c" by (rule rate) simp
    from flat_rate_between [OF delivery_price_exact [OF ok, of "Some ls"] this, of with_tax "fst p" "snd p"] p
    show ?thesis by (simp add: ordered_def quantize_ordered [unfolded ordered_def])
  qed
  ultimately show ?thesis by (simp add: prices_add_up_def ck')
qed

lemma remove_tax_adds_up:
  assumes "prices_add_up before ck ls" and "remove_tax ck ls = (ck', ls')"
  shows "prices_add_up before ck' ls'"
  using assms
  by (auto simp: prices_add_up_def remove_tax_def ordered_def untaxed_def sum_taxed add_taxed_def comp_def
      list_all2_map2 elim!: list_all2_mono)

lemma base_prices_add_up:
  assumes pr: "pricing_ok pr" and ok: "amounts_ok pr ck ls" and run: "get_checkout_base_prices pr ck ls = Inr (ck', ls')"
  shows "prices_add_up ls ck' ls'"
proof -
  let ?ch = "pc_channel ck" and ?s = "base_checkout_delivery_price pr ck (Some ls)"
  from run have lines: "list_all2 (\<lambda>l l'. base_price_line pr ck ls l = Inr l') ls ls'"
    and ck': "pc_shipping_price ck' = quantize_taxed pr ?ch (?s, ?s)" "pc_subtotal ck' = (sum_list (map pl_total_net ls'), sum_list (map pl_total_net ls'))"
      "pc_total ck' = quantize_taxed pr ?ch (sum_list (map pl_total_net ls') + ?s, sum_list (map pl_total_net ls') + ?s)"
    by (auto simp: get_checkout_base_prices_def Let_def all_of_Inr)
  have parts: "pl_total_gross l' = pl_total_net l' \<and> in_units pr ?ch (pl_total_net l') \<and> (promotions_covered l \<longrightarrow> 0 \<le> pl_total_net l')"
    if l: "l \<in> set ls" "base_price_line pr ck ls l = Inr l'" for l l'
  proof -
    from l(2) obtain b u r where b: "calculate_base_line_total_price pr ?ch l = Inr b"
      and u: "divided b (of_int (pl_quantity l)) = Inr u"
      and r: "apply_checkout_discount_on_checkout_line pr ck ls l (channel_quantize pr ?ch u * of_int (pl_quantity l)) = Inr r"
      and l'_eq: "pl_total_net l' = channel_quantize pr ?ch r" "pl_total_gross l' = channel_quantize pr ?ch r"
      by (auto simp: base_price_line_def calculate_base_line_unit_price_def Let_def set_line_total_def)
    have "0 \<le> r" if covered: "promotions_covered l"
    proof -
      note q = covered_line_nonneg [OF pr ok l(1) covered b]
      from divided_bounds(2) [OF u q(2)] q(1) have "0 \<le> channel_quantize pr ?ch u * of_int (pl_quantity l)"
        by (intro mult_nonneg_nonneg) (simp_all add: quantize_price_def price.q_nonneg)
      with r show ?thesis by (auto simp: apply_checkout_discount_on_checkout_line_def split: if_splits)
    qed
    then show ?thesis by (simp add: l'_eq) (simp add: quantize_price_def price.q_nonneg)
  qed
  have line: "pl_total_gross l' = pl_total_net l' \<and> in_units pr ?ch (pl_total_net l')" if l': "l' \<in> set ls'" for l'
    using list_all2_in_right [OF lines l'] parts by blast
  have ordered: "list_all2 (\<lambda>l l'. promotions_covered l \<longrightarrow> ordered (line_total l')) ls ls'"
    using lines parts by (elim list.rel_mono_strong) (simp add: ordered_def)
  have s: "in_units pr ?ch ?s" "0 \<le> ?s" using delivery_price_exact [OF ok, of "Some ls"] unfolding exact_def
    by (simp_all add: base_checkout_delivery_price_def Let_def)
  have "in_units pr ?ch (sum_list (map pl_total_net ls') + ?s)"
    unfolding in_units_def quantize_price_def
    by (intro quantize_add quantize_sum_list) (use line s in \<open>auto simp: in_units_def quantize_price_def list_all_iff\<close>)
  with s have "pc_total ck' = add_taxed (pc_subtotal ck') (pc_shipping_price ck')" "ordered (pc_shipping_price ck')"
    by (simp_all add: ck' quantize_taxed_def add_taxed_def ordered_def in_units_def)
  moreover have "sum_list (map pl_total_gross ls') = sum_list (map pl_total_net ls')" using line by (simp cong: map_cong)
  ultimately show ?thesis using ordered by (simp add: prices_add_up_def sum_taxed ck' comp_def)
qed

text \<open>
  C36: Refreshing the prices of a checkout with flat rates leaves consistent prices, whether they are entered with or without
  taxes and taxes are charged or not: the subtotal is the sum of the lines, the total the sum of subtotal and shipping,
  and no net amount of shipping, or of a line whose promotions take off at most its price, is negative or above its gross
  amount.
\<close>
theorem checkout_prices_add_up:
  assumes "pricing_ok (pe_pricing e)" and "amounts_ok (pe_pricing e) ck ls" and "rates_ok (pe_rates e) ck ls"
    and "get_tax_calculation_strategy (pe_tax_configuration e)
      (country_configuration (pe_tax_configuration e) (get_active_country (pc_channel ck) (pc_country ck) None)) = FLAT_RATES"
    and "taxed_checkout_prices e address ck ls = Inr (ck', ls')"
  shows "prices_add_up ls ck' ls'"
  using assms flat_rates_add_up [OF assms(1-3)] base_prices_add_up [OF assms(1,2)] remove_tax_adds_up
  by (fastforce simp: taxed_checkout_prices_def Let_def calculate_and_add_tax_def split: if_splits)

lemma round_half_even_near: "\<bar>y - of_int n\<bar> < 1 / 2 \<Longrightarrow> round_half_even y = n"
proof -
  assume "\<bar>y - of_int n\<bar> < 1 / 2"
  with round_half_even_error [of y] have "\<bar>of_int (round_half_even y) - (of_int n :: rat)\<bar> < 1" by linarith
  then have "\<bar>of_int (round_half_even y - n) :: rat\<bar> < of_int 1" by simp
  then have "\<bar>round_half_even y - n\<bar> < 1" unfolding of_int_abs [symmetric] of_int_less_iff .
  then show ?thesis by simp
qed

section \<open>Examples\<close>

definition ex_tax_configuration :: "bool \<Rightarrow> bool \<Rightarrow> tax_configuration" where
  "ex_tax_configuration charge with_tax = \<lparr>tcf_charge_taxes = charge, tcf_tax_calculation_strategy = None, tcf_display_gross_prices = True,
     tcf_prices_entered_with_tax = with_tax, tcf_country_exceptions = []\<rparr>"

definition ex_price_env :: "bool \<Rightarrow> bool \<Rightarrow> price_env" where
  "ex_price_env charge with_tax = \<lparr>pe_pricing = ex_pricing, pe_now = 10, pe_prices_ttl = 5, pe_uuid = ex_uuid, pe_plugins = [],
     pe_get_taxes_for_checkout = (\<lambda>ck ls. None), pe_rates = [(''US'', 25)], pe_tax_configuration = ex_tax_configuration charge with_tax\<rparr>"

definition ex_plain :: priced_checkout where
  "ex_plain = ex_priced_checkout None 0"

lemmas ex_price_defs = ex_plain_def ex_priced_checkout_def ex_twins_def ex_priced_line_def ex_listing_def ex_price_env_def
  ex_tax_configuration_def

lemma ex_base_total:
  "list_all (\<lambda>l. calculate_base_line_total_price ex_pricing ex_channel l = Inr 10) ex_twins"
  by (simp add: ex_price_defs calculate_base_line_total_price_def get_base_price_def)

lemma ex_taxed: "taxed_checkout_prices (ex_price_env True False) None ex_plain ex_twins =
  Inr (ex_plain\<lparr>pc_shipping_price := (0, 0), pc_shipping_tax_rate := 1 / 4, pc_subtotal := (20, 25), pc_total := (20, 25)\<rparr>,
    map (set_line_total (10, 25 / 2) (1 / 4)) ex_twins)"
proof -
  have ctx: "ctx (1 / 4) = 1 / 4" "ctx (5 / 4) = 5 / 4" "ctx (25 / 2) = 25 / 2" "quantize 2 (25 / 2) = 25 / 2"
    using ctx_exact [of 2 "1 / 4"] ctx_exact [of 2 "5 / 4"] ctx_exact [of 2 "25 / 2"]
    by (simp_all add: quantize_def round_half_even_def Let_def)
  have rate: "default_tax_rate [(''US'', 25)] (get_active_country ex_channel None None) = 25"
    by (simp add: default_tax_rate_def get_active_country_def ex_channel_def)
  have tax: "calculate_flat_rate_tax 10 25 False = Inr (10, 25 / 2)" "calculate_flat_rate_tax 0 25 False = Inr (0, 0)"
    by (simp_all add: calculate_flat_rate_tax_def ctx)
  have pc: "pc_channel ex_plain = ex_channel" "pc_voucher ex_plain = None" "pc_delivery ex_plain = No_Delivery"
    "pc_country ex_plain = None" "pc_tax_exemption ex_plain = False" by (simp_all add: ex_plain_def ex_priced_checkout_def)
  have no_class: "list_all (\<lambda>l. pl_tax_class l = None) ex_twins" by (simp add: ex_price_defs)
  have line: "flat_rate_line ex_pricing ex_plain ex_twins 25 c False l = Inr (set_line_total (10, 25 / 2) (1 / 4) l)" if "l \<in> set ex_twins" for l c
    using that ex_base_total no_class unfolding list_all_iff
    by (simp add: flat_rate_line_def Let_def get_tax_rate_for_tax_class_def calculate_checkout_line_total_def pc
      apply_checkout_discount_on_checkout_line_def entire_order_discount_def tax quantize_taxed_def ctx normalize_tax_rate_for_db_def)
  have "all_of (flat_rate_line ex_pricing ex_plain ex_twins 25 c False) ex_twins = Inr (map (set_line_total (10, 25 / 2) (1 / 4)) ex_twins)" for c
    unfolding all_of_Inr list_all2_map2 using line by (intro list.rel_refl_strong)
  moreover have "sum_taxed (map line_total (map (set_line_total (10, 25 / 2) (1 / 4)) ex_twins)) = (20, 25)"
    by (simp add: sum_taxed set_line_total_def ex_twins_def)
  ultimately show ?thesis
    by (simp add: taxed_checkout_prices_def ex_price_env_def ex_tax_configuration_def country_configuration_def get_charge_taxes_def
      get_tax_calculation_strategy_def calculate_and_add_tax_def update_checkout_prices_with_flat_rates_def pc rate Let_def
      get_tax_rate_for_tax_class_def shipping_tax_class_def calculate_checkout_shipping_def base_checkout_delivery_price_def
      base_checkout_undiscounted_delivery_price_def tax quantize_taxed_def normalize_tax_rate_for_db_def ctx add_taxed_def)
qed

lemma checkout_prices_add_up_witness:
  "prices_add_up ex_twins (fst (projr (taxed_checkout_prices (ex_price_env True False) None ex_plain ex_twins)))
     (snd (projr (taxed_checkout_prices (ex_price_env True False) None ex_plain ex_twins)))
   \<and> list_all promotions_covered ex_twins"
proof -
  have pc: "pc_channel ex_plain = ex_channel" "pc_discount_amount ex_plain = 0" "pc_delivery ex_plain = No_Delivery"
    "pc_country ex_plain = None" by (simp_all add: ex_plain_def ex_priced_checkout_def)
  have pe: "pe_pricing (ex_price_env True False) = ex_pricing" "pe_rates (ex_price_env True False) = [(''US'', 25)]"
    "pe_tax_configuration (ex_price_env True False) = ex_tax_configuration True False" by (simp_all add: ex_price_env_def)
  have "amounts_ok (pe_pricing (ex_price_env True False)) ex_plain ex_twins"
    using ex_base_total by (simp add: amounts_ok_def pe pc ex_twins_def ex_priced_line_def) (simp add: ex_pricing_def two_digits_def)
  moreover have "rates_ok (pe_rates (ex_price_env True False)) ex_plain ex_twins"
    by (simp add: rates_ok_def pe pc shipping_tax_class_def ex_twins_def ex_priced_line_def)
  moreover have "get_tax_calculation_strategy (pe_tax_configuration (ex_price_env True False)) (country_configuration
      (pe_tax_configuration (ex_price_env True False)) (get_active_country (pc_channel ex_plain) (pc_country ex_plain) None)) = FLAT_RATES"
    by (simp add: pe ex_tax_configuration_def country_configuration_def get_tax_calculation_strategy_def)
  moreover have "pricing_ok (pe_pricing (ex_price_env True False))" using ex_pricing_ok by (simp only: pe)
  moreover have "list_all promotions_covered ex_twins"
    by (simp add: promotions_covered_def ex_price_defs get_base_price_def)
  ultimately show ?thesis using checkout_prices_add_up [OF _ _ _ _ ex_taxed] by (simp add: ex_taxed)
qed

text \<open>
  Where no taxes are charged, the price of a line is its rounded unit price times the quantity: three pieces for 20
  cost 20.01.  With taxes of any rate the line keeps the 20.
\<close>

lemma untaxed_line_rounds_the_unit:
  "calculate_base_line_total_price ex_pricing ex_channel (ex_priced_line 1 3 [(ex_line_discount 5 None)\<lparr>ld_amount_value := 10\<rparr>] []) = Inr 20
   \<and> map_sum (\<lambda>_. ()) line_total (base_price_line ex_pricing ex_plain [] (ex_priced_line 1 3 [(ex_line_discount 5 None)\<lparr>ld_amount_value := 10\<rparr>] []))
     = Inr (2001 / 100, 2001 / 100)"
proof -
  let ?l = "ex_priced_line 1 3 [(ex_line_discount 5 None)\<lparr>ld_amount_value := 10\<rparr>] []"
  have total: "calculate_base_line_total_price ex_pricing ex_channel ?l = Inr 20"
    by (simp add: ex_price_defs calculate_base_line_total_price_def get_base_price_def)
  have "ctx (20 / 3) = 6666666666666666666666666667 / 10 ^ 27"
    using ctx_digits [of "20 / 3" 0] round_half_even_near [of "20000000000000000000000000000 / 3" 6666666666666666666666666667] by simp
  then have "divided 20 3 = Inr (6666666666666666666666666667 / 10 ^ 27)" by (simp add: divided_def dec_div_def)
  moreover have round: "quantize 2 (6666666666666666666666666667 / 1000000000000000000000000000) = 667 / 100"
    "quantize 2 (2001 / 100) = 2001 / 100"
    using round_half_even_near [of "6666666666666666666666666667 / 10 ^ 25" 667] round_half_even_of_int [of 2001]
    by (simp_all add: quantize_def)
  moreover have "pl_quantity ?l = 3" "pc_channel ex_plain = ex_channel" "pc_voucher ex_plain = None" by (simp_all add: ex_price_defs)
  ultimately show ?thesis using total
    by (simp add: base_price_line_def calculate_base_line_unit_price_def apply_checkout_discount_on_checkout_line_def
      entire_order_discount_def set_line_total_def Let_def round)
qed

text \<open>
  The last line gets what is left of a discount, so that the parts add up to it.  But each line is rounded after its part
  is subtracted: of three lines for 10 with a discount of 10, each costs 6.67, together 20.01.
\<close>

lemma rounded_parts_do_not_add_up:
  "map (\<lambda>d. quantize 2 (ctx (10 - d))) (line_shares [10, 10, 10] 10) = [667 / 100, 667 / 100, 667 / 100]"
proof -
  have rate: "ctx (1 / 3) = 3333333333333333333333333333 / 10000000000000000000000000000"
    using ctx_digits [of "1 / 3" "- 1"] round_half_even_near [of "10000000000000000000000000000 / 3" 3333333333333333333333333333] by simp
  have ctx: "ctx (3333333333333333333333333333 / 1000000000000000000000000000) = 3333333333333333333333333333 / 1000000000000000000000000000"
    "ctx (3333333333333333333333333333 / 500000000000000000000000000) = 3333333333333333333333333333 / 500000000000000000000000000"
    "ctx (1666666666666666666666666667 / 500000000000000000000000000) = 1666666666666666666666666667 / 500000000000000000000000000"
    "ctx (6666666666666666666666666667 / 1000000000000000000000000000) = 6666666666666666666666666667 / 1000000000000000000000000000"
    using ctx_digits [of "3333333333333333333333333333 / 10 ^ 27" 0] ctx_digits [of "6666666666666666666666666666 / 10 ^ 27" 0]
      ctx_digits [of "3333333333333333333333333334 / 10 ^ 27" 0] ctx_digits [of "6666666666666666666666666667 / 10 ^ 27" 0]
    by (simp_all add: round_half_even_def Let_def)
  have round: "quantize 2 (6666666666666666666666666667 / 1000000000000000000000000000) = 667 / 100"
    "quantize 2 (3333333333333333333333333333 / 500000000000000000000000000) = 667 / 100"
    using round_half_even_near [of "6666666666666666666666666667 / 10 ^ 25" 667] round_half_even_near [of "3333333333333333333333333333 / (5 * 10 ^ 24)" 667]
    by (simp_all add: quantize_def)
  show ?thesis by (simp add: line_shares_def share_def ctx_sum_def rate ctx round)
qed

end
