(* ===== verification/Order_Prices.thy ===== *)
theory Order_Prices
  imports Checkout_Prices
begin

text \<open>
  The prices of an order: \<open>saleor/order/base_calculations.py\<close>, \<open>saleor/tax/calculations/order.py\<close>, and
  \<open>saleor/order/calculations.py\<close>, with the functions on discounts of \<open>saleor/order/utils.py\<close>.

  The rows of \<open>OrderDiscount\<close> are read from the database each time they are used; their amounts have three places
  there, so that writing one rounds it.  A refresh of the prices is the function \<open>fetch_order_prices_if_expired\<close>.
\<close>

section \<open>Rows\<close>

record priced_order_line =
  ql_pk :: pk
  ql_quantity :: int
  ql_has_variant :: bool                    \<comment> \<open>the variant is null when it was deleted\<close>
  ql_tax_class :: "tax_class option"
  ql_tax_class_name :: "string option"
  ql_tax_rate :: "decimal option"
  ql_base_unit_price :: decimal
  ql_undiscounted_base_unit_price :: decimal
  ql_unit_price :: taxed
  ql_undiscounted_unit_price :: taxed
  ql_total_price :: taxed
  ql_undiscounted_total_price :: taxed
  ql_unit_discount_amount :: decimal
  ql_unit_discount_type :: "discount_value_type option"
  ql_unit_discount_value :: decimal
  ql_unit_discount_reason :: "string option"

record order_discount =
  qd_pk :: pk
  qd_type :: discount_type
  qd_value_type :: discount_value_type
  qd_value :: decimal
  qd_amount :: decimal
  qd_reason :: "string option"

record priced_order =
  qo_status :: order_status
  qo_channel :: sales_channel
  qo_should_refresh_prices :: bool
  qo_tax_exemption :: bool
  qo_shipping_country :: "string option"
  qo_billing_country :: "string option"
  qo_voucher :: "voucher option"
  qo_base_shipping_price :: decimal
  qo_shipping_method_tax_class :: "tax_class option"
  qo_shipping_tax_class_name :: "string option"
  qo_shipping_tax_rate :: "decimal option"
  qo_shipping_price :: taxed
  qo_total :: taxed
  qo_undiscounted_total :: taxed
  qo_discounts :: "order_discount list"     \<comment> \<open>the rows, in the order of their creation\<close>
  qo_display_gross_prices :: bool

section \<open>\<open>order/base_calculations.py\<close>\<close>

definition base_order_subtotal :: "priced_order_line list \<Rightarrow> decimal" where
  "base_order_subtotal ls = sum_list (map (\<lambda>l. ql_base_unit_price l * of_int (ql_quantity l)) ls)"

definition fixed_total_discount ::
  "pricing \<Rightarrow> string \<Rightarrow> order_discount \<Rightarrow> decimal \<Rightarrow> decimal \<Rightarrow> price_error + decimal \<times> decimal" where
  \<comment> \<open>A fixed discount by staff is divided between the lines and the shipping.\<close>
  "fixed_total_discount pr currency d subtotal shipping_price =
     (let temporary_undiscounted_total = ctx (subtotal + shipping_price)
      in if 0 < temporary_undiscounted_total
         then let temporary_total = apply_discount_to_value pr (qd_value d) (qd_value_type d) currency temporary_undiscounted_total;
                  total_discount = ctx (temporary_undiscounted_total - temporary_total)
              in and_then (divided subtotal temporary_undiscounted_total) (\<lambda>rate.
                   let subtotal_discount = ctx (rate * total_discount);
                       shipping_discount = ctx (total_discount - subtotal_discount)
                   in Inr (ctx (subtotal - subtotal_discount), ctx (shipping_price - shipping_discount)))
         else Inr (subtotal, shipping_price))"

definition discounted_prices ::
  "pricing \<Rightarrow> string \<Rightarrow> order_discount \<Rightarrow> decimal \<Rightarrow> decimal \<Rightarrow> price_error + decimal \<times> decimal" where
  \<comment> \<open>Subtotal and shipping price after a discount.\<close>
  "discounted_prices pr currency d subtotal shipping_price =
     (let apply = apply_discount_to_value pr (qd_value d) (qd_value_type d) currency
      in if qd_type d = VOUCHER then Inr (apply subtotal, shipping_price)
         else if qd_value_type d = PERCENTAGE then Inr (apply subtotal, apply shipping_price)
         else fixed_total_discount pr currency d subtotal shipping_price)"

definition stored_amount :: "order_discount \<Rightarrow> decimal \<Rightarrow> order_discount" where
  \<comment> \<open>The row after \<open>bulk_update\<close>.\<close>
  "stored_amount d amount = (if qd_amount d \<noteq> amount then d\<lparr>qd_amount := quantize 3 amount\<rparr> else d)"

fun discount_loop ::
  "pricing \<Rightarrow> string \<Rightarrow> decimal \<Rightarrow> decimal \<Rightarrow> order_discount list \<Rightarrow> price_error + (decimal \<times> decimal) \<times> order_discount list" where
  "discount_loop pr currency subtotal shipping_price [] = Inr ((subtotal, shipping_price), [])"
| "discount_loop pr currency subtotal shipping_price (d # ds) =
     and_then (discounted_prices pr currency d subtotal shipping_price) (\<lambda>(subtotal', shipping_price').
       let shipping_discount_amount = ctx (shipping_price - shipping_price'); subtotal_discount_amount = ctx (subtotal - subtotal');
           total_discount_amount = ctx (shipping_discount_amount + subtotal_discount_amount)
       in and_then (discount_loop pr currency subtotal' shipping_price' ds) (\<lambda>(prices, ds').
            Inr (prices, stored_amount d total_discount_amount # ds')))"

definition base_order_total :: "pricing \<Rightarrow> priced_order_line list \<Rightarrow> priced_order \<Rightarrow> price_error + decimal \<times> priced_order" where
  \<comment> \<open>The total, and the order with the discounts it updates.\<close>
  "base_order_total pr ls q = and_then
     (discount_loop pr (sc_currency_code (qo_channel q)) (base_order_subtotal ls) (qo_base_shipping_price q) (qo_discounts q))
     (\<lambda>((subtotal, shipping_price), ds). Inr (max (ctx (subtotal + shipping_price)) 0, q\<lparr>qo_discounts := ds\<rparr>))"

definition base_order_line_total :: "priced_order_line \<Rightarrow> taxed \<times> taxed" where
  \<comment> \<open>The undiscounted price, and the price with discounts.\<close>
  "base_order_line_total l = (let undiscounted = ql_undiscounted_base_unit_price l * of_int (ql_quantity l);
       price = ql_base_unit_price l * of_int (ql_quantity l) in ((undiscounted, undiscounted), (price, price)))"

section \<open>Discounts of an order, \<open>order/utils.py\<close>\<close>

definition get_total_order_discount :: "priced_order \<Rightarrow> decimal" where
  "get_total_order_discount q = min (sum_list (map qd_amount (qo_discounts q))) (snd (qo_undiscounted_total q))"

definition get_total_order_discount_excluding_shipping :: "priced_order \<Rightarrow> decimal" where
  "get_total_order_discount_excluding_shipping q =
     (let all_discounts = (case qo_voucher q of None \<Rightarrow> qo_discounts q
        | Some v \<Rightarrow> if vo_type v = SHIPPING then filter (\<lambda>d. qd_type d \<noteq> VOUCHER) (qo_discounts q) else qo_discounts q)
      in min (sum_list (map qd_amount all_discounts)) (snd (qo_undiscounted_total q)))"

definition get_order_discounts :: "priced_order \<Rightarrow> order_discount list" where
  "get_order_discounts q = filter (\<lambda>d. qd_type d = MANUAL) (qo_discounts q)"

definition create_order_discount_for_order ::
  "pricing \<Rightarrow> pk \<Rightarrow> string option \<Rightarrow> discount_value_type \<Rightarrow> decimal \<Rightarrow> priced_order \<Rightarrow> order_discount \<times> priced_order" where
  "create_order_discount_for_order pr k reason value_type value q =
     (let gross = snd (qo_undiscounted_total q);
          gross_total = apply_discount_to_value pr value value_type (sc_currency_code (qo_channel q)) gross;
          new_amount = channel_quantize pr (qo_channel q) (gross - gross_total);
          d = \<lparr>qd_pk = k, qd_type = MANUAL, qd_value_type = value_type, qd_value = value, qd_amount = new_amount, qd_reason = reason\<rparr>
      in (d, q\<lparr>qo_discounts := qo_discounts q @ [d]\<rparr>))"

definition remove_order_discount_from_order :: "order_discount \<Rightarrow> priced_order \<Rightarrow> priced_order" where
  "remove_order_discount_from_order d q = q\<lparr>qo_discounts := filter (\<lambda>x. qd_pk x \<noteq> qd_pk d) (qo_discounts q),
     qo_total := (fst (qo_total q) + qd_amount d, snd (qo_total q) + qd_amount d)\<rparr>"

definition times_taxed :: "taxed \<Rightarrow> int \<Rightarrow> taxed" where
  "times_taxed p n = (fst p * of_int n, snd p * of_int n)"

definition update_discount_for_order_line ::
  "pricing \<Rightarrow> string \<Rightarrow> string option \<Rightarrow> discount_value_type option \<Rightarrow> decimal option \<Rightarrow> priced_order_line \<Rightarrow> priced_order_line" where
  \<comment> \<open>\<open>value or current_value\<close> keeps the current value also for zero; without a type the discount is a percentage.\<close>
  "update_discount_for_order_line pr currency reason value_type value l =
     (let new_value = (if value \<in> {None, Some 0} then ql_unit_discount_value l else the value);
          new_type = (case value_type of None \<Rightarrow> ql_unit_discount_type l | Some t \<Rightarrow> Some t);
          l = (case reason of None \<Rightarrow> l | Some r \<Rightarrow> l\<lparr>ql_unit_discount_reason := Some r\<rparr>)
      in if ql_unit_discount_value l = new_value \<and> ql_unit_discount_type l = new_type then l
         else let undiscounted = ql_undiscounted_base_unit_price l;
                  base = apply_discount_to_value pr new_value (if new_type = Some FIXED then FIXED else PERCENTAGE) currency undiscounted;
                  unit_discount = undiscounted - base
              in l\<lparr>ql_unit_discount_amount := unit_discount, ql_unit_price := (base, base), ql_base_unit_price := base,
                   ql_unit_discount_type := new_type, ql_unit_discount_value := new_value,
                   ql_total_price := times_taxed (base, base) (ql_quantity l),
                   ql_undiscounted_unit_price := (base + unit_discount, base + unit_discount),
                   ql_undiscounted_total_price := times_taxed (base + unit_discount, base + unit_discount) (ql_quantity l)\<rparr>)"

definition remove_discount_from_order_line :: "priced_order_line \<Rightarrow> priced_order_line" where
  \<comment> \<open>The row: \<open>undiscounted_unit_price\<close> is set on the object, but is not among the fields that are saved.\<close>
  "remove_discount_from_order_line l = (let p = ql_undiscounted_base_unit_price l
     in l\<lparr>ql_unit_price := (p, p), ql_base_unit_price := p, ql_unit_discount_amount := 0, ql_unit_discount_value := 0,
          ql_unit_discount_reason := Some [], ql_total_price := times_taxed (p, p) (ql_quantity l)\<rparr>)"

definition invalidate_order_prices :: "priced_order \<Rightarrow> priced_order" where
  "invalidate_order_prices q = (if qo_status q \<notin> {DRAFT, UNCONFIRMED} then q else q\<lparr>qo_should_refresh_prices := True\<rparr>)"

definition get_order_country :: "priced_order \<Rightarrow> string" where
  "get_order_country q = get_active_country (qo_channel q) (qo_shipping_country q) (qo_billing_country q)"

definition update_order_display_gross_prices :: "tax_configuration \<Rightarrow> priced_order \<Rightarrow> priced_order" where
  "update_order_display_gross_prices tc q =
     q\<lparr>qo_display_gross_prices := get_display_gross_prices tc (country_configuration tc (get_order_country q))\<rparr>"

section \<open>\<open>tax/calculations/order.py\<close>\<close>

definition order_line_tax_rate_for :: "decimal \<Rightarrow> string \<Rightarrow> priced_order_line \<Rightarrow> decimal" where
  \<comment> \<open>The tax rate of a line; where the tax class was removed, the one that the line has stored.\<close>
  "order_line_tax_rate_for default_rate country_code l = (case ql_tax_class l of
     Some tc \<Rightarrow> get_tax_rate_for_tax_class (Some tc) default_rate country_code
   | None \<Rightarrow> (case (ql_tax_class_name l, ql_tax_rate l) of (Some n, Some r) \<Rightarrow> denormalize_tax_rate_from_db r | _ \<Rightarrow> default_rate))"

definition line_discount_share ::
  "pricing \<Rightarrow> sales_channel \<Rightarrow> decimal \<Rightarrow> decimal \<Rightarrow> decimal \<Rightarrow> bool \<Rightarrow> priced_order_line \<Rightarrow> price_error + decimal" where
  \<comment> \<open>The part of the discount of an order that a line gets; what is left for the last.\<close>
  "line_discount_share pr ch total_discount_amount order_total_price total_line_discounts is_last l =
     (if is_last then Inr (total_discount_amount - total_line_discounts)
      else and_then (divided (ql_base_unit_price l * of_int (ql_quantity l)) order_total_price) (\<lambda>rate.
        Inr (channel_quantize pr ch (ctx (rate * total_discount_amount)))))"

definition set_flat_rate_prices ::
  "pricing \<Rightarrow> sales_channel \<Rightarrow> decimal \<Rightarrow> bool \<Rightarrow> decimal \<Rightarrow> priced_order_line \<Rightarrow> price_error + priced_order_line" where
  \<comment> \<open>The end of the body of the loop: \<open>price\<close> is the price with discounts of one piece.\<close>
  "set_flat_rate_prices pr ch tax_rate prices_entered_with_tax price l =
     and_then (calculate_flat_rate_tax price tax_rate prices_entered_with_tax) (\<lambda>unit_price.
       and_then (calculate_flat_rate_tax (ql_undiscounted_base_unit_price l) tax_rate prices_entered_with_tax) (\<lambda>undiscounted_unit_price.
         let times = (\<lambda>p. (ctx (fst p * of_int (ql_quantity l)), ctx (snd p * of_int (ql_quantity l))))
         in Inr (l\<lparr>ql_unit_price := quantize_taxed pr ch unit_price,
              ql_undiscounted_unit_price := quantize_taxed pr ch undiscounted_unit_price,
              ql_total_price := quantize_taxed pr ch (times unit_price),
              ql_undiscounted_total_price := quantize_taxed pr ch (times undiscounted_unit_price),
              ql_tax_rate := Some (normalize_tax_rate_for_db tax_rate)\<rparr>)))"

fun flat_rate_order_lines ::
  "pricing \<Rightarrow> sales_channel \<Rightarrow> string \<Rightarrow> decimal \<Rightarrow> bool \<Rightarrow> decimal \<Rightarrow> decimal \<Rightarrow> decimal \<Rightarrow> priced_order_line list
   \<Rightarrow> price_error + priced_order_line list \<times> decimal list" where
  \<comment> \<open>The loop of \<open>update_taxes_for_order_lines\<close>, with what it has divided so far; also the parts it gave.\<close>
  "flat_rate_order_lines pr ch country_code default_rate with_tax total_discount order_total given [] = Inr ([], [])"
| "flat_rate_order_lines pr ch country_code default_rate with_tax total_discount order_total given (l # ls) =
     (if \<not> ql_has_variant l
      then and_then (flat_rate_order_lines pr ch country_code default_rate with_tax total_discount order_total given ls) (\<lambda>(ls', ds).
        Inr (l # ls', ds))
      else let tax_rate = order_line_tax_rate_for default_rate country_code l in
        if total_discount = 0
        then and_then (set_flat_rate_prices pr ch tax_rate with_tax (ql_base_unit_price l) l) (\<lambda>l'.
          and_then (flat_rate_order_lines pr ch country_code default_rate with_tax total_discount order_total given ls) (\<lambda>(ls', ds).
            Inr (l' # ls', ds)))
        else and_then (line_discount_share pr ch total_discount order_total given (ls = []) l) (\<lambda>discount_amount.
          and_then (divided (ql_base_unit_price l * of_int (ql_quantity l) - discount_amount) (of_int (ql_quantity l))) (\<lambda>price.
            and_then (set_flat_rate_prices pr ch tax_rate with_tax (max (channel_quantize pr ch price) 0) l) (\<lambda>l'.
              and_then (flat_rate_order_lines pr ch country_code default_rate with_tax total_discount order_total (given + discount_amount) ls)
                (\<lambda>(ls', ds). Inr (l' # ls', discount_amount # ds))))))"

definition undiscounted_subtotal :: "priced_order_line list \<Rightarrow> decimal" where
  "undiscounted_subtotal ls = sum_list (map (\<lambda>l. ql_undiscounted_base_unit_price l * of_int (ql_quantity l)) (filter ql_has_variant ls))"

definition update_taxes_for_order_lines ::
  "pricing \<Rightarrow> priced_order \<Rightarrow> priced_order_line list \<Rightarrow> string \<Rightarrow> decimal \<Rightarrow> bool
   \<Rightarrow> price_error + (priced_order_line list \<times> decimal list) \<times> decimal" where
  "update_taxes_for_order_lines pr q ls country_code default_rate with_tax =
     and_then (flat_rate_order_lines pr (qo_channel q) country_code default_rate with_tax
       (get_total_order_discount_excluding_shipping q) (base_order_subtotal ls) 0 ls)
       (\<lambda>r. Inr (r, undiscounted_subtotal ls))"

definition calculate_order_shipping :: "pricing \<Rightarrow> priced_order \<Rightarrow> decimal \<Rightarrow> bool \<Rightarrow> price_error + taxed" where
  "calculate_order_shipping pr q tax_rate with_tax =
     and_then (calculate_flat_rate_tax (qo_base_shipping_price q) tax_rate with_tax) (\<lambda>p. Inr (quantize_taxed pr (qo_channel q) p))"

definition calculate_order_total :: "pricing \<Rightarrow> priced_order \<Rightarrow> priced_order_line list \<Rightarrow> price_error + taxed \<times> priced_order" where
  \<comment> \<open>The total, and the order with the discounts that \<open>base_order_total\<close> has updated.\<close>
  "calculate_order_total pr q ls = and_then (base_order_total pr ls q) (\<lambda>(default_value, q).
     if default_value \<le> 0 then Inr (quantize_taxed pr (qo_channel q) (default_value, default_value), q)
     else let total = add_taxed (sum_taxed (map ql_total_price ls)) (qo_shipping_price q);
              undiscounted = snd (sum_taxed (map ql_undiscounted_total_price ls));
              total = (case find (\<lambda>d. qd_type d = MANUAL) (qo_discounts q) of None \<Rightarrow> total
                | Some d \<Rightarrow> if undiscounted < qd_amount d
                    then (fst total - (qd_amount d - undiscounted), snd total - (qd_amount d - undiscounted)) else total)
          in Inr (quantize_taxed pr (qo_channel q) (if snd total < 0 then (0, 0) else total), q))"

definition order_shipping_rate :: "priced_order \<Rightarrow> decimal \<Rightarrow> string \<Rightarrow> decimal" where
  "order_shipping_rate q default_rate country_code = (case qo_shipping_method_tax_class q of
     Some tc \<Rightarrow> get_tax_rate_for_tax_class (Some tc) default_rate country_code
   | None \<Rightarrow> (case (qo_shipping_tax_class_name q, qo_shipping_tax_rate q) of
       (Some n, Some r) \<Rightarrow> denormalize_tax_rate_from_db r | _ \<Rightarrow> default_rate))"

definition update_order_prices_with_flat_rates ::
  "pricing \<Rightarrow> (string \<times> decimal) list \<Rightarrow> bool \<Rightarrow> priced_order \<Rightarrow> priced_order_line list
   \<Rightarrow> price_error + priced_order \<times> priced_order_line list" where
  "update_order_prices_with_flat_rates pr rates with_tax q ls =
     (let country_code = get_order_country q; default_rate = default_tax_rate rates country_code
      in and_then (update_taxes_for_order_lines pr q ls country_code default_rate with_tax) (\<lambda>((ls, ds), undiscounted).
           let rate = order_shipping_rate q default_rate country_code
           in and_then (calculate_order_shipping pr q rate with_tax) (\<lambda>shipping_price.
                let q = q\<lparr>qo_shipping_price := shipping_price, qo_shipping_tax_rate := Some (normalize_tax_rate_for_db rate),
                      qo_undiscounted_total := (undiscounted + qo_base_shipping_price q, undiscounted + qo_base_shipping_price q)\<rparr>
                in and_then (calculate_order_total pr q ls) (\<lambda>(total, q). Inr (q\<lparr>qo_total := total\<rparr>, ls)))))"

section \<open>\<open>order/calculations.py\<close>\<close>

text \<open>The functions of a plugin may also raise \<open>TaxError\<close>, \<open>Inl\<close> here.\<close>

record order_price_plugin =
  pgo_line_unit :: "priced_order \<Rightarrow> priced_order_line \<Rightarrow> taxed \<times> taxed \<Rightarrow> unit + (taxed \<times> taxed) option"   \<comment> \<open>undiscounted, discounted\<close>
  pgo_line_total :: "priced_order \<Rightarrow> priced_order_line \<Rightarrow> taxed \<times> taxed \<Rightarrow> unit + (taxed \<times> taxed) option"
  pgo_line_tax_rate :: "priced_order \<Rightarrow> priced_order_line \<Rightarrow> decimal \<Rightarrow> unit + decimal option"
  pgo_shipping :: "priced_order \<Rightarrow> taxed \<Rightarrow> unit + taxed option"
  pgo_shipping_tax_rate :: "priced_order \<Rightarrow> decimal \<Rightarrow> unit + decimal option"
  pgo_total :: "priced_order \<Rightarrow> priced_order_line list \<Rightarrow> taxed \<Rightarrow> taxed option"

definition try_plugins :: "('p \<Rightarrow> 'v \<Rightarrow> unit + 'v option) \<Rightarrow> 'v \<Rightarrow> 'p list \<Rightarrow> unit + 'v" where
  "try_plugins method default_value plugins = fold (\<lambda>p r. and_then r (\<lambda>v. and_then (method p v) (\<lambda>x.
     Inr (case x of Some v' \<Rightarrow> v' | None \<Rightarrow> v)))) plugins (Inr default_value)"

definition quantize_both :: "pricing \<Rightarrow> sales_channel \<Rightarrow> taxed \<times> taxed \<Rightarrow> taxed \<times> taxed" where
  "quantize_both pr ch = map_prod (quantize_taxed pr ch) (quantize_taxed pr ch)"

definition recalculate_order_line ::
  "pricing \<Rightarrow> order_price_plugin list \<Rightarrow> priced_order \<Rightarrow> priced_order_line \<Rightarrow> priced_order_line \<times> taxed" where
  \<comment> \<open>The body of the loop of \<open>_recalculate_order_prices\<close>, and what it adds to \<open>undiscounted_subtotal\<close>.  A \<open>TaxError\<close> keeps
     what was set before it.\<close>
  "recalculate_order_line pr plugins q l =
     (if \<not> ql_has_variant l then (l, (0, 0))
      else let ub = ql_undiscounted_base_unit_price l; b = ql_base_unit_price l
        in case try_plugins (\<lambda>p. pgo_line_unit p q l) ((ub, ub), (b, b)) plugins of
          Inl _ \<Rightarrow> (l, (0, 0))
        | Inr line_unit \<Rightarrow> (let line_unit = quantize_both pr (qo_channel q) line_unit;
              l = l\<lparr>ql_undiscounted_unit_price := fst line_unit, ql_unit_price := snd line_unit\<rparr>
            in case try_plugins (\<lambda>p. pgo_line_total p q l) (base_order_line_total l) plugins of
              Inl _ \<Rightarrow> (l, (0, 0))
            | Inr price \<Rightarrow> (let price = quantize_both pr (qo_channel q) price;
                  l = l\<lparr>ql_undiscounted_total_price := fst price, ql_total_price := snd price\<rparr>
                in case try_plugins (\<lambda>p. pgo_line_tax_rate p q l) (calculate_tax_rate (fst line_unit)) plugins of
                  Inl _ \<Rightarrow> (l, fst price)
                | Inr r \<Rightarrow> (l\<lparr>ql_tax_rate := Some (quantize 4 r)\<rparr>, fst price))))"

definition update_order_discounts_and_base_undiscounted_total ::
  "pricing \<Rightarrow> priced_order_line list \<Rightarrow> priced_order \<Rightarrow> price_error + priced_order" where
  "update_order_discounts_and_base_undiscounted_total pr ls q = and_then (base_order_total pr ls q) (\<lambda>(_, q).
     let undiscounted_total = base_order_subtotal ls + qo_base_shipping_price q
     in Inr (q\<lparr>qo_undiscounted_total := (undiscounted_total, undiscounted_total)\<rparr>))"

definition recalculate_order_shipping :: "pricing \<Rightarrow> order_price_plugin list \<Rightarrow> priced_order \<Rightarrow> priced_order" where
  "recalculate_order_shipping pr plugins q =
     (let p = channel_quantize pr (qo_channel q) (qo_base_shipping_price q)
      in case try_plugins (\<lambda>x. pgo_shipping x q) (p, p) plugins of
        Inl _ \<Rightarrow> q
      | Inr price \<Rightarrow> (let q = q\<lparr>qo_shipping_price := quantize_taxed pr (qo_channel q) price\<rparr>
          in case try_plugins (\<lambda>x. pgo_shipping_tax_rate x q) (calculate_tax_rate (qo_shipping_price q)) plugins of
            Inl _ \<Rightarrow> q | Inr r \<Rightarrow> q\<lparr>qo_shipping_tax_rate := Some (quantize 4 r)\<rparr>))"

definition manager_order_total ::
  "pricing \<Rightarrow> order_price_plugin list \<Rightarrow> priced_order \<Rightarrow> priced_order_line list \<Rightarrow> price_error + taxed \<times> priced_order" where
  "manager_order_total pr plugins q ls = and_then (base_order_total pr ls q) (\<lambda>(default_value, q).
     if default_value \<le> 0 then Inr (quantize_taxed pr (qo_channel q) (default_value, default_value), q)
     else Inr (quantize_taxed pr (qo_channel q) (run_method_on_plugins (\<lambda>p. pgo_total p q ls) (default_value, default_value) plugins), q))"

definition recalculate_order_prices ::
  "pricing \<Rightarrow> order_price_plugin list \<Rightarrow> priced_order \<Rightarrow> priced_order_line list
   \<Rightarrow> price_error + priced_order \<times> priced_order_line list" where
  "recalculate_order_prices pr plugins q ls = and_then (update_order_discounts_and_base_undiscounted_total pr ls q) (\<lambda>q.
     let rs = map (recalculate_order_line pr plugins q) ls; ls = map fst rs;
         q = recalculate_order_shipping pr plugins q;
         q = q\<lparr>qo_undiscounted_total := add_taxed (sum_taxed (map snd rs)) (qo_base_shipping_price q, qo_base_shipping_price q)\<rparr>
     in and_then (manager_order_total pr plugins q ls) (\<lambda>(total, q). Inr (q\<lparr>qo_total := total\<rparr>, ls)))"

fun apply_tax_data_to_lines ::
  "priced_order_line list \<Rightarrow> tax_line_data list \<Rightarrow> price_error + priced_order_line list \<times> taxed" where
  "apply_tax_data_to_lines (l # ls) (x # xs) =
     (let p = (tx_total_net_amount x, tx_total_gross_amount x)
      in and_then (divided (fst p) (of_int (ql_quantity l))) (\<lambda>net. and_then (divided (snd p) (of_int (ql_quantity l))) (\<lambda>gross.
        and_then (apply_tax_data_to_lines ls xs) (\<lambda>(ls, subtotal). Inr
          (l\<lparr>ql_total_price := p, ql_unit_price := (net, gross), ql_tax_rate := Some (normalize_tax_rate_for_db (tx_tax_rate x))\<rparr> # ls,
           add_taxed p subtotal)))))"
| "apply_tax_data_to_lines ls xs = Inr (ls, (0, 0))"

definition apply_order_tax_data ::
  "tax_data option \<Rightarrow> priced_order \<Rightarrow> priced_order_line list \<Rightarrow> price_error + priced_order \<times> priced_order_line list" where
  \<comment> \<open>\<open>_apply_tax_data\<close>\<close>
  "apply_order_tax_data d q ls = (case d of None \<Rightarrow> Inr (q, ls)
     | Some d \<Rightarrow> (let shipping_price = (td_shipping_price_net_amount d, td_shipping_price_gross_amount d)
         in and_then (apply_tax_data_to_lines ls (td_lines d)) (\<lambda>(ls, subtotal).
              Inr (q\<lparr>qo_shipping_price := shipping_price, qo_shipping_tax_rate := Some (normalize_tax_rate_for_db (td_shipping_tax_rate d)),
                     qo_total := add_taxed shipping_price subtotal\<rparr>, ls))))"

definition remove_order_tax :: "priced_order \<Rightarrow> priced_order_line list \<Rightarrow> priced_order \<times> priced_order_line list" where
  \<comment> \<open>\<open>_remove_tax\<close>\<close>
  "remove_order_tax q ls =
     (q\<lparr>qo_total := untaxed (qo_total q), qo_undiscounted_total := untaxed (qo_undiscounted_total q),
        qo_shipping_price := untaxed (qo_shipping_price q), qo_shipping_tax_rate := Some 0\<rparr>,
      map (\<lambda>l. l\<lparr>ql_unit_price := untaxed (ql_unit_price l), ql_undiscounted_unit_price := untaxed (ql_undiscounted_unit_price l),
        ql_total_price := untaxed (ql_total_price l), ql_undiscounted_total_price := untaxed (ql_undiscounted_total_price l),
        ql_tax_rate := Some 0\<rparr>) ls)"

definition base_price_order_line :: "pricing \<Rightarrow> sales_channel \<Rightarrow> priced_order_line \<Rightarrow> priced_order_line" where
  \<comment> \<open>The body of the loop of \<open>_get_order_base_prices\<close>.\<close>
  "base_price_order_line pr ch l = (if \<not> ql_has_variant l then l
     else let p = channel_quantize pr ch (ql_base_unit_price l); u = channel_quantize pr ch (ql_undiscounted_base_unit_price l);
              price = quantize_both pr ch (base_order_line_total l)
       in l\<lparr>ql_undiscounted_unit_price := (u, u), ql_unit_price := (p, p), ql_undiscounted_total_price := fst price,
            ql_total_price := snd price, ql_tax_rate := Some (calculate_tax_rate (p, p))\<rparr>)"

definition get_order_base_prices ::
  "pricing \<Rightarrow> priced_order \<Rightarrow> priced_order_line list \<Rightarrow> price_error + priced_order \<times> priced_order_line list" where
  "get_order_base_prices pr q ls =
     (let ls = map (base_price_order_line pr (qo_channel q)) ls;
          undiscounted = sum_taxed (map ql_undiscounted_total_price (filter ql_has_variant ls));
          shipping_price = quantize_taxed pr (qo_channel q) (qo_base_shipping_price q, qo_base_shipping_price q);
          q = q\<lparr>qo_shipping_price := shipping_price, qo_shipping_tax_rate := Some (calculate_tax_rate shipping_price),
                qo_undiscounted_total := add_taxed undiscounted shipping_price\<rparr>
      in and_then (base_order_total pr ls q) (\<lambda>(total, q).
           Inr (q\<lparr>qo_total := quantize_taxed pr (qo_channel q) (total, total)\<rparr>, ls)))"

record order_price_env =
  oe_pricing :: pricing
  oe_plugins :: "order_price_plugin list"
  oe_get_taxes_for_order :: "priced_order \<Rightarrow> tax_data option"
  oe_rates :: "(string \<times> decimal) list"
  oe_tax_configuration :: tax_configuration

definition calculate_and_add_order_tax ::
  "order_price_env \<Rightarrow> tax_strategy \<Rightarrow> bool \<Rightarrow> priced_order \<Rightarrow> priced_order_line list \<Rightarrow> price_error + priced_order \<times> priced_order_line list" where
  "calculate_and_add_order_tax e strategy with_tax q ls = (case strategy of
     TAX_APP \<Rightarrow> and_then (recalculate_order_prices (oe_pricing e) (oe_plugins e) q ls) (\<lambda>(q, ls).
       apply_order_tax_data (oe_get_taxes_for_order e q) q ls)
   | FLAT_RATES \<Rightarrow> update_order_prices_with_flat_rates (oe_pricing e) (oe_rates e) with_tax q ls)"

definition refresh_order_prices ::
  "order_price_env \<Rightarrow> priced_order \<Rightarrow> priced_order_line list \<Rightarrow> price_error + priced_order \<times> priced_order_line list" where
  \<comment> \<open>The branches of \<open>fetch_order_prices_if_expired\<close> on the tax configuration.\<close>
  "refresh_order_prices e q ls =
     (let tc = oe_tax_configuration e; country = country_configuration tc (get_order_country q);
          strategy = get_tax_calculation_strategy tc country; with_tax = tcf_prices_entered_with_tax tc;
          should_charge_tax = (get_charge_taxes tc country \<and> \<not> qo_tax_exemption q)
      in if with_tax
         then and_then (calculate_and_add_order_tax e strategy with_tax q ls) (\<lambda>(q, ls).
           Inr (if should_charge_tax then (q, ls) else remove_order_tax q ls))
         else if should_charge_tax then calculate_and_add_order_tax e strategy with_tax q ls
         else get_order_base_prices (oe_pricing e) q ls)"

definition fetch_order_prices_if_expired ::
  "order_price_env \<Rightarrow> bool \<Rightarrow> priced_order \<Rightarrow> priced_order_line list \<Rightarrow> price_error + priced_order \<times> priced_order_line list" where
  "fetch_order_prices_if_expired e force_update q ls =
     (if qo_status q \<notin> {DRAFT, UNCONFIRMED} then Inr (q, ls)
      else if \<not> force_update \<and> \<not> qo_should_refresh_prices q then Inr (q, ls)
      else refresh_order_prices e (q\<lparr>qo_should_refresh_prices := False\<rparr>) ls)"

definition find_order_line :: "priced_order_line list \<Rightarrow> priced_order_line \<Rightarrow> priced_order_line" where
  "find_order_line ls l = (case find (\<lambda>x. ql_pk x = ql_pk l) ls of Some x \<Rightarrow> x | None \<Rightarrow> l)"

definition order_line_unit ::
  "order_price_env \<Rightarrow> bool \<Rightarrow> priced_order \<Rightarrow> priced_order_line list \<Rightarrow> priced_order_line \<Rightarrow> price_error + taxed \<times> taxed" where
  "order_line_unit e force_update q ls l = and_then (fetch_order_prices_if_expired e force_update q ls) (\<lambda>(q, ls).
     let l = find_order_line ls l in Inr (quantize_both (oe_pricing e) (qo_channel q) (ql_undiscounted_unit_price l, ql_unit_price l)))"

definition order_line_total ::
  "order_price_env \<Rightarrow> bool \<Rightarrow> priced_order \<Rightarrow> priced_order_line list \<Rightarrow> priced_order_line \<Rightarrow> price_error + taxed \<times> taxed" where
  "order_line_total e force_update q ls l = and_then (fetch_order_prices_if_expired e force_update q ls) (\<lambda>(q, ls).
     let l = find_order_line ls l in Inr (quantize_both (oe_pricing e) (qo_channel q) (ql_undiscounted_total_price l, ql_total_price l)))"

definition order_shipping :: "order_price_env \<Rightarrow> bool \<Rightarrow> priced_order \<Rightarrow> priced_order_line list \<Rightarrow> price_error + taxed" where
  "order_shipping e force_update q ls = and_then (fetch_order_prices_if_expired e force_update q ls) (\<lambda>(q, ls).
     Inr (quantize_taxed (oe_pricing e) (qo_channel q) (qo_shipping_price q)))"

definition order_subtotal :: "order_price_env \<Rightarrow> bool \<Rightarrow> priced_order \<Rightarrow> priced_order_line list \<Rightarrow> price_error + taxed" where
  "order_subtotal e force_update q ls = and_then (fetch_order_prices_if_expired e force_update q ls) (\<lambda>(q, ls).
     Inr (quantize_taxed (oe_pricing e) (qo_channel q) (sum_taxed (map ql_total_price ls))))"

definition order_total :: "order_price_env \<Rightarrow> bool \<Rightarrow> priced_order \<Rightarrow> priced_order_line list \<Rightarrow> price_error + taxed" where
  "order_total e force_update q ls = and_then (fetch_order_prices_if_expired e force_update q ls) (\<lambda>(q, ls).
     Inr (quantize_taxed (oe_pricing e) (qo_channel q) (qo_total q)))"

definition order_undiscounted_total :: "order_price_env \<Rightarrow> bool \<Rightarrow> priced_order \<Rightarrow> priced_order_line list \<Rightarrow> price_error + taxed" where
  "order_undiscounted_total e force_update q ls = and_then (fetch_order_prices_if_expired e force_update q ls) (\<lambda>(q, ls).
     Inr (quantize_taxed (oe_pricing e) (qo_channel q) (qo_undiscounted_total q)))"

section \<open>The parts of a discount\<close>

lemma flat_rate_parts:
  assumes "flat_rate_order_lines pr ch c d with_tax total_discount price_sum given ls = Inr (ls', ds)"
    and "total_discount \<noteq> 0" and "ls \<noteq> []" and "ql_has_variant (last ls)"
  shows "given + sum_list ds = total_discount"
  using assms
proof (induction ls arbitrary: given ls' ds)
  case (Cons l ls)
  show ?case
  proof (cases "ls = []")
    case True
    with Cons.prems show ?thesis by (auto simp: Let_def line_discount_share_def)
  next
    case False
    with Cons.prems obtain ls'' ds'' x where
      "flat_rate_order_lines pr ch c d with_tax total_discount price_sum (given + x) ls = Inr (ls'', ds'')"
      "ds = ds'' \<and> x = 0 \<or> ds = x # ds''"
      by (auto simp: Let_def split: if_splits) (metis add_0_right)
    with Cons.IH [of "given + x" ls'' ds''] Cons.prems(2,4) False show ?thesis by (auto simp: add.assoc)
  qed
qed simp


section \<open>A refresh is done once\<close>

abbreviation same_flags :: "priced_order \<Rightarrow> priced_order \<Rightarrow> bool" where
  "same_flags q q' \<equiv> qo_should_refresh_prices q' = qo_should_refresh_prices q \<and> qo_status q' = qo_status q"

lemma base_order_total_flags: "base_order_total pr ls q = Inr (t, q') \<Longrightarrow> same_flags q q'"
  by (auto simp: base_order_total_def split: prod.splits)

lemma refresh_flags:
  assumes "refresh_order_prices e q ls = Inr (q', ls')"
  shows "same_flags q q'"
proof -
  have flat: "same_flags q1 q2" if "update_order_prices_with_flat_rates pr rates with_tax q1 ls1 = Inr (q2, ls2)"
    for pr rates with_tax q1 q2 ls1 ls2
    using that by (auto simp: update_order_prices_with_flat_rates_def Let_def calculate_order_total_def dest!: base_order_total_flags
      split: prod.splits if_splits option.splits)
  have recalc: "same_flags q1 q2" if "recalculate_order_prices pr plugins q1 ls1 = Inr (q2, ls2)" for pr plugins q1 q2 ls1 ls2
    using that by (auto simp: recalculate_order_prices_def update_order_discounts_and_base_undiscounted_total_def Let_def
      manager_order_total_def recalculate_order_shipping_def dest!: base_order_total_flags
      split: prod.splits if_splits sum.splits)
  have taxed: "same_flags q1 q2" if "calculate_and_add_order_tax e strategy with_tax q1 ls1 = Inr (q2, ls2)" for strategy with_tax q1 q2 ls1 ls2
    using that by (auto simp: calculate_and_add_order_tax_def apply_order_tax_data_def Let_def dest!: flat recalc
      split: tax_strategy.splits option.splits prod.splits)
  have base: "same_flags q1 q2" if "get_order_base_prices pr q1 ls1 = Inr (q2, ls2)" for pr q1 q2 ls1 ls2
    using that by (auto simp: get_order_base_prices_def Let_def dest!: base_order_total_flags split: prod.splits)
  show ?thesis using assms
    by (auto simp: refresh_order_prices_def Let_def remove_order_tax_def dest!: taxed base split: if_splits)
qed

text \<open>
  After the prices of an order were fetched, fetching them again without force changes nothing, until the order is
  invalidated; and the prices of an order that is neither a draft nor unconfirmed never change, forced or not.
\<close>
lemma prices_fetched_once:
  assumes "fetch_order_prices_if_expired e force_update q ls = Inr (q', ls')"
  shows "fetch_order_prices_if_expired e False q' ls' = Inr (q', ls')
    \<and> (qo_status q \<in> {DRAFT, UNCONFIRMED} \<or> q' = q \<and> ls' = ls \<and> fetch_order_prices_if_expired e True q' ls' = Inr (q', ls'))"
  using assms refresh_flags [of e "q\<lparr>qo_should_refresh_prices := False\<rparr>" ls q' ls']
  by (auto simp: fetch_order_prices_if_expired_def split: if_splits)

section \<open>Examples\<close>

definition ex_priced_order_line :: "pk \<Rightarrow> int \<Rightarrow> bool \<Rightarrow> priced_order_line" where
  "ex_priced_order_line k quantity has_variant = \<lparr>ql_pk = k, ql_quantity = quantity, ql_has_variant = has_variant, ql_tax_class = None,
     ql_tax_class_name = None, ql_tax_rate = None, ql_base_unit_price = 10, ql_undiscounted_base_unit_price = 10,
     ql_unit_price = (10, 10), ql_undiscounted_unit_price = (10, 10), ql_total_price = (0, 0), ql_undiscounted_total_price = (0, 0),
     ql_unit_discount_amount = 0, ql_unit_discount_type = None, ql_unit_discount_value = 0, ql_unit_discount_reason = None\<rparr>"

definition ex_order_discount :: "discount_value_type \<Rightarrow> decimal \<Rightarrow> decimal \<Rightarrow> order_discount" where
  "ex_order_discount t value amount =
     \<lparr>qd_pk = 1, qd_type = MANUAL, qd_value_type = t, qd_value = value, qd_amount = amount, qd_reason = None\<rparr>"

definition ex_priced_order :: "order_discount list \<Rightarrow> priced_order" where
  "ex_priced_order ds = \<lparr>qo_status = DRAFT, qo_channel = ex_channel, qo_should_refresh_prices = True, qo_tax_exemption = False,
     qo_shipping_country = None, qo_billing_country = None, qo_voucher = None, qo_base_shipping_price = 0,
     qo_shipping_method_tax_class = None, qo_shipping_tax_class_name = None, qo_shipping_tax_rate = None,
     qo_shipping_price = (0, 0), qo_total = (10, 10), qo_undiscounted_total = (100, 100), qo_discounts = ds, qo_display_gross_prices = True\<rparr>"

definition ex_order_env :: order_price_env where
  "ex_order_env = \<lparr>oe_pricing = ex_pricing, oe_plugins = [], oe_get_taxes_for_order = (\<lambda>q. None), oe_rates = [],
     oe_tax_configuration = ex_tax_configuration True False\<rparr>"

lemma ex_flat_tax: "calculate_flat_rate_tax x 0 False = Inr (x, ctx x)"
  by (simp add: calculate_flat_rate_tax_def)

lemmas ex_order_defs = ex_priced_order_line_def ex_order_discount_def ex_priced_order_def ex_order_env_def ex_tax_configuration_def

lemma ex_order_fields [simp]:
  "ql_quantity (ex_priced_order_line k n v) = n" "ql_has_variant (ex_priced_order_line k n v) = v"
  "ql_tax_class (ex_priced_order_line k n v) = None" "ql_tax_class_name (ex_priced_order_line k n v) = None"
  "ql_base_unit_price (ex_priced_order_line k n v) = 10" "ql_undiscounted_base_unit_price (ex_priced_order_line k n v) = 10"
  "qo_status (ex_priced_order ds) = DRAFT" "qo_channel (ex_priced_order ds) = ex_channel" "qo_discounts (ex_priced_order ds) = ds"
  "qo_shipping_country (ex_priced_order ds) = None" "qo_billing_country (ex_priced_order ds) = None"
  "qo_tax_exemption (ex_priced_order ds) = False" "qo_should_refresh_prices (ex_priced_order ds)" "qo_voucher (ex_priced_order ds) = None"
  "qo_undiscounted_total (ex_priced_order ds) = (100, 100)" "qo_base_shipping_price (ex_priced_order ds) = 0"
  "qo_shipping_method_tax_class (ex_priced_order ds) = None" "qo_shipping_tax_class_name (ex_priced_order ds) = None"
  "qd_type (ex_order_discount t x a) = MANUAL" "qd_value_type (ex_order_discount t x a) = t" "qd_value (ex_order_discount t x a) = x"
  "qd_amount (ex_order_discount t x a) = a" "sc_currency_code ex_channel = ''USD''"
  by (simp_all add: ex_priced_order_line_def ex_priced_order_def ex_order_discount_def ex_channel_def)

lemma ex_usd [simp]: "quantize_price (pr_precision ex_pricing) x ''USD'' = quantize 2 x"
  using ex_quantize [of x] by simp

lemma ex_order_env [simp]:
  "oe_pricing ex_order_env = ex_pricing" "oe_rates ex_order_env = []" "tcf_prices_entered_with_tax (oe_tax_configuration ex_order_env) = False"
  "get_charge_taxes (oe_tax_configuration ex_order_env) (country_configuration (oe_tax_configuration ex_order_env) c)"
  "get_tax_calculation_strategy (oe_tax_configuration ex_order_env) (country_configuration (oe_tax_configuration ex_order_env) c) = FLAT_RATES"
  by (simp_all add: ex_order_env_def ex_tax_configuration_def country_configuration_def get_charge_taxes_def get_tax_calculation_strategy_def)

lemma ex_decimals [simp]:
  "ctx (1 / 2) = 1 / 2" "ctx (19 / 2) = 19 / 2" "quantize 2 (19 / 2) = 19 / 2"
  using ctx_exact [of 2 "1 / 2"] ctx_exact [of 2 "19 / 2"] by (simp_all add: quantize_def round_half_even_def Let_def)

lemma ex_divided [simp]: "divided 10 20 = Inr (1 / 2)" "divided 19 2 = Inr (19 / 2)" "divided 5 1 = Inr 5"
  by (simp_all add: divided_def dec_div_def)

lemmas flat_rate_order_defs = update_order_prices_with_flat_rates_def update_taxes_for_order_lines_def line_discount_share_def
  set_flat_rate_prices_def order_line_tax_rate_for_def order_shipping_rate_def calculate_order_shipping_def calculate_order_total_def
  undiscounted_subtotal_def base_order_subtotal_def base_order_total_def discounted_prices_def get_total_order_discount_excluding_shipping_def
  fetch_order_prices_if_expired_def refresh_order_prices_def calculate_and_add_order_tax_def default_tax_rate_def ex_flat_tax Let_def
  quantize_taxed_def add_taxed_def normalize_tax_rate_for_db_def sum_taxed_def


lemma prices_fetched_once_witness:
  "map_sum (\<lambda>_. ()) (\<lambda>(q, ls). fetch_order_prices_if_expired ex_order_env False q ls = Inr (q, ls))
     (fetch_order_prices_if_expired ex_order_env False (ex_priced_order []) []) = Inr True"
proof -
  obtain q ls where eval: "fetch_order_prices_if_expired ex_order_env False (ex_priced_order []) [] = Inr (q, ls)"
    by (simp add: flat_rate_order_defs)
  show ?thesis using prices_fetched_once [OF eval] by (simp add: eval)
qed

text \<open>
  The flat rates read the amounts that the discounts had at the last refresh, and only the total refreshes them.  An order
  with one piece for 10 and a discount of 10 percent, changed to two pieces, costs 19, with a discount of 2; when it is
  refreshed again, 18.
\<close>

lemma flat_rates_use_old_discount:
  "map_sum (\<lambda>_. ()) (\<lambda>(q, ls). (qo_total q, map qd_amount (qo_discounts q)))
     (fetch_order_prices_if_expired ex_order_env False (ex_priced_order [ex_order_discount PERCENTAGE 10 1])
       [ex_priced_order_line 1 2 True]) = Inr ((19, 19), [2])"
proof -
  have "apply_discount_to_value ex_pricing 10 PERCENTAGE ''USD'' x = x - of_int \<lfloor>x * 10 + 1 / 2\<rfloor> / 100" for x
    by (simp add: apply_discount_to_value_def ex_pricing_def)
  then have percent: "apply_discount_to_value ex_pricing 10 PERCENTAGE ''USD'' 20 = 18" 
    "apply_discount_to_value ex_pricing 10 PERCENTAGE ''USD'' 0 = 0" by (simp_all add: floor_eq_iff)
  show ?thesis by (simp add: flat_rate_order_defs percent stored_amount_def)
qed

text \<open>
  When the variant of the last line was deleted, the loop skips that line, and its part of the discount is not subtracted
  from any line: of a discount of 10 on two lines, 5 are.
\<close>

lemma deleted_variant_keeps_its_part:
  "map_sum (\<lambda>_. ()) (snd \<circ> fst) (update_taxes_for_order_lines ex_pricing (ex_priced_order [ex_order_discount FIXED 10 10])
     [ex_priced_order_line 1 1 True, ex_priced_order_line 2 1 False] ''US'' 0 False) = Inr [5]"
  by (simp add: flat_rate_order_defs)

end
