(* ===== verification/Gift_Cards.thy ===== *)
theory Gift_Cards
  imports Order_Models
begin

text \<open>
  Paying with the gift cards of a checkout: \<open>add_gift_cards_to_order\<close>, \<open>update_gift_card_balance\<close>
  and \<open>set_gift_card_user\<close> of \<open>saleor/order/utils.py\<close>.  Amounts carry their currency, because comparing
  or subtracting \<open>Money\<close> of two currencies raises \<open>ValueError\<close>.
\<close>

section \<open>Rows\<close>

record money =
  m_amount :: decimal
  m_currency :: string

definition zero_money :: "string \<Rightarrow> money" where
  "zero_money c = \<lparr>m_amount = 0, m_currency = c\<rparr>"

record gift_card =
  gc_pk :: pk
  gc_code :: string
  gc_currency :: string
  gc_current_balance_amount :: decimal
  gc_last_used_on :: "time option"
  gc_used_by :: "pk option"
  gc_used_by_email :: "string option"
  gc_search_index_dirty :: bool

record user =
  u_pk :: pk
  u_email :: string

record gift_card_event =
  ge_gift_card :: pk
  ge_order :: pk
  ge_current_balance :: decimal
  ge_old_current_balance :: decimal

record gift_card_tables =
  gift_cards :: "gift_card list"
  users :: "user list"
  checkout_gift_cards :: "(pk \<times> pk) list"   \<comment> \<open>(checkout, gift card)\<close>
  order_gift_cards :: "(pk \<times> pk) list"      \<comment> \<open>(order, gift card)\<close>
  gift_card_events :: "gift_card_event list"

definition current_balance :: "gift_card \<Rightarrow> money" where
  "current_balance g = \<lparr>m_amount = gc_current_balance_amount g, m_currency = gc_currency g\<rparr>"

section \<open>Operations\<close>

definition update_gift_card_balance :: "gift_card \<Rightarrow> money \<Rightarrow> error + gift_card \<times> money \<times> (pk \<times> decimal)" where
  \<comment> \<open>The card, what is left, and what is appended to \<open>balance_data\<close>.\<close>
  "update_gift_card_balance g total_price_left =
     (if m_currency total_price_left \<noteq> gc_currency g then Inl Value_Error
      else let previous_balance = gc_current_balance_amount g
        in if m_amount total_price_left < gc_current_balance_amount g
           then Inr (g\<lparr>gc_current_balance_amount := gc_current_balance_amount g - m_amount total_price_left\<rparr>,
                     zero_money (m_currency total_price_left), (gc_pk g, previous_balance))
           else Inr (g\<lparr>gc_current_balance_amount := 0\<rparr>,
                     total_price_left\<lparr>m_amount := m_amount total_price_left - gc_current_balance_amount g\<rparr>,
                     (gc_pk g, previous_balance)))"

definition set_gift_card_user :: "user list \<Rightarrow> pk option \<Rightarrow> string option \<Rightarrow> gift_card \<Rightarrow> gift_card" where
  "set_gift_card_user us used_by_user used_by_email g =
     g\<lparr>gc_used_by := (case used_by_user of Some u \<Rightarrow> Some u
                      | None \<Rightarrow> map_option u_pk (find (\<lambda>u. Some (u_email u) = used_by_email) us)),
       gc_used_by_email := used_by_email, gc_search_index_dirty := True\<rparr>"

fun gift_cards_loop ::
  "time \<Rightarrow> user list \<Rightarrow> pk option \<Rightarrow> string option \<Rightarrow> money \<Rightarrow> gift_card list
   \<Rightarrow> error + gift_card list \<times> (pk \<times> decimal) list" where
  \<comment> \<open>The cards to update and \<open>balance_data\<close>.\<close>
  "gift_cards_loop t us u em total_price_left [] = Inr ([], [])"
| "gift_cards_loop t us u em total_price_left (g # gs) =
     (if 0 < m_amount total_price_left then
        (case update_gift_card_balance g total_price_left of Inl er \<Rightarrow> Inl er
         | Inr (g', left, d) \<Rightarrow>
             (case gift_cards_loop t us u em left gs of Inl er \<Rightarrow> Inl er
              | Inr (gs', ds) \<Rightarrow> Inr ((set_gift_card_user us u em g')\<lparr>gc_last_used_on := Some t\<rparr> # gs', d # ds)))
      else gift_cards_loop t us u em total_price_left gs)"

definition cards_of_checkout :: "env \<Rightarrow> gift_card_tables \<Rightarrow> pk \<Rightarrow> gift_card list" where
  \<comment> \<open>\<open>checkout.gift_cards\<close>, in the order of the model: by code.\<close>
  "cards_of_checkout e T checkout =
     sort_key (slug_rank e \<circ> gc_code) (filter (\<lambda>g. (checkout, gc_pk g) \<in> set (checkout_gift_cards T)) (gift_cards T))"

definition card_update :: "gift_card \<Rightarrow> pk \<times> (gift_card \<Rightarrow> gift_card)" where
  \<comment> \<open>An object of \<open>bulk_update\<close> with the fields that are saved (the search index is marked in the loop).\<close>
  "card_update g = (gc_pk g, \<lambda>r. r\<lparr>gc_current_balance_amount := gc_current_balance_amount g,
     gc_last_used_on := gc_last_used_on g, gc_used_by := gc_used_by g, gc_used_by_email := gc_used_by_email g,
     gc_search_index_dirty := gc_search_index_dirty g\<rparr>)"

definition used_events :: "pk \<Rightarrow> gift_card list \<Rightarrow> (pk \<times> decimal) list \<Rightarrow> gift_card_event list" where
  "used_events order_pk gs ds = map (\<lambda>(g, d). \<lparr>ge_gift_card = fst d, ge_order = order_pk,
     ge_current_balance = gc_current_balance_amount g, ge_old_current_balance = snd d\<rparr>) (zip gs ds)"

definition add_gift_cards_to_order ::
  "env \<Rightarrow> pk \<Rightarrow> pk option \<Rightarrow> string option \<Rightarrow> pk \<Rightarrow> money \<Rightarrow> gift_card_tables \<Rightarrow> error + gift_card_tables" where
  "add_gift_cards_to_order e checkout used_by_user used_by_email order_pk total_price_left T =
     (case gift_cards_loop (now e) (users T) used_by_user used_by_email total_price_left (cards_of_checkout e T checkout) of
        Inl er \<Rightarrow> Inl er
      | Inr (gs, ds) \<Rightarrow> Inr (T\<lparr>
          order_gift_cards := order_gift_cards T
            @ filter (\<lambda>p. p \<notin> set (order_gift_cards T)) (map (\<lambda>g. (order_pk, gc_pk g)) gs),
          gift_cards := bulk_update gc_pk (map card_update gs) (gift_cards T),
          gift_card_events := gift_card_events T @ used_events order_pk gs ds\<rparr>))"

section \<open>What is paid with gift cards\<close>

definition balances :: "gift_card list \<Rightarrow> decimal" where
  "balances gs = sum_list (map gc_current_balance_amount gs)"

lemma balances_simps [simp]:
  "balances [] = 0" "balances (g # gs) = gc_current_balance_amount g + balances gs"
  by (simp_all add: balances_def)

lemma balances_nonneg: "\<forall>g \<in> set gs. 0 \<le> gc_current_balance_amount g \<Longrightarrow> 0 \<le> balances gs"
  by (induction gs) auto

lemma set_gift_card_user_simps [simp]:
  "gc_pk (set_gift_card_user us u em g) = gc_pk g"
  "gc_current_balance_amount (set_gift_card_user us u em g) = gc_current_balance_amount g"
  by (simp_all add: set_gift_card_user_def)

text \<open>The loop touches a prefix of the cards, drains all of it but the last, and pays what it can.\<close>

lemma gift_cards_loop_spec:
  assumes "0 \<le> m_amount left"
    and "\<forall>g \<in> set gs. gc_currency g = m_currency left \<and> 0 \<le> gc_current_balance_amount g"
  obtains gs' ds where "gift_cards_loop t us u em left gs = Inr (gs', ds)"
    and "map gc_pk gs' = map gc_pk (take (length gs') gs)" and "length gs' \<le> length gs"
    and "ds = map (\<lambda>g. (gc_pk g, gc_current_balance_amount g)) (take (length gs') gs)"
    and "balances gs' = balances (take (length gs') gs) - min (m_amount left) (balances gs)"
    and "\<forall>g \<in> set gs'. 0 \<le> gc_current_balance_amount g"
    and "\<forall>g \<in> set (butlast gs'). gc_current_balance_amount g = 0"
    and "length gs' < length gs \<longrightarrow> m_amount left \<le> balances (take (length gs') gs)"
  using assms
proof (induction gs arbitrary: left thesis)
  case Nil
  then show ?case by simp
next
  case (Cons g gs)
  have gs: "\<forall>h \<in> set gs. gc_currency h = m_currency left \<and> 0 \<le> gc_current_balance_amount h"
    using Cons.prems(3) by simp
  have nonneg: "0 \<le> balances gs" "0 \<le> gc_current_balance_amount g"
    using gs Cons.prems(3) by (auto intro: balances_nonneg)
  show ?case
  proof (cases "0 < m_amount left")
    case False
    with Cons.prems(2) have zero: "m_amount left = 0" by simp
    then have "gift_cards_loop t us u em left hs = Inr ([], [])" for hs by (induction hs) simp_all
    with zero nonneg show ?thesis by (intro Cons.prems(1) [of "[]" "[]"]) auto
  next
    case True
    show ?thesis
    proof (cases "m_amount left < gc_current_balance_amount g")
      case True
      let ?g = "g\<lparr>gc_current_balance_amount := gc_current_balance_amount g - m_amount left\<rparr>"
      have "gift_cards_loop t us u em (zero_money c) hs = Inr ([], [])" for c hs
        by (induction hs) (simp_all add: zero_money_def)
      with True \<open>0 < m_amount left\<close> Cons.prems(3) nonneg show ?thesis
        by (intro Cons.prems(1) [of "[(set_gift_card_user us u em ?g)\<lparr>gc_last_used_on := Some t\<rparr>]"
              "[(gc_pk g, gc_current_balance_amount g)]"])
          (auto simp: update_gift_card_balance_def Let_def min_def)
    next
      case False
      let ?left = "left\<lparr>m_amount := m_amount left - gc_current_balance_amount g\<rparr>"
      let ?g = "g\<lparr>gc_current_balance_amount := 0\<rparr>"
      obtain gs' ds where run: "gift_cards_loop t us u em ?left gs = Inr (gs', ds)"
        and rest: "map gc_pk gs' = map gc_pk (take (length gs') gs)" "length gs' \<le> length gs"
        "ds = map (\<lambda>g. (gc_pk g, gc_current_balance_amount g)) (take (length gs') gs)"
        "balances gs' = balances (take (length gs') gs) - min (m_amount ?left) (balances gs)"
        "\<forall>g \<in> set gs'. 0 \<le> gc_current_balance_amount g"
        "\<forall>g \<in> set (butlast gs'). gc_current_balance_amount g = 0"
        "length gs' < length gs \<longrightarrow> m_amount ?left \<le> balances (take (length gs') gs)"
        using Cons.IH [of ?left] False gs by auto
      from run False \<open>0 < m_amount left\<close> Cons.prems(3) rest show ?thesis
        by (intro Cons.prems(1) [of "(set_gift_card_user us u em ?g)\<lparr>gc_last_used_on := Some t\<rparr> # gs'"
              "(gc_pk g, gc_current_balance_amount g) # ds"])
          (auto simp: update_gift_card_balance_def Let_def min_def)
    qed
  qed
qed

text \<open>Saving the cards, in a table with unique keys.\<close>

lemma map_of_card_update:
  "map_of (map card_update gs) k = map_option (snd \<circ> card_update) (find (\<lambda>g. gc_pk g = k) gs)"
  by (induction gs) (auto simp: card_update_def)

lemma saved_balances:
  assumes "distinct (map gc_pk rows)" and "set old \<subseteq> set rows" and "map gc_pk new = map gc_pk old"
    and "distinct (map gc_pk old)"
  shows "balances (bulk_update gc_pk (map card_update new) rows) = balances rows - balances old + balances new"
  using assms
proof (induction old arbitrary: rows new)
  case Nil
  then show ?case by simp
next
  case (Cons g old)
  then obtain g' new' where new: "new = g' # new'" "gc_pk g' = gc_pk g" "map gc_pk new' = map gc_pk old"
    by (cases new) auto
  from Cons.prems(2) obtain pre post where rows: "rows = pre @ g # post" by (auto dest: split_list)
  have absent: "gc_pk g \<notin> gc_pk ` set new'"
    using Cons.prems(4) new(3) by (metis distinct.simps(2) list.set_map list.simps(9))
  have keys: "gc_pk g \<notin> gc_pk ` set pre" "gc_pk g \<notin> gc_pk ` set post"
    using Cons.prems(1) by (auto simp: rows)
  have others: "bulk_update gc_pk (map card_update (g' # new')) rs = bulk_update gc_pk (map card_update new') rs"
    if "gc_pk g \<notin> gc_pk ` set rs" for rs
  proof -
    have "gc_pk x \<noteq> gc_pk g" if "x \<in> set rs" for x using that \<open>gc_pk g \<notin> gc_pk ` set rs\<close> by (metis imageI)
    then show ?thesis unfolding bulk_update_def using new(2) by (intro map_cong refl) (auto simp: card_update_def)
  qed
  have "bulk_update gc_pk (map card_update new') [g] = [g]"
  proof -
    have "find (\<lambda>x. gc_pk x = gc_pk g) new' = None" using absent unfolding find_None_iff by (metis imageI)
    then show ?thesis by (simp add: bulk_update_def map_of_card_update)
  qed
  then have split: "bulk_update gc_pk (map card_update new') rows
      = bulk_update gc_pk (map card_update new') pre @ g # bulk_update gc_pk (map card_update new') post"
    by (simp add: rows bulk.upd_append bulk.upd_Cons bulk_update_def)
  have "balances (bulk_update gc_pk (map card_update new) rows)
      = balances (bulk_update gc_pk (map card_update new') rows)
        - gc_current_balance_amount g + gc_current_balance_amount g'"
    unfolding split using others [OF keys(1)] others [OF keys(2)] new(1,2)
    by (simp add: rows bulk.upd_append balances_def bulk.upd_Cons) (simp add: card_update_def)
  with Cons.IH [OF Cons.prems(1) _ new(3)] Cons.prems(2,4) show ?case by (simp add: new(1))
qed


lemma cards_of_checkout_facts:
  assumes "distinct (map gc_pk (gift_cards T))"
  shows "set (cards_of_checkout e T checkout) = {g \<in> set (gift_cards T). (checkout, gc_pk g) \<in> set (checkout_gift_cards T)}"
    and "distinct (map gc_pk (cards_of_checkout e T checkout))"
proof -
  let ?own = "filter (\<lambda>g. (checkout, gc_pk g) \<in> set (checkout_gift_cards T)) (gift_cards T)"
  show "set (cards_of_checkout e T checkout) = {g \<in> set (gift_cards T). (checkout, gc_pk g) \<in> set (checkout_gift_cards T)}"
    by (simp add: cards_of_checkout_def)
  have "mset (map gc_pk (cards_of_checkout e T checkout)) = mset (map gc_pk ?own)"
    by (simp add: cards_of_checkout_def)
  moreover have "distinct (map gc_pk ?own)" using assms by (simp add: distinct_map_filter)
  ultimately show "distinct (map gc_pk (cards_of_checkout e T checkout))" by (metis mset_eq_imp_distinct_iff)
qed

lemma map_of_update_hit:
  "map_of (map card_update gs) k = Some f \<Longrightarrow> \<exists>g \<in> set gs. gc_pk g = k \<and> f = snd (card_update g)"
  by (auto simp: map_of_card_update dest!: find_SomeD)

text \<open>
  C17: gift cards of a checkout that are in the currency of the order pay the total or all they hold,
  whichever is less: that amount leaves the balances, no balance becomes negative, and
  the cards that are not on the checkout keep theirs.
\<close>

theorem gift_cards_pay:
  assumes "distinct (map gc_pk (gift_cards T))"
    and "0 \<le> m_amount price"
    and "\<forall>g \<in> set (gift_cards T). 0 \<le> gc_current_balance_amount g"
    and "\<forall>g \<in> set (cards_of_checkout e T checkout). gc_currency g = m_currency price"
  shows "\<exists>T'. add_gift_cards_to_order e checkout u em order_pk price T = Inr T'
    \<and> balances (gift_cards T') = balances (gift_cards T)
        - min (m_amount price) (balances (cards_of_checkout e T checkout))
    \<and> (\<forall>g \<in> set (gift_cards T'). 0 \<le> gc_current_balance_amount g)
    \<and> filter (\<lambda>g. (checkout, gc_pk g) \<notin> set (checkout_gift_cards T)) (gift_cards T')
      = filter (\<lambda>g. (checkout, gc_pk g) \<notin> set (checkout_gift_cards T)) (gift_cards T)"
proof -
  let ?cards = "cards_of_checkout e T checkout"
  note cards = cards_of_checkout_facts [OF assms(1), of e checkout]
  have own: "\<forall>g \<in> set ?cards. gc_currency g = m_currency price \<and> 0 \<le> gc_current_balance_amount g"
    using assms(3,4) cards(1) by auto
  obtain gs ds where run: "gift_cards_loop (now e) (users T) u em price ?cards = Inr (gs, ds)"
    and keys: "map gc_pk gs = map gc_pk (take (length gs) ?cards)"
    and sum: "balances gs = balances (take (length gs) ?cards) - min (m_amount price) (balances ?cards)"
    and nonneg: "\<forall>g \<in> set gs. 0 \<le> gc_current_balance_amount g"
    by (rule gift_cards_loop_spec [OF assms(2) own, where t = "now e" and us = "users T" and u = u and em = em])
  have keys_in: "gc_pk g \<in> gc_pk ` set ?cards" if "g \<in> set gs" for g
    using that arg_cong [OF keys, of set] set_take_subset [of "length gs" ?cards] by auto
  let ?rows = "bulk_update gc_pk (map card_update gs) (gift_cards T)"
  have "balances ?rows = balances (gift_cards T) - balances (take (length gs) ?cards) + balances gs"
    by (rule saved_balances [OF assms(1) _ keys])
      (use cards set_take_subset [of "length gs" ?cards] in \<open>auto simp: take_map [symmetric]\<close>)
  moreover have "\<forall>g \<in> set ?rows. 0 \<le> gc_current_balance_amount g"
    using assms(3) nonneg by (auto dest!: bulk.upd_in map_of_update_hit simp: card_update_def split: option.splits)
  moreover have "filter P (bulk_update gc_pk (map card_update gs) rs) = filter P rs"
    if P: "P = (\<lambda>g. (checkout, gc_pk g) \<notin> set (checkout_gift_cards T))" for P rs
  proof (induction rs)
    case (Cons r rs)
    have "map_of (map card_update gs) (gc_pk r) = None" if "P r"
      using that keys_in cards(1) by (fastforce simp: P map_of_card_update find_None_iff)
    moreover have "P (f r) = P r" if "map_of (map card_update gs) (gc_pk r) = Some f" for f
      using map_of_update_hit [OF that] by (auto simp: P card_update_def)
    ultimately show ?case using Cons by (auto simp: bulk.upd_Cons split: option.split)
  qed (simp add: bulk.upd_Nil)
  ultimately show ?thesis using run sum by (simp add: add_gift_cards_to_order_def)
qed

text \<open>
  The cards are used in the order of their codes, each is drained before the next is touched, and the
  order gets exactly the cards that paid, each with an event of its balance before.
\<close>

lemma gift_cards_used_in_order:
  assumes "distinct (map gc_pk (gift_cards T))"
    and "0 \<le> m_amount price"
    and "\<forall>g \<in> set (gift_cards T). 0 \<le> gc_current_balance_amount g"
    and "\<forall>g \<in> set (cards_of_checkout e T checkout). gc_currency g = m_currency price"
    and "\<forall>p \<in> set (order_gift_cards T). fst p \<noteq> order_pk"
    and "add_gift_cards_to_order e checkout u em order_pk price T = Inr T'"
  shows "\<exists>n \<le> length (cards_of_checkout e T checkout).
    (order_gift_cards T' = order_gift_cards T
        @ map (\<lambda>g. (order_pk, gc_pk g)) (take n (cards_of_checkout e T checkout)))
    \<and> map (\<lambda>ev. (ge_gift_card ev, ge_old_current_balance ev)) (gift_card_events T')
       = map (\<lambda>ev. (ge_gift_card ev, ge_old_current_balance ev)) (gift_card_events T)
         @ map (\<lambda>g. (gc_pk g, gc_current_balance_amount g)) (take n (cards_of_checkout e T checkout))
    \<and> (n < length (cards_of_checkout e T checkout)
       \<longrightarrow> m_amount price \<le> balances (take n (cards_of_checkout e T checkout)))
    \<and> (\<forall>g \<in> set (gift_cards T'). gc_pk g \<in> gc_pk ` set (take (n - 1) (cards_of_checkout e T checkout))
       \<longrightarrow> gc_current_balance_amount g = 0)"
proof -
  let ?cards = "cards_of_checkout e T checkout"
  note cards = cards_of_checkout_facts [OF assms(1), of e checkout]
  have own: "\<forall>g \<in> set ?cards. gc_currency g = m_currency price \<and> 0 \<le> gc_current_balance_amount g"
    using assms(3,4) cards(1) by auto
  obtain gs ds where run: "gift_cards_loop (now e) (users T) u em price ?cards = Inr (gs, ds)"
    and keys: "map gc_pk gs = map gc_pk (take (length gs) ?cards)" and n: "length gs \<le> length ?cards"
    and ds: "ds = map (\<lambda>g. (gc_pk g, gc_current_balance_amount g)) (take (length gs) ?cards)"
    and drained: "\<forall>g \<in> set (butlast gs). gc_current_balance_amount g = 0"
    and enough: "length gs < length ?cards \<longrightarrow> m_amount price \<le> balances (take (length gs) ?cards)"
    by (rule gift_cards_loop_spec [OF assms(2) own, where t = "now e" and us = "users T" and u = u and em = em])
  have T': "order_gift_cards T' = order_gift_cards T
      @ filter (\<lambda>p. p \<notin> set (order_gift_cards T)) (map (\<lambda>g. (order_pk, gc_pk g)) gs)"
    "gift_card_events T' = gift_card_events T @ used_events order_pk gs ds"
    "gift_cards T' = bulk_update gc_pk (map card_update gs) (gift_cards T)"
    using assms(6) run by (auto simp: add_gift_cards_to_order_def)
  have "filter (\<lambda>p. p \<notin> set (order_gift_cards T)) (map (\<lambda>g. (order_pk, gc_pk g)) gs)
      = map (\<lambda>g. (order_pk, gc_pk g)) gs"
    using assms(5) by (auto simp: filter_id_conv)
  also have "\<dots> = map (\<lambda>g. (order_pk, gc_pk g)) (take (length gs) ?cards)"
    using arg_cong [OF keys, of "map (Pair order_pk)"] by (simp add: comp_def)
  finally have "order_gift_cards T' = order_gift_cards T
      @ map (\<lambda>g. (order_pk, gc_pk g)) (take (length gs) ?cards)" by (simp add: T'(1))
  moreover have "length gs = length ds" using n by (simp add: ds)
  then have "map (\<lambda>ev. (ge_gift_card ev, ge_old_current_balance ev)) (used_events order_pk gs ds) = ds"
    by (simp add: used_events_def comp_def case_prod_beta)
  then have "map (\<lambda>ev. (ge_gift_card ev, ge_old_current_balance ev)) (gift_card_events T')
      = map (\<lambda>ev. (ge_gift_card ev, ge_old_current_balance ev)) (gift_card_events T) @ ds" by (simp add: T'(2))
  moreover have "gc_current_balance_amount g = 0"
    if "g \<in> set (gift_cards T')" "gc_pk g \<in> gc_pk ` set (take (length gs - 1) ?cards)" for g
  proof -
    have "gc_pk ` set (take (length gs - 1) ?cards) = gc_pk ` set (butlast gs)"
      using arg_cong [OF keys, of "\<lambda>xs. set (butlast xs)"] n by (simp add: map_butlast [symmetric] butlast_take)
    with that(2) obtain h where h: "h \<in> set (butlast gs)" "gc_pk h = gc_pk g" by auto
    have "distinct (map gc_pk gs)" using cards(2) keys by (simp add: take_map [symmetric])
    with h have hit: "find (\<lambda>x. gc_pk x = gc_pk g) gs = Some h"
      using find_row_distinct [of gc_pk gs h] by (simp add: in_set_butlastD find_row_def)
    from that(1) obtain r where r: "r \<in> set (gift_cards T)"
      "g = (case map_of (map card_update gs) (gc_pk r) of None \<Rightarrow> r | Some f \<Rightarrow> f r)"
      unfolding T'(3) by (blast dest: bulk.upd_in)
    then have "gc_pk g = gc_pk r" by (auto dest!: map_of_update_hit simp: card_update_def split: option.splits)
    with r hit have "g = snd (card_update h) r" by (simp add: map_of_card_update)
    with drained h(1) show ?thesis by (simp add: card_update_def)
  qed
  ultimately show ?thesis using n enough ds by blast
qed
section \<open>An example\<close>

definition ex_card :: "pk \<Rightarrow> string \<Rightarrow> decimal \<Rightarrow> gift_card" where
  "ex_card k c b = \<lparr>gc_pk = k, gc_code = c, gc_currency = ''USD'', gc_current_balance_amount = b,
     gc_last_used_on = None, gc_used_by = None, gc_used_by_email = None, gc_search_index_dirty = False\<rparr>"

definition ex_gift_tables :: gift_card_tables where
  "ex_gift_tables = \<lparr>gift_cards = [ex_card 1 ''long'' 50, ex_card 2 ''abc'' 30, ex_card 3 ''x'' 70],
     users = [\<lparr>u_pk = 5, u_email = ''a''\<rparr>], checkout_gift_cards = [(9, 1), (9, 2)],
     order_gift_cards = [], gift_card_events = []\<rparr>"

definition ex_price :: money where "ex_price = \<lparr>m_amount = 60, m_currency = ''USD''\<rparr>"

definition ex_gift_env :: env where
  "ex_gift_env = \<lparr>now = 100, row_order = (\<lambda>xs. xs), slug_rank = length\<rparr>"

lemma ex_gift_facts:
  "distinct (map gc_pk (gift_cards ex_gift_tables))" "0 \<le> m_amount ex_price"
  "\<forall>g \<in> set (gift_cards ex_gift_tables). 0 \<le> gc_current_balance_amount g"
  "\<forall>g \<in> set (cards_of_checkout ex_gift_env ex_gift_tables 9). gc_currency g = m_currency ex_price"
  "\<forall>p \<in> set (order_gift_cards ex_gift_tables). fst p \<noteq> 4"
  "\<not> isl (add_gift_cards_to_order ex_gift_env 9 None (Some ''a'') 4 ex_price ex_gift_tables)"
  by code_simp+

lemma gift_cards_pay_witness:
  "balances (gift_cards (projr (add_gift_cards_to_order ex_gift_env 9 None (Some ''a'') 4 ex_price ex_gift_tables))) = 90"
proof -
  have "balances (gift_cards ex_gift_tables) - min (m_amount ex_price)
      (balances (cards_of_checkout ex_gift_env ex_gift_tables 9)) = 90" by code_simp
  with gift_cards_pay [OF ex_gift_facts(1-4), of None "Some ''a''" 4] show ?thesis by auto
qed

lemma gift_cards_used_in_order_witness:
  "map snd (order_gift_cards (projr (add_gift_cards_to_order ex_gift_env 9 None (Some ''a'') 4 ex_price ex_gift_tables)))
   \<in> {[], [2], [2, 1]}"
proof -
  have "map gc_pk (cards_of_checkout ex_gift_env ex_gift_tables 9) = [2, 1]" by code_simp
  moreover have "order_gift_cards ex_gift_tables = []" by code_simp
  moreover have "n \<le> length (cards_of_checkout ex_gift_env ex_gift_tables 9) \<Longrightarrow> n = 0 \<or> n = 1 \<or> n = 2" for n
    using arg_cong [OF \<open>map gc_pk _ = _\<close>, of length] by simp arith
  ultimately show ?thesis
    using gift_cards_used_in_order [OF ex_gift_facts(1-5) not_isl_Inr [OF ex_gift_facts(6)]]
    by (force simp: comp_def take_map [symmetric])
qed

end
