(* ===== verification/Gift_Card_Issue.thy ===== *)
theory Gift_Card_Issue
  imports Gift_Cards Order_Amounts
begin

text \<open>
  The life of a gift card outside of orders: the random codes of \<open>saleor/core/utils/promo_code.py\<close>, the functions of
  \<open>saleor/giftcard/utils.py\<close>, \<open>events.py\<close> and \<open>tasks.py\<close>, and the mutations of \<open>saleor/graphql/giftcard\<close>.

  The random bytes that \<open>secrets.token_hex\<close> reads are a sequence, of which \<open>ct_drawn\<close> have been used.  The loop of
  \<open>generate_promo_code\<close> draws until a code is free, and may never end: it is a partial function, whose value is
  \<open>None\<close> where it does not return.  Events of one operation are recorded in the order of the table.
\<close>

section \<open>Rows\<close>

datatype time_period = Period_Day | Period_Week | Period_Month | Period_Year

record issued_card = gift_card +
  gi_is_active :: bool
  gi_created_by :: "pk option"
  gi_created_by_email :: "string option"
  gi_initial_balance_amount :: decimal
  gi_product :: "pk option"
  gi_fulfillment_line :: "pk option"
  gi_expiry_date :: "time option"

datatype card_event_kind = Ev_Issued string decimal "time option" | Ev_Bought "time option" | Ev_Activated | Ev_Deactivated
  | Ev_Balance_Reset string decimal decimal decimal | Ev_Expiry_Date_Updated "time option" "time option"
  | Ev_Tags_Updated "string list" "string list" | Ev_Note_Added string

type_synonym requestor = "pk option \<times> pk option"   \<comment> \<open>user and app\<close>

record card_event =
  cx_kind :: card_event_kind
  cx_card :: pk
  cx_order :: "pk option"
  cx_requestor :: requestor

datatype card_call = Gift_Card_Created pk | Gift_Card_Updated pk | Gift_Card_Status_Changed pk | Gift_Card_Deleted pk
  | Send_Gift_Card pk "string option" bool              \<comment> \<open>the recipient, and \<open>resending\<close>\<close>

datatype card_error = Gc_Invalid_Promo_Code | Gc_Already_Exists | Gc_Invalid string | Gc_Required string | Gc_Not_Found
  | Gc_Expired | Gc_Duplicated_Tags | Gc_Integrity_Error | Gc_Type_Error

record card_tables =
  ct_cards :: "issued_card list"
  ct_seq :: pk
  ct_voucher_codes :: "string list"
  ct_tags :: "string list"
  ct_card_tags :: "(string \<times> pk) list"
  ct_checkout_cards :: "(pk \<times> pk) list"               \<comment> \<open>(checkout, gift card)\<close>
  ct_events :: "card_event list"
  ct_calls :: "card_call list"
  ct_drawn :: nat

record card_env =
  cv_today :: time
  cv_add_period :: "time_period \<Rightarrow> nat \<Rightarrow> time \<Rightarrow> time"   \<comment> \<open>\<open>today + relativedelta(...)\<close>\<close>
  cv_token :: "nat \<Rightarrow> nat list"                         \<comment> \<open>the bytes that are read\<close>
  cv_valid_email :: "string \<Rightarrow> bool"
  cv_precision :: "string \<Rightarrow> nat"

section \<open>Codes\<close>

definition hex_digit :: "nat \<Rightarrow> char" where
  "hex_digit n = char_of (if n < 10 then 48 + n else 87 + n)"

definition token_hex :: "nat list \<Rightarrow> string" where
  "token_hex bs = concat (map (\<lambda>b. [hex_digit (b div 16), hex_digit (b mod 16)]) bs)"

definition upper_char :: "char \<Rightarrow> char" where
  "upper_char c = (let n = of_char c :: nat in if 97 \<le> n \<and> n \<le> 122 then char_of (n - 32) else c)"

function slices :: "nat \<Rightarrow> 'a list \<Rightarrow> 'a list list" where
  \<comment> \<open>\<open>code[i : i + n] for i in range(0, len(code), n)\<close>\<close>
  "slices n xs = (if n = 0 \<or> xs = [] then [] else take n xs # slices n (drop n xs))"
  by pat_completeness auto
termination by (relation "measure (length \<circ> snd)") auto

declare slices.simps [simp del]

fun py_join :: "string \<Rightarrow> string list \<Rightarrow> string" where
  "py_join sep [] = []"
| "py_join sep [x] = x"
| "py_join sep (x # y # xs) = x @ sep @ py_join sep (y # xs)"

definition generate_random_code :: "nat list \<Rightarrow> string" where
  "generate_random_code bytes = py_join ''-'' (slices 4 (map upper_char (token_hex bytes)))"

definition promo_code_is_gift_card :: "card_tables \<Rightarrow> string \<Rightarrow> bool" where
  "promo_code_is_gift_card T code \<longleftrightarrow> list_ex (\<lambda>g. gc_code g = code) (ct_cards T)"

definition promo_code_is_voucher :: "card_tables \<Rightarrow> string \<Rightarrow> bool" where
  "promo_code_is_voucher T code \<longleftrightarrow> code \<in> set (ct_voucher_codes T)"

definition is_available_promo_code :: "card_tables \<Rightarrow> string \<Rightarrow> bool" where
  "is_available_promo_code T code \<longleftrightarrow> \<not> (promo_code_is_gift_card T code \<or> promo_code_is_voucher T code)"

partial_function (option) generate_promo_code :: "card_env \<Rightarrow> card_tables \<Rightarrow> nat \<Rightarrow> (string \<times> nat) option" where
  \<comment> \<open>The code, and how many tokens have been read after it.\<close>
  "generate_promo_code e T i = (let code = generate_random_code (cv_token e i)
     in if is_available_promo_code T code then Some (code, Suc i) else generate_promo_code e T (Suc i))"

declare generate_promo_code.simps [code]

fun generate_promo_codes :: "card_env \<Rightarrow> card_tables \<Rightarrow> nat \<Rightarrow> nat \<Rightarrow> (string list \<times> nat) option" where
  \<comment> \<open>\<open>generate_promo_code() for _ in range(n)\<close>\<close>
  "generate_promo_codes e T 0 i = Some ([], i)"
| "generate_promo_codes e T (Suc n) i = (case generate_promo_code e T i of None \<Rightarrow> None
     | Some (code, i) \<Rightarrow> (case generate_promo_codes e T n i of None \<Rightarrow> None | Some (codes, i) \<Rightarrow> Some (code # codes, i)))"

section \<open>Writing\<close>

definition create_cards :: "issued_card list \<Rightarrow> card_tables \<Rightarrow> card_error + issued_card list \<times> card_tables" where
  \<comment> \<open>\<open>bulk_create\<close>: codes are unique.\<close>
  "create_cards gs T =
     (if distinct (map gc_code (ct_cards T @ gs))
      then let new = map (\<lambda>(k, g). g\<lparr>gc_pk := k\<rparr>) (zip [ct_seq T..<ct_seq T + length gs] gs)
        in Inr (new, T\<lparr>ct_cards := ct_cards T @ new, ct_seq := ct_seq T + length gs\<rparr>)
      else Inl Gc_Integrity_Error)"

definition log_event :: "card_event_kind \<Rightarrow> pk option \<Rightarrow> requestor \<Rightarrow> pk \<Rightarrow> card_tables \<Rightarrow> card_tables" where
  "log_event kind order_pk r k T = T\<lparr>ct_events := ct_events T @ [\<lparr>cx_kind = kind, cx_card = k, cx_order = order_pk, cx_requestor = r\<rparr>]\<rparr>"

definition log_events :: "(issued_card \<Rightarrow> card_event_kind) \<Rightarrow> pk option \<Rightarrow> requestor \<Rightarrow> issued_card list \<Rightarrow> card_tables \<Rightarrow> card_tables" where
  "log_events kind order_pk r gs T = T\<lparr>ct_events := ct_events T
     @ map (\<lambda>g. \<lparr>cx_kind = kind g, cx_card = gc_pk g, cx_order = order_pk, cx_requestor = r\<rparr>) gs\<rparr>"

definition card_calls :: "card_call list \<Rightarrow> card_tables \<Rightarrow> card_tables" where
  "card_calls cs T = T\<lparr>ct_calls := ct_calls T @ cs\<rparr>"

definition update_cards :: "(issued_card \<Rightarrow> bool) \<Rightarrow> (issued_card \<Rightarrow> issued_card) \<Rightarrow> card_tables \<Rightarrow> card_tables" where
  \<comment> \<open>\<open>filter(...).update(...)\<close>\<close>
  "update_cards P f T = T\<lparr>ct_cards := map (\<lambda>g. if P g then f g else g) (ct_cards T)\<rparr>"

section \<open>\<open>giftcard/utils.py\<close>\<close>

definition card_active :: "time \<Rightarrow> issued_card \<Rightarrow> bool" where
  \<comment> \<open>\<open>GiftCardQueryset.active\<close>\<close>
  "card_active date g \<longleftrightarrow> (case gi_expiry_date g of None \<Rightarrow> True | Some d \<Rightarrow> date \<le> d) \<and> gi_is_active g"

definition is_gift_card_expired :: "card_env \<Rightarrow> issued_card \<Rightarrow> bool" where
  "is_gift_card_expired e g \<longleftrightarrow> (case gi_expiry_date g of None \<Rightarrow> False | Some d \<Rightarrow> d < cv_today e)"

definition add_gift_card_code_to_checkout :: "card_env \<Rightarrow> pk \<Rightarrow> string \<Rightarrow> string \<Rightarrow> card_tables \<Rightarrow> card_error + card_tables" where
  "add_gift_card_code_to_checkout e checkout promo_code currency T =
     (case find (\<lambda>g. card_active (cv_today e) g \<and> gc_currency g = currency \<and> gc_code g = promo_code) (ct_cards T) of
        None \<Rightarrow> Inl Gc_Invalid_Promo_Code
      | Some g \<Rightarrow> Inr (if (checkout, gc_pk g) \<in> set (ct_checkout_cards T) then T
          else T\<lparr>ct_checkout_cards := ct_checkout_cards T @ [(checkout, gc_pk g)]\<rparr>))"

definition remove_gift_card_code_from_checkout :: "pk \<Rightarrow> string \<Rightarrow> card_tables \<Rightarrow> bool \<times> card_tables" where
  "remove_gift_card_code_from_checkout checkout gift_card_code T =
     (case find (\<lambda>g. (checkout, gc_pk g) \<in> set (ct_checkout_cards T) \<and> gc_code g = gift_card_code) (ct_cards T) of
        None \<Rightarrow> (False, T)
      | Some g \<Rightarrow> (True, T\<lparr>ct_checkout_cards := filter (\<lambda>p. p \<noteq> (checkout, gc_pk g)) (ct_checkout_cards T)\<rparr>))"

definition set_active :: "bool \<Rightarrow> pk \<Rightarrow> card_tables \<Rightarrow> card_tables" where
  \<comment> \<open>\<open>activate_gift_card\<close> and \<open>deactivate_gift_card\<close>\<close>
  "set_active b k = update_cards (\<lambda>g. gc_pk g = k) (\<lambda>g. g\<lparr>gi_is_active := b\<rparr>)"

datatype gift_card_expiry = Never_Expire | Expiry_Period "time_period option" "nat option"

definition calculate_expiry_date :: "card_env \<Rightarrow> gift_card_expiry \<Rightarrow> card_error + time option" where
  \<comment> \<open>A null type or period is no argument of \<open>relativedelta\<close>.\<close>
  "calculate_expiry_date e settings = (case settings of Never_Expire \<Rightarrow> Inr None
     | Expiry_Period (Some p) (Some n) \<Rightarrow> Inr (Some (cv_add_period e p n (cv_today e)))
     | _ \<Rightarrow> Inl Gc_Type_Error)"

record gift_card_line_data =
  gl_quantity :: int
  gl_product :: "pk option"
  gl_fulfillment_line :: pk
  gl_unit_price_gross :: money
  gl_is_shipping_required :: bool

definition bought_card :: "pk option \<Rightarrow> string \<Rightarrow> time option \<Rightarrow> gift_card_line_data \<Rightarrow> string \<Rightarrow> issued_card" where
  \<comment> \<open>The object before it is saved; its currency is that of the price.\<close>
  "bought_card customer_user user_email expiry_date l code =
     \<lparr>gc_pk = 0, gc_code = code, gc_currency = m_currency (gl_unit_price_gross l),
      gc_current_balance_amount = m_amount (gl_unit_price_gross l), gc_last_used_on = None, gc_used_by = None,
      gc_used_by_email = None, gc_search_index_dirty = True, gi_is_active = True, gi_created_by = customer_user,
      gi_created_by_email = Some user_email, gi_initial_balance_amount = m_amount (gl_unit_price_gross l),
      gi_product = gl_product l, gi_fulfillment_line = Some (gl_fulfillment_line l), gi_expiry_date = expiry_date\<rparr>"

fun cards_of_lines ::
  "card_env \<Rightarrow> card_tables \<Rightarrow> (gift_card_line_data \<Rightarrow> string \<Rightarrow> issued_card) \<Rightarrow> gift_card_line_data list \<Rightarrow> nat
   \<Rightarrow> ((gift_card_line_data \<times> issued_card) list \<times> nat) option" where
  \<comment> \<open>The loop of \<open>gift_cards_create\<close>: the cards, each with its line.\<close>
  "cards_of_lines e T build [] i = Some ([], i)"
| "cards_of_lines e T build (l # ls) i = (case generate_promo_codes e T (nat (gl_quantity l)) i of None \<Rightarrow> None
     | Some (codes, i) \<Rightarrow> (case cards_of_lines e T build ls i of None \<Rightarrow> None
       | Some (gs, i) \<Rightarrow> Some (map (\<lambda>code. (l, build l code)) codes @ gs, i)))"

definition gift_cards_create ::
  "card_env \<Rightarrow> pk \<Rightarrow> pk option \<Rightarrow> string \<Rightarrow> gift_card_line_data list \<Rightarrow> gift_card_expiry \<Rightarrow> requestor \<Rightarrow> card_tables
   \<Rightarrow> (card_error + issued_card list \<times> card_tables) option" where
  \<comment> \<open>With \<open>send_gift_cards_to_customer\<close>, which runs when the transaction is committed.\<close>
  "gift_cards_create e order_pk customer_user user_email infos settings r T =
     (case calculate_expiry_date e settings of Inl er \<Rightarrow> Some (Inl er)
      | Inr expiry_date \<Rightarrow> (case cards_of_lines e T (bought_card customer_user user_email expiry_date) infos (ct_drawn T) of
          None \<Rightarrow> None
        | Some (gs, i) \<Rightarrow> Some (case create_cards (map snd gs) T of Inl er \<Rightarrow> Inl er
          | Inr (new, T) \<Rightarrow>
              let non_shippable = map snd (filter (\<lambda>(l, g). \<not> gl_is_shipping_required l) (zip (map fst gs) new));
                  T = log_events (\<lambda>g. Ev_Bought (gi_expiry_date g)) (Some order_pk) r new T;
                  T = card_calls (map (Gift_Card_Created \<circ> gc_pk) new
                    @ map (\<lambda>g. Send_Gift_Card (gc_pk g) (Some user_email) False) non_shippable) T
              in Inr (new, T\<lparr>ct_drawn := i\<rparr>))))"

definition deactivate_order_gift_cards :: "pk \<Rightarrow> requestor \<Rightarrow> card_tables \<Rightarrow> card_tables" where
  "deactivate_order_gift_cards order_pk r T =
     (let bought = (\<lambda>g. list_ex (\<lambda>x. cx_card x = gc_pk g \<and> cx_order x = Some order_pk
            \<and> (case cx_kind x of Ev_Bought d \<Rightarrow> True | _ \<Rightarrow> False)) (ct_events T));
          T = update_cards bought (\<lambda>g. g\<lparr>gi_is_active := False\<rparr>) T
      in log_events (\<lambda>g. Ev_Deactivated) None r (filter bought (ct_cards T)) T)"

definition assign_user_gift_cards :: "user \<Rightarrow> card_tables \<Rightarrow> card_tables" where
  "assign_user_gift_cards u T =
     update_cards (\<lambda>g. gi_created_by_email g = Some (u_email u)) (\<lambda>g. g\<lparr>gi_created_by := Some (u_pk u)\<rparr>)
       (update_cards (\<lambda>g. gc_used_by_email g = Some (u_email u)) (\<lambda>g. g\<lparr>gc_used_by := Some (u_pk u)\<rparr>) T)"

definition get_user_gift_cards :: "user \<Rightarrow> card_tables \<Rightarrow> issued_card list" where
  "get_user_gift_cards u T = filter (\<lambda>g. gc_used_by_email g = Some (u_email u) \<or> gi_created_by_email g = Some (u_email u)
     \<or> gc_used_by g = Some (u_pk u) \<or> gi_created_by g = Some (u_pk u)) (ct_cards T)"

definition deactivate_expired_cards_task :: "card_env \<Rightarrow> card_tables \<Rightarrow> card_tables" where
  "deactivate_expired_cards_task e T =
     (let expired = (\<lambda>g. is_gift_card_expired e g \<and> gi_is_active g); gs = filter expired (ct_cards T)
      in if gs = [] then T
         else log_events (\<lambda>g. Ev_Deactivated) None (None, None) gs (update_cards expired (\<lambda>g. g\<lparr>gi_is_active := False\<rparr>) T))"

section \<open>\<open>graphql/giftcard/mutations\<close>\<close>

definition validate_price_precision :: "card_env \<Rightarrow> decimal \<Rightarrow> string \<Rightarrow> bool" where
  \<comment> \<open>Whether it does not raise.\<close>
  "validate_price_precision e x currency \<longleftrightarrow> quantize (cv_precision e currency) x = x"

definition clean_gift_card :: "card_env \<Rightarrow> issued_card \<Rightarrow> bool" where
  "clean_gift_card e g \<longleftrightarrow> \<not> is_gift_card_expired e g"

definition get_card :: "pk \<Rightarrow> card_tables \<Rightarrow> issued_card option" where
  "get_card k T = find (\<lambda>g. gc_pk g = k) (ct_cards T)"

definition date_ok :: "card_env \<Rightarrow> time option \<Rightarrow> bool" where
  \<comment> \<open>\<open>clean_expiry_date\<close>\<close>
  "date_ok e d \<longleftrightarrow> (case d of None \<Rightarrow> True | Some d \<Rightarrow> cv_today e < d)"

definition lower_char :: "char \<Rightarrow> char" where
  "lower_char c = (let n = of_char c :: nat in if 65 \<le> n \<and> n \<le> 90 then char_of (n + 32) else c)"

definition lower_tags :: "string list \<Rightarrow> string list" where
  "lower_tags tags = remdups (map (map lower_char) tags)"

definition create_tags :: "string list \<Rightarrow> card_tables \<Rightarrow> card_tables" where
  "create_tags tags T = T\<lparr>ct_tags := ct_tags T @ filter (\<lambda>t. t \<notin> set (ct_tags T)) tags\<rparr>"

definition assign_gift_card_tags :: "pk \<Rightarrow> string list \<Rightarrow> card_tables \<Rightarrow> card_tables" where
  \<comment> \<open>\<open>GiftCardCreate.assign_gift_card_tags\<close>\<close>
  "assign_gift_card_tags k tags_values T = (let tags = lower_tags tags_values; T = create_tags tags T
     in T\<lparr>ct_card_tags := ct_card_tags T @ filter (\<lambda>p. p \<notin> set (ct_card_tags T)) (map (\<lambda>t. (t, k)) tags)\<rparr>)"

definition bulk_assign_gift_card_tags :: "pk list \<Rightarrow> string list \<Rightarrow> card_tables \<Rightarrow> card_tables" where
  \<comment> \<open>\<open>GiftCardBulkCreate.assign_gift_card_tags\<close>: \<open>set\<close> replaces the cards of a tag.\<close>
  "bulk_assign_gift_card_tags ks tags_values T = (let tags = lower_tags tags_values; T = create_tags tags T
     in T\<lparr>ct_card_tags := filter (\<lambda>p. fst p \<notin> set tags) (ct_card_tags T) @ List.product tags ks\<rparr>)"

record gift_card_create_input =
  in_amount :: decimal
  in_currency :: string
  in_code :: "string option"
  in_expiry_date :: "time option"
  in_is_active :: bool
  in_user_email :: "string option"
  in_channel :: "string option"
  in_note :: "string option"
  in_add_tags :: "string list"

definition truthy :: "string option \<Rightarrow> bool" where
  "truthy s \<longleftrightarrow> s \<noteq> None \<and> s \<noteq> Some []"

definition clean_create_input :: "card_env \<Rightarrow> gift_card_create_input \<Rightarrow> card_tables \<Rightarrow> card_error option" where
  \<comment> \<open>\<open>GiftCardCreate.clean_input\<close> and the validators of the code: what it raises.\<close>
  "clean_create_input e inp T =
     (if truthy (in_code inp) \<and> \<not> is_available_promo_code T (the (in_code inp)) then Some Gc_Already_Exists
      else if \<not> date_ok e (in_expiry_date inp) then Some (Gc_Invalid ''expiry_date'')
      else if \<not> validate_price_precision e (in_amount inp) (in_currency inp) then Some (Gc_Invalid ''balance'')
      else if \<not> 0 < in_amount inp then Some (Gc_Invalid ''balance'')
      else if truthy (in_user_email inp) \<and> \<not> cv_valid_email e (the (in_user_email inp)) then Some (Gc_Invalid ''email'')
      else if truthy (in_user_email inp) \<and> \<not> truthy (in_channel inp) then Some (Gc_Required ''channel'')
      else if truthy (in_code inp) \<and> \<not> (8 \<le> length (the (in_code inp)) \<and> length (the (in_code inp)) \<le> 16)
        then Some (Gc_Invalid ''code'')
      else None)"

definition issued :: "user option \<Rightarrow> decimal \<Rightarrow> string \<Rightarrow> time option \<Rightarrow> bool \<Rightarrow> string \<Rightarrow> issued_card" where
  \<comment> \<open>A card that staff (with \<open>set_created_by_user\<close>) or an app issues.\<close>
  "issued created_by amount currency expiry_date is_active code =
     \<lparr>gc_pk = 0, gc_code = code, gc_currency = currency, gc_current_balance_amount = amount, gc_last_used_on = None,
      gc_used_by = None, gc_used_by_email = None, gc_search_index_dirty = True, gi_is_active = is_active,
      gi_created_by = map_option u_pk created_by, gi_created_by_email = map_option u_email created_by,
      gi_initial_balance_amount = amount, gi_product = None, gi_fulfillment_line = None, gi_expiry_date = expiry_date\<rparr>"

definition issued_event :: "issued_card \<Rightarrow> card_event_kind" where
  "issued_event g = Ev_Issued (gc_currency g) (gi_initial_balance_amount g) (gi_expiry_date g)"

definition requestor_of :: "user option \<Rightarrow> pk option \<Rightarrow> requestor" where
  "requestor_of u app = (map_option u_pk u, app)"

definition gift_card_create ::
  "card_env \<Rightarrow> user option \<Rightarrow> pk option \<Rightarrow> gift_card_create_input \<Rightarrow> card_tables \<Rightarrow> (card_error + issued_card \<times> card_tables) option" where
  "gift_card_create e u app inp T =
     (case (if truthy (in_code inp) then Some (the (in_code inp), ct_drawn T) else generate_promo_code e T (ct_drawn T)) of
        None \<Rightarrow> None
      | Some (code, i) \<Rightarrow> (case clean_create_input e inp T of Some er \<Rightarrow> Some (Inl er)
        | None \<Rightarrow> Some (case create_cards [issued u (in_amount inp) (in_currency inp) (in_expiry_date inp) (in_is_active inp) code] T of
            Inl er \<Rightarrow> Inl er
          | Inr (new, T) \<Rightarrow> let g = hd new; k = gc_pk g; r = requestor_of u app;
                T = (if in_add_tags inp = [] then T else assign_gift_card_tags k (in_add_tags inp) T);
                T = log_event (issued_event g) None r k T;
                T = (if truthy (in_note inp) then log_event (Ev_Note_Added (the (in_note inp))) None r k T else T);
                T = (if truthy (in_user_email inp) then card_calls [Send_Gift_Card k (in_user_email inp) False] T else T)
              in Inr (g, (card_calls [Gift_Card_Created k] T)\<lparr>ct_drawn := i\<rparr>))))"

record gift_card_bulk_input =
  bk_count :: int
  bk_amount :: decimal
  bk_currency :: string
  bk_tags :: "string list"
  bk_expiry_date :: "time option"
  bk_is_active :: bool

definition gift_card_bulk_create ::
  "card_env \<Rightarrow> user option \<Rightarrow> pk option \<Rightarrow> gift_card_bulk_input \<Rightarrow> card_tables
   \<Rightarrow> (card_error + issued_card list \<times> card_tables) option" where
  "gift_card_bulk_create e u app inp T =
     (if \<not> 0 < bk_count inp then Some (Inl (Gc_Invalid ''count''))
      else if \<not> date_ok e (bk_expiry_date inp) then Some (Inl (Gc_Invalid ''expiry_date''))
      else if \<not> validate_price_precision e (bk_amount inp) (bk_currency inp) then Some (Inl (Gc_Invalid ''balance''))
      else if \<not> 0 < bk_amount inp then Some (Inl (Gc_Invalid ''balance''))
      else (case generate_promo_codes e T (nat (bk_count inp)) (ct_drawn T) of
          None \<Rightarrow> None
        | Some (codes, i) \<Rightarrow> Some (case create_cards
              (map (issued u (bk_amount inp) (bk_currency inp) (bk_expiry_date inp) (bk_is_active inp)) codes) T of
            Inl er \<Rightarrow> Inl er
          | Inr (new, T) \<Rightarrow> let T = log_events issued_event None (requestor_of u app) new T;
                T = (if bk_tags inp = [] then T else bulk_assign_gift_card_tags (map gc_pk new) (bk_tags inp) T)
              in Inr (new, (card_calls (map (Gift_Card_Created \<circ> gc_pk) new) T)\<lparr>ct_drawn := i\<rparr>))))"

record gift_card_update_input =
  up_balance_amount :: "decimal option"
  up_expiry_date :: "time option option"       \<comment> \<open>given or not, and null\<close>
  up_add_tags :: "string list option"
  up_remove_tags :: "string list option"

definition given :: "'a list option \<Rightarrow> 'a list" where
  "given xs = (case xs of None \<Rightarrow> [] | Some xs \<Rightarrow> xs)"

definition tags_of :: "pk \<Rightarrow> card_tables \<Rightarrow> string list" where
  "tags_of k T = map fst (filter (\<lambda>p. snd p = k) (ct_card_tags T))"

definition remove_tags :: "pk \<Rightarrow> string list \<Rightarrow> card_tables \<Rightarrow> card_tables" where
  \<comment> \<open>The end of \<open>GiftCardUpdate._save_m2m\<close>: removed tags that no card has any more are deleted.\<close>
  "remove_tags k tags T = (let names = lower_tags tags;
       left = filter (\<lambda>p. \<not> (snd p = k \<and> fst p \<in> set names)) (ct_card_tags T)
     in T\<lparr>ct_card_tags := left,
          ct_tags := filter (\<lambda>t. \<not> (t \<in> set names \<and> t \<notin> set (map fst left))) (ct_tags T)\<rparr>)"

definition new_expiry_date :: "gift_card_update_input \<Rightarrow> issued_card \<Rightarrow> time option option" where
  \<comment> \<open>What \<open>clean_expiry_date\<close> leaves of the input: a date that is the old one is dropped.\<close>
  "new_expiry_date inp g = (case up_expiry_date inp of
     Some (Some d) \<Rightarrow> if Some d = gi_expiry_date g then None else Some (Some d) | x \<Rightarrow> x)"

definition clean_update_input :: "card_env \<Rightarrow> gift_card_update_input \<Rightarrow> issued_card \<Rightarrow> card_error option" where
  "clean_update_input e inp g =
     (if (case up_expiry_date inp of Some d \<Rightarrow> \<not> date_ok e d | None \<Rightarrow> False) then Some (Gc_Invalid ''expiry_date'')
      else if (case up_balance_amount inp of Some x \<Rightarrow> \<not> validate_price_precision e x (gc_currency g) | None \<Rightarrow> False)
        then Some (Gc_Invalid ''balance_amount'')
      else if set (given (up_add_tags inp)) \<inter> set (given (up_remove_tags inp)) \<noteq> {} then Some Gc_Duplicated_Tags
      else None)"

definition updated_card :: "gift_card_update_input \<Rightarrow> issued_card \<Rightarrow> issued_card" where
  "updated_card inp g =
     (let g' = (case up_balance_amount inp of None \<Rightarrow> g
            | Some x \<Rightarrow> g\<lparr>gc_current_balance_amount := x, gi_initial_balance_amount := x\<rparr>)
      in case new_expiry_date inp g of None \<Rightarrow> g' | Some d \<Rightarrow> g'\<lparr>gi_expiry_date := d\<rparr>)"

definition gift_card_update ::
  "card_env \<Rightarrow> requestor \<Rightarrow> pk \<Rightarrow> gift_card_update_input \<Rightarrow> card_tables \<Rightarrow> card_error + card_tables" where
  "gift_card_update e r k inp T = (case get_card k T of None \<Rightarrow> Inl Gc_Not_Found
     | Some g \<Rightarrow> (case clean_update_input e inp g of Some er \<Rightarrow> Inl er
       | None \<Rightarrow>
           let g' = updated_card inp g; old_tags = tags_of k T;
               T = update_cards (\<lambda>x. gc_pk x = k) (\<lambda>x. g') T;
               T = (if given (up_add_tags inp) = [] then T else assign_gift_card_tags k (given (up_add_tags inp)) T);
               T = (if given (up_remove_tags inp) = [] then T else remove_tags k (given (up_remove_tags inp)) T);
               T = (if up_balance_amount inp = None then T else log_event (Ev_Balance_Reset (gc_currency g)
                 (gi_initial_balance_amount g') (gi_initial_balance_amount g) (gc_current_balance_amount g)) None r k T);
               T = (case new_expiry_date inp g of None \<Rightarrow> T
                 | Some d \<Rightarrow> log_event (Ev_Expiry_Date_Updated d (gi_expiry_date g)) None r k T);
               T = (if up_add_tags inp = None \<and> up_remove_tags inp = None then T
                 else log_event (Ev_Tags_Updated (tags_of k T) old_tags) None r k T)
           in Inr (card_calls [Gift_Card_Updated k] T)))"

definition gift_card_activate :: "card_env \<Rightarrow> requestor \<Rightarrow> pk \<Rightarrow> card_tables \<Rightarrow> card_error + card_tables" where
  "gift_card_activate e r k T = (case get_card k T of None \<Rightarrow> Inl Gc_Not_Found
     | Some g \<Rightarrow> if \<not> clean_gift_card e g then Inl Gc_Expired
         else let T = set_active True k T; T = (if \<not> gi_is_active g then log_event Ev_Activated None r k T else T)
           in Inr (card_calls [Gift_Card_Status_Changed k] T))"

definition gift_card_deactivate :: "requestor \<Rightarrow> pk \<Rightarrow> card_tables \<Rightarrow> card_error + card_tables" where
  "gift_card_deactivate r k T = (case get_card k T of None \<Rightarrow> Inl Gc_Not_Found
     | Some g \<Rightarrow> let T = set_active False k T; T = (if gi_is_active g then log_event Ev_Deactivated None r k T else T)
         in Inr (card_calls [Gift_Card_Status_Changed k] T))"

definition set_active_many :: "bool \<Rightarrow> requestor \<Rightarrow> pk set \<Rightarrow> card_tables \<Rightarrow> card_tables" where
  \<comment> \<open>The \<open>bulk_action\<close> of activating and deactivating; the changed cards are the events' and calls'.\<close>
  "set_active_many b r ks T =
     (let changed = (\<lambda>g. gc_pk g \<in> ks \<and> gi_is_active g \<noteq> b); gs = filter changed (ct_cards T);
          T = update_cards changed (\<lambda>g. g\<lparr>gi_is_active := b\<rparr>) T;
          T = log_events (\<lambda>g. if b then Ev_Activated else Ev_Deactivated) None r gs T
      in card_calls (map (Gift_Card_Status_Changed \<circ> gc_pk) gs) T)"

definition nodes_exist :: "pk list \<Rightarrow> card_tables \<Rightarrow> bool" where
  \<comment> \<open>\<open>get_nodes_or_error\<close> finds all ids.\<close>
  "nodes_exist ks T \<longleftrightarrow> list_all (\<lambda>k. get_card k T \<noteq> None) ks"

definition gift_card_bulk_activate :: "card_env \<Rightarrow> requestor \<Rightarrow> pk list \<Rightarrow> card_tables \<Rightarrow> card_error + pk list \<times> card_tables" where
  \<comment> \<open>The ids with errors; the rows of the others are activated.\<close>
  "gift_card_bulk_activate e r ks T =
     (if \<not> nodes_exist ks T then Inl Gc_Not_Found
      else let gs = filter (\<lambda>g. gc_pk g \<in> set ks) (ct_cards T);
               clean_instance_ids = gc_pk ` set (filter (clean_gift_card e) gs)
        in Inr (map gc_pk (filter (Not \<circ> clean_gift_card e) gs),
                if clean_instance_ids = {} then T else set_active_many True r clean_instance_ids T))"

definition gift_card_bulk_deactivate :: "requestor \<Rightarrow> pk list \<Rightarrow> card_tables \<Rightarrow> card_error + card_tables" where
  "gift_card_bulk_deactivate r ks T =
     (if ks = [] then Inr T else if \<not> nodes_exist ks T then Inl Gc_Not_Found else Inr (set_active_many False r (set ks) T))"

definition gift_card_bulk_delete :: "pk list \<Rightarrow> card_tables \<Rightarrow> card_error + card_tables" where
  \<comment> \<open>Rows that refer to a deleted card are deleted with it.\<close>
  "gift_card_bulk_delete ks T =
     (if \<not> nodes_exist ks T then Inl Gc_Not_Found
      else let deleted = map gc_pk (filter (\<lambda>g. gc_pk g \<in> set ks) (ct_cards T))
        in Inr (card_calls (map Gift_Card_Deleted deleted)
             (T\<lparr>ct_cards := filter (\<lambda>g. gc_pk g \<notin> set ks) (ct_cards T),
                ct_card_tags := filter (\<lambda>p. snd p \<notin> set ks) (ct_card_tags T),
                ct_checkout_cards := filter (\<lambda>p. snd p \<notin> set ks) (ct_checkout_cards T),
                ct_events := filter (\<lambda>x. cx_card x \<notin> set ks) (ct_events T)\<rparr>)))"

definition gift_card_add_note :: "requestor \<Rightarrow> pk \<Rightarrow> string \<Rightarrow> card_tables \<Rightarrow> card_error + card_tables" where
  \<comment> \<open>The message is stripped by \<open>validate_required_string_field\<close> before.\<close>
  "gift_card_add_note r k message T = (case get_card k T of None \<Rightarrow> Inl Gc_Not_Found
     | Some g \<Rightarrow> if message = [] then Inl (Gc_Required ''message'')
         else Inr (card_calls [Gift_Card_Updated k] (log_event (Ev_Note_Added message) None r k T)))"

definition gift_card_resend :: "card_env \<Rightarrow> string option \<Rightarrow> pk \<Rightarrow> card_tables \<Rightarrow> card_error + card_tables" where
  "gift_card_resend e email k T =
     (if truthy email \<and> \<not> cv_valid_email e (the email) then Inl (Gc_Invalid ''email'')
      else case get_card k T of None \<Rightarrow> Inl Gc_Not_Found
      | Some g \<Rightarrow> if \<not> clean_gift_card e g then Inl Gc_Expired
          else let target_email = (if truthy email then email else if truthy (gc_used_by_email g) then gc_used_by_email g
                   else gi_created_by_email g)
            in Inr (card_calls [Send_Gift_Card k target_email True] T))"

section \<open>Codes of vouchers, \<open>graphql/discount/mutations/voucher\<close>\<close>

definition voucher_clean_code :: "card_env \<Rightarrow> string option \<Rightarrow> card_tables \<Rightarrow> (card_error + string option \<times> nat) option" where
  \<comment> \<open>\<open>VoucherCreate.clean_input\<close>, which \<open>VoucherUpdate\<close> inherits: the code to set, if any.\<close>
  "voucher_clean_code e code T = (case code of None \<Rightarrow> Some (Inr (None, ct_drawn T))
     | Some c \<Rightarrow> if c = [] then (case generate_promo_code e T (ct_drawn T) of None \<Rightarrow> None | Some (c, i) \<Rightarrow> Some (Inr (Some c, i)))
         else Some (if is_available_promo_code T c then Inr (Some c, ct_drawn T) else Inl Gc_Already_Exists))"

definition voucher_create :: "card_env \<Rightarrow> string option \<Rightarrow> card_tables \<Rightarrow> (card_error + card_tables) option" where
  \<comment> \<open>The code of a new voucher; the validators want one.\<close>
  "voucher_create e code T = (case voucher_clean_code e code T of None \<Rightarrow> None
     | Some (Inl er) \<Rightarrow> Some (Inl er)
     | Some (Inr (None, i)) \<Rightarrow> Some (Inl (Gc_Required ''code''))
     | Some (Inr (Some c, i)) \<Rightarrow> Some (Inr (T\<lparr>ct_voucher_codes := ct_voucher_codes T @ [c], ct_drawn := i\<rparr>)))"

definition voucher_update :: "card_env \<Rightarrow> string \<Rightarrow> string option \<Rightarrow> card_tables \<Rightarrow> (card_error + card_tables) option" where
  \<comment> \<open>Of the voucher with the code \<open>old\<close>.\<close>
  "voucher_update e old code T = (case voucher_clean_code e code T of None \<Rightarrow> None
     | Some (Inl er) \<Rightarrow> Some (Inl er)
     | Some (Inr (None, i)) \<Rightarrow> Some (Inr T)
     | Some (Inr (Some c, i)) \<Rightarrow>
         Some (Inr (T\<lparr>ct_voucher_codes := map (\<lambda>x. if x = old then c else x) (ct_voucher_codes T), ct_drawn := i\<rparr>)))"

definition voucher_delete :: "string \<Rightarrow> card_tables \<Rightarrow> card_tables" where
  "voucher_delete code T = T\<lparr>ct_voucher_codes := filter (\<lambda>x. x \<noteq> code) (ct_voucher_codes T)\<rparr>"

section \<open>Steps\<close>

inductive card_step :: "card_env \<Rightarrow> card_tables \<Rightarrow> card_tables \<Rightarrow> bool" for e where
  buy: "gift_cards_create e order_pk u email infos settings r T = Some (Inr (new, T')) \<Longrightarrow> card_step e T T'"
| create_one: "gift_card_create e u' app inp T = Some (Inr (g, T')) \<Longrightarrow> card_step e T T'"
| create_many: "gift_card_bulk_create e u' app binp T = Some (Inr (new, T')) \<Longrightarrow> card_step e T T'"
| update_one: "gift_card_update e r k uinp T = Inr T' \<Longrightarrow> card_step e T T'"
| activate: "gift_card_activate e r k T = Inr T' \<Longrightarrow> card_step e T T'"
| deactivate: "gift_card_deactivate r k T = Inr T' \<Longrightarrow> card_step e T T'"
| activate_many: "gift_card_bulk_activate e r ks T = Inr (errors, T') \<Longrightarrow> card_step e T T'"
| deactivate_many: "gift_card_bulk_deactivate r ks T = Inr T' \<Longrightarrow> card_step e T T'"
| delete_many: "gift_card_bulk_delete ks T = Inr T' \<Longrightarrow> card_step e T T'"
| add_note: "gift_card_add_note r k message T = Inr T' \<Longrightarrow> card_step e T T'"
| resend: "gift_card_resend e email' k T = Inr T' \<Longrightarrow> card_step e T T'"
| add_to_checkout: "add_gift_card_code_to_checkout e checkout code currency T = Inr T' \<Longrightarrow> card_step e T T'"
| remove_from_checkout: "remove_gift_card_code_from_checkout checkout code T = (b, T') \<Longrightarrow> card_step e T T'"
| cancel_order: "card_step e T (deactivate_order_gift_cards order_pk r T)"
| expire: "card_step e T (deactivate_expired_cards_task e T)"
| assign_user: "card_step e T (assign_user_gift_cards usr T)"
| new_voucher: "voucher_create e vcode T = Some (Inr T') \<Longrightarrow> card_step e T T'"
| change_voucher: "voucher_update e old vcode T = Some (Inr T') \<Longrightarrow> card_step e T T'"
| remove_voucher: "card_step e T (voucher_delete code T)"

text \<open>Every step has an environment of its own, as the day and the random bytes change from one to the next.\<close>

inductive card_steps :: "card_tables \<Rightarrow> card_tables \<Rightarrow> bool" where
  none: "card_steps T T"
| more_steps: "card_steps T T' \<Longrightarrow> card_step e T' T'' \<Longrightarrow> card_steps T T''"

section \<open>Codes are free, and drawing them ends\<close>

abbreviation byte_token :: "nat list \<Rightarrow> bool" where
  \<comment> \<open>What \<open>token_hex(nbytes=6)\<close> reads.\<close>
  "byte_token bs \<equiv> length bs = 6 \<and> list_all (\<lambda>b. b < 256) bs"

lemma upper_hex: "n < 16 \<Longrightarrow> upper_char (hex_digit n) = char_of (if n < 10 then 48 + n else 55 + n)"
  by (simp add: upper_char_def hex_digit_def Let_def)

lemma upper_hex_inject: "m < 16 \<Longrightarrow> n < 16 \<Longrightarrow> upper_char (hex_digit m) = upper_char (hex_digit n) \<longleftrightarrow> m = n"
  unfolding upper_hex char_of_eq_iff by (auto simp: take_bit_eq_mod split: if_splits)

lemma six_bytes:
  assumes "length bs = 6"
  obtains a b c d x y where "bs = [a, b, c, d, x, y]"
proof -
  have "6 = Suc (Suc (Suc (Suc (Suc (Suc 0)))))" by simp
  with assms obtain a b c d x y where "bs = [a, b, c, d, x, y]" by (auto simp: length_Suc_conv)
  with that show ?thesis by blast
qed

lemma slices_four [simp]: "slices 4 [] = []" "slices 4 (a # b # c # d # xs) = [a, b, c, d] # slices 4 xs"
  by (simp_all add: slices.simps [of 4 "[]"] slices.simps [of 4 "a # b # c # d # xs"])

lemma random_code:
  "generate_random_code [a, b, c, d, x, y] = (let h = (\<lambda>n. upper_char (hex_digit (n div 16))); l = (\<lambda>n. upper_char (hex_digit (n mod 16)))
     in [h a, l a, h b, l b, CHR ''-'', h c, l c, h d, l d, CHR ''-'', h x, l x, h y, l y])"
  by (simp add: generate_random_code_def token_hex_def Let_def)

lemma random_code_length: "length bs = 6 \<Longrightarrow> length (generate_random_code bs) = 14"
  by (erule six_bytes) (simp add: random_code Let_def)

lemma random_code_inject:
  assumes "byte_token bs" and "byte_token bs'"
  shows "generate_random_code bs = generate_random_code bs' \<longleftrightarrow> bs = bs'"
proof -
  have byte: "upper_char (hex_digit (m div 16)) = upper_char (hex_digit (n div 16))
    \<and> upper_char (hex_digit (m mod 16)) = upper_char (hex_digit (n mod 16)) \<longleftrightarrow> m = n" if "m < 256" "n < 256" for m n
  proof -
    have "m div 16 < 16" "n div 16 < 16" using that by simp_all
    then have "upper_char (hex_digit (m div 16)) = upper_char (hex_digit (n div 16)) \<longleftrightarrow> m div 16 = n div 16"
      "upper_char (hex_digit (m mod 16)) = upper_char (hex_digit (n mod 16)) \<longleftrightarrow> m mod 16 = n mod 16"
      by (simp_all add: upper_hex_inject)
    moreover have "m = n \<longleftrightarrow> m div 16 = n div 16 \<and> m mod 16 = n mod 16" by (metis div_mult_mod_eq)
    ultimately show ?thesis by simp
  qed
  from assms obtain a b c d x y a' b' c' d' x' y' where bs: "bs = [a, b, c, d, x, y]" "bs' = [a', b', c', d', x', y']"
    by (metis six_bytes)
  show ?thesis using assms byte [of a a'] byte [of b b'] byte [of c c'] byte [of d d'] byte [of x x'] byte [of y y']
    unfolding bs random_code Let_def by auto
qed

text \<open>What the loop returns: the first free code from where it begins.\<close>

abbreviation code_at :: "card_env \<Rightarrow> nat \<Rightarrow> string" where
  "code_at e i \<equiv> generate_random_code (cv_token e i)"

lemma promo_code_after:
  assumes "\<And>j. j < k \<Longrightarrow> \<not> is_available_promo_code T (code_at e (i + j))" and "is_available_promo_code T (code_at e (i + k))"
  shows "generate_promo_code e T i = Some (code_at e (i + k), Suc (i + k))"
  using assms
proof (induction k arbitrary: i)
  case (Suc k)
  have "\<And>j. j < k \<Longrightarrow> \<not> is_available_promo_code T (code_at e (Suc i + j))" using Suc.prems(1) [of "Suc _"] by simp
  with Suc.IH [of "Suc i"] Suc.prems(1) [of 0] Suc.prems(2) show ?case by (simp add: generate_promo_code.simps [of e T i])
qed (simp add: generate_promo_code.simps)

lemma promo_code_found:
  assumes "generate_promo_code e T i = Some r"
  shows "is_available_promo_code T (fst r) \<and> i < snd r \<and> fst r = code_at e (snd r - 1)"
  by (rule generate_promo_code.raw_induct [where P = "\<lambda>e T i r. is_available_promo_code T (fst r) \<and> i < snd r \<and> fst r = code_at e (snd r - 1)"])
    (use assms in \<open>fastforce simp: Let_def split: if_splits\<close>)+

definition taken :: "card_tables \<Rightarrow> string list" where
  "taken T = map gc_code (ct_cards T) @ ct_voucher_codes T"

lemma available_iff: "is_available_promo_code T code \<longleftrightarrow> code \<notin> set (taken T)"
  by (auto simp: is_available_promo_code_def promo_code_is_gift_card_def promo_code_is_voucher_def taken_def list_ex_iff)

definition fresh_tokens :: "card_env \<Rightarrow> nat \<Rightarrow> nat \<Rightarrow> bool" where
  \<comment> \<open>The next \<open>n\<close> tokens have six bytes each and are different.\<close>
  "fresh_tokens e i n \<longleftrightarrow> list_all byte_token (map (cv_token e) [i..<i + n]) \<and> distinct (map (cv_token e) [i..<i + n])"

text \<open>
  \<open>generate_promo_code\<close> returns where the random tokens that it reads differ: of one more than there are codes in use,
  one gives a free code, and the first such is returned.
\<close>
lemma generate_promo_code_returns:
  assumes "fresh_tokens e i n" and "length (taken T) < n"
  shows "\<exists>k < n. generate_promo_code e T i = Some (code_at e (i + k), Suc (i + k)) \<and> is_available_promo_code T (code_at e (i + k))"
proof -
  let ?codes = "map (code_at e) [i..<i + n]"
  have "inj_on (code_at e) {i..<i + n}"
    using assms(1) random_code_inject by (auto simp: fresh_tokens_def inj_on_def distinct_map list_all_iff)
  then have "card (set ?codes) = n" by (simp add: card_image)
  moreover have "card (set (taken T)) < n" using card_length [of "taken T"] assms(2) by linarith
  ultimately have "\<not> set ?codes \<subseteq> set (taken T)" using card_mono [of "set (taken T)" "set ?codes"] by auto
  then obtain m where m: "m < n" "is_available_promo_code T (code_at e (i + m))"
    unfolding available_iff by (auto simp: image_iff) (metis add_diff_inverse_nat add_less_cancel_left not_less)
  define k where "k = (LEAST k. is_available_promo_code T (code_at e (i + k)))"
  have "is_available_promo_code T (code_at e (i + k))" unfolding k_def by (rule LeastI [of _ m]) (rule m(2))
  moreover have "k \<le> m" unfolding k_def by (rule Least_le) (rule m(2))
  moreover have "\<not> is_available_promo_code T (code_at e (i + j))" if "j < k" for j
    using not_less_Least [OF that [unfolded k_def]] .
  ultimately show ?thesis using m(1) promo_code_after [of k T e i] by (intro exI [of _ k]) auto
qed

section \<open>Several codes\<close>

abbreviation free_codes :: "card_env \<Rightarrow> card_tables \<Rightarrow> nat \<Rightarrow> nat \<Rightarrow> string list" where
  "free_codes e T i m \<equiv> filter (is_available_promo_code T) (map (code_at e) [i..<m])"

lemma next_free_code:
  "free_codes e T i m = c # cs \<Longrightarrow> \<exists>i'. generate_promo_code e T i = Some (c, i') \<and> free_codes e T i' m = cs"
proof (induction "m - i" arbitrary: i)
  case (Suc n)
  then have "[i..<m] = i # [Suc i..<m]" by (simp add: upt_conv_Cons)
  with Suc show ?case by (cases "is_available_promo_code T (code_at e i)") (auto simp: generate_promo_code.simps [of e T i])
qed simp

lemma next_free_codes:
  "n \<le> length (free_codes e T i m) \<Longrightarrow>
   \<exists>i'. generate_promo_codes e T n i = Some (take n (free_codes e T i m), i') \<and> free_codes e T i' m = drop n (free_codes e T i m)"
proof (induction n arbitrary: i)
  case (Suc n)
  then obtain c cs where cs: "free_codes e T i m = c # cs" by (cases "free_codes e T i m") auto
  from next_free_code [OF cs] obtain i' where i': "generate_promo_code e T i = Some (c, i')" "free_codes e T i' m = cs" by blast
  from Suc.IH [of i'] Suc.prems cs i' show ?case by auto
qed simp

lemma many_free_codes:
  assumes "fresh_tokens e i n"
  shows "n - length (taken T) \<le> length (free_codes e T i (i + n))" and "distinct (free_codes e T i (i + n))"
proof -
  let ?codes = "map (code_at e) [i..<i + n]"
  have "inj_on (code_at e) {i..<i + n}"
    using assms(1) random_code_inject by (auto simp: fresh_tokens_def inj_on_def distinct_map list_all_iff)
  then have codes: "distinct ?codes" by (simp add: distinct_map)
  then show dist: "distinct (free_codes e T i (i + n))" by simp
  have "set (free_codes e T i (i + n)) = set ?codes - set (taken T)" by (auto simp: available_iff)
  then have "card (set ?codes) - card (set (taken T)) \<le> card (set (free_codes e T i (i + n)))" by (simp add: diff_card_le_card_Diff)
  moreover have "card (set ?codes) = n" using distinct_card [OF codes] by simp
  ultimately show "n - length (taken T) \<le> length (free_codes e T i (i + n))"
    using distinct_card [OF dist] card_length [of "taken T"] by linarith
qed

definition pieces :: "gift_card_line_data list \<Rightarrow> gift_card_line_data list" where
  "pieces infos = concat (map (\<lambda>l. replicate (nat (gl_quantity l)) l) infos)"

lemma pieces_simps [simp]: "pieces [] = []" "pieces (l # ls) = replicate (nat (gl_quantity l)) l @ pieces ls"
  by (simp_all add: pieces_def)

lemma zip_replicate_map: "zip (replicate (length xs) l) xs = map (Pair l) xs"
  by (induction xs) auto

lemma cards_of_lines_return:
  assumes "length (pieces infos) \<le> length (free_codes e T i m)"
  shows "\<exists>i'. cards_of_lines e T build infos i = Some (map (\<lambda>(l, c). (l, build l c)) (zip (pieces infos) (free_codes e T i m)), i')"
  using assms
proof (induction infos arbitrary: i)
  case (Cons l ls)
  let ?n = "nat (gl_quantity l)" and ?cs = "free_codes e T i m"
  from next_free_codes [where n = ?n and e = e and T = T and i = i and m = m] Cons.prems obtain i1 where
    i1: "generate_promo_codes e T ?n i = Some (take ?n ?cs, i1)" "free_codes e T i1 m = drop ?n ?cs" by auto
  with Cons.prems have "length (pieces ls) \<le> length (free_codes e T i1 m)" by simp
  from Cons.IH [OF this] obtain i' where
    "cards_of_lines e T build ls i1 = Some (map (\<lambda>(l, c). (l, build l c)) (zip (pieces ls) (free_codes e T i1 m)), i')" by blast
  moreover have "zip (pieces (l # ls)) ?cs = map (Pair l) (take ?n ?cs) @ zip (pieces ls) (drop ?n ?cs)"
    using Cons.prems zip_replicate_map [of "take ?n ?cs" l] by (simp add: zip_append1)
  ultimately show ?case using i1 by (simp add: comp_def)
qed simp

lemma promo_codes_available:
  "generate_promo_codes e T n i = Some (codes, i') \<Longrightarrow> length codes = n \<and> list_all (is_available_promo_code T) codes"
  by (induction n arbitrary: i codes i') (fastforce dest: promo_code_found split: option.splits)+

lemma cards_of_lines_found:
  "cards_of_lines e T build infos i = Some (gs, i') \<Longrightarrow>
   \<exists>codes. gs = map (\<lambda>(l, c). (l, build l c)) (zip (pieces infos) codes) \<and> length codes = length (pieces infos)
     \<and> list_all (is_available_promo_code T) codes"
proof (induction infos arbitrary: i gs i')
  case (Cons l ls)
  from Cons.prems obtain cs i1 gs1 where cs: "generate_promo_codes e T (nat (gl_quantity l)) i = Some (cs, i1)"
    and gs1: "cards_of_lines e T build ls i1 = Some (gs1, i')" and gs: "gs = map (\<lambda>c. (l, build l c)) cs @ gs1"
    by (auto split: option.splits)
  note cs = promo_codes_available [OF cs]
  from Cons.IH [OF gs1] obtain codes where codes: "gs1 = map (\<lambda>(l, c). (l, build l c)) (zip (pieces ls) codes)"
    "length codes = length (pieces ls)" "list_all (is_available_promo_code T) codes" by blast
  have "zip (pieces (l # ls)) (cs @ codes) = map (Pair l) cs @ zip (pieces ls) codes"
    using cs zip_replicate_map [of cs l] by (simp add: zip_append)
  with cs codes gs show ?case by (intro exI [of _ "cs @ codes"]) (simp add: comp_def)
qed simp

section \<open>Cards that are bought\<close>

lemma create_cards_Inr:
  "create_cards gs T = Inr (new, T') \<longleftrightarrow> distinct (map gc_code (ct_cards T @ gs))
    \<and> new = map (\<lambda>(k, g). g\<lparr>gc_pk := k\<rparr>) (zip [ct_seq T..<ct_seq T + length gs] gs)
    \<and> T' = T\<lparr>ct_cards := ct_cards T @ new, ct_seq := ct_seq T + length gs\<rparr>"
  by (auto simp: create_cards_def Let_def)

lemma numbered_codes: "length ks = length gs \<Longrightarrow> map gc_code (map (\<lambda>(k, g). g\<lparr>gc_pk := k\<rparr>) (zip ks gs)) = map gc_code gs"
  for gs :: "issued_card list"
  by (induction ks gs rule: list_induct2) auto

lemma numbered_pks: "length ks = length gs \<Longrightarrow> map gc_pk (map (\<lambda>(k, g). g\<lparr>gc_pk := k\<rparr>) (zip ks gs)) = ks"
  for gs :: "issued_card list"
  by (induction ks gs rule: list_induct2) auto

definition sold_as :: "pk option \<Rightarrow> string \<Rightarrow> time option \<Rightarrow> gift_card_line_data \<Rightarrow> issued_card \<Rightarrow> bool" where
  \<comment> \<open>An active card for the price of the line, in its currency, for the customer.\<close>
  "sold_as customer_user user_email expiry_date l g \<longleftrightarrow> gi_is_active g \<and> gi_expiry_date g = expiry_date
     \<and> gc_currency g = m_currency (gl_unit_price_gross l) \<and> gc_current_balance_amount g = m_amount (gl_unit_price_gross l)
     \<and> gi_initial_balance_amount g = m_amount (gl_unit_price_gross l) \<and> gi_fulfillment_line g = Some (gl_fulfillment_line l)
     \<and> gi_created_by g = customer_user \<and> gi_created_by_email g = Some user_email"

text \<open>
  C38: Fulfilling gift card lines issues one card per piece, for the price of its line, active, with the expiry date of the
  settings, and with a code that no card and no voucher has; the event of each card names the order, and exactly the
  cards that are not shipped are sent to the customer.
\<close>
theorem gift_cards_create_exact:
  assumes "gift_cards_create e order_pk customer_user user_email infos settings r T = Some (Inr (new, T'))"
  shows "(\<exists>d. calculate_expiry_date e settings = Inr d \<and> list_all2 (sold_as customer_user user_email d) (pieces infos) new)
    \<and> ct_cards T' = ct_cards T @ new \<and> distinct (map gc_code (ct_cards T')) \<and> list_all (is_available_promo_code T) (map gc_code new)
    \<and> ct_events T' = ct_events T @ map (\<lambda>g. \<lparr>cx_kind = Ev_Bought (gi_expiry_date g), cx_card = gc_pk g, cx_order = Some order_pk,
        cx_requestor = r\<rparr>) new
    \<and> ct_calls T' = ct_calls T @ map (Gift_Card_Created \<circ> gc_pk) new
        @ map (\<lambda>(l, g). Send_Gift_Card (gc_pk g) (Some user_email) False)
            (filter (\<lambda>(l, g). \<not> gl_is_shipping_required l) (zip (pieces infos) new))"
proof -
  let ?build = "bought_card customer_user user_email"
  from assms obtain d gs i T1 where d: "calculate_expiry_date e settings = Inr d"
    and gs: "cards_of_lines e T (?build d) infos (ct_drawn T) = Some (gs, i)" and new: "create_cards (map snd gs) T = Inr (new, T1)"
    and T': "T' = (card_calls (map (Gift_Card_Created \<circ> gc_pk) new @ map (\<lambda>g. Send_Gift_Card (gc_pk g) (Some user_email) False)
        (map snd (filter (\<lambda>(l, g). \<not> gl_is_shipping_required l) (zip (map fst gs) new))))
        (log_events (\<lambda>g. Ev_Bought (gi_expiry_date g)) (Some order_pk) r new T1))\<lparr>ct_drawn := i\<rparr>"
    by (auto simp: gift_cards_create_def Let_def split: sum.splits option.splits prod.splits)
  from cards_of_lines_found [OF gs] obtain codes where
    codes: "gs = map (\<lambda>(l, c). (l, ?build d l c)) (zip (pieces infos) codes)" "length codes = length (pieces infos)"
      "list_all (is_available_promo_code T) codes" by blast
  have lines: "map fst gs = pieces infos" using codes(1,2) by (simp add: comp_def case_prod_beta')
  let ?n = "length (pieces infos)" and ?ks = "[ct_seq T..<ct_seq T + length gs]"
  have len: "length gs = ?n" "length ?ks = length (map snd gs)" using codes(1,2) by simp_all
  from new have new': "distinct (map gc_code (ct_cards T @ map snd gs))" "new = map (\<lambda>(k, g). g\<lparr>gc_pk := k\<rparr>) (zip ?ks (map snd gs))"
    "T1 = T\<lparr>ct_cards := ct_cards T @ new, ct_seq := ct_seq T + length gs\<rparr>"
    unfolding create_cards_Inr by auto
  have new_codes: "map gc_code new = map gc_code (map snd gs)" unfolding new'(2) by (rule numbered_codes [OF len(2)])
  also have "\<dots> = codes" using codes(1,2) by (simp add: comp_def case_prod_beta' bought_card_def)
  finally have available: "list_all (is_available_promo_code T) (map gc_code new)" using codes(3) by simp
  have "list_all2 (sold_as customer_user user_email d) (pieces infos) new"
  proof (rule list_all2_all_nthI)
    show "length (pieces infos) = length new" using len new'(2) by simp
    fix j assume "j < length (pieces infos)"
    with len codes new'(2) show "sold_as customer_user user_email d (pieces infos ! j) (new ! j)"
      by (simp add: sold_as_def bought_card_def)
  qed
  moreover have "distinct (map gc_code (ct_cards T @ new))" using new'(1) new_codes by simp
  ultimately show ?thesis using d available
    by (simp add: T' new'(3) card_calls_def log_events_def lines comp_def case_prod_beta')
qed

text \<open>
  C39: Where the random tokens that are read next differ, issuing the cards of an order returns and succeeds, however many
  codes are in use: the loops over random codes end, and no two codes of the batch collide.
\<close>
theorem gift_cards_create_returns:
  assumes "fresh_tokens e (ct_drawn T) (length (taken T) + length (pieces infos))" and "distinct (map gc_code (ct_cards T))"
    and "calculate_expiry_date e settings = Inr d"
  shows "\<exists>new T'. gift_cards_create e order_pk customer_user user_email infos settings r T = Some (Inr (new, T'))"
proof -
  let ?m = "ct_drawn T + (length (taken T) + length (pieces infos))" and ?build = "bought_card customer_user user_email d"
  have len: "length (pieces infos) \<le> length (free_codes e T (ct_drawn T) ?m)" and dist: "distinct (free_codes e T (ct_drawn T) ?m)"
    using many_free_codes [OF assms(1), of T] by simp_all
  let ?cs = "take (length (pieces infos)) (free_codes e T (ct_drawn T) ?m)"
  have build: "map (gc_code \<circ> snd) (map (\<lambda>(l, c). (l, ?build l c)) (zip (pieces infos) cs)) = take (length (pieces infos)) cs" for cs
    by (simp add: comp_def case_prod_beta' bought_card_def map_snd_zip_take min_def)
  from cards_of_lines_return [OF len, of ?build] obtain gs i where gs: "cards_of_lines e T ?build infos (ct_drawn T) = Some (gs, i)"
    and codes: "map gc_code (map snd gs) = ?cs" unfolding map_map using build by blast
  have "distinct ?cs" using dist by simp
  moreover have "set ?cs \<inter> gc_code ` set (ct_cards T) = {}"
    using set_take_subset [of "length (pieces infos)" "free_codes e T (ct_drawn T) ?m"] by (auto simp: available_iff taken_def)
  ultimately have "distinct (map gc_code (ct_cards T @ map snd gs))"
    using assms(2) unfolding map_append codes by (simp only: distinct_append) auto
  then obtain new T1 where "create_cards (map snd gs) T = Inr (new, T1)" by (simp add: create_cards_def Let_def)
  then show ?thesis by (simp add: gift_cards_create_def assms(3) gs Let_def)
qed

section \<open>Codes stay unambiguous\<close>

definition cards_ok :: "card_tables \<Rightarrow> bool" where
  \<comment> \<open>Codes name one card or one voucher, keys are keys, and the rows that refer to cards refer to existing ones.\<close>
  "cards_ok T \<longleftrightarrow> distinct (taken T) \<and> distinct (map gc_pk (ct_cards T)) \<and> (\<forall>g \<in> set (ct_cards T). gc_pk g < ct_seq T)
    \<and> snd ` set (ct_card_tags T) \<subseteq> gc_pk ` set (ct_cards T) \<and> snd ` set (ct_checkout_cards T) \<subseteq> gc_pk ` set (ct_cards T)
    \<and> cx_card ` set (ct_events T) \<subseteq> gc_pk ` set (ct_cards T)"

lemma cards_okD:
  assumes "cards_ok T"
  shows "distinct (map gc_code (ct_cards T))" "distinct (ct_voucher_codes T)" "gc_code ` set (ct_cards T) \<inter> set (ct_voucher_codes T) = {}"
  using assms by (auto simp: cards_ok_def taken_def)

lemma cards_ok_calls [simp]: "cards_ok (card_calls cs T) \<longleftrightarrow> cards_ok T" "cards_ok (T\<lparr>ct_drawn := i\<rparr>) \<longleftrightarrow> cards_ok T"
  "cards_ok (create_tags tags T) \<longleftrightarrow> cards_ok T"
  by (simp_all add: cards_ok_def card_calls_def create_tags_def taken_def)

lemma cards_ok_update:
  assumes "\<And>g. gc_code (f g) = gc_code g \<and> gc_pk (f g) = gc_pk g"
  shows "cards_ok (update_cards P f T) \<longleftrightarrow> cards_ok T"
proof -
  have same: "map gc_code (map (\<lambda>g. if P g then f g else g) gs) = map gc_code gs"
    "map gc_pk (map (\<lambda>g. if P g then f g else g) gs) = map gc_pk gs" for gs using assms by simp_all
  have pks: "gc_pk ` set (ct_cards (update_cards P f T)) = gc_pk ` set (ct_cards T)"
    unfolding set_map [symmetric] update_cards_def by (simp add: same(2) del: set_map map_map)
  have less: "(\<forall>g \<in> set gs. gc_pk g < k) \<longleftrightarrow> (\<forall>x \<in> gc_pk ` set gs. x < k)" for gs :: "issued_card list" and k by simp
  show ?thesis unfolding cards_ok_def less pks taken_def
    unfolding update_cards_def by (simp add: same del: map_map)
qed

lemma cards_ok_log: "k \<in> gc_pk ` set (ct_cards T) \<Longrightarrow> cards_ok (log_event kind order_pk r k T) \<longleftrightarrow> cards_ok T"
  "set gs \<subseteq> set (ct_cards T) \<Longrightarrow> cards_ok (log_events f order_pk r gs T) \<longleftrightarrow> cards_ok T"
  by (auto simp: cards_ok_def log_event_def log_events_def taken_def)

lemma log_simps [simp]: "ct_cards (log_event kind order_pk r k T) = ct_cards T" "ct_cards (log_events f order_pk r gs T) = ct_cards T"
  "ct_cards (card_calls cs T) = ct_cards T" "ct_cards (create_tags tags T) = ct_cards T"
  "ct_cards (assign_gift_card_tags k tags T) = ct_cards T" "ct_cards (bulk_assign_gift_card_tags ks tags T) = ct_cards T"
  "ct_cards (remove_tags k tags T) = ct_cards T"
  by (simp_all add: log_event_def log_events_def card_calls_def create_tags_def assign_gift_card_tags_def
    bulk_assign_gift_card_tags_def remove_tags_def Let_def)

lemma cards_ok_tags:
  "k \<in> gc_pk ` set (ct_cards T) \<Longrightarrow> cards_ok T \<Longrightarrow> cards_ok (assign_gift_card_tags k tags T)"
  "set ks \<subseteq> gc_pk ` set (ct_cards T) \<Longrightarrow> cards_ok T \<Longrightarrow> cards_ok (bulk_assign_gift_card_tags ks tags T)"
  "cards_ok T \<Longrightarrow> cards_ok (remove_tags k tags T)"
  by (auto simp: cards_ok_def assign_gift_card_tags_def bulk_assign_gift_card_tags_def remove_tags_def create_tags_def taken_def Let_def)

lemma cards_ok_create:
  assumes "create_cards gs T = Inr (new, T')" and "cards_ok T" and "list_all (is_available_promo_code T) (map gc_code gs)"
  shows "cards_ok T'" and "set new \<subseteq> set (ct_cards T')"
proof -
  let ?ks = "[ct_seq T..<ct_seq T + length gs]"
  from assms(1) have dist: "distinct (map gc_code (ct_cards T @ gs))" and new: "new = map (\<lambda>(k, g). g\<lparr>gc_pk := k\<rparr>) (zip ?ks gs)"
    and T': "T' = T\<lparr>ct_cards := ct_cards T @ new, ct_seq := ct_seq T + length gs\<rparr>" unfolding create_cards_Inr by auto
  have codes: "map gc_code new = map gc_code gs" and pks: "map gc_pk new = ?ks"
    unfolding new by (rule numbered_codes, simp, rule numbered_pks, simp)
  have "set (map gc_code gs) \<inter> set (ct_voucher_codes T) = {}" using assms(3) by (auto simp: list_all_iff available_iff taken_def)
  with dist cards_okD [OF assms(2)] have "distinct (taken T')" unfolding taken_def T' by (auto simp: codes [symmetric])
  moreover have "distinct (map gc_pk (ct_cards T'))" and "\<forall>g \<in> set (ct_cards T'). gc_pk g < ct_seq T'"
  proof -
    have "gc_pk g < ct_seq T" if "g \<in> set (ct_cards T)" for g using assms(2) that by (auto simp: cards_ok_def)
    moreover have "ct_seq T \<le> gc_pk g \<and> gc_pk g < ct_seq T + length gs" if "g \<in> set new" for g
    proof -
      from that have "gc_pk g \<in> set (map gc_pk new)" by simp
      then show ?thesis unfolding pks by simp
    qed
    moreover have "distinct (map gc_pk new)" unfolding pks by simp
    ultimately show "distinct (map gc_pk (ct_cards T'))" "\<forall>g \<in> set (ct_cards T'). gc_pk g < ct_seq T'"
      using assms(2) by (fastforce simp: T' cards_ok_def)+
  qed
  ultimately show "cards_ok T'" using assms(2) unfolding cards_ok_def T' by auto
  show "set new \<subseteq> set (ct_cards T')" by (simp add: T')
qed

lemma update_cards_set: "k \<in> gc_pk ` set (ct_cards (update_cards P f T)) \<longleftrightarrow> k \<in> gc_pk ` set (ct_cards T)"
  if "\<And>g. gc_pk (f g) = gc_pk g"
proof -
  have "map gc_pk (map (\<lambda>g. if P g then f g else g) (ct_cards T)) = map gc_pk (ct_cards T)" using that by simp
  then have "set (map gc_pk (ct_cards (update_cards P f T))) = set (map gc_pk (ct_cards T))" by (simp add: update_cards_def del: set_map map_map)
  then show ?thesis by simp
qed

lemma get_card_pk: "get_card k T = Some g \<Longrightarrow> k \<in> gc_pk ` set (ct_cards T)"
  by (auto simp: get_card_def find_Some_iff)

lemma cards_ok_set_active: "cards_ok T \<Longrightarrow> cards_ok (set_active b k T)"
  "k' \<in> gc_pk ` set (ct_cards (set_active b k T)) \<longleftrightarrow> k' \<in> gc_pk ` set (ct_cards T)"
  unfolding set_active_def by (simp_all add: cards_ok_update update_cards_set)

lemma filter_update_subset: "set (filter P (ct_cards T)) \<subseteq> set (ct_cards T)" by auto

lemma cards_ok_log_updated:
  assumes "\<And>g. gc_code (f g) = gc_code g \<and> gc_pk (f g) = gc_pk g" and "cards_ok T" and "set gs \<subseteq> set (ct_cards T)"
  shows "cards_ok (log_events kind order_pk r gs (update_cards P f T))"
proof -
  let ?T = "update_cards P f T"
  have ok: "cards_ok ?T" using assms(1,2) by (simp add: cards_ok_update)
  have "gc_pk ` set gs \<subseteq> gc_pk ` set (ct_cards ?T)"
  proof
    fix k assume "k \<in> gc_pk ` set gs"
    then have "k \<in> gc_pk ` set (ct_cards T)" using assms(3) by auto
    then show "k \<in> gc_pk ` set (ct_cards ?T)" using assms(1) by (simp add: update_cards_set)
  qed
  with ok show ?thesis by (auto simp: cards_ok_def log_events_def taken_def)
qed

lemma cards_ok_set_active_many: "cards_ok T \<Longrightarrow> cards_ok (set_active_many b r ks T)"
  unfolding set_active_many_def Let_def cards_ok_calls by (rule cards_ok_log_updated) auto

lemma promo_codes_distinct_created:
  "generate_promo_codes e T n i = Some (codes, i') \<Longrightarrow> list_all (is_available_promo_code T) codes"
  by (drule promo_codes_available) simp

lemma gift_card_create_ok:
  assumes "gift_card_create e u app inp T = Some (Inr (g, T'))" and "cards_ok T"
  shows "cards_ok T'"
proof -
  from assms(1) obtain code i new T1 where
    code: "(if truthy (in_code inp) then Some (the (in_code inp), ct_drawn T) else generate_promo_code e T (ct_drawn T)) = Some (code, i)"
    and clean: "clean_create_input e inp T = None"
    and new: "create_cards [issued u (in_amount inp) (in_currency inp) (in_expiry_date inp) (in_is_active inp) code] T = Inr (new, T1)"
    and g: "g = hd new"
    by (auto simp: gift_card_create_def Let_def split: option.splits sum.splits prod.splits)
  have "is_available_promo_code T code"
  proof (cases "truthy (in_code inp)")
    case True
    with code clean show ?thesis by (auto simp: clean_create_input_def split: if_splits)
  next
    case False
    then have "generate_promo_code e T (ct_drawn T) = Some (code, i)" using code by simp
    from promo_code_found [OF this] have "is_available_promo_code T (fst (code, i))" by blast
    then show ?thesis by simp
  qed
  then have ok1: "cards_ok T1" "set new \<subseteq> set (ct_cards T1)" using cards_ok_create [OF new assms(2)] by (simp_all add: issued_def)
  have "new \<noteq> []" using new by (auto simp: create_cards_Inr)
  then have k: "gc_pk (hd new) \<in> gc_pk ` set (ct_cards T1)" using ok1(2) by (cases new) auto
  show ?thesis using assms(1) code clean new ok1 k
    by (auto simp: gift_card_create_def Let_def cards_ok_log cards_ok_tags split: option.splits sum.splits prod.splits if_splits)
qed

lemma gift_card_bulk_create_ok:
  assumes "gift_card_bulk_create e u app inp T = Some (Inr (new, T'))" and "cards_ok T"
  shows "cards_ok T'"
proof -
  from assms(1) obtain codes i T1 where codes: "generate_promo_codes e T (nat (bk_count inp)) (ct_drawn T) = Some (codes, i)"
    and new: "create_cards (map (issued u (bk_amount inp) (bk_currency inp) (bk_expiry_date inp) (bk_is_active inp)) codes) T = Inr (new, T1)"
    and T': "T' = (card_calls (map (Gift_Card_Created \<circ> gc_pk) new) (let T = log_events issued_event None (requestor_of u app) new T1
      in if bk_tags inp = [] then T else bulk_assign_gift_card_tags (map gc_pk new) (bk_tags inp) T))\<lparr>ct_drawn := i\<rparr>"
    by (auto simp: gift_card_bulk_create_def Let_def split: option.splits sum.splits prod.splits if_splits)
  have "list_all (is_available_promo_code T) (map gc_code (map (issued u (bk_amount inp) (bk_currency inp) (bk_expiry_date inp)
      (bk_is_active inp)) codes))"
    using promo_codes_available [OF codes] by (simp add: issued_def comp_def)
  note ok1 = cards_ok_create [OF new assms(2) this]
  have "set (map gc_pk new) \<subseteq> gc_pk ` set (ct_cards (log_events issued_event None (requestor_of u app) new T1))" using ok1(2) by auto
  with ok1 show ?thesis unfolding T' Let_def by (simp add: cards_ok_log cards_ok_tags del: set_map)
qed

lemma gift_cards_create_ok:
  assumes "gift_cards_create e order_pk u email infos settings r T = Some (Inr (new, T'))" and "cards_ok T"
  shows "cards_ok T'"
proof -
  from assms(1) obtain d gs i T1 where gs: "cards_of_lines e T (bought_card u email d) infos (ct_drawn T) = Some (gs, i)"
    and new: "create_cards (map snd gs) T = Inr (new, T1)"
    and T': "T' = (card_calls (map (Gift_Card_Created \<circ> gc_pk) new @ map (\<lambda>g. Send_Gift_Card (gc_pk g) (Some email) False)
        (map snd (filter (\<lambda>(l, g). \<not> gl_is_shipping_required l) (zip (map fst gs) new))))
        (log_events (\<lambda>g. Ev_Bought (gi_expiry_date g)) (Some order_pk) r new T1))\<lparr>ct_drawn := i\<rparr>"
    by (auto simp: gift_cards_create_def Let_def split: sum.splits option.splits prod.splits)
  from cards_of_lines_found [OF gs] have "list_all (is_available_promo_code T) (map gc_code (map snd gs))"
    by (auto simp: comp_def case_prod_beta' bought_card_def list_all_iff dest!: set_zip_rightD)
  from cards_ok_create [OF new assms(2) this] T' show ?thesis by (auto simp: cards_ok_log)
qed

lemma gift_card_update_ok:
  assumes "gift_card_update e r k inp T = Inr T'" and "cards_ok T"
  shows "cards_ok T'"
proof -
  from assms(1) obtain g where g: "get_card k T = Some g" by (auto simp: gift_card_update_def split: option.splits)
  then have gk: "gc_pk g = k" by (auto simp: get_card_def find_Some_iff)
  let ?g = "updated_card inp g"
  have same: "gc_pk ?g = gc_pk g" "gc_code ?g = gc_code g"
    by (simp_all add: updated_card_def Let_def split: option.splits)
  have "g \<in> set (ct_cards T)" using g by (auto simp: get_card_def find_Some_iff)
  then have only: "x = g" if "x \<in> set (ct_cards T)" "gc_pk x = k" for x
    using that gk assms(2) by (auto simp: cards_ok_def distinct_map dest: inj_onD)
  let ?f = "\<lambda>x. if x = g then ?g else x"
  have "update_cards (\<lambda>x. gc_pk x = k) (\<lambda>x. ?g) T = update_cards (\<lambda>x. gc_pk x = k) ?f T"
    using only by (simp add: update_cards_def)
  moreover have "cards_ok (update_cards (\<lambda>x. gc_pk x = k) ?f T)" using assms(2) same by (subst cards_ok_update) auto
  moreover have "k \<in> gc_pk ` set (ct_cards (update_cards (\<lambda>x. gc_pk x = k) ?f T))"
    using get_card_pk [OF g] same by (subst update_cards_set) auto
  ultimately have ok: "cards_ok (update_cards (\<lambda>x. gc_pk x = k) (\<lambda>x. ?g) T)"
    and k: "k \<in> gc_pk ` set (ct_cards (update_cards (\<lambda>x. gc_pk x = k) (\<lambda>x. ?g) T))" by simp_all
  show ?thesis using assms(1) g ok k
    by (auto simp: gift_card_update_def Let_def cards_ok_log cards_ok_tags split: option.splits if_splits)
qed

lemma kept_refs: "f ` set xs \<subseteq> gc_pk ` set cs \<Longrightarrow>
  f ` set (filter (\<lambda>x. f x \<notin> set ks) xs) \<subseteq> gc_pk ` set (filter (\<lambda>g. gc_pk g \<notin> set ks) cs)"
  by (fastforce simp: image_subset_iff)

lemma cards_ok_delete:
  assumes "gift_card_bulk_delete ks T = Inr T'" and "cards_ok T"
  shows "cards_ok T'"
proof -
  let ?gs = "filter (\<lambda>g. gc_pk g \<notin> set ks) (ct_cards T)"
  from assms(1) obtain cs where T': "T' = card_calls cs (T\<lparr>ct_cards := ?gs, ct_card_tags := filter (\<lambda>p. snd p \<notin> set ks) (ct_card_tags T),
      ct_checkout_cards := filter (\<lambda>p. snd p \<notin> set ks) (ct_checkout_cards T),
      ct_events := filter (\<lambda>x. cx_card x \<notin> set ks) (ct_events T)\<rparr>)"
    by (auto simp: gift_card_bulk_delete_def Let_def split: if_splits)
  have "distinct (map gc_code ?gs)" "distinct (map gc_pk ?gs)" using cards_okD(1) [OF assms(2)] assms(2)
    by (simp_all add: cards_ok_def distinct_map_filter)
  moreover have "gc_code ` set ?gs \<inter> set (ct_voucher_codes T) = {}" using cards_okD(3) [OF assms(2)] by auto
  moreover have "\<forall>g \<in> set ?gs. gc_pk g < ct_seq T" using assms(2) by (simp add: cards_ok_def)
  ultimately show ?thesis using assms(2) cards_okD(2) [OF assms(2)] unfolding T' cards_ok_calls
    by (simp add: cards_ok_def taken_def kept_refs del: set_filter)
qed

lemma cards_ok_voucher:
  assumes "voucher_clean_code e code T = Some (Inr (Some c, i))" and "cards_ok T"
  shows "is_available_promo_code T c"
  using assms by (auto simp: voucher_clean_code_def dest!: promo_code_found split: option.splits if_splits)

lemma replaced_distinct: "distinct xs \<Longrightarrow> c \<notin> set xs \<Longrightarrow> distinct (map (\<lambda>x. if x = old then c else x) xs)"
  by (induction xs) (auto split: if_splits)

lemma cards_ok_checkout: "g \<in> set (ct_cards T) \<Longrightarrow> cards_ok T \<Longrightarrow> cards_ok (T\<lparr>ct_checkout_cards := ct_checkout_cards T @ [(c, gc_pk g)]\<rparr>)"
  by (simp add: cards_ok_def taken_def)

lemma cards_ok_fewer: "set xs \<subseteq> set (ct_checkout_cards T) \<Longrightarrow> cards_ok T \<Longrightarrow> cards_ok (T\<lparr>ct_checkout_cards := xs\<rparr>)"
  unfolding cards_ok_def taken_def by simp (meson image_mono order_trans)

lemma cards_ok_vouchers: "cards_ok T \<Longrightarrow> distinct vs \<Longrightarrow> gc_code ` set (ct_cards T) \<inter> set vs = {} \<Longrightarrow> cards_ok (T\<lparr>ct_voucher_codes := vs\<rparr>)"
  by (simp add: cards_ok_def taken_def)

lemma card_step_ok: "card_step e T T' \<Longrightarrow> cards_ok T \<Longrightarrow> cards_ok T'"
proof (induction rule: card_step.induct)
  case (activate r k T T')
  then show ?case
    by (auto simp: gift_card_activate_def Let_def cards_ok_log cards_ok_set_active dest: get_card_pk split: option.splits if_splits)
next
  case (deactivate r k T T')
  then show ?case
    by (auto simp: gift_card_deactivate_def Let_def cards_ok_log cards_ok_set_active dest: get_card_pk split: option.splits if_splits)
next
  case (activate_many r ks T errors T')
  then show ?case by (auto simp: gift_card_bulk_activate_def Let_def cards_ok_set_active_many split: if_splits)
next
  case (deactivate_many r ks T T')
  then show ?case by (auto simp: gift_card_bulk_deactivate_def cards_ok_set_active_many split: if_splits)
next
  case (add_note r k message T T')
  then show ?case by (auto simp: gift_card_add_note_def cards_ok_log dest: get_card_pk split: option.splits if_splits)
next
  case (resend email' k T T')
  then show ?case by (auto simp: gift_card_resend_def Let_def split: option.splits if_splits)
next
  case (add_to_checkout checkout code currency T T')
  then show ?case by (auto simp: add_gift_card_code_to_checkout_def intro: cards_ok_checkout dest!: find_SomeD split: option.splits if_splits)
next
  case (remove_from_checkout checkout code T b T')
  then show ?case by (auto simp: remove_gift_card_code_from_checkout_def intro!: cards_ok_fewer split: option.splits)
next
  case (cancel_order T order_pk r)
  then show ?case unfolding deactivate_order_gift_cards_def Let_def
    by (subst cards_ok_log) (auto simp: cards_ok_update)
next
  case (expire T)
  then show ?case unfolding deactivate_expired_cards_task_def Let_def by (simp add: cards_ok_log_updated filter_update_subset)
next
  case (assign_user usr T)
  then show ?case by (simp add: assign_user_gift_cards_def cards_ok_update)
next
  case (new_voucher vcode T T')
  then obtain c i where c: "voucher_clean_code e vcode T = Some (Inr (Some c, i))"
    and T': "T' = T\<lparr>ct_voucher_codes := ct_voucher_codes T @ [c], ct_drawn := i\<rparr>"
    by (auto simp: voucher_create_def split: option.splits sum.splits prod.splits)
  have "T' = T\<lparr>ct_voucher_codes := ct_voucher_codes T @ [c]\<rparr>\<lparr>ct_drawn := i\<rparr>" by (simp add: T')
  moreover have "c \<notin> gc_code ` set (ct_cards T)" "c \<notin> set (ct_voucher_codes T)"
    using cards_ok_voucher [OF c new_voucher(2)] by (auto simp: available_iff taken_def)
  ultimately show ?case using new_voucher(2) cards_okD [OF new_voucher(2)] cards_ok_vouchers [of T "ct_voucher_codes T @ [c]"]
    by (simp add: Int_insert_right)
next
  case (change_voucher old vcode T T')
  then consider "T' = T" | c i where "voucher_clean_code e vcode T = Some (Inr (Some c, i))"
      "T' = T\<lparr>ct_voucher_codes := map (\<lambda>x. if x = old then c else x) (ct_voucher_codes T), ct_drawn := i\<rparr>"
    by (auto simp: voucher_update_def split: option.splits sum.splits prod.splits)
  then show ?case
  proof cases
    case 2
    let ?vs = "map (\<lambda>x. if x = old then c else x) (ct_voucher_codes T)"
    note ok = change_voucher(2) cards_okD [OF change_voucher(2)]
    have free: "c \<notin> gc_code ` set (ct_cards T)" "c \<notin> set (ct_voucher_codes T)"
      using cards_ok_voucher [OF 2(1) ok(1)] by (auto simp: available_iff taken_def)
    have "set ?vs \<subseteq> insert c (set (ct_voucher_codes T))" by auto
    with free ok(4) have "gc_code ` set (ct_cards T) \<inter> set ?vs = {}" by blast
    then have "cards_ok (T\<lparr>ct_voucher_codes := ?vs\<rparr>)" using ok free by (intro cards_ok_vouchers replaced_distinct)
    moreover have "T' = T\<lparr>ct_voucher_codes := ?vs\<rparr>\<lparr>ct_drawn := i\<rparr>" by (simp add: 2(2))
    ultimately show ?thesis by (simp only: cards_ok_calls)
  qed (use change_voucher in simp)
next
  case (remove_voucher T code)
  then show ?case using cards_okD [of T] unfolding voucher_delete_def by (intro cards_ok_vouchers) auto
qed (auto intro: gift_cards_create_ok gift_card_create_ok gift_card_bulk_create_ok gift_card_update_ok cards_ok_delete)

text \<open>
  C40: Whatever is done with gift cards and vouchers, a promo code never names two things: the codes of cards and vouchers
  stay different, so that \<open>add_promo_code_to_checkout\<close> is not ambiguous, and no row refers to a card that is gone.
\<close>
theorem promo_codes_stay_unambiguous:
  assumes "card_steps T T'" and "cards_ok T"
  shows "cards_ok T' \<and> (\<forall>code. \<not> (promo_code_is_gift_card T' code \<and> promo_code_is_voucher T' code))"
proof -
  from assms have "cards_ok T'" by (induction rule: card_steps.induct) (auto dest: card_step_ok)
  then show ?thesis by (auto simp: cards_ok_def taken_def promo_code_is_gift_card_def promo_code_is_voucher_def list_ex_iff)
qed

section \<open>Examples\<close>

definition ex_card_env :: card_env where
  "ex_card_env = \<lparr>cv_today = 100, cv_add_period = (\<lambda>p n d. d + 30 * int n), cv_token = (\<lambda>i. [i mod 256, i div 256 mod 256, 0, 0, 0, 0]),
     cv_valid_email = (\<lambda>m. CHR ''@'' \<in> set m), cv_precision = (\<lambda>c. 2)\<rparr>"

definition ex_stuck_env :: card_env where
  \<comment> \<open>The same bytes each time.\<close>
  "ex_stuck_env = ex_card_env\<lparr>cv_token := (\<lambda>i. [1, 2, 3, 4, 5, 6])\<rparr>"

definition ex_no_cards :: card_tables where
  \<comment> \<open>One voucher, whose code is the first that would be drawn.\<close>
  "ex_no_cards = \<lparr>ct_cards = [], ct_seq = 1, ct_voucher_codes = [''0000-0000-0000''], ct_tags = [], ct_card_tags = [],
     ct_checkout_cards = [], ct_events = [], ct_calls = [], ct_drawn = 0\<rparr>"

definition ex_gift_lines :: "gift_card_line_data list" where
  "ex_gift_lines = [\<lparr>gl_quantity = 2, gl_product = Some 1, gl_fulfillment_line = 7, gl_unit_price_gross = \<lparr>m_amount = 50, m_currency = ''USD''\<rparr>,
     gl_is_shipping_required = False\<rparr>]"

definition ex_bulk_input :: "string list \<Rightarrow> gift_card_bulk_input" where
  "ex_bulk_input tags = \<lparr>bk_count = 2, bk_amount = 10, bk_currency = ''USD'', bk_tags = tags, bk_expiry_date = None, bk_is_active = True\<rparr>"

lemma ex_draws:
  "generate_promo_code ex_card_env ex_no_cards 0 = Some (''0100-0000-0000'', 2)"
  "generate_promo_code ex_card_env ex_no_cards 2 = Some (''0200-0000-0000'', 3)"
  by code_simp+

lemma generate_promo_code_returns_witness:
  "(\<exists>k < 2. generate_promo_code ex_card_env ex_no_cards 0 = Some (code_at ex_card_env k, Suc k))
    \<and> generate_promo_code ex_card_env ex_no_cards 0 = Some (''0100-0000-0000'', 2)"
proof -
  have "fresh_tokens ex_card_env 0 2" "length (taken ex_no_cards) < 2" by code_simp+
  then show ?thesis using generate_promo_code_returns [of ex_card_env 0 2 ex_no_cards] by (auto simp: ex_draws)
qed

abbreviation ex_buy :: "card_env \<Rightarrow> gift_card_expiry \<Rightarrow> (card_error + issued_card list \<times> card_tables) option" where
  "ex_buy e settings \<equiv> gift_cards_create e 9 None ''c@d'' ex_gift_lines settings (None, None) ex_no_cards"

lemma ex_cards: "cards_of_lines ex_card_env ex_no_cards build ex_gift_lines 0
  = Some ([(hd ex_gift_lines, build (hd ex_gift_lines) ''0100-0000-0000''), (hd ex_gift_lines, build (hd ex_gift_lines) ''0200-0000-0000'')], 3)"
  using ex_draws by (simp add: ex_gift_lines_def numeral_2_eq_2)

lemma ex_bought:
  obtains new T' where "ex_buy ex_card_env (Expiry_Period (Some Period_Month) (Some 2)) = Some (Inr (new, T'))"
    and "map gc_code new = [''0100-0000-0000'', ''0200-0000-0000'']"
proof -
  have drawn: "ct_drawn ex_no_cards = 0" "ct_cards ex_no_cards = []" by (simp_all add: ex_no_cards_def)
  from that show thesis
    by (simp add: gift_cards_create_def calculate_expiry_date_def drawn ex_cards create_cards_def Let_def bought_card_def upt_rec)
qed

lemma gift_cards_create_exact_witness:
  "\<exists>new T'. ex_buy ex_card_env (Expiry_Period (Some Period_Month) (Some 2)) = Some (Inr (new, T'))
     \<and> list_all2 (sold_as None ''c@d'' (Some 160)) (pieces ex_gift_lines) new \<and> map gc_code new = [''0100-0000-0000'', ''0200-0000-0000'']"
proof -
  obtain new T' where run: "ex_buy ex_card_env (Expiry_Period (Some Period_Month) (Some 2)) = Some (Inr (new, T'))"
    and codes: "map gc_code new = [''0100-0000-0000'', ''0200-0000-0000'']" by (rule ex_bought)
  have "calculate_expiry_date ex_card_env (Expiry_Period (Some Period_Month) (Some 2)) = Inr (Some 160)"
    by (simp add: calculate_expiry_date_def ex_card_env_def)
  with gift_cards_create_exact [OF run] codes run show ?thesis by auto
qed

lemma gift_cards_create_returns_witness:
  "\<exists>new T'. ex_buy ex_card_env Never_Expire = Some (Inr (new, T'))"
proof -
  have "fresh_tokens ex_card_env (ct_drawn ex_no_cards) (length (taken ex_no_cards) + length (pieces ex_gift_lines))"
    "distinct (map gc_code (ct_cards ex_no_cards))" by code_simp+
  then show ?thesis by (rule gift_cards_create_returns) (simp add: calculate_expiry_date_def)
qed

lemma promo_codes_stay_unambiguous_witness:
  "\<exists>new T'. ex_buy ex_card_env (Expiry_Period (Some Period_Month) (Some 2)) = Some (Inr (new, T')) \<and> cards_ok T' \<and> new \<noteq> []"
proof -
  obtain new T' where run: "ex_buy ex_card_env (Expiry_Period (Some Period_Month) (Some 2)) = Some (Inr (new, T'))"
    and codes: "map gc_code new = [''0100-0000-0000'', ''0200-0000-0000'']" by (rule ex_bought)
  have "card_steps ex_no_cards T'" using card_steps.intros card_step.buy [OF run] by blast
  moreover have "cards_ok ex_no_cards" by (simp add: cards_ok_def ex_no_cards_def taken_def)
  ultimately have "cards_ok T'" by (rule promo_codes_stay_unambiguous [THEN conjunct1])
  with codes run show ?thesis by auto
qed

text \<open>
  \<open>GiftCardBulkCreate\<close> gives a tag to its cards with \<open>set\<close>, which takes it from all other cards.
\<close>

lemma bulk_tags_are_taken_away:
  "ct_card_tags (bulk_assign_gift_card_tags [5, 6] [''Sale''] (ex_no_cards\<lparr>ct_tags := [''sale''], ct_card_tags := [(''sale'', 1), (''vip'', 1)]\<rparr>))
   = [(''vip'', 1), (''sale'', 5), (''sale'', 6)]"
  by code_simp

text \<open>
  The codes of a batch are all drawn before the first is saved, and are not compared with each other: equal ones violate
  the unique code, and the order is not fulfilled, where another draw would do.
\<close>

lemma equal_draws_fail: "ex_buy ex_stuck_env Never_Expire = Some (Inl Gc_Integrity_Error)"
  by code_simp

text \<open>An update of a voucher that repeats its code is refused, as the code is in use, by the voucher itself.\<close>

lemma voucher_keeps_no_code:
  "voucher_update ex_card_env ''0000-0000-0000'' (Some ''0000-0000-0000'') ex_no_cards = Some (Inl Gc_Already_Exists)"
  by code_simp

text \<open>Tags are compared before they are made lower case: one is added and removed again.\<close>

lemma tag_added_and_removed:
  assumes "get_card k T = Some g" and "up_add_tags inp = Some [''Sale'']" and "up_remove_tags inp = Some [''sale'']"
  shows "clean_update_input e inp g \<noteq> Some Gc_Duplicated_Tags"
  using assms by (auto simp: clean_update_input_def given_def split: if_splits)

end
