(* ===== verification/Stock_Allocation.thy ===== *)
theory Stock_Allocation
  imports Warehouse_Models
begin

text \<open>
  \<open>saleor/warehouse/management.py\<close>, first part: the allocation of stock to order lines
  (\<open>allocate_stocks\<close> and its helpers).

  A function under \<open>traced_atomic_transaction\<close> returns \<open>Inl\<close> its exception (the database is
  rolled back, so no state is returned) or \<open>Inr\<close> the new database.

  Two facts about Python objects matter and are part of the model.  A \<open>lambda\<close> given to
  \<open>transaction.on_commit\<close> inside a \<open>for\<close> loop closes over the loop variable, so when it runs at
  commit it sees the last element of the loop (\<open>late_bound\<close>).  And each allocation carries a
  \<open>Stock\<close> instance of its own, so that \<open>bulk_update\<close> may be given several instances of one row, of
  which the first counts.
\<close>

section \<open>Lines\<close>

record order_line_info =
  li_line :: order_line
  li_quantity :: int
  li_variant :: "product_variant option"
  li_warehouse_pk :: "pk option"

definition get_order_lines_with_track_inventory ::
  "env \<Rightarrow> order_line_info list \<Rightarrow> order_line_info list" where
  "get_order_lines_with_track_inventory e infos =
     filter (\<lambda>li. case li_variant li of None \<Rightarrow> False
        | Some v \<Rightarrow> v_track_inventory v \<and> \<not> is_preorder_active e v) infos"

definition get_order_lines_with_preorder :: "env \<Rightarrow> order_line_info list \<Rightarrow> order_line_info list" where
  "get_order_lines_with_preorder e infos =
     filter (\<lambda>li. case li_variant li of None \<Rightarrow> False | Some v \<Rightarrow> is_preorder_active e v) infos"

section \<open>Webhooks queued in a loop\<close>

text \<open>
  What \<open>for x in xs: if cond(x): on_commit(lambda: call(x))\<close> calls at commit: one call for each
  element that satisfies the condition, every one with the last element of the loop.
\<close>

definition late_bound :: "('a \<Rightarrow> bool) \<Rightarrow> ('a \<Rightarrow> hook) \<Rightarrow> 'a list \<Rightarrow> hook list" where
  "late_bound cond call xs = map (\<lambda>_. call (last xs)) (filter cond xs)"

definition add_hooks :: "hook list \<Rightarrow> db \<Rightarrow> db" where
  "add_hooks hs d = d\<lparr>hooks := hooks d @ hs\<rparr>"

section \<open>Allocation\<close>

record stock_data =
  sd_pk :: pk
  sd_quantity :: int

definition prepare_stock_to_reserved_quantity_map ::
  "env \<Rightarrow> db \<Rightarrow> checkout_line list \<Rightarrow> bool \<Rightarrow> pk list \<Rightarrow> (pk \<Rightarrow> int) \<times> pk list" where
  \<comment> \<open>The last argument is a generator: what a query took of it is gone for the next one, so the
      rest of it is returned.\<close>
  "prepare_stock_to_reserved_quantity_map e d checkout_lines check_reservations stocks_id =
     (if check_reservations
      then (group_sum r_stock r_quantity_reserved
              (exclude_checkout_lines checkout_lines
                (not_expired e (filter (\<lambda>r. r_stock r \<in> set stocks_id) (reservations d)))),
            [])
      else ((\<lambda>_. 0), stocks_id))"

text \<open>
  \<open>sort_stocks\<close>.  \<open>sort_key\<close> is stable, as \<open>list.sort\<close> is; with \<open>reverse=True\<close> Python keeps equal
  elements in their order too, which is sorting by the negated key.  The pair's first component
  is the \<open>math.inf\<close> of the collection point.
\<close>

fun index_of :: "pk \<Rightarrow> pk list \<Rightarrow> int option" where
  "index_of k [] = None"
| "index_of k (x # xs) = (if x = k then Some 0 else map_option (\<lambda>i. i + 1) (index_of k xs))"

definition ordered_channel_warehouses :: "db \<Rightarrow> pk \<Rightarrow> pk list \<Rightarrow> pk list" where
  \<comment> \<open>\<open>ChannelWarehouse.Meta.ordering\<close>: by \<open>sort_order\<close> (a null one last), then by key.\<close>
  "ordered_channel_warehouses d ch warehouse_ids =
     (let rows = filter (\<lambda>cw. cw_channel cw = ch \<and> cw_warehouse cw \<in> set warehouse_ids)
                   (channel_warehouses d);
          by_pk = sort_key cw_pk rows;
          ordered = sort_key (\<lambda>cw. the (cw_sort_order cw)) (filter (\<lambda>cw. cw_sort_order cw \<noteq> None) by_pk);
          nulls = filter (\<lambda>cw. cw_sort_order cw = None) by_pk
      in map cw_warehouse (ordered @ nulls))"

definition high_stock_key :: "(pk \<Rightarrow> int) \<Rightarrow> stock \<Rightarrow> int" where
  "high_stock_key allocated s = - (s_quantity s - allocated (s_pk s))"

definition sort_stocks ::
  "db \<Rightarrow> allocation_strategy \<Rightarrow> stock list \<Rightarrow> pk \<Rightarrow> (pk \<Rightarrow> int) \<Rightarrow> pk option \<Rightarrow> error + stock list" where
  "sort_stocks d strategy ss ch allocated collection_point_pk =
     (let is_cp = (\<lambda>s. Some (s_warehouse s) = collection_point_pk);
          cp = filter is_cp ss;
          others = filter (\<lambda>s. \<not> is_cp s) ss;
          warehouse_list = ordered_channel_warehouses d ch (map s_warehouse ss)
      in case strategy of
           PRIORITIZE_HIGH_STOCK \<Rightarrow> Inr (cp @ sort_key (high_stock_key allocated) others)
         | PRIORITIZE_SORTING_ORDER \<Rightarrow>
             (if list_ex (\<lambda>s. index_of (s_warehouse s) warehouse_list = None) others
              then Inl Value_Error
              else Inr (cp @ sort_key (\<lambda>s. the (index_of (s_warehouse s) warehouse_list)) others)))"

text \<open>\<open>_create_allocations\<close>: the loop, then what follows it.\<close>

type_synonym allocation_item = "pk \<times> pk \<times> int"   \<comment> \<open>(order line, stock, quantity)\<close>

fun create_allocations_loop ::
  "(pk \<Rightarrow> int) \<Rightarrow> (pk \<Rightarrow> int) \<Rightarrow> pk \<Rightarrow> int \<Rightarrow> int \<Rightarrow> allocation_item list \<Rightarrow> stock_data list
   \<Rightarrow> (int \<times> allocation_item list) + allocation_item list" where
  "create_allocations_loop alloc resv line quantity quantity_allocated items [] =
     Inl (quantity_allocated, items)"
| "create_allocations_loop alloc resv line quantity quantity_allocated items (sd # sds) =
     (let quantity_available_in_stock = sd_quantity sd - alloc (sd_pk sd) - resv (sd_pk sd);
          quantity_to_allocate = min (quantity - quantity_allocated) quantity_available_in_stock
      in if 0 < quantity_to_allocate then
           (let items' = items @ [(line, sd_pk sd, quantity_to_allocate)];
                quantity_allocated' = quantity_allocated + quantity_to_allocate
            in if quantity_allocated' = quantity then Inr items'
               else create_allocations_loop alloc resv line quantity quantity_allocated' items' sds)
         else create_allocations_loop alloc resv line quantity quantity_allocated items sds)"

definition create_allocations ::
  "order_line_info \<Rightarrow> stock_data list \<Rightarrow> (pk \<Rightarrow> int) \<Rightarrow> (pk \<Rightarrow> int) \<Rightarrow> insufficient_stock_data list
   \<Rightarrow> (insufficient_stock_data list \<times> allocation_item list) option" where
  \<comment> \<open>\<open>None\<close> is Python's implicit \<open>return None\<close> at the end of the body.\<close>
  "create_allocations li sds alloc resv insufficient_stock =
     (case create_allocations_loop alloc resv (ol_pk (li_line li)) (li_quantity li) 0 [] sds of
        Inr items \<Rightarrow> Some (insufficient_stock, items)
      | Inl (quantity_allocated, items) \<Rightarrow>
          (if quantity_allocated \<noteq> li_quantity li then
             Some (insufficient_stock @ [\<lparr>i_available_quantity = 0,
                     i_variant = map_option v_id (li_variant li),
                     i_order_line = Some (ol_pk (li_line li)), i_warehouse_pk = None\<rparr>], [])
           else None))"

fun allocate_lines ::
  "order_line_info list \<Rightarrow> stock list \<Rightarrow> (pk \<Rightarrow> int) \<Rightarrow> (pk \<Rightarrow> int) \<Rightarrow> insufficient_stock_data list
   \<Rightarrow> allocation_item list \<Rightarrow> error + (insufficient_stock_data list \<times> allocation_item list)" where
  \<comment> \<open>The loop over the lines of \<open>allocate_stocks\<close>; unpacking \<open>None\<close> is a \<open>TypeError\<close>.\<close>
  "allocate_lines [] ss alloc resv insufficient items = Inr (insufficient, items)"
| "allocate_lines (li # lis) ss alloc resv insufficient items =
     (let stock_allocations = map (\<lambda>s. \<lparr>sd_pk = s_pk s, sd_quantity = s_quantity s\<rparr>)
            (filter (\<lambda>s. Some (s_variant s) = map_option v_id (li_variant li)) ss)
      in case create_allocations li stock_allocations alloc resv insufficient of
           None \<Rightarrow> Inl Type_Error
         | Some (insufficient', items') \<Rightarrow>
             allocate_lines lis ss alloc resv insufficient' (items @ items'))"

definition new_allocation :: "allocation_item \<Rightarrow> pk \<Rightarrow> allocation" where
  "new_allocation it k = (case it of (line, sk, q) \<Rightarrow>
     \<lparr>a_pk = k, a_order_line = line, a_stock = sk, a_quantity_allocated = q\<rparr>)"

definition add_allocated :: "int \<Rightarrow> stock \<Rightarrow> stock" where
  "add_allocated q s = s\<lparr>s_quantity_allocated := s_quantity_allocated s + q\<rparr>"

definition save_allocations :: "allocation_item list \<Rightarrow> db \<Rightarrow> error + db" where
  \<comment> \<open>The last part of \<open>allocate_stocks\<close>: \<open>bulk_create\<close>, the stocks' counters, the webhooks.\<close>
  "save_allocations items d =
     (case insert_allocations (map new_allocation items) d of
        Inl e \<Rightarrow> Inl e
      | Inr (created, d1) \<Rightarrow>
          (let d2 = d1\<lparr>stocks := bulk_update s_pk
                  (map (\<lambda>a. (a_stock a, add_allocated (a_quantity_allocated a))) created) (stocks d1)\<rparr>;
               out = (\<lambda>a. case find_row s_pk (a_stock a) (stocks d1) of
                        None \<Rightarrow> False
                      | Some s \<Rightarrow> max (s_quantity s - allocated_sum d2 (a_stock a)) 0 = 0)
           in Inr (add_hooks (late_bound out (\<lambda>a. Out_Of_Stock (a_stock a)) created) d2)))"

definition stocks_to_allocate_from ::
  "order_line_info list \<Rightarrow> string \<Rightarrow> channel \<Rightarrow> pk option \<Rightarrow> (stock \<Rightarrow> bool) \<Rightarrow> db \<Rightarrow> stock list" where
  \<comment> \<open>The query at the start of \<open>allocate_stocks\<close>; \<open>additional_filter\<close> is the lookup that the
      caller adds to it (no lookup: always true).\<close>
  "stocks_to_allocate_from infos country_code ch collection_point_pk additional_filter d =
     (let variants = List.map_filter (\<lambda>li. map_option v_id (li_variant li)) infos;
          base = (if collection_point_pk \<noteq> None
                  then for_channel_and_click_and_collect d (ch_slug ch)
                  else for_channel_and_country d (ch_slug ch) (Some country_code) False)
      in sort_key s_pk (filter (\<lambda>s. s_variant s \<in> set variants \<and> additional_filter s) base))"

definition allocate_stocks ::
  "env \<Rightarrow> order_line_info list \<Rightarrow> string \<Rightarrow> channel \<Rightarrow> pk option \<Rightarrow> (stock \<Rightarrow> bool) \<Rightarrow> bool
   \<Rightarrow> checkout_line list \<Rightarrow> db \<Rightarrow> error + db" where
  "allocate_stocks e infos country_code ch collection_point_pk additional_filter
       check_reservations checkout_lines d =
     (let infos = get_order_lines_with_track_inventory e infos in
      if infos = [] then Inr d
      else
        let ss = stocks_to_allocate_from infos country_code ch collection_point_pk additional_filter d;
            (resv, stocks_id) =
              prepare_stock_to_reserved_quantity_map e d checkout_lines check_reservations (map s_pk ss);
            alloc = group_sum a_stock a_quantity_allocated
                      (filter (\<lambda>a. a_stock a \<in> set stocks_id \<and> 0 < a_quantity_allocated a) (allocations d))
        in case sort_stocks d (ch_allocation_strategy ch) ss (ch_id ch) alloc collection_point_pk of
             Inl err \<Rightarrow> Inl err
           | Inr ss' \<Rightarrow>
               (case allocate_lines infos ss' alloc resv [] [] of
                  Inl err \<Rightarrow> Inl err
                | Inr (insufficient, items) \<Rightarrow>
                    (if insufficient \<noteq> [] then Inl (Insufficient_Stock insufficient)
                     else if items \<noteq> [] then save_allocations items d
                     else Inr d)))"

section \<open>The loop of one line\<close>

interpretation alloc_loop: greedy_loop
  "\<lambda>sd. sd_quantity sd - alloc (sd_pk sd) - resv (sd_pk sd)" "\<lambda>sd t. (line, sd_pk sd, t)"
  "\<lambda>it. snd (snd it)" "create_allocations_loop alloc resv line" for alloc resv line
  by unfold_locales (simp_all add: Let_def)

abbreviation item_line :: "allocation_item \<Rightarrow> pk" where "item_line it \<equiv> fst it"
abbreviation item_stock :: "allocation_item \<Rightarrow> pk" where "item_stock it \<equiv> fst (snd it)"
abbreviation item_quantity :: "allocation_item \<Rightarrow> int" where "item_quantity it \<equiv> snd (snd it)"

definition capacity :: "(pk \<Rightarrow> int) \<Rightarrow> (pk \<Rightarrow> int) \<Rightarrow> stock_data \<Rightarrow> int" where
  "capacity alloc resv sd = max 0 (sd_quantity sd - alloc (sd_pk sd) - resv (sd_pk sd))"

lemma create_allocations_cases:
  assumes "create_allocations li sds alloc resv ins = Some (ins', items)"
  obtains (taken) "create_allocations_loop alloc resv (ol_pk (li_line li)) (li_quantity li) 0 [] sds = Inr items"
      "ins' = ins"
    | (short) r where "ins' = ins @ [r]" "items = []" "li_quantity li \<noteq> 0"
      "\<nexists>ts. create_allocations_loop alloc resv (ol_pk (li_line li)) (li_quantity li) 0 [] sds = Inr ts"
proof (cases "create_allocations_loop alloc resv (ol_pk (li_line li)) (li_quantity li) 0 [] sds")
  case (Inl p)
  then obtain n xs where p: "p = (n, xs)" by (cases p)
  with Inl assms have "n \<noteq> li_quantity li" and "\<exists>r. ins' = ins @ [r]" and "items = []"
    by (auto simp: create_allocations_def split: if_splits)
  moreover have "li_quantity li \<noteq> 0"
    using Inl p alloc_loop.run_nothing [of 0 0 alloc resv "ol_pk (li_line li)" "[]" sds] \<open>n \<noteq> li_quantity li\<close>
    by auto
  ultimately show thesis using Inl short by auto
next
  case (Inr ts)
  with assms taken show thesis by (auto simp: create_allocations_def)
qed

lemma create_allocations_line:
  assumes "create_allocations_loop alloc resv line q 0 [] sds = Inr items"
  shows "sum_of item_quantity items = q"
    and "\<forall>it \<in> set items. item_line it = line \<and> 0 < item_quantity it \<and> item_stock it \<in> sd_pk ` set sds"
    and "subseq (map item_stock items) (map sd_pk sds)"
    and "group_sum item_stock item_quantity items x \<le> group_sum sd_pk (capacity alloc resv) sds x"
proof -
  show "sum_of item_quantity items = q"
    using alloc_loop.run_done_total [OF assms] by simp
  show "\<forall>it \<in> set items. item_line it = line \<and> 0 < item_quantity it \<and> item_stock it \<in> sd_pk ` set sds"
    using alloc_loop.run_done_bounds [OF assms] by fastforce
  show "subseq (map item_stock items) (map sd_pk sds)"
    using alloc_loop.run_done_subseq [where key = item_stock and skey = sd_pk, OF _ assms] by simp
  show "group_sum item_stock item_quantity items x \<le> group_sum sd_pk (capacity alloc resv) sds x"
    using alloc_loop.run_done_keyed [where key = item_stock and skey = sd_pk, OF _ assms]
    by (simp add: capacity_def [abs_def])
qed

lemma create_allocations_none_iff:
  "create_allocations li sds alloc resv ins = None \<longleftrightarrow> li_quantity li = 0"
proof (cases "li_quantity li = 0")
  case True
  then show ?thesis
    using alloc_loop.run_nothing [of 0 0 alloc resv "ol_pk (li_line li)" "[]" sds]
    by (simp add: create_allocations_def)
next
  case False
  show ?thesis
  proof (cases "create_allocations_loop alloc resv (ol_pk (li_line li)) (li_quantity li) 0 [] sds")
    case (Inl p)
    then obtain n xs where p: "p = (n, xs)" by (cases p)
    have "n \<noteq> li_quantity li"
    proof (cases "0 < li_quantity li")
      case True
      with alloc_loop.run_end_short [OF Inl [unfolded p]] show ?thesis by simp
    next
      case neg: False
      with alloc_loop.run_nothing [of "li_quantity li" 0 alloc resv "ol_pk (li_line li)" "[]" sds] Inl p False
      show ?thesis by auto
    qed
    with Inl p False show ?thesis by (simp add: create_allocations_def)
  next
    case (Inr ts)
    with False show ?thesis by (simp add: create_allocations_def)
  qed
qed

lemma create_allocations_short_iff:
  assumes "create_allocations li sds alloc resv ins = Some (ins', items)" and "0 < li_quantity li"
  shows "ins' = ins \<longleftrightarrow> li_quantity li \<le> sum_of (capacity alloc resv) sds"
proof -
  have cap: "(\<exists>ts. create_allocations_loop alloc resv (ol_pk (li_line li)) (li_quantity li) 0 [] sds = Inr ts)
      \<longleftrightarrow> li_quantity li \<le> sum_of (capacity alloc resv) sds"
    using alloc_loop.run_done_iff [OF assms(2), of alloc resv "ol_pk (li_line li)" "[]" sds]
    by (simp add: capacity_def [abs_def])
  from assms(1) show ?thesis
    by (cases rule: create_allocations_cases) (use cap in auto)
qed

section \<open>The loop over the lines\<close>

abbreviation line_stocks :: "stock list \<Rightarrow> order_line_info \<Rightarrow> stock_data list" where
  "line_stocks ss li \<equiv> map (\<lambda>s. \<lparr>sd_pk = s_pk s, sd_quantity = s_quantity s\<rparr>)
     (filter (\<lambda>s. Some (s_variant s) = map_option v_id (li_variant li)) ss)"

lemma allocate_lines_Cons:
  assumes "allocate_lines (li # lis) ss alloc resv ins acc = Inr (ins', items)"
  obtains ins1 items1 where
    "create_allocations li (line_stocks ss li) alloc resv ins = Some (ins1, items1)"
    "allocate_lines lis ss alloc resv ins1 (acc @ items1) = Inr (ins', items)"
  using assms by (auto simp: Let_def split: option.splits prod.splits)

lemma allocate_lines_grows:
  "allocate_lines lis ss alloc resv ins acc = Inr (ins', items) \<Longrightarrow> \<exists>ys. ins' = ins @ ys"
proof (induction lis arbitrary: ins acc)
  case (Cons li lis)
  from Cons.prems obtain ins1 items1 where
    c: "create_allocations li (line_stocks ss li) alloc resv ins = Some (ins1, items1)" and
    r: "allocate_lines lis ss alloc resv ins1 (acc @ items1) = Inr (ins', items)"
    by (rule allocate_lines_Cons)
  from Cons.IH [OF r] obtain ys where "ins' = ins1 @ ys" by blast
  moreover from c have "\<exists>zs. ins1 = ins @ zs" by (cases rule: create_allocations_cases) auto
  ultimately show ?case by auto
qed simp

text \<open>Without a shortage the items are those of the lines, one line after the other.\<close>

lemma allocate_lines_split:
  "allocate_lines lis ss alloc resv [] acc = Inr ([], items) \<Longrightarrow>
   \<exists>itss. items = acc @ concat itss \<and> list_all2 (\<lambda>li its.
      create_allocations_loop alloc resv (ol_pk (li_line li)) (li_quantity li) 0 [] (line_stocks ss li)
        = Inr its) lis itss"
proof (induction lis arbitrary: acc)
  case (Cons li lis)
  from Cons.prems obtain ins1 items1 where
    c: "create_allocations li (line_stocks ss li) alloc resv [] = Some (ins1, items1)" and
    r: "allocate_lines lis ss alloc resv ins1 (acc @ items1) = Inr ([], items)"
    by (rule allocate_lines_Cons)
  from allocate_lines_grows [OF r] have nil: "ins1 = []" by auto
  from c have l: "create_allocations_loop alloc resv (ol_pk (li_line li)) (li_quantity li) 0 []
      (line_stocks ss li) = Inr items1"
    by (cases rule: create_allocations_cases) (simp_all add: nil)
  from Cons.IH [OF r [unfolded nil]] obtain itss where "items = (acc @ items1) @ concat itss"
    "list_all2 (\<lambda>li its. create_allocations_loop alloc resv (ol_pk (li_line li)) (li_quantity li) 0 []
        (line_stocks ss li) = Inr its) lis itss" by blast
  with l show ?case by (intro exI [of _ "items1 # itss"]) simp
qed simp

text \<open>The new allocations of each order line add up to what its infos ask for.\<close>

lemma lines_total:
  "list_all2 (\<lambda>li its. create_allocations_loop alloc resv (ol_pk (li_line li)) (li_quantity li) 0 []
      (line_stocks ss li) = Inr its) lis itss \<Longrightarrow>
   group_sum item_line item_quantity (concat itss) k =
     group_sum (\<lambda>li. ol_pk (li_line li)) li_quantity lis k"
proof (induction rule: list_all2_induct)
  case (Cons li lis its itss)
  have "group_sum item_line item_quantity its k =
      (if ol_pk (li_line li) = k then sum_of item_quantity its else 0)"
    using create_allocations_line(2) [OF Cons.hyps(1)] by (induction its) auto
  with create_allocations_line(1) [OF Cons.hyps(1)] Cons.IH show ?case by simp
qed simp

text \<open>
  When every line has its own variant, no stock is used by two lines: the stocks of the items are
  distinct, and what is taken of a stock is at most its capacity.
\<close>

definition variant_of_stock :: "stock list \<Rightarrow> pk \<Rightarrow> pk option" where
  "variant_of_stock ss = map_of (map (\<lambda>s. (s_pk s, s_variant s)) ss)"

lemma variant_of_stock:
  "distinct (map s_pk ss) \<Longrightarrow> s \<in> set ss \<Longrightarrow> variant_of_stock ss (s_pk s) = Some (s_variant s)"
  unfolding variant_of_stock_def by (rule map_of_is_SomeI) (auto simp: o_def)

lemma line_item_variant:
  assumes "distinct (map s_pk ss)" and "it \<in> set its" and
    "create_allocations_loop alloc resv line q 0 [] (line_stocks ss li) = Inr its"
  shows "variant_of_stock ss (item_stock it) = map_option v_id (li_variant li)"
    and "item_stock it \<in> s_pk ` set ss" and "0 < item_quantity it"
proof -
  from create_allocations_line(2) [OF assms(3)] assms(2)
  have "item_stock it \<in> sd_pk ` set (line_stocks ss li)" "0 < item_quantity it" by auto
  then obtain s where "s \<in> set ss" "item_stock it = s_pk s"
      "Some (s_variant s) = map_option v_id (li_variant li)" by auto
  with variant_of_stock [OF assms(1)] \<open>0 < item_quantity it\<close>
  show "variant_of_stock ss (item_stock it) = map_option v_id (li_variant li)"
    and "item_stock it \<in> s_pk ` set ss" and "0 < item_quantity it" by simp_all
qed

lemma lines_item_variant:
  assumes "distinct (map s_pk ss)" and
    "list_all2 (\<lambda>li its. create_allocations_loop alloc resv (ol_pk (li_line li)) (li_quantity li) 0 []
      (line_stocks ss li) = Inr its) lis itss" and "it \<in> set (concat itss)"
  shows "\<exists>li \<in> set lis. variant_of_stock ss (item_stock it) = map_option v_id (li_variant li)
      \<and> item_stock it \<in> s_pk ` set ss \<and> 0 < item_quantity it"
proof -
  from assms(3) obtain its where its: "its \<in> set itss" "it \<in> set its" by auto
  from list_all2_in_right [OF assms(2) its(1)] obtain li where "li \<in> set lis"
    "create_allocations_loop alloc resv (ol_pk (li_line li)) (li_quantity li) 0 [] (line_stocks ss li) = Inr its"
    by blast
  with line_item_variant [OF assms(1) its(2)] show ?thesis by blast
qed

lemma line_stocks_distinct: "distinct (map s_pk ss) \<Longrightarrow> distinct (map sd_pk (line_stocks ss li))"
  by (simp add: o_def distinct_map_filter)

lemma lines_distinct_stocks:
  assumes "distinct (map s_pk ss)"
    and "list_all2 (\<lambda>li its. create_allocations_loop alloc resv (ol_pk (li_line li)) (li_quantity li) 0 []
      (line_stocks ss li) = Inr its) lis itss"
    and "distinct (map (\<lambda>li. map_option v_id (li_variant li)) lis)"
  shows "distinct (map item_stock (concat itss))"
  using assms(2,3)
proof (induction rule: list_all2_induct)
  case (Cons li lis its itss)
  have "distinct (map item_stock its)"
    using create_allocations_line(3) [OF Cons.hyps(1)] line_stocks_distinct [OF assms(1)]
    by (rule subseq_distinct)
  moreover have "item_stock it \<noteq> item_stock it'" if "it \<in> set its" "it' \<in> set (concat itss)" for it it'
  proof
    assume same: "item_stock it = item_stock it'"
    from lines_item_variant [OF assms(1) Cons.hyps(2) that(2)] obtain li' where "li' \<in> set lis"
      "variant_of_stock ss (item_stock it') = map_option v_id (li_variant li')" by blast
    with line_item_variant(1) [OF assms(1) that(1) Cons.hyps(1)] same Cons.prems show False
      by (auto simp: image_iff)
  qed
  ultimately show ?case using Cons by fastforce
qed simp

lemma line_capacity:
  assumes "distinct (map s_pk ss)" and "s \<in> set ss" and
    "create_allocations_loop alloc resv line q 0 [] (line_stocks ss li) = Inr its"
  shows "group_sum item_stock item_quantity its (s_pk s)
    \<le> (if Some (s_variant s) = map_option v_id (li_variant li)
       then max 0 (s_quantity s - alloc (s_pk s) - resv (s_pk s)) else 0)"
proof (cases "Some (s_variant s) = map_option v_id (li_variant li)")
  case True
  let ?sd = "\<lparr>sd_pk = s_pk s, sd_quantity = s_quantity s\<rparr>"
  have "group_sum sd_pk (capacity alloc resv) (line_stocks ss li) (sd_pk ?sd) = capacity alloc resv ?sd"
    using True assms(2) by (intro group_sum_distinct line_stocks_distinct assms(1)) auto
  with create_allocations_line(4) [OF assms(3), of "s_pk s"] True show ?thesis
    by (simp add: capacity_def)
next
  case False
  have "s_pk s \<notin> item_stock ` set its"
    using line_item_variant(1) [OF assms(1) _ assms(3)] variant_of_stock [OF assms(1,2)] False by force
  with False show ?thesis by (simp add: group_sum_absent)
qed

lemma lines_capacity:
  assumes "distinct (map s_pk ss)" and "s \<in> set ss"
    and "list_all2 (\<lambda>li its. create_allocations_loop alloc resv (ol_pk (li_line li)) (li_quantity li) 0 []
      (line_stocks ss li) = Inr its) lis itss"
    and "distinct (map (\<lambda>li. map_option v_id (li_variant li)) lis)"
  shows "group_sum item_stock item_quantity (concat itss) (s_pk s)
    \<le> (if Some (s_variant s) \<in> (\<lambda>li. map_option v_id (li_variant li)) ` set lis
       then max 0 (s_quantity s - alloc (s_pk s) - resv (s_pk s)) else 0)"
  using assms(3,4)
proof (induction rule: list_all2_induct)
  case (Cons li lis its itss)
  from line_capacity [OF assms(1,2) Cons.hyps(1)] Cons show ?case
    by (auto split: if_splits)
qed simp

section \<open>The query and the sorting\<close>

lemma base_stocks_subset:
  "set (for_channel_and_click_and_collect d slug) \<subseteq> set (stocks d)"
  "set (for_channel_and_country d slug country cc) \<subseteq> set (stocks d)"
  by (auto simp: for_channel_and_click_and_collect_def for_channel_and_country_def Let_def)

lemma base_stocks_distinct:
  assumes "distinct (map s_pk (stocks d))"
  shows "distinct (map s_pk (for_channel_and_click_and_collect d slug))"
    and "distinct (map s_pk (for_channel_and_country d slug country cc))"
  using assms
  by (auto simp: for_channel_and_click_and_collect_def for_channel_and_country_def Let_def
      distinct_map_filter)

lemma distinct_map_mset: "mset xs = mset ys \<Longrightarrow> distinct (map f xs) \<longleftrightarrow> distinct (map f ys)"
  by (metis mset_map mset_eq_imp_distinct_iff)

lemma stocks_to_allocate_from:
  shows "set (stocks_to_allocate_from infos country ch cp f d) \<subseteq> set (stocks d)"
    and "distinct (map s_pk (stocks d)) \<Longrightarrow>
         distinct (map s_pk (stocks_to_allocate_from infos country ch cp f d))"
proof -
  show "set (stocks_to_allocate_from infos country ch cp f d) \<subseteq> set (stocks d)"
    using base_stocks_subset [of d "ch_slug ch"] by (auto simp: stocks_to_allocate_from_def Let_def)
  assume "distinct (map s_pk (stocks d))"
  note dist = base_stocks_distinct [OF this, of "ch_slug ch"]
  show "distinct (map s_pk (stocks_to_allocate_from infos country ch cp f d))"
    unfolding stocks_to_allocate_from_def Let_def
    by (subst distinct_map_mset [OF mset_sort]) (auto intro: distinct_map_filter dist)
qed

lemma mset_filter_parts: "mset (filter P xs @ filter (\<lambda>x. \<not> P x) xs) = mset xs"
  by (induction xs) auto

lemma sort_stocks_mset:
  "sort_stocks d strategy ss ch alloc cp = Inr ss' \<Longrightarrow> mset ss' = mset ss"
  using mset_filter_parts [of "\<lambda>s. Some (s_warehouse s) = cp" ss]
  by (auto simp: sort_stocks_def Let_def split: allocation_strategy.splits if_splits)

lemma sort_stocks_facts:
  assumes "sort_stocks d strategy ss ch alloc cp = Inr ss'"
  shows "set ss' = set ss" and "distinct (map s_pk ss') = distinct (map s_pk ss)"
proof -
  note eq = sort_stocks_mset [OF assms]
  show "set ss' = set ss" using eq by (metis set_mset_mset)
  show "distinct (map s_pk ss') = distinct (map s_pk ss)" by (rule distinct_map_mset [OF eq])
qed

text \<open>
  The order in which stocks are used: the collection point first, then by the channel's strategy.
\<close>

lemma sort_stocks_high:
  assumes "sort_stocks d PRIORITIZE_HIGH_STOCK ss ch alloc cp = Inr ss'"
  shows "\<exists>xs ys. ss' = xs @ ys \<and> (\<forall>s \<in> set xs. Some (s_warehouse s) = cp)
     \<and> (\<forall>s \<in> set ys. Some (s_warehouse s) \<noteq> cp)
     \<and> sorted_wrt (\<lambda>s s'. s_quantity s' - alloc (s_pk s') \<le> s_quantity s - alloc (s_pk s)) ys"
proof -
  have "sorted_wrt (\<lambda>s s'. s_quantity s' - alloc (s_pk s') \<le> s_quantity s - alloc (s_pk s))
      (sort_key (high_stock_key alloc) xs)" for xs
    using sorted_sort_key [of "high_stock_key alloc" xs] unfolding sorted_map
    by (rule sorted_wrt_mono_rel [rotated]) (simp add: high_stock_key_def)
  moreover from assms have "ss' = filter (\<lambda>s. Some (s_warehouse s) = cp) ss
      @ sort_key (high_stock_key alloc) (filter (\<lambda>s. Some (s_warehouse s) \<noteq> cp) ss)"
    by (simp add: sort_stocks_def Let_def)
  ultimately show ?thesis by (intro exI conjI) auto
qed

section \<open>Saving\<close>

lemma number_from_length [simp]: "length (number_from k fs) = length fs"
  by (induction fs arbitrary: k) auto

lemma created_group_sum:
  "group_sum a_stock a_quantity_allocated (number_from k (map new_allocation items)) x =
     group_sum item_stock item_quantity items x"
  "group_sum a_order_line a_quantity_allocated (number_from k (map new_allocation items)) x =
     group_sum item_line item_quantity items x"
  by (induction items arbitrary: k) (auto simp: new_allocation_def split: prod.splits)

lemma created_stocks:
  "map a_stock (number_from k (map new_allocation items)) = map item_stock items"
  by (induction items arbitrary: k) (auto simp: new_allocation_def split: prod.splits)

lemma add_hooks_simps [simp]:
  "allocations (add_hooks hs d) = allocations d" "stocks (add_hooks hs d) = stocks d"
  "hooks (add_hooks hs d) = hooks d @ hs"
  "allocated_sum (add_hooks hs d) = allocated_sum d"
  by (simp_all add: add_hooks_def allocated_sum_def fun_eq_iff)

lemma save_allocations_Inr:
  assumes "save_allocations items d = Inr d'"
  obtains created where "created = number_from (allocation_seq d) (map new_allocation items)"
    "allocations d' = allocations d @ created"
    "stocks d' = bulk_update s_pk
       (map (\<lambda>a. (a_stock a, add_allocated (a_quantity_allocated a))) created) (stocks d)"
  using assms
  by (auto simp: save_allocations_def insert_allocations_def Let_def split: sum.splits if_splits)

lemma save_allocations_sums:
  assumes "save_allocations items d = Inr d'"
  shows "allocated_sum d' x = allocated_sum d x + group_sum item_stock item_quantity items x"
    and "group_sum a_order_line a_quantity_allocated (allocations d') k =
      group_sum a_order_line a_quantity_allocated (allocations d) k
      + group_sum item_line item_quantity items k"
  by (rule save_allocations_Inr [OF assms], simp add: allocated_sum_def created_group_sum)+

section \<open>What \<open>allocate_stocks\<close> does\<close>

abbreviation tracked :: "env \<Rightarrow> order_line_info list \<Rightarrow> order_line_info list" where
  "tracked \<equiv> get_order_lines_with_track_inventory"

text \<open>The steps of a run that returned, as facts.\<close>

lemma allocate_stocks_Inr:
  assumes "allocate_stocks e infos country ch cp f chk cls d = Inr d'"
  obtains (nothing) "d' = d" "tracked e infos = []"
  | (lines) ss ss' alloc resv ids itss where
      "ss = stocks_to_allocate_from (tracked e infos) country ch cp f d"
      "(resv, ids) = prepare_stock_to_reserved_quantity_map e d cls chk (map s_pk ss)"
      "alloc = group_sum a_stock a_quantity_allocated
         (filter (\<lambda>a. a_stock a \<in> set ids \<and> 0 < a_quantity_allocated a) (allocations d))"
      "sort_stocks d (ch_allocation_strategy ch) ss (ch_id ch) alloc cp = Inr ss'"
      "list_all2 (\<lambda>li its. create_allocations_loop alloc resv (ol_pk (li_line li)) (li_quantity li) 0 []
         (line_stocks ss' li) = Inr its) (tracked e infos) itss"
      "if concat itss = [] then d' = d else save_allocations (concat itss) d = Inr d'"
proof (cases "tracked e infos = []")
  case True
  show thesis by (rule nothing) (use assms True in \<open>simp_all add: allocate_stocks_def\<close>)
next
  case False
  define ss where "ss = stocks_to_allocate_from (tracked e infos) country ch cp f d"
  obtain resv ids where prep:
    "prepare_stock_to_reserved_quantity_map e d cls chk (map s_pk ss) = (resv, ids)" by fastforce
  define alloc where "alloc = group_sum a_stock a_quantity_allocated
         (filter (\<lambda>a. a_stock a \<in> set ids \<and> 0 < a_quantity_allocated a) (allocations d))"
  from assms False obtain ss' items where
    sorted: "sort_stocks d (ch_allocation_strategy ch) ss (ch_id ch) alloc cp = Inr ss'" and
    run: "allocate_lines (tracked e infos) ss' alloc resv [] [] = Inr ([], items)" and
    save: "if items = [] then d' = d else save_allocations items d = Inr d'"
    by (auto simp: allocate_stocks_def Let_def ss_def [symmetric] prep alloc_def [symmetric]
        split: sum.splits prod.splits if_splits)
  from allocate_lines_split [OF run] obtain itss where "items = concat itss"
    "list_all2 (\<lambda>li its. create_allocations_loop alloc resv (ol_pk (li_line li)) (li_quantity li) 0 []
         (line_stocks ss' li) = Inr its) (tracked e infos) itss" by auto
  with lines [OF ss_def prep [symmetric] alloc_def sorted] save show thesis by blast
qed

text \<open>
  C1: a successful \<open>allocate_stocks\<close> allocates to every order line exactly the quantity that the
  infos of its tracked, not preordered variants ask for: the sum of the line's allocations grows
  by that much, and no other line's sum changes.
\<close>

theorem allocate_stocks_exact:
  assumes "allocate_stocks e infos country ch cp f chk cls d = Inr d'"
  shows "group_sum a_order_line a_quantity_allocated (allocations d') line =
    group_sum a_order_line a_quantity_allocated (allocations d) line
    + group_sum (\<lambda>li. ol_pk (li_line li)) li_quantity (get_order_lines_with_track_inventory e infos) line"
  using assms
proof (cases rule: allocate_stocks_Inr)
  case (lines ss ss' alloc resv ids itss)
  note total = lines_total [OF lines(5), of line]
  show ?thesis
  proof (cases "concat itss = []")
    case True
    with lines(6) have "d' = d" by (simp only: if_True)
    with total [unfolded True] show ?thesis by simp
  next
    case False
    with lines(6) have "save_allocations (concat itss) d = Inr d'" by (simp only: if_False)
    from save_allocations_sums(2) [OF this] total show ?thesis by simp
  qed
qed simp

text \<open>
  C3: without reservations, and when each tracked line has a variant of its own, allocation never
  promises more of a stock than it holds: afterwards the allocations of every stock add up to at
  most its quantity, unless they already did not before.
\<close>

theorem allocate_stocks_no_oversell:
  assumes ok: "allocate_stocks e infos country ch cp f False cls d = Inr d'"
    and rows: "distinct (map s_pk (stocks d))" "\<forall>a \<in> set (allocations d). 0 \<le> a_quantity_allocated a"
    and lines: "distinct (map (\<lambda>li. map_option v_id (li_variant li))
      (get_order_lines_with_track_inventory e infos))"
    and s: "s \<in> set (stocks d)"
  shows "allocated_sum d' (s_pk s) \<le> max (allocated_sum d (s_pk s)) (s_quantity s)"
  using ok
proof (cases rule: allocate_stocks_Inr)
  case (lines ss ss' alloc resv ids itss)
  note ss = stocks_to_allocate_from [where d = d, of "tracked e infos" country ch cp f, folded lines(1)]
  note sorted = sort_stocks_facts [OF lines(4)]
  have prep: "resv = (\<lambda>_. 0)" "ids = map s_pk ss"
    using lines(2) by (simp_all add: prepare_stock_to_reserved_quantity_map_def)
  have dist: "distinct (map s_pk ss')" using sorted(2) ss(2) rows(1) by simp
  have taken: "group_sum item_stock item_quantity (concat itss) (s_pk s)
      \<le> max 0 (s_quantity s - allocated_sum d (s_pk s))"
  proof (cases "s \<in> set ss")
    case True
    have alloc: "alloc (s_pk s) = allocated_sum d (s_pk s)"
    proof -
      have "alloc (s_pk s) = group_sum a_stock a_quantity_allocated
          (filter (\<lambda>a. 0 < a_quantity_allocated a) (allocations d)) (s_pk s)"
        using True by (auto simp: lines(3) prep group_sum_def intro!: arg_cong [where f = "sum_of _"]
            filter_cong)
      then show ?thesis using rows(2) by (simp add: allocated_sum_def group_sum_filter_pos)
    qed
    from lines_capacity [OF dist _ lines(5) assms(4), of s] True sorted(1) show ?thesis
      by (auto simp: alloc prep split: if_splits)
  next
    case False
    have "s_pk s \<notin> item_stock ` set (concat itss)"
      using lines_item_variant [OF dist lines(5)] sorted(1) ss(1) rows(1) s False
      by (fastforce simp: distinct_map dest: inj_onD)
    then show ?thesis by (simp add: group_sum_absent)
  qed
  show ?thesis
  proof (cases "concat itss = []")
    case False
    with lines(6) have "save_allocations (concat itss) d = Inr d'" by (simp only: if_False)
    from save_allocations_sums(1) [OF this] taken show ?thesis by simp
  next
    case True
    with lines(6) show ?thesis by (simp only: if_True)
  qed
qed simp

text \<open>
  The counter \<open>Stock.quantity_allocated\<close> duplicates the sum of the stock's allocations.
\<close>

definition counters_ok :: "db \<Rightarrow> bool" where
  "counters_ok d \<longleftrightarrow> (\<forall>s \<in> set (stocks d). s_quantity_allocated s = allocated_sum d (s_pk s))"

lemma map_of_keyed:
  assumes "distinct (map k xs)" and "x \<in> set xs"
  shows "map_of (map (\<lambda>x. (k x, v x)) xs) (k x) = Some (v x)"
  using assms by (induction xs) (auto simp: image_iff)

lemma map_of_keyed_None: "y \<notin> k ` set xs \<Longrightarrow> map_of (map (\<lambda>x. (k x, v x)) xs) y = None"
  by (induction xs) auto

text \<open>
  When no two of the updates are for the same stock, adding each row's amount to the stock's
  counter adds the rows' sum.
\<close>

lemma counters_add:
  assumes dist: "distinct (map stk rows)"
    and s': "s' = (case map_of (map (\<lambda>a. (stk a, add_allocated (g a))) rows) (s_pk s) of
              None \<Rightarrow> s | Some f \<Rightarrow> f s)"
  shows "s_pk s' = s_pk s \<and> s_quantity s' = s_quantity s
    \<and> s_quantity_allocated s' = s_quantity_allocated s + group_sum stk g rows (s_pk s)"
proof (cases "s_pk s \<in> stk ` set rows")
  case True
  then obtain a where a: "a \<in> set rows" "s_pk s = stk a" by auto
  have "s' = add_allocated (g a) s"
    using map_of_keyed [OF dist a(1), of "\<lambda>a. add_allocated (g a)"] a(2) s' by simp
  moreover have "group_sum stk g rows (s_pk s) = g a"
    using group_sum_distinct [OF dist a(1)] a(2) by simp
  ultimately show ?thesis by (simp add: add_allocated_def)
next
  case False
  with map_of_keyed_None [OF False, of "\<lambda>a. add_allocated (g a)"] s' have "s' = s" by simp
  with False show ?thesis by (simp add: group_sum_absent)
qed

lemma counters_after:
  assumes ok: "counters_ok d" and dist: "distinct (map stk rows)"
    and st: "stocks d' = bulk_update s_pk (map (\<lambda>r. (stk r, add_allocated (g r))) rows) (stocks d)"
    and sums: "\<And>x. allocated_sum d' x = allocated_sum d x + group_sum stk g rows x"
  shows "counters_ok d'"
  unfolding counters_ok_def
proof
  fix s' assume "s' \<in> set (stocks d')"
  from bulk.upd_in [OF this [unfolded st]] obtain s where s: "s \<in> set (stocks d)" and
    s': "s' = (case map_of (map (\<lambda>r. (stk r, add_allocated (g r))) rows) (s_pk s) of
            None \<Rightarrow> s | Some f \<Rightarrow> f s)" by blast
  from counters_add [OF dist s'] s ok sums show "s_quantity_allocated s' = allocated_sum d' (s_pk s')"
    by (simp add: counters_ok_def)
qed

lemma save_allocations_counters:
  assumes "save_allocations items d = Inr d'" and "counters_ok d"
    and "distinct (map item_stock items)"
  shows "counters_ok d'"
proof (rule save_allocations_Inr [OF assms(1)])
  fix created assume c: "created = number_from (allocation_seq d) (map new_allocation items)"
    and st: "stocks d' = bulk_update s_pk
       (map (\<lambda>a. (a_stock a, add_allocated (a_quantity_allocated a))) created) (stocks d)"
  show "counters_ok d'"
    by (rule counters_after [OF assms(2) _ st])
       (use assms(3) save_allocations_sums(1) [OF assms(1)] in \<open>simp_all add: c created_stocks created_group_sum\<close>)
qed

text \<open>
  C4: when each tracked line has a variant of its own, a successful \<open>allocate_stocks\<close> keeps the counters: if each
  stock's \<open>quantity_allocated\<close> was the sum of its allocations, it still is.  With two lines of one variant it is not
  (\<open>same_variant_lines_oversell\<close> below).
\<close>

theorem allocate_stocks_counters:
  assumes ok: "allocate_stocks e infos country ch cp f chk cls d = Inr d'"
    and "counters_ok d" and "distinct (map s_pk (stocks d))"
    and "distinct (map (\<lambda>li. map_option v_id (li_variant li))
      (get_order_lines_with_track_inventory e infos))"
  shows "counters_ok d'"
  using ok
proof (cases rule: allocate_stocks_Inr)
  case (lines ss ss' alloc resv ids itss)
  have "distinct (map s_pk ss')"
    using sort_stocks_facts(2) [OF lines(4)] assms(3)
      stocks_to_allocate_from(2) [where d = d, of "tracked e infos" country ch cp f, folded lines(1)]
    by simp
  from lines_distinct_stocks [OF this lines(5) assms(4)] save_allocations_counters [OF _ assms(2)]
  show ?thesis using lines(6) assms(2) by (cases "concat itss = []") (simp_all only: if_True if_False)
qed (use assms(2) in simp)


section \<open>When allocation fails\<close>

lemma index_of_None_iff: "index_of k xs = None \<longleftrightarrow> k \<notin> set xs"
  by (induction xs) auto

definition slug_unique :: "db \<Rightarrow> channel \<Rightarrow> bool" where
  "slug_unique d ch \<longleftrightarrow> (\<forall>c \<in> set (channels d). ch_slug c = ch_slug ch \<longrightarrow> ch_id c = ch_id ch)"

lemma stocks_to_allocate_from_channel:
  assumes "slug_unique d ch" and "s \<in> set (stocks_to_allocate_from infos country ch cp f d)"
  shows "\<exists>cw \<in> set (channel_warehouses d). cw_warehouse cw = s_warehouse s \<and> cw_channel cw = ch_id ch"
proof -
  have "warehouse_in_channels d (channels_of_slug d (ch_slug ch)) (s_warehouse s)"
    using assms(2) by (auto simp: stocks_to_allocate_from_def Let_def
        for_channel_and_click_and_collect_def for_channel_and_country_def split: if_splits)
  with assms(1) show ?thesis
    by (auto simp: warehouse_in_channels_def channels_of_slug_def slug_unique_def list_ex_iff)
qed

text \<open>Every stock the query returns has its warehouse in the channel, so sorting never raises.\<close>

lemma sort_stocks_total:
  assumes "slug_unique d ch" and "ss = stocks_to_allocate_from infos country ch cp f d"
  obtains ss' where "sort_stocks d strategy ss (ch_id ch) alloc cp' = Inr ss'"
proof -
  have "index_of (s_warehouse s) (ordered_channel_warehouses d (ch_id ch) (map s_warehouse ss)) \<noteq> None"
    if s: "s \<in> set ss" for s
  proof -
    from stocks_to_allocate_from_channel [OF assms(1)] s assms(2) obtain cw where
      "cw \<in> set (channel_warehouses d)" "cw_warehouse cw = s_warehouse s" "cw_channel cw = ch_id ch"
      by blast
    then have "s_warehouse s \<in> set (ordered_channel_warehouses d (ch_id ch) (map s_warehouse ss))"
      using s unfolding ordered_channel_warehouses_def Let_def by (force simp: image_iff)
    then show ?thesis by (simp add: index_of_None_iff)
  qed
  then have "\<not> isl (sort_stocks d strategy ss (ch_id ch) alloc cp')"
    by (auto simp: sort_stocks_def Let_def list_ex_iff split: allocation_strategy.split)
  then show thesis using that by (cases "sort_stocks d strategy ss (ch_id ch) alloc cp'") auto
qed

definition line_capacity_sum :: "(pk \<Rightarrow> int) \<Rightarrow> (pk \<Rightarrow> int) \<Rightarrow> stock list \<Rightarrow> order_line_info \<Rightarrow> int" where
  "line_capacity_sum alloc resv ss li =
     sum_of (\<lambda>s. max 0 (s_quantity s - alloc (s_pk s) - resv (s_pk s)))
       (filter (\<lambda>s. Some (s_variant s) = map_option v_id (li_variant li)) ss)"

lemma line_capacity_sum:
  "sum_of (capacity alloc resv) (line_stocks ss li) = line_capacity_sum alloc resv ss li"
  by (simp add: line_capacity_sum_def sum_of_def capacity_def [abs_def] o_def)

definition line_served :: "(pk \<Rightarrow> int) \<Rightarrow> (pk \<Rightarrow> int) \<Rightarrow> stock list \<Rightarrow> order_line_info \<Rightarrow> bool" where
  "line_served alloc resv ss li \<longleftrightarrow> 0 < li_quantity li \<and> li_quantity li \<le> line_capacity_sum alloc resv ss li"

lemma create_allocations_served_iff:
  assumes "create_allocations li (line_stocks ss li) alloc resv ins = Some (ins', items)"
  shows "ins' = ins \<longleftrightarrow> line_served alloc resv ss li"
proof (cases "0 < li_quantity li")
  case True
  with create_allocations_short_iff [OF assms] show ?thesis by (simp add: line_capacity_sum line_served_def)
next
  case False
  with assms alloc_loop.run_nothing [of "li_quantity li" 0 alloc resv "ol_pk (li_line li)" "[]" "line_stocks ss li"]
  show ?thesis by (cases rule: create_allocations_cases) (auto simp: line_served_def)
qed

lemma allocate_lines_total:
  assumes "\<forall>li \<in> set lis. li_quantity li \<noteq> 0"
  shows "\<exists>ins' items. allocate_lines lis ss alloc resv ins acc = Inr (ins', items) \<and>
    (ins' = ins \<longleftrightarrow> (\<forall>li \<in> set lis. line_served alloc resv ss li))"
  using assms
proof (induction lis arbitrary: ins acc)
  case (Cons li lis)
  from Cons.prems create_allocations_none_iff [of li "line_stocks ss li" alloc resv ins]
  obtain ins1 items1 where
    c: "create_allocations li (line_stocks ss li) alloc resv ins = Some (ins1, items1)" by fastforce
  have one: "ins1 = ins \<longleftrightarrow> line_served alloc resv ss li" by (rule create_allocations_served_iff [OF c])
  from Cons obtain ins' items where
    r: "allocate_lines lis ss alloc resv ins1 (acc @ items1) = Inr (ins', items)" and
    iff: "ins' = ins1 \<longleftrightarrow> (\<forall>li \<in> set lis. line_served alloc resv ss li)"
    by (metis list.set_intros(2))
  from allocate_lines_grows [OF r] obtain ys where ys: "ins' = ins1 @ ys" by blast
  from c obtain zs where zs: "ins1 = ins @ zs" by (cases rule: create_allocations_cases) auto
  have "ins' = ins \<longleftrightarrow> ins1 = ins \<and> ins' = ins1" using ys zs by auto
  with one iff r c show ?case by (simp add: Let_def)
qed simp

lemma allocate_lines_zero:
  "\<exists>li \<in> set lis. li_quantity li = 0 \<Longrightarrow> allocate_lines lis ss alloc resv ins acc = Inl Type_Error"
proof (induction lis arbitrary: ins acc)
  case (Cons li lis)
  show ?case
  proof (cases "create_allocations li (line_stocks ss li) alloc resv ins")
    case (Some p)
    then have "li_quantity li \<noteq> 0"
      using create_allocations_none_iff [of li "line_stocks ss li" alloc resv ins] by auto
    with Cons Some show ?thesis by (auto simp: Let_def split: prod.split)
  qed (simp add: Let_def)
qed simp

text \<open>What the loop subtracts from the quantity of a stock: its allocations, or, when reservations are checked,
  only the live reservations of other checkouts.\<close>

definition counted_allocations :: "bool \<Rightarrow> db \<Rightarrow> pk \<Rightarrow> int" where
  "counted_allocations chk d = (if chk then (\<lambda>_. 0) else allocated_sum d)"

definition counted_reservations :: "env \<Rightarrow> bool \<Rightarrow> checkout_line list \<Rightarrow> db \<Rightarrow> pk \<Rightarrow> int" where
  "counted_reservations e chk cls d = (if chk then group_sum r_stock r_quantity_reserved
     (exclude_checkout_lines cls (not_expired e (reservations d))) else (\<lambda>_. 0))"

lemma counted_by_the_queries:
  assumes "(resv, ids) = prepare_stock_to_reserved_quantity_map e d cls chk (map s_pk ss)"
    and "\<forall>a \<in> set (allocations d). 0 \<le> a_quantity_allocated a" and s: "s \<in> set ss"
  shows "resv (s_pk s) = counted_reservations e chk cls d (s_pk s)"
    and "group_sum a_stock a_quantity_allocated (filter (\<lambda>a. a_stock a \<in> set ids \<and> 0 < a_quantity_allocated a)
      (allocations d)) (s_pk s) = counted_allocations chk d (s_pk s)"
proof -
  have "resv = (if chk then group_sum r_stock r_quantity_reserved (exclude_checkout_lines cls
      (not_expired e (filter (\<lambda>r. r_stock r \<in> s_pk ` set ss) (reservations d)))) else (\<lambda>_. 0))"
    and ids: "ids = (if chk then [] else map s_pk ss)"
    using assms(1) by (auto simp: prepare_stock_to_reserved_quantity_map_def split: if_splits)
  then show "resv (s_pk s) = counted_reservations e chk cls d (s_pk s)"
    using s by (auto simp: counted_reservations_def group_sum_def exclude_checkout_lines_def not_expired_def
        intro!: arg_cong [where f = "sum_of _"] filter_cong)
  have "group_sum a_stock a_quantity_allocated (filter (\<lambda>a. a_stock a \<in> s_pk ` set ss \<and> 0 < a_quantity_allocated a)
      (allocations d)) (s_pk s) = group_sum a_stock a_quantity_allocated
      (filter (\<lambda>a. 0 < a_quantity_allocated a) (allocations d)) (s_pk s)"
    using s by (auto simp: group_sum_def intro!: arg_cong [where f = "sum_of _"] filter_cong)
  then show "group_sum a_stock a_quantity_allocated (filter (\<lambda>a. a_stock a \<in> set ids \<and> 0 < a_quantity_allocated a)
      (allocations d)) (s_pk s) = counted_allocations chk d (s_pk s)"
    using assms(2) by (simp add: ids counted_allocations_def allocated_sum_def group_sum_filter_pos)
qed

lemma save_allocations_Inl: "save_allocations items d = Inl err \<Longrightarrow> err = Integrity_Error"
  by (auto simp: save_allocations_def insert_allocations_def Let_def split: sum.splits if_splits)

text \<open>
  C2: \<open>allocate_stocks\<close> raises \<open>InsufficientStock\<close> exactly when no tracked line has quantity 0 (that is a
  \<open>TypeError\<close>) and some tracked line has a negative quantity or asks for more than the stocks of its variant that
  the query finds still have: the sum over them of the quantity less what the loop counts as taken, a stock that is
  over-allocated counting nothing.  Without \<open>check_reservations\<close> that are the allocations; with it, only
  the live reservations of other checkouts.  In particular a line that several warehouses can only serve together is served.
\<close>

theorem allocate_stocks_insufficient_iff:
  assumes "slug_unique d ch" and nn: "\<forall>a \<in> set (allocations d). 0 \<le> a_quantity_allocated a"
  shows "(\<exists>r. allocate_stocks e infos country ch cp f chk cls d = Inl (Insufficient_Stock r)) \<longleftrightarrow>
    (\<forall>li \<in> set (get_order_lines_with_track_inventory e infos). li_quantity li \<noteq> 0) \<and>
    (\<exists>li \<in> set (get_order_lines_with_track_inventory e infos). li_quantity li < 0 \<or>
       line_capacity_sum (if chk then (\<lambda>_. 0) else allocated_sum d)
         (if chk then group_sum r_stock r_quantity_reserved (exclude_checkout_lines cls (not_expired e (reservations d)))
          else (\<lambda>_. 0))
         (stocks_to_allocate_from (get_order_lines_with_track_inventory e infos) country ch cp f d) li
         < li_quantity li)"
proof (cases "tracked e infos = []")
  case True
  then show ?thesis by (simp add: allocate_stocks_def)
next
  case False
  define ss where "ss = stocks_to_allocate_from (tracked e infos) country ch cp f d"
  obtain resv ids where q: "(resv, ids) = prepare_stock_to_reserved_quantity_map e d cls chk (map s_pk ss)"
    by (metis prod.exhaust)
  define alloc where "alloc = group_sum a_stock a_quantity_allocated
         (filter (\<lambda>a. a_stock a \<in> set ids \<and> 0 < a_quantity_allocated a) (allocations d))"
  obtain ss' where sorted: "sort_stocks d (ch_allocation_strategy ch) ss (ch_id ch) alloc cp = Inr ss'"
    by (rule sort_stocks_total [OF assms(1) ss_def])
  note run = False sorted q [symmetric] allocate_stocks_def Let_def ss_def [symmetric] alloc_def [symmetric]
  have cap: "line_capacity_sum alloc resv ss' li
      = line_capacity_sum (counted_allocations chk d) (counted_reservations e chk cls d) ss li" for li
  proof -
    have "line_capacity_sum alloc resv ss' li = line_capacity_sum alloc resv ss li"
      unfolding line_capacity_sum_def by (rule sum_of_mset) (simp add: sort_stocks_mset [OF sorted])
    also have "\<dots> = line_capacity_sum (counted_allocations chk d) (counted_reservations e chk cls d) ss li"
      by (auto simp: line_capacity_sum_def sum_of_def counted_by_the_queries [OF q nn] alloc_def intro!: arg_cong [where f = sum_list])
    finally show ?thesis .
  qed
  show ?thesis
  proof (cases "\<forall>li \<in> set (tracked e infos). li_quantity li \<noteq> 0")
    case True
    obtain ins items where lines: "allocate_lines (tracked e infos) ss' alloc resv [] [] = Inr (ins, items)"
      and iff: "ins = [] \<longleftrightarrow> (\<forall>li \<in> set (tracked e infos). line_served alloc resv ss' li)"
      using allocate_lines_total [OF True, of ss' alloc resv "[]" "[]"] by blast
    have "(\<exists>r. allocate_stocks e infos country ch cp f chk cls d = Inl (Insufficient_Stock r)) \<longleftrightarrow> ins \<noteq> []"
      using save_allocations_Inl [of items d] by (auto simp: run lines split: sum.splits)
    also have "\<dots> \<longleftrightarrow> (\<exists>li \<in> set (tracked e infos). li_quantity li < 0 \<or>
        line_capacity_sum (counted_allocations chk d) (counted_reservations e chk cls d) ss li < li_quantity li)"
      using True by (auto simp: iff line_served_def cap not_less not_le order_less_le)
    finally show ?thesis using True
      by (simp add: ss_def counted_allocations_def counted_reservations_def)
  next
    case zero: False
    then have "allocate_lines (tracked e infos) ss' alloc resv [] [] = Inl Type_Error"
      by (intro allocate_lines_zero) auto
    with zero show ?thesis by (simp add: run)
  qed
qed

section \<open>Runs on the example shop\<close>

definition ex_info :: "pk \<Rightarrow> pk \<Rightarrow> int \<Rightarrow> order_line_info" where
  "ex_info k v q = \<lparr>li_line = ex_order_line k v, li_quantity = q, li_variant = Some (ex_variant v),
     li_warehouse_pk = Some 1\<rparr>"

definition ex_allocate :: "bool \<Rightarrow> order_line_info list \<Rightarrow> db \<Rightarrow> error + db" where
  "ex_allocate chk infos d = allocate_stocks ex_env infos ''US'' ex_channel None (\<lambda>_. True) chk [] d"

definition ex_shop :: db where
  "ex_shop = ex_db [ex_stock 1 1 1 5 2, ex_stock 2 2 1 9 0] [ex_allocation 1 2 1 2]"

abbreviation shown :: "db \<Rightarrow> (pk \<times> pk \<times> int) list" where
  "shown d \<equiv> map (\<lambda>a. (a_order_line a, a_stock a, a_quantity_allocated a)) (allocations d)"

definition ex_after :: db where
  "ex_after = projr (ex_allocate False [ex_info 1 1 11] ex_shop)"

lemma ex_run: "ex_allocate False [ex_info 1 1 11] ex_shop = Inr ex_after"
  unfolding ex_after_def by (rule not_isl_Inr) code_simp

lemmas ex_run' = ex_run [unfolded ex_allocate_def]

lemma ex_after_shown: "shown ex_after = [(2, 1, 2), (1, 2, 9), (1, 1, 2)]"
  by code_simp

lemma allocate_stocks_exact_witness:
  "ex_allocate False [ex_info 1 1 11] ex_shop = Inr ex_after
   \<and> group_sum a_order_line a_quantity_allocated (allocations ex_after) 1 = 11"
proof -
  have "group_sum a_order_line a_quantity_allocated (allocations ex_shop) 1
      + group_sum (\<lambda>li. ol_pk (li_line li)) li_quantity (tracked ex_env [ex_info 1 1 11]) 1 = 11"
    by code_simp
  with allocate_stocks_exact [OF ex_run', of 1] ex_run show ?thesis by simp
qed

lemma allocate_stocks_no_oversell_witness:
  "ex_allocate False [ex_info 1 1 11] ex_shop = Inr ex_after \<and> allocated_sum ex_after 1 \<le> 5"
proof -
  have rows: "distinct (map s_pk (stocks ex_shop))" "ex_stock 1 1 1 5 2 \<in> set (stocks ex_shop)"
    "\<forall>a \<in> set (allocations ex_shop). 0 \<le> a_quantity_allocated a"
    "distinct (map (\<lambda>li. map_option v_id (li_variant li)) (tracked ex_env [ex_info 1 1 11]))"
    by code_simp+
  have "max (allocated_sum ex_shop (s_pk (ex_stock 1 1 1 5 2))) (s_quantity (ex_stock 1 1 1 5 2)) = 5"
    "s_pk (ex_stock 1 1 1 5 2) = 1" by code_simp+
  with allocate_stocks_no_oversell [OF ex_run' rows(1,3,4,2)] ex_run show ?thesis by simp
qed

lemma allocate_stocks_counters_witness:
  "ex_allocate False [ex_info 1 1 11] ex_shop = Inr ex_after \<and> counters_ok ex_after"
proof -
  have "counters_ok ex_shop" "distinct (map s_pk (stocks ex_shop))"
    "distinct (map (\<lambda>li. map_option v_id (li_variant li)) (tracked ex_env [ex_info 1 1 11]))"
    by code_simp+
  with allocate_stocks_counters [OF ex_run'] ex_run show ?thesis by simp
qed

lemma allocate_stocks_insufficient_iff_witness:
  "(\<exists>r. ex_allocate False [ex_info 1 1 13] ex_shop = Inl (Insufficient_Stock r))
   \<and> (\<exists>r. ex_allocate True [ex_info 1 1 15] ex_shop = Inl (Insufficient_Stock r))
   \<and> \<not> (\<exists>r. ex_allocate True [ex_info 1 1 13] ex_shop = Inl (Insufficient_Stock r))"
proof -
  have ok: "slug_unique ex_shop ex_channel" "\<forall>a \<in> set (allocations ex_shop). 0 \<le> a_quantity_allocated a"
    by code_simp+
  note iff = allocate_stocks_insufficient_iff [OF ok]
  show ?thesis unfolding ex_allocate_def iff by (intro conjI) code_simp+
qed

text \<open>
  The allocation of a checkout (\<open>check_reservations=True\<close>) does not see the allocations that
  are already there: the generator \<open>stocks_id\<close> is used up by the query on reservations, so the query
  on allocations filters by no stock.  A stock whose five pieces are all allocated is allocated
  again, where the same call without the check raises \<open>InsufficientStock\<close>.
\<close>

lemma check_reservations_ignores_allocations:
  "shown (projr (ex_allocate True [ex_info 1 1 5] (ex_db [ex_stock 1 1 1 5 5] [ex_allocation 1 2 1 5])))
     = [(2, 1, 5), (1, 1, 5)]
   \<and> isl (ex_allocate False [ex_info 1 1 5] (ex_db [ex_stock 1 1 1 5 5] [ex_allocation 1 2 1 5]))
   \<and> \<not> isl (ex_allocate True [ex_info 1 1 5] (ex_db [ex_stock 1 1 1 5 5] [ex_allocation 1 2 1 5]))"
  by (intro conjI) code_simp+

text \<open>
  Two order lines of one variant in one call are checked against the same availability, so
  together they may take more than there is; and the counter of the stock only grows by the first
  line's quantity, because \<open>bulk_update\<close> is given two objects of that stock.
\<close>

lemma same_variant_lines_oversell:
  "ex_allocate False [ex_info 1 1 4, ex_info 2 1 3] (ex_db [ex_stock 1 1 1 5 0] [])
     = Inr (projr (ex_allocate False [ex_info 1 1 4, ex_info 2 1 3] (ex_db [ex_stock 1 1 1 5 0] [])))
   \<and> allocated_sum (projr (ex_allocate False [ex_info 1 1 4, ex_info 2 1 3] (ex_db [ex_stock 1 1 1 5 0] []))) 1 = 7
   \<and> stocks (projr (ex_allocate False [ex_info 1 1 4, ex_info 2 1 3] (ex_db [ex_stock 1 1 1 5 0] [])))
     = [ex_stock 1 1 1 5 4]"
  by (intro conjI, rule not_isl_Inr) code_simp+

end
