(* ===== verification/Stock_Movements.thy ===== *)
theory Stock_Movements
  imports Stock_Allocation
begin

text \<open>
  \<open>saleor/warehouse/management.py\<close>, second part: the release of allocations
  (\<open>deallocate_stock\<close>, \<open>deallocate_stock_for_order(s)\<close>, \<open>increase_allocations\<close>,
  \<open>decrease_allocations\<close>) and the movements of stock (\<open>increase_stock\<close>, \<open>decrease_stock\<close>).

  \<open>deallocate_stock\<close> is not atomic by itself, and \<open>decrease_stock\<close> catches its exception: it
  returns the database \<^emph>\<open>and\<close> the exception.
\<close>

section \<open>Deallocation\<close>

type_synonym deallocation_item = "pk \<times> pk \<times> int"   \<comment> \<open>(allocation, its stock, quantity)\<close>

fun deallocate_loop ::
  "int \<Rightarrow> int \<Rightarrow> deallocation_item list \<Rightarrow> allocation list
   \<Rightarrow> (int \<times> deallocation_item list) + deallocation_item list" where
  "deallocate_loop quantity quantity_dealocated items [] = Inl (quantity_dealocated, items)"
| "deallocate_loop quantity quantity_dealocated items (a # as) =
     (let quantity_to_deallocate = min (quantity - quantity_dealocated) (a_quantity_allocated a)
      in if 0 < quantity_to_deallocate then
           (let items' = items @ [(a_pk a, a_stock a, quantity_to_deallocate)];
                quantity_dealocated' = quantity_dealocated + quantity_to_deallocate
            in if quantity_dealocated' = quantity then Inr items'
               else deallocate_loop quantity quantity_dealocated' items' as)
         else deallocate_loop quantity quantity_dealocated items as)"

text \<open>
  The loop over the lines.  \<open>mem\<close> holds the allocation objects in memory, which all lines share;
  \<open>touched\<close> is \<open>allocations_to_update\<close> and \<open>stocks_to_update\<close>, which grow together.
\<close>

definition reduce_allocation :: "deallocation_item \<Rightarrow> allocation list \<Rightarrow> allocation list" where
  "reduce_allocation it mem = (case it of (k, sk, t) \<Rightarrow>
     map (\<lambda>a. if a_pk a = k then a\<lparr>a_quantity_allocated := a_quantity_allocated a - t\<rparr> else a) mem)"

fun deallocate_lines ::
  "order_line_info list \<Rightarrow> allocation list \<Rightarrow> deallocation_item list \<Rightarrow> pk list
   \<Rightarrow> allocation list \<times> deallocation_item list \<times> pk list" where
  "deallocate_lines [] mem touched not_dellocated = (mem, touched, not_dellocated)"
| "deallocate_lines (li # lis) mem touched not_dellocated =
     (let line = ol_pk (li_line li);
          as = sort_key a_stock (filter (\<lambda>a. a_order_line a = line) mem)
      in case deallocate_loop (li_quantity li) 0 [] as of
           Inr items \<Rightarrow>
             deallocate_lines lis (fold reduce_allocation items mem) (touched @ items) not_dellocated
         | Inl (quantity_dealocated, items) \<Rightarrow>
             deallocate_lines lis (fold reduce_allocation items mem) (touched @ items)
               (if quantity_dealocated = li_quantity li then not_dellocated
                else not_dellocated @ [line]))"

definition stock_deltas :: "deallocation_item list \<Rightarrow> (pk \<times> (stock \<Rightarrow> stock)) list" where
  \<comment> \<open>One \<open>Stock\<close> instance per allocation object: a later assignment to the same instance
      replaces the earlier one.\<close>
  "stock_deltas touched = map (\<lambda>(k, sk, t).
     (sk, add_allocated (- (case map_of (rev touched) k of None \<Rightarrow> 0 | Some (_, t') \<Rightarrow> t')))) touched"

definition set_allocations :: "allocation list \<Rightarrow> pk list \<Rightarrow> allocation list \<Rightarrow> allocation list" where
  "set_allocations mem ks rows = bulk_update a_pk
     (List.map_filter (\<lambda>k. map_option
         (\<lambda>m. (k, \<lambda>a. a\<lparr>a_quantity_allocated := a_quantity_allocated m\<rparr>)) (find_row a_pk k mem)) ks) rows"

definition deallocate_stock ::
  "env \<Rightarrow> order_line_info list \<Rightarrow> db \<Rightarrow> db \<times> pk list option" where
  "deallocate_stock e infos d =
     (let lines = map (\<lambda>li. ol_pk (li_line li)) infos;
          lines_allocations = filter (\<lambda>a. a_order_line a \<in> set lines) (allocations d);
          (mem, touched, not_dellocated) = deallocate_lines infos lines_allocations [] [];
          ks = map fst touched;
          before = in_row_order e a_pk (filter (\<lambda>a. a_pk a \<in> set ks) (allocations d));
          d1 = d\<lparr>allocations := set_allocations mem ks (allocations d)\<rparr>;
          back = (\<lambda>a. case find_row s_pk (a_stock a) (stocks d) of None \<Rightarrow> False
                   | Some s \<Rightarrow> stock_available_quantity d s \<le> 0
                               \<and> 0 < available_quantity_for_stock d1 s);
          d2 = add_hooks (late_bound back (\<lambda>a. Back_In_Stock (a_stock a)) before) d1;
          d3 = d2\<lparr>stocks := bulk_update s_pk (stock_deltas touched) (stocks d2)\<rparr>
      in (d3, if not_dellocated = [] then None else Some not_dellocated))"

definition release_allocations :: "env \<Rightarrow> (allocation \<Rightarrow> bool) \<Rightarrow> db \<Rightarrow> db" where
  \<comment> \<open>The common body of the two functions below; \<open>sel\<close> is their filter on the allocations.\<close>
  "release_allocations e sel d =
     (let as = filter (\<lambda>a. sel a \<and> 0 < a_quantity_allocated a) (allocations d);
          back = (\<lambda>a. case find_row s_pk (a_stock a) (stocks d) of None \<Rightarrow> False
                   | Some s \<Rightarrow> stock_available_quantity d s \<le> 0);
          d1 = add_hooks (late_bound back (\<lambda>a. Back_In_Stock (a_stock a)) (in_row_order e a_pk as)) d;
          d2 = d1\<lparr>allocations := map (\<lambda>a. if sel a \<and> 0 < a_quantity_allocated a
                     then a\<lparr>a_quantity_allocated := 0\<rparr> else a) (allocations d1)\<rparr>
      in d2\<lparr>stocks := bulk_update s_pk
           (map (\<lambda>a. (a_stock a, add_allocated (- a_quantity_allocated a))) as) (stocks d2)\<rparr>)"

definition lines_of_orders :: "db \<Rightarrow> pk list \<Rightarrow> pk list" where
  "lines_of_orders d orders = map ol_pk (filter (\<lambda>l. o_id (ol_order l) \<in> set orders) (order_lines d))"

definition deallocate_stock_for_order :: "env \<Rightarrow> pk \<Rightarrow> db \<Rightarrow> db" where
  "deallocate_stock_for_order e order d =
     release_allocations e (\<lambda>a. a_order_line a \<in> set (lines_of_orders d [order])) d"

definition deallocate_stock_for_orders :: "env \<Rightarrow> pk list \<Rightarrow> db \<Rightarrow> db" where
  "deallocate_stock_for_orders e orders_id d =
     release_allocations e (\<lambda>a. a_order_line a \<in> set (lines_of_orders d orders_id)) d"

section \<open>Movements of stock\<close>

definition increase_stock ::
  "order_line \<Rightarrow> pk \<Rightarrow> int \<Rightarrow> bool \<Rightarrow> db \<Rightarrow> error + db" where
  "increase_stock line wh quantity allocate d =
     (case ol_variant line of
        None \<Rightarrow> Inl Assertion_Error
      | Some v \<Rightarrow>
          (let found = find (\<lambda>s. s_warehouse s = wh \<and> s_variant s = v) (stocks d);
               stocked = (case found of
                   Some s \<Rightarrow> Inr (s_pk s, stock_increase_stock (s_pk s) quantity d)
                 | None \<Rightarrow> (case insert_stocks [\<lambda>k. \<lparr>s_pk = k, s_warehouse = wh, s_variant = v,
                                 s_quantity = quantity, s_quantity_allocated = 0\<rparr>] d of
                       Inl err \<Rightarrow> Inl err
                     | Inr (new, d') \<Rightarrow> Inr (s_pk (hd new), d')))
           in case stocked of
                Inl err \<Rightarrow> Inl err
              | Inr (sk, d1) \<Rightarrow>
                  (if \<not> allocate then Inr d1
                   else
                     (let allocated = (case find (\<lambda>a. a_order_line a = ol_pk line \<and> a_stock a = sk)
                                               (allocations d1) of
                          Some a \<Rightarrow>
                            (if a_quantity_allocated a + quantity < 0 then Inl Integrity_Error
                             else Inr (d1\<lparr>allocations := bulk_update a_pk [(a_pk a, \<lambda>a'.
                               a'\<lparr>a_quantity_allocated := a_quantity_allocated a' + quantity\<rparr>)]
                               (allocations d1)\<rparr>))
                        | None \<Rightarrow> (case insert_allocations [new_allocation (ol_pk line, sk, quantity)] d1 of
                              Inl err \<Rightarrow> Inl err | Inr (_, d') \<Rightarrow> Inr d'))
                      in case allocated of
                           Inl err \<Rightarrow> Inl err
                         | Inr d2 \<Rightarrow> Inr (d2\<lparr>stocks :=
                             bulk_update s_pk [(sk, add_allocated quantity)] (stocks d2)\<rparr>)))))"

definition increase_allocations ::
  "env \<Rightarrow> order_line_info list \<Rightarrow> channel \<Rightarrow> db \<Rightarrow> error + db" where
  "increase_allocations e infos ch d =
     (let line_pks = map (\<lambda>li. ol_pk (li_line li)) infos;
          as = filter (\<lambda>a. a_order_line a \<in> set line_pks) (allocations d);
          infos' = map (\<lambda>li. li\<lparr>li_quantity := li_quantity li +
                     group_sum a_order_line a_quantity_allocated as (ol_pk (li_line li))\<rparr>) infos;
          d1 = d\<lparr>allocations := filter (\<lambda>a. a_pk a \<notin> a_pk ` set as) (allocations d)\<rparr>;
          d2 = d1\<lparr>stocks := bulk_update s_pk
                 (map (\<lambda>a. (a_stock a, add_allocated (- a_quantity_allocated a))) as) (stocks d1)\<rparr>
      in case infos' of
           [] \<Rightarrow> Inl Index_Error
         | li # _ \<Rightarrow>
             (case o_shipping_country (ol_order (li_line li)) of
                None \<Rightarrow> Inl Attribute_Error
              | Some country \<Rightarrow> allocate_stocks e infos' country ch None (\<lambda>_. True) False [] d2))"

fun decrease_lines ::
  "order_line_info list \<Rightarrow> (pk \<Rightarrow> int) \<Rightarrow> bool \<Rightarrow> stock list \<Rightarrow> pk list \<Rightarrow> insufficient_stock_data list
   \<Rightarrow> error + (stock list \<times> pk list \<times> insufficient_stock_data list)" where
  \<comment> \<open>The loop of \<open>_decrease_stocks_quantity\<close>; \<open>mem\<close> holds the stock objects, shared by the lines.\<close>
  "decrease_lines [] alloc allow mem touched insufficient = Inr (mem, touched, insufficient)"
| "decrease_lines (li # lis) alloc allow mem touched insufficient =
     (let variant = map_option v_id (li_variant li);
          report = \<lparr>i_available_quantity = 0, i_variant = variant,
                    i_order_line = Some (ol_pk (li_line li)), i_warehouse_pk = li_warehouse_pk li\<rparr>
      in case (li_warehouse_pk li, variant) of
           (Some _, None) \<Rightarrow> Inl Attribute_Error
         | (wh, v) \<Rightarrow>
             (case (if wh = None then None
                    else find (\<lambda>s. Some (s_variant s) = v \<and> Some (s_warehouse s) = wh) mem) of
                None \<Rightarrow> decrease_lines lis alloc allow mem touched
                          (if allow then insufficient else insufficient @ [report])
              | Some s \<Rightarrow>
                  (let is_stock_exceeded = s_quantity s - alloc (s_pk s) < li_quantity li
                   in if is_stock_exceeded \<and> \<not> allow
                      then decrease_lines lis alloc allow mem touched (insufficient @ [report])
                      else decrease_lines lis alloc allow
                             (map (\<lambda>s'. if s_pk s' = s_pk s
                                        then s'\<lparr>s_quantity := s_quantity s' - li_quantity li\<rparr> else s') mem)
                             (touched @ [s_pk s]) insufficient)))"

definition decrease_stocks_quantity ::
  "order_line_info list \<Rightarrow> stock list \<Rightarrow> (pk \<Rightarrow> int) \<Rightarrow> bool \<Rightarrow> db \<Rightarrow> error + db" where
  "decrease_stocks_quantity infos ss alloc allow d =
     (case decrease_lines infos alloc allow ss [] [] of
        Inl err \<Rightarrow> Inl err
      | Inr (mem, touched, insufficient) \<Rightarrow>
          (if insufficient \<noteq> [] then Inl (Insufficient_Stock insufficient)
           else Inr (d\<lparr>stocks := bulk_update s_pk
             (List.map_filter (\<lambda>k. map_option (\<lambda>m. (k, \<lambda>s. s\<lparr>s_quantity := s_quantity m\<rparr>))
                (find_row s_pk k mem)) touched) (stocks d)\<rparr>)))"

definition zero_lines :: "pk list \<Rightarrow> db \<Rightarrow> db" where
  "zero_lines ls d = d\<lparr>allocations := map (\<lambda>a. if a_order_line a \<in> set ls
       then a\<lparr>a_quantity_allocated := 0\<rparr> else a) (allocations d)\<rparr>"

definition decrease_stock ::
  "env \<Rightarrow> order_line_info list \<Rightarrow> bool \<Rightarrow> bool \<Rightarrow> db \<Rightarrow> error + db" where
  "decrease_stock e infos update_stocks allow_stock_to_be_exceeded d =
     (let variants = List.map_filter (\<lambda>li. map_option v_id (li_variant li)) infos;
          warehouse_pks = List.map_filter li_warehouse_pk infos;
          d1 = (case deallocate_stock e infos d of
                  (d', None) \<Rightarrow> d'
                | (d', Some ls) \<Rightarrow> zero_lines ls d');
          ss = sort_key s_pk (filter (\<lambda>s. s_variant s \<in> set variants
                 \<and> s_warehouse s \<in> set warehouse_pks) (stocks d1));
          alloc = group_sum a_stock a_quantity_allocated
                    (filter (\<lambda>a. a_stock a \<in> s_pk ` set ss \<and> 0 < a_quantity_allocated a) (allocations d1))
      in if \<not> update_stocks then Inr d1
         else (case decrease_stocks_quantity infos ss alloc allow_stock_to_be_exceeded d1 of
                 Inl err \<Rightarrow> Inl err
               | Inr d2 \<Rightarrow>
                   (let rows = in_row_order e s_pk
                          (filter (\<lambda>s. s_pk s \<in> s_pk ` set ss) (stocks d2))
                    in Inr (add_hooks (late_bound (\<lambda>s. available_quantity d2 s \<le> 0)
                             (\<lambda>s. Out_Of_Stock (s_pk s)) rows) d2))))"

definition decrease_allocations :: "env \<Rightarrow> order_line_info list \<Rightarrow> db \<Rightarrow> error + db" where
  "decrease_allocations e infos d =
     (let tracked_lines = get_order_lines_with_track_inventory e infos
      in if tracked_lines = [] then Inr d else decrease_stock e tracked_lines False False d)"


section \<open>The loop of one line\<close>

abbreviation dit_key :: "deallocation_item \<Rightarrow> pk" where "dit_key it \<equiv> fst it"
abbreviation dit_stock :: "deallocation_item \<Rightarrow> pk" where "dit_stock it \<equiv> fst (snd it)"
abbreviation dit_quantity :: "deallocation_item \<Rightarrow> int" where "dit_quantity it \<equiv> snd (snd it)"

interpretation dealloc_loop: greedy_loop
  a_quantity_allocated "\<lambda>a t. (a_pk a, a_stock a, t)" "\<lambda>it. snd (snd it)" deallocate_loop
  by unfold_locales (simp_all add: Let_def)

definition line_sum :: "db \<Rightarrow> pk \<Rightarrow> int" where
  "line_sum d line = group_sum a_order_line a_quantity_allocated (allocations d) line"

text \<open>What a run of the loop took, and whether it found all of it.\<close>

definition taken :: "int \<Rightarrow> allocation list \<Rightarrow> deallocation_item list" where
  "taken q as = (case deallocate_loop q 0 [] as of Inl (n, items) \<Rightarrow> items | Inr items \<Rightarrow> items)"

definition found_all :: "int \<Rightarrow> allocation list \<Rightarrow> bool" where
  "found_all q as = (case deallocate_loop q 0 [] as of Inl (n, items) \<Rightarrow> n = q | Inr items \<Rightarrow> True)"

lemma taken_cases:
  obtains (done_all) "deallocate_loop q 0 [] as = Inr (taken q as)" "found_all q as"
  | (fell) n where "deallocate_loop q 0 [] as = Inl (n, taken q as)" "found_all q as \<longleftrightarrow> n = q"
  by (cases "deallocate_loop q 0 [] as") (auto simp: taken_def found_all_def split: prod.splits)

lemma taken_items:
  "it \<in> set (taken q as) \<Longrightarrow> \<exists>a \<in> set as. dit_key it = a_pk a \<and> dit_stock it = a_stock a
     \<and> 0 < dit_quantity it \<and> dit_quantity it \<le> a_quantity_allocated a"
proof (cases rule: taken_cases [of q as])
  case done_all
  assume "it \<in> set (taken q as)"
  with dealloc_loop.run_done_bounds [OF done_all(1)] show ?thesis by force
next
  case (fell n)
  assume "it \<in> set (taken q as)"
  with dealloc_loop.run_end_bounds [OF fell(1)] show ?thesis by force
qed

lemma taken_distinct:
  assumes "distinct (map a_pk as)"
  shows "distinct (map dit_key (taken q as))"
proof -
  have "subseq (map dit_key (taken q as)) (map a_pk as)"
    using dealloc_loop.run_done_subseq [where key = dit_key and skey = a_pk, of q 0 "[]" as]
      dealloc_loop.run_end_subseq [where key = dit_key and skey = a_pk, of q 0 "[]" as]
    by (cases rule: taken_cases [of q as]) auto
  then show ?thesis using assms by (rule subseq_distinct)
qed

lemma taken_sum:
  assumes "\<forall>a \<in> set as. 0 \<le> a_quantity_allocated a"
  shows "sum_of dit_quantity (taken q as) = min (max 0 q) (sum_of a_quantity_allocated as)"
    and "found_all q as \<longleftrightarrow> 0 \<le> q \<and> q \<le> sum_of a_quantity_allocated as"
proof -
  have max: "sum_of (\<lambda>a. max 0 (a_quantity_allocated a)) as = sum_of a_quantity_allocated as"
    using assms by (induction as) auto
  have nn: "0 \<le> sum_of a_quantity_allocated as" using assms by (simp add: sum_of_nonneg)
  have "sum_of dit_quantity (taken q as) = min (max 0 q) (sum_of a_quantity_allocated as)
      \<and> (found_all q as \<longleftrightarrow> 0 \<le> q \<and> q \<le> sum_of a_quantity_allocated as)"
  proof (cases "0 < q")
    case False
    with dealloc_loop.run_nothing [of q 0 "[]" as] nn show ?thesis
      by (auto simp: taken_def found_all_def)
  next
    case True
    note iff = dealloc_loop.run_done_iff [OF True, of "[]" as, unfolded max]
    show ?thesis
    proof (cases rule: taken_cases [of q as])
      case done_all
      with True iff dealloc_loop.run_done_total [OF done_all(1)] show ?thesis by auto
    next
      case (fell n)
      with dealloc_loop.run_end_short [OF fell(1) True] True iff max
        dealloc_loop.run_end_all [OF fell(1) True] dealloc_loop.run_end_total [OF fell(1)]
      show ?thesis by auto
    qed
  qed
  then show "sum_of dit_quantity (taken q as) = min (max 0 q) (sum_of a_quantity_allocated as)"
    and "found_all q as \<longleftrightarrow> 0 \<le> q \<and> q \<le> sum_of a_quantity_allocated as" by auto
qed

section \<open>Allocations less what was taken\<close>

definition less_taken :: "deallocation_item list \<Rightarrow> allocation list \<Rightarrow> allocation list" where
  "less_taken items as = map (\<lambda>a. a\<lparr>a_quantity_allocated :=
     a_quantity_allocated a - group_sum dit_key dit_quantity items (a_pk a)\<rparr>) as"

lemma fold_reduce: "fold reduce_allocation items mem = less_taken items mem"
proof (induction items arbitrary: mem)
  case (Cons it items)
  then show ?case by (cases it) (auto simp: less_taken_def reduce_allocation_def)
qed (simp add: less_taken_def)

lemma less_taken_simps:
  "less_taken [] as = as" "less_taken ys (less_taken xs as) = less_taken (xs @ ys) as"
  "map a_pk (less_taken xs as) = map a_pk as" "map a_stock (less_taken xs as) = map a_stock as"
  "filter (\<lambda>a. a_order_line a = l) (less_taken xs as) = less_taken xs (filter (\<lambda>a. a_order_line a = l) as)"
  by (simp_all add: less_taken_def filter_map o_def algebra_simps)

lemma less_taken_other: "(\<And>a. a \<in> set as \<Longrightarrow> a_pk a \<notin> dit_key ` set xs) \<Longrightarrow> less_taken xs as = as"
  unfolding less_taken_def by (rule map_idI) (simp add: group_sum_absent)

text \<open>The loop over the lines: the items of the lines in their order, the lines that came short.\<close>

definition line_allocations :: "allocation list \<Rightarrow> order_line_info \<Rightarrow> allocation list" where
  "line_allocations rows li = sort_key a_stock (filter (\<lambda>a. a_order_line a = ol_pk (li_line li)) rows)"

lemma deallocate_lines_split:
  assumes "distinct (map a_pk mem)" and "distinct (map (\<lambda>li. ol_pk (li_line li)) lis)"
    and "\<forall>li \<in> set lis. \<forall>a \<in> set mem. a_order_line a = ol_pk (li_line li) \<longrightarrow> a_pk a \<notin> dit_key ` set items0"
  shows "deallocate_lines lis (less_taken items0 mem) items0 nd =
     (let items = concat (map (\<lambda>li. taken (li_quantity li) (line_allocations mem li)) lis)
      in (less_taken (items0 @ items) mem, items0 @ items,
          nd @ map (\<lambda>li. ol_pk (li_line li))
            (filter (\<lambda>li. \<not> found_all (li_quantity li) (line_allocations mem li)) lis)))"
  using assms(2,3)
proof (induction lis arbitrary: items0 nd)
  case Nil
  then show ?case by simp
next
  case (Cons li lis)
  let ?l = "ol_pk (li_line li)" and ?q = "li_quantity li"
  have own: "less_taken items0 (filter (\<lambda>a. a_order_line a = ?l) mem) = filter (\<lambda>a. a_order_line a = ?l) mem"
    by (rule less_taken_other) (use Cons.prems(2) in auto)
  let ?t = "taken ?q (line_allocations mem li)"
  have next_step: "deallocate_lines (li # lis) (less_taken items0 mem) items0 nd =
      deallocate_lines lis (less_taken (items0 @ ?t) mem) (items0 @ ?t)
        (nd @ (if found_all ?q (line_allocations mem li) then [] else [?l]))"
    by (cases rule: taken_cases [of ?q "line_allocations mem li"])
      (simp_all add: less_taken_simps own fold_reduce line_allocations_def [symmetric])
  have apart: "\<forall>li' \<in> set lis. \<forall>a \<in> set mem.
      a_order_line a = ol_pk (li_line li') \<longrightarrow> a_pk a \<notin> dit_key ` set (items0 @ ?t)"
  proof (intro ballI impI)
    fix li' a assume a: "li' \<in> set lis" "a \<in> set mem" "a_order_line a = ol_pk (li_line li')"
    have "a_pk a \<notin> dit_key ` set ?t"
    proof
      assume "a_pk a \<in> dit_key ` set ?t"
      then obtain it where it: "it \<in> set ?t" "a_pk a = dit_key it" by auto
      from taken_items [OF it(1)] obtain b where "b \<in> set (line_allocations mem li)" "dit_key it = a_pk b"
        by blast
      then have b: "b \<in> set mem" "a_order_line b = ?l" "a_pk b = a_pk a"
        using it by (auto simp: line_allocations_def)
      with a(2) assms(1) have "a = b" by (auto simp: distinct_map dest: inj_onD)
      with b a Cons.prems(1) show False by (auto simp: image_iff)
    qed
    moreover have "a_pk a \<notin> dit_key ` set items0" using a Cons.prems(2) by simp
    ultimately show "a_pk a \<notin> dit_key ` set (items0 @ ?t)" by (simp add: image_Un)
  qed
  from Cons.IH [OF _ apart] Cons.prems(1) show ?case
    unfolding next_step by (simp add: Let_def)
qed

section \<open>The whole of \<open>deallocate_stock\<close>\<close>

lemma set_allocations_less:
  assumes dist: "distinct (map a_pk rows)"
    and keys: "\<forall>it \<in> set items. \<exists>a \<in> set rows. P a \<and> dit_key it = a_pk a"
  shows "set_allocations (less_taken items (filter P rows)) (map fst items) rows = less_taken items rows"
proof -
  let ?mem = "less_taken items (filter P rows)"
  let ?less = "\<lambda>a. a\<lparr>a_quantity_allocated :=
     a_quantity_allocated a - group_sum dit_key dit_quantity items (a_pk a)\<rparr>"
  have "(case map_of (List.map_filter (\<lambda>k. map_option
         (\<lambda>m. (k, \<lambda>a. a\<lparr>a_quantity_allocated := a_quantity_allocated m\<rparr>)) (find_row a_pk k ?mem))
         (map fst items)) (a_pk r) of None \<Rightarrow> r | Some f \<Rightarrow> f r) = ?less r" if r: "r \<in> set rows" for r
  proof (cases "a_pk r \<in> dit_key ` set items")
    case True
    with keys obtain a where "a \<in> set rows" "P a" "a_pk a = a_pk r" by force
    with r dist have P: "P r" by (metis (no_types, lifting) distinct_map inj_onD)
    have "find_row a_pk (a_pk (?less r)) ?mem = Some (?less r)"
    proof (rule find_row_distinct)
      show "distinct (map a_pk ?mem)" using dist by (simp add: less_taken_simps distinct_map_filter)
      show "?less r \<in> set ?mem" using P r by (force simp: less_taken_def)
    qed
    with True show ?thesis by (simp add: map_of_map_filter)
  next
    case False
    then show ?thesis by (simp add: map_of_map_filter group_sum_absent)
  qed
  then show ?thesis by (simp add: set_allocations_def bulk_update_def less_taken_def)
qed

definition items_taken :: "order_line_info list \<Rightarrow> db \<Rightarrow> deallocation_item list" where
  "items_taken infos d =
     concat (map (\<lambda>li. taken (li_quantity li) (line_allocations (allocations d) li)) infos)"

definition lines_of :: "order_line_info list \<Rightarrow> pk list" where
  "lines_of infos = map (\<lambda>li. ol_pk (li_line li)) infos"

lemma items_taken_in:
  assumes "it \<in> set (items_taken infos d)"
  shows "\<exists>a \<in> set (allocations d). a_order_line a \<in> set (lines_of infos)
    \<and> dit_key it = a_pk a \<and> dit_stock it = a_stock a \<and> 0 < dit_quantity it \<and> dit_quantity it \<le> a_quantity_allocated a"
proof -
  from assms obtain li where "li \<in> set infos"
    "it \<in> set (taken (li_quantity li) (line_allocations (allocations d) li))" by (auto simp: items_taken_def)
  with taken_items [OF this(2)] show ?thesis
    by (auto simp: line_allocations_def lines_of_def)
qed

lemma deallocate_stock_eq:
  assumes dist: "distinct (map a_pk (allocations d))" and lines: "distinct (lines_of infos)"
  shows "allocations (fst (deallocate_stock e infos d)) = less_taken (items_taken infos d) (allocations d)"
    and "stocks (fst (deallocate_stock e infos d))
      = bulk_update s_pk (stock_deltas (items_taken infos d)) (stocks d)"
    and "snd (deallocate_stock e infos d) =
      (let short = filter (\<lambda>li. \<not> found_all (li_quantity li) (line_allocations (allocations d) li)) infos
       in if short = [] then None else Some (lines_of short))"
proof -
  let ?own = "\<lambda>a. a_order_line a \<in> set (lines_of infos)"
  let ?mem = "filter ?own (allocations d)"
  have la: "line_allocations ?mem li = line_allocations (allocations d) li" if "li \<in> set infos" for li
    using that by (auto simp: line_allocations_def lines_of_def intro!: arg_cong [where f = "sort_key _"] filter_cong)
  have "deallocate_lines infos (less_taken [] ?mem) [] [] =
     (less_taken (items_taken infos d) ?mem, items_taken infos d,
      lines_of (filter (\<lambda>li. \<not> found_all (li_quantity li) (line_allocations (allocations d) li)) infos))"
    using deallocate_lines_split [of ?mem infos "[]" "[]"] dist lines la
    by (simp add: Let_def items_taken_def lines_of_def distinct_map_filter cong: map_cong filter_cong)
  then have run: "deallocate_lines infos ?mem [] [] =
     (less_taken (items_taken infos d) ?mem, items_taken infos d,
      lines_of (filter (\<lambda>li. \<not> found_all (li_quantity li) (line_allocations (allocations d) li)) infos))"
    by (simp add: less_taken_simps)
  have keys: "\<forall>it \<in> set (items_taken infos d). \<exists>a \<in> set (allocations d). ?own a \<and> dit_key it = a_pk a"
    using items_taken_in by fast
  note set = set_allocations_less [OF dist keys]
  show "allocations (fst (deallocate_stock e infos d)) = less_taken (items_taken infos d) (allocations d)"
    and "stocks (fst (deallocate_stock e infos d))
      = bulk_update s_pk (stock_deltas (items_taken infos d)) (stocks d)"
    and "snd (deallocate_stock e infos d) =
      (let short = filter (\<lambda>li. \<not> found_all (li_quantity li) (line_allocations (allocations d) li)) infos
       in if short = [] then None else Some (lines_of short))"
    using run set
    by (simp_all add: deallocate_stock_def Let_def lines_of_def [symmetric] add_hooks_def)
       (simp add: lines_of_def)
qed

lemma less_taken_sums:
  assumes dist: "distinct (map a_pk as)"
    and items: "\<And>it. it \<in> set items \<Longrightarrow> \<exists>a \<in> set as. dit_key it = a_pk a \<and> key a = ikey it"
    and key: "\<And>a q. key (a\<lparr>a_quantity_allocated := q\<rparr>) = key a"
  shows "group_sum key a_quantity_allocated (less_taken items as) x =
    group_sum key a_quantity_allocated as x - group_sum ikey dit_quantity items x"
proof -
  let ?rows = "filter (\<lambda>a. key a = x) as"
  have "filter (\<lambda>it. dit_key it \<in> a_pk ` set ?rows) items = filter (\<lambda>it. ikey it = x) items"
  proof (rule filter_cong [OF refl])
    fix it assume it: "it \<in> set items"
    from items [OF it] obtain a where a: "a \<in> set as" "dit_key it = a_pk a" "key a = ikey it" by blast
    show "(dit_key it \<in> a_pk ` set ?rows) = (ikey it = x)"
    proof
      assume "dit_key it \<in> a_pk ` set ?rows"
      then obtain b where "b \<in> set as" "key b = x" "a_pk b = a_pk a" using a by auto
      with a dist have "b = a" by (metis (no_types, lifting) distinct_map inj_onD)
      with a \<open>key b = x\<close> show "ikey it = x" by simp
    qed (use a in auto)
  qed
  then have "sum_of (\<lambda>a. group_sum dit_key dit_quantity items (a_pk a)) ?rows = group_sum ikey dit_quantity items x"
    using sum_of_group_sum [OF distinct_map_filter [OF dist], where key = dit_key and val = dit_quantity and items = items]
    by (simp only: group_sum_def [of ikey])
  moreover have "group_sum key a_quantity_allocated (less_taken items as) x =
      sum_of (\<lambda>a. a_quantity_allocated a - group_sum dit_key dit_quantity items (a_pk a)) ?rows"
    by (simp add: less_taken_def group_sum_def filter_map o_def key sum_of_def)
  ultimately show ?thesis by (simp add: group_sum_def sum_of_diff)
qed

lemma items_of_line:
  assumes "distinct (lines_of infos)" and "distinct (map a_pk (allocations d))" and "li \<in> set infos"
  shows "sum_of dit_quantity (taken (li_quantity li) (line_allocations (allocations d) li)) =
    group_sum (\<lambda>it. the (map_of (map (\<lambda>a. (a_pk a, a_order_line a)) (allocations d)) (dit_key it)))
      dit_quantity (items_taken infos d) (ol_pk (li_line li))" (is "?t li = group_sum ?owner _ _ _")
proof -
  have owner: "?owner it = ol_pk (li_line li')" if
    "it \<in> set (taken (li_quantity li') (line_allocations (allocations d) li'))" for it li'
  proof -
    from taken_items [OF that] obtain a where "a \<in> set (allocations d)" "a_order_line a = ol_pk (li_line li')"
      "dit_key it = a_pk a" by (auto simp: line_allocations_def)
    with map_of_keyed [OF assms(2) this(1), of a_order_line] show ?thesis by simp
  qed
  have one: "group_sum ?owner dit_quantity (taken (li_quantity li') (line_allocations (allocations d) li')) x
      = (if ol_pk (li_line li') = x then ?t li' else 0)" for li' x
    by (rule group_sum_const) (rule owner)
  have "group_sum ?owner dit_quantity
      (concat (map (\<lambda>li. taken (li_quantity li) (line_allocations (allocations d) li)) lis)) x
     = group_sum (\<lambda>li. ol_pk (li_line li)) ?t lis x" for x lis
    by (induction lis) (simp_all add: one)
  with group_sum_distinct [OF assms(1) [unfolded lines_of_def] assms(3), of ?t] show ?thesis
    by (simp add: items_taken_def)
qed

lemma deallocate_stock_line_sum:
  assumes "distinct (map a_pk (allocations d))" and "distinct (lines_of infos)"
  shows "line_sum (fst (deallocate_stock e infos d)) x = line_sum d x
     - group_sum (\<lambda>it. the (map_of (map (\<lambda>a. (a_pk a, a_order_line a)) (allocations d)) (dit_key it)))
         dit_quantity (items_taken infos d) x"
  unfolding line_sum_def deallocate_stock_eq(1) [OF assms]
proof (rule less_taken_sums [OF assms(1)])
  fix it assume "it \<in> set (items_taken infos d)"
  from items_taken_in [OF this] obtain a where a: "a \<in> set (allocations d)" "dit_key it = a_pk a"
    by blast
  with map_of_keyed [OF assms(1) a(1), of a_order_line]
  show "\<exists>a \<in> set (allocations d). dit_key it = a_pk a \<and> a_order_line a =
      the (map_of (map (\<lambda>a. (a_pk a, a_order_line a)) (allocations d)) (dit_key it))" by force
qed simp

lemma line_allocations_sum:
  "sum_of a_quantity_allocated (line_allocations (allocations d) li) = line_sum d (ol_pk (li_line li))"
  "set (line_allocations (allocations d) li) \<subseteq> set (allocations d)"
  by (auto simp: line_sum_def group_sum_def line_allocations_def intro: sum_of_mset)

lemma deallocate_stock_lines_fact:
  assumes "distinct (map a_pk (allocations d))" and "distinct (lines_of infos)"
    and "\<forall>a \<in> set (allocations d). 0 \<le> a_quantity_allocated a"
    and "deallocate_stock e infos d = (d', failed)"
  shows "(\<forall>li \<in> set infos. line_sum d' (ol_pk (li_line li)) = line_sum d (ol_pk (li_line li))
           - min (max 0 (li_quantity li)) (line_sum d (ol_pk (li_line li)))
         \<and> ((\<exists>ls. failed = Some ls \<and> ol_pk (li_line li) \<in> set ls)
             \<longleftrightarrow> li_quantity li < 0 \<or> line_sum d (ol_pk (li_line li)) < li_quantity li))
    \<and> (\<forall>line. line \<notin> set (lines_of infos) \<longrightarrow> line_sum d' line = line_sum d line)"
proof (intro conjI)
  have nn: "\<forall>a \<in> set (line_allocations (allocations d) li). 0 \<le> a_quantity_allocated a" for li
    using assms(3) line_allocations_sum(2) by blast
  note sums = deallocate_stock_line_sum [OF assms(1,2), of e]
  note eq = deallocate_stock_eq(3) [OF assms(1,2), of e]
  have d': "d' = fst (deallocate_stock e infos d)" and failed: "failed = snd (deallocate_stock e infos d)"
    using assms(4) by simp_all
  show "\<forall>li \<in> set infos. line_sum d' (ol_pk (li_line li)) = line_sum d (ol_pk (li_line li))
           - min (max 0 (li_quantity li)) (line_sum d (ol_pk (li_line li)))
         \<and> ((\<exists>ls. failed = Some ls \<and> ol_pk (li_line li) \<in> set ls)
             \<longleftrightarrow> li_quantity li < 0 \<or> line_sum d (ol_pk (li_line li)) < li_quantity li)"
  proof
    fix li assume li: "li \<in> set infos"
    have "line_sum d' (ol_pk (li_line li)) = line_sum d (ol_pk (li_line li))
           - min (max 0 (li_quantity li)) (line_sum d (ol_pk (li_line li)))"
      unfolding d' sums items_of_line [OF assms(2,1) li, symmetric] taken_sum(1) [OF nn]
        line_allocations_sum ..
    moreover have "(\<exists>ls. failed = Some ls \<and> ol_pk (li_line li) \<in> set ls)
        \<longleftrightarrow> \<not> found_all (li_quantity li) (line_allocations (allocations d) li)"
      using assms(2) li unfolding failed eq lines_of_def Let_def distinct_map
      by (auto simp: filter_empty_conv dest: inj_onD)
    moreover note taken_sum(2) [OF nn, of "li_quantity li" li, unfolded line_allocations_sum]
    ultimately show "line_sum d' (ol_pk (li_line li)) = line_sum d (ol_pk (li_line li))
           - min (max 0 (li_quantity li)) (line_sum d (ol_pk (li_line li)))
         \<and> ((\<exists>ls. failed = Some ls \<and> ol_pk (li_line li) \<in> set ls)
             \<longleftrightarrow> li_quantity li < 0 \<or> line_sum d (ol_pk (li_line li)) < li_quantity li)" by auto
  qed
  show "\<forall>line. line \<notin> set (lines_of infos) \<longrightarrow> line_sum d' line = line_sum d line"
  proof (intro allI impI)
    fix line assume other: "line \<notin> set (lines_of infos)"
    have "line_sum d' line = group_sum a_order_line a_quantity_allocated
       (less_taken (items_taken infos d) (allocations d)) line"
      by (simp add: d' line_sum_def deallocate_stock_eq(1) [OF assms(1,2)])
    also have "filter (\<lambda>a. a_order_line a = line) (less_taken (items_taken infos d) (allocations d))
      = filter (\<lambda>a. a_order_line a = line) (allocations d)"
      unfolding less_taken_simps
    proof (rule less_taken_other)
      fix a assume a: "a \<in> set (filter (\<lambda>a. a_order_line a = line) (allocations d))"
      show "a_pk a \<notin> dit_key ` set (items_taken infos d)"
      proof
        assume "a_pk a \<in> dit_key ` set (items_taken infos d)"
        then obtain it where it: "it \<in> set (items_taken infos d)" "a_pk a = dit_key it" by auto
        from items_taken_in [OF it(1)] obtain b where "b \<in> set (allocations d)"
          "a_order_line b \<in> set (lines_of infos)" "dit_key it = a_pk b" by blast
        with a it assms(1) have "a = b" by (auto simp: distinct_map dest: inj_onD)
        with a other \<open>a_order_line b \<in> set (lines_of infos)\<close> show False by simp
      qed
    qed
    then have "group_sum a_order_line a_quantity_allocated
       (less_taken (items_taken infos d) (allocations d)) line = line_sum d line"
      by (simp add: line_sum_def group_sum_def)
    finally show "line_sum d' line = line_sum d line" .
  qed
qed

text \<open>
  C5: \<open>deallocate_stock\<close> takes from each order line what its info asks for, or all that is
  allocated to it when that is less, and then names the line in its \<open>AllocationError\<close>; the
  allocations of every other line stay as they are.
\<close>

theorem deallocate_stock_lines:
  assumes "distinct (map a_pk (allocations d))" and "distinct (lines_of infos)"
    and "\<forall>a \<in> set (allocations d). 0 \<le> a_quantity_allocated a"
    and "deallocate_stock e infos d = (d', failed)"
  shows "(\<forall>li \<in> set infos. line_sum d' (ol_pk (li_line li)) = line_sum d (ol_pk (li_line li))
           - min (max 0 (li_quantity li)) (line_sum d (ol_pk (li_line li)))
         \<and> ((\<exists>ls. failed = Some ls \<and> ol_pk (li_line li) \<in> set ls)
             \<longleftrightarrow> li_quantity li < 0 \<or> line_sum d (ol_pk (li_line li)) < li_quantity li))
    \<and> (\<forall>line. line \<notin> set (lines_of infos) \<longrightarrow> line_sum d' line = line_sum d line)"
  by (rule deallocate_stock_lines_fact [OF assms])

text \<open>The counters: each allocation object that is touched brings its own object of the stock.\<close>

lemma items_taken_distinct:
  assumes "distinct (map a_pk (allocations d))" and "distinct (lines_of infos)"
  shows "distinct (map dit_key (items_taken infos d))"
proof -
  let ?t = "\<lambda>li. taken (li_quantity li) (line_allocations (allocations d) li)"
  have one: "distinct (map dit_key (?t li))" for li
    by (rule taken_distinct) (simp add: line_allocations_def distinct_map_filter assms(1)
        distinct_map_mset [OF mset_sort])
  have "distinct (map dit_key (concat (map ?t lis)))" if "distinct (lines_of lis)" for lis
    using that
  proof (induction lis)
    case (Cons li lis)
    have "dit_key it \<noteq> dit_key it'" if it: "it \<in> set (?t li)" and it': "li' \<in> set lis" "it' \<in> set (?t li')" for it it' li'
    proof
      assume same: "dit_key it = dit_key it'"
      from taken_items [OF it] taken_items [OF it'(2)] obtain a b where
        "a \<in> set (allocations d)" "a_order_line a = ol_pk (li_line li)" "dit_key it = a_pk a"
        "b \<in> set (allocations d)" "a_order_line b = ol_pk (li_line li')" "dit_key it' = a_pk b"
        by (auto simp: line_allocations_def)
      with same assms(1) have "ol_pk (li_line li) = ol_pk (li_line li')"
        by (metis distinct_map inj_onD)
      with Cons.prems it'(1) show False by (auto simp: lines_of_def)
    qed
    with Cons one show ?case by (fastforce simp: lines_of_def)
  qed simp
  with assms(2) show ?thesis by (simp add: items_taken_def)
qed

lemma stock_deltas_distinct:
  assumes "distinct (map dit_key items)"
  shows "stock_deltas items = map (\<lambda>it. (dit_stock it, add_allocated (- dit_quantity it))) items"
proof -
  have "map_of (rev items) (dit_key it) = Some (snd it)" if "it \<in> set items" for it
    using that assms by (intro map_of_is_SomeI) (auto simp: rev_map [symmetric])
  then show ?thesis by (auto simp: stock_deltas_def split: prod.splits)
qed

lemma items_taken_stocks:
  assumes pks: "distinct (map a_pk (allocations d))" and lines: "distinct (lines_of infos)"
    and stocks: "distinct (map a_stock (filter (\<lambda>a. a_order_line a \<in> set (lines_of infos)) (allocations d)))"
  shows "distinct (map dit_stock (items_taken infos d))"
  unfolding distinct_map
proof (intro conjI inj_onI)
  note dist = items_taken_distinct [OF pks lines]
  then show "distinct (items_taken infos d)" by (simp add: distinct_map)
  fix it it' assume its: "it \<in> set (items_taken infos d)" "it' \<in> set (items_taken infos d)"
    and same: "dit_stock it = dit_stock it'"
  let ?own = "filter (\<lambda>a. a_order_line a \<in> set (lines_of infos)) (allocations d)"
  from items_taken_in [OF its(1)] items_taken_in [OF its(2)] obtain a b where
    "a \<in> set ?own" "dit_key it = a_pk a" "dit_stock it = a_stock a"
    "b \<in> set ?own" "dit_key it' = a_pk b" "dit_stock it' = a_stock b" by auto
  with same stocks have "dit_key it = dit_key it'" by (metis distinct_map inj_onD)
  with dist its show "it = it'" by (metis distinct_map inj_onD)
qed

text \<open>
  C9: \<open>deallocate_stock\<close> keeps the counters when no two allocations of the given lines are on one
  stock: \<open>quantity_allocated\<close> goes down with the allocations, and no stock's quantity changes.
\<close>

lemma deallocate_stock_counters:
  assumes pks: "distinct (map a_pk (allocations d))" and lines: "distinct (lines_of infos)"
    and stocks: "distinct (map a_stock (filter (\<lambda>a. a_order_line a \<in> set (lines_of infos)) (allocations d)))"
    and ok: "counters_ok d" and run: "deallocate_stock e infos d = (d', failed)"
  shows "counters_ok d' \<and> map s_quantity (stocks d') = map s_quantity (stocks d)"
proof -
  let ?items = "items_taken infos d"
  have d': "d' = fst (deallocate_stock e infos d)" using run by simp
  have rows: "stocks d' = bulk_update s_pk
      (map (\<lambda>it. (dit_stock it, add_allocated (- dit_quantity it))) ?items) (stocks d)"
    by (simp add: d' deallocate_stock_eq(2) [OF pks lines]
        stock_deltas_distinct [OF items_taken_distinct [OF pks lines]])
  have sums: "allocated_sum d' x = allocated_sum d x - group_sum dit_stock dit_quantity ?items x" for x
    unfolding allocated_sum_def d' deallocate_stock_eq(1) [OF pks lines]
    by (rule less_taken_sums [OF pks]) (use items_taken_in in force)+
  have "counters_ok d'"
    by (rule counters_after [OF ok items_taken_stocks [OF pks lines stocks] rows])
       (simp add: sums group_sum_uminus)
  moreover have "map s_quantity (stocks d') = map s_quantity (stocks d)"
    unfolding rows by (rule bulk.upd_map) (auto simp: add_allocated_def)
  ultimately show ?thesis ..
qed

section \<open>Cancelling orders\<close>

definition released :: "(allocation \<Rightarrow> bool) \<Rightarrow> db \<Rightarrow> allocation list" where
  "released sel d = filter (\<lambda>a. sel a \<and> 0 < a_quantity_allocated a) (allocations d)"

lemma release_allocations_eq:
  shows "allocations (release_allocations e sel d) = map (\<lambda>a. if sel a \<and> 0 < a_quantity_allocated a
      then a\<lparr>a_quantity_allocated := 0\<rparr> else a) (allocations d)"
    and "stocks (release_allocations e sel d) = bulk_update s_pk
      (map (\<lambda>a. (a_stock a, add_allocated (- a_quantity_allocated a))) (released sel d)) (stocks d)"
  by (simp_all add: release_allocations_def released_def Let_def)

lemma release_sums:
  assumes "\<forall>a \<in> set as. 0 \<le> a_quantity_allocated a" and "\<And>a q. key (a\<lparr>a_quantity_allocated := q\<rparr>) = key a"
  shows "group_sum key a_quantity_allocated (map (\<lambda>a. if sel a \<and> 0 < a_quantity_allocated a
      then a\<lparr>a_quantity_allocated := 0\<rparr> else a) as) x =
    group_sum key a_quantity_allocated as x
    - group_sum key a_quantity_allocated (filter (\<lambda>a. sel a \<and> 0 < a_quantity_allocated a) as) x"
    "group_sum key a_quantity_allocated (filter (\<lambda>a. sel a \<and> 0 < a_quantity_allocated a) as) x
    = group_sum key a_quantity_allocated (filter sel as) x"
  using assms(1) by (induction as) (auto simp: assms(2) order_antisym)

definition of_orders :: "db \<Rightarrow> pk list \<Rightarrow> allocation \<Rightarrow> bool" where
  "of_orders d orders_id a = (a_order_line a \<in> set (lines_of_orders d orders_id))"

lemma deallocate_stock_for_orders_alt:
  "deallocate_stock_for_orders e orders_id d = release_allocations e (of_orders d orders_id) d"
  by (simp add: deallocate_stock_for_orders_def of_orders_def [abs_def])

text \<open>
  C7: \<open>deallocate_stock_for_orders\<close> releases all that is allocated to the lines of the given
  orders and leaves the other lines' allocations and every stock's quantity alone; when no two of
  the released allocations share a stock, the counters stay right.
\<close>

lemma deallocate_stock_for_orders_releases:
  assumes nn: "\<forall>a \<in> set (allocations d). 0 \<le> a_quantity_allocated a"
  shows "(\<forall>line. line_sum (deallocate_stock_for_orders e orders_id d) line =
           (if line \<in> set (lines_of_orders d orders_id) then 0 else line_sum d line))
    \<and> map s_quantity (stocks (deallocate_stock_for_orders e orders_id d)) = map s_quantity (stocks d)
    \<and> (counters_ok d \<and> distinct (map a_stock (released (of_orders d orders_id) d))
        \<longrightarrow> counters_ok (deallocate_stock_for_orders e orders_id d))"
proof (intro conjI allI impI)
  let ?d' = "deallocate_stock_for_orders e orders_id d" and ?own = "of_orders d orders_id"
  have eq: "allocations ?d' = map (\<lambda>a. if ?own a \<and> 0 < a_quantity_allocated a
      then a\<lparr>a_quantity_allocated := 0\<rparr> else a) (allocations d)"
    "stocks ?d' = bulk_update s_pk
      (map (\<lambda>a. (a_stock a, add_allocated (- a_quantity_allocated a))) (released ?own d)) (stocks d)"
    unfolding deallocate_stock_for_orders_alt by (rule release_allocations_eq)+
  fix line
  have "group_sum a_order_line a_quantity_allocated (filter ?own (allocations d)) line =
      (if line \<in> set (lines_of_orders d orders_id) then line_sum d line else 0)"
    unfolding line_sum_def by (rule group_sum_filter_key) (simp add: of_orders_def)
  then show "line_sum ?d' line = (if line \<in> set (lines_of_orders d orders_id) then 0 else line_sum d line)"
    using release_sums [OF nn, of a_order_line ?own line] by (simp add: line_sum_def eq)
next
  let ?d' = "deallocate_stock_for_orders e orders_id d"
  show "map s_quantity (stocks ?d') = map s_quantity (stocks d)"
    unfolding deallocate_stock_for_orders_alt release_allocations_eq
    by (rule bulk.upd_map) (auto simp: add_allocated_def)
next
  let ?d' = "deallocate_stock_for_orders e orders_id d" and ?own = "of_orders d orders_id"
  assume ok: "counters_ok d \<and> distinct (map a_stock (released ?own d))"
  have eq: "allocations ?d' = map (\<lambda>a. if ?own a \<and> 0 < a_quantity_allocated a
      then a\<lparr>a_quantity_allocated := 0\<rparr> else a) (allocations d)"
    "stocks ?d' = bulk_update s_pk
      (map (\<lambda>a. (a_stock a, add_allocated (- a_quantity_allocated a))) (released ?own d)) (stocks d)"
    unfolding deallocate_stock_for_orders_alt by (rule release_allocations_eq)+
  show "counters_ok ?d'"
    by (rule counters_after [OF _ _ eq(2)])
       (use ok release_sums(1) [OF nn, of a_stock ?own] in
         \<open>auto simp: allocated_sum_def eq released_def group_sum_uminus\<close>)
qed

section \<open>Decreasing stock\<close>

definition wants :: "order_line_info \<Rightarrow> stock \<Rightarrow> bool" where
  "wants li s \<longleftrightarrow> li_warehouse_pk li = Some (s_warehouse s)
     \<and> map_option v_id (li_variant li) = Some (s_variant s)"

definition demand :: "order_line_info list \<Rightarrow> stock \<Rightarrow> int" where
  "demand infos s = sum_of li_quantity (filter (\<lambda>li. wants li s) infos)"

definition less_demand :: "order_line_info list \<Rightarrow> stock list \<Rightarrow> stock list" where
  "less_demand infos ss = map (\<lambda>s. s\<lparr>s_quantity := s_quantity s - demand infos s\<rparr>) ss"

lemma wants_update [simp]: "wants li (s\<lparr>s_quantity := q\<rparr>) = wants li s"
  "demand infos (s\<lparr>s_quantity := q\<rparr>) = demand infos s"
  by (simp_all add: wants_def demand_def)

lemma less_demand_Cons: "less_demand (li # lis) ss = less_demand lis (less_demand [li] ss)"
  by (simp add: less_demand_def demand_def)

definition place :: "stock \<Rightarrow> pk \<times> pk" where
  "place s = (s_warehouse s, s_variant s)"

lemma less_demand_simps:
  "map s_pk (less_demand lis ss) = map s_pk ss" "map place (less_demand lis ss) = map place ss"
  by (simp_all add: less_demand_def place_def)

lemma find_wants:
  "(if li_warehouse_pk li = None then None
    else find (\<lambda>s. Some (s_variant s) = map_option v_id (li_variant li)
               \<and> Some (s_warehouse s) = li_warehouse_pk li) mem) = find (wants li) mem"
proof (cases "li_warehouse_pk li = None")
  case True
  then have "find (wants li) mem = None" unfolding find_None_iff by (simp add: wants_def)
  with True show ?thesis by simp
next
  case False
  have "(\<lambda>s. Some (s_variant s) = map_option v_id (li_variant li)
      \<and> Some (s_warehouse s) = li_warehouse_pk li) = wants li"
    by (cases "li_variant li") (auto simp: fun_eq_iff wants_def)
  with False show ?thesis by auto
qed

lemma decrease_lines_Cons:
  assumes "decrease_lines (li # lis) alloc allow mem touched ins = Inr r"
  obtains x where "(case find (wants li) mem of
      None \<Rightarrow> decrease_lines lis alloc allow mem touched (if allow then ins else ins @ [x])
    | Some s \<Rightarrow>
        if s_quantity s - alloc (s_pk s) < li_quantity li \<and> \<not> allow
        then decrease_lines lis alloc allow mem touched (ins @ [x])
        else decrease_lines lis alloc allow
               (map (\<lambda>s'. if s_pk s' = s_pk s then s'\<lparr>s_quantity := s_quantity s' - li_quantity li\<rparr> else s') mem)
               (touched @ [s_pk s]) ins) = Inr r"
proof -
  have "\<not> (li_warehouse_pk li \<noteq> None \<and> map_option v_id (li_variant li) = None)"
  proof
    assume "li_warehouse_pk li \<noteq> None \<and> map_option v_id (li_variant li) = None"
    then have "decrease_lines (li # lis) alloc allow mem touched ins = Inl Attribute_Error"
      by (auto simp: Let_def)
    with assms show False by simp
  qed
  with assms that show thesis
    unfolding decrease_lines.simps(2) Let_def
    by (cases "li_warehouse_pk li"; cases "map_option v_id (li_variant li)")
       (simp_all only: prod.case option.case find_wants [symmetric] if_True if_False simp_thms option.distinct)
qed

text \<open>One line: it finds the one stock it wants and takes from it, or the line is reported.\<close>

lemma decrease_lines_step:
  assumes run: "decrease_lines (li # lis) alloc allow mem touched ins = Inr r"
    and dist: "distinct (map s_pk mem)" "distinct (map place mem)"
  obtains (report) x where "decrease_lines lis alloc allow mem touched (ins @ [x]) = Inr r"
  | (absent) "decrease_lines lis alloc allow mem touched ins = Inr r" "\<forall>s \<in> set mem. \<not> wants li s" "allow"
  | (take) s where "s \<in> set mem" "wants li s" "allow \<or> li_quantity li \<le> s_quantity s - alloc (s_pk s)"
      "decrease_lines lis alloc allow (less_demand [li] mem) (touched @ [s_pk s]) ins = Inr r"
proof (rule decrease_lines_Cons [OF run])
  fix x
  assume step: "(case find (wants li) mem of
      None \<Rightarrow> decrease_lines lis alloc allow mem touched (if allow then ins else ins @ [x])
    | Some s \<Rightarrow>
        if s_quantity s - alloc (s_pk s) < li_quantity li \<and> \<not> allow
        then decrease_lines lis alloc allow mem touched (ins @ [x])
        else decrease_lines lis alloc allow
               (map (\<lambda>s'. if s_pk s' = s_pk s then s'\<lparr>s_quantity := s_quantity s' - li_quantity li\<rparr> else s') mem)
               (touched @ [s_pk s]) ins) = Inr r"
  show thesis
  proof (cases "find (wants li) mem")
    case None
    then have "\<forall>s \<in> set mem. \<not> wants li s" by (simp add: find_None_iff)
    with step None report absent show thesis by (cases allow) auto
  next
    case (Some s)
    then have s: "s \<in> set mem" "wants li s" by (auto simp: find_Some_iff)
    have "wants li s' \<longleftrightarrow> s_pk s' = s_pk s" if "s' \<in> set mem" for s'
    proof
      assume "wants li s'"
      then have "place s' = place s" using s(2) by (auto simp: wants_def place_def)
      with that s(1) dist(2) show "s_pk s' = s_pk s" by (metis distinct_map inj_onD)
    next
      assume "s_pk s' = s_pk s"
      with that s dist(1) show "wants li s'" by (metis distinct_map inj_onD)
    qed
    then have "map (\<lambda>s'. if s_pk s' = s_pk s then s'\<lparr>s_quantity := s_quantity s' - li_quantity li\<rparr> else s') mem
        = less_demand [li] mem"
      by (auto simp: less_demand_def demand_def)
    with step Some report take [OF s] show thesis by (auto split: if_splits)
  qed
qed

lemma decrease_lines_grows:
  assumes "decrease_lines lis alloc allow mem touched ins = Inr (mem', touched', ins')"
    and "distinct (map s_pk mem)" "distinct (map place mem)"
  shows "\<exists>xs. ins' = ins @ xs"
  using assms
proof (induction lis arbitrary: mem touched ins)
  case (Cons li lis)
  from Cons.prems show ?case
    by (cases rule: decrease_lines_step)
      (use Cons.IH Cons.prems(2,3) in \<open>fastforce simp: less_demand_simps\<close>)+
qed simp

lemma pks_map:
  assumes "\<And>s. s_pk (f s) = s_pk s" and "\<And>s. P (f s) = P s"
  shows "{s_pk s | s. s \<in> f ` S \<and> P s} = {s_pk s | s. s \<in> S \<and> P s}"
proof (intro set_eqI iffI)
  fix k assume "k \<in> {s_pk s | s. s \<in> S \<and> P s}"
  then obtain s where "s \<in> S" "P s" "k = s_pk s" by blast
  then have "f s \<in> f ` S \<and> P (f s) \<and> k = s_pk (f s)" using assms by simp
  then show "k \<in> {s_pk s | s. s \<in> f ` S \<and> P s}" by blast
qed (use assms in auto)

text \<open>When no line is reported, each stock has lost what the lines want of it.\<close>

lemma decrease_lines_eq:
  assumes "decrease_lines lis alloc allow mem touched [] = Inr (mem', touched', [])"
    and "distinct (map s_pk mem)" "distinct (map place mem)"
  shows "mem' = less_demand lis mem
    \<and> set touched' = set touched \<union> {s_pk s | s. s \<in> set mem \<and> (\<exists>li \<in> set lis. wants li s)}
    \<and> (allow \<or> (\<forall>s \<in> set mem'. s_pk s \<in> set touched' \<longrightarrow> alloc (s_pk s) \<le> s_quantity s)
        \<or> (\<exists>s \<in> set mem. s_pk s \<in> set touched \<and> s_quantity s < alloc (s_pk s)))
    \<and> (allow \<or> (\<forall>li \<in> set lis. \<exists>s \<in> set mem. wants li s))"
  using assms
proof (induction lis arbitrary: mem touched)
  case Nil
  then show ?case by (auto simp: less_demand_def demand_def not_le)
next
  case (Cons li lis)
  from Cons.prems show ?case
  proof (cases rule: decrease_lines_step)
    case (report x)
    from decrease_lines_grows [OF report Cons.prems(2,3)] show ?thesis by simp
  next
    case absent
    then have "less_demand [li] mem = mem" by (auto simp: less_demand_def demand_def intro: map_idI)
    with Cons.IH [OF absent(1) Cons.prems(2,3)] absent show ?thesis
      unfolding less_demand_Cons [of li lis] by auto
  next
    case (take s)
    let ?mem = "less_demand [li] mem"
    have dist: "distinct (map s_pk ?mem)" "distinct (map place ?mem)"
      using Cons.prems(2,3) by (simp_all add: less_demand_simps)
    have only: "s' = s" if "s' \<in> set mem" "wants li s'" for s'
    proof -
      have "place s' = place s" using that take by (auto simp: wants_def place_def)
      with that take(1) Cons.prems(3) show ?thesis by (metis distinct_map inj_onD)
    qed
    have own: "demand [li] s' = (if s' = s then li_quantity li else 0)" if "s' \<in> set mem" for s'
    proof (cases "wants li s'")
      case True
      from only [OF that True] True show ?thesis by (simp add: demand_def)
    next
      case False
      with take(2) have "s' \<noteq> s" by auto
      with False show ?thesis by (simp add: demand_def)
    qed
    note IH = Cons.IH [OF take(4) dist]
    have pks: "{s_pk s' | s'. s' \<in> set ?mem \<and> (\<exists>li \<in> set lis. wants li s')}
        = {s_pk s' | s'. s' \<in> set mem \<and> (\<exists>li \<in> set lis. wants li s')}"
      unfolding less_demand_def set_map by (rule pks_map) simp_all
    have touched: "set touched' = set touched
        \<union> {s_pk s | s. s \<in> set mem \<and> (\<exists>li \<in> set (li # lis). wants li s)}"
    proof -
      have "{s_pk s | s. s \<in> set mem \<and> (\<exists>li \<in> set (li # lis). wants li s)}
          = insert (s_pk s) {s_pk s | s. s \<in> set mem \<and> (\<exists>li \<in> set lis. wants li s)}"
        using take(1,2) by (fastforce dest: only)
      then show ?thesis using IH pks by simp
    qed
    have bad: "\<exists>s \<in> set mem. s_pk s \<in> set touched \<and> s_quantity s < alloc (s_pk s)"
      if "\<exists>s' \<in> set ?mem. s_pk s' \<in> set (touched @ [s_pk s]) \<and> s_quantity s' < alloc (s_pk s')" and "\<not> allow"
    proof -
      from that(1) obtain s0 where s0: "s0 \<in> set mem" "s_pk s0 \<in> set touched \<or> s_pk s0 = s_pk s"
        "s_quantity s0 - demand [li] s0 < alloc (s_pk s0)" by (auto simp: less_demand_def)
      with take(3) own that(2) have "s0 \<noteq> s" by auto
      with s0 take(1) Cons.prems(2) have "s_pk s0 \<noteq> s_pk s" by (metis distinct_map inj_onD)
      with s0 own \<open>s0 \<noteq> s\<close> show ?thesis by auto
    qed
    have all: "\<exists>s \<in> set mem. wants li' s" if "\<exists>s' \<in> set ?mem. wants li' s'" for li'
      using that by (auto simp: less_demand_def)
    show ?thesis
      unfolding touched [symmetric] less_demand_Cons [of li lis]
      using IH bad all take(1,2) by auto
  qed
qed

lemma demand_none: "\<forall>li \<in> set infos. \<not> wants li s \<Longrightarrow> demand infos s = 0"
  by (simp add: demand_def)

lemma wanted_lists:
  "li \<in> set infos \<Longrightarrow> wants li s \<Longrightarrow> s_variant s \<in> set (List.map_filter (\<lambda>li. map_option v_id (li_variant li)) infos)
     \<and> s_warehouse s \<in> set (List.map_filter li_warehouse_pk infos)"
  by (force simp: wants_def List.map_filter_def)

lemma decrease_stocks_quantity_Inr:
  assumes run: "decrease_stocks_quantity infos ss alloc allow d = Inr d'"
    and dist: "distinct (map s_pk (stocks d))" "distinct (map place (stocks d))"
    and ss: "ss = sort_key s_pk (filter (\<lambda>s. s_variant s \<in> set (List.map_filter (\<lambda>li. map_option v_id (li_variant li)) infos)
                 \<and> s_warehouse s \<in> set (List.map_filter li_warehouse_pk infos)) (stocks d))"
  shows "stocks d' = less_demand infos (stocks d) \<and> allocations d' = allocations d
    \<and> (allow \<or> (\<forall>li \<in> set infos. \<exists>s \<in> set (stocks d). wants li s))
    \<and> (allow \<or> (\<forall>s \<in> set (stocks d'). (\<exists>li \<in> set infos. wants li s) \<longrightarrow> alloc (s_pk s) \<le> s_quantity s))"
proof -
  have in_ss: "set ss \<subseteq> set (stocks d)" by (auto simp: ss)
  have dist_ss: "distinct (map s_pk ss)" "distinct (map place ss)"
    using dist by (simp_all add: ss distinct_map_mset [OF mset_sort] distinct_map_filter)
  have all_ss: "s \<in> set ss" if "s \<in> set (stocks d)" "li \<in> set infos" "wants li s" for s li
    using that wanted_lists [OF that(2,3)] by (simp add: ss)
  from run obtain mem touched where lines: "decrease_lines infos alloc allow ss [] [] = Inr (mem, touched, [])"
    and d': "d' = d\<lparr>stocks := bulk_update s_pk
             (List.map_filter (\<lambda>k. map_option (\<lambda>m. (k, \<lambda>s. s\<lparr>s_quantity := s_quantity m\<rparr>))
                (find_row s_pk k mem)) touched) (stocks d)\<rparr>"
    by (auto simp: decrease_stocks_quantity_def split: sum.splits if_splits)
  note eq = decrease_lines_eq [OF lines dist_ss]
  have row: "(case map_of (List.map_filter (\<lambda>k. map_option (\<lambda>m. (k, \<lambda>s. s\<lparr>s_quantity := s_quantity m\<rparr>))
                (find_row s_pk k mem)) touched) (s_pk r) of None \<Rightarrow> r | Some f \<Rightarrow> f r)
      = r\<lparr>s_quantity := s_quantity r - demand infos r\<rparr>" if r: "r \<in> set (stocks d)" for r
  proof (cases "\<exists>li \<in> set infos. wants li r")
    case True
    then have "r \<in> set ss" using all_ss r by blast
    then have "r\<lparr>s_quantity := s_quantity r - demand infos r\<rparr> \<in> set mem"
      using eq by (auto simp: less_demand_def)
    moreover have "distinct (map s_pk mem)" using eq dist_ss(1) by (simp add: less_demand_simps)
    ultimately have "find_row s_pk (s_pk r) mem = Some (r\<lparr>s_quantity := s_quantity r - demand infos r\<rparr>)"
      using find_row_distinct [of s_pk mem "r\<lparr>s_quantity := s_quantity r - demand infos r\<rparr>"] by simp
    moreover have "s_pk r \<in> set touched" using eq True \<open>r \<in> set ss\<close> by auto
    ultimately show ?thesis by (simp add: map_of_map_filter)
  next
    case False
    have "s_pk r \<notin> set touched"
    proof
      assume "s_pk r \<in> set touched"
      with eq obtain s li where "s \<in> set ss" "li \<in> set infos" "wants li s" "s_pk s = s_pk r" by auto
      with r in_ss dist(1) False show False by (metis distinct_map inj_onD subsetD)
    qed
    with False show ?thesis by (simp add: map_of_map_filter demand_none)
  qed
  then have stocks: "stocks d' = less_demand infos (stocks d)"
    by (simp add: d' bulk_update_def less_demand_def)
  have kept: "alloc (s_pk s) \<le> s_quantity s"
    if "\<not> allow" "s \<in> set (stocks d')" "\<exists>li \<in> set infos. wants li s" for s
  proof -
    from that(2) stocks obtain s0 where s0: "s0 \<in> set (stocks d)"
      "s = s0\<lparr>s_quantity := s_quantity s0 - demand infos s0\<rparr>" by (auto simp: less_demand_def)
    with that(3) all_ss have "s0 \<in> set ss" by auto
    with s0 that(3) eq have "s \<in> set mem" "s_pk s \<in> set touched" by (auto simp: less_demand_def)
    with eq that(1) show ?thesis by auto
  qed
  have "allow \<or> (\<forall>li \<in> set infos. \<exists>s \<in> set (stocks d). wants li s)" using eq in_ss by blast
  with stocks kept show ?thesis by (auto simp: d')
qed

definition stock_table :: "db \<Rightarrow> (pk \<times> (pk \<times> pk) \<times> int) list" where
  "stock_table d = map (\<lambda>s. (s_pk s, place s, s_quantity s)) (stocks d)"

lemma deallocate_stock_table: "stock_table (fst (deallocate_stock e infos d)) = stock_table d"
  unfolding stock_table_def deallocate_stock_def
  by (simp add: Let_def split: prod.splits)
     (intro allI impI bulk.upd_map, auto simp: stock_deltas_def add_allocated_def place_def)

lemma stock_table_keys:
  "stock_table d = stock_table d' \<Longrightarrow> map s_pk (stocks d) = map s_pk (stocks d') \<and> map place (stocks d) = map place (stocks d')"
proof -
  have "map s_pk (stocks d) = map fst (stock_table d)" "map place (stocks d) = map (fst \<circ> snd) (stock_table d)" for d
    by (simp_all add: stock_table_def)
  then show "stock_table d = stock_table d' \<Longrightarrow> ?thesis" by simp
qed

lemma group_sum_pos_ge:
  "group_sum key f rs x \<le> group_sum key f (filter (\<lambda>r. P r \<and> 0 < f r) rs) x" if "\<And>r. r \<in> set rs \<Longrightarrow> key r = x \<Longrightarrow> P r"
  using that by (induction rs) auto

text \<open>
  C6: a successful \<open>decrease_stock\<close> (with \<open>update_stocks\<close>) takes from every stock exactly what the
  lines want from that warehouse and variant, and from the other stocks nothing.  Without
  \<open>allow_stock_to_be_exceeded\<close> every line found its stock, and each stock that was used still
  covers all that is allocated in it.
\<close>

theorem decrease_stock_quantities:
  assumes run: "decrease_stock e infos True allow d = Inr d'"
    and dist: "distinct (map s_pk (stocks d))" "distinct (map place (stocks d))"
  shows "map (\<lambda>s. (s_pk s, s_quantity s)) (stocks d')
      = map (\<lambda>s. (s_pk s, s_quantity s - demand infos s)) (stocks d)
    \<and> (allow \<or> (\<forall>li \<in> set infos. \<exists>s \<in> set (stocks d). wants li s))
    \<and> (allow \<or> (\<forall>s \<in> set (stocks d'). (\<exists>li \<in> set infos. wants li s)
          \<longrightarrow> allocated_sum d' (s_pk s) \<le> s_quantity s))"
proof -
  define d1 where "d1 = (case deallocate_stock e infos d of (d', None) \<Rightarrow> d' | (d', Some ls) \<Rightarrow> zero_lines ls d')"
  have q1: "stock_table d1 = stock_table d"
    using deallocate_stock_table [of e infos d]
    by (auto simp: d1_def stock_table_def zero_lines_def split: prod.splits option.splits)
  note keys = stock_table_keys [OF q1]
  define ss where "ss = sort_key s_pk (filter (\<lambda>s. s_variant s \<in> set (List.map_filter (\<lambda>li. map_option v_id (li_variant li)) infos)
                 \<and> s_warehouse s \<in> set (List.map_filter li_warehouse_pk infos)) (stocks d1))"
  define alloc where "alloc = group_sum a_stock a_quantity_allocated
       (filter (\<lambda>a. a_stock a \<in> s_pk ` set ss \<and> 0 < a_quantity_allocated a) (allocations d1))"
  from run obtain d2 where d2: "decrease_stocks_quantity infos ss alloc allow d1 = Inr d2"
    and d': "\<exists>hs. d' = add_hooks hs d2"
    unfolding decrease_stock_def Let_def d1_def [symmetric] ss_def [symmetric] alloc_def [symmetric]
    by (cases "decrease_stocks_quantity infos ss alloc allow d1") auto
  have same: "stocks d' = stocks d2" "allocations d' = allocations d2" using d' by auto
  have dist1: "distinct (map s_pk (stocks d1))" "distinct (map place (stocks d1))"
    using dist by (simp_all only: keys)
  note eq = decrease_stocks_quantity_Inr [OF d2 dist1 ss_def]
  have "map (\<lambda>s. (s_pk s, s_quantity s)) (stocks d')
      = map (\<lambda>(k, (w, v), q). (k, q - sum_of li_quantity (filter (\<lambda>li. li_warehouse_pk li = Some w
          \<and> map_option v_id (li_variant li) = Some v) infos))) (stock_table d1)"
    using eq by (simp add: same less_demand_def stock_table_def demand_def wants_def place_def)
  also have "\<dots> = map (\<lambda>s. (s_pk s, s_quantity s - demand infos s)) (stocks d)"
    unfolding q1 by (simp add: stock_table_def demand_def wants_def place_def)
  finally have first: "map (\<lambda>s. (s_pk s, s_quantity s)) (stocks d')
      = map (\<lambda>s. (s_pk s, s_quantity s - demand infos s)) (stocks d)" .
  have wanted: "(\<exists>s \<in> set (stocks d1). wants li s) = (\<exists>s \<in> set (stocks d). wants li s)" for li
  proof -
    have *: "(\<exists>s \<in> set ss. wants li s) = (\<exists>p \<in> set (map place ss). li_warehouse_pk li = Some (fst p)
          \<and> map_option v_id (li_variant li) = Some (snd p))" for ss
      by (auto simp: wants_def place_def)
    show ?thesis unfolding * conjunct2 [OF keys] ..
  qed
  have ge: "allocated_sum d' (s_pk s) \<le> alloc (s_pk s)"
    if "s \<in> set (stocks d')" "\<exists>li \<in> set infos. wants li s" for s
  proof -
    from that(1) same(1) eq obtain s0 where "s0 \<in> set (stocks d1)"
      "s = s0\<lparr>s_quantity := s_quantity s0 - demand infos s0\<rparr>" by (auto simp: less_demand_def)
    with that(2) wanted_lists have "s0 \<in> set ss" "s_pk s = s_pk s0" by (fastforce simp: ss_def)+
    then have "s_pk s \<in> s_pk ` set ss" by auto
    then show ?thesis
      using eq same(2) unfolding allocated_sum_def alloc_def by (simp add: group_sum_pos_ge)
  qed
  have "allocated_sum d' (s_pk s) \<le> s_quantity s"
    if "\<not> allow" "s \<in> set (stocks d')" "\<exists>li \<in> set infos. wants li s" for s
    using ge [OF that(2,3)] that eq same(1) by fastforce
  then show ?thesis using first eq wanted by blast
qed

section \<open>Increasing stock\<close>

definition stocked :: "db \<Rightarrow> pk \<times> pk \<Rightarrow> int" where
  "stocked d p = sum_of s_quantity (filter (\<lambda>s. place s = p) (stocks d))"

lemma bulk_update_one: "bulk_update key [(k, f)] rows = map (\<lambda>r. if key r = k then f r else r) rows"
  by (auto simp: bulk_update_def)

text \<open>The first half of \<open>increase_stock\<close>: the stock in the warehouse, found or created.\<close>

definition stock_for :: "pk \<Rightarrow> pk \<Rightarrow> int \<Rightarrow> db \<Rightarrow> pk \<Rightarrow> db \<Rightarrow> bool" where
  "stock_for wh v quantity d sk d1 \<longleftrightarrow> allocations d1 = allocations d \<and>
     ((\<exists>s \<in> set (stocks d). place s = (wh, v) \<and> sk = s_pk s
         \<and> stocks d1 = map (\<lambda>s'. if s_pk s' = sk then s'\<lparr>s_quantity := s_quantity s' + quantity\<rparr> else s') (stocks d))
      \<or> (sk = stock_seq d \<and> (\<forall>s \<in> set (stocks d). place s \<noteq> (wh, v))
         \<and> stocks d1 = stocks d @ [\<lparr>s_pk = sk, s_warehouse = wh, s_variant = v,
                                s_quantity = quantity, s_quantity_allocated = 0\<rparr>]))"

lemma increase_stock_Inr:
  assumes run: "increase_stock line wh quantity allocate d = Inr d'"
    and pks: "distinct (map a_pk (allocations d))"
  obtains v sk d1 where "ol_variant line = Some v" "stock_for wh v quantity d sk d1"
    "if \<not> allocate then d' = d1 else stocks d' = bulk_update s_pk [(sk, add_allocated quantity)] (stocks d1)"
    "\<And>x. allocated_sum d' x = allocated_sum d x + (if allocate \<and> x = sk then quantity else 0)"
    "\<And>x. line_sum d' x = line_sum d x + (if allocate \<and> x = ol_pk line then quantity else 0)"
proof -
  from run obtain v where v: "ol_variant line = Some v" by (auto simp: increase_stock_def split: option.splits)
  define start where "start = (case find (\<lambda>s. s_warehouse s = wh \<and> s_variant s = v) (stocks d) of
      Some s \<Rightarrow> Inr (s_pk s, stock_increase_stock (s_pk s) quantity d)
    | None \<Rightarrow> (case insert_stocks [\<lambda>k. \<lparr>s_pk = k, s_warehouse = wh, s_variant = v,
                                 s_quantity = quantity, s_quantity_allocated = 0\<rparr>] d of
          Inl err \<Rightarrow> Inl err | Inr (new, d') \<Rightarrow> Inr (s_pk (hd new), d')))"
  define second where "second sk d1 = (case find (\<lambda>a. a_order_line a = ol_pk line \<and> a_stock a = sk) (allocations d1) of
      Some a \<Rightarrow> (if a_quantity_allocated a + quantity < 0 then Inl Integrity_Error
         else Inr (d1\<lparr>allocations := bulk_update a_pk [(a_pk a, \<lambda>a'.
                a'\<lparr>a_quantity_allocated := a_quantity_allocated a' + quantity\<rparr>)] (allocations d1)\<rparr>))
    | None \<Rightarrow> (case insert_allocations [new_allocation (ol_pk line, sk, quantity)] d1 of
          Inl err \<Rightarrow> Inl err | Inr (_, d') \<Rightarrow> Inr d'))" for sk d1
  obtain sk d1 where start: "start = Inr (sk, d1)" and rest: "if \<not> allocate then d' = d1
      else \<exists>d2. second sk d1 = Inr d2 \<and> d' = d2\<lparr>stocks := bulk_update s_pk [(sk, add_allocated quantity)] (stocks d2)\<rparr>"
    using run unfolding increase_stock_def v option.case Let_def start_def [symmetric] second_def [symmetric]
    by (auto split: sum.splits if_splits)
  have sf: "stock_for wh v quantity d sk d1"
    using start unfolding start_def
    by (auto simp: stock_for_def place_def stock_increase_stock_def bulk_update_one insert_stocks_def Let_def
        find_Some_iff find_None_iff split: option.splits sum.splits prod.splits if_splits)
  then have as: "allocations d1 = allocations d" by (simp add: stock_for_def)
  show thesis
  proof (cases allocate)
    case False
    with rest as sf v that show thesis by (auto simp: allocated_sum_def line_sum_def)
  next
    case True
    with rest obtain d2 where d2: "second sk d1 = Inr d2"
      and d': "d' = d2\<lparr>stocks := bulk_update s_pk [(sk, add_allocated quantity)] (stocks d2)\<rparr>" by auto
    have "stocks d2 = stocks d1 \<and> (\<forall>x. allocated_sum d2 x = allocated_sum d1 x + (if x = sk then quantity else 0))
      \<and> (\<forall>x. line_sum d2 x = line_sum d1 x + (if x = ol_pk line then quantity else 0))"
    proof (cases "find (\<lambda>a. a_order_line a = ol_pk line \<and> a_stock a = sk) (allocations d1)")
      case None
      with d2 show ?thesis
        by (auto simp: second_def insert_allocations_def new_allocation_def allocated_sum_def line_sum_def
            Let_def split: if_splits)
    next
      case (Some a)
      then have a: "a \<in> set (allocations d1)" "a_order_line a = ol_pk line" "a_stock a = sk"
        by (auto simp: find_Some_iff)
      from d2 Some have d2': "d2 = d1\<lparr>allocations := map (\<lambda>a'. if a_pk a' = a_pk a
          then a'\<lparr>a_quantity_allocated := a_quantity_allocated a' + quantity\<rparr> else a') (allocations d1)\<rparr>"
        by (auto simp: second_def bulk_update_one split: if_splits)
      have "group_sum key a_quantity_allocated (map (\<lambda>a'. if a_pk a' = a_pk a
          then a'\<lparr>a_quantity_allocated := a_quantity_allocated a' + quantity\<rparr> else a') (allocations d1)) x
        = group_sum key a_quantity_allocated (allocations d1) x + (if x = key a then quantity else 0)"
        if "\<And>a q. key (a\<lparr>a_quantity_allocated := q\<rparr>) = key a" for key :: "allocation \<Rightarrow> pk" and x
        by (rule group_sum_update_one) (use pks a as that in auto)
      then show ?thesis by (auto simp: d2' allocated_sum_def line_sum_def a)
    qed
    with that [OF v sf] True as d' show thesis
      by (simp add: allocated_sum_def line_sum_def)
  qed
qed

lemma stock_for_stocked:
  assumes sf: "stock_for wh v quantity d sk d1" and dist: "distinct (map s_pk (stocks d))"
  shows "stocked d1 p = stocked d p + (if p = (wh, v) then quantity else 0)"
proof -
  have map: "sum_of s_quantity (filter (\<lambda>s. place s = p) (map (\<lambda>s'. if s_pk s' = s_pk s
        then s'\<lparr>s_quantity := s_quantity s' + quantity\<rparr> else s') ss))
      = sum_of s_quantity (filter (\<lambda>s. place s = p) ss) + (if place s = p then quantity else 0)"
    if "distinct (map s_pk ss)" "s \<in> set ss" for s ss
    using that
  proof (induction ss)
    case (Cons a ss)
    have same: "map (\<lambda>s'. if s_pk s' = s_pk s then s'\<lparr>s_quantity := s_quantity s' + quantity\<rparr> else s') ss = ss"
      if "s_pk s \<notin> s_pk ` set ss"
      using that by (intro map_idI) (auto simp: image_iff)
    have upd: "place (s\<lparr>s_quantity := q\<rparr>) = place s" for q by (simp add: place_def)
    have "s_pk s \<notin> s_pk ` set ss \<and> a = s \<or> s_pk a \<noteq> s_pk s \<and> s \<in> set ss"
      using Cons.prems by (auto simp: image_iff)
    then show ?case using Cons.IH Cons.prems(1) same by (elim disjE) (simp_all add: upd)
  qed simp
  from sf show ?thesis
    unfolding stock_for_def
  proof (elim conjE disjE bexE)
    fix s assume "s \<in> set (stocks d)" "place s = (wh, v)" "sk = s_pk s"
      "stocks d1 = map (\<lambda>s'. if s_pk s' = sk then s'\<lparr>s_quantity := s_quantity s' + quantity\<rparr> else s') (stocks d)"
    with map [OF dist, of s] show ?thesis by (auto simp: stocked_def)
  next
    assume "stocks d1 = stocks d @ [\<lparr>s_pk = sk, s_warehouse = wh, s_variant = v,
                                s_quantity = quantity, s_quantity_allocated = 0\<rparr>]"
    then show ?thesis by (auto simp: stocked_def place_def)
  qed
qed

lemma stocked_add_allocated:
  "sum_of s_quantity (filter (\<lambda>s. place s = p) (bulk_update s_pk [(sk, add_allocated q)] ss))
    = sum_of s_quantity (filter (\<lambda>s. place s = p) ss)"
  by (induction ss) (auto simp: bulk_update_def add_allocated_def place_def)

text \<open>
  \<open>increase_stock\<close> puts the quantity into the one warehouse for the line's variant, creating the
  stock when there is none; with \<open>allocate\<close> the line's allocations grow by the same quantity,
  without it no allocation changes; and the counters stay right.
\<close>

lemma increase_stock_effect:
  assumes run: "increase_stock line wh quantity allocate d = Inr d'"
    and pks: "distinct (map a_pk (allocations d))" "distinct (map s_pk (stocks d))"
    and fresh: "\<forall>a \<in> set (allocations d). a_stock a < stock_seq d"
  shows "(\<exists>v. ol_variant line = Some v \<and>
      (\<forall>p. stocked d' p = stocked d p + (if p = (wh, v) then quantity else 0)))
    \<and> (\<forall>x. line_sum d' x = line_sum d x + (if allocate \<and> x = ol_pk line then quantity else 0))
    \<and> (counters_ok d \<longrightarrow> counters_ok d')"
proof (rule increase_stock_Inr [OF run pks(1)])
  fix v sk d1
  assume v: "ol_variant line = Some v" and sf: "stock_for wh v quantity d sk d1"
    and d': "if \<not> allocate then d' = d1 else stocks d' = bulk_update s_pk [(sk, add_allocated quantity)] (stocks d1)"
    and alloc: "\<And>x. allocated_sum d' x = allocated_sum d x + (if allocate \<and> x = sk then quantity else 0)"
    and lines: "\<And>x. line_sum d' x = line_sum d x + (if allocate \<and> x = ol_pk line then quantity else 0)"
  have same: "allocated_sum d1 = allocated_sum d" using sf by (auto simp: stock_for_def allocated_sum_def)
  have "stocked d' p = stocked d1 p" for p
    using d' by (cases allocate) (simp_all add: stocked_def stocked_add_allocated)
  then have "\<forall>p. stocked d' p = stocked d p + (if p = (wh, v) then quantity else 0)"
    using stock_for_stocked [OF sf pks(2)] by simp
  moreover have "counters_ok d'" if ok: "counters_ok d"
  proof -
    have "stock_seq d \<notin> a_stock ` set (allocations d)" using fresh by auto
    then have zero: "allocated_sum d (stock_seq d) = 0" by (simp add: allocated_sum_def group_sum_absent)
    have ok1: "counters_ok d1"
      using sf ok zero by (auto simp: stock_for_def counters_ok_def same allocated_sum_def)
    show ?thesis
    proof (cases allocate)
      case True
      have dist: "distinct (map (\<lambda>_. sk) [()])" by simp
      show ?thesis
        by (rule counters_after [OF ok1 dist, where g = "\<lambda>_. quantity"])
           (use d' True in \<open>simp_all add: alloc same\<close>)
    qed (use d' ok1 in simp)
  qed
  ultimately show ?thesis using v lines by auto
qed


section \<open>Changing the quantity of allocated lines\<close>

text \<open>
  \<open>increase_allocations\<close> deletes the lines' allocations and allocates them anew together with
  the added quantity: when it succeeds, each of the given lines (tracked, not preordered, each given
  once) has exactly the added quantity more than before, and the other lines are as they were.
\<close>

lemma increase_allocations_effect:
  assumes run: "increase_allocations e infos ch d = Inr d'"
    and tracked: "get_order_lines_with_track_inventory e infos = infos" and lines: "distinct (lines_of infos)"
    and pks: "distinct (map a_pk (allocations d))"
  shows "line_sum d' x = line_sum d x + group_sum (\<lambda>li. ol_pk (li_line li)) li_quantity infos x"
proof -
  let ?own = "\<lambda>a. a_order_line a \<in> set (map (\<lambda>li. ol_pk (li_line li)) infos)"
  define as where "as = filter ?own (allocations d)"
  define infos' where "infos' = map (\<lambda>li. li\<lparr>li_quantity := li_quantity li +
                     group_sum a_order_line a_quantity_allocated as (ol_pk (li_line li))\<rparr>) infos"
  define d1 where "d1 = d\<lparr>allocations := filter (\<lambda>a. a_pk a \<notin> a_pk ` set as) (allocations d)\<rparr>"
  define d2 where "d2 = d1\<lparr>stocks := bulk_update s_pk
     (map (\<lambda>a. (a_stock a, add_allocated (- a_quantity_allocated a))) as) (stocks d1)\<rparr>"
  from run obtain country where al:
    "allocate_stocks e infos' country ch None (\<lambda>_. True) False [] d2 = Inr d'"
    unfolding increase_allocations_def Let_def as_def [symmetric] infos'_def [symmetric]
      d1_def [symmetric] d2_def [symmetric]
    by (auto split: list.splits option.splits)
  have tr: "get_order_lines_with_track_inventory e infos' = infos'"
    using tracked unfolding get_order_lines_with_track_inventory_def infos'_def
    by (simp add: filter_id_conv)
  have own: "a_pk a \<in> a_pk ` set as \<longleftrightarrow> ?own a" if "a \<in> set (allocations d)" for a
    using that pks by (auto simp: as_def distinct_map dest: inj_onD)
  have left: "allocations d2 = filter (\<lambda>a. \<not> ?own a) (allocations d)"
    using own by (auto simp: d1_def d2_def intro!: filter_cong)
  have "line_sum d' x = line_sum d2 x + group_sum (\<lambda>li. ol_pk (li_line li)) li_quantity infos' x"
    using allocate_stocks_exact [OF al, of x] by (simp add: line_sum_def tr)
  moreover have "line_sum d2 x = (if x \<in> set (lines_of infos) then 0 else line_sum d x)"
    unfolding line_sum_def left lines_of_def
    using group_sum_filter_key [of "\<lambda>a. \<not> ?own a" a_order_line "- set (map (\<lambda>li. ol_pk (li_line li)) infos)"
        a_quantity_allocated "allocations d" x] by simp
  moreover have "group_sum (\<lambda>li. ol_pk (li_line li)) li_quantity infos' x =
      group_sum (\<lambda>li. ol_pk (li_line li)) li_quantity infos x
      + (if x \<in> set (lines_of infos) then line_sum d x else 0)"
  proof -
    have sum: "group_sum a_order_line a_quantity_allocated as y = line_sum d y" if "y \<in> set (lines_of infos)" for y
      using that group_sum_filter_key [of ?own a_order_line "set (lines_of infos)" a_quantity_allocated "allocations d" y]
      by (simp add: as_def line_sum_def lines_of_def)
    have "group_sum (\<lambda>li. ol_pk (li_line li)) li_quantity (map (\<lambda>li. li\<lparr>li_quantity := li_quantity li +
           group_sum a_order_line a_quantity_allocated as (ol_pk (li_line li))\<rparr>) lis) x
        = group_sum (\<lambda>li. ol_pk (li_line li)) li_quantity lis x
          + (if x \<in> set (lines_of lis) then group_sum a_order_line a_quantity_allocated as x else 0)"
      if "distinct (lines_of lis)" for lis
      using that
    proof (induction lis)
      case (Cons li lis)
      then show ?case by (auto simp: lines_of_def)
    qed (simp add: lines_of_def)
    from this [OF lines] sum [of x] show ?thesis by (auto simp: infos'_def)
  qed
  ultimately show ?thesis
    by (cases "x \<in> set (lines_of infos)")
      (simp_all add: group_sum_absent lines_of_def)
qed


section \<open>The webhooks of an allocation\<close>

lemma late_bound_last: "h \<in> set (late_bound cond call xs) \<Longrightarrow> h = call (last xs)"
  by (auto simp: late_bound_def)

text \<open>
  All \<open>product_variant_out_of_stock\<close> calls that one \<open>allocate_stocks\<close> queues are about one
  stock, the one of the allocation that was created last: the lambdas close over the loop variable.
\<close>

lemma allocate_stocks_hooks_last:
  assumes run: "allocate_stocks e infos country ch cp f chk cls d = Inr d'"
  shows "\<exists>hs. hooks d' = hooks d @ hs \<and> (\<forall>h \<in> set hs. h = Out_Of_Stock (a_stock (last (allocations d'))))"
  using run
proof (cases rule: allocate_stocks_Inr)
  case (lines ss ss' alloc resv ids itss)
  show ?thesis
  proof (cases "concat itss = []")
    case True
    with lines(6) show ?thesis by (simp only: if_True) simp
  next
    case False
    with lines(6) have save: "save_allocations (concat itss) d = Inr d'" by (simp only: if_False)
    then obtain created out where c: "created = number_from (allocation_seq d) (map new_allocation (concat itss))"
      "allocations d' = allocations d @ created"
      "hooks d' = hooks d @ late_bound out (\<lambda>a. Out_Of_Stock (a_stock a)) created"
      by (auto simp: save_allocations_def insert_allocations_def Let_def split: sum.splits if_splits)
    have "created \<noteq> []" using False c(1) by (cases "concat itss") auto
    then have "last (allocations d') = last created" by (simp add: c(2))
    with c(3) late_bound_last show ?thesis by fastforce
  qed
qed simp

section \<open>Runs on the example shop\<close>

definition ex_sold :: db where
  "ex_sold = ex_db [ex_stock 1 1 1 5 3, ex_stock 2 2 1 9 4] [ex_allocation 1 1 1 3, ex_allocation 2 1 2 4]"

lemma ex_sold_rows:
  "distinct (map a_pk (allocations ex_sold))" "distinct (map s_pk (stocks ex_sold))"
  "distinct (map place (stocks ex_sold))" "counters_ok ex_sold"
  "\<forall>a \<in> set (allocations ex_sold). 0 \<le> a_quantity_allocated a"
  "\<forall>a \<in> set (allocations ex_sold). a_stock a < stock_seq ex_sold"
  by code_simp+

lemma deallocate_stock_lines_witness:
  "line_sum (fst (deallocate_stock ex_env [ex_info 1 1 5] ex_sold)) 1 = 2"
proof -
  have "distinct (lines_of [ex_info 1 1 5])" "ol_pk (li_line (ex_info 1 1 5)) = 1" "li_quantity (ex_info 1 1 5) = 5"
    "line_sum ex_sold 1 = 7" by code_simp+
  with deallocate_stock_lines [OF ex_sold_rows(1) _ ex_sold_rows(5) prod.collapse [symmetric],
      of "[ex_info 1 1 5]" ex_env]
  show ?thesis by simp
qed

lemma deallocate_stock_counters_witness:
  "counters_ok (fst (deallocate_stock ex_env [ex_info 1 1 5] ex_sold))"
proof -
  have "distinct (lines_of [ex_info 1 1 5])"
    "distinct (map a_stock (filter (\<lambda>a. a_order_line a \<in> set (lines_of [ex_info 1 1 5])) (allocations ex_sold)))"
    by code_simp+
  from deallocate_stock_counters [OF ex_sold_rows(1) this ex_sold_rows(4) prod.collapse [symmetric], of ex_env]
  show ?thesis by simp
qed

lemma deallocate_stock_for_orders_releases_witness:
  "line_sum (deallocate_stock_for_orders ex_env [1] ex_sold) 1 = 0
   \<and> counters_ok (deallocate_stock_for_orders ex_env [1] ex_sold)"
proof -
  have "1 \<in> set (lines_of_orders ex_sold [1])" "distinct (map a_stock (released (of_orders ex_sold [1]) ex_sold))"
    by code_simp+
  with deallocate_stock_for_orders_releases [OF ex_sold_rows(5), of ex_env "[1]"] ex_sold_rows(4)
  show ?thesis by simp
qed

lemma decrease_stock_quantities_witness:
  "\<exists>d'. decrease_stock ex_env [ex_info 1 1 4] True False ex_sold = Inr d'
    \<and> map (\<lambda>s. (s_pk s, s_quantity s)) (stocks d') = [(1, 1), (2, 9)]"
proof -
  have run: "decrease_stock ex_env [ex_info 1 1 4] True False ex_sold
      = Inr (projr (decrease_stock ex_env [ex_info 1 1 4] True False ex_sold))"
    by (rule not_isl_Inr) code_simp
  have "map (\<lambda>s. (s_pk s, s_quantity s - demand [ex_info 1 1 4] s)) (stocks ex_sold) = [(1, 1), (2, 9)]"
    by code_simp
  with decrease_stock_quantities [OF run ex_sold_rows(2,3)] run show ?thesis by metis
qed

lemma increase_stock_effect_witness:
  "\<exists>d'. increase_stock (ex_order_line 1 1) 3 4 True ex_sold = Inr d'
    \<and> line_sum d' 1 = 11 \<and> counters_ok d' \<and> length (stocks d') = 3"
proof -
  let ?d = "projr (increase_stock (ex_order_line 1 1) 3 4 True ex_sold)"
  have run: "increase_stock (ex_order_line 1 1) 3 4 True ex_sold = Inr ?d"
    by (rule not_isl_Inr) code_simp
  have "line_sum ex_sold 1 = 7" "ol_pk (ex_order_line 1 1) = 1" "length (stocks ?d) = 3" by code_simp+
  with increase_stock_effect [OF run ex_sold_rows(1,2,6)] run ex_sold_rows(4) show ?thesis by auto
qed

lemma increase_allocations_effect_witness:
  "\<exists>d'. increase_allocations ex_env [ex_info 1 1 2] ex_channel ex_sold = Inr d' \<and> line_sum d' 1 = 9"
proof -
  let ?d = "projr (increase_allocations ex_env [ex_info 1 1 2] ex_channel ex_sold)"
  have run: "increase_allocations ex_env [ex_info 1 1 2] ex_channel ex_sold = Inr ?d"
    by (rule not_isl_Inr) code_simp
  have "tracked ex_env [ex_info 1 1 2] = [ex_info 1 1 2]" by (simp add: get_order_lines_with_track_inventory_def
      is_preorder_active_def ex_info_def ex_defs)
  moreover have "distinct (lines_of [ex_info 1 1 2])" "line_sum ex_sold 1 = 7"
    "group_sum (\<lambda>li. ol_pk (li_line li)) li_quantity [ex_info 1 1 2] 1 = 2" by code_simp+
  ultimately show ?thesis
    using increase_allocations_effect [OF run _ _ ex_sold_rows(1), of 1] run by auto
qed

lemma allocate_stocks_hooks_last_witness:
  "\<exists>d'. ex_allocate False [ex_info 1 1 12] ex_shop = Inr d'
    \<and> (\<forall>h \<in> set (hooks d'). h = Out_Of_Stock 1) \<and> allocated_sum d' 2 = 9"
proof -
  let ?d = "projr (ex_allocate False [ex_info 1 1 12] ex_shop)"
  have run: "ex_allocate False [ex_info 1 1 12] ex_shop = Inr ?d"
    by (rule not_isl_Inr) code_simp
  have facts: "a_stock (last (allocations ?d)) = 1" "hooks ex_shop = []" "allocated_sum ?d 2 = 9" by code_simp+
  from allocate_stocks_hooks_last [OF run [unfolded ex_allocate_def]]
  have "\<forall>h \<in> set (hooks ?d). h = Out_Of_Stock 1"
    unfolding ex_allocate_def [symmetric] facts by auto
  with run facts(3) show ?thesis by blast
qed

text \<open>
  Two allocations on one stock: cancelling the order lowers the stock's counter by the
  first allocation only, so afterwards it claims pieces that nobody has allocated.
\<close>

lemma cancelled_order_counter_drift:
  "stocks (deallocate_stock_for_order ex_env 1
      (ex_db [ex_stock 1 1 1 9 7] [ex_allocation 1 1 1 3, ex_allocation 2 2 1 4])) = [ex_stock 1 1 1 9 4]
   \<and> allocated_sum (deallocate_stock_for_order ex_env 1
      (ex_db [ex_stock 1 1 1 9 7] [ex_allocation 1 1 1 3, ex_allocation 2 2 1 4])) 1 = 0"
  by (intro conjI) code_simp+

end
