(* ===== verification/Preorder_Allocation.thy ===== *)
theory Preorder_Allocation
  imports Stock_Movements
begin

text \<open>
  \<open>saleor/warehouse/management.py\<close>, third part: preorder allocations against the thresholds of
  a channel listing and of the variant, and the end of a preorder, which turns them into
  allocations of stock (\<open>deactivate_preorder_for_variant\<close>).
\<close>

section \<open>Preorders\<close>

type_synonym preorder_item = "pk \<times> pk \<times> int"   \<comment> \<open>(order line, channel listing, quantity)\<close>

definition create_preorder_allocation ::
  "order_line_info \<Rightarrow> product_variant \<Rightarrow> pk \<times> int option \<Rightarrow> int \<Rightarrow> pk list \<Rightarrow> (pk \<Rightarrow> int) \<Rightarrow> (pk \<Rightarrow> int)
   \<Rightarrow> preorder_item option \<times> insufficient_stock_data option" where
  "create_preorder_allocation li variant variant_channel_data variant_global_allocation
       listing_ids allocated reserved =
     (let quantity = li_quantity li;
          (channel_listing_id, channel_quantity_threshold) = variant_channel_data;
          report = (\<lambda>n. \<lparr>i_available_quantity = n, i_variant = Some (v_id variant),
                     i_order_line = None, i_warehouse_pk = None\<rparr>);
          channel_short = (case channel_quantity_threshold of None \<Rightarrow> None
             | Some threshold \<Rightarrow>
                 (let channel_availability =
                        max (threshold - allocated channel_listing_id - reserved channel_listing_id) 0
                  in if channel_availability < quantity then Some channel_availability else None));
          global_short = (case v_preorder_global_threshold variant of None \<Rightarrow> None
             | Some threshold \<Rightarrow>
                 (let global_availability =
                        max (threshold - variant_global_allocation
                             - sum_list (map reserved listing_ids)) 0
                  in if global_availability < quantity then Some global_availability else None))
      in case channel_short of
           Some n \<Rightarrow> (None, Some (report n))
         | None \<Rightarrow> (case global_short of
               Some n \<Rightarrow> (None, Some (report n))
             | None \<Rightarrow> (Some (ol_pk (li_line li), channel_listing_id, quantity), None)))"

definition listings_of_variants :: "db \<Rightarrow> pk list \<Rightarrow> channel_listing list" where
  "listings_of_variants d vs = filter (\<lambda>l. l_variant l \<in> set vs) (channel_listings d)"

definition listing_in_channel :: "db \<Rightarrow> string \<Rightarrow> channel_listing \<Rightarrow> bool" where
  "listing_in_channel d slug l \<longleftrightarrow> list_ex (\<lambda>c. ch_id c = l_channel l \<and> ch_slug c = slug) (channels d)"

fun allocate_preorder_lines ::
  "env \<Rightarrow> db \<Rightarrow> string \<Rightarrow> channel_listing list \<Rightarrow> (pk \<Rightarrow> int) \<Rightarrow> (pk \<Rightarrow> int) \<Rightarrow> order_line_info list
   \<Rightarrow> preorder_item list \<Rightarrow> insufficient_stock_data list
   \<Rightarrow> error + (preorder_item list \<times> insufficient_stock_data list)" where
  "allocate_preorder_lines e d slug listings allocated reserved [] items insufficient =
     Inr (items, insufficient)"
| "allocate_preorder_lines e d slug listings allocated reserved (li # lis) items insufficient =
     (case li_variant li of
        None \<Rightarrow> Inl Attribute_Error
      | Some variant \<Rightarrow>
          (let own = filter (\<lambda>l. l_variant l = v_id variant) listings
           in case find (listing_in_channel d slug) (rev own) of
                None \<Rightarrow> Inl Key_Error
              | Some l \<Rightarrow>
                  (let (item, short) = create_preorder_allocation li variant
                         (l_id l, l_preorder_quantity_threshold l)
                         (sum_list (map (\<lambda>l'. allocated (l_id l')) own)) (map l_id own) allocated reserved
                   in allocate_preorder_lines e d slug listings allocated reserved lis
                        (case item of None \<Rightarrow> items | Some i \<Rightarrow> items @ [i])
                        (case short of None \<Rightarrow> insufficient | Some i \<Rightarrow> insufficient @ [i]))))"

definition new_preorder_allocation :: "preorder_item \<Rightarrow> pk \<Rightarrow> preorder_allocation" where
  "new_preorder_allocation it k = (case it of (line, l, q) \<Rightarrow>
     \<lparr>pa_pk = k, pa_order_line = line, pa_quantity = q, pa_listing = l\<rparr>)"

definition allocate_preorders ::
  "env \<Rightarrow> order_line_info list \<Rightarrow> string \<Rightarrow> bool \<Rightarrow> checkout_line list \<Rightarrow> db \<Rightarrow> error + db" where
  "allocate_preorders e infos channel_slug check_reservations checkout_lines d =
     (let infos = get_order_lines_with_preorder e infos in
      if infos = [] then Inr d
      else
        let variants = List.map_filter (\<lambda>li. map_option v_id (li_variant li)) infos;
            listings = listings_of_variants d variants;
            ids = map l_id listings;
            allocated = group_sum pa_listing pa_quantity
              (filter (\<lambda>a. pa_listing a \<in> set ids \<and> 0 < pa_quantity a) (preorder_allocations d));
            reserved = (if check_reservations
              then group_sum pr_listing pr_quantity_reserved
                     (preorder_exclude_checkout_lines checkout_lines (preorder_not_expired e
                       (filter (\<lambda>r. pr_listing r \<in> set ids \<and> 0 < pr_quantity_reserved r)
                         (preorder_reservations d))))
              else (\<lambda>_. 0))
        in case allocate_preorder_lines e d channel_slug listings allocated reserved infos [] [] of
             Inl err \<Rightarrow> Inl err
           | Inr (items, insufficient) \<Rightarrow>
               (if insufficient \<noteq> [] then Inl (Insufficient_Stock insufficient)
                else if items \<noteq> []
                then (case insert_preorder_allocations (map new_preorder_allocation items) d of
                        Inl err \<Rightarrow> Inl err | Inr (_, d') \<Rightarrow> Inr d')
                else Inr d))"

text \<open>\<open>deactivate_preorder_for_variant\<close>: preorder allocations become allocations.\<close>

datatype stock_choice = Existing_Stock stock | Adding_Stock pk   \<comment> \<open>a new stock in that warehouse\<close>

definition get_stock_for_preorder_allocation ::
  "env \<Rightarrow> db \<Rightarrow> preorder_allocation \<Rightarrow> pk \<Rightarrow> error + stock_choice" where
  "get_stock_for_preorder_allocation e d pa variant =
     (case find (\<lambda>l. ol_pk l = pa_order_line pa) (order_lines d) of
        None \<Rightarrow> Inl Attribute_Error
      | Some line \<Rightarrow>
          (let serves = (case o_shipping_zone (ol_order line) of
                 Some zone \<Rightarrow> (\<lambda>w. (w_id w, zone) \<in> set (warehouse_zones d))
               | None \<Rightarrow> (\<lambda>w. list_ex (\<lambda>(w', z). w' = w_id w
                     \<and> list_ex (\<lambda>sz. z_id sz = z
                           \<and> sublist (get_order_country (ol_order line)) (z_countries sz))
                         (shipping_zones d)) (warehouse_zones d)));
               by_slug = sort_key (\<lambda>w. - int (slug_rank e (w_slug w))) (filter serves (warehouses d))
           in case by_slug of
                [] \<Rightarrow> Inl (Preorder_Allocation_Error (pa_order_line pa))
              | w # _ \<Rightarrow>
                  (case find (\<lambda>s. s_warehouse s = w_id w \<and> s_variant s = variant) (stocks d) of
                     Some s \<Rightarrow> Inr (Existing_Stock s)
                   | None \<Rightarrow> Inr (Adding_Stock (w_id w)))))"

fun choose_stocks ::
  "env \<Rightarrow> db \<Rightarrow> pk \<Rightarrow> preorder_allocation list \<Rightarrow> error + (preorder_allocation \<times> stock_choice) list" where
  "choose_stocks e d variant [] = Inr []"
| "choose_stocks e d variant (pa # pas) =
     (case get_stock_for_preorder_allocation e d pa variant of
        Inl err \<Rightarrow> Inl err
      | Inr c \<Rightarrow> (case choose_stocks e d variant pas of
            Inl err \<Rightarrow> Inl err | Inr cs \<Rightarrow> Inr ((pa, c) # cs)))"

definition adding_stocks :: "pk \<Rightarrow> (preorder_allocation \<times> stock_choice) list \<Rightarrow> (pk \<Rightarrow> stock) list" where
  "adding_stocks variant cs = List.map_filter (\<lambda>(pa, c). case c of Existing_Stock _ \<Rightarrow> None
     | Adding_Stock w \<Rightarrow> Some (\<lambda>k. \<lparr>s_pk = k, s_warehouse = w, s_variant = variant, s_quantity = 0,
          s_quantity_allocated = pa_quantity pa\<rparr>)) cs"

definition existing_deltas ::
  "(preorder_allocation \<times> stock_choice) list \<Rightarrow> (pk \<times> (stock \<Rightarrow> stock)) list" where
  "existing_deltas cs = List.map_filter (\<lambda>(pa, c). case c of Adding_Stock _ \<Rightarrow> None
     | Existing_Stock s \<Rightarrow> Some (s_pk s, add_allocated (pa_quantity pa))) cs"

fun allocation_items ::
  "(preorder_allocation \<times> stock_choice) list \<Rightarrow> stock list \<Rightarrow> allocation_item list" where
  \<comment> \<open>The new stocks are taken in the order in which they were created.\<close>
  "allocation_items [] created = []"
| "allocation_items ((pa, Existing_Stock s) # cs) created =
     (pa_order_line pa, s_pk s, pa_quantity pa) # allocation_items cs created"
| "allocation_items ((pa, Adding_Stock w) # cs) (s # created) =
     (pa_order_line pa, s_pk s, pa_quantity pa) # allocation_items cs created"
| "allocation_items ((pa, Adding_Stock w) # cs) [] = allocation_items cs []"

definition deactivate_preorder_for_variant ::
  "env \<Rightarrow> product_variant \<Rightarrow> db \<Rightarrow> error + db" where
  "deactivate_preorder_for_variant e v d =
     (if \<not> v_is_preorder v then Inr d
      else
        let ids = map l_id (filter (\<lambda>l. l_variant l = v_id v) (channel_listings d));
            pas = filter (\<lambda>pa. pa_listing pa \<in> set ids) (preorder_allocations d)
        in case choose_stocks e d (v_id v) pas of
             Inl err \<Rightarrow> Inl err
           | Inr cs \<Rightarrow>
               (case insert_stocks (adding_stocks (v_id v) cs) d of
                  Inl err \<Rightarrow> Inl err
                | Inr (created, d1) \<Rightarrow>
                    (let d2 = d1\<lparr>stocks := bulk_update s_pk (existing_deltas cs) (stocks d1)\<rparr>
                     in case insert_allocations (map new_allocation (allocation_items cs created)) d2 of
                          Inl err \<Rightarrow> Inl err
                        | Inr (_, d3) \<Rightarrow> Inr (d3\<lparr>
                            preorder_allocations :=
                              filter (\<lambda>pa. pa_listing pa \<notin> set ids) (preorder_allocations d3),
                            product_variants := map (\<lambda>v'. if v_id v' = v_id v
                              then v'\<lparr>v_preorder_global_threshold := None,
                                      v_preorder_end_date := None, v_is_preorder := False\<rparr> else v')
                              (product_variants d3),
                            channel_listings := map (\<lambda>l. if l_variant l = v_id v
                              then l\<lparr>l_preorder_quantity_threshold := None\<rparr> else l)
                              (channel_listings d3)\<rparr>))))"

section \<open>What a successful preorder allocation adds\<close>

definition preordered :: "db \<Rightarrow> pk \<Rightarrow> int" where
  "preordered d l = group_sum pa_listing pa_quantity (preorder_allocations d) l"

text \<open>The item of a line that passed both thresholds.\<close>

definition preorder_item_ok :: "db \<Rightarrow> string \<Rightarrow> channel_listing list \<Rightarrow> (pk \<Rightarrow> int) \<Rightarrow> (pk \<Rightarrow> int)
  \<Rightarrow> order_line_info \<Rightarrow> preorder_item \<Rightarrow> bool" where
  "preorder_item_ok d slug listings allocated reserved li it \<longleftrightarrow>
     (\<exists>v l. li_variant li = Some v \<and> l \<in> set listings \<and> l_variant l = v_id v \<and> listing_in_channel d slug l
        \<and> it = (ol_pk (li_line li), l_id l, li_quantity li)
        \<and> (\<forall>t. l_preorder_quantity_threshold l = Some t \<longrightarrow>
             li_quantity li \<le> max (t - allocated (l_id l) - reserved (l_id l)) 0)
        \<and> (\<forall>t. v_preorder_global_threshold v = Some t \<longrightarrow>
             li_quantity li \<le> max (t - sum_of (\<lambda>l. allocated (l_id l)) (filter (\<lambda>l. l_variant l = v_id v) listings)
                - sum_of (\<lambda>l. reserved (l_id l)) (filter (\<lambda>l. l_variant l = v_id v) listings)) 0))"

lemma create_preorder_allocation_cases:
  obtains (short) r where "create_preorder_allocation li v (lid, th) g ids allocated reserved = (None, Some r)"
  | (item) "create_preorder_allocation li v (lid, th) g ids allocated reserved
      = (Some (ol_pk (li_line li), lid, li_quantity li), None)"
    "\<And>t. th = Some t \<Longrightarrow> li_quantity li \<le> max (t - allocated lid - reserved lid) 0"
    "\<And>t. v_preorder_global_threshold v = Some t \<Longrightarrow> li_quantity li \<le> max (t - g - sum_list (map reserved ids)) 0"
proof -
  define res where "res = create_preorder_allocation li v (lid, th) g ids allocated reserved"
  have "(\<exists>r. res = (None, Some r)) \<or> (res = (Some (ol_pk (li_line li), lid, li_quantity li), None)
      \<and> (\<forall>t. th = Some t \<longrightarrow> li_quantity li \<le> max (t - allocated lid - reserved lid) 0)
      \<and> (\<forall>t. v_preorder_global_threshold v = Some t \<longrightarrow> li_quantity li \<le> max (t - g - sum_list (map reserved ids)) 0))"
    unfolding res_def create_preorder_allocation_def
    by (auto simp: Let_def not_less split: option.splits if_splits)
  then show thesis using short item unfolding res_def by blast
qed

lemma allocate_preorder_lines_grows:
  "allocate_preorder_lines e d slug listings allocated reserved lis items ins = Inr (items', ins')
   \<Longrightarrow> \<exists>xs. ins' = ins @ xs"
proof (induction lis arbitrary: items ins)
  case (Cons li lis)
  then show ?case by (fastforce simp: Let_def split: option.splits prod.splits)
qed simp

lemma allocate_preorder_lines_split:
  "allocate_preorder_lines e d slug listings allocated reserved lis acc [] = Inr (items, []) \<Longrightarrow>
   \<exists>its. items = acc @ its \<and> list_all2 (preorder_item_ok d slug listings allocated reserved) lis its"
proof (induction lis arbitrary: acc)
  case (Cons li lis)
  from Cons.prems obtain v where v: "li_variant li = Some v" by (auto split: option.splits)
  define own where "own = filter (\<lambda>l. l_variant l = v_id v) listings"
  from Cons.prems v obtain l where l: "find (listing_in_channel d slug) (rev own) = Some l"
    by (auto simp: Let_def own_def split: option.splits)
  then have l_in: "l \<in> set listings" "l_variant l = v_id v" "listing_in_channel d slug l"
    using find_SomeD [OF l] by (auto simp: own_def)
  define c where "c = create_preorder_allocation li v (l_id l, l_preorder_quantity_threshold l)
     (sum_list (map (\<lambda>l'. allocated (l_id l')) own)) (map l_id own) allocated reserved"
  have step: "allocate_preorder_lines e d slug listings allocated reserved (li # lis) acc [] =
     allocate_preorder_lines e d slug listings allocated reserved lis
       (case fst c of None \<Rightarrow> acc | Some i \<Rightarrow> acc @ [i]) (case snd c of None \<Rightarrow> [] | Some i \<Rightarrow> [] @ [i])"
    using v l by (simp add: own_def [symmetric] c_def [symmetric] Let_def split: prod.split)
  show ?case
  proof (rule create_preorder_allocation_cases [of li v "l_id l" "l_preorder_quantity_threshold l"
        "sum_list (map (\<lambda>l'. allocated (l_id l')) own)" "map l_id own" allocated reserved], fold c_def)
    fix r assume "c = (None, Some r)"
    with step Cons.prems allocate_preorder_lines_grows [of e d slug listings allocated reserved lis acc "[r]"]
    show ?thesis by auto
  next
    let ?it = "(ol_pk (li_line li), l_id l, li_quantity li)"
    assume c: "c = (Some ?it, None)"
      and th: "\<And>t. l_preorder_quantity_threshold l = Some t \<Longrightarrow> li_quantity li \<le> max (t - allocated (l_id l) - reserved (l_id l)) 0"
      and gl: "\<And>t. v_preorder_global_threshold v = Some t \<Longrightarrow>
        li_quantity li \<le> max (t - sum_list (map (\<lambda>l'. allocated (l_id l')) own) - sum_list (map reserved (map l_id own))) 0"
    have "preorder_item_ok d slug listings allocated reserved li ?it"
      unfolding preorder_item_ok_def
      using v l_in th gl by (auto simp: own_def sum_of_def o_def)
    moreover from step c Cons.prems
    have "allocate_preorder_lines e d slug listings allocated reserved lis (acc @ [?it]) [] = Inr (items, [])" by simp
    from Cons.IH [OF this] obtain its where "items = (acc @ [?it]) @ its"
      "list_all2 (preorder_item_ok d slug listings allocated reserved) lis its" by blast
    ultimately show ?thesis by (intro exI [of _ "?it # its"]) simp
  qed
qed simp

definition preorder_line_sum :: "db \<Rightarrow> pk \<Rightarrow> int" where
  "preorder_line_sum d line = group_sum pa_order_line pa_quantity (preorder_allocations d) line"

lemma created_preorders:
  "group_sum pa_listing pa_quantity (number_from k (map new_preorder_allocation its)) x
     = group_sum (\<lambda>it. fst (snd it)) (\<lambda>it. snd (snd it)) its x"
  "group_sum pa_order_line pa_quantity (number_from k (map new_preorder_allocation its)) x
     = group_sum fst (\<lambda>it. snd (snd it)) its x"
  by (induction its arbitrary: k) (auto simp: new_preorder_allocation_def split: prod.splits)

abbreviation preorder_lines :: "env \<Rightarrow> order_line_info list \<Rightarrow> order_line_info list" where
  "preorder_lines \<equiv> get_order_lines_with_preorder"

lemma preorder_lines_variant: "li \<in> set (preorder_lines e infos) \<Longrightarrow> \<exists>v. li_variant li = Some v"
  by (auto simp: get_order_lines_with_preorder_def split: option.splits)

definition line_listings :: "env \<Rightarrow> order_line_info list \<Rightarrow> db \<Rightarrow> channel_listing list" where
  "line_listings e infos d = listings_of_variants d
     (List.map_filter (\<lambda>li. map_option v_id (li_variant li)) (preorder_lines e infos))"

lemma allocate_preorders_Inr:
  assumes run: "allocate_preorders e infos slug chk cls d = Inr d'"
    and nn: "\<forall>a \<in> set (preorder_allocations d). 0 \<le> pa_quantity a"
      "\<forall>r \<in> set (preorder_reservations d). 0 \<le> pr_quantity_reserved r"
  obtains its allocated reserved where
    "list_all2 (preorder_item_ok d slug (line_listings e infos d) allocated reserved) (preorder_lines e infos) its"
    "preorder_allocations d' = preorder_allocations d
       @ number_from (preorder_allocation_seq d) (map new_preorder_allocation its)"
    "\<And>l. l \<in> set (line_listings e infos d) \<Longrightarrow> allocated (l_id l) = preordered d (l_id l)"
    "\<And>x. 0 \<le> reserved x"
proof (cases "preorder_lines e infos = []")
  case True
  with run that [of "\<lambda>x. preordered d x" "\<lambda>_. 0" "[]"] show thesis
    by (simp add: allocate_preorders_def)
next
  case False
  define ids where "ids = map l_id (line_listings e infos d)"
  define allocated where "allocated = group_sum pa_listing pa_quantity
      (filter (\<lambda>a. pa_listing a \<in> set ids \<and> 0 < pa_quantity a) (preorder_allocations d))"
  define reserved where "reserved = (if chk
              then group_sum pr_listing pr_quantity_reserved
                     (preorder_exclude_checkout_lines cls (preorder_not_expired e
                       (filter (\<lambda>r. pr_listing r \<in> set ids \<and> 0 < pr_quantity_reserved r)
                         (preorder_reservations d))))
              else (\<lambda>_. 0))"
  from run False obtain items where
    lines: "allocate_preorder_lines e d slug (line_listings e infos d) allocated reserved (preorder_lines e infos) [] []
       = Inr (items, [])" and
    save: "if items \<noteq> [] then \<exists>new. insert_preorder_allocations (map new_preorder_allocation items) d = Inr (new, d')
       else d' = d"
    unfolding allocate_preorders_def Let_def line_listings_def [symmetric] ids_def [symmetric]
      allocated_def [symmetric] reserved_def [symmetric]
    by (auto split: sum.splits if_splits)
  from allocate_preorder_lines_split [OF lines] obtain its where its: "items = its"
    "list_all2 (preorder_item_ok d slug (line_listings e infos d) allocated reserved) (preorder_lines e infos) its"
    by auto
  have rows: "preorder_allocations d' = preorder_allocations d
       @ number_from (preorder_allocation_seq d) (map new_preorder_allocation its)"
    using save its(1)
    by (cases "items = []") (auto simp: insert_preorder_allocations_def Let_def split: if_splits)
  have alloc: "allocated (l_id l) = preordered d (l_id l)" if "l \<in> set (line_listings e infos d)" for l
  proof -
    have "allocated (l_id l) = group_sum pa_listing pa_quantity
        (filter (\<lambda>a. 0 < pa_quantity a) (preorder_allocations d)) (l_id l)"
      using that by (auto simp: allocated_def ids_def group_sum_def intro!: arg_cong [where f = "sum_of _"] filter_cong)
    then show ?thesis using nn(1) by (simp add: preordered_def group_sum_filter_pos)
  qed
  have "0 \<le> reserved x" for x
    unfolding reserved_def preorder_exclude_checkout_lines_def preorder_not_expired_def
    using nn(2) by (auto intro: group_sum_nonneg)
  with that its(2) rows alloc show thesis by blast
qed

text \<open>
  C7: a successful \<open>allocate_preorders\<close> adds to each order line exactly the preordered quantity
  asked for it.  When each preordered line has a variant of its own, what is preordered stays within every threshold,
  the one of a channel listing and the global one of a variant over all its listings, or within what was
  preordered before where that was already more.
\<close>

theorem allocate_preorders_thresholds:
  assumes run: "allocate_preorders e infos slug chk cls d = Inr d'"
    and nn: "\<forall>a \<in> set (preorder_allocations d). 0 \<le> pa_quantity a"
      "\<forall>r \<in> set (preorder_reservations d). 0 \<le> pr_quantity_reserved r"
    and ids: "distinct (map l_id (channel_listings d))"
  shows "preorder_line_sum d' line = preorder_line_sum d line
      + group_sum (\<lambda>li. ol_pk (li_line li)) li_quantity (get_order_lines_with_preorder e infos) line
    \<and> (distinct (map (\<lambda>li. map_option v_id (li_variant li)) (get_order_lines_with_preorder e infos)) \<longrightarrow>
      (\<forall>l \<in> set (channel_listings d). \<forall>t. l_preorder_quantity_threshold l = Some t \<longrightarrow>
        preordered d' (l_id l) \<le> max (preordered d (l_id l)) t)
    \<and> (\<forall>li \<in> set (get_order_lines_with_preorder e infos). \<forall>v t. li_variant li = Some v \<and> v_preorder_global_threshold v = Some t \<longrightarrow>
        sum_of (\<lambda>l. preordered d' (l_id l)) (listings_of_variants d [v_id v])
          \<le> max (sum_of (\<lambda>l. preordered d (l_id l)) (listings_of_variants d [v_id v])) t))"
proof (rule allocate_preorders_Inr [OF run nn])
  fix its allocated reserved
  let ?ok = "preorder_item_ok d slug (line_listings e infos d) allocated reserved"
  let ?listing = "\<lambda>it. fst (snd it)" and ?q = "\<lambda>it. snd (snd it)"
  assume its: "list_all2 ?ok (preorder_lines e infos) its"
    and rows: "preorder_allocations d' = preorder_allocations d
       @ number_from (preorder_allocation_seq d) (map new_preorder_allocation its)"
    and alloc: "\<And>l. l \<in> set (line_listings e infos d) \<Longrightarrow> allocated (l_id l) = preordered d (l_id l)"
    and resv: "\<And>x. 0 \<le> reserved x"
  have added: "preordered d' x = preordered d x + group_sum ?listing ?q its x" for x
    by (simp add: preordered_def rows created_preorders)
  have ll: "set (line_listings e infos d) \<subseteq> set (channel_listings d)"
    by (auto simp: line_listings_def listings_of_variants_def)
  have same: "l = l'" if "l \<in> set (channel_listings d)" "l' \<in> set (channel_listings d)" "l_id l = l_id l'" for l l'
    using that ids by (metis distinct_map inj_onD)
  have "group_sum fst ?q its line = group_sum (\<lambda>li. ol_pk (li_line li)) li_quantity (preorder_lines e infos) line"
    using its by (induction rule: list_all2_induct) (auto simp: preorder_item_ok_def)
  then have exact: "preorder_line_sum d' line = preorder_line_sum d line
      + group_sum (\<lambda>li. ol_pk (li_line li)) li_quantity (preorder_lines e infos) line"
    by (simp add: preorder_line_sum_def rows created_preorders)
  have item: "\<exists>v. li_variant li = Some v \<and> l_variant l = v_id v \<and> l \<in> set (line_listings e infos d)
      \<and> (\<forall>t. l_preorder_quantity_threshold l = Some t \<longrightarrow>
             ?q it \<le> max (t - allocated (l_id l) - reserved (l_id l)) 0)
      \<and> (\<forall>t. v_preorder_global_threshold v = Some t \<longrightarrow>
             ?q it \<le> max (t - sum_of (\<lambda>l. allocated (l_id l)) (filter (\<lambda>l. l_variant l = v_id v) (line_listings e infos d))
                - sum_of (\<lambda>l. reserved (l_id l)) (filter (\<lambda>l. l_variant l = v_id v) (line_listings e infos d))) 0)"
    if it: "?ok li it" "?listing it = l_id l" and l: "l \<in> set (channel_listings d)" for li it l
  proof -
    from it(1) obtain v l' where vl: "li_variant li = Some v" "l' \<in> set (line_listings e infos d)" "l_variant l' = v_id v"
      "it = (ol_pk (li_line li), l_id l', li_quantity li)"
      "\<forall>t. l_preorder_quantity_threshold l' = Some t \<longrightarrow> li_quantity li \<le> max (t - allocated (l_id l') - reserved (l_id l')) 0"
      "\<forall>t. v_preorder_global_threshold v = Some t \<longrightarrow>
             li_quantity li \<le> max (t - sum_of (\<lambda>l. allocated (l_id l)) (filter (\<lambda>l. l_variant l = v_id v) (line_listings e infos d))
                - sum_of (\<lambda>l. reserved (l_id l)) (filter (\<lambda>l. l_variant l = v_id v) (line_listings e infos d))) 0"
      unfolding preorder_item_ok_def by blast
    with it(2) have "l' = l" using same [OF _ l] ll by auto
    with vl show ?thesis by simp
  qed
  have channel: "preordered d' (l_id l) \<le> max (preordered d (l_id l)) t"
    if own: "distinct (map (\<lambda>li. map_option v_id (li_variant li)) (get_order_lines_with_preorder e infos))"
      and l: "l \<in> set (channel_listings d)" "l_preorder_quantity_threshold l = Some t" for l t
  proof -
    have "filter (\<lambda>it. ?listing it = l_id l) its = [] \<or> (\<exists>li \<in> set (preorder_lines e infos). \<exists>it.
        ?ok li it \<and> ?listing it = l_id l \<and> filter (\<lambda>it. ?listing it = l_id l) its = [it])"
    proof (rule one_match [OF its own])
      fix li it assume "?ok li it" "?listing it = l_id l"
      from item [OF this l(1)] show "map_option v_id (li_variant li) = Some (l_variant l)" by auto
    qed
    then show ?thesis
    proof (elim disjE bexE exE conjE)
      fix li it assume it: "?ok li it" "?listing it = l_id l" "filter (\<lambda>it. ?listing it = l_id l) its = [it]"
      from item [OF it(1,2) l(1)] l(2) alloc
      have "?q it \<le> max (t - preordered d (l_id l) - reserved (l_id l)) 0" by auto
      with it(3) resv [of "l_id l"] show ?thesis by (auto simp: added group_sum_def)
    qed (simp add: added group_sum_def)
  qed
  have total: "sum_of (\<lambda>l. preordered d' (l_id l)) (listings_of_variants d [v_id v])
          \<le> max (sum_of (\<lambda>l. preordered d (l_id l)) (listings_of_variants d [v_id v])) t"
    if own: "distinct (map (\<lambda>li. map_option v_id (li_variant li)) (get_order_lines_with_preorder e infos))"
      and li: "li \<in> set (preorder_lines e infos)" "li_variant li = Some v" "v_preorder_global_threshold v = Some t" for li v t
  proof -
    let ?own = "listings_of_variants d [v_id v]"
    have dist: "distinct (map l_id ?own)" by (simp add: listings_of_variants_def distinct_map_filter ids)
    have sum: "sum_of (\<lambda>l. preordered d' (l_id l)) ?own = sum_of (\<lambda>l. preordered d (l_id l)) ?own
        + sum_of ?q (filter (\<lambda>it. ?listing it \<in> l_id ` set ?own) its)"
      by (simp only: added sum_of_add sum_of_group_sum [OF dist])
    have own_eq: "filter (\<lambda>l. l_variant l = v_id v) (line_listings e infos d) = ?own"
      unfolding line_listings_def listings_of_variants_def filter_filter
      by (rule filter_cong [OF refl]) (use li(1,2) in \<open>force simp: List.map_filter_def\<close>)
    have "filter (\<lambda>it. ?listing it \<in> l_id ` set ?own) its = [] \<or> (\<exists>li \<in> set (preorder_lines e infos). \<exists>it.
        ?ok li it \<and> ?listing it \<in> l_id ` set ?own \<and> filter (\<lambda>it. ?listing it \<in> l_id ` set ?own) its = [it])"
    proof (rule one_match [OF its own])
      fix li it assume "?ok li it" "?listing it \<in> l_id ` set ?own"
      then obtain l where "l \<in> set ?own" "?listing it = l_id l" by blast
      with item [OF \<open>?ok li it\<close>, of l] show "map_option v_id (li_variant li) = Some (v_id v)"
        by (auto simp: listings_of_variants_def)
    qed
    then show ?thesis
    proof (elim disjE bexE exE conjE)
      fix li' it assume it: "li' \<in> set (preorder_lines e infos)" "?ok li' it" "?listing it \<in> l_id ` set ?own"
        "filter (\<lambda>it. ?listing it \<in> l_id ` set ?own) its = [it]"
      then obtain l where l: "l \<in> set ?own" "?listing it = l_id l" by blast
      then have ld: "l \<in> set (channel_listings d)" "l_variant l = v_id v" by (auto simp: listings_of_variants_def)
      from item [OF it(2) l(2) ld(1)] obtain v' where v': "li_variant li' = Some v'" "l_variant l = v_id v'"
        "\<forall>t. v_preorder_global_threshold v' = Some t \<longrightarrow>
             ?q it \<le> max (t - sum_of (\<lambda>l. allocated (l_id l)) (filter (\<lambda>l. l_variant l = v_id v') (line_listings e infos d))
                - sum_of (\<lambda>l. reserved (l_id l)) (filter (\<lambda>l. l_variant l = v_id v') (line_listings e infos d))) 0"
        by blast
      have "li' = li"
        using own it(1) li(1,2) v' ld(2) unfolding distinct_map by (metis inj_onD option.simps(9))
      with li v' have "v' = v" by simp
      have "sum_of (\<lambda>l. allocated (l_id l)) ?own = sum_of (\<lambda>l. preordered d (l_id l)) ?own"
        using alloc unfolding own_eq [symmetric]
        by (auto simp: sum_of_def intro!: arg_cong [where f = sum_list])
      moreover have "0 \<le> sum_of (\<lambda>l. reserved (l_id l)) ?own" using resv by (simp add: sum_of_nonneg)
      ultimately show ?thesis
        using v'(3) li(3) it(4) unfolding sum \<open>v' = v\<close> own_eq by fastforce
    qed (simp add: sum)
  qed
  from exact channel total show ?thesis by blast
qed

section \<open>The end of a preorder\<close>

lemma choose_stocks_all: "choose_stocks e d v pas = Inr cs \<Longrightarrow> map fst cs = pas"
  by (induction pas arbitrary: cs) (auto split: sum.splits)

lemma allocation_items_sum:
  "length created = length (adding_stocks v cs) \<Longrightarrow>
   group_sum item_line item_quantity (allocation_items cs created) x =
     group_sum pa_order_line pa_quantity (map fst cs) x"
  by (induction cs created rule: allocation_items.induct)
    (auto simp: adding_stocks_def List.map_filter_simps)

definition listing_ids :: "db \<Rightarrow> product_variant \<Rightarrow> pk list" where
  "listing_ids d v = map l_id (filter (\<lambda>l. l_variant l = v_id v) (channel_listings d))"

text \<open>
  C8: \<open>deactivate_preorder_for_variant\<close> turns preorders into allocations and loses nothing: when it
  succeeds, what was preordered of the variant on an order line has been added to the line's
  allocations, and no preorder allocation of the variant is left, while those of other
  variants are.
\<close>

theorem deactivate_preorder_conserves:
  assumes run: "deactivate_preorder_for_variant e v d = Inr d'" and pre: "v_is_preorder v"
  shows "line_sum d' line = line_sum d line
      + group_sum pa_order_line pa_quantity
          (filter (\<lambda>pa. pa_listing pa \<in> set (listing_ids d v)) (preorder_allocations d)) line
    \<and> preorder_allocations d' = filter (\<lambda>pa. pa_listing pa \<notin> set (listing_ids d v)) (preorder_allocations d)
    \<and> stock_table d' = stock_table d @ map (\<lambda>s. (s_pk s, place s, 0)) (drop (length (stocks d)) (stocks d'))"
proof -
  let ?pas = "filter (\<lambda>pa. pa_listing pa \<in> set (listing_ids d v)) (preorder_allocations d)"
  from run pre obtain cs created d1 where
    cs: "choose_stocks e d (v_id v) ?pas = Inr cs" and
    st: "insert_stocks (adding_stocks (v_id v) cs) d = Inr (created, d1)"
    unfolding deactivate_preorder_for_variant_def Let_def listing_ids_def [symmetric]
    by (auto split: sum.splits)
  define d2 where "d2 = d1\<lparr>stocks := bulk_update s_pk (existing_deltas cs) (stocks d1)\<rparr>"
  from run pre cs st obtain new d3 where
    al: "insert_allocations (map new_allocation (allocation_items cs created)) d2 = Inr (new, d3)" and
    d': "preorder_allocations d' = filter (\<lambda>pa. pa_listing pa \<notin> set (listing_ids d v)) (preorder_allocations d3)"
      "allocations d' = allocations d3" "stocks d' = stocks d3"
    unfolding deactivate_preorder_for_variant_def Let_def listing_ids_def [symmetric]
    by (auto simp: d2_def split: sum.splits)
  have created: "created = number_from (stock_seq d) (adding_stocks (v_id v) cs)"
    and d1: "stocks d1 = stocks d @ created" "allocations d1 = allocations d"
      "preorder_allocations d1 = preorder_allocations d"
    using st by (auto simp: insert_stocks_def Let_def split: if_splits)
  have d3: "allocations d3 = allocations d
       @ number_from (allocation_seq d2) (map new_allocation (allocation_items cs created))"
    "preorder_allocations d3 = preorder_allocations d"
    "stocks d3 = bulk_update s_pk (existing_deltas cs) (stocks d @ created)"
    using al by (auto simp: insert_allocations_def Let_def d2_def d1 split: if_splits)
  have "line_sum d' line = line_sum d line
      + group_sum item_line item_quantity (allocation_items cs created) line"
    by (simp add: line_sum_def d' d3 created_group_sum)
  also have "group_sum item_line item_quantity (allocation_items cs created) line
      = group_sum pa_order_line pa_quantity ?pas line"
    by (subst allocation_items_sum [where v = "v_id v"]) (simp_all add: created choose_stocks_all [OF cs])
  finally have sums: "line_sum d' line = line_sum d line + group_sum pa_order_line pa_quantity ?pas line" .
  have key: "map (\<lambda>s. (s_pk s, place s, s_quantity s)) (bulk_update s_pk (existing_deltas cs) ss)
      = map (\<lambda>s. (s_pk s, place s, s_quantity s)) ss" for ss
    by (rule bulk.upd_map)
      (auto simp: existing_deltas_def List.map_filter_def add_allocated_def place_def split: stock_choice.splits)
  have zero: "s_quantity s = 0" if "s \<in> set created" for s
  proof -
    have "\<forall>s \<in> set (number_from k (adding_stocks w cs)). s_quantity s = 0" for k w cs
      by (induction cs arbitrary: k)
        (auto simp: adding_stocks_def List.map_filter_simps split: stock_choice.splits)
    with that show ?thesis by (simp add: created)
  qed
  have "stock_table d' = stock_table d @ map (\<lambda>s. (s_pk s, place s, s_quantity s)) created"
    by (simp add: stock_table_def d' d3 key)
  moreover have "map (\<lambda>s. (s_pk s, place s, 0)) (drop (length (stocks d)) (stocks d'))
      = map (\<lambda>s. (s_pk s, place s, s_quantity s)) created"
  proof -
    have "map (\<lambda>s. (s_pk s, place s)) (drop (length (stocks d)) (stocks d')) = map (\<lambda>s. (s_pk s, place s)) created"
      using arg_cong [OF key [of "stocks d @ created"], of "\<lambda>xs. drop (length (stocks d)) (map (\<lambda>(k, p, q). (k, p)) xs)"]
      by (simp add: d' d3 drop_map o_def)
    from arg_cong [OF this, of "map (\<lambda>(k, p). (k, p, 0 :: int))"] zero
    show ?thesis by (simp add: o_def)
  qed
  ultimately show ?thesis using sums d'(1) d3(2) by simp
qed

section \<open>Runs on the example shop\<close>

definition ex_preorder_variant :: product_variant where
  "ex_preorder_variant = (ex_variant 1)\<lparr>v_is_preorder := True, v_preorder_global_threshold := Some 9\<rparr>"

definition ex_preorder_info :: "pk \<Rightarrow> int \<Rightarrow> order_line_info" where
  "ex_preorder_info k q = (ex_info k 1 q)\<lparr>li_variant := Some ex_preorder_variant\<rparr>"

definition ex_preorder_shop :: "stock list \<Rightarrow> preorder_allocation list \<Rightarrow> db" where
  "ex_preorder_shop ss pas = (ex_db ss [])\<lparr>product_variants := [ex_preorder_variant],
     channel_listings := [\<lparr>l_id = 1, l_variant = 1, l_channel = 1, l_preorder_quantity_threshold = Some 6\<rparr>],
     preorder_allocations := pas, preorder_allocation_seq := 5\<rparr>"

definition ex_preorder :: "pk \<Rightarrow> pk \<Rightarrow> int \<Rightarrow> preorder_allocation" where
  "ex_preorder k line q = \<lparr>pa_pk = k, pa_order_line = line, pa_quantity = q, pa_listing = 1\<rparr>"

lemma allocate_preorders_thresholds_witness:
  "\<exists>d'. allocate_preorders ex_env [ex_preorder_info 2 4] ''us'' False [] (ex_preorder_shop [] [ex_preorder 1 1 2]) = Inr d'
    \<and> preorder_line_sum d' 2 = 4 \<and> preordered d' 1 \<le> 6"
proof -
  let ?d = "ex_preorder_shop [] [ex_preorder 1 1 2]" and ?is = "[ex_preorder_info 2 4]"
  let ?d' = "projr (allocate_preorders ex_env ?is ''us'' False [] ?d)"
  have run: "allocate_preorders ex_env ?is ''us'' False [] ?d = Inr ?d'"
    by (rule not_isl_Inr) code_simp
  have "\<forall>a \<in> set (preorder_allocations ?d). 0 \<le> pa_quantity a"
    "\<forall>r \<in> set (preorder_reservations ?d). 0 \<le> pr_quantity_reserved r"
    "distinct (map l_id (channel_listings ?d))" by code_simp+
  note all = allocate_preorders_thresholds [OF run this, of 2]
  moreover have "distinct (map (\<lambda>li. map_option v_id (li_variant li)) (preorder_lines ex_env ?is))" by code_simp
  moreover have "preorder_line_sum ?d 2 + group_sum (\<lambda>li. ol_pk (li_line li)) li_quantity (preorder_lines ex_env ?is) 2 = 4"
    "preordered ?d 1 = 2"
    "channel_listings ?d = [\<lparr>l_id = 1, l_variant = 1, l_channel = 1, l_preorder_quantity_threshold = Some 6\<rparr>]"
    by code_simp+
  ultimately show ?thesis using run by auto
qed

lemma deactivate_preorder_conserves_witness:
  "\<exists>d'. deactivate_preorder_for_variant ex_env ex_preorder_variant
      (ex_preorder_shop [ex_stock 1 1 1 5 0] [ex_preorder 1 1 2]) = Inr d' \<and> line_sum d' 1 = 2"
proof -
  let ?d = "ex_preorder_shop [ex_stock 1 1 1 5 0] [ex_preorder 1 1 2]"
  let ?d' = "projr (deactivate_preorder_for_variant ex_env ex_preorder_variant ?d)"
  have run: "deactivate_preorder_for_variant ex_env ex_preorder_variant ?d = Inr ?d'"
    by (rule not_isl_Inr) code_simp
  have "v_is_preorder ex_preorder_variant" by code_simp
  note all = deactivate_preorder_conserves [OF run this, of 1]
  have "line_sum ?d 1 + group_sum pa_order_line pa_quantity
      (filter (\<lambda>pa. pa_listing pa \<in> set (listing_ids ?d ex_preorder_variant)) (preorder_allocations ?d)) 1 = 2"
    by code_simp
  with all run show ?thesis by auto
qed

text \<open>
  When two preorder allocations need a stock that is not there yet, the code creates one for
  each of them in the same warehouse; the second violates the unique pair of warehouse and
  variant, so the preorder cannot be ended.
\<close>

lemma deactivate_preorder_duplicate_stock:
  "(case deactivate_preorder_for_variant ex_env ex_preorder_variant
      (ex_preorder_shop [] [ex_preorder 1 1 2, ex_preorder 2 2 3]) of
    Inl err \<Rightarrow> err = Integrity_Error | Inr d \<Rightarrow> False)
   \<and> \<not> isl (deactivate_preorder_for_variant ex_env ex_preorder_variant
      (ex_preorder_shop [] [ex_preorder 1 1 2]))"
  by (intro conjI) code_simp+

end
