(* ===== verification/Warehouse_Reservations.thy ===== *)
theory Warehouse_Reservations
  imports Preorder_Allocation
begin

text \<open>
  \<open>saleor/warehouse/reservations.py\<close>: the reservations of a checkout on stocks and on preorder
  listings, with an expiry time.  As in \<open>Stock_Allocation\<close>, the functions run in one
  transaction: \<open>Inl\<close> is the exception that rolls everything back.
\<close>

section \<open>Settings\<close>

record reservation_settings =
  reserve_stock_duration_authenticated_user :: "int option"
  reserve_stock_duration_anonymous_user :: "int option"

definition truthy_int :: "int option \<Rightarrow> bool" where
  "truthy_int n \<longleftrightarrow> n \<noteq> None \<and> n \<noteq> Some 0"

definition is_reservation_enabled :: "reservation_settings \<Rightarrow> bool" where
  "is_reservation_enabled s \<longleftrightarrow>
     truthy_int (reserve_stock_duration_authenticated_user s)
     \<or> truthy_int (reserve_stock_duration_anonymous_user s)"

definition get_reservation_length :: "reservation_settings \<Rightarrow> bool \<Rightarrow> int option" where
  \<comment> \<open>The flag says whether there is a user.\<close>
  "get_reservation_length s user =
     (if user then reserve_stock_duration_authenticated_user s
      else reserve_stock_duration_anonymous_user s)"

section \<open>Stocks\<close>

fun get_checkout_lines_to_reserve ::
  "checkout_line list \<Rightarrow> (pk \<rightharpoonup> product_variant) \<Rightarrow> error + checkout_line list" where
  "get_checkout_lines_to_reserve [] variants_map = Inr []"
| "get_checkout_lines_to_reserve (l # ls) variants_map =
     (if cl_quantity l \<noteq> 0 \<and> v_id (cl_variant l) \<noteq> 0 then
        (case variants_map (v_id (cl_variant l)) of
           None \<Rightarrow> Inl Key_Error
         | Some v \<Rightarrow> (case get_checkout_lines_to_reserve ls variants_map of
               Inl err \<Rightarrow> Inl err
             | Inr ls' \<Rightarrow> Inr (if v_track_inventory v then l # ls' else ls')))
      else get_checkout_lines_to_reserve ls variants_map)"

type_synonym reservation_item = "pk \<times> pk \<times> int"   \<comment> \<open>(checkout line, stock, quantity)\<close>

fun create_stock_reservations_loop ::
  "(pk \<Rightarrow> int) \<Rightarrow> (pk \<Rightarrow> int) \<Rightarrow> pk \<Rightarrow> int \<Rightarrow> int \<Rightarrow> reservation_item list \<Rightarrow> stock_data list
   \<Rightarrow> (int \<times> reservation_item list) + reservation_item list" where
  "create_stock_reservations_loop alloc resv line quantity quantity_reserved items [] =
     Inl (quantity_reserved, items)"
| "create_stock_reservations_loop alloc resv line quantity quantity_reserved items (sd # sds) =
     (let quantity_available_in_stock =
            max (sd_quantity sd - alloc (sd_pk sd) - resv (sd_pk sd)) 0;
          quantity_to_reserve = min (quantity - quantity_reserved) quantity_available_in_stock
      in if 0 < quantity_to_reserve then
           (let items' = items @ [(line, sd_pk sd, quantity_to_reserve)];
                quantity_reserved' = quantity_reserved + quantity_to_reserve
            in if quantity_reserved' = quantity then Inr items'
               else create_stock_reservations_loop alloc resv line quantity quantity_reserved' items' sds)
         else create_stock_reservations_loop alloc resv line quantity quantity_reserved items sds)"

definition create_stock_reservations ::
  "checkout_line \<Rightarrow> product_variant \<Rightarrow> stock_data list \<Rightarrow> (pk \<Rightarrow> int) \<Rightarrow> (pk \<Rightarrow> int)
   \<Rightarrow> insufficient_stock_data list \<Rightarrow> insufficient_stock_data list \<times> reservation_item list" where
  "create_stock_reservations line variant sds alloc resv insufficient_stocks =
     (case create_stock_reservations_loop alloc resv (cl_pk line) (cl_quantity line) 0 [] sds of
        Inr items \<Rightarrow> (insufficient_stocks, items)
      | Inl (quantity_reserved, items) \<Rightarrow>
          (if quantity_reserved \<noteq> cl_quantity line then
             (insufficient_stocks @ [\<lparr>i_available_quantity = cl_quantity line,
                i_variant = Some (v_id variant), i_order_line = None, i_warehouse_pk = None\<rparr>], [])
           else ([], [])))"

fun reserve_lines ::
  "checkout_line list \<Rightarrow> (pk \<rightharpoonup> product_variant) \<Rightarrow> stock list \<Rightarrow> (pk \<Rightarrow> int) \<Rightarrow> (pk \<Rightarrow> int)
   \<Rightarrow> insufficient_stock_data list \<Rightarrow> reservation_item list
   \<Rightarrow> error + (insufficient_stock_data list \<times> reservation_item list)" where
  "reserve_lines [] variants_map ss alloc resv insufficient items = Inr (insufficient, items)"
| "reserve_lines (l # ls) variants_map ss alloc resv insufficient items =
     (case variants_map (v_id (cl_variant l)) of
        None \<Rightarrow> Inl Key_Error
      | Some v \<Rightarrow>
          (let stock_reservations = map (\<lambda>s. \<lparr>sd_pk = s_pk s, sd_quantity = s_quantity s\<rparr>)
                 (filter (\<lambda>s. s_variant s = v_id (cl_variant l)) ss);
               (insufficient', items') =
                 create_stock_reservations l v stock_reservations alloc resv insufficient
           in reserve_lines ls variants_map ss alloc resv insufficient' (items @ items')))"

definition variants_map_of :: "product_variant list \<Rightarrow> (pk \<rightharpoonup> product_variant)" where
  "variants_map_of vs = map_of (map (\<lambda>v. (v_id v, v)) (rev vs))"

definition new_reservation :: "time \<Rightarrow> reservation_item \<Rightarrow> pk \<Rightarrow> reservation" where
  "new_reservation until it k = (case it of (line, sk, q) \<Rightarrow>
     \<lparr>r_pk = k, r_checkout_line = line, r_stock = sk, r_quantity_reserved = q,
      r_reserved_until = until\<rparr>)"

definition reserve_stocks ::
  "env \<Rightarrow> checkout_line list \<Rightarrow> product_variant list \<Rightarrow> string \<Rightarrow> channel \<Rightarrow> time \<Rightarrow> bool \<Rightarrow> db
   \<Rightarrow> error + db" where
  "reserve_stocks e checkout_lines variants country_code ch reserved_until replace d =
     (let variants_ids = map (\<lambda>l. v_id (cl_variant l)) checkout_lines;
          variants = filter (\<lambda>v. v_id v \<in> set variants_ids) variants;
          variants_map = variants_map_of variants
      in case get_checkout_lines_to_reserve checkout_lines variants_map of
           Inl err \<Rightarrow> Inl err
         | Inr checkout_lines \<Rightarrow>
             (if checkout_lines = [] then Inr d
              else
                let ss = sort_key s_pk (get_variants_stocks_for_country d (Some country_code)
                           (ch_slug ch) (map v_id variants));
                    stocks_id = map s_pk ss;
                    alloc = group_sum a_stock a_quantity_allocated
                      (filter (\<lambda>a. a_stock a \<in> set stocks_id \<and> 0 < a_quantity_allocated a) (allocations d));
                    resv = group_sum r_stock r_quantity_reserved
                      (exclude_checkout_lines checkout_lines (not_expired e
                        (filter (\<lambda>r. r_stock r \<in> set stocks_id \<and> 0 < r_quantity_reserved r) (reservations d))))
                in case sort_stocks d (ch_allocation_strategy ch) ss (ch_id ch) alloc None of
                     Inl err \<Rightarrow> Inl err
                   | Inr ss' \<Rightarrow>
                       (case reserve_lines checkout_lines variants_map ss' alloc resv [] [] of
                          Inl err \<Rightarrow> Inl err
                        | Inr (insufficient, items) \<Rightarrow>
                            (if insufficient \<noteq> [] then Inl (Insufficient_Stock insufficient)
                             else if items = [] then Inr d
                             else
                               let d1 = (if replace then d\<lparr>reservations :=
                                       filter (\<lambda>r. r_checkout_line r \<notin> cl_pk ` set checkout_lines) (reservations d)\<rparr>
                                     else d)
                               in (case insert_reservations (map (new_reservation reserved_until) items) d1 of
                                     Inl err \<Rightarrow> Inl err | Inr (_, d2) \<Rightarrow> Inr d2)))))"

section \<open>Preorders\<close>

definition get_listings_reservations ::
  "env \<Rightarrow> db \<Rightarrow> checkout_line list \<Rightarrow> channel_listing list \<Rightarrow> pk \<Rightarrow> int" where
  "get_listings_reservations e d checkout_lines listings =
     group_sum pr_listing pr_quantity_reserved
       (preorder_exclude_checkout_lines checkout_lines (preorder_not_expired e
         (filter (\<lambda>r. pr_listing r \<in> l_id ` set listings \<and> 0 < pr_quantity_reserved r)
           (preorder_reservations d))))"

definition preorder_quantity_allocated :: "db \<Rightarrow> channel_listing \<Rightarrow> int" where
  "preorder_quantity_allocated d l = group_sum pa_listing pa_quantity (preorder_allocations d) (l_id l)"

definition available_preorder_quantity :: "db \<Rightarrow> channel_listing \<Rightarrow> int option" where
  "available_preorder_quantity d l =
     map_option (\<lambda>t. t - preorder_quantity_allocated d l) (l_preorder_quantity_threshold l)"

definition create_preorder_reservation ::
  "db \<Rightarrow> checkout_line \<Rightarrow> product_variant \<Rightarrow> channel_listing \<Rightarrow> channel_listing list \<Rightarrow> int \<Rightarrow> (pk \<Rightarrow> int)
   \<Rightarrow> insufficient_stock_data list \<Rightarrow> insufficient_stock_data list \<times> (pk \<times> pk \<times> int) option" where
  "create_preorder_reservation d line variant listing all_listings global_allocations
       listings_reservations insufficient_stocks =
     (let report = (\<lambda>n. \<lparr>i_available_quantity = n, i_variant = Some (v_id variant),
                     i_order_line = None, i_warehouse_pk = None\<rparr>);
          channel_part = (case available_preorder_quantity d listing of None \<Rightarrow> []
             | Some avail \<Rightarrow>
                 (let available_channel_quantity = max (avail - listings_reservations (l_id listing)) 0
                  in if available_channel_quantity < cl_quantity line
                     then [report available_channel_quantity] else []));
          global_part = (if \<not> truthy_int (v_preorder_global_threshold variant) then []
             else
               (let global_reservations = sum_list (map (\<lambda>l. listings_reservations (l_id l)) all_listings);
                    available_global_quantity =
                      max (the (v_preorder_global_threshold variant) - global_allocations
                           - global_reservations) 0
                in if available_global_quantity < cl_quantity line
                   then [report available_global_quantity] else []))
      in (insufficient_stocks @ channel_part @ global_part,
          if truthy_int (l_preorder_quantity_threshold listing)
             \<or> truthy_int (v_preorder_global_threshold variant)
          then Some (cl_pk line, l_id listing, cl_quantity line) else None))"

fun preorder_lines_to_reserve ::
  "checkout_line list \<Rightarrow> (pk \<rightharpoonup> channel_listing) \<Rightarrow> error + checkout_line list" where
  "preorder_lines_to_reserve [] listing_of = Inr []"
| "preorder_lines_to_reserve (l # ls) listing_of =
     (case listing_of (v_id (cl_variant l)) of
        None \<Rightarrow> Inl Key_Error
      | Some listing \<Rightarrow> (case preorder_lines_to_reserve ls listing_of of
            Inl err \<Rightarrow> Inl err
          | Inr ls' \<Rightarrow>
              Inr (if truthy_int (v_preorder_global_threshold (cl_variant l))
                      \<or> l_preorder_quantity_threshold listing \<noteq> None then l # ls' else ls')))"

fun reserve_preorder_lines ::
  "db \<Rightarrow> checkout_line list \<Rightarrow> (pk \<rightharpoonup> product_variant) \<Rightarrow> (pk \<rightharpoonup> channel_listing)
   \<Rightarrow> channel_listing list \<Rightarrow> (pk \<Rightarrow> int) \<Rightarrow> insufficient_stock_data list \<Rightarrow> (pk \<times> pk \<times> int) option
   \<Rightarrow> (pk \<times> pk \<times> int) list
   \<Rightarrow> error + (insufficient_stock_data list \<times> (pk \<times> pk \<times> int) option \<times> (pk \<times> pk \<times> int) list)" where
  \<comment> \<open>The option is the loop's variable \<open>reservation\<close>, which the code reads after the loop.\<close>
  "reserve_preorder_lines d [] variants_map listing_of all_listings resv insufficient last_one items =
     Inr (insufficient, last_one, items)"
| "reserve_preorder_lines d (l # ls) variants_map listing_of all_listings resv insufficient last_one items =
     (case (variants_map (v_id (cl_variant l)), listing_of (v_id (cl_variant l))) of
        (Some v, Some listing) \<Rightarrow>
          (let own = filter (\<lambda>l'. l_variant l' = v_id (cl_variant l)) all_listings;
               (insufficient', reservation) = create_preorder_reservation d l v listing own
                  (sum_list (map (preorder_quantity_allocated d) own)) resv insufficient
           in reserve_preorder_lines d ls variants_map listing_of all_listings resv insufficient'
                reservation (case reservation of None \<Rightarrow> items | Some i \<Rightarrow> items @ [i]))
      | _ \<Rightarrow> Inl Key_Error)"

definition new_preorder_reservation :: "time \<Rightarrow> pk \<times> pk \<times> int \<Rightarrow> pk \<Rightarrow> preorder_reservation" where
  "new_preorder_reservation until it k = (case it of (line, l, q) \<Rightarrow>
     \<lparr>pr_pk = k, pr_checkout_line = line, pr_listing = l, pr_quantity_reserved = q,
      pr_reserved_until = until\<rparr>)"

definition reserve_preorders ::
  "env \<Rightarrow> checkout_line list \<Rightarrow> product_variant list \<Rightarrow> string \<Rightarrow> time \<Rightarrow> bool \<Rightarrow> db \<Rightarrow> error + db" where
  "reserve_preorders e checkout_lines variants channel_slug reserved_until replace d =
     (let variants_ids = map (\<lambda>l. v_id (cl_variant l)) checkout_lines;
          variants = filter (\<lambda>v. v_id v \<in> set variants_ids) variants;
          variants_map = variants_map_of variants;
          all_listings = listings_of_variants d (map v_id variants);
          listing_of = map_of (map (\<lambda>l. (l_variant l, l))
                         (rev (filter (listing_in_channel d channel_slug) all_listings)))
      in case preorder_lines_to_reserve checkout_lines listing_of of
           Inl err \<Rightarrow> Inl err
         | Inr to_reserve \<Rightarrow>
             (if to_reserve = [] then Inr d
              else
                let resv = get_listings_reservations e d checkout_lines all_listings
                in case reserve_preorder_lines d to_reserve variants_map listing_of all_listings
                          resv [] None [] of
                     Inl err \<Rightarrow> Inl err
                   | Inr (insufficient, last_one, items) \<Rightarrow>
                       (if insufficient \<noteq> [] then Inl (Insufficient_Stock insufficient)
                        else if last_one = None then Inr d
                        else
                          let d1 = (if replace then d\<lparr>preorder_reservations :=
                                  filter (\<lambda>r. pr_checkout_line r \<notin> cl_pk ` set to_reserve)
                                    (preorder_reservations d)\<rparr> else d)
                          in (case insert_preorder_reservations
                                     (map (new_preorder_reservation reserved_until) items) d1 of
                                Inl err \<Rightarrow> Inl err | Inr (_, d2) \<Rightarrow> Inr d2))))"

section \<open>Both kinds\<close>

definition touch_reservations :: "checkout_line list \<Rightarrow> time \<Rightarrow> db \<Rightarrow> db" where
  "touch_reservations ls until d = (if ls = [] then d
     else d\<lparr>reservations := map (\<lambda>r. if r_checkout_line r \<in> cl_pk ` set ls
            then r\<lparr>r_reserved_until := until\<rparr> else r) (reservations d)\<rparr>)"

definition touch_preorder_reservations :: "checkout_line list \<Rightarrow> time \<Rightarrow> db \<Rightarrow> db" where
  "touch_preorder_reservations ls until d = (if ls = [] then d
     else d\<lparr>preorder_reservations := map (\<lambda>r. if pr_checkout_line r \<in> cl_pk ` set ls
            then r\<lparr>pr_reserved_until := until\<rparr> else r) (preorder_reservations d)\<rparr>)"

definition reserve_stocks_and_preorders ::
  "env \<Rightarrow> checkout_line list \<Rightarrow> checkout_line list \<Rightarrow> product_variant list \<Rightarrow> string \<Rightarrow> channel
   \<Rightarrow> int \<Rightarrow> bool \<Rightarrow> db \<Rightarrow> error + db" where
  "reserve_stocks_and_preorders e checkout_lines lines_to_update_reservation_time variants
       country_code ch length_in_minutes replace d =
     (let preorder_variants = filter (is_preorder_active e) variants;
          stock_variants = filter (\<lambda>v. \<not> is_preorder_active e v) variants;
          preorder_lines = filter (\<lambda>l. is_preorder_active e (cl_variant l)) checkout_lines;
          stock_lines = filter (\<lambda>l. \<not> is_preorder_active e (cl_variant l)) checkout_lines;
          reserved_until = now e + length_in_minutes * 60000000;
          stocked = (if stock_lines = [] then Inr d
             else case reserve_stocks e stock_lines stock_variants country_code ch
                         reserved_until replace d of
                    Inl err \<Rightarrow> Inl err
                  | Inr d1 \<Rightarrow> Inr (touch_reservations lines_to_update_reservation_time reserved_until d1))
      in case stocked of
           Inl err \<Rightarrow> Inl err
         | Inr d2 \<Rightarrow>
             (if preorder_lines = [] then Inr d2
              else case reserve_preorders e preorder_lines preorder_variants (ch_slug ch)
                          reserved_until replace d2 of
                     Inl err \<Rightarrow> Inl err
                   | Inr d3 \<Rightarrow> Inr (touch_preorder_reservations lines_to_update_reservation_time
                                    reserved_until d3)))"

section \<open>The loop of one checkout line\<close>

text \<open>
  Reserving and allocating use the same greedy loop: clamping the availability of a stock at 0,
  which \<open>_create_stock_reservations\<close> does and \<open>_create_allocations\<close> does not, changes nothing.
\<close>

lemma reservation_loop_equiv:
  "create_stock_reservations_loop alloc resv line q n items sds =
   create_allocations_loop alloc resv line q n items sds"
  by (induction sds arbitrary: n items) (auto simp: Let_def min_def max_def)

definition as_info :: "checkout_line \<Rightarrow> order_line_info" where
  "as_info l = \<lparr>li_line = \<lparr>ol_pk = cl_pk l, ol_order = ex_order, ol_variant = None\<rparr>,
     li_quantity = cl_quantity l, li_variant = Some (cl_variant l), li_warehouse_pk = None\<rparr>"

lemma as_info_simps [simp]:
  "ol_pk (li_line (as_info l)) = cl_pk l" "li_quantity (as_info l) = cl_quantity l"
  "li_variant (as_info l) = Some (cl_variant l)"
  by (simp_all add: as_info_def)

abbreviation reserved_as :: "(pk \<Rightarrow> int) \<Rightarrow> (pk \<Rightarrow> int) \<Rightarrow> stock list \<Rightarrow> order_line_info \<Rightarrow> reservation_item list \<Rightarrow> bool" where
  "reserved_as alloc resv ss li its \<equiv>
     create_allocations_loop alloc resv (ol_pk (li_line li)) (li_quantity li) 0 [] (line_stocks ss li) = Inr its"

lemma reserve_lines_grows:
  assumes "\<forall>l \<in> set ls. cl_quantity l \<noteq> 0"
    and "reserve_lines ls vm ss alloc resv ins acc = Inr (ins', items)"
  shows "\<exists>xs. ins' = ins @ xs"
  using assms
proof (induction ls arbitrary: ins acc)
  case (Cons l ls)
  from Cons.prems(2) obtain v where v: "vm (v_id (cl_variant l)) = Some v" by (auto split: option.splits)
  define c where "c = create_stock_reservations l v (line_stocks ss (as_info l)) alloc resv ins"
  have step: "reserve_lines ls vm ss alloc resv (fst c) (acc @ snd c) = Inr (ins', items)"
    using Cons.prems(2) v by (simp add: c_def Let_def split: prod.splits)
  have "\<exists>xs. fst c = ins @ xs"
  proof (cases "create_stock_reservations_loop alloc resv (cl_pk l) (cl_quantity l) 0 [] (line_stocks ss (as_info l))")
    case (Inl p)
    obtain n its where p: "p = (n, its)" by (cases p)
    have "n \<noteq> cl_quantity l"
      using alloc_loop.run_end_short [of alloc resv "cl_pk l" "cl_quantity l" 0 "[]" _ n its]
        alloc_loop.run_nothing [of "cl_quantity l" 0 alloc resv "cl_pk l" "[]" "line_stocks ss (as_info l)"]
        Inl p Cons.prems(1)
      by (cases "0 < cl_quantity l") (auto simp: reservation_loop_equiv)
    with Inl p show ?thesis by (simp add: c_def create_stock_reservations_def)
  next
    case (Inr its)
    then show ?thesis by (simp add: c_def create_stock_reservations_def)
  qed
  moreover from Cons.IH [OF _ step] Cons.prems(1) have "\<exists>ys. ins' = fst c @ ys" by simp
  ultimately show ?case by auto
qed simp

lemma reserve_lines_split:
  assumes "\<forall>l \<in> set ls. cl_quantity l \<noteq> 0"
    and "reserve_lines ls vm ss alloc resv [] acc = Inr ([], items)"
  shows "\<exists>itss. items = acc @ concat itss \<and> list_all2 (reserved_as alloc resv ss) (map as_info ls) itss"
  using assms
proof (induction ls arbitrary: acc)
  case (Cons l ls)
  from Cons.prems(2) obtain v where v: "vm (v_id (cl_variant l)) = Some v" by (auto split: option.splits)
  define c where "c = create_stock_reservations l v (line_stocks ss (as_info l)) alloc resv []"
  have step: "reserve_lines ls vm ss alloc resv (fst c) (acc @ snd c) = Inr ([], items)"
    using Cons.prems(2) v by (simp add: c_def Let_def split: prod.splits)
  have none: "fst c = []"
    using reserve_lines_grows [OF _ step] Cons.prems(1) by auto
  have run: "reserved_as alloc resv ss (as_info l) (snd c)"
  proof (cases "create_stock_reservations_loop alloc resv (cl_pk l) (cl_quantity l) 0 [] (line_stocks ss (as_info l))")
    case (Inl p)
    obtain n its where p: "p = (n, its)" by (cases p)
    have "n \<noteq> cl_quantity l"
      using alloc_loop.run_end_short [of alloc resv "cl_pk l" "cl_quantity l" 0 "[]" _ n its]
        alloc_loop.run_nothing [of "cl_quantity l" 0 alloc resv "cl_pk l" "[]" "line_stocks ss (as_info l)"]
        Inl p Cons.prems(1)
      by (cases "0 < cl_quantity l") (auto simp: reservation_loop_equiv)
    with Inl p none show ?thesis by (simp add: c_def create_stock_reservations_def)
  next
    case (Inr its)
    then show ?thesis by (simp add: c_def create_stock_reservations_def reservation_loop_equiv)
  qed
  from Cons.IH [OF _ step [unfolded none]] Cons.prems(1) obtain itss where
    "items = (acc @ snd c) @ concat itss" "list_all2 (reserved_as alloc resv ss) (map as_info ls) itss" by auto
  with run show ?case by (intro exI [of _ "snd c # itss"]) simp
qed simp

lemma lines_to_reserve:
  "get_checkout_lines_to_reserve ls vm = Inr ls' \<Longrightarrow>
   ls' = filter (\<lambda>l. cl_quantity l \<noteq> 0 \<and> v_id (cl_variant l) \<noteq> 0
     \<and> (case vm (v_id (cl_variant l)) of None \<Rightarrow> False | Some v \<Rightarrow> v_track_inventory v)) ls"
  by (induction ls arbitrary: ls') (auto split: if_splits option.splits sum.splits)

text \<open>The checkout lines that \<open>reserve_stocks\<close> reserves for.\<close>

definition reserved_lines :: "checkout_line list \<Rightarrow> product_variant list \<Rightarrow> checkout_line list" where
  "reserved_lines ls variants = filter (\<lambda>l. cl_quantity l \<noteq> 0 \<and> v_id (cl_variant l) \<noteq> 0 \<and>
     (case variants_map_of (filter (\<lambda>v. v_id v \<in> set (map (\<lambda>l. v_id (cl_variant l)) ls)) variants)
            (v_id (cl_variant l)) of None \<Rightarrow> False | Some v \<Rightarrow> v_track_inventory v)) ls"

definition active_reserved :: "env \<Rightarrow> db \<Rightarrow> checkout_line list \<Rightarrow> pk \<Rightarrow> int" where
  \<comment> \<open>What is reserved of a stock by checkout lines other than the given ones.\<close>
  "active_reserved e d ls sk = group_sum r_stock r_quantity_reserved
     (filter (\<lambda>r. now e < r_reserved_until r \<and> r_checkout_line r \<notin> cl_pk ` set ls) (reservations d)) sk"

definition checkout_sum :: "db \<Rightarrow> pk \<Rightarrow> int" where
  "checkout_sum d line = group_sum r_checkout_line r_quantity_reserved (reservations d) line"

lemma created_reservations:
  "group_sum r_checkout_line r_quantity_reserved (number_from k (map (new_reservation u) its)) x
     = group_sum item_line item_quantity its x"
  "group_sum r_stock r_quantity_reserved (filter (\<lambda>r. now e < r_reserved_until r)
     (number_from k (map (new_reservation u) its))) x
     = (if now e < u then group_sum item_stock item_quantity its x else 0)"
  by (induction its arbitrary: k) (auto simp: new_reservation_def split: prod.splits)

lemma country_stocks_in:
  "set (get_variants_stocks_for_country d c slug vs) \<subseteq> set (stocks d)"
  "distinct (map s_pk (stocks d)) \<Longrightarrow> distinct (map s_pk (get_variants_stocks_for_country d c slug vs))"
  using base_stocks_subset(2) [of d slug c False] base_stocks_distinct(2) [of d slug c False]
  by (auto simp: get_variants_stocks_for_country_def distinct_map_filter)

lemma reserve_stocks_Inr:
  assumes run: "reserve_stocks e cls variants country ch until replace d = Inr d'"
    and nn: "\<forall>a \<in> set (allocations d). 0 \<le> a_quantity_allocated a"
      "\<forall>r \<in> set (reservations d). 0 \<le> r_quantity_reserved r"
    and dist: "distinct (map s_pk (stocks d))"
  obtains ss alloc resv itss where
    "list_all2 (reserved_as alloc resv ss) (map as_info (reserved_lines cls variants)) itss"
    "set ss \<subseteq> set (stocks d)" "distinct (map s_pk ss)"
    "\<And>s. s \<in> set ss \<Longrightarrow> alloc (s_pk s) = allocated_sum d (s_pk s)"
    "\<And>s. s \<in> set ss \<Longrightarrow> resv (s_pk s) = active_reserved e d (reserved_lines cls variants) (s_pk s)"
    "if concat itss = [] then d' = d else
       allocations d' = allocations d \<and> reservations d' =
       (if replace then filter (\<lambda>r. r_checkout_line r \<notin> cl_pk ` set (reserved_lines cls variants)) (reservations d)
        else reservations d) @ number_from (reservation_seq d) (map (new_reservation until) (concat itss))"
proof -
  let ?ls = "reserved_lines cls variants"
  define vs where "vs = filter (\<lambda>v. v_id v \<in> set (map (\<lambda>l. v_id (cl_variant l)) cls)) variants"
  define vm where "vm = variants_map_of vs"
  from run obtain ls where ls: "get_checkout_lines_to_reserve cls vm = Inr ls"
    unfolding reserve_stocks_def Let_def vs_def [symmetric] vm_def [symmetric] by (auto split: sum.splits)
  then have ls_eq: "ls = ?ls" using lines_to_reserve [OF ls] by (simp add: reserved_lines_def vm_def vs_def)
  show thesis
  proof (cases "?ls = []")
    case True
    have "d' = d"
      using run ls True unfolding reserve_stocks_def Let_def vs_def [symmetric] vm_def [symmetric] ls_eq by auto
    with that [of _ _ "[]" "[]"] True show thesis by simp
  next
    case False
    define ss where "ss = sort_key s_pk (get_variants_stocks_for_country d (Some country) (ch_slug ch) (map v_id vs))"
    define alloc where "alloc = group_sum a_stock a_quantity_allocated
        (filter (\<lambda>a. a_stock a \<in> set (map s_pk ss) \<and> 0 < a_quantity_allocated a) (allocations d))"
    define resv where "resv = group_sum r_stock r_quantity_reserved
        (exclude_checkout_lines ?ls (not_expired e
          (filter (\<lambda>r. r_stock r \<in> set (map s_pk ss) \<and> 0 < r_quantity_reserved r) (reservations d))))"
    note run' = run [unfolded reserve_stocks_def Let_def, folded vs_def, folded vm_def,
        unfolded ls sum.case ls_eq, folded ss_def, folded alloc_def, folded resv_def]
    from run' False obtain ss' items where
      sorted: "sort_stocks d (ch_allocation_strategy ch) ss (ch_id ch) alloc None = Inr ss'" and
      lines: "reserve_lines ?ls vm ss' alloc resv [] [] = Inr ([], items)" and
      save: "if items = [] then d' = d else \<exists>new. insert_reservations (map (new_reservation until) items)
         (if replace then d\<lparr>reservations := filter (\<lambda>r. r_checkout_line r \<notin> cl_pk ` set ?ls) (reservations d)\<rparr> else d)
         = Inr (new, d')"
      by (auto split: sum.splits if_splits)
    have "\<forall>l \<in> set ?ls. cl_quantity l \<noteq> 0" by (simp add: reserved_lines_def)
    from reserve_lines_split [OF this lines] obtain itss where its: "items = concat itss"
      "list_all2 (reserved_as alloc resv ss') (map as_info ?ls) itss" by auto
    note facts = sort_stocks_facts [OF sorted]
    have "set ss' \<subseteq> set (stocks d)" using facts(1) country_stocks_in(1) by (simp add: ss_def)
    moreover have "distinct (map s_pk ss')"
      using facts(2) country_stocks_in(2) [OF dist] by (simp add: ss_def distinct_map_mset [OF mset_sort])
    moreover have "alloc (s_pk s) = allocated_sum d (s_pk s)" if "s \<in> set ss'" for s
    proof -
      have "alloc (s_pk s) = group_sum a_stock a_quantity_allocated
          (filter (\<lambda>a. 0 < a_quantity_allocated a) (allocations d)) (s_pk s)"
        using that facts(1) by (auto simp: alloc_def group_sum_def intro!: arg_cong [where f = "sum_of _"] filter_cong)
      then show ?thesis using nn(1) by (simp add: allocated_sum_def group_sum_filter_pos)
    qed
    moreover have "resv (s_pk s) = active_reserved e d ?ls (s_pk s)" if "s \<in> set ss'" for s
    proof -
      let ?act = "filter (\<lambda>r. now e < r_reserved_until r \<and> r_checkout_line r \<notin> cl_pk ` set ?ls) (reservations d)"
      have "resv (s_pk s) = group_sum r_stock r_quantity_reserved
          (filter (\<lambda>r. 0 < r_quantity_reserved r) ?act) (s_pk s)"
        using that facts(1) False
        by (auto simp: resv_def exclude_checkout_lines_def not_expired_def group_sum_def
            intro!: arg_cong [where f = "sum_of _"] filter_cong)
      also have "\<dots> = group_sum r_stock r_quantity_reserved ?act (s_pk s)"
        by (rule group_sum_filter_pos) (use nn(2) in simp)
      finally show ?thesis by (simp only: active_reserved_def)
    qed
    moreover have "if concat itss = [] then d' = d else
       allocations d' = allocations d \<and> reservations d' =
       (if replace then filter (\<lambda>r. r_checkout_line r \<notin> cl_pk ` set ?ls) (reservations d)
        else reservations d) @ number_from (reservation_seq d) (map (new_reservation until) (concat itss))"
      using save unfolding its(1)
      by (cases "concat itss = []") (simp_all only: if_True if_False,
          auto simp: insert_reservations_def Let_def split: if_splits)
    ultimately show thesis using that [OF its(2)] by blast
  qed
qed

text \<open>
  C10: a successful \<open>reserve_stocks\<close> with \<open>replace\<close> leaves each line that it reserves for (tracked, with a
  quantity) with reservations of exactly its quantity, and the lines it does not touch as they were.
\<close>

theorem reserve_stocks_exact:
  assumes run: "reserve_stocks e cls variants country ch until True d = Inr d'"
    and nn: "\<forall>a \<in> set (allocations d). 0 \<le> a_quantity_allocated a"
      "\<forall>r \<in> set (reservations d). 0 \<le> r_quantity_reserved r"
    and dist: "distinct (map s_pk (stocks d))"
    and some: "\<forall>l \<in> set cls. 0 \<le> cl_quantity l"
  shows "checkout_sum d' line =
    (if line \<in> cl_pk ` set (reserved_lines cls variants)
     then group_sum cl_pk cl_quantity (reserved_lines cls variants) line else checkout_sum d line)"
proof (rule reserve_stocks_Inr [OF run nn dist])
  let ?ls = "reserved_lines cls variants"
  fix ss alloc resv itss
  assume its: "list_all2 (reserved_as alloc resv ss) (map as_info ?ls) itss"
    and d': "if concat itss = [] then d' = d else
       allocations d' = allocations d \<and> reservations d' =
       (if True then filter (\<lambda>r. r_checkout_line r \<notin> cl_pk ` set ?ls) (reservations d)
        else reservations d) @ number_from (reservation_seq d) (map (new_reservation until) (concat itss))"
  have "group_sum (\<lambda>li. ol_pk (li_line li)) li_quantity (map as_info xs) line = group_sum cl_pk cl_quantity xs line" for xs
    by (induction xs) auto
  with lines_total [OF its, of line]
  have total: "group_sum item_line item_quantity (concat itss) line = group_sum cl_pk cl_quantity ?ls line" by simp
  show ?thesis
  proof (cases "concat itss = []")
    case False
    with d' have rows: "reservations d' = filter (\<lambda>r. r_checkout_line r \<notin> cl_pk ` set ?ls) (reservations d)
        @ number_from (reservation_seq d) (map (new_reservation until) (concat itss))" by (simp only: if_True if_False)
    have "checkout_sum d' line = (if line \<in> cl_pk ` set ?ls then 0 else checkout_sum d line)
        + group_sum cl_pk cl_quantity ?ls line"
      using group_sum_filter_key [of "\<lambda>r. r_checkout_line r \<notin> cl_pk ` set ?ls" r_checkout_line
          "- (cl_pk ` set ?ls)" r_quantity_reserved "reservations d" line]
      by (simp add: checkout_sum_def rows created_reservations total)
    then show ?thesis by (simp add: group_sum_absent)
  next
    case True
    have "?ls = []"
    proof (rule ccontr)
      assume "?ls \<noteq> []"
      then obtain l where l: "l \<in> set ?ls" by fastforce
      then have "cl_quantity l > 0" using some by (force simp: reserved_lines_def)
      moreover have "as_info l \<in> set (map as_info ?ls)" using l by simp
      from list_all2_in_left [OF its this] obtain it where
        it: "it \<in> set itss" "reserved_as alloc resv ss (as_info l) it" by blast
      moreover have "it = []" using True it(1) by auto
      ultimately show False using create_allocations_line(1) [OF it(2)] by simp
    qed
    moreover have "d' = d" using d' True by (simp only: if_True)
    ultimately show ?thesis by simp
  qed
qed

text \<open>
  C9: reserving never promises more of a stock than it holds: when each line has a variant of its own, after
  \<open>reserve_stocks\<close> with \<open>replace\<close> the allocations and the live reservations of every stock
  add up to at most its quantity, unless they already did not before.
\<close>

theorem reserve_stocks_no_oversell:
  assumes run: "reserve_stocks e cls variants country ch until True d = Inr d'"
    and nn: "\<forall>a \<in> set (allocations d). 0 \<le> a_quantity_allocated a"
      "\<forall>r \<in> set (reservations d). 0 \<le> r_quantity_reserved r"
    and dist: "distinct (map s_pk (stocks d))"
    and own: "distinct (map (\<lambda>l. v_id (cl_variant l)) (reserved_lines cls variants))"
    and s: "s \<in> set (stocks d)"
  shows "allocated_sum d' (s_pk s) + reserved_quantity e d' s
    \<le> max (allocated_sum d (s_pk s) + reserved_quantity e d s) (s_quantity s)"
proof (rule reserve_stocks_Inr [OF run nn dist])
  let ?ls = "reserved_lines cls variants"
  fix ss alloc resv itss
  assume its: "list_all2 (reserved_as alloc resv ss) (map as_info ?ls) itss"
    and ss: "set ss \<subseteq> set (stocks d)" "distinct (map s_pk ss)"
    and alloc: "\<And>s. s \<in> set ss \<Longrightarrow> alloc (s_pk s) = allocated_sum d (s_pk s)"
    and resv: "\<And>s. s \<in> set ss \<Longrightarrow> resv (s_pk s) = active_reserved e d ?ls (s_pk s)"
    and d': "if concat itss = [] then d' = d else
       allocations d' = allocations d \<and> reservations d' =
       (if True then filter (\<lambda>r. r_checkout_line r \<notin> cl_pk ` set ?ls) (reservations d)
        else reservations d) @ number_from (reservation_seq d) (map (new_reservation until) (concat itss))"
  have fewer: "active_reserved e d ?ls (s_pk s) \<le> reserved_quantity e d s"
    unfolding active_reserved_def reserved_quantity_def
    by (rule group_sum_filter_mono) (use nn(2) in auto)
  show ?thesis
  proof (cases "concat itss = []")
    case True
    with d' show ?thesis by (simp only: if_True)
  next
    case False
    with d' have rows: "allocations d' = allocations d"
      "reservations d' = filter (\<lambda>r. r_checkout_line r \<notin> cl_pk ` set ?ls) (reservations d)
        @ number_from (reservation_seq d) (map (new_reservation until) (concat itss))"
      by (simp_all only: if_True if_False)
    let ?t = "group_sum item_stock item_quantity (concat itss) (s_pk s)"
    have key: "distinct (map (\<lambda>li. map_option v_id (li_variant li)) (map as_info ?ls))"
      using own by (simp add: distinct_map inj_on_def)
    have "reserved_quantity e d' s = active_reserved e d ?ls (s_pk s) + (if now e < until then ?t else 0)"
      unfolding reserved_quantity_def active_reserved_def rows filter_append group_sum_simps
        created_reservations(2) by (simp add: conj_commute)
    moreover have "0 \<le> ?t"
      using lines_item_variant [OF ss(2) its] by (intro group_sum_nonneg) force
    moreover have "?t \<le> max 0 (s_quantity s - allocated_sum d (s_pk s) - active_reserved e d ?ls (s_pk s))"
    proof (cases "s \<in> set ss")
      case True
      from lines_capacity [OF ss(2) True its key] show ?thesis
        by (auto simp: alloc [OF True] resv [OF True] split: if_splits)
    next
      case False
      have "s_pk s \<notin> item_stock ` set (concat itss)"
        using lines_item_variant [OF ss(2) its] ss(1) dist s False by (fastforce simp: distinct_map dest: inj_onD)
      then show ?thesis by (simp add: group_sum_absent)
    qed
    ultimately show ?thesis using fewer by (auto simp: allocated_sum_def rows(1))
  qed
qed

section \<open>Runs on the example shop\<close>

definition ex_checkout_line :: "pk \<Rightarrow> pk \<Rightarrow> int \<Rightarrow> checkout_line" where
  "ex_checkout_line k v q = \<lparr>cl_pk = k, cl_variant = ex_variant v, cl_quantity = q\<rparr>"

definition ex_reserve :: "checkout_line list \<Rightarrow> db \<Rightarrow> error + db" where
  "ex_reserve ls d = reserve_stocks ex_env ls [ex_variant 1, ex_variant 2] ''US'' ex_channel 200 True d"

definition ex_reserved_shop :: db where
  "ex_reserved_shop = ex_shop\<lparr>reservations := [\<lparr>r_pk = 1, r_checkout_line = 8, r_stock = 2, r_quantity_reserved = 4,
     r_reserved_until = 150\<rparr>], reservation_seq := 2\<rparr>"

definition ex_reserved :: db where
  "ex_reserved = projr (ex_reserve [ex_checkout_line 7 1 6] ex_reserved_shop)"

lemma ex_reserve_run: "ex_reserve [ex_checkout_line 7 1 6] ex_reserved_shop = Inr ex_reserved"
  unfolding ex_reserved_def by (rule not_isl_Inr) code_simp

lemma ex_reserved_rows:
  "\<forall>a \<in> set (allocations ex_reserved_shop). 0 \<le> a_quantity_allocated a"
  "\<forall>r \<in> set (reservations ex_reserved_shop). 0 \<le> r_quantity_reserved r"
  "distinct (map s_pk (stocks ex_reserved_shop))"
  by code_simp+

lemma reserve_stocks_exact_witness:
  "ex_reserve [ex_checkout_line 7 1 6] ex_reserved_shop = Inr ex_reserved
   \<and> checkout_sum ex_reserved 7 = 6 \<and> checkout_sum ex_reserved 8 = 4"
proof -
  have "\<forall>l \<in> set [ex_checkout_line 7 1 6]. 0 \<le> cl_quantity l" by code_simp
  note all = reserve_stocks_exact [OF ex_reserve_run [unfolded ex_reserve_def] ex_reserved_rows this]
  have "7 \<in> cl_pk ` set (reserved_lines [ex_checkout_line 7 1 6] [ex_variant 1, ex_variant 2])"
    "group_sum cl_pk cl_quantity (reserved_lines [ex_checkout_line 7 1 6] [ex_variant 1, ex_variant 2]) 7 = 6"
    "8 \<notin> cl_pk ` set (reserved_lines [ex_checkout_line 7 1 6] [ex_variant 1, ex_variant 2])"
    "checkout_sum ex_reserved_shop 8 = 4"
    by code_simp+
  with all [of 7] all [of 8] ex_reserve_run show ?thesis by simp
qed

lemma reserve_stocks_no_oversell_witness:
  "ex_reserve [ex_checkout_line 7 1 6] ex_reserved_shop = Inr ex_reserved
   \<and> allocated_sum ex_reserved 2 + reserved_quantity ex_env ex_reserved (ex_stock 2 2 1 9 0) \<le> 9"
proof -
  have "distinct (map (\<lambda>l. v_id (cl_variant l)) (reserved_lines [ex_checkout_line 7 1 6] [ex_variant 1, ex_variant 2]))"
    "ex_stock 2 2 1 9 0 \<in> set (stocks ex_reserved_shop)" by code_simp+
  note all = reserve_stocks_no_oversell [OF ex_reserve_run [unfolded ex_reserve_def] ex_reserved_rows this]
  have "max (allocated_sum ex_reserved_shop (s_pk (ex_stock 2 2 1 9 0))
      + reserved_quantity ex_env ex_reserved_shop (ex_stock 2 2 1 9 0)) (s_quantity (ex_stock 2 2 1 9 0)) = 9"
    "s_pk (ex_stock 2 2 1 9 0) = 2" by code_simp+
  with all ex_reserve_run show ?thesis by simp
qed

end
