(* ===== verification/Warehouse_Availability.thy ===== *)
theory Warehouse_Availability
  imports Warehouse_Reservations
begin

text \<open>
  \<open>saleor/warehouse/availability.py\<close>: what is available of a variant, and the checks that raise
  \<open>InsufficientStock\<close> (or a \<open>ValidationError\<close> for the quantity limit, \<open>Quantity_Limit_Error\<close>).
  Nothing here writes to the database; \<open>Inr ()\<close> is a check that passed.
\<close>

section \<open>Reserved quantities\<close>

definition get_reserved_stock_quantity :: "env \<Rightarrow> db \<Rightarrow> stock list \<Rightarrow> checkout_line list \<Rightarrow> int" where
  "get_reserved_stock_quantity e d ss ls =
     sum_of r_quantity_reserved (exclude_checkout_lines ls (not_expired e
       (filter (\<lambda>r. r_stock r \<in> s_pk ` set ss) (reservations d))))"

definition get_reserved_stock_quantity_bulk ::
  "env \<Rightarrow> db \<Rightarrow> stock list \<Rightarrow> checkout_line list \<Rightarrow> pk \<Rightarrow> int" where
  "get_reserved_stock_quantity_bulk e d ss ls v =
     (let rs = exclude_checkout_lines ls (not_expired e
                 (filter (\<lambda>r. r_stock r \<in> s_pk ` set ss) (reservations d)));
          stocks_variants = map_of (map (\<lambda>s. (s_pk s, s_variant s)) (rev ss))
      in sum_of r_quantity_reserved
           (filter (\<lambda>r. stocks_variants (r_stock r) = Some v \<and> v \<noteq> 0) rs))"

section \<open>One variant\<close>

definition available_quantity_of ::
  "env \<Rightarrow> db \<Rightarrow> stock list \<Rightarrow> checkout_line list \<Rightarrow> bool \<Rightarrow> int" where
  \<comment> \<open>\<open>_get_available_quantity\<close>.  \<open>Sum("quantity", distinct=True)\<close> is SQL's \<open>SUM(DISTINCT quantity)\<close>:
      equal quantities of different stocks count once.\<close>
  "available_quantity_of e d ss checkout_lines check_reservations =
     (let total_quantity = sum_list (remdups (map s_quantity ss));
          quantity_allocated =
            sum_of a_quantity_allocated (filter (\<lambda>a. a_stock a \<in> s_pk ` set ss) (allocations d));
          quantity_reserved = (if check_reservations
            then get_reserved_stock_quantity e d ss checkout_lines else 0)
      in max (total_quantity - quantity_allocated - quantity_reserved) 0)"

definition get_available_quantity ::
  "env \<Rightarrow> db \<Rightarrow> pk \<Rightarrow> string \<Rightarrow> string \<Rightarrow> checkout_line list \<Rightarrow> bool \<Rightarrow> int" where
  "get_available_quantity e d v country_code channel_slug checkout_lines check_reservations =
     (let ss = get_variant_stocks_for_country d (Some country_code) channel_slug v
      in if ss = [] then 0 else available_quantity_of e d ss checkout_lines check_reservations)"

definition is_product_in_stock :: "db \<Rightarrow> pk \<Rightarrow> string \<Rightarrow> string \<Rightarrow> bool" where
  \<comment> \<open>\<open>any\<close> of integers: any one that is not 0.\<close>
  "is_product_in_stock d product country_code channel_slug =
     list_ex (\<lambda>s. available_quantity d s \<noteq> 0)
       (get_product_stocks_for_country_and_channel d (Some country_code) channel_slug product)"

definition shortage :: "pk \<Rightarrow> int \<Rightarrow> insufficient_stock_data" where
  "shortage v n = \<lparr>i_available_quantity = n, i_variant = Some v, i_order_line = None,
     i_warehouse_pk = None\<rparr>"

definition raise_if_short :: "insufficient_stock_data list \<Rightarrow> error + unit" where
  "raise_if_short xs = (if xs \<noteq> [] then Inl (Insufficient_Stock xs) else Inr ())"

definition check_stock_quantity ::
  "env \<Rightarrow> db \<Rightarrow> product_variant \<Rightarrow> string \<Rightarrow> string \<Rightarrow> int \<Rightarrow> checkout_line list \<Rightarrow> bool \<Rightarrow> error + unit" where
  "check_stock_quantity e d v country_code channel_slug quantity checkout_lines check_reservations =
     (if \<not> v_track_inventory v then Inr ()
      else
        (let ss = get_variant_stocks_for_country d (Some country_code) channel_slug (v_id v)
         in if ss = [] then Inl (Insufficient_Stock [shortage (v_id v) 0])
            else if available_quantity_of e d ss checkout_lines check_reservations < quantity
            then Inl (Insufficient_Stock [shortage (v_id v) 0])
            else Inr ()))"

section \<open>Preorder thresholds\<close>

record listing_availability =
  la_preorder_quantity :: "int option"
  la_preorder_quantity_threshold :: "int option"
  la_listing_id :: pk

record variants_channel_availability =
  vca_availability :: "pk \<rightharpoonup> listing_availability"
  vca_global_allocations :: "pk \<Rightarrow> int"
  vca_all_listings :: "channel_listing list"
  vca_variant_channels :: "pk \<Rightarrow> channel_listing list"

definition get_variants_channel_availability_info ::
  "db \<Rightarrow> pk list \<Rightarrow> string \<Rightarrow> variants_channel_availability" where
  "get_variants_channel_availability_info d variants channel_slug =
     (let all_listings = listings_of_variants d variants;
          variant_channels = (\<lambda>v. filter (\<lambda>l. l_variant l = v) all_listings)
      in \<lparr>vca_availability = map_of (map (\<lambda>l. (l_variant l,
              \<lparr>la_preorder_quantity = available_preorder_quantity d l,
               la_preorder_quantity_threshold = l_preorder_quantity_threshold l,
               la_listing_id = l_id l\<rparr>))
              (rev (filter (listing_in_channel d channel_slug) all_listings))),
          vca_global_allocations =
            (\<lambda>v. sum_list (map (preorder_quantity_allocated d) (variant_channels v))),
          vca_all_listings = all_listings,
          vca_variant_channels = variant_channels\<rparr>)"

definition channel_shortage ::
  "listing_availability \<Rightarrow> (pk \<Rightarrow> int) \<Rightarrow> pk \<Rightarrow> int \<Rightarrow> insufficient_stock_data list" where
  \<comment> \<open>The block on the listing's own threshold, which the two checks below share.\<close>
  "channel_shortage la resv v quantity =
     (case la_preorder_quantity la of None \<Rightarrow> []
      | Some n \<Rightarrow>
          (let available_channel_quantity = max (n - resv (la_listing_id la)) 0
           in if available_channel_quantity < quantity
              then [shortage v available_channel_quantity] else []))"

definition global_shortage ::
  "variants_channel_availability \<Rightarrow> (pk \<Rightarrow> int) \<Rightarrow> product_variant \<Rightarrow> int \<Rightarrow> insufficient_stock_data list" where
  "global_shortage info resv variant quantity =
     (case v_preorder_global_threshold variant of None \<Rightarrow> []
      | Some threshold \<Rightarrow>
          (let global_availability = max (threshold - vca_global_allocations info (v_id variant)
                 - sum_list (map (\<lambda>l. resv (l_id l)) (vca_variant_channels info (v_id variant)))) 0
           in if global_availability < quantity
              then [shortage (v_id variant) global_availability] else []))"

definition check_preorder_threshold_in_orders ::
  "env \<Rightarrow> db \<Rightarrow> product_variant \<Rightarrow> int \<Rightarrow> string \<Rightarrow> checkout_line list \<Rightarrow> bool \<Rightarrow> error + unit" where
  "check_preorder_threshold_in_orders e d variant quantity channel_slug checkout_lines
       check_reservations =
     (let info = get_variants_channel_availability_info d [v_id variant] channel_slug;
          resv = (if check_reservations
            then get_listings_reservations e d checkout_lines (vca_all_listings info) else (\<lambda>_. 0))
      in case vca_availability info (v_id variant) of
           None \<Rightarrow> Inl Key_Error
         | Some la \<Rightarrow>
             raise_if_short
               (if la_preorder_quantity_threshold la = None then []
                else channel_shortage la resv (v_id variant) quantity
                     @ global_shortage info resv variant quantity))"

definition check_stock_and_preorder_quantity ::
  "env \<Rightarrow> db \<Rightarrow> product_variant \<Rightarrow> string \<Rightarrow> string \<Rightarrow> int \<Rightarrow> checkout_line list \<Rightarrow> bool \<Rightarrow> error + unit" where
  "check_stock_and_preorder_quantity e d variant country_code channel_slug quantity checkout_lines
       check_reservations =
     (if is_preorder_active e variant
      then check_preorder_threshold_in_orders e d variant quantity channel_slug checkout_lines
             check_reservations
      else check_stock_quantity e d variant country_code channel_slug quantity checkout_lines
             check_reservations)"

section \<open>Many variants\<close>

definition split_lines_for_trackable_and_preorder ::
  "env \<Rightarrow> product_variant list \<Rightarrow> int list
   \<Rightarrow> product_variant list \<times> int list \<times> product_variant list \<times> int list" where
  "split_lines_for_trackable_and_preorder e variants quantities =
     (let both = zip variants quantities;
          (preorder, stock) = (filter (\<lambda>(v, q). is_preorder_active e v) both,
                               filter (\<lambda>(v, q). \<not> is_preorder_active e v) both)
      in (map fst stock, map snd stock, map fst preorder, map snd preorder))"

definition check_quantity_limits ::
  "product_variant \<Rightarrow> int \<Rightarrow> int option \<Rightarrow> error + unit" where
  \<comment> \<open>\<open>variant.quantity_limit_per_customer or global_quantity_limit\<close>: a limit of 0 counts as none.\<close>
  "check_quantity_limits variant quantity global_quantity_limit =
     (let quantity_limit = (if truthy_int (v_quantity_limit_per_customer variant)
            then v_quantity_limit_per_customer variant else global_quantity_limit)
      in case quantity_limit of None \<Rightarrow> Inr ()
         | Some limit \<Rightarrow> (if limit < quantity then Inl (Quantity_Limit_Error limit) else Inr ()))"

datatype delivery_method_info =
    No_Delivery_Method
  | Shipping_Method_Info
  | Collection_Point_Info pk bool     \<comment> \<open>the warehouse, whether it sells local stock only\<close>

definition dmi_delivery_method :: "delivery_method_info \<Rightarrow> bool" where
  "dmi_delivery_method dm = (dm \<noteq> No_Delivery_Method)"

definition dmi_warehouse_pk :: "delivery_method_info \<Rightarrow> pk option" where
  "dmi_warehouse_pk dm = (case dm of Collection_Point_Info w _ \<Rightarrow> Some w | _ \<Rightarrow> None)"

definition get_warehouse_filter_lookup :: "delivery_method_info \<Rightarrow> stock \<Rightarrow> bool" where
  \<comment> \<open>The dictionary as the filter it makes: \<open>warehouse_id\<close> for a local collection point.\<close>
  "get_warehouse_filter_lookup dm s =
     (case dm of Collection_Point_Info w is_local \<Rightarrow> is_local \<longrightarrow> s_warehouse s = w | _ \<Rightarrow> True)"

fun check_lines ::
  "product_variant list \<Rightarrow> int list \<Rightarrow> (pk \<Rightarrow> stock list) \<Rightarrow> (stock \<Rightarrow> int) \<Rightarrow> (pk \<Rightarrow> int)
   \<Rightarrow> (pk \<Rightarrow> int) \<Rightarrow> bool \<Rightarrow> int option \<Rightarrow> insufficient_stock_data list
   \<Rightarrow> error + insufficient_stock_data list" where
  "check_lines (v # vs) (q # qs) variant_stocks avail reserved existing replace limit short =
     (let quantity = (if replace then q else q + existing (v_id v));
          ss = variant_stocks (v_id v);
          available = max (sum_of avail ss - reserved (v_id v)) 0
      in if 0 < quantity then
           (case check_quantity_limits v quantity limit of
              Inl err \<Rightarrow> Inl err
            | Inr _ \<Rightarrow>
                check_lines vs qs variant_stocks avail reserved existing replace limit
                  (if ss = [] then short @ [shortage (v_id v) available]
                   else if v_track_inventory v \<and> available < quantity
                   then short @ [shortage (v_id v) available] else short))
         else check_lines vs qs variant_stocks avail reserved existing replace limit short)"
| "check_lines [] qs variant_stocks avail reserved existing replace limit short = Inr short"
| "check_lines vs [] variant_stocks avail reserved existing replace limit short = Inr short"

definition existing_quantities :: "checkout_line list \<Rightarrow> pk \<Rightarrow> int" where
  "existing_quantities existing_lines v =
     (case map_of (map (\<lambda>l. (v_id (cl_variant l), cl_quantity l)) (rev existing_lines)) v of
        None \<Rightarrow> 0 | Some q \<Rightarrow> q)"

definition check_stock_quantity_bulk ::
  "env \<Rightarrow> db \<Rightarrow> product_variant list \<Rightarrow> string \<Rightarrow> int list \<Rightarrow> string \<Rightarrow> int option
   \<Rightarrow> delivery_method_info option \<Rightarrow> (stock \<Rightarrow> bool) \<Rightarrow> checkout_line list \<Rightarrow> bool \<Rightarrow> bool
   \<Rightarrow> error + unit" where
  "check_stock_quantity_bulk e d variants country_code quantities channel_slug global_quantity_limit
       delivery_method additional_filter existing_lines replace check_reservations =
     (let include_cc_warehouses = (case delivery_method of None \<Rightarrow> True
            | Some dm \<Rightarrow> \<not> dmi_delivery_method dm);
          collection_point = Option.bind delivery_method dmi_warehouse_pk;
          base = (if collection_point \<noteq> None then for_channel_and_click_and_collect d channel_slug
                  else for_channel_and_country d channel_slug (Some country_code) include_cc_warehouses);
          all_variants_stocks =
            filter (\<lambda>s. s_variant s \<in> v_id ` set variants \<and> additional_filter s) base;
          variant_stocks = (\<lambda>v. filter (\<lambda>s. s_variant s = v) all_variants_stocks);
          reserved = (if check_reservations
            then get_reserved_stock_quantity_bulk e d all_variants_stocks existing_lines else (\<lambda>_. 0))
      in case check_lines variants quantities variant_stocks (available_quantity d) reserved
                (existing_quantities existing_lines) replace global_quantity_limit [] of
           Inl err \<Rightarrow> Inl err
         | Inr short \<Rightarrow> raise_if_short short)"

fun check_preorder_lines ::
  "product_variant list \<Rightarrow> int list \<Rightarrow> variants_channel_availability \<Rightarrow> (pk \<Rightarrow> int) \<Rightarrow> (pk \<Rightarrow> int)
   \<Rightarrow> bool \<Rightarrow> int option \<Rightarrow> insufficient_stock_data list \<Rightarrow> error + insufficient_stock_data list" where
  "check_preorder_lines (v # vs) (quantity # qs) info resv existing replace limit short =
     (let cumulative_quantity = (if replace then quantity else quantity + existing (v_id v));
          limit_check = (if 0 < quantity then check_quantity_limits v cumulative_quantity limit else Inr ())
      in case limit_check of
           Inl err \<Rightarrow> Inl err
         | Inr _ \<Rightarrow>
             (case vca_availability info (v_id v) of
                None \<Rightarrow> Inl Key_Error
              | Some la \<Rightarrow>
                  check_preorder_lines vs qs info resv existing replace limit
                    (short
                     @ (if la_preorder_quantity_threshold la = None then []
                        else channel_shortage la resv (v_id v) quantity)
                     @ global_shortage info resv v quantity)))"
| "check_preorder_lines [] qs info resv existing replace limit short = Inr short"
| "check_preorder_lines vs [] info resv existing replace limit short = Inr short"

definition check_preorder_threshold_bulk ::
  "env \<Rightarrow> db \<Rightarrow> product_variant list \<Rightarrow> int list \<Rightarrow> string \<Rightarrow> int option \<Rightarrow> checkout_line list
   \<Rightarrow> bool \<Rightarrow> bool \<Rightarrow> error + unit" where
  "check_preorder_threshold_bulk e d variants quantities channel_slug global_quantity_limit
       existing_lines replace check_reservations =
     (let info = get_variants_channel_availability_info d (map v_id variants) channel_slug;
          resv = (if check_reservations
            then get_listings_reservations e d existing_lines (vca_all_listings info) else (\<lambda>_. 0))
      in case check_preorder_lines variants quantities info resv (existing_quantities existing_lines)
                replace global_quantity_limit [] of
           Inl err \<Rightarrow> Inl err
         | Inr short \<Rightarrow> raise_if_short short)"

definition check_stock_and_preorder_quantity_bulk ::
  "env \<Rightarrow> db \<Rightarrow> product_variant list \<Rightarrow> string \<Rightarrow> int list \<Rightarrow> string \<Rightarrow> int option
   \<Rightarrow> delivery_method_info option \<Rightarrow> (stock \<Rightarrow> bool) \<Rightarrow> checkout_line list \<Rightarrow> bool \<Rightarrow> bool
   \<Rightarrow> error + unit" where
  "check_stock_and_preorder_quantity_bulk e d variants country_code quantities channel_slug
       global_quantity_limit delivery_method additional_filter existing_lines replace
       check_reservations =
     (case split_lines_for_trackable_and_preorder e variants quantities of
        (stock_variants, stock_quantities, preorder_variants, preorder_quantities) \<Rightarrow>
          (case (if stock_variants = [] then Inr ()
                 else check_stock_quantity_bulk e d stock_variants country_code stock_quantities
                        channel_slug global_quantity_limit delivery_method additional_filter
                        existing_lines replace check_reservations) of
             Inl err \<Rightarrow> Inl err
           | Inr _ \<Rightarrow>
               (if preorder_variants = [] then Inr ()
                else check_preorder_threshold_bulk e d preorder_variants preorder_quantities
                       channel_slug global_quantity_limit existing_lines replace
                       check_reservations)))"

section \<open>What the checks of one variant decide\<close>

definition free_of :: "env \<Rightarrow> db \<Rightarrow> stock list \<Rightarrow> checkout_line list \<Rightarrow> bool \<Rightarrow> int" where
  \<comment> \<open>What the stocks hold, less all that is allocated and reserved of them.\<close>
  "free_of e d ss ls chk = sum_of s_quantity ss - sum_of (\<lambda>s. allocated_sum d (s_pk s)) ss
     - (if chk then get_reserved_stock_quantity e d ss ls else 0)"

lemma available_quantity_of_exact:
  assumes "distinct (map s_pk ss)" and "distinct (map s_quantity ss)"
  shows "available_quantity_of e d ss ls chk = max (free_of e d ss ls chk) 0"
proof -
  have "sum_of a_quantity_allocated (filter (\<lambda>a. a_stock a \<in> s_pk ` set ss) (allocations d))
      = sum_of (\<lambda>s. allocated_sum d (s_pk s)) ss"
    unfolding allocated_sum_def by (rule sum_of_group_sum [OF assms(1), symmetric])
  with assms(2) show ?thesis
    by (simp add: available_quantity_of_def free_of_def sum_of_def distinct_remdups_id Let_def)
qed

text \<open>
  Where no two stocks of the variant hold the same quantity, \<open>check_stock_quantity\<close> raises
  \<open>InsufficientStock\<close> exactly when the variant is tracked and there is no stock for it in the country
  and channel, or they have less than the asked quantity left of what is not allocated (and, with
  \<open>check_reservations\<close>, not reserved by other checkouts).
\<close>

lemma check_stock_quantity_iff:
  assumes dist: "distinct (map s_pk (stocks d))"
    and quantities: "distinct (map s_quantity (get_variant_stocks_for_country d (Some country) slug (v_id v)))"
  shows "check_stock_quantity e d v country slug q ls chk =
    (if v_track_inventory v \<and>
        (get_variant_stocks_for_country d (Some country) slug (v_id v) = []
         \<or> max 0 (free_of e d (get_variant_stocks_for_country d (Some country) slug (v_id v)) ls chk) < q)
     then Inl (Insufficient_Stock [shortage (v_id v) 0]) else Inr ())"
proof -
  let ?ss = "get_variant_stocks_for_country d (Some country) slug (v_id v)"
  have "distinct (map s_pk ?ss)"
    using base_stocks_distinct(2) [OF dist]
    by (simp add: get_variant_stocks_for_country_def distinct_map_filter)
  from available_quantity_of_exact [OF this quantities]
  show ?thesis by (simp add: check_stock_quantity_def Let_def max.commute)
qed

text \<open>
  \<open>SUM(DISTINCT quantity)\<close>: two stocks of the same variant with five pieces each count as
  five, so asking for eight of the ten free pieces is refused.
\<close>

lemma equal_quantities_count_once:
  "get_available_quantity ex_env (ex_db [ex_stock 1 1 1 5 0, ex_stock 2 2 1 5 0] []) 1 ''US'' ''us'' [] False = 5
   \<and> get_available_quantity ex_env (ex_db [ex_stock 1 1 1 5 0, ex_stock 2 2 1 6 0] []) 1 ''US'' ''us'' [] False = 11
   \<and> isl (check_stock_quantity ex_env (ex_db [ex_stock 1 1 1 5 0, ex_stock 2 2 1 5 0] []) (ex_variant 1)
            ''US'' ''us'' 8 [] False)
   \<and> \<not> isl (check_stock_quantity_bulk ex_env (ex_db [ex_stock 1 1 1 5 0, ex_stock 2 2 1 5 0] []) [ex_variant 1]
            ''US'' [8] ''us'' None None (\<lambda>_. True) [] False False)"
  by (intro conjI) code_simp+

section \<open>The bulk check\<close>

lemma check_lines_grows:
  "check_lines vs qs stk avail resv ex rep limit short = Inr short' \<Longrightarrow> \<exists>xs. short' = short @ xs"
proof (induction vs qs stk avail resv ex rep limit short rule: check_lines.induct)
  case (1 v vs q qs stk avail resv ex rep limit short)
  then show ?case by (fastforce simp: Let_def split: if_splits sum.splits)
qed auto

text \<open>
  What the bulk check promises, without its functions.  The limit is the one of the variant, unless that is not set
  or 0, then the global one.  What the checkout has of a variant is the quantity of its last line of it.  What is
  free of a variant is what its stocks hold, less their allocations and the live reservations of other checkouts.
\<close>

definition within_limit :: "int option \<Rightarrow> int option \<Rightarrow> int \<Rightarrow> bool" where
  "within_limit own overall quantity \<longleftrightarrow>
     (case (if own = Some 0 then None else own) of
        Some l \<Rightarrow> quantity \<le> l
      | None \<Rightarrow> (case overall of None \<Rightarrow> True | Some l \<Rightarrow> quantity \<le> l))"

definition line_passes ::
  "product_variant \<Rightarrow> int \<Rightarrow> stock list \<Rightarrow> int \<Rightarrow> int option \<Rightarrow> bool" where
  "line_passes v quantity ss available limit \<longleftrightarrow> quantity \<le> 0 \<or>
     (within_limit (v_quantity_limit_per_customer v) limit quantity \<and> ss \<noteq> []
      \<and> (v_track_inventory v \<longrightarrow> quantity \<le> available))"

definition in_checkout :: "checkout_line list \<Rightarrow> pk \<Rightarrow> int" where
  "in_checkout ls v = (case rev (filter (\<lambda>l. v_id (cl_variant l) = v) ls) of [] \<Rightarrow> 0 | l # _ \<Rightarrow> cl_quantity l)"

definition free_quantity :: "env \<Rightarrow> db \<Rightarrow> checkout_line list \<Rightarrow> bool \<Rightarrow> stock list \<Rightarrow> int" where
  "free_quantity e d ls chk ss = sum_of (\<lambda>s. s_quantity s - allocated_sum d (s_pk s)) ss
     - (if chk then sum_of r_quantity_reserved (filter (\<lambda>r. r_stock r \<in> s_pk ` set ss \<and> now e < r_reserved_until r
          \<and> r_checkout_line r \<notin> cl_pk ` set ls) (reservations d)) else 0)"

lemma check_quantity_limits_iff:
  "check_quantity_limits v quantity limit = Inr () \<longleftrightarrow> within_limit (v_quantity_limit_per_customer v) limit quantity"
  by (auto simp: check_quantity_limits_def within_limit_def truthy_int_def Let_def not_less split: option.splits)

lemma existing_quantities_eq: "existing_quantities ls v = in_checkout ls v"
proof -
  have "map_of (map (\<lambda>l. (v_id (cl_variant l), cl_quantity l)) xs) v
      = (case filter (\<lambda>l. v_id (cl_variant l) = v) xs of [] \<Rightarrow> None | l # _ \<Rightarrow> Some (cl_quantity l))" for xs
    by (induction xs) auto
  from this [of "rev ls"] show ?thesis
    unfolding existing_quantities_def in_checkout_def rev_filter by (auto simp: rev_filter split: list.splits)
qed

lemma reserved_bulk_eq:
  assumes "distinct (map s_pk ss)" and "v \<noteq> 0"
  shows "get_reserved_stock_quantity_bulk e d ss ls v = sum_of r_quantity_reserved
    (filter (\<lambda>r. r_stock r \<in> s_pk ` set (filter (\<lambda>s. s_variant s = v) ss) \<and> now e < r_reserved_until r
      \<and> r_checkout_line r \<notin> cl_pk ` set ls) (reservations d))"
proof -
  have "map_of (map (\<lambda>s. (s_pk s, s_variant s)) (rev ss)) k = Some v
      \<longleftrightarrow> k \<in> s_pk ` set (filter (\<lambda>s. s_variant s = v) ss)" for k
    using assms(1) by (subst map_of_eq_Some_iff) (auto simp: rev_map [symmetric] o_def)
  then show ?thesis using assms(2)
    by (auto simp: get_reserved_stock_quantity_bulk_def Let_def exclude_checkout_lines_def not_expired_def
        intro!: arg_cong [where f = "sum_of _"] filter_cong)
qed

lemma available_quantity_eq:
  assumes "\<forall>a \<in> set (allocations d). 0 \<le> a_quantity_allocated a"
  shows "available_quantity d = (\<lambda>s. s_quantity s - allocated_sum d (s_pk s))"
  using group_sum_filter_pos [OF assms [rule_format]] by (auto simp: fun_eq_iff available_quantity_def allocated_sum_def)

lemma check_lines_iff:
  "check_lines vs qs stk avail resv ex rep limit [] = Inr [] \<longleftrightarrow>
   (\<forall>(v, q) \<in> set (zip vs qs). line_passes v (if rep then q else q + ex (v_id v)) (stk (v_id v))
      (max (sum_of avail (stk (v_id v)) - resv (v_id v)) 0) limit)"
proof (induction vs arbitrary: qs)
  case (Cons v vs)
  have no: "check_lines vs qs stk avail resv ex rep limit [x] \<noteq> Inr []" for x qs
    using check_lines_grows [of vs qs stk avail resv ex rep limit "[x]" "[]"] by auto
  show ?case
  proof (cases qs)
    case (Cons q qs')
    let ?q = "if rep then q else q + ex (v_id v)" and ?ss = "stk (v_id v)"
    let ?a = "max (sum_of avail ?ss - resv (v_id v)) 0"
    have "check_lines (v # vs) (q # qs') stk avail resv ex rep limit [] = Inr [] \<longleftrightarrow>
        line_passes v ?q ?ss ?a limit \<and> check_lines vs qs' stk avail resv ex rep limit [] = Inr []"
    proof (cases "0 < ?q")
      case True
      show ?thesis
      proof (cases "check_quantity_limits v ?q limit")
        case (Inl err)
        with True check_quantity_limits_iff [of v ?q limit] show ?thesis
          unfolding check_lines.simps Let_def by (simp add: line_passes_def)
      next
        case (Inr u)
        define short where "short = (if ?ss = [] then [] @ [shortage (v_id v) ?a]
           else if v_track_inventory v \<and> ?a < ?q then [] @ [shortage (v_id v) ?a] else [])"
        have "check_lines (v # vs) (q # qs') stk avail resv ex rep limit [] =
            check_lines vs qs' stk avail resv ex rep limit short"
          unfolding check_lines.simps Let_def short_def if_P [OF True] Inr by simp
        moreover have "short = [] \<longleftrightarrow> line_passes v ?q ?ss ?a limit"
          using True Inr check_quantity_limits_iff [of v ?q limit] by (auto simp: short_def line_passes_def not_less)
        moreover have "short = [] \<or> (\<exists>x. short = [x])" by (simp add: short_def)
        ultimately show ?thesis using no by auto
      qed
    next
      case False
      then show ?thesis unfolding check_lines.simps Let_def by (simp add: line_passes_def)
    qed
    with Cons.IH [of qs'] Cons show ?thesis by simp
  qed simp
qed simp

text \<open>
  C11: \<open>check_stock_quantity_bulk\<close> passes exactly when every line does: the line asks for nothing, or
  its quantity (with what the checkout already has of the variant, unless \<open>replace\<close>) is within the limit per
  customer of the variant or else the global one, there is a stock for it, and a tracked variant has that much left
  over the stocks found: their quantities less their allocations and, where reservations are checked, less
  the live reservations of other checkouts.
\<close>

theorem check_stock_quantity_bulk_iff:
  assumes "distinct (map s_pk (stocks d))" and nn: "\<forall>a \<in> set (allocations d). 0 \<le> a_quantity_allocated a"
    and keys: "0 \<notin> v_id ` set vs"
  shows "check_stock_quantity_bulk e d vs country qs slug limit dm extra lines rep chk = Inr () \<longleftrightarrow>
    (let base = (if Option.bind dm dmi_warehouse_pk \<noteq> None then for_channel_and_click_and_collect d slug
           else for_channel_and_country d slug (Some country)
                  (case dm of None \<Rightarrow> True | Some m \<Rightarrow> \<not> dmi_delivery_method m));
         stocks_of = (\<lambda>v. filter (\<lambda>s. s_variant s = v_id v \<and> extra s) base)
     in \<forall>(v, q) \<in> set (zip vs qs). let asked = (if rep then q else q + in_checkout lines (v_id v)) in
          asked \<le> 0 \<or> within_limit (v_quantity_limit_per_customer v) limit asked \<and> stocks_of v \<noteq> []
            \<and> (v_track_inventory v \<longrightarrow> asked \<le> free_quantity e d lines chk (stocks_of v)))"
proof -
  have raise: "(case r of Inl err \<Rightarrow> Inl err | Inr short \<Rightarrow> raise_if_short short) = Inr () \<longleftrightarrow> r = Inr []" for r
    by (auto simp: raise_if_short_def split: sum.splits if_splits)
  define base where "base = (if Option.bind dm dmi_warehouse_pk \<noteq> None then for_channel_and_click_and_collect d slug
           else for_channel_and_country d slug (Some country)
                  (case dm of None \<Rightarrow> True | Some m \<Rightarrow> \<not> dmi_delivery_method m))"
  let ?found = "filter (\<lambda>s. s_variant s \<in> v_id ` set vs \<and> extra s) base"
  have dist: "distinct (map s_pk ?found)" using assms(1)
    by (auto simp: base_def for_channel_and_click_and_collect_def for_channel_and_country_def Let_def
        distinct_map inj_on_def)
  have found: "filter (\<lambda>s. s_variant s = v_id v) ?found = filter (\<lambda>s. s_variant s = v_id v \<and> extra s) base"
    if "v \<in> set vs" for v using that by (auto intro!: filter_cong)
  have positive: "q \<le> 0 \<or> P \<and> (t \<longrightarrow> q \<le> max x 0) \<longleftrightarrow> q \<le> 0 \<or> P \<and> (t \<longrightarrow> q \<le> x)" for q x :: int and P t by auto
  have "check_stock_quantity_bulk e d vs country qs slug limit dm extra lines rep chk = Inr () \<longleftrightarrow>
    (\<forall>(v, q) \<in> set (zip vs qs). line_passes v (if rep then q else q + in_checkout lines (v_id v))
       (filter (\<lambda>s. s_variant s = v_id v) ?found)
       (max (sum_of (available_quantity d) (filter (\<lambda>s. s_variant s = v_id v) ?found)
         - (if chk then get_reserved_stock_quantity_bulk e d ?found lines (v_id v) else 0)) 0) limit)"
    unfolding check_stock_quantity_bulk_def Let_def raise check_lines_iff base_def [symmetric] existing_quantities_eq
    by (cases chk) simp_all
  also have "\<dots> \<longleftrightarrow> (\<forall>(v, q) \<in> set (zip vs qs). line_passes v (if rep then q else q + in_checkout lines (v_id v))
       (filter (\<lambda>s. s_variant s = v_id v \<and> extra s) base)
       (max (free_quantity e d lines chk (filter (\<lambda>s. s_variant s = v_id v \<and> extra s) base)) 0) limit)"
  proof (intro ball_cong refl, clarify)
    fix v q assume "(v, q) \<in> set (zip vs qs)"
    then have v: "v \<in> set vs" by (rule set_zip_leftD)
    then have "v_id v \<noteq> 0" using keys by force
    show "line_passes v (if rep then q else q + in_checkout lines (v_id v)) (filter (\<lambda>s. s_variant s = v_id v) ?found)
       (max (sum_of (available_quantity d) (filter (\<lambda>s. s_variant s = v_id v) ?found)
         - (if chk then get_reserved_stock_quantity_bulk e d ?found lines (v_id v) else 0)) 0) limit
      = line_passes v (if rep then q else q + in_checkout lines (v_id v)) (filter (\<lambda>s. s_variant s = v_id v \<and> extra s) base)
       (max (free_quantity e d lines chk (filter (\<lambda>s. s_variant s = v_id v \<and> extra s) base)) 0) limit"
      unfolding reserved_bulk_eq [OF dist \<open>v_id v \<noteq> 0\<close>] found [OF v] available_quantity_eq [OF nn] free_quantity_def
      by (rule refl)
  qed
  finally show ?thesis unfolding Let_def base_def [symmetric] line_passes_def positive conj_assoc [symmetric]
    unfolding positive .
qed

section \<open>Runs on the example shop\<close>

lemma check_stock_quantity_iff_witness:
  "isl (check_stock_quantity ex_env ex_sold (ex_variant 1) ''US'' ''us'' 8 [] False)
   \<and> \<not> isl (check_stock_quantity ex_env ex_sold (ex_variant 1) ''US'' ''us'' 7 [] False)"
proof -
  have dist: "distinct (map s_pk (stocks ex_sold))"
    "distinct (map s_quantity (get_variant_stocks_for_country ex_sold (Some ''US'') ''us'' (v_id (ex_variant 1))))"
    by code_simp+
  have "v_track_inventory (ex_variant 1)"
    "get_variant_stocks_for_country ex_sold (Some ''US'') ''us'' (v_id (ex_variant 1)) \<noteq> []"
    "free_of ex_env ex_sold (get_variant_stocks_for_country ex_sold (Some ''US'') ''us'' (v_id (ex_variant 1))) [] False = 7"
    by code_simp+
  with check_stock_quantity_iff [OF dist, of ex_env _ "[]" False] show ?thesis by simp
qed

lemma check_stock_quantity_bulk_iff_witness:
  "check_stock_quantity_bulk ex_env ex_sold [ex_variant 1] ''US'' [7] ''us'' (Some 9) None (\<lambda>_. True) [] False False = Inr ()
   \<and> check_stock_quantity_bulk ex_env ex_sold [ex_variant 1] ''US'' [8] ''us'' (Some 9) None (\<lambda>_. True) [] False False \<noteq> Inr ()
   \<and> check_stock_quantity_bulk ex_env ex_sold [ex_variant 1] ''US'' [7] ''us'' (Some 6) None (\<lambda>_. True) [] False False \<noteq> Inr ()"
proof -
  have ok: "distinct (map s_pk (stocks ex_sold))" "\<forall>a \<in> set (allocations ex_sold). 0 \<le> a_quantity_allocated a"
    "0 \<notin> v_id ` set [ex_variant 1]" by code_simp+
  show ?thesis unfolding check_stock_quantity_bulk_iff [OF ok] by (intro conjI) code_simp+
qed

text \<open>
  \<open>check_preorder_threshold_in_orders\<close> looks at the variant's global threshold only when the channel
  listing has a threshold too; the bulk check always does.  And \<open>is_product_in_stock\<close> counts a
  negative availability as stock.
\<close>

definition ex_open_listing_shop :: db where
  "ex_open_listing_shop = (ex_preorder_shop [] [])\<lparr>channel_listings :=
     [\<lparr>l_id = 1, l_variant = 1, l_channel = 1, l_preorder_quantity_threshold = None\<rparr>]\<rparr>"

theorem global_threshold_skipped:
  "\<not> isl (check_preorder_threshold_in_orders ex_env ex_open_listing_shop ex_preorder_variant 50 ''us'' [] False)
   \<and> isl (check_preorder_threshold_bulk ex_env ex_open_listing_shop [ex_preorder_variant] [50] ''us'' None [] False False)"
  by (intro conjI) code_simp+

theorem oversold_product_in_stock:
  "is_product_in_stock (ex_db [ex_stock 1 1 1 2 5] [ex_allocation 1 1 1 5]) 1 ''US'' ''us''
   \<and> \<not> is_product_in_stock (ex_db [ex_stock 1 1 1 5 5] [ex_allocation 1 1 1 5]) 1 ''US'' ''us''"
  by (intro conjI) code_simp+

end
