(* ===== verification/Transaction_Calculations.thy ===== *)
theory Transaction_Calculations
  imports Payment_Models
begin

text \<open>
  \<open>saleor/payment/transaction_item_calculations.py\<close>: the amounts of a transaction item, computed
  from its events.  The events are grouped by action and psp reference in \<open>defaultdict\<close>s, which
  keep the order of insertion; here they are association lists.  The order in which the
  database returns events of the same \<open>created_at\<close> is the environment's \<open>row_order\<close>.
\<close>

section \<open>Groups of events\<close>

record base_event =
  be_request :: "transaction_event option"
  be_success :: "transaction_event option"
  be_failure :: "transaction_event option"

record authorization_events = base_event +
  ae_adjustment :: "transaction_event option"

record charge_events = base_event +
  ce_back :: "transaction_event option"

record refund_events = base_event +
  re_reverse :: "transaction_event option"

type_synonym cancel_events = base_event

type_synonym 'g groups = "(string \<times> 'g) list"

record action_event_map =
  without_psp_reference :: "transaction_event list"
  authorization :: "authorization_events groups"
  charge :: "charge_events groups"
  refund :: "refund_events groups"
  cancel :: "cancel_events groups"

fun dict_update :: "'g \<Rightarrow> string \<Rightarrow> ('g \<Rightarrow> 'g) \<Rightarrow> 'g groups \<Rightarrow> 'g groups" where
  \<comment> \<open>\<open>d[k].attr = ...\<close> on a \<open>defaultdict\<close> whose factory makes the first argument.\<close>
  "dict_update new k f [] = [(k, f new)]"
| "dict_update new k f ((k', g) # ds) = (if k' = k then (k', f g) # ds else (k', g) # dict_update new k f ds)"

definition no_events :: base_event where
  "no_events = \<lparr>be_request = None, be_success = None, be_failure = None\<rparr>"

definition no_authorization_events :: authorization_events where
  "no_authorization_events = \<lparr>be_request = None, be_success = None, be_failure = None, ae_adjustment = None\<rparr>"

definition no_charge_events :: charge_events where
  "no_charge_events = \<lparr>be_request = None, be_success = None, be_failure = None, ce_back = None\<rparr>"

definition no_refund_events :: refund_events where
  "no_refund_events = \<lparr>be_request = None, be_success = None, be_failure = None, re_reverse = None\<rparr>"

section \<open>Amounts of a group\<close>

definition should_increase_pending_amount ::
  "transaction_event option \<Rightarrow> transaction_event option \<Rightarrow> transaction_event option \<Rightarrow> bool" where
  "should_increase_pending_amount request success failure \<longleftrightarrow>
     request \<noteq> None \<and> failure = None \<and> success = None"

definition should_increse_amount :: "transaction_event option \<Rightarrow> transaction_event option \<Rightarrow> bool" where
  "should_increse_amount success failure =
     (case success of None \<Rightarrow> False
      | Some s \<Rightarrow> (case failure of None \<Rightarrow> True | Some f \<Rightarrow> te_created_at f < te_created_at s))"

definition move_amount :: "decimal \<Rightarrow> amount_field \<Rightarrow> amount_field option \<Rightarrow> transaction_item \<Rightarrow> transaction_item" where
  \<comment> \<open>The body of each of the two \<open>if\<close>s of \<open>_recalculate_base_amounts\<close>.\<close>
  "move_amount v to from t =
     (let t = setattr_value to (getattr_value to t + v) t
      in case from of None \<Rightarrow> t | Some f \<Rightarrow> setattr_value f (getattr_value f t - v) t)"

definition recalculate_base_amounts ::
  "transaction_event option \<Rightarrow> transaction_event option \<Rightarrow> transaction_event option
   \<Rightarrow> amount_field \<Rightarrow> amount_field \<Rightarrow> amount_field option \<Rightarrow> transaction_item \<Rightarrow> transaction_item" where
  "recalculate_base_amounts request success failure pending_amount_field_name amount_field_name
       previous_amount_field_name t =
     (let t = (if should_increase_pending_amount request success failure
               then move_amount (te_amount_value (the request)) pending_amount_field_name
                      previous_amount_field_name t else t)
      in if should_increse_amount success failure
         then move_amount (te_amount_value (the success)) amount_field_name
                previous_amount_field_name t else t)"

definition recalculate_authorization_amounts :: "authorization_events \<Rightarrow> transaction_item \<Rightarrow> transaction_item" where
  "recalculate_authorization_amounts g t =
     (let t = (case ae_adjustment g of None \<Rightarrow> t
               | Some a \<Rightarrow> t\<lparr>ti_authorized_value := te_amount_value a\<rparr>)
      in recalculate_base_amounts (be_request g) (be_success g) (be_failure g)
           Authorize_Pending_Value Authorized_Value None t)"

definition recalculate_charge_amounts :: "charge_events \<Rightarrow> transaction_item \<Rightarrow> transaction_item" where
  "recalculate_charge_amounts g t =
     (let t = (case ce_back g of None \<Rightarrow> t
               | Some b \<Rightarrow> t\<lparr>ti_charged_value := ti_charged_value t - te_amount_value b\<rparr>)
      in recalculate_base_amounts (be_request g) (be_success g) (be_failure g)
           Charge_Pending_Value Charged_Value (Some Authorized_Value) t)"

definition recalculate_refund_amounts :: "refund_events \<Rightarrow> transaction_item \<Rightarrow> transaction_item" where
  "recalculate_refund_amounts g t =
     (let t = (case re_reverse g of None \<Rightarrow> t
               | Some r \<Rightarrow> t\<lparr>ti_charged_value := ti_charged_value t + te_amount_value r,
                             ti_refunded_value := ti_refunded_value t - te_amount_value r\<rparr>)
      in recalculate_base_amounts (be_request g) (be_success g) (be_failure g)
           Refund_Pending_Value Refunded_Value (Some Charged_Value) t)"

definition recalculate_cancel_amounts :: "cancel_events \<Rightarrow> transaction_item \<Rightarrow> transaction_item" where
  "recalculate_cancel_amounts g t =
     recalculate_base_amounts (be_request g) (be_success g) (be_failure g)
       Cancel_Pending_Value Canceled_Value (Some Authorized_Value) t"

section \<open>From events to groups\<close>

definition is_authorization_event :: "transaction_event \<Rightarrow> bool" where
  "is_authorization_event e \<longleftrightarrow> te_type e \<in> {AUTHORIZATION_SUCCESS, AUTHORIZATION_FAILURE,
     AUTHORIZATION_ADJUSTMENT, AUTHORIZATION_REQUEST}"

definition get_authorize_events :: "transaction_event list \<Rightarrow> transaction_event list" where
  \<comment> \<open>From the last adjustment on.\<close>
  "get_authorize_events events =
     (let authorize_events = filter is_authorization_event events
      in case find (\<lambda>e. te_type e = AUTHORIZATION_ADJUSTMENT) (rev authorize_events) of
           None \<Rightarrow> authorize_events
         | Some a \<Rightarrow> dropWhile (\<lambda>e. te_pk e \<noteq> te_pk a) authorize_events)"

definition handle_event_without_psp_reference :: "transaction_event \<Rightarrow> transaction_item \<Rightarrow> transaction_item" where
  "handle_event_without_psp_reference e t =
     (case te_type e of
        AUTHORIZATION_SUCCESS \<Rightarrow> t\<lparr>ti_authorized_value := ti_authorized_value t + te_amount_value e\<rparr>
      | AUTHORIZATION_ADJUSTMENT \<Rightarrow> t\<lparr>ti_authorized_value := te_amount_value e\<rparr>
      | CHARGE_SUCCESS \<Rightarrow> t\<lparr>ti_charged_value := ti_charged_value t + te_amount_value e\<rparr>
      | CHARGE_BACK \<Rightarrow> t\<lparr>ti_charged_value := ti_charged_value t - te_amount_value e\<rparr>
      | REFUND_SUCCESS \<Rightarrow> t\<lparr>ti_refunded_value := ti_refunded_value t + te_amount_value e\<rparr>
      | REFUND_REVERSE \<Rightarrow> t\<lparr>ti_charged_value := ti_charged_value t + te_amount_value e\<rparr>
      | CANCEL_SUCCESS \<Rightarrow> t\<lparr>ti_canceled_value := ti_canceled_value t + te_amount_value e\<rparr>
      | _ \<Rightarrow> t)"

definition handle_events_without_psp_reference :: "transaction_event list \<Rightarrow> transaction_item \<Rightarrow> transaction_item" where
  "handle_events_without_psp_reference events t = fold handle_event_without_psp_reference events t"

definition file_authorize_event :: "transaction_event \<Rightarrow> action_event_map \<Rightarrow> action_event_map" where
  "file_authorize_event e m =
     (if \<not> truthy_text (te_psp_reference e) then m\<lparr>without_psp_reference := without_psp_reference m @ [e]\<rparr>
      else
        let upd = (\<lambda>f. m\<lparr>authorization := dict_update no_authorization_events (the (te_psp_reference e)) f (authorization m)\<rparr>)
        in case te_type e of
             AUTHORIZATION_REQUEST \<Rightarrow> upd (\<lambda>g. g\<lparr>be_request := Some e\<rparr>)
           | AUTHORIZATION_SUCCESS \<Rightarrow> upd (\<lambda>g. g\<lparr>be_success := Some e\<rparr>)
           | AUTHORIZATION_FAILURE \<Rightarrow> upd (\<lambda>g. g\<lparr>be_failure := Some e\<rparr>)
           | AUTHORIZATION_ADJUSTMENT \<Rightarrow> upd (\<lambda>g. g\<lparr>ae_adjustment := Some e\<rparr>)
           | _ \<Rightarrow> m)"

definition file_event :: "transaction_event \<Rightarrow> action_event_map \<Rightarrow> action_event_map" where
  "file_event e m =
     (if \<not> truthy_text (te_psp_reference e) then m\<lparr>without_psp_reference := without_psp_reference m @ [e]\<rparr>
      else
        let p = the (te_psp_reference e);
            chg = (\<lambda>f. m\<lparr>charge := dict_update no_charge_events p f (charge m)\<rparr>);
            rfd = (\<lambda>f. m\<lparr>refund := dict_update no_refund_events p f (refund m)\<rparr>);
            cnl = (\<lambda>f. m\<lparr>cancel := dict_update no_events p f (cancel m)\<rparr>)
        in case te_type e of
             CHARGE_REQUEST \<Rightarrow> chg (\<lambda>g. g\<lparr>be_request := Some e\<rparr>)
           | CHARGE_SUCCESS \<Rightarrow> chg (\<lambda>g. g\<lparr>be_success := Some e\<rparr>)
           | CHARGE_FAILURE \<Rightarrow> chg (\<lambda>g. g\<lparr>be_failure := Some e\<rparr>)
           | CHARGE_BACK \<Rightarrow> chg (\<lambda>g. g\<lparr>ce_back := Some e\<rparr>)
           | REFUND_REQUEST \<Rightarrow> rfd (\<lambda>g. g\<lparr>be_request := Some e\<rparr>)
           | REFUND_FAILURE \<Rightarrow> rfd (\<lambda>g. g\<lparr>be_failure := Some e\<rparr>)
           | REFUND_SUCCESS \<Rightarrow> rfd (\<lambda>g. g\<lparr>be_success := Some e\<rparr>)
           | REFUND_REVERSE \<Rightarrow> rfd (\<lambda>g. g\<lparr>re_reverse := Some e\<rparr>)
           | CANCEL_REQUEST \<Rightarrow> cnl (\<lambda>g. g\<lparr>be_request := Some e\<rparr>)
           | CANCEL_SUCCESS \<Rightarrow> cnl (\<lambda>g. g\<lparr>be_success := Some e\<rparr>)
           | CANCEL_FAILURE \<Rightarrow> cnl (\<lambda>g. g\<lparr>be_failure := Some e\<rparr>)
           | _ \<Rightarrow> m)"

definition initilize_action_map :: "transaction_event list \<Rightarrow> action_event_map" where
  "initilize_action_map events =
     fold file_event (filter (\<lambda>e. \<not> is_authorization_event e) events)
       (fold file_authorize_event (get_authorize_events events)
         \<lparr>without_psp_reference = [], authorization = [], charge = [], refund = [], cancel = []\<rparr>)"

section \<open>The recalculation\<close>

definition set_transaction_amounts_to_zero :: "transaction_item \<Rightarrow> transaction_item" where
  "set_transaction_amounts_to_zero t = t\<lparr>ti_authorized_value := 0, ti_charged_value := 0,
     ti_refunded_value := 0, ti_canceled_value := 0, ti_authorize_pending_value := 0,
     ti_charge_pending_value := 0, ti_refund_pending_value := 0, ti_cancel_pending_value := 0\<rparr>"

definition events_of :: "env \<Rightarrow> transaction_event list \<Rightarrow> transaction_item \<Rightarrow> transaction_event list" where
  \<comment> \<open>\<open>transaction.events.order_by("created_at").exclude(include_in_calculations=False)\<close>\<close>
  "events_of e rows t = sort_key te_created_at (in_row_order e te_pk
     (filter (\<lambda>ev. te_transaction ev = ti_pk t \<and> te_include_in_calculations ev) rows))"

definition calculate_from :: "transaction_event list \<Rightarrow> transaction_item \<Rightarrow> transaction_item" where
  \<comment> \<open>The body of \<open>calculate_transaction_amount_based_on_events\<close>, after its query.\<close>
  "calculate_from events t =
     (let m = initilize_action_map events;
          t = set_transaction_amounts_to_zero t;
          t = handle_events_without_psp_reference (without_psp_reference m) t;
          t = fold recalculate_authorization_amounts (map snd (authorization m)) t;
          t = fold recalculate_charge_amounts (map snd (charge m)) t;
          t = fold recalculate_refund_amounts (map snd (refund m)) t
      in fold recalculate_cancel_amounts (map snd (cancel m)) t)"

definition calculate_transaction_amount_based_on_events ::
  "env \<Rightarrow> transaction_event list \<Rightarrow> transaction_item \<Rightarrow> transaction_item" where
  "calculate_transaction_amount_based_on_events e rows t = calculate_from (events_of e rows t) t"

definition recalculate_transaction_amounts ::
  "env \<Rightarrow> transaction_event list \<Rightarrow> transaction_item \<Rightarrow> transaction_item" where
  "recalculate_transaction_amounts e rows t =
     (let t = calculate_transaction_amount_based_on_events e rows t
      in t\<lparr>ti_authorized_value := max (ti_authorized_value t) 0,
           ti_authorize_pending_value := max (ti_authorize_pending_value t) 0\<rparr>)"

section \<open>Interfaces: attributes by name, dictionaries with a default\<close>

text \<open>
  What the code relies on of \<open>getattr\<close> and \<open>setattr\<close>, and what follows for a loop whose every step
  adds its own amount to an attribute.
\<close>

locale attributes =
  fixes getattr :: "'f \<Rightarrow> 'o \<Rightarrow> decimal"
    and setattr :: "'f \<Rightarrow> decimal \<Rightarrow> 'o \<Rightarrow> 'o"
  assumes get_set: "getattr g (setattr f v t) = (if g = f then v else getattr g t)"
begin

lemma get_add: "getattr g (setattr f (getattr f t + v) t) = getattr g t + (if g = f then v else 0)"
  by (simp add: get_set)

lemma get_sub: "getattr g (setattr f (getattr f t - v) t) = getattr g t - (if g = f then v else 0)"
  by (simp add: get_set)

lemma get_fold:
  assumes "\<And>x t. x \<in> set xs \<Longrightarrow> getattr g (step x t) = getattr g t + amount x"
  shows "getattr g (fold step xs t) = getattr g t + sum_list (map amount xs)"
  using assms by (induction xs arbitrary: t) (simp_all add: add.assoc)

end

interpretation item: attributes getattr_value setattr_value
proof
  show "getattr_value g (setattr_value f v t) = (if g = f then v else getattr_value g t)" for g f v t
    by (cases f; cases g) simp_all
qed

text \<open>
  What the code relies on of a \<open>defaultdict\<close>: reading after \<open>d[k].attr = ...\<close>.  The value of a
  key after a loop is what the steps for that key made of the default, in their order.
\<close>

locale default_dict =
  fixes new :: 'g and empty :: 'd
    and update :: "'k \<Rightarrow> ('g \<Rightarrow> 'g) \<Rightarrow> 'd \<Rightarrow> 'd"
    and get :: "'d \<Rightarrow> 'k \<Rightarrow> 'g" and keys :: "'d \<Rightarrow> 'k set"
  assumes get_update: "get (update k f d) k' = (if k' = k then f (get d k) else get d k')"
    and get_empty: "get empty k = new"
    and keys_update: "keys (update k f d) = insert k (keys d)"
    and keys_empty: "keys empty = {}"
begin

lemma get_loop: "get (fold (\<lambda>x. update (ref x) (act x)) xs d) k =
    fold act (filter (\<lambda>x. ref x = k) xs) (get d k)"
  by (induction xs arbitrary: d) (auto simp: get_update)

lemma keys_loop: "keys (fold (\<lambda>x. update (ref x) (act x)) xs d) = ref ` set xs \<union> keys d"
  by (induction xs arbitrary: d) (auto simp: keys_update)

lemma get_loop_empty: "get (fold (\<lambda>x. update (ref x) (act x)) xs empty) k =
    fold act (filter (\<lambda>x. ref x = k) xs) new"
  by (simp add: get_loop get_empty)

lemma keys_loop_empty: "keys (fold (\<lambda>x. update (ref x) (act x)) xs empty) = ref ` set xs"
  by (simp add: keys_loop keys_empty)

end

definition dict_get :: "'g \<Rightarrow> 'g groups \<Rightarrow> string \<Rightarrow> 'g" where
  "dict_get new ds k = (case map_of ds k of None \<Rightarrow> new | Some g \<Rightarrow> g)"

interpretation dict: default_dict new "[]" "dict_update new" "dict_get new" "\<lambda>ds. fst ` set ds" for new
proof
  show "dict_get new (dict_update new k f d) k' = (if k' = k then f (dict_get new d k) else dict_get new d k')"
    for k f d k'
    by (induction d) (auto simp: dict_get_def)
  show "fst ` set (dict_update new k f d) = insert k (fst ` set d)" for k f d
  proof (induction d)
    case (Cons x d)
    then show ?case by (cases x) (simp add: insert_commute)
  qed simp
qed (simp_all add: dict_get_def)

lemma dict_update_distinct: "distinct (map fst ds) \<Longrightarrow> distinct (map fst (dict_update new k f ds))"
proof (induction ds)
  case (Cons d ds)
  have "fst ` set (dict_update new k f ds) = insert k (fst ` set ds)" by (rule dict.keys_update)
  with Cons show ?case by (cases d) auto
qed simp

lemma dict_loop_distinct:
  "distinct (map fst ds) \<Longrightarrow> distinct (map fst (fold (\<lambda>x. dict_update new (ref x) (act x)) xs ds))"
  by (induction xs arbitrary: ds) (auto simp: dict_update_distinct)

text \<open>The sum over the groups of a dictionary, as a sum over references.\<close>

lemma groups_sum:
  assumes "distinct (map fst ds)" and "fst ` set ds \<subseteq> R" and "finite R" and "amount new = 0"
  shows "sum_list (map amount (map snd ds)) = (\<Sum>p \<in> R. amount (dict_get new ds p))"
proof -
  have "sum_list (map amount (map snd ds)) = (\<Sum>p \<in> fst ` set ds. amount (dict_get new ds p))"
    using assms(1)
  proof (induction ds)
    case (Cons d ds)
    obtain k g where d: "d = (k, g)" by (cases d)
    have "(\<Sum>p \<in> fst ` set ds. amount (dict_get new (d # ds) p)) = (\<Sum>p \<in> fst ` set ds. amount (dict_get new ds p))"
      by (rule sum.cong) (use Cons.prems d in \<open>auto simp: dict_get_def\<close>)
    moreover have "amount (dict_get new (d # ds) k) = amount g" by (simp add: d dict_get_def)
    ultimately show ?case using Cons d by simp
  qed simp
  also have "\<dots> = (\<Sum>p \<in> R. amount (dict_get new ds p))"
  proof (rule sum.mono_neutral_left [OF assms(3,2)])
    have "dict_get new ds p = new" if "p \<notin> fst ` set ds" for p
      using that map_of_eq_None_iff [of ds p] by (simp add: dict_get_def)
    then show "\<forall>p \<in> R - fst ` set ds. amount (dict_get new ds p) = 0" using assms(4) by simp
  qed
  finally show ?thesis .
qed

section \<open>What a group adds to each amount\<close>

definition pending_of :: "'a base_event_scheme \<Rightarrow> decimal" where
  "pending_of g = (if should_increase_pending_amount (be_request g) (be_success g) (be_failure g)
     then te_amount_value (the (be_request g)) else 0)"

definition counted_of :: "'a base_event_scheme \<Rightarrow> decimal" where
  "counted_of g = (if should_increse_amount (be_success g) (be_failure g)
     then te_amount_value (the (be_success g)) else 0)"

definition amount_of :: "transaction_event option \<Rightarrow> decimal" where
  "amount_of e = (case e of None \<Rightarrow> 0 | Some ev \<Rightarrow> te_amount_value ev)"

lemma get_move: "getattr_value f (move_amount v to from t) = getattr_value f t
    + (if f = to then v else 0) - (if from = Some f then v else 0)"
  by (auto simp: move_amount_def Let_def item.get_set split: option.split)

lemma get_base: "getattr_value f (recalculate_base_amounts (be_request g) (be_success g) (be_failure g) p a prev t)
    = getattr_value f t + (if f = p then pending_of g else 0) + (if f = a then counted_of g else 0)
      - (if prev = Some f then pending_of g + counted_of g else 0)"
  by (simp add: recalculate_base_amounts_def Let_def get_move pending_of_def counted_of_def)

definition charge_amount :: "amount_field \<Rightarrow> charge_events \<Rightarrow> decimal" where
  "charge_amount f g = (case f of Charged_Value \<Rightarrow> counted_of g - amount_of (ce_back g) | Charge_Pending_Value \<Rightarrow> pending_of g
     | Authorized_Value \<Rightarrow> - (pending_of g + counted_of g) | _ \<Rightarrow> 0)"

lemma get_charge: "getattr_value f (recalculate_charge_amounts g t) = getattr_value f t + charge_amount f g"
  by (cases f) (simp_all add: charge_amount_def recalculate_charge_amounts_def Let_def get_base amount_of_def split: option.split)

definition refund_amount :: "amount_field \<Rightarrow> refund_events \<Rightarrow> decimal" where
  "refund_amount f g = (case f of Refunded_Value \<Rightarrow> counted_of g - amount_of (re_reverse g) | Refund_Pending_Value \<Rightarrow> pending_of g
     | Charged_Value \<Rightarrow> amount_of (re_reverse g) - (pending_of g + counted_of g) | _ \<Rightarrow> 0)"

lemma get_refund: "getattr_value f (recalculate_refund_amounts g t) = getattr_value f t + refund_amount f g"
  by (cases f) (simp_all add: refund_amount_def recalculate_refund_amounts_def Let_def get_base amount_of_def split: option.split)

definition cancel_amount :: "amount_field \<Rightarrow> cancel_events \<Rightarrow> decimal" where
  "cancel_amount f g = (case f of Canceled_Value \<Rightarrow> counted_of g | Cancel_Pending_Value \<Rightarrow> pending_of g
     | Authorized_Value \<Rightarrow> - (pending_of g + counted_of g) | _ \<Rightarrow> 0)"

lemma get_cancel: "getattr_value f (recalculate_cancel_amounts g t) = getattr_value f t + cancel_amount f g"
  by (cases f) (simp_all add: cancel_amount_def recalculate_cancel_amounts_def get_base)

lemma get_authorization: "ae_adjustment g = None \<or> f \<noteq> Authorized_Value \<Longrightarrow>
  getattr_value f (recalculate_authorization_amounts g t) = getattr_value f t +
    (case f of Authorized_Value \<Rightarrow> counted_of g | Authorize_Pending_Value \<Rightarrow> pending_of g | _ \<Rightarrow> 0)"
  by (cases f) (auto simp: recalculate_authorization_amounts_def Let_def get_base split: option.split)

lemma get_authorization_adjusted: "ae_adjustment g = Some a \<Longrightarrow>
  getattr_value Authorized_Value (recalculate_authorization_amounts g t) = te_amount_value a + counted_of g"
  using get_base [of Authorized_Value g]
  by (simp add: recalculate_authorization_amounts_def Let_def)

section \<open>The groups, in terms of the events\<close>

definition has_ref :: "transaction_event \<Rightarrow> bool" where
  "has_ref e = truthy_text (te_psp_reference e)"

definition ref_of :: "transaction_event \<Rightarrow> string" where
  "ref_of e = the (te_psp_reference e)"

text \<open>The newest event of a type with a reference.\<close>

definition last_of :: "transaction_event list \<Rightarrow> string \<Rightarrow> transaction_event_type \<Rightarrow> transaction_event option" where
  "last_of es p ty = find (\<lambda>e. has_ref e \<and> ref_of e = p \<and> te_type e = ty) (rev es)"

definition group_types :: "transaction_event_type set \<Rightarrow> transaction_event \<Rightarrow> bool" where
  "group_types tys e \<longleftrightarrow> has_ref e \<and> te_type e \<in> tys"

definition file_auth :: "transaction_event \<Rightarrow> authorization_events \<Rightarrow> authorization_events" where
  "file_auth e g = (case te_type e of AUTHORIZATION_REQUEST \<Rightarrow> g\<lparr>be_request := Some e\<rparr>
     | AUTHORIZATION_SUCCESS \<Rightarrow> g\<lparr>be_success := Some e\<rparr>
     | AUTHORIZATION_FAILURE \<Rightarrow> g\<lparr>be_failure := Some e\<rparr>
     | AUTHORIZATION_ADJUSTMENT \<Rightarrow> g\<lparr>ae_adjustment := Some e\<rparr> | _ \<Rightarrow> g)"

definition file_charge :: "transaction_event \<Rightarrow> charge_events \<Rightarrow> charge_events" where
  "file_charge e g = (case te_type e of CHARGE_REQUEST \<Rightarrow> g\<lparr>be_request := Some e\<rparr>
     | CHARGE_SUCCESS \<Rightarrow> g\<lparr>be_success := Some e\<rparr>
     | CHARGE_FAILURE \<Rightarrow> g\<lparr>be_failure := Some e\<rparr>
     | CHARGE_BACK \<Rightarrow> g\<lparr>ce_back := Some e\<rparr> | _ \<Rightarrow> g)"

definition file_refund :: "transaction_event \<Rightarrow> refund_events \<Rightarrow> refund_events" where
  "file_refund e g = (case te_type e of REFUND_REQUEST \<Rightarrow> g\<lparr>be_request := Some e\<rparr>
     | REFUND_SUCCESS \<Rightarrow> g\<lparr>be_success := Some e\<rparr>
     | REFUND_FAILURE \<Rightarrow> g\<lparr>be_failure := Some e\<rparr>
     | REFUND_REVERSE \<Rightarrow> g\<lparr>re_reverse := Some e\<rparr> | _ \<Rightarrow> g)"

definition file_cancel :: "transaction_event \<Rightarrow> cancel_events \<Rightarrow> cancel_events" where
  "file_cancel e g = (case te_type e of CANCEL_REQUEST \<Rightarrow> g\<lparr>be_request := Some e\<rparr>
     | CANCEL_SUCCESS \<Rightarrow> g\<lparr>be_success := Some e\<rparr>
     | CANCEL_FAILURE \<Rightarrow> g\<lparr>be_failure := Some e\<rparr> | _ \<Rightarrow> g)"

abbreviation "auth_types \<equiv> {AUTHORIZATION_SUCCESS, AUTHORIZATION_FAILURE, AUTHORIZATION_ADJUSTMENT, AUTHORIZATION_REQUEST}"
abbreviation "charge_types \<equiv> {CHARGE_REQUEST, CHARGE_SUCCESS, CHARGE_FAILURE, CHARGE_BACK}"
abbreviation "refund_types \<equiv> {REFUND_REQUEST, REFUND_SUCCESS, REFUND_FAILURE, REFUND_REVERSE}"
abbreviation "cancel_types \<equiv> {CANCEL_REQUEST, CANCEL_SUCCESS, CANCEL_FAILURE}"

lemma file_authorize_event_fields:
  "without_psp_reference (file_authorize_event e m) = without_psp_reference m @ (if has_ref e then [] else [e])"
  "authorization (file_authorize_event e m) = (if group_types auth_types e
     then dict_update no_authorization_events (ref_of e) (file_auth e) (authorization m) else authorization m)"
  "charge (file_authorize_event e m) = charge m" "refund (file_authorize_event e m) = refund m"
  "cancel (file_authorize_event e m) = cancel m"
  by (cases "te_type e"; simp add: file_authorize_event_def has_ref_def ref_of_def group_types_def
      file_auth_def [abs_def] Let_def)+

lemma file_event_fields:
  "without_psp_reference (file_event e m) = without_psp_reference m @ (if has_ref e then [] else [e])"
  "authorization (file_event e m) = authorization m"
  "charge (file_event e m) = (if group_types charge_types e
     then dict_update no_charge_events (ref_of e) (file_charge e) (charge m) else charge m)"
  "refund (file_event e m) = (if group_types refund_types e
     then dict_update no_refund_events (ref_of e) (file_refund e) (refund m) else refund m)"
  "cancel (file_event e m) = (if group_types cancel_types e
     then dict_update no_events (ref_of e) (file_cancel e) (cancel m) else cancel m)"
  by (cases "te_type e"; simp add: file_event_def has_ref_def ref_of_def group_types_def
      file_charge_def [abs_def] file_refund_def [abs_def] file_cancel_def [abs_def] Let_def)+

abbreviation file_all :: "'g \<Rightarrow> (transaction_event \<Rightarrow> 'g \<Rightarrow> 'g) \<Rightarrow> transaction_event_type set
  \<Rightarrow> transaction_event list \<Rightarrow> 'g groups \<Rightarrow> 'g groups" where
  "file_all new act tys es ds \<equiv>
     fold (\<lambda>e. dict_update new (ref_of e) (act e)) (filter (group_types tys) es) ds"

lemma fold_file_authorize_event:
  "without_psp_reference (fold file_authorize_event es m) = without_psp_reference m @ filter (\<lambda>e. \<not> has_ref e) es"
  "authorization (fold file_authorize_event es m) = file_all no_authorization_events file_auth auth_types es (authorization m)"
  "charge (fold file_authorize_event es m) = charge m" "refund (fold file_authorize_event es m) = refund m"
  "cancel (fold file_authorize_event es m) = cancel m"
  by (induction es arbitrary: m) (simp_all add: file_authorize_event_fields)

lemma fold_file_event:
  "without_psp_reference (fold file_event es m) = without_psp_reference m @ filter (\<lambda>e. \<not> has_ref e) es"
  "authorization (fold file_event es m) = authorization m"
  "charge (fold file_event es m) = file_all no_charge_events file_charge charge_types es (charge m)"
  "refund (fold file_event es m) = file_all no_refund_events file_refund refund_types es (refund m)"
  "cancel (fold file_event es m) = file_all no_events file_cancel cancel_types es (cancel m)"
  by (induction es arbitrary: m) (simp_all add: file_event_fields)

text \<open>What filing leaves in a slot: the newest event of its type, or what was there.\<close>

lemma slot_loop:
  assumes "\<And>e g. slot (act e g) = (if te_type e = ty then Some e else slot g)" and "ty \<in> tys"
  shows "slot (fold act (filter (\<lambda>e. ref_of e = p) (filter (group_types tys) es)) g) =
    (case last_of es p ty of None \<Rightarrow> slot g | Some e \<Rightarrow> Some e)"
proof (induction es rule: rev_induct)
  case (snoc e es)
  then show ?case using assms by (auto simp: last_of_def group_types_def)
qed (simp add: last_of_def)

lemma slots:
  "be_request (file_auth e ga) = (if te_type e = AUTHORIZATION_REQUEST then Some e else be_request ga)"
  "be_success (file_auth e ga) = (if te_type e = AUTHORIZATION_SUCCESS then Some e else be_success ga)"
  "be_failure (file_auth e ga) = (if te_type e = AUTHORIZATION_FAILURE then Some e else be_failure ga)"
  "ae_adjustment (file_auth e ga) = (if te_type e = AUTHORIZATION_ADJUSTMENT then Some e else ae_adjustment ga)"
  "be_request (file_charge e gc) = (if te_type e = CHARGE_REQUEST then Some e else be_request gc)"
  "be_success (file_charge e gc) = (if te_type e = CHARGE_SUCCESS then Some e else be_success gc)"
  "be_failure (file_charge e gc) = (if te_type e = CHARGE_FAILURE then Some e else be_failure gc)"
  "ce_back (file_charge e gc) = (if te_type e = CHARGE_BACK then Some e else ce_back gc)"
  "be_request (file_refund e gr) = (if te_type e = REFUND_REQUEST then Some e else be_request gr)"
  "be_success (file_refund e gr) = (if te_type e = REFUND_SUCCESS then Some e else be_success gr)"
  "be_failure (file_refund e gr) = (if te_type e = REFUND_FAILURE then Some e else be_failure gr)"
  "re_reverse (file_refund e gr) = (if te_type e = REFUND_REVERSE then Some e else re_reverse gr)"
  "be_request (file_cancel e gn) = (if te_type e = CANCEL_REQUEST then Some e else be_request gn)"
  "be_success (file_cancel e gn) = (if te_type e = CANCEL_SUCCESS then Some e else be_success gn)"
  "be_failure (file_cancel e gn) = (if te_type e = CANCEL_FAILURE then Some e else be_failure gn)"
  by (cases "te_type e"; simp add: file_auth_def file_charge_def file_refund_def file_cancel_def)+

section \<open>The amounts, as sums over the events\<close>

definition refs :: "transaction_event list \<Rightarrow> string set" where
  "refs es = ref_of ` set (filter has_ref es)"

definition pending_amount :: "transaction_event list \<Rightarrow> transaction_event_type \<Rightarrow> transaction_event_type
  \<Rightarrow> transaction_event_type \<Rightarrow> string \<Rightarrow> decimal" where
  \<comment> \<open>A request that neither succeeded nor failed yet.\<close>
  "pending_amount es request success failure p =
     (if last_of es p success = None \<and> last_of es p failure = None then amount_of (last_of es p request) else 0)"

definition counted_amount :: "transaction_event list \<Rightarrow> transaction_event_type \<Rightarrow> transaction_event_type
  \<Rightarrow> string \<Rightarrow> decimal" where
  \<comment> \<open>A success that no failure of the same time or later takes back.\<close>
  "counted_amount es success failure p = (case last_of es p success of None \<Rightarrow> 0
     | Some s \<Rightarrow> (case last_of es p failure of None \<Rightarrow> te_amount_value s
         | Some f \<Rightarrow> if te_created_at f < te_created_at s then te_amount_value s else 0))"

definition unreferenced :: "transaction_event list \<Rightarrow> transaction_event_type \<Rightarrow> decimal" where
  "unreferenced es ty = sum_list (map te_amount_value (filter (\<lambda>e. \<not> has_ref e \<and> te_type e = ty) es))"

definition authorized_start :: "transaction_event list \<Rightarrow> decimal" where
  \<comment> \<open>What the newest adjustment sets; the events without a reference count on top of it only
      when the adjustment has none either.\<close>
  "authorized_start es = (case get_authorize_events es of [] \<Rightarrow> 0
     | a # as \<Rightarrow>
         (if te_type a = AUTHORIZATION_ADJUSTMENT
          then te_amount_value a + (if has_ref a then 0 else unreferenced as AUTHORIZATION_SUCCESS)
          else unreferenced (a # as) AUTHORIZATION_SUCCESS))"

definition moved :: "transaction_event list \<Rightarrow> transaction_event_type \<Rightarrow> transaction_event_type
  \<Rightarrow> transaction_event_type \<Rightarrow> decimal" where
  \<comment> \<open>What an action takes away from the amount it acts on.\<close>
  "moved es request success failure =
     (\<Sum>p \<in> refs es. pending_amount es request success failure p + counted_amount es success failure p)"

fun spec_amount :: "amount_field \<Rightarrow> transaction_event list \<Rightarrow> decimal" where
  "spec_amount Authorized_Value es = authorized_start es
     + (\<Sum>p \<in> refs es. counted_amount (get_authorize_events es) AUTHORIZATION_SUCCESS AUTHORIZATION_FAILURE p)
     - moved es CHARGE_REQUEST CHARGE_SUCCESS CHARGE_FAILURE - moved es CANCEL_REQUEST CANCEL_SUCCESS CANCEL_FAILURE"
| "spec_amount Authorize_Pending_Value es = (\<Sum>p \<in> refs es.
     pending_amount (get_authorize_events es) AUTHORIZATION_REQUEST AUTHORIZATION_SUCCESS AUTHORIZATION_FAILURE p)"
| "spec_amount Charged_Value es = unreferenced es CHARGE_SUCCESS - unreferenced es CHARGE_BACK
     + unreferenced es REFUND_REVERSE
     + (\<Sum>p \<in> refs es. counted_amount es CHARGE_SUCCESS CHARGE_FAILURE p - amount_of (last_of es p CHARGE_BACK))
     + (\<Sum>p \<in> refs es. amount_of (last_of es p REFUND_REVERSE))
     - moved es REFUND_REQUEST REFUND_SUCCESS REFUND_FAILURE"
| "spec_amount Charge_Pending_Value es =
     (\<Sum>p \<in> refs es. pending_amount es CHARGE_REQUEST CHARGE_SUCCESS CHARGE_FAILURE p)"
| "spec_amount Refunded_Value es = unreferenced es REFUND_SUCCESS
     + (\<Sum>p \<in> refs es. counted_amount es REFUND_SUCCESS REFUND_FAILURE p - amount_of (last_of es p REFUND_REVERSE))"
| "spec_amount Refund_Pending_Value es =
     (\<Sum>p \<in> refs es. pending_amount es REFUND_REQUEST REFUND_SUCCESS REFUND_FAILURE p)"
| "spec_amount Canceled_Value es = unreferenced es CANCEL_SUCCESS
     + (\<Sum>p \<in> refs es. counted_amount es CANCEL_SUCCESS CANCEL_FAILURE p)"
| "spec_amount Cancel_Pending_Value es =
     (\<Sum>p \<in> refs es. pending_amount es CANCEL_REQUEST CANCEL_SUCCESS CANCEL_FAILURE p)"

section \<open>The authorization events from the last adjustment on\<close>

lemma find_rev_split: "find P (rev xs) = Some a \<Longrightarrow> \<exists>us vs. xs = us @ a # vs \<and> P a \<and> (\<forall>v \<in> set vs. \<not> P v)"
proof (induction xs rule: rev_induct)
  case (snoc x xs)
  show ?case
  proof (cases "P x")
    case True
    with snoc.prems show ?thesis by (intro exI [of _ xs] exI [of _ "[]"]) auto
  next
    case False
    with snoc obtain us vs where "xs = us @ a # vs" "P a" "\<forall>v \<in> set vs. \<not> P v" by auto
    with False show ?thesis by (intro exI [of _ us] exI [of _ "vs @ [x]"]) auto
  qed
qed simp

abbreviation "is_adjustment e \<equiv> te_type e = AUTHORIZATION_ADJUSTMENT"

lemma get_authorize_events_cases:
  assumes "distinct (map te_pk es)"
  obtains (plain) "\<forall>e \<in> set (get_authorize_events es). \<not> is_adjustment e"
  | (adjusted) a ys where "get_authorize_events es = a # ys" "is_adjustment a" "\<forall>e \<in> set ys. \<not> is_adjustment e"
proof (cases "find is_adjustment (rev (filter is_authorization_event es))")
  case None
  then have "get_authorize_events es = filter is_authorization_event es"
    by (simp add: get_authorize_events_def)
  moreover from None have "\<forall>e \<in> set (filter is_authorization_event es). \<not> is_adjustment e"
    unfolding find_None_iff by simp
  ultimately show thesis using plain by simp
next
  case (Some a)
  from find_rev_split [OF this] obtain us vs where split: "filter is_authorization_event es = us @ a # vs"
    "is_adjustment a" "\<forall>v \<in> set vs. \<not> is_adjustment v" by blast
  have "distinct (map te_pk (us @ a # vs))"
    using assms split(1) by (metis distinct_map_filter)
  then have "dropWhile (\<lambda>e. te_pk e \<noteq> te_pk a) (us @ a # vs) = a # vs"
    by (subst dropWhile_append2) (auto simp: image_iff)
  with Some split adjusted show thesis by (simp add: get_authorize_events_def)
qed

lemma get_authorize_events_in: "set (get_authorize_events es) \<subseteq> set (filter is_authorization_event es)"
  by (auto simp: get_authorize_events_def Let_def split: option.splits dest: set_dropWhileD)

section \<open>Events without a reference\<close>

definition typed_sum :: "transaction_event_type \<Rightarrow> transaction_event list \<Rightarrow> decimal" where
  "typed_sum ty es = sum_list (map (\<lambda>e. if te_type e = ty then te_amount_value e else 0) es)"

lemma typed_sum_simps [simp]:
  "typed_sum ty [] = 0" "typed_sum ty (e # es) = (if te_type e = ty then te_amount_value e else 0) + typed_sum ty es"
  "typed_sum ty (xs @ ys) = typed_sum ty xs + typed_sum ty ys"
  by (simp_all add: typed_sum_def)

lemma typed_sum_none: "\<forall>e \<in> set es. te_type e \<noteq> ty \<Longrightarrow> typed_sum ty es = 0"
  by (induction es) auto

lemma unreferenced_alt: "unreferenced es ty = typed_sum ty (filter (\<lambda>e. \<not> has_ref e) es)"
  by (induction es) (auto simp: unreferenced_def)

lemma unreferenced_loop:
  "f \<noteq> Authorized_Value \<Longrightarrow> getattr_value f (handle_events_without_psp_reference es t) = getattr_value f t +
    (case f of Charged_Value \<Rightarrow> typed_sum CHARGE_SUCCESS es - typed_sum CHARGE_BACK es + typed_sum REFUND_REVERSE es
     | Refunded_Value \<Rightarrow> typed_sum REFUND_SUCCESS es | Canceled_Value \<Rightarrow> typed_sum CANCEL_SUCCESS es | _ \<Rightarrow> 0)"
proof (induction es arbitrary: t)
  case (Cons e es)
  have "getattr_value f (handle_event_without_psp_reference e t) = getattr_value f t +
    (case f of Charged_Value \<Rightarrow> typed_sum CHARGE_SUCCESS [e] - typed_sum CHARGE_BACK [e] + typed_sum REFUND_REVERSE [e]
     | Refunded_Value \<Rightarrow> typed_sum REFUND_SUCCESS [e] | Canceled_Value \<Rightarrow> typed_sum CANCEL_SUCCESS [e] | _ \<Rightarrow> 0)"
    using Cons.prems by (cases "te_type e"; cases f) (simp_all add: handle_event_without_psp_reference_def)
  with Cons.IH [OF Cons.prems, of "handle_event_without_psp_reference e t"] show ?case
    by (cases f) (simp_all add: handle_events_without_psp_reference_def)
qed (cases f; simp add: handle_events_without_psp_reference_def)

lemma unreferenced_loop_authorized:
  "\<forall>e \<in> set es. \<not> is_adjustment e \<Longrightarrow>
   ti_authorized_value (handle_events_without_psp_reference es t) = ti_authorized_value t + typed_sum AUTHORIZATION_SUCCESS es"
proof (induction es arbitrary: t)
  case (Cons e es)
  from Cons.prems have "ti_authorized_value (handle_event_without_psp_reference e t)
      = ti_authorized_value t + typed_sum AUTHORIZATION_SUCCESS [e]"
    by (cases "te_type e") (simp_all add: handle_event_without_psp_reference_def)
  with Cons.IH [of "handle_event_without_psp_reference e t"] Cons.prems show ?case
    by (simp add: handle_events_without_psp_reference_def)
qed (simp add: handle_events_without_psp_reference_def)

definition unreferenced_events :: "transaction_event list \<Rightarrow> transaction_event list" where
  "unreferenced_events es = filter (\<lambda>e. \<not> has_ref e) (get_authorize_events es)
     @ filter (\<lambda>e. \<not> has_ref e) (filter (\<lambda>e. \<not> is_authorization_event e) es)"

lemma auth_event_type: "is_authorization_event e \<longleftrightarrow> te_type e \<in> auth_types"
  by (simp add: is_authorization_event_def)

lemma typed_sum_unreferenced:
  "ty \<notin> auth_types \<Longrightarrow> typed_sum ty (unreferenced_events es) = unreferenced es ty"
  "ty \<in> auth_types \<Longrightarrow> typed_sum ty (unreferenced_events es) = unreferenced (get_authorize_events es) ty"
proof -
  have other: "typed_sum ty (filter (\<lambda>e. \<not> has_ref e) (filter (\<lambda>e. \<not> is_authorization_event e) xs))
      = (if ty \<in> auth_types then 0 else unreferenced xs ty)" for xs
    unfolding unreferenced_alt by (induction xs) (auto simp: auth_event_type)
  have "typed_sum ty (filter (\<lambda>e. \<not> has_ref e) (get_authorize_events es)) = 0" if "ty \<notin> auth_types"
    by (rule typed_sum_none) (use get_authorize_events_in [of es] that in \<open>auto simp: auth_event_type\<close>)
  with other show "ty \<notin> auth_types \<Longrightarrow> typed_sum ty (unreferenced_events es) = unreferenced es ty"
    and "ty \<in> auth_types \<Longrightarrow> typed_sum ty (unreferenced_events es) = unreferenced (get_authorize_events es) ty"
    by (simp_all add: unreferenced_events_def unreferenced_alt [of "get_authorize_events es"])
qed

lemma unreferenced_authorized:
  assumes "distinct (map te_pk es)" and "ti_authorized_value t = 0"
  shows "ti_authorized_value (handle_events_without_psp_reference (unreferenced_events es) t) =
    (case get_authorize_events es of
       a # as \<Rightarrow> if is_adjustment a \<and> has_ref a then unreferenced as AUTHORIZATION_SUCCESS else authorized_start es
     | [] \<Rightarrow> 0)"
proof -
  have others: "\<forall>e \<in> set (filter (\<lambda>e. \<not> has_ref e) (filter (\<lambda>e. \<not> is_authorization_event e) es)). \<not> is_adjustment e"
    by (auto simp: auth_event_type)
  from assms(1) show ?thesis
  proof (cases rule: get_authorize_events_cases)
    case plain
    with others have "\<forall>e \<in> set (unreferenced_events es). \<not> is_adjustment e" by (auto simp: unreferenced_events_def)
    from unreferenced_loop_authorized [OF this, of t] assms(2) plain show ?thesis
      by (cases "get_authorize_events es")
        (auto simp: typed_sum_unreferenced authorized_start_def unreferenced_def)
  next
    case (adjusted a ys)
    let ?rest = "filter (\<lambda>e. \<not> has_ref e) ys @ filter (\<lambda>e. \<not> has_ref e) (filter (\<lambda>e. \<not> is_authorization_event e) es)"
    have rest: "\<forall>e \<in> set ?rest. \<not> is_adjustment e" using adjusted(3) others by auto
    have zero: "typed_sum AUTHORIZATION_SUCCESS (filter (\<lambda>e. \<not> has_ref e) (filter (\<lambda>e. \<not> is_authorization_event e) es)) = 0"
      by (rule typed_sum_none) (auto simp: auth_event_type)
    show ?thesis
    proof (cases "has_ref a")
      case True
      then have "unreferenced_events es = ?rest" by (simp add: unreferenced_events_def adjusted(1))
      with unreferenced_loop_authorized [OF rest, of t] True adjusted(1,2) assms(2) zero show ?thesis
        by (simp add: unreferenced_alt)
    next
      case False
      then have "unreferenced_events es = a # ?rest" by (simp add: unreferenced_events_def adjusted(1))
      with unreferenced_loop_authorized [OF rest, of "t\<lparr>ti_authorized_value := te_amount_value a\<rparr>"]
        False adjusted(1,2) zero show ?thesis
        by (simp add: unreferenced_alt handle_events_without_psp_reference_def authorized_start_def
            handle_event_without_psp_reference_def)
    qed
  qed
qed

section \<open>The groups\<close>

lemma refs_finite [simp]: "finite (refs es)"
  by (simp add: refs_def)

lemma file_all_distinct: "distinct (map fst (file_all new act tys xs []))"
  by (rule dict_loop_distinct) simp

lemma file_all_sum:
  assumes "set xs \<subseteq> set es" and "amount new = 0"
  shows "sum_list (map amount (map snd (file_all new act tys xs []))) =
    (\<Sum>p \<in> refs es. amount (fold act (filter (\<lambda>e. ref_of e = p) (filter (group_types tys) xs)) new))"
proof -
  have "fst ` set (file_all new act tys xs []) \<subseteq> refs es"
    using assms(1) by (auto simp: dict.keys_loop_empty refs_def group_types_def)
  from groups_sum [OF file_all_distinct this refs_finite, of amount, OF assms(2)] show ?thesis
    by (simp add: dict.get_loop_empty)
qed

lemma file_all_member: "(p, g) \<in> set (file_all new act tys xs []) \<Longrightarrow>
  g = fold act (filter (\<lambda>e. ref_of e = p) (filter (group_types tys) xs)) new"
  using file_all_distinct [of new act tys xs] dict.get_loop_empty [where new = new and ref = ref_of and act = act
      and xs = "filter (group_types tys) xs" and k = p]
  by (simp add: dict_get_def map_of_is_SomeI)

lemma group_amounts:
  assumes "be_request g = last_of es p request" "be_success g = last_of es p success"
    "be_failure g = last_of es p failure"
  shows "pending_of g = pending_amount es request success failure p"
    and "counted_of g = counted_amount es success failure p"
  unfolding pending_of_def counted_of_def pending_amount_def counted_amount_def assms
    should_increase_pending_amount_def should_increse_amount_def
  by (auto simp: amount_of_def split: option.splits)

abbreviation group_at :: "'g \<Rightarrow> (transaction_event \<Rightarrow> 'g \<Rightarrow> 'g) \<Rightarrow> transaction_event_type set
  \<Rightarrow> transaction_event list \<Rightarrow> string \<Rightarrow> 'g" where
  "group_at new act tys xs p \<equiv> fold act (filter (\<lambda>e. ref_of e = p) (filter (group_types tys) xs)) new"

lemma auth_slots:
  "be_request (group_at no_authorization_events file_auth auth_types es p) = last_of es p AUTHORIZATION_REQUEST"
  "be_success (group_at no_authorization_events file_auth auth_types es p) = last_of es p AUTHORIZATION_SUCCESS"
  "be_failure (group_at no_authorization_events file_auth auth_types es p) = last_of es p AUTHORIZATION_FAILURE"
  "ae_adjustment (group_at no_authorization_events file_auth auth_types es p) = last_of es p AUTHORIZATION_ADJUSTMENT"
  by (induction es rule: rev_induct, simp_all add: last_of_def group_types_def slots no_authorization_events_def)+

lemmas auth_group = group_amounts [OF auth_slots(1-3)] auth_slots(4)

lemma charge_slots:
  "be_request (group_at no_charge_events file_charge charge_types es p) = last_of es p CHARGE_REQUEST"
  "be_success (group_at no_charge_events file_charge charge_types es p) = last_of es p CHARGE_SUCCESS"
  "be_failure (group_at no_charge_events file_charge charge_types es p) = last_of es p CHARGE_FAILURE"
  "ce_back (group_at no_charge_events file_charge charge_types es p) = last_of es p CHARGE_BACK"
  by (induction es rule: rev_induct, simp_all add: last_of_def group_types_def slots no_charge_events_def)+

lemmas charge_group = group_amounts [OF charge_slots(1-3)] charge_slots(4)

lemma refund_slots:
  "be_request (group_at no_refund_events file_refund refund_types es p) = last_of es p REFUND_REQUEST"
  "be_success (group_at no_refund_events file_refund refund_types es p) = last_of es p REFUND_SUCCESS"
  "be_failure (group_at no_refund_events file_refund refund_types es p) = last_of es p REFUND_FAILURE"
  "re_reverse (group_at no_refund_events file_refund refund_types es p) = last_of es p REFUND_REVERSE"
  by (induction es rule: rev_induct, simp_all add: last_of_def group_types_def slots no_refund_events_def)+

lemmas refund_group = group_amounts [OF refund_slots(1-3)] refund_slots(4)

lemma cancel_slots:
  "be_request (group_at no_events file_cancel cancel_types es p) = last_of es p CANCEL_REQUEST"
  "be_success (group_at no_events file_cancel cancel_types es p) = last_of es p CANCEL_SUCCESS"
  "be_failure (group_at no_events file_cancel cancel_types es p) = last_of es p CANCEL_FAILURE"
  by (induction es rule: rev_induct, simp_all add: last_of_def group_types_def slots no_events_def)+

lemmas cancel_group = group_amounts [OF cancel_slots(1-3)]

lemma last_of_others:
  assumes "ty \<notin> auth_types"
  shows "last_of (filter (\<lambda>e. \<not> is_authorization_event e) es) p ty = last_of es p ty"
  by (induction es rule: rev_induct) (use assms in \<open>auto simp: last_of_def auth_event_type\<close>)

lemma pending_of_others:
  assumes "request \<notin> auth_types" "success \<notin> auth_types" "failure \<notin> auth_types"
  shows "pending_amount (filter (\<lambda>e. \<not> is_authorization_event e) es) request success failure p
      = pending_amount es request success failure p"
  unfolding pending_amount_def last_of_others [OF assms(1)] last_of_others [OF assms(2)]
    last_of_others [OF assms(3)] by (rule refl)

lemma counted_of_others:
  assumes "success \<notin> auth_types" "failure \<notin> auth_types"
  shows "counted_amount (filter (\<lambda>e. \<not> is_authorization_event e) es) success failure p
      = counted_amount es success failure p"
  unfolding counted_amount_def last_of_others [OF assms(1)] last_of_others [OF assms(2)] by (rule refl)

lemma new_groups_zero:
  "pending_of no_authorization_events = 0" "counted_of no_authorization_events = 0"
  "pending_of no_charge_events = 0" "counted_of no_charge_events = 0" "ce_back no_charge_events = None"
  "pending_of no_refund_events = 0" "counted_of no_refund_events = 0" "re_reverse no_refund_events = None"
  "pending_of no_events = 0" "counted_of no_events = 0"
  by (simp_all add: pending_of_def counted_of_def no_authorization_events_def no_charge_events_def
      no_refund_events_def no_events_def should_increase_pending_amount_def should_increse_amount_def)

section \<open>The loops over the groups\<close>

abbreviation others :: "transaction_event list \<Rightarrow> transaction_event list" where
  "others es \<equiv> filter (\<lambda>e. \<not> is_authorization_event e) es"

lemma others_loop:
  assumes "\<And>g t. getattr_value f (step g t) = getattr_value f t + amount g" and "amount new = 0"
  shows "getattr_value f (fold step (map snd (file_all new act tys (others es) [])) t) =
    getattr_value f t + (\<Sum>p \<in> refs es. amount (group_at new act tys (others es) p))"
proof -
  have "set (others es) \<subseteq> set es" by auto
  from file_all_sum [OF this, of amount, OF assms(2)] item.get_fold [of _ f step amount, OF assms(1)]
  show ?thesis by simp
qed

lemma others_amounts:
  "pending_amount (others es) CHARGE_REQUEST CHARGE_SUCCESS CHARGE_FAILURE p = pending_amount es CHARGE_REQUEST CHARGE_SUCCESS CHARGE_FAILURE p"
  "counted_amount (others es) CHARGE_SUCCESS CHARGE_FAILURE p = counted_amount es CHARGE_SUCCESS CHARGE_FAILURE p"
  "pending_amount (others es) REFUND_REQUEST REFUND_SUCCESS REFUND_FAILURE p = pending_amount es REFUND_REQUEST REFUND_SUCCESS REFUND_FAILURE p"
  "counted_amount (others es) REFUND_SUCCESS REFUND_FAILURE p = counted_amount es REFUND_SUCCESS REFUND_FAILURE p"
  "pending_amount (others es) CANCEL_REQUEST CANCEL_SUCCESS CANCEL_FAILURE p = pending_amount es CANCEL_REQUEST CANCEL_SUCCESS CANCEL_FAILURE p"
  "counted_amount (others es) CANCEL_SUCCESS CANCEL_FAILURE p = counted_amount es CANCEL_SUCCESS CANCEL_FAILURE p"
  "last_of (others es) p CHARGE_BACK = last_of es p CHARGE_BACK"
  "last_of (others es) p REFUND_REVERSE = last_of es p REFUND_REVERSE"
  by (rule pending_of_others counted_of_others last_of_others; simp)+

lemma group_at_amounts:
  "charge_amount f (group_at no_charge_events file_charge charge_types (others es) p) =
    (case f of Charged_Value \<Rightarrow> counted_amount es CHARGE_SUCCESS CHARGE_FAILURE p - amount_of (last_of es p CHARGE_BACK)
     | Charge_Pending_Value \<Rightarrow> pending_amount es CHARGE_REQUEST CHARGE_SUCCESS CHARGE_FAILURE p
     | Authorized_Value \<Rightarrow> - (pending_amount es CHARGE_REQUEST CHARGE_SUCCESS CHARGE_FAILURE p
         + counted_amount es CHARGE_SUCCESS CHARGE_FAILURE p) | _ \<Rightarrow> 0)"
  "refund_amount f (group_at no_refund_events file_refund refund_types (others es) p) =
    (case f of Refunded_Value \<Rightarrow> counted_amount es REFUND_SUCCESS REFUND_FAILURE p - amount_of (last_of es p REFUND_REVERSE)
     | Refund_Pending_Value \<Rightarrow> pending_amount es REFUND_REQUEST REFUND_SUCCESS REFUND_FAILURE p
     | Charged_Value \<Rightarrow> amount_of (last_of es p REFUND_REVERSE) - (pending_amount es REFUND_REQUEST REFUND_SUCCESS REFUND_FAILURE p
         + counted_amount es REFUND_SUCCESS REFUND_FAILURE p) | _ \<Rightarrow> 0)"
  "cancel_amount f (group_at no_events file_cancel cancel_types (others es) p) =
    (case f of Canceled_Value \<Rightarrow> counted_amount es CANCEL_SUCCESS CANCEL_FAILURE p
     | Cancel_Pending_Value \<Rightarrow> pending_amount es CANCEL_REQUEST CANCEL_SUCCESS CANCEL_FAILURE p
     | Authorized_Value \<Rightarrow> - (pending_amount es CANCEL_REQUEST CANCEL_SUCCESS CANCEL_FAILURE p
         + counted_amount es CANCEL_SUCCESS CANCEL_FAILURE p) | _ \<Rightarrow> 0)"
  unfolding charge_amount_def refund_amount_def cancel_amount_def charge_group refund_group cancel_group
    others_amounts by (rule refl)+

lemma new_amounts_zero:
  "charge_amount f no_charge_events = 0" "refund_amount f no_refund_events = 0" "cancel_amount f no_events = 0"
  by (cases f; simp add: charge_amount_def refund_amount_def cancel_amount_def new_groups_zero amount_of_def)+

lemmas group_loops = others_loop [where step = recalculate_charge_amounts, OF get_charge new_amounts_zero(1)]
  others_loop [where step = recalculate_refund_amounts, OF get_refund new_amounts_zero(2)]
  others_loop [where step = recalculate_cancel_amounts, OF get_cancel new_amounts_zero(3)]

section \<open>The authorization groups\<close>

definition adjusted_start :: "transaction_event list \<Rightarrow> decimal \<Rightarrow> decimal" where
  "adjusted_start as v = (case as of [] \<Rightarrow> v
     | a # _ \<Rightarrow> if is_adjustment a \<and> has_ref a then te_amount_value a else v)"

lemma auth_loop_pending:
  assumes "set as \<subseteq> set es" and "f \<noteq> Authorized_Value"
  shows "getattr_value f (fold recalculate_authorization_amounts
      (map snd (file_all no_authorization_events file_auth auth_types as [])) t) = getattr_value f t +
    (if f = Authorize_Pending_Value then (\<Sum>p \<in> refs es.
       pending_amount as AUTHORIZATION_REQUEST AUTHORIZATION_SUCCESS AUTHORIZATION_FAILURE p) else 0)"
proof -
  let ?amount = "\<lambda>g :: authorization_events. if f = Authorize_Pending_Value then pending_of g else 0"
  have step: "getattr_value f (recalculate_authorization_amounts g t) = getattr_value f t + ?amount g" for g t
    using get_authorization [of g f t] assms(2) by (cases f) auto
  have "sum_list (map ?amount (map snd (file_all no_authorization_events file_auth auth_types as [])))
      = (\<Sum>p \<in> refs es. ?amount (group_at no_authorization_events file_auth auth_types as p))"
    by (rule file_all_sum [OF assms(1)]) (simp add: new_groups_zero)
  with item.get_fold [of _ f recalculate_authorization_amounts ?amount, OF step] show ?thesis
    by (simp add: auth_group del: filter_filter)
qed

lemma dict_update_head: "dict_update new k f ((k0, g0) # ds) =
  (if k0 = k then (k0, f g0) # ds else (k0, g0) # dict_update new k f ds)"
  by simp

lemma file_all_head:
  "\<exists>g ds'. fold (\<lambda>e. dict_update new (ref_of e) (act e)) es ((k, g0) # ds) = (k, g) # ds'"
proof (induction es arbitrary: g0 ds)
  case (Cons e es)
  then show ?case by (cases "k = ref_of e") simp_all
qed simp

lemma auth_loop_authorized:
  assumes sub: "set as \<subseteq> set es"
    and shape: "(\<forall>e \<in> set as. \<not> is_adjustment e) \<or> (\<exists>a ys. as = a # ys \<and> is_adjustment a \<and> (\<forall>e \<in> set ys. \<not> is_adjustment e))"
  shows "ti_authorized_value (fold recalculate_authorization_amounts
      (map snd (file_all no_authorization_events file_auth auth_types as [])) t) =
    adjusted_start as (ti_authorized_value t)
    + (\<Sum>p \<in> refs es. counted_amount as AUTHORIZATION_SUCCESS AUTHORIZATION_FAILURE p)"
proof -
  let ?ds = "file_all no_authorization_events file_auth auth_types as []"
  have total: "sum_list (map counted_of (map snd ?ds)) =
      (\<Sum>p \<in> refs es. counted_amount as AUTHORIZATION_SUCCESS AUTHORIZATION_FAILURE p)"
    using file_all_sum [OF sub, of "counted_of :: authorization_events \<Rightarrow> _"] by (simp add: new_groups_zero auth_group del: filter_filter)
  have plain: "ti_authorized_value (fold recalculate_authorization_amounts gs t)
      = ti_authorized_value t + sum_list (map counted_of gs)" if "\<forall>g \<in> set gs. ae_adjustment g = None" for gs t
    using item.get_fold [of gs Authorized_Value recalculate_authorization_amounts counted_of t] that
      get_authorization [of _ Authorized_Value] by simp
  have adj: "ae_adjustment g = last_of as p AUTHORIZATION_ADJUSTMENT" if "(p, g) \<in> set ?ds" for p g
    using file_all_member [OF that] auth_group(3) by simp
  show ?thesis
  proof (cases "\<exists>a ys. as = a # ys \<and> is_adjustment a \<and> has_ref a")
    case False
    then have "last_of as p AUTHORIZATION_ADJUSTMENT = None" for p
      using shape by (auto simp: last_of_def find_None_iff)
    with adj have "\<forall>g \<in> set (map snd ?ds). ae_adjustment g = None" by auto
    from plain [OF this, of t] total False show ?thesis
      by (cases as) (auto simp: adjusted_start_def)
  next
    case True
    then obtain a ys where a: "as = a # ys" "is_adjustment a" "has_ref a" by blast
    with shape have ys: "\<forall>e \<in> set ys. \<not> is_adjustment e" by auto
    have keep: "group_types auth_types a" using a by (simp add: group_types_def)
    obtain g ds' where ds: "?ds = (ref_of a, g) # ds'"
      using file_all_head [of no_authorization_events file_auth "filter (group_types auth_types) ys"] keep
      by (simp add: a(1)) blast
    have last: "last_of as p AUTHORIZATION_ADJUSTMENT = (if p = ref_of a then Some a else None)" for p
    proof -
      have "find (\<lambda>e. has_ref e \<and> ref_of e = p \<and> is_adjustment e) (rev ys) = None"
        using ys by (auto simp: find_None_iff)
      then have "last_of as p AUTHORIZATION_ADJUSTMENT = find (\<lambda>e. has_ref e \<and> ref_of e = p \<and> is_adjustment e) [a]"
        unfolding last_of_def a(1) rev.simps by (rule find_append_None)
      with a show ?thesis by auto
    qed
    have g: "ae_adjustment g = Some a" using adj [of "ref_of a" g] ds last by simp
    have "distinct (map fst ?ds)" by (rule file_all_distinct)
    then have "\<forall>g' \<in> set (map snd ds'). ae_adjustment g' = None"
      using adj ds last by force
    from plain [OF this] g total ds a show ?thesis
      using get_authorization_adjusted [OF g] by (simp add: adjusted_start_def)
  qed
qed

section \<open>The recalculation, as sums\<close>

lemma calculate_from_loops:
  "calculate_from es t = (let as = get_authorize_events es in
     fold recalculate_cancel_amounts (map snd (file_all no_events file_cancel cancel_types (others es) []))
     (fold recalculate_refund_amounts (map snd (file_all no_refund_events file_refund refund_types (others es) []))
     (fold recalculate_charge_amounts (map snd (file_all no_charge_events file_charge charge_types (others es) []))
     (fold recalculate_authorization_amounts (map snd (file_all no_authorization_events file_auth auth_types as []))
     (handle_events_without_psp_reference (unreferenced_events es) (set_transaction_amounts_to_zero t))))))"
  by (simp add: calculate_from_def Let_def initilize_action_map_def fold_file_event fold_file_authorize_event
      unreferenced_events_def del: filter_filter)

lemma zero_amounts: "getattr_value f (set_transaction_amounts_to_zero t) = 0"
  by (cases f) (simp_all add: set_transaction_amounts_to_zero_def)

lemma calculate_from_spec:
  assumes "distinct (map te_pk es)"
  shows "getattr_value f (calculate_from es t) = spec_amount f es"
proof -
  let ?as = "get_authorize_events es"
  let ?t0 = "handle_events_without_psp_reference (unreferenced_events es) (set_transaction_amounts_to_zero t)"
  let ?t1 = "fold recalculate_authorization_amounts (map snd (file_all no_authorization_events file_auth auth_types ?as [])) ?t0"
  have sub: "set ?as \<subseteq> set es" using get_authorize_events_in [of es] by auto
  have all: "getattr_value f (calculate_from es t) = getattr_value f ?t1
      + (\<Sum>p \<in> refs es. charge_amount f (group_at no_charge_events file_charge charge_types (others es) p))
      + (\<Sum>p \<in> refs es. refund_amount f (group_at no_refund_events file_refund refund_types (others es) p))
      + (\<Sum>p \<in> refs es. cancel_amount f (group_at no_events file_cancel cancel_types (others es) p))"
    unfolding calculate_from_loops Let_def group_loops by (simp add: add.assoc)
  have t1: "getattr_value f ?t1 = (case f of
        Authorized_Value \<Rightarrow> authorized_start es
          + (\<Sum>p \<in> refs es. counted_amount ?as AUTHORIZATION_SUCCESS AUTHORIZATION_FAILURE p)
      | Authorize_Pending_Value \<Rightarrow> (\<Sum>p \<in> refs es.
          pending_amount ?as AUTHORIZATION_REQUEST AUTHORIZATION_SUCCESS AUTHORIZATION_FAILURE p)
      | Charged_Value \<Rightarrow> unreferenced es CHARGE_SUCCESS - unreferenced es CHARGE_BACK + unreferenced es REFUND_REVERSE
      | Refunded_Value \<Rightarrow> unreferenced es REFUND_SUCCESS
      | Canceled_Value \<Rightarrow> unreferenced es CANCEL_SUCCESS | _ \<Rightarrow> 0)"
  proof (cases "f = Authorized_Value")
    case True
    have shape: "(\<forall>e \<in> set ?as. \<not> is_adjustment e)
        \<or> (\<exists>a ys. ?as = a # ys \<and> is_adjustment a \<and> (\<forall>e \<in> set ys. \<not> is_adjustment e))"
      using assms by (cases rule: get_authorize_events_cases) blast+
    have "adjusted_start ?as (ti_authorized_value ?t0) = authorized_start es"
      using unreferenced_authorized [OF assms, of "set_transaction_amounts_to_zero t"] zero_amounts [of Authorized_Value t]
      by (cases ?as) (auto simp: adjusted_start_def authorized_start_def)
    with auth_loop_authorized [OF sub shape, of ?t0] True show ?thesis by simp
  next
    case False
    from auth_loop_pending [OF sub False, of ?t0] unreferenced_loop [OF False, of "unreferenced_events es"] False
    show ?thesis
      by (cases f) (simp_all add: typed_sum_unreferenced set_transaction_amounts_to_zero_def)
  qed
  show ?thesis
    unfolding all t1 group_at_amounts
    by (cases f) (simp_all add: moved_def sum.distrib sum_subtractf sum_negf algebra_simps)
qed

section \<open>The recalculation of an item\<close>

lemma in_row_order_mset:
  assumes "row_order_ok e" and "distinct (map key rows)"
  shows "mset (in_row_order e key rows) = mset rows"
proof -
  have "mset (row_order e (map key rows)) = mset (map key rows)" using assms(1) by (simp add: row_order_ok_def)
  moreover have "List.map_filter (\<lambda>k. find_row key k rows) ks = map (\<lambda>k. the (find_row key k rows)) ks"
    if "set ks \<subseteq> key ` set rows" for ks
    using that
  proof (induction ks)
    case (Cons k ks)
    then obtain r where "r \<in> set rows" "k = key r" by auto
    with find_row_distinct [OF assms(2)] Cons show ?case by (simp add: List.map_filter_simps)
  qed (simp add: List.map_filter_simps)
  moreover have "set (row_order e (map key rows)) \<subseteq> key ` set rows"
    using calculation(1) by (metis mset_eq_setD set_map subset_refl)
  ultimately have "mset (in_row_order e key rows) = mset (map (\<lambda>k. the (find_row key k rows)) (map key rows))"
    unfolding in_row_order_def by (simp only: mset_map)
  also have "map (\<lambda>k. the (find_row key k rows)) (map key rows) = rows"
    using find_row_distinct [OF assms(2)] by (simp add: map_idI)
  finally show ?thesis .
qed

lemma events_of_distinct:
  assumes "row_order_ok e" and "distinct (map te_pk rows)"
  shows "distinct (map te_pk (events_of e rows t))"
proof -
  let ?own = "filter (\<lambda>ev. te_transaction ev = ti_pk t \<and> te_include_in_calculations ev) rows"
  have "distinct (map te_pk ?own)" using assms(2) by (simp add: distinct_map_filter)
  from in_row_order_mset [OF assms(1) this] have "mset (events_of e rows t) = mset ?own"
    by (simp add: events_of_def)
  then have "mset (map te_pk (events_of e rows t)) = mset (map te_pk ?own)" by (simp only: mset_map)
  with \<open>distinct (map te_pk ?own)\<close> show ?thesis by (metis mset_eq_imp_distinct_iff)
qed

lemma recalculation_spec_fact:
  assumes "row_order_ok e" and "distinct (map te_pk rows)"
  shows "getattr_value f (recalculate_transaction_amounts e rows t) =
    (if f \<in> {Authorized_Value, Authorize_Pending_Value} then max (spec_amount f (events_of e rows t)) 0
     else spec_amount f (events_of e rows t))"
  using calculate_from_spec [OF events_of_distinct [OF assms], of f t t]
  by (cases f) (simp_all add: recalculate_transaction_amounts_def Let_def
      calculate_transaction_amount_based_on_events_def)

text \<open>
  C12: the whole recalculation (grouping into dictionaries, the loops over the groups, the eight
  attributes updated by name) computes the sums of \<open>spec_amount\<close>: per psp reference the newest event of
  each type counts, a success counts unless a failure of the same time or later exists, a request is
  pending while neither exists, what is charged or canceled is taken from what is authorized, and
  what is refunded from what is charged.
\<close>

theorem recalculation_spec:
  assumes "row_order_ok e" and "distinct (map te_pk rows)"
  shows "getattr_value f (recalculate_transaction_amounts e rows t) =
    (if f \<in> {Authorized_Value, Authorize_Pending_Value} then max (spec_amount f (events_of e rows t)) 0
     else spec_amount f (events_of e rows t))"
  by (rule recalculation_spec_fact [OF assms])

definition total_of :: "transaction_item \<Rightarrow> decimal" where
  "total_of t = ti_authorized_value t + ti_charged_value t + ti_refunded_value t + ti_canceled_value t
     + ti_authorize_pending_value t + ti_charge_pending_value t + ti_refund_pending_value t
     + ti_cancel_pending_value t"


lemma pending_amount_nonneg:
  assumes "\<forall>e \<in> set es. 0 \<le> te_amount_value e"
  shows "0 \<le> pending_amount es request success failure p"
proof (cases "last_of es p request")
  case (Some e)
  then have "e \<in> set es" using find_SomeD [of _ "rev es" e] by (simp add: last_of_def)
  with Some assms show ?thesis by (simp add: pending_amount_def amount_of_def)
qed (simp add: pending_amount_def amount_of_def)

lemma sort_key_unique:
  assumes "mset xs = mset ys" and "inj_on f (set xs)"
  shows "sort_key f xs = sort_key f ys"
proof (rule properties_for_sort_key)
  show "mset (sort_key f ys) = mset xs" using assms(1) by simp
  fix k assume k: "k \<in> set (sort_key f ys)"
  have set: "set xs = set ys" using assms(1) by (metis set_mset_mset)
  have "filter (\<lambda>x. f k = f x) zs = filter ((=) k) zs" if "set zs = set xs" for zs
    using k set assms(2) that by (intro filter_cong) (auto dest: inj_onD)
  moreover have "filter ((=) k) zs = replicate (count (mset zs) k) k" for zs
    by (induction zs) auto
  ultimately show "filter (\<lambda>x. f k = f x) (sort_key f ys) = filter (\<lambda>x. f k = f x) xs"
    using assms(1) set by simp
qed simp

text \<open>
  C14: the amounts do not depend on the order in which the database returns the events: for events
  with different times, any two orders give the same transaction item.
\<close>

theorem recalculation_order_independent:
  assumes "row_order_ok e" and "row_order_ok e'" and "distinct (map te_pk rows)"
    and "inj_on te_created_at (set rows)"
  shows "recalculate_transaction_amounts e rows t = recalculate_transaction_amounts e' rows t"
proof -
  let ?own = "filter (\<lambda>ev. te_transaction ev = ti_pk t \<and> te_include_in_calculations ev) rows"
  have dist: "distinct (map te_pk ?own)" using assms(3) by (simp add: distinct_map_filter)
  have "events_of e rows t = events_of e' rows t"
    unfolding events_of_def
  proof (rule sort_key_unique)
    show "mset (in_row_order e te_pk ?own) = mset (in_row_order e' te_pk ?own)"
      using in_row_order_mset [OF assms(1) dist] in_row_order_mset [OF assms(2) dist] by simp
    have "set (in_row_order e te_pk ?own) = set ?own"
      using in_row_order_mset [OF assms(1) dist] by (metis set_mset_mset)
    then show "inj_on te_created_at (set (in_row_order e te_pk ?own))"
      using assms(4) by (auto intro: inj_on_subset)
  qed
  then show ?thesis
    by (simp add: recalculate_transaction_amounts_def calculate_transaction_amount_based_on_events_def)
qed

text \<open>The recalculation changes nothing but the eight amounts, so a second one finds the same.\<close>

lemma zero_frame:
  "set_transaction_amounts_to_zero (setattr_value f v t) = set_transaction_amounts_to_zero t"
  by (cases f) (simp_all add: set_transaction_amounts_to_zero_def)

lemma fold_frame: "(\<And>x t. z (step x t) = z t) \<Longrightarrow> z (fold step xs t) = z t"
  by (induction xs arbitrary: t) auto

lemma move_frame: "set_transaction_amounts_to_zero (move_amount v to from t) = set_transaction_amounts_to_zero t"
  by (simp add: move_amount_def Let_def zero_frame split: option.split)

lemma base_frame: "set_transaction_amounts_to_zero (recalculate_base_amounts r s f p a prev t) = set_transaction_amounts_to_zero t"
  by (simp add: recalculate_base_amounts_def Let_def move_frame)

lemma group_frames:
  "set_transaction_amounts_to_zero (recalculate_authorization_amounts ga t) = set_transaction_amounts_to_zero t"
  "set_transaction_amounts_to_zero (recalculate_charge_amounts gc t) = set_transaction_amounts_to_zero t"
  "set_transaction_amounts_to_zero (recalculate_refund_amounts gr t) = set_transaction_amounts_to_zero t"
  "set_transaction_amounts_to_zero (recalculate_cancel_amounts gn t) = set_transaction_amounts_to_zero t"
  by (simp_all add: recalculate_authorization_amounts_def recalculate_charge_amounts_def
      recalculate_refund_amounts_def recalculate_cancel_amounts_def Let_def base_frame split: option.split)
    (simp_all add: set_transaction_amounts_to_zero_def)

lemma event_frame: "set_transaction_amounts_to_zero (handle_event_without_psp_reference e t) = set_transaction_amounts_to_zero t"
  by (cases "te_type e") (simp_all add: handle_event_without_psp_reference_def set_transaction_amounts_to_zero_def)

lemma calculate_from_frame:
  "set_transaction_amounts_to_zero (calculate_from es t) = set_transaction_amounts_to_zero t"
  by (simp add: calculate_from_def Let_def handle_events_without_psp_reference_def
      fold_frame [where z = set_transaction_amounts_to_zero] group_frames event_frame)
     (simp add: set_transaction_amounts_to_zero_def)

lemma calculate_from_cong:
  "set_transaction_amounts_to_zero t = set_transaction_amounts_to_zero t' \<Longrightarrow> calculate_from es t = calculate_from es t'"
  by (simp add: calculate_from_def)

text \<open>
  Recalculating is idempotent: a second recalculation from the same events changes nothing.
\<close>

lemma recalculation_idempotent:
  "recalculate_transaction_amounts e rows (recalculate_transaction_amounts e rows t) =
   recalculate_transaction_amounts e rows t"
proof -
  let ?t = "recalculate_transaction_amounts e rows t"
  have frame: "set_transaction_amounts_to_zero ?t = set_transaction_amounts_to_zero t"
    using calculate_from_frame [of "events_of e rows t" t]
    by (simp add: recalculate_transaction_amounts_def calculate_transaction_amount_based_on_events_def Let_def
        set_transaction_amounts_to_zero_def)
  have "ti_pk (set_transaction_amounts_to_zero t) = ti_pk t" for t
    by (simp add: set_transaction_amounts_to_zero_def)
  with arg_cong [OF frame, of ti_pk] have "ti_pk ?t = ti_pk t" by (simp only:)
  then have "events_of e rows ?t = events_of e rows t" by (simp add: events_of_def)
  with calculate_from_cong [OF frame, of "events_of e rows t"] show ?thesis
    by (simp add: recalculate_transaction_amounts_def calculate_transaction_amount_based_on_events_def)
qed

text \<open>
  When no event has a negative amount, no pending amount of a recalculated item is negative, nor is
  its authorized amount.
\<close>

lemma recalculation_bounds:
  assumes "row_order_ok e" and "distinct (map te_pk rows)" and "\<forall>ev \<in> set rows. 0 \<le> te_amount_value ev"
  shows "0 \<le> ti_authorized_value (recalculate_transaction_amounts e rows t)
    \<and> 0 \<le> ti_authorize_pending_value (recalculate_transaction_amounts e rows t)
    \<and> 0 \<le> ti_charge_pending_value (recalculate_transaction_amounts e rows t)
    \<and> 0 \<le> ti_refund_pending_value (recalculate_transaction_amounts e rows t)
    \<and> 0 \<le> ti_cancel_pending_value (recalculate_transaction_amounts e rows t)"
proof -
  let ?own = "filter (\<lambda>ev. te_transaction ev = ti_pk t \<and> te_include_in_calculations ev) rows"
  let ?es = "events_of e rows t"
  have "distinct (map te_pk ?own)" using assms(2) by (simp add: distinct_map_filter)
  from in_row_order_mset [OF assms(1) this] have "mset ?es = mset ?own" by (simp add: events_of_def)
  then have "set ?es = set ?own" by (metis set_mset_mset)
  with assms(3) have "\<forall>ev \<in> set ?es. 0 \<le> te_amount_value ev" by simp
  note nonneg = pending_amount_nonneg [OF this]
  note spec = calculate_from_spec [OF events_of_distinct [OF assms(1,2)], of _ t t]
  show ?thesis
    using spec [of Charge_Pending_Value] spec [of Refund_Pending_Value] spec [of Cancel_Pending_Value]
    by (simp add: recalculate_transaction_amounts_def Let_def calculate_transaction_amount_based_on_events_def
        sum_nonneg nonneg)
qed

section \<open>An example\<close>

definition ex_event :: "pk \<Rightarrow> time \<Rightarrow> string option \<Rightarrow> transaction_event_type \<Rightarrow> decimal \<Rightarrow> transaction_event" where
  "ex_event k tm r ty v = \<lparr>te_pk = k, te_transaction = 1, te_created_at = tm, te_psp_reference = r,
     te_message = None, te_type = ty, te_amount_value = v, te_currency = ''USD'', te_external_url = None,
     te_user = None, te_app = None, te_app_identifier = None,
     te_include_in_calculations = True\<rparr>"

definition ex_item :: transaction_item where
  "ex_item = \<lparr>ti_pk = 1, ti_name = None, ti_checkout = None, ti_order = None, ti_user = None, ti_app = None,
     ti_app_identifier = None, ti_psp_reference = None, ti_message = None, ti_available_actions = [],
     ti_currency = ''USD'', ti_authorized_value = 7, ti_charged_value = 0, ti_refunded_value = 0,
     ti_canceled_value = 0, ti_authorize_pending_value = 0, ti_charge_pending_value = 0,
     ti_refund_pending_value = 0, ti_cancel_pending_value = 0\<rparr>"

definition ex_events :: "transaction_event list" where
  "ex_events = [ex_event 1 10 (Some ''a'') AUTHORIZATION_SUCCESS 100, ex_event 2 20 (Some ''c'') CHARGE_REQUEST 60,
     ex_event 4 40 (Some ''r'') REFUND_REQUEST 10, ex_event 3 30 (Some ''c'') CHARGE_SUCCESS 60]"

definition ex_env1 :: env where
  "ex_env1 = \<lparr>now = 100, row_order = (\<lambda>xs. xs), slug_rank = (\<lambda>s. length s)\<rparr>"

definition ex_env2 :: env where
  "ex_env2 = \<lparr>now = 100, row_order = rev, slug_rank = (\<lambda>s. length s)\<rparr>"

lemma ex_events_facts:
  "row_order_ok ex_env1" "row_order_ok ex_env2" "distinct (map te_pk ex_events)"
  "inj_on te_created_at (set ex_events)" "\<forall>ev \<in> set ex_events. 0 \<le> te_amount_value ev"
  by (simp_all add: row_order_ok_def ex_env1_def ex_env2_def ex_events_def ex_event_def inj_on_def)

lemma recalculation_spec_witness:
  "ti_charged_value (recalculate_transaction_amounts ex_env1 ex_events ex_item) = 50
   \<and> ti_refund_pending_value (recalculate_transaction_amounts ex_env1 ex_events ex_item) = 10
   \<and> ti_authorized_value (recalculate_transaction_amounts ex_env1 ex_events ex_item) = 40"
proof -
  have "spec_amount Charged_Value (events_of ex_env1 ex_events ex_item) = 50"
    "spec_amount Refund_Pending_Value (events_of ex_env1 ex_events ex_item) = 10"
    "max (spec_amount Authorized_Value (events_of ex_env1 ex_events ex_item)) 0 = 40" by code_simp+
  with recalculation_spec [OF ex_events_facts(1,3), of Charged_Value ex_item]
    recalculation_spec [OF ex_events_facts(1,3), of Refund_Pending_Value ex_item]
    recalculation_spec [OF ex_events_facts(1,3), of Authorized_Value ex_item]
  show ?thesis by simp
qed


lemma recalculation_order_independent_witness:
  "recalculate_transaction_amounts ex_env1 ex_events ex_item = recalculate_transaction_amounts ex_env2 ex_events ex_item"
  by (rule recalculation_order_independent [OF ex_events_facts(1,2,3,4)])

lemma recalculation_bounds_witness:
  "0 \<le> ti_refund_pending_value (recalculate_transaction_amounts ex_env1 ex_events ex_item)"
  using recalculation_bounds [OF ex_events_facts(1,3,5), of ex_item] by blast

text \<open>
  An authorization without a reference that is newer than an adjustment with a reference does not
  count, because the groups are processed after the events without a reference; and a refund
  that is reversed without a reference raises the charged amount and leaves the refunded one.
\<close>

lemma newer_authorization_lost:
  "ti_authorized_value (recalculate_transaction_amounts ex_env1
      [ex_event 1 10 (Some ''a'') AUTHORIZATION_ADJUSTMENT 30, ex_event 2 20 None AUTHORIZATION_SUCCESS 50] ex_item) = 30"
  by code_simp

lemma unreferenced_reverse_keeps_refunded:
  "ti_refunded_value (recalculate_transaction_amounts ex_env1
      [ex_event 1 10 None REFUND_SUCCESS 30, ex_event 2 20 None REFUND_REVERSE 30] ex_item) = 30"
  by code_simp

end
