(* ===== verification/Payment_Operations.thy ===== *)
theory Payment_Operations
  imports Order_Amounts
begin

text \<open>
  Payments through a gateway: \<open>authorize\<close>, \<open>capture\<close>, \<open>refund\<close>, \<open>void\<close>, \<open>confirm\<close> and
  \<open>process_payment\<close> of \<open>saleor/payment/gateway.py\<close> with their decorators, and the functions of
  \<open>saleor/payment/utils.py\<close> below them, down to \<open>update_payment_charge_status\<close> and the update of
  the order.  The gateway (a plugin) is a parameter \<open>gw\<close>: what the call of an operation with
  some payment data returns or raises.

  An operation gets a payment object, perhaps stale, and the tables; it returns what it returns or
  raises, together with the tables.
\<close>

section \<open>What passes between the shop and a gateway\<close>

datatype payment_error =
    Inactive_Payment | Amount_Not_Positive | Cannot_Capture | Over_Uncaptured | Already_Charged
  | Over_Captured | Cannot_Refund | No_Transaction transaction_kind | Unsuccessful "string option"
  | Payment_Does_Not_Exist

record payment_data =
  pd_payment :: pk
  pd_amount :: decimal
  pd_currency :: string
  pd_token :: string

record gateway_response =
  gw_is_success :: bool
  gw_action_required :: bool
  gw_kind :: "transaction_kind option"    \<comment> \<open>\<open>None\<close>: a text that is no kind\<close>
  gw_amount :: decimal
  gw_currency :: string
  gw_transaction_id :: string
  gw_error :: "string option"
  gw_customer_id :: "string option"
  gw_json_serializable :: bool
  gw_transaction_already_processed :: bool
  gw_psp_reference :: "string option"

datatype gateway_operation = Process | Authorize | Capture | Refund | Void | Confirm

datatype gateway_outcome =
    Response gateway_response | Not_A_Response | Raises_Gateway_Error | Raises_Payment_Error

definition ALLOWED_GATEWAY_KINDS :: "transaction_kind list" where
  "ALLOWED_GATEWAY_KINDS = [EXTERNAL, AUTH, PENDING, ACTION_TO_CONFIRM, REFUND_KIND, REFUND_ONGOING, CAPTURE,
     VOID, CONFIRM, CANCEL_KIND]"

definition validate_gateway_response :: "gateway_outcome \<Rightarrow> gateway_response option" where
  \<comment> \<open>\<open>None\<close> when a \<open>GatewayError\<close> is raised.\<close>
  "validate_gateway_response outcome = (case outcome of
     Response r \<Rightarrow> (case gw_kind r of None \<Rightarrow> None
       | Some k \<Rightarrow> if k \<in> set ALLOWED_GATEWAY_KINDS \<and> gw_json_serializable r then Some r else None)
   | _ \<Rightarrow> None)"

definition ERROR_MSG :: string where "ERROR_MSG = ''Oops! Something went wrong.''"

definition fetch_gateway_response :: "gateway_outcome \<Rightarrow> gateway_response option \<times> string option" where
  "fetch_gateway_response outcome =
     (case validate_gateway_response outcome of Some r \<Rightarrow> (Some r, None) | None \<Rightarrow> (None, Some ERROR_MSG))"

definition create_payment_information :: "payment \<Rightarrow> string \<Rightarrow> decimal option \<Rightarrow> payment_data" where
  \<comment> \<open>\<open>amount or payment.total\<close>: an amount of zero counts as none.\<close>
  "create_payment_information p token amount = \<lparr>pd_payment = p_pk p,
     pd_amount = (case amount of None \<Rightarrow> p_total p | Some a \<Rightarrow> if a = 0 then p_total p else a),
     pd_currency = p_currency p, pd_token = token\<rparr>"

section \<open>Payments in their table\<close>

datatype payment_field = F_Is_Active | F_To_Confirm | F_Charge_Status | F_Captured_Amount | F_Psp_Reference

fun save_field :: "payment_field \<Rightarrow> payment \<Rightarrow> payment \<Rightarrow> payment" where
  "save_field F_Is_Active p r = r\<lparr>p_is_active := p_is_active p\<rparr>"
| "save_field F_To_Confirm p r = r\<lparr>p_to_confirm := p_to_confirm p\<rparr>"
| "save_field F_Charge_Status p r = r\<lparr>p_charge_status := p_charge_status p\<rparr>"
| "save_field F_Captured_Amount p r = r\<lparr>p_captured_amount := p_captured_amount p\<rparr>"
| "save_field F_Psp_Reference p r = r\<lparr>p_psp_reference := p_psp_reference p\<rparr>"

definition modify_payment :: "pk \<Rightarrow> (payment \<Rightarrow> payment) \<Rightarrow> order_tables \<Rightarrow> order_tables" where
  "modify_payment k f T = T\<lparr>payments := map (\<lambda>r. if p_pk r = k then f r else r) (payments T)\<rparr>"

definition save_payment :: "payment_field list \<Rightarrow> payment \<Rightarrow> order_tables \<Rightarrow> order_tables" where
  \<comment> \<open>\<open>payment.save(update_fields=...)\<close>\<close>
  "save_payment changed_fields p T = modify_payment (p_pk p) (\<lambda>r. fold (\<lambda>f. save_field f p) changed_fields r) T"

definition transactions_of :: "order_tables \<Rightarrow> payment \<Rightarrow> transaction list" where
  \<comment> \<open>\<open>payment.transactions\<close>, by primary key.\<close>
  "transactions_of T p = (case find_row p_pk (p_pk p) (payments T) of None \<Rightarrow> []
     | Some r \<Rightarrow> sort_key tx_pk (p_transactions r))"

definition last_where :: "('a \<Rightarrow> bool) \<Rightarrow> 'a list \<Rightarrow> 'a option" where
  "last_where P xs = find P (rev xs)"

definition get_past_transaction_token :: "order_tables \<Rightarrow> payment \<Rightarrow> transaction_kind \<Rightarrow> payment_error + string" where
  "get_past_transaction_token T p kind =
     (case last_where (\<lambda>t. tx_kind t = kind \<and> tx_is_success t) (transactions_of T p) of
        None \<Rightarrow> Inl (No_Transaction kind) | Some t \<Rightarrow> Inr (tx_token t))"

definition new_transaction_pk :: "order_tables \<Rightarrow> pk" where
  "new_transaction_pk T = Suc (fold max (map tx_pk (concat (map p_transactions (payments T)))) 0)"

definition create_transaction ::
  "payment \<Rightarrow> transaction_kind \<Rightarrow> payment_data \<Rightarrow> bool \<Rightarrow> gateway_response option \<Rightarrow> string option \<Rightarrow> bool
   \<Rightarrow> order_tables \<Rightarrow> transaction \<times> order_tables" where
  "create_transaction p kind payment_information action_required response error_msg is_success T =
     (let r = (case response of Some r \<Rightarrow> r
               | None \<Rightarrow> \<lparr>gw_is_success = is_success, gw_action_required = False, gw_kind = Some kind,
                   gw_amount = pd_amount payment_information, gw_currency = pd_currency payment_information,
                   gw_transaction_id = pd_token payment_information, gw_error = error_msg, gw_customer_id = None,
                   gw_json_serializable = True, gw_transaction_already_processed = False, gw_psp_reference = None\<rparr>);
          t = \<lparr>tx_pk = new_transaction_pk T, tx_token = gw_transaction_id r, tx_kind = the (gw_kind r),
               tx_is_success = gw_is_success r, tx_action_required = action_required, tx_amount = gw_amount r,
               tx_currency = gw_currency r, tx_error = gw_error r, tx_customer_id = gw_customer_id r,
               tx_already_processed = False\<rparr>
      in (t, modify_payment (p_pk p) (\<lambda>x. x\<lparr>p_transactions := p_transactions x @ [t]\<rparr>) T))"

definition get_already_processed_transaction :: "order_tables \<Rightarrow> payment \<Rightarrow> gateway_response \<Rightarrow> transaction option" where
  "get_already_processed_transaction T p r =
     last_where (\<lambda>t. tx_is_success t = gw_is_success r \<and> tx_action_required t = gw_action_required r
       \<and> tx_token t = gw_transaction_id r \<and> Some (tx_kind t) = gw_kind r \<and> tx_amount t = gw_amount r
       \<and> tx_currency t = gw_currency r) (transactions_of T p)"

definition get_already_processed_transaction_or_create_new_transaction ::
  "payment \<Rightarrow> transaction_kind \<Rightarrow> payment_data \<Rightarrow> bool \<Rightarrow> gateway_response option \<Rightarrow> string option
   \<Rightarrow> order_tables \<Rightarrow> transaction \<times> order_tables" where
  "get_already_processed_transaction_or_create_new_transaction p kind payment_information action_required response error_msg T =
     (let new = create_transaction p kind payment_information action_required response error_msg False T
      in case response of
           Some r \<Rightarrow> if gw_transaction_already_processed r
                     then (case get_already_processed_transaction T p r of Some t \<Rightarrow> (t, T) | None \<Rightarrow> new)
                     else new
         | None \<Rightarrow> new)"

definition update_payment :: "payment \<Rightarrow> gateway_response option \<Rightarrow> order_tables \<Rightarrow> payment \<times> order_tables" where
  \<comment> \<open>The details of the payment method are not modelled.\<close>
  "update_payment p response T =
     (case response of None \<Rightarrow> (p, T)
      | Some r \<Rightarrow> if truthy_text (gw_psp_reference r)
                  then let p = p\<lparr>p_psp_reference := gw_psp_reference r\<rparr> in (p, save_payment [F_Psp_Reference] p T)
                  else (p, T))"

section \<open>The effect of a transaction on its payment\<close>

definition clean_capture :: "payment \<Rightarrow> decimal \<Rightarrow> payment_error option" where
  "clean_capture p amount =
     (if amount \<le> 0 then Some Amount_Not_Positive
      else if \<not> can_capture p then Some Cannot_Capture
      else if p_total p < amount \<or> p_total p - p_captured_amount p < amount then Some Over_Uncaptured
      else None)"

definition clean_authorize :: "payment \<Rightarrow> payment_error option" where
  "clean_authorize p = (if \<not> can_authorize p then Some Already_Charged else None)"

definition validate_refund_amount :: "payment \<Rightarrow> decimal \<Rightarrow> payment_error option" where
  "validate_refund_amount p amount =
     (if amount \<le> 0 then Some Amount_Not_Positive
      else if p_captured_amount p < amount then Some Over_Captured else None)"

definition charge_status_change ::
  "transaction_kind \<Rightarrow> decimal \<Rightarrow> payment \<Rightarrow> payment \<times> payment_field list" where
  \<comment> \<open>The branches of \<open>update_payment_charge_status\<close>: the payment in memory and the fields that are saved.\<close>
  "charge_status_change kind amount p =
     (if kind = CAPTURE \<or> kind = REFUND_REVERSED then
        let p = p\<lparr>p_captured_amount := p_captured_amount p + amount, p_is_active := True,
                  p_charge_status := PARTIALLY_CHARGED\<rparr>;
            p = (if get_charge_amount p \<le> 0 then p\<lparr>p_charge_status := FULLY_CHARGED\<rparr> else p)
        in (p, [F_Charge_Status, F_Captured_Amount])
      else if kind = VOID then (p\<lparr>p_is_active := False\<rparr>, [F_Is_Active])
      else if kind = REFUND_KIND then
        let p = p\<lparr>p_captured_amount := p_captured_amount p - amount, p_charge_status := PARTIALLY_REFUNDED\<rparr>;
            p = (if p_captured_amount p \<le> 0
                 then p\<lparr>p_captured_amount := 0, p_charge_status := FULLY_REFUNDED, p_is_active := False\<rparr> else p)
        in (p, [F_Captured_Amount, F_Charge_Status, F_Is_Active])
      else if kind = PENDING then (p\<lparr>p_charge_status := PENDING_STATUS\<rparr>, [F_Charge_Status])
      else if kind = CANCEL_KIND then
        (p\<lparr>p_charge_status := CANCELLED, p_is_active := False\<rparr>, [F_Charge_Status, F_Is_Active])
      else if kind = CAPTURE_FAILED \<and> p_charge_status p \<in> {PARTIALLY_CHARGED, FULLY_CHARGED} then
        let p = p\<lparr>p_captured_amount := p_captured_amount p - amount, p_charge_status := PARTIALLY_CHARGED\<rparr>;
            p = (if p_captured_amount p \<le> 0 then p\<lparr>p_charge_status := NOT_CHARGED\<rparr> else p)
        in (p, [F_Charge_Status, F_Captured_Amount])
      else (p, []))"

definition mark_processed :: "payment \<Rightarrow> transaction \<Rightarrow> order_tables \<Rightarrow> order_tables" where
  "mark_processed p t T = modify_payment (p_pk p) (\<lambda>r. r\<lparr>p_transactions :=
     map (\<lambda>x. if tx_pk x = tx_pk t then x\<lparr>tx_already_processed := True\<rparr> else x) (p_transactions r)\<rparr>) T"

definition payment_order :: "payment \<Rightarrow> order_tables \<Rightarrow> sales_order option" where
  "payment_order p T = (case p_order p of None \<Rightarrow> None | Some k \<Rightarrow> find_row o_id k (orders T))"

definition update_payment_charge_status ::
  "(string \<Rightarrow> nat) \<Rightarrow> payment \<Rightarrow> transaction \<Rightarrow> payment_field list \<Rightarrow> order_tables
   \<Rightarrow> transaction \<times> payment \<times> order_tables" where
  "update_payment_charge_status precision p t changed_fields T =
     (let (p, more) = charge_status_change (tx_kind t) (tx_amount t) p;
          changed_fields = changed_fields @ more;
          T = (if changed_fields \<noteq> [] then save_payment changed_fields p T else T);
          T = mark_processed p t T;
          t = t\<lparr>tx_already_processed := True\<rparr>;
          T = (case payment_order p T of None \<Rightarrow> T
               | Some o1 \<Rightarrow> if F_Captured_Amount \<in> set changed_fields then updates_amounts_for_order precision o1 T else T);
          T = (case payment_order p T of None \<Rightarrow> T
               | Some o1 \<Rightarrow> if tx_kind t = AUTH
                   then save_order (update_order_authorize_data precision (order_payments T o1) (order_transactions T o1)
                          (order_granted_refunds T o1) o1) T
                   else T)
      in (t, p, T))"

definition gateway_postprocess ::
  "(string \<Rightarrow> nat) \<Rightarrow> transaction \<Rightarrow> payment \<Rightarrow> order_tables \<Rightarrow> transaction \<times> payment \<times> order_tables" where
  "gateway_postprocess precision t p T =
     (if \<not> tx_is_success t \<or> tx_already_processed t then (t, p, T)
      else if tx_action_required t then
        let p = p\<lparr>p_to_confirm := True\<rparr> in (t, p, save_payment [F_To_Confirm] p T)
      else if p_to_confirm p
        then update_payment_charge_status precision (p\<lparr>p_to_confirm := False\<rparr>) t [F_To_Confirm] T
      else update_payment_charge_status precision p t [] T)"

section \<open>Decorators\<close>

type_synonym result = "(payment_error + transaction \<times> payment) \<times> order_tables"

definition raise_payment_error :: "(payment \<Rightarrow> order_tables \<Rightarrow> result) \<Rightarrow> payment \<Rightarrow> order_tables \<Rightarrow> result" where
  "raise_payment_error fn p T = (case fn p T of
       (Inr (t, p'), T') \<Rightarrow> if tx_is_success t then (Inr (t, p'), T') else (Inl (Unsuccessful (tx_error t)), T')
     | (Inl er, T') \<Rightarrow> (Inl er, T'))"

definition payment_postprocess ::
  "(string \<Rightarrow> nat) \<Rightarrow> (payment \<Rightarrow> order_tables \<Rightarrow> result) \<Rightarrow> payment \<Rightarrow> order_tables \<Rightarrow> result" where
  "payment_postprocess precision fn p T = (case fn p T of
       (Inr (t, p'), T') \<Rightarrow> (case gateway_postprocess precision t p' T' of (t', p'', T'') \<Rightarrow> (Inr (t', p''), T''))
     | (Inl er, T') \<Rightarrow> (Inl er, T'))"

definition require_active_payment :: "(payment \<Rightarrow> order_tables \<Rightarrow> result) \<Rightarrow> payment \<Rightarrow> order_tables \<Rightarrow> result" where
  "require_active_payment fn p T = (if \<not> p_is_active p then (Inl Inactive_Payment, T) else fn p T)"

definition with_locked_payment :: "(payment \<Rightarrow> order_tables \<Rightarrow> result) \<Rightarrow> payment \<Rightarrow> order_tables \<Rightarrow> result" where
  \<comment> \<open>Reads the row again; an exception inside rolls the tables back.\<close>
  "with_locked_payment fn p T = (case find_row p_pk (p_pk p) (payments T) of
       None \<Rightarrow> (Inl Payment_Does_Not_Exist, T)
     | Some r \<Rightarrow> (case fn r T of (Inl er, _) \<Rightarrow> (Inl er, T) | (Inr x, T') \<Rightarrow> (Inr x, T')))"

section \<open>Operations\<close>

type_synonym gateway = "gateway_operation \<Rightarrow> payment_data \<Rightarrow> gateway_outcome"

definition call_gateway ::
  "gateway \<Rightarrow> gateway_operation \<Rightarrow> transaction_kind \<Rightarrow> payment_data \<Rightarrow> payment \<Rightarrow> order_tables \<Rightarrow> result" where
  \<comment> \<open>The common end of the operations; only \<open>process_payment\<close> and \<open>confirm\<close> pass \<open>action_required\<close> on, and
    \<open>refund\<close> and \<open>void\<close> do not update the payment from the response.\<close>
  "call_gateway gw op kind payment_data p T =
     (let (response, er) = fetch_gateway_response (gw op payment_data);
          action_required = (case response of None \<Rightarrow> False
            | Some r \<Rightarrow> op \<in> {Process, Confirm} \<and> gw_action_required r);
          (p, T) = (if op \<in> {Refund, Void} then (p, T) else update_payment p response T);
          (t, T) = get_already_processed_transaction_or_create_new_transaction p kind payment_data
                     action_required response er T
      in (Inr (t, p), T))"

definition process_payment :: "(string \<Rightarrow> nat) \<Rightarrow> gateway \<Rightarrow> string \<Rightarrow> payment \<Rightarrow> order_tables \<Rightarrow> result" where
  "process_payment precision gw token =
     raise_payment_error (require_active_payment (with_locked_payment (payment_postprocess precision (\<lambda>p T.
       call_gateway gw Process CAPTURE (create_payment_information p token None) p T))))"

definition authorize :: "(string \<Rightarrow> nat) \<Rightarrow> gateway \<Rightarrow> string \<Rightarrow> payment \<Rightarrow> order_tables \<Rightarrow> result" where
  "authorize precision gw token =
     raise_payment_error (require_active_payment (with_locked_payment (payment_postprocess precision (\<lambda>p T.
       case clean_authorize p of Some er \<Rightarrow> (Inl er, T)
       | None \<Rightarrow> call_gateway gw Authorize AUTH (create_payment_information p token None) p T))))"

definition capture :: "(string \<Rightarrow> nat) \<Rightarrow> gateway \<Rightarrow> decimal option \<Rightarrow> payment \<Rightarrow> order_tables \<Rightarrow> result" where
  "capture precision gw amount =
     payment_postprocess precision (raise_payment_error (require_active_payment (with_locked_payment
      (payment_postprocess precision (\<lambda>p T.
       let amount = (case amount of None \<Rightarrow> get_charge_amount p | Some a \<Rightarrow> a)
       in case clean_capture p amount of Some er \<Rightarrow> (Inl er, T)
          | None \<Rightarrow> (case get_past_transaction_token T p AUTH of Inl er \<Rightarrow> (Inl er, T)
             | Inr token \<Rightarrow> call_gateway gw Capture CAPTURE (create_payment_information p token (Some amount)) p T))))))"

definition is_manual :: "payment \<Rightarrow> bool" where
  "is_manual p \<longleftrightarrow> p_gateway p = ''manual''"

definition refund :: "(string \<Rightarrow> nat) \<Rightarrow> gateway \<Rightarrow> decimal option \<Rightarrow> payment \<Rightarrow> order_tables \<Rightarrow> result" where
  "refund precision gw amount =
     raise_payment_error (with_locked_payment (payment_postprocess precision (\<lambda>p T.
       let amount = (case amount of None \<Rightarrow> p_captured_amount p | Some a \<Rightarrow> a)
       in case validate_refund_amount p amount of Some er \<Rightarrow> (Inl er, T)
          | None \<Rightarrow> if \<not> can_refund p then (Inl Cannot_Refund, T)
             else (case get_past_transaction_token T p (if is_manual p then EXTERNAL else CAPTURE) of
               Inl er \<Rightarrow> (Inl er, T)
             | Inr token \<Rightarrow>
                 let payment_data = create_payment_information p token (Some amount)
                 in if is_manual p
                    then (case create_transaction p REFUND_KIND payment_data False None None True T of
                            (t, T') \<Rightarrow> (Inr (t, p), T'))
                    else call_gateway gw Refund REFUND_KIND payment_data p T))))"

definition void :: "(string \<Rightarrow> nat) \<Rightarrow> gateway \<Rightarrow> payment \<Rightarrow> order_tables \<Rightarrow> result" where
  "void precision gw =
     raise_payment_error (with_locked_payment (payment_postprocess precision (\<lambda>p T.
       case get_past_transaction_token T p AUTH of Inl er \<Rightarrow> (Inl er, T)
       | Inr token \<Rightarrow> call_gateway gw Void VOID (create_payment_information p token None) p T)))"

definition confirm :: "(string \<Rightarrow> nat) \<Rightarrow> gateway \<Rightarrow> payment \<Rightarrow> order_tables \<Rightarrow> result" where
  "confirm precision gw =
     raise_payment_error (require_active_payment (with_locked_payment (payment_postprocess precision (\<lambda>p T.
       let token = (case last_where (\<lambda>t. tx_kind t = ACTION_TO_CONFIRM \<and> tx_is_success t) (transactions_of T p) of
                      None \<Rightarrow> [] | Some t \<Rightarrow> tx_token t)
       in call_gateway gw Confirm CONFIRM (create_payment_information p token None) p T))))"

end
