(* ===== verification/Payment_Ledger.thy ===== *)
theory Payment_Ledger
  imports Payment_Operations
begin

text \<open>
  What holds of the payments of a shop whatever sequence of gateway operations runs: the captured
  amount of a payment is the sum of its processed transactions, the charge status agrees with it, and
  what an order counts as charged is what its payments have captured.  That it stays within the total is
  shown of the sequences in which no charged payment is processed and captured again (\<open>strict\<close>).  The operations of \<open>Payment_Operations\<close> are steps; the invariant is proved per step and
  lifted to sequences of steps.
\<close>

section \<open>The invariant\<close>

definition ledger_effect :: "transaction \<Rightarrow> decimal" where
  "ledger_effect t = (if \<not> tx_already_processed t then 0
     else if tx_kind t = CAPTURE \<or> tx_kind t = REFUND_REVERSED then tx_amount t
     else if tx_kind t = REFUND_KIND then - tx_amount t else 0)"

definition ledger :: "transaction list \<Rightarrow> decimal" where
  "ledger ts = sum_list (map ledger_effect ts)"

text \<open>
  \<open>strict\<close> is for a shop that starts no new capture of a payment beyond its total: then no payment has
  captured more than its total.
\<close>

definition payment_ok :: "bool \<Rightarrow> payment \<Rightarrow> bool" where
  "payment_ok strict p \<longleftrightarrow> distinct (map tx_pk (p_transactions p)) \<and> p_captured_amount p = ledger (p_transactions p)
     \<and> 0 \<le> p_captured_amount p \<and> 0 \<le> p_total p \<and> (strict \<longrightarrow> p_captured_amount p \<le> p_total p)
     \<and> (p_charge_status p = NOT_CHARGED \<longrightarrow> p_captured_amount p = 0)
     \<and> (p_charge_status p = FULLY_CHARGED \<longrightarrow> p_total p \<le> p_captured_amount p)
     \<and> (p_charge_status p = PARTIALLY_CHARGED \<longrightarrow> p_captured_amount p < p_total p)
     \<and> (p_charge_status p = PARTIALLY_REFUNDED \<longrightarrow> 0 < p_captured_amount p)
     \<and> (p_charge_status p = FULLY_REFUNDED \<longrightarrow> p_captured_amount p = 0 \<and> \<not> p_is_active p)"

definition charged_of :: "order_tables \<Rightarrow> 'a order_scheme \<Rightarrow> decimal" where
  "charged_of T o1 = sum_list (map p_captured_amount (order_payments T o1))
     + sum_list (map ti_charged_value (order_transactions T o1))"

definition shop_ok_except :: "bool \<Rightarrow> pk option \<Rightarrow> order_tables \<Rightarrow> bool" where
  "shop_ok_except strict x T \<longleftrightarrow> distinct (map p_pk (payments T)) \<and> distinct (map o_id (orders T))
     \<and> (\<forall>p \<in> set (payments T). payment_ok strict p \<and> (\<forall>k. p_order p = Some k \<longrightarrow> k \<in> o_id ` set (orders T)))
     \<and> (\<forall>o1 \<in> set (orders T). Some (o_id o1) \<noteq> x \<longrightarrow> so_total_charged_amount o1 = charged_of T o1)"

definition shop_ok :: "bool \<Rightarrow> order_tables \<Rightarrow> bool" where
  "shop_ok strict T \<longleftrightarrow> shop_ok_except strict None T"

section \<open>Changes of one payment row\<close>

lemma modify_payment_simps [simp]:
  "orders (modify_payment k f T) = orders T"
  "payment_transactions (modify_payment k f T) = payment_transactions T"
  by (simp_all add: modify_payment_def)

lemma modify_modify:
  "(\<And>r. p_pk (f r) = p_pk r) \<Longrightarrow> modify_payment k g (modify_payment k f T) = modify_payment k (g \<circ> f) T"
  by (simp add: modify_payment_def)

lemma find_row_modify:
  "find_row p_pk k (payments T) = Some r \<Longrightarrow> p_pk (f r) = p_pk r \<Longrightarrow>
   find_row p_pk k (payments (modify_payment k f T)) = Some (f r)"
proof -
  assume "p_pk (f r) = p_pk r"
  then have "find (\<lambda>r. p_pk r = k) (map (\<lambda>r. if p_pk r = k then f r else r) ps) = Some (f r)"
    if "find (\<lambda>r. p_pk r = k) ps = Some r" for ps
    using that by (induction ps) (auto split: if_splits)
  then show "find_row p_pk k (payments T) = Some r \<Longrightarrow> ?thesis" by (simp add: find_row_def modify_payment_def)
qed

lemma save_field_simps [simp]:
  "p_pk (save_field c p r) = p_pk r" "p_order (save_field c p r) = p_order r" "p_total (save_field c p r) = p_total r"
  "p_transactions (save_field c p r) = p_transactions r"
  by (cases c; simp)+

lemma save_fields_simps [simp]:
  "p_pk (fold (\<lambda>c. save_field c p) cs r) = p_pk r" "p_order (fold (\<lambda>c. save_field c p) cs r) = p_order r"
  "p_total (fold (\<lambda>c. save_field c p) cs r) = p_total r"
  "p_transactions (fold (\<lambda>c. save_field c p) cs r) = p_transactions r"
  by (induction cs arbitrary: r) simp_all

lemma charged_of_modify_other:
  assumes "\<And>r. p_order (f r) = p_order r"
    and "\<And>r. r \<in> set (payments T) \<Longrightarrow> p_pk r = k \<Longrightarrow>
      p_order r = Some (o_id o1) \<Longrightarrow> p_captured_amount (f r) = p_captured_amount r"
  shows "charged_of (modify_payment k f T) o1 = charged_of T o1"
proof -
  have "sum_list (map p_captured_amount (filter (\<lambda>p. p_order p = Some (o_id o1)) (map (\<lambda>r. if p_pk r = k then f r else r) ps)))
      = sum_list (map p_captured_amount (filter (\<lambda>p. p_order p = Some (o_id o1)) ps))"
    if "set ps \<subseteq> set (payments T)" for ps
    using that assms by (induction ps) auto
  then show ?thesis
    by (simp add: charged_of_def order_payments_def order_transactions_def modify_payment_def)
qed

lemma shop_ok_modify:
  assumes "shop_ok_except strict x T" and "find_row p_pk k (payments T) = Some r"
    and "\<And>r. p_pk (f r) = p_pk r" "\<And>r. p_order (f r) = p_order r" and "payment_ok strict (f r)"
    and "p_captured_amount (f r) \<noteq> p_captured_amount r \<Longrightarrow> x = None"
  shows "shop_ok_except strict (if p_captured_amount (f r) = p_captured_amount r then x else p_order r) (modify_payment k f T)"
proof -
  from assms(2) have r: "r \<in> set (payments T)" "p_pk r = k" by (auto simp: find_row_def dest: find_SomeD)
  have only: "q = r" if "q \<in> set (payments T)" "p_pk q = k" for q
    using assms(1) r that by (auto simp: shop_ok_except_def distinct_map inj_on_def)
  have pks: "map p_pk (map (\<lambda>q. if p_pk q = k then f q else q) ps) = map p_pk ps" for ps
    using assms(3) by (induction ps) auto
  have "charged_of (modify_payment k f T) o1 = so_total_charged_amount o1"
    if o1: "o1 \<in> set (orders T)" "Some (o_id o1) \<noteq> (if p_captured_amount (f r) = p_captured_amount r then x else p_order r)" for o1
  proof -
    have "charged_of (modify_payment k f T) o1 = charged_of T o1"
      by (rule charged_of_modify_other) (use assms(4) only o1(2) in \<open>auto split: if_splits\<close>)
    moreover have "Some (o_id o1) \<noteq> x" using assms(6) o1(2) by (auto split: if_splits)
    ultimately show ?thesis using assms(1) o1(1) by (simp add: shop_ok_except_def)
  qed
  moreover have "payment_ok strict p \<and> (\<forall>j. p_order p = Some j \<longrightarrow> j \<in> o_id ` set (orders T))"
    if "p \<in> set (payments (modify_payment k f T))" for p
  proof -
    from that obtain q where "q \<in> set (payments T)" "p = (if p_pk q = k then f q else q)"
      by (auto simp: modify_payment_def)
    with assms(1,4,5) only [of q] show ?thesis by (cases "p_pk q = k") (simp_all add: shop_ok_except_def)
  qed
  moreover have "distinct (map p_pk (payments (modify_payment k f T)))"
    using assms(1) pks [of "payments T"] by (simp add: shop_ok_except_def modify_payment_def del: map_map)
  ultimately show ?thesis using assms(1) unfolding shop_ok_except_def by simp
qed

lemma updates_amounts_facts:
  "o_id (updated_amounts precision T o1) = o_id o1"
  "so_total_charged_amount (updated_amounts precision T o1) = charged_of T o1"
  by (simp_all add: updated_amounts_def charged_of_def update_order_authorize_data_simps update_order_charge_data_simps)
    (simp add: update_order_authorize_data_def update_order_authorize_status_def update_order_total_authorized_def
      update_order_charge_data_def update_order_charge_status_def update_order_total_charged_def Let_def)

lemma shop_ok_updates_amounts:
  assumes "shop_ok_except strict (Some (o_id o1)) T"
  shows "shop_ok_except strict None (updates_amounts_for_order precision o1 T)"
proof -
  have "map o_id (map (\<lambda>x. if o_id x = o_id o1 then updated_amounts precision T o1 else x) os) = map o_id os" for os
    by (induction os) (simp_all add: updates_amounts_facts)
  then have ids: "map o_id (orders (updates_amounts_for_order precision o1 T)) = map o_id (orders T)"
    by (simp add: updates_amounts_for_order_def save_order_def updates_amounts_facts del: map_map)
  have same: "payments (updates_amounts_for_order precision o1 T) = payments T"
    "charged_of (updates_amounts_for_order precision o1 T) y = charged_of T y" for y :: sales_order
    by (simp_all add: updates_amounts_for_order_def save_order_def charged_of_def order_payments_def order_transactions_def)
  have "charged_of T (updated_amounts precision T o1) = charged_of T o1"
    by (simp add: charged_of_def order_payments_def order_transactions_def updates_amounts_facts)
  then have "\<forall>y \<in> set (orders (updates_amounts_for_order precision o1 T)). so_total_charged_amount y = charged_of T y"
    using assms by (auto simp: updates_amounts_for_order_def save_order_def shop_ok_except_def updates_amounts_facts)
  moreover have "o_id ` set (orders (updates_amounts_for_order precision o1 T)) = o_id ` set (orders T)"
    using arg_cong [OF ids, of set] by simp
  ultimately show ?thesis using assms ids same unfolding shop_ok_except_def by simp
qed

section \<open>Applying a transaction keeps the invariant\<close>

text \<open>A payment in memory and its row agree but for the transactions, which live in the table.\<close>

definition same_payment :: "payment \<Rightarrow> payment \<Rightarrow> bool" where
  "same_payment p r \<longleftrightarrow> p\<lparr>p_transactions := []\<rparr> = r\<lparr>p_transactions := []\<rparr>"

lemma same_paymentD:
  assumes "same_payment p r"
  shows "p_pk p = p_pk r" "p_is_active p = p_is_active r" "p_order p = p_order r"
    "p_charge_status p = p_charge_status r" "p_total p = p_total r" "p_captured_amount p = p_captured_amount r"
  using assms unfolding same_payment_def by (cases p; cases r; simp)+

definition fits :: "bool \<Rightarrow> transaction \<Rightarrow> payment \<Rightarrow> bool" where
  "fits strict t p \<longleftrightarrow> tx_kind t \<noteq> CAPTURE_FAILED
     \<and> (tx_kind t \<in> {CAPTURE, REFUND_REVERSED} \<longrightarrow>
          0 \<le> tx_amount t \<and> (strict \<longrightarrow> p_captured_amount p + tx_amount t \<le> p_total p))
     \<and> (tx_kind t = REFUND_KIND \<longrightarrow> 0 \<le> tx_amount t \<and> tx_amount t \<le> p_captured_amount p)"

definition mark :: "transaction \<Rightarrow> transaction \<Rightarrow> transaction" where
  "mark t x = (if tx_pk x = tx_pk t then x\<lparr>tx_already_processed := True\<rparr> else x)"

definition charged_row :: "payment_field list \<Rightarrow> transaction \<Rightarrow> payment \<Rightarrow> payment \<Rightarrow> payment" where
  "charged_row changed_fields t p r =
     (fold (\<lambda>c. save_field c p) changed_fields r)\<lparr>p_transactions := map (mark t) (p_transactions r)\<rparr>"

lemma charge_status_change_simps:
  "charge_status_change VOID a p = (p\<lparr>p_is_active := False\<rparr>, [F_Is_Active])"
  "charge_status_change PENDING a p = (p\<lparr>p_charge_status := PENDING_STATUS\<rparr>, [F_Charge_Status])"
  "charge_status_change CANCEL_KIND a p =
    (p\<lparr>p_charge_status := CANCELLED, p_is_active := False\<rparr>, [F_Charge_Status, F_Is_Active])"
  "k \<notin> {CAPTURE, REFUND_REVERSED, VOID, REFUND_KIND, PENDING, CANCEL_KIND, CAPTURE_FAILED} \<Longrightarrow>
    charge_status_change k a p = (p, [])"
  by (simp_all add: charge_status_change_def)

lemma mark_pks: "map tx_pk (map (mark t) ts) = map tx_pk ts"
  by (simp add: mark_def)

lemma ledger_mark:
  assumes "distinct (map tx_pk ts)" and "t \<in> set ts" and "\<not> tx_already_processed t"
  shows "ledger (map (mark t) ts) = ledger ts + ledger_effect (t\<lparr>tx_already_processed := True\<rparr>)"
proof -
  from assms(2) obtain xs ys where ts: "ts = xs @ t # ys" by (auto dest: split_list)
  have "map (mark t) zs = zs" if "tx_pk t \<notin> tx_pk ` set zs" for zs
    using that by (induction zs) (auto simp: mark_def)
  moreover have "tx_pk t \<notin> tx_pk ` set xs" "tx_pk t \<notin> tx_pk ` set ys" using assms(1) by (auto simp: ts)
  ultimately show ?thesis using assms(3) by (simp add: ts ledger_def mark_def ledger_effect_def)
qed

lemma charged_row_ok:
  assumes "payment_ok strict r" and "same_payment (p\<lparr>p_to_confirm := c\<rparr>) r"
    and "t \<in> set (p_transactions r)" and "\<not> tx_already_processed t" and "fits strict t r"
    and "charge_status_change (tx_kind t) (tx_amount t) p = (p', extra)" and "set before \<subseteq> {F_To_Confirm}"
  shows "payment_ok strict (charged_row (before @ extra) t p' r)"
proof -
  define r0 where "r0 = fold (\<lambda>c. save_field c p') before r"
  have "p_is_active (fold (\<lambda>c. save_field c p') cs x) = p_is_active x
      \<and> p_charge_status (fold (\<lambda>c. save_field c p') cs x) = p_charge_status x
      \<and> p_captured_amount (fold (\<lambda>c. save_field c p') cs x) = p_captured_amount x"
    if "set cs \<subseteq> {F_To_Confirm}" for cs x
    using that by (induction cs arbitrary: x) auto
  note this [OF assms(7), of r]
  then have r0: "p_is_active r0 = p_is_active r" "p_charge_status r0 = p_charge_status r"
    "p_captured_amount r0 = p_captured_amount r" "p_total r0 = p_total r" "p_transactions r0 = p_transactions r"
    by (simp_all add: r0_def)
  have p: "p_is_active p = p_is_active r" "p_charge_status p = p_charge_status r" "p_total p = p_total r"
    "p_captured_amount p = p_captured_amount r"
    using same_paymentD [OF assms(2)] by simp_all
  have ledger: "ledger (map (mark t) (p_transactions r)) =
      p_captured_amount r + ledger_effect (t\<lparr>tx_already_processed := True\<rparr>)"
    using ledger_mark [OF _ assms(3,4)] assms(1) by (simp add: payment_ok_def)
  have pks: "distinct (map tx_pk (map (mark t) (p_transactions r)))"
    using assms(1) by (simp only: mark_pks payment_ok_def)
  have row: "charged_row (before @ extra) t p' r
      = (fold (\<lambda>c. save_field c p') extra r0)\<lparr>p_transactions := map (mark t) (p_transactions r)\<rparr>"
    by (simp add: charged_row_def r0_def)
  note ok = assms(1) [unfolded payment_ok_def]
  have final: "payment_ok strict (x\<lparr>p_transactions := map (mark t) (p_transactions r)\<rparr>)"
    if "p_captured_amount x = p_captured_amount r + ledger_effect (t\<lparr>tx_already_processed := True\<rparr>)"
      and "0 \<le> p_captured_amount x" "0 \<le> p_total x" "strict \<Longrightarrow> p_captured_amount x \<le> p_total x"
      and "p_charge_status x = NOT_CHARGED \<Longrightarrow> p_captured_amount x = 0"
      and "p_charge_status x = FULLY_CHARGED \<Longrightarrow> p_total x \<le> p_captured_amount x"
      and "p_charge_status x = PARTIALLY_CHARGED \<Longrightarrow> p_captured_amount x < p_total x"
      and "p_charge_status x = PARTIALLY_REFUNDED \<Longrightarrow> 0 < p_captured_amount x"
      and "p_charge_status x = FULLY_REFUNDED \<Longrightarrow> p_captured_amount x = 0 \<and> \<not> p_is_active x" for x
    using that ledger pks by (simp add: payment_ok_def del: map_map)
  consider (charge) "tx_kind t = CAPTURE \<or> tx_kind t = REFUND_REVERSED" | (refund) "tx_kind t = REFUND_KIND"
    | (rest) "tx_kind t \<notin> {CAPTURE, REFUND_REVERSED, REFUND_KIND, CAPTURE_FAILED}"
    using assms(5) by (auto simp: fits_def)
  then show ?thesis
  proof cases
    case charge
    with assms(6) have x: "extra = [F_Charge_Status, F_Captured_Amount]"
      "p_captured_amount p' = p_captured_amount r + tx_amount t"
      "p_charge_status p' = (if p_total r \<le> p_captured_amount r + tx_amount t then FULLY_CHARGED else PARTIALLY_CHARGED)"
      by (auto simp: charge_status_change_def get_charge_amount_def Let_def p)
    show ?thesis unfolding row unfolding x(1)
      by (rule final) (use charge assms(5) ok r0 x(2,3) in \<open>auto simp: fits_def ledger_effect_def split: if_splits\<close>)
  next
    case refund
    with assms(5,6) have x: "extra = [F_Captured_Amount, F_Charge_Status, F_Is_Active]"
      "p_captured_amount p' = p_captured_amount r - tx_amount t"
      "p_charge_status p' = (if p_captured_amount r \<le> tx_amount t then FULLY_REFUNDED else PARTIALLY_REFUNDED)"
      "p_captured_amount r \<le> tx_amount t \<Longrightarrow> \<not> p_is_active p'"
      by (auto simp: charge_status_change_def fits_def Let_def p split: if_splits)
    show ?thesis unfolding row unfolding x(1)
      by (rule final) (use refund assms(5) ok r0 x(2-4) in \<open>auto simp: fits_def ledger_effect_def split: if_splits\<close>)
  next
    case rest
    then have none: "ledger_effect (t\<lparr>tx_already_processed := True\<rparr>) = 0" by (simp add: ledger_effect_def)
    let ?x = "fold (\<lambda>c. save_field c p') extra r0"
    have "p_captured_amount ?x = p_captured_amount r \<and> p_total ?x = p_total r
        \<and> (p_charge_status ?x = p_charge_status r \<and> (p_is_active ?x \<longrightarrow> p_is_active r)
           \<or> p_charge_status ?x \<in> {PENDING_STATUS, CANCELLED})"
    proof -
      consider "tx_kind t = VOID" | "tx_kind t = PENDING" | "tx_kind t = CANCEL_KIND"
        | "tx_kind t \<notin> {CAPTURE, REFUND_REVERSED, VOID, REFUND_KIND, PENDING, CANCEL_KIND, CAPTURE_FAILED}"
        using rest by auto
      then show ?thesis
      proof cases
        case 1
        with assms(6) have "extra = [F_Is_Active]" "p' = p\<lparr>p_is_active := False\<rparr>"
          by (simp_all add: charge_status_change_simps)
        with r0 show ?thesis by simp
      next
        case 2
        with assms(6) have "extra = [F_Charge_Status]" "p' = p\<lparr>p_charge_status := PENDING_STATUS\<rparr>"
          by (simp_all add: charge_status_change_simps)
        with r0 show ?thesis by simp
      next
        case 3
        with assms(6) have "extra = [F_Charge_Status, F_Is_Active]" "p' = p\<lparr>p_charge_status := CANCELLED, p_is_active := False\<rparr>"
          by (simp_all add: charge_status_change_simps)
        with r0 show ?thesis by simp
      next
        case 4
        then have "extra = []" using assms(6) charge_status_change_simps(4) [of "tx_kind t" "tx_amount t" p] by simp
        with r0 show ?thesis by simp
      qed
    qed
    with ok none show ?thesis unfolding row by (intro final) auto
  qed
qed

lemma gateway_postprocess_again:
  assumes "gateway_postprocess precision t p T = (t', p', T')"
  shows "gateway_postprocess precision t' p' T' = (t', p', T')"
proof (cases "\<not> tx_is_success t \<or> tx_already_processed t")
  case True
  with assms show ?thesis by (auto simp: gateway_postprocess_def)
next
  case False
  show ?thesis
  proof (cases "tx_action_required t")
    case True
    with False assms have "t' = t" "p' = p\<lparr>p_to_confirm := True\<rparr>" "T' = save_payment [F_To_Confirm] p' T"
      by (auto simp: gateway_postprocess_def Let_def)
    with True False show ?thesis
      by (simp add: gateway_postprocess_def save_payment_def modify_modify) (simp add: modify_payment_def)
  next
    case no_action: False
    have "tx_already_processed (fst (update_payment_charge_status precision p t fs T))" for p fs
      by (simp add: update_payment_charge_status_def Let_def split: prod.split)
    then have "tx_already_processed t'" using assms False no_action
      by (auto simp: gateway_postprocess_def Let_def split: if_splits) (metis fst_conv)+
    then show ?thesis by (simp add: gateway_postprocess_def)
  qed
qed

lemma charge_status_change_frame:
  assumes "charge_status_change k a p = (p', extra)"
  shows "p_pk p' = p_pk p \<and> p_order p' = p_order p"
  using assms unfolding charge_status_change_def Let_def by (auto split: if_splits)

lemma charge_status_change_auth: "charge_status_change AUTH a p = (p, [])"
  by (rule charge_status_change_simps) simp

lemma charged_row_frame [simp]:
  "p_pk (charged_row cs t p r) = p_pk r" "p_order (charged_row cs t p r) = p_order r"
  by (simp_all add: charged_row_def)

lemma charged_row_captured:
  "F_Captured_Amount \<notin> set cs \<Longrightarrow> p_captured_amount (charged_row cs t p r) = p_captured_amount r"
proof -
  have "p_captured_amount (save_field c p x) = p_captured_amount x" if "c \<noteq> F_Captured_Amount" for c x
    using that by (cases c) simp_all
  then have "F_Captured_Amount \<notin> set cs \<Longrightarrow> p_captured_amount (fold (\<lambda>c. save_field c p) cs r) = p_captured_amount r"
    by (induction cs arbitrary: r) auto
  then show "F_Captured_Amount \<notin> set cs \<Longrightarrow> ?thesis" by (simp add: charged_row_def)
qed

lemma kind_of_processed: "tx_kind (t\<lparr>tx_already_processed := b\<rparr>) = tx_kind t"
  by simp

lemma mark_eta: "(\<lambda>x. if tx_pk x = tx_pk t then x\<lparr>tx_already_processed := True\<rparr> else x) = mark t"
  by (rule ext) (simp add: mark_def)

lemma save_and_mark:
  "mark_processed p t (if cs \<noteq> [] then save_payment cs p T else T) = modify_payment (p_pk p) (charged_row cs t p) T"
proof -
  have "charged_row cs t p = (\<lambda>r. r\<lparr>p_transactions := map (mark t) (p_transactions r)\<rparr>)
      \<circ> (\<lambda>r. fold (\<lambda>c. save_field c p) cs r)"
    by (rule ext) (simp add: charged_row_def)
  then show ?thesis
    using mark_eta [of t] by (cases cs) (simp_all add: mark_processed_def save_payment_def modify_modify comp_def)
qed

lemma shop_ok_weaken: "shop_ok_except strict None T \<Longrightarrow> shop_ok_except strict x T"
  by (simp add: shop_ok_except_def)

lemma shop_ok_save_order:
  assumes "shop_ok_except strict None T" and "o1 \<in> set (orders T)"
    and "o_id o2 = o_id o1" and "so_total_charged_amount o2 = so_total_charged_amount o1"
  shows "shop_ok_except strict None (save_order o2 T)"
proof -
  have ids: "map o_id (map (\<lambda>x. if o_id x = o_id o2 then o2 else x) os) = map o_id os" for os
    by (induction os) auto
  then have "map o_id (orders (save_order o2 T)) = map o_id (orders T)"
    by (simp add: save_order_def del: map_map)
  moreover from this have "o_id ` set (orders (save_order o2 T)) = o_id ` set (orders T)"
    by (metis list.set_map)
  moreover have "charged_of (save_order o2 T) y = charged_of T y" for y :: sales_order
    by (simp add: save_order_def charged_of_def order_payments_def order_transactions_def)
  moreover have "charged_of T o2 = charged_of T o1"
    using assms(3) by (simp add: charged_of_def order_payments_def order_transactions_def)
  moreover have "payments (save_order o2 T) = payments T" by (simp add: save_order_def)
  moreover have "so_total_charged_amount x = charged_of T x" if "x \<in> set (orders (save_order o2 T))" for x
    using that assms \<open>charged_of T o2 = charged_of T o1\<close>
    by (auto simp: save_order_def shop_ok_except_def split: if_splits)
  ultimately show ?thesis using assms(1) unfolding shop_ok_except_def by simp
qed

lemma payment_order_found:
  assumes "shop_ok_except strict x T" and "p \<in> set (payments T)" and "p_order p' = p_order p"
  shows "payment_order p' T = None \<longleftrightarrow> p_order p = None"
    and "payment_order p' T = Some o1 \<Longrightarrow> o1 \<in> set (orders T) \<and> p_order p = Some (o_id o1)"
proof -
  have "find_row o_id k (orders T) \<noteq> None" if "p_order p = Some k" for k
  proof -
    from assms(1,2) that have "k \<in> o_id ` set (orders T)" by (simp add: shop_ok_except_def)
    then show ?thesis by (auto simp: find_row_def find_None_iff)
  qed
  then show "payment_order p' T = None \<longleftrightarrow> p_order p = None"
    using assms(3) by (auto simp: payment_order_def split: option.split)
  show "payment_order p' T = Some o1 \<Longrightarrow> o1 \<in> set (orders T) \<and> p_order p = Some (o_id o1)"
    using assms(3) by (auto simp: payment_order_def find_row_def split: option.splits dest: find_SomeD)
qed

lemma authorize_data_facts:
  "o_id (update_order_authorize_data precision ps ts rs o1) = o_id o1"
  by (simp add: update_order_authorize_data_def update_order_authorize_status_def update_order_total_authorized_def Let_def)

lemma update_payment_charge_status_ok:
  assumes "shop_ok strict T" and "find_row p_pk (p_pk p) (payments T) = Some r"
    and "same_payment (p\<lparr>p_to_confirm := c\<rparr>) r"
    and "t \<in> set (p_transactions r)" and "\<not> tx_already_processed t" and "fits strict t r"
    and "set before \<subseteq> {F_To_Confirm}"
  shows "shop_ok strict (snd (snd (update_payment_charge_status precision p t before T)))"
proof -
  obtain p' extra where change: "charge_status_change (tx_kind t) (tx_amount t) p = (p', extra)"
    by (cases "charge_status_change (tx_kind t) (tx_amount t) p")
  note frame = charge_status_change_frame [OF change]
  let ?cs = "before @ extra" and ?f = "charged_row (before @ extra) t p'"
  define T1 where "T1 = modify_payment (p_pk p') ?f T"
  have r: "r \<in> set (payments T)" "p_pk r = p_pk p" using assms(2) by (auto simp: find_row_def dest: find_SomeD)
  have "payment_ok strict r" using assms(1) r(1) by (simp add: shop_ok_def shop_ok_except_def)
  from charged_row_ok [OF this assms(3-6) change assms(7)] have ok: "payment_ok strict (?f r)" .
  have T1: "shop_ok_except strict (if p_captured_amount (?f r) = p_captured_amount r then None else p_order r) T1"
    unfolding T1_def by (rule shop_ok_modify) (use assms(1,2) frame ok in \<open>simp_all add: shop_ok_def\<close>)
  have row1: "?f r \<in> set (payments T1)" using r frame by (auto simp: T1_def modify_payment_def)
  have order: "p_order p' = p_order (?f r)" using frame same_paymentD(3) [OF assms(3)] by simp
  note found1 = payment_order_found [OF T1 row1 order]
  define T2 where "T2 = (case payment_order p' T1 of None \<Rightarrow> T1
     | Some o1 \<Rightarrow> if F_Captured_Amount \<in> set ?cs then updates_amounts_for_order precision o1 T1 else T1)"
  have T2: "shop_ok_except strict None T2"
  proof (cases "payment_order p' T1")
    case None
    with found1(1) T1 show ?thesis by (simp add: T2_def split: if_splits)
  next
    case (Some o1)
    show ?thesis
    proof (cases "F_Captured_Amount \<in> set ?cs")
      case True
      have "shop_ok_except strict (Some (o_id o1)) T1"
        using T1 found1(2) [OF Some] shop_ok_weaken [of strict T1] by (auto split: if_splits)
      from shop_ok_updates_amounts [OF this] True Some show ?thesis by (simp add: T2_def)
    next
      case False
      with T1 Some charged_row_captured [OF False, of t p' r] show ?thesis by (simp add: T2_def)
    qed
  qed
  have "payments T2 = payments T1"
    by (simp add: T2_def updates_amounts_for_order_def save_order_def split: option.split)
  with row1 have row2: "?f r \<in> set (payments T2)" by simp
  have result: "snd (snd (update_payment_charge_status precision p t before T)) =
    (case payment_order p' T2 of None \<Rightarrow> T2
     | Some o1 \<Rightarrow> if tx_kind t = AUTH
         then save_order (update_order_authorize_data precision (order_payments T2 o1) (order_transactions T2 o1)
                (order_granted_refunds T2 o1) o1) T2
         else T2)"
    by (simp only: update_payment_charge_status_def Let_def change prod.case save_and_mark T1_def T2_def snd_conv
        kind_of_processed)
  show ?thesis
  proof (cases "payment_order p' T2")
    case None
    with T2 result show ?thesis by (simp add: shop_ok_def)
  next
    case (Some o1)
    from payment_order_found(2) [OF T2 row2 order Some] have o1: "o1 \<in> set (orders T2)" by simp
    show ?thesis unfolding result
      using T2 Some shop_ok_save_order [OF T2 o1]
      by (simp add: shop_ok_def authorize_data_facts update_order_authorize_data_simps)
  qed
qed

text \<open>The transaction that an operation hands to \<open>gateway_postprocess\<close> is in the table and fits.\<close>

definition ready :: "bool \<Rightarrow> transaction \<Rightarrow> payment \<Rightarrow> order_tables \<Rightarrow> bool" where
  "ready strict t p T \<longleftrightarrow> (\<exists>r. find_row p_pk (p_pk p) (payments T) = Some r \<and> same_payment p r
     \<and> (tx_is_success t \<and> \<not> tx_already_processed t \<and> \<not> tx_action_required t \<longrightarrow> t \<in> set (p_transactions r) \<and> fits strict t r))"

lemma shop_ok_modify_same:
  assumes "shop_ok strict T" and "find_row p_pk k (payments T) = Some r"
    and "\<And>r. p_pk (f r) = p_pk r" "\<And>r. p_order (f r) = p_order r" and "payment_ok strict (f r)"
    and "p_captured_amount (f r) = p_captured_amount r"
  shows "shop_ok strict (modify_payment k f T)"
  using shop_ok_modify [of strict None T k r f] assms by (simp add: shop_ok_def)

lemma shop_ok_row: "shop_ok strict T \<Longrightarrow> find_row p_pk k (payments T) = Some r \<Longrightarrow> payment_ok strict r \<and> p_pk r = k"
  by (auto simp: shop_ok_def shop_ok_except_def find_row_def dest: find_SomeD)

lemma gateway_postprocess_ok:
  assumes "shop_ok strict T" and "ready strict t p T"
  shows "shop_ok strict (snd (snd (gateway_postprocess precision t p T)))"
proof -
  from assms(2) obtain r where r: "find_row p_pk (p_pk p) (payments T) = Some r" "same_payment p r"
    "tx_is_success t \<Longrightarrow> \<not> tx_already_processed t \<Longrightarrow> \<not> tx_action_required t \<Longrightarrow>
     t \<in> set (p_transactions r) \<and> fits strict t r" by (auto simp: ready_def)
  have "payment_ok strict r" using shop_ok_row [OF assms(1) r(1)] by simp
  then have confirm: "shop_ok strict (save_payment [F_To_Confirm] q T)" if "p_pk q = p_pk p" for q
    unfolding save_payment_def that
    by (intro shop_ok_modify_same [OF assms(1) r(1)]) (auto simp: payment_ok_def)
  show ?thesis
  proof (cases "tx_is_success t \<and> \<not> tx_already_processed t \<and> \<not> tx_action_required t")
    case True
    with r(3) have t: "t \<in> set (p_transactions r)" "fits strict t r" by simp_all
    have same: "same_payment (p\<lparr>p_to_confirm := p_to_confirm p\<rparr>) r" using r(2) by simp
    have same': "same_payment ((p\<lparr>p_to_confirm := False\<rparr>)\<lparr>p_to_confirm := p_to_confirm p\<rparr>) r" using r(2) by simp
    have "shop_ok strict (snd (snd (update_payment_charge_status precision p t [] T)))"
      by (rule update_payment_charge_status_ok [OF assms(1) r(1) same t(1) _ t(2)]) (use True in simp_all)
    moreover have "shop_ok strict (snd (snd (update_payment_charge_status precision (p\<lparr>p_to_confirm := False\<rparr>) t [F_To_Confirm] T)))"
      by (rule update_payment_charge_status_ok [OF assms(1) _ same' t(1) _ t(2)]) (use True r(1) in simp_all)
    ultimately show ?thesis using True by (simp add: gateway_postprocess_def)
  next
    case False
    with confirm [of "p\<lparr>p_to_confirm := True\<rparr>"] assms(1) show ?thesis by (auto simp: gateway_postprocess_def Let_def)
  qed
qed

section \<open>Calls of the gateway\<close>

text \<open>
  What the shop relies on of a gateway: a successful response that says it was processed before refers to a
  transaction of the payment that is in the table; any other one that captures is of the amount that was asked for and does not
  answer a refund or void, and one that refunds answers a refund and is of the amount asked for.
\<close>

definition refers_to_earlier :: "gateway \<Rightarrow> gateway_operation \<Rightarrow> payment_data \<Rightarrow> order_tables \<Rightarrow> bool" where
  "refers_to_earlier gw op d T \<longleftrightarrow> (case gw op d of
     Response r \<Rightarrow> gw_transaction_already_processed r \<and> (case find_row p_pk (pd_payment d) (payments T) of
       None \<Rightarrow> False | Some p \<Rightarrow> get_already_processed_transaction T p r \<noteq> None)
   | _ \<Rightarrow> False)"

definition honest :: "gateway \<Rightarrow> order_tables \<Rightarrow> bool" where
  "honest gw T \<longleftrightarrow> (\<forall>op d r. gw op d = Response r \<longrightarrow> gw_is_success r \<longrightarrow> refers_to_earlier gw op d T
     \<or> (gw_kind r = Some CAPTURE \<longrightarrow> op \<notin> {Refund, Void} \<and> gw_amount r = pd_amount d)
       \<and> (gw_kind r = Some REFUND_KIND \<longrightarrow> op = Refund \<and> gw_amount r = pd_amount d))"

definition covered :: "bool \<Rightarrow> gateway_operation \<Rightarrow> decimal \<Rightarrow> payment \<Rightarrow> bool" where
  "covered strict op amount p \<longleftrightarrow> 0 \<le> amount
     \<and> (op \<notin> {Refund, Void} \<longrightarrow> strict \<longrightarrow> p_captured_amount p + amount \<le> p_total p)
     \<and> (op = Refund \<longrightarrow> amount \<le> p_captured_amount p)"

lemma fold_max_ge: "(m::nat) \<le> fold max xs m \<and> (\<forall>x \<in> set xs. x \<le> fold max xs m)"
proof (induction xs arbitrary: m)
  case (Cons x xs)
  from Cons [of "max x m"] show ?case by auto
qed simp

lemma new_transaction_pk_fresh:
  "r \<in> set (payments T) \<Longrightarrow> new_transaction_pk T \<notin> tx_pk ` set (p_transactions r)"
  using fold_max_ge [of 0 "map tx_pk (concat (map p_transactions (payments T)))"]
  by (fastforce simp: new_transaction_pk_def)

lemma create_transaction_ok:
  assumes "shop_ok strict T" and "find_row p_pk (p_pk p) (payments T) = Some r" and "same_payment p r"
    and "create_transaction p kind d ar response er s T = (t, T')"
    and "tx_is_success t \<Longrightarrow> fits strict t r"
  shows "shop_ok strict T' \<and> ready strict t p T'"
proof -
  let ?f = "\<lambda>x. x\<lparr>p_transactions := p_transactions x @ [t]\<rparr>"
  have T': "T' = modify_payment (p_pk p) ?f T" and t: "tx_pk t = new_transaction_pk T" "\<not> tx_already_processed t"
    using assms(4) by (auto simp: create_transaction_def Let_def)
  have r: "r \<in> set (payments T)" using assms(2) by (auto simp: find_row_def dest: find_SomeD)
  have "payment_ok strict (?f r)"
    using shop_ok_row [OF assms(1,2)] new_transaction_pk_fresh [OF r] t
    by (auto simp: payment_ok_def ledger_def ledger_effect_def)
  then have "shop_ok strict T'" unfolding T' by (intro shop_ok_modify_same [OF assms(1,2)]) simp_all
  moreover have "same_payment p (?f r)" using assms(3) by (simp add: same_payment_def)
  moreover have "fits strict t (?f r) = fits strict t r" by (simp add: fits_def)
  ultimately show ?thesis
    using find_row_modify [OF assms(2), of ?f] assms(5) unfolding ready_def T' by auto
qed

lemma update_payment_ok:
  assumes "shop_ok strict T" and "find_row p_pk (p_pk p) (payments T) = Some r" and "same_payment p r"
    and "update_payment p response T = (p', T')"
  obtains r' where "shop_ok strict T'" and "find_row p_pk (p_pk p') (payments T') = Some r'" and "same_payment p' r'"
    and "p_pk p' = p_pk p" "p_captured_amount r' = p_captured_amount r" "p_total r' = p_total r"
proof (cases "T' = T \<and> p' = p")
  case True
  with assms that show ?thesis by blast
next
  case False
  with assms(4) obtain s where p': "p' = p\<lparr>p_psp_reference := s\<rparr>" "T' = save_payment [F_Psp_Reference] p' T"
    by (auto simp: update_payment_def Let_def split: option.splits if_splits)
  let ?f = "save_field F_Psp_Reference p'"
  have "(\<lambda>x. fold (\<lambda>c. save_field c p') [F_Psp_Reference] x) = ?f" by (rule ext) simp
  moreover have "p_pk p' = p_pk p" by (simp add: p'(1))
  ultimately have T': "T' = modify_payment (p_pk p) ?f T" by (simp only: p'(2) save_payment_def)
  have "shop_ok strict T'" unfolding T'
    by (rule shop_ok_modify_same [OF assms(1,2)]) (use shop_ok_row [OF assms(1,2)] in \<open>auto simp: payment_ok_def\<close>)
  moreover have "find_row p_pk (p_pk p') (payments T') = Some (?f r)"
    using find_row_modify [OF assms(2), of ?f] by (simp add: T' p'(1))
  moreover have "same_payment p' (?f r)" using assms(3) by (cases p; cases r) (simp add: same_payment_def p'(1))
  ultimately show ?thesis using that by (simp add: p'(1))
qed

lemma find_row_in: "find_row p_pk k ps = Some r \<Longrightarrow> r \<in> set ps \<and> p_pk r = k"
  by (auto simp: find_row_def dest: find_SomeD)

lemma find_last_where: "last_where P xs = Some x \<Longrightarrow> x \<in> set xs \<and> P x"
  unfolding last_where_def by (auto dest: find_SomeD)

lemma update_payment_transactions:
  assumes "update_payment p response T = (p', T')" and "find_row p_pk (p_pk p) (payments T) = Some r"
  shows "transactions_of T' p' = transactions_of T p" and "p_pk p' = p_pk p"
proof -
  show pk: "p_pk p' = p_pk p" using assms(1) by (auto simp: update_payment_def Let_def split: option.splits if_splits)
  have "T' = T \<or> (\<exists>s. T' = modify_payment (p_pk p') (\<lambda>r. r\<lparr>p_psp_reference := s\<rparr>) T)"
    using assms(1) by (auto simp: update_payment_def Let_def save_payment_def split: option.splits if_splits)
  moreover have "find_row p_pk (p_pk p) (payments (modify_payment (p_pk p) (\<lambda>r. r\<lparr>p_psp_reference := s\<rparr>) T))
      = Some (r\<lparr>p_psp_reference := s\<rparr>)" for s
    by (rule find_row_modify [OF assms(2)]) simp
  ultimately show "transactions_of T' p' = transactions_of T p" using assms(2) by (auto simp: transactions_of_def pk)
qed

section \<open>Transactions still to be applied\<close>

text \<open>
  A successful transaction that needs no action is applied in the operation that creates it.  So between
  operations none is left that would still change the captured amount.
\<close>

definition still_counts :: "transaction \<Rightarrow> bool" where
  "still_counts t \<longleftrightarrow> tx_kind t \<in> {CAPTURE, REFUND_KIND} \<and> tx_is_success t \<and> \<not> tx_action_required t \<and> \<not> tx_already_processed t"

definition open_in :: "order_tables \<Rightarrow> (pk \<times> transaction) set" where
  "open_in T = {(p_pk p, t) | p t. p \<in> set (payments T) \<and> t \<in> set (p_transactions p) \<and> still_counts t}"

definition settled :: "order_tables \<Rightarrow> bool" where
  "settled T \<longleftrightarrow> (\<forall>p \<in> set (payments T). \<forall>t \<in> set (p_transactions p). \<not> still_counts t)"

lemma settled_iff: "settled T \<longleftrightarrow> open_in T = {}"
  by (auto simp: settled_def open_in_def)

lemma open_in_modify:
  assumes "\<And>r. p_pk (f r) = p_pk r" and "\<And>r. p_transactions (f r) = p_transactions r"
  shows "open_in (modify_payment k f T) = open_in T"
proof -
  let ?open = "\<lambda>p. {(p_pk p, t) | t. t \<in> set (p_transactions p) \<and> still_counts t}"
  have all: "open_in T' = (\<Union>p \<in> set (payments T'). ?open p)" for T' by (auto simp: open_in_def)
  have "?open (if p_pk r = k then f r else r) = ?open r" for r using assms by simp
  then show ?thesis unfolding all by (simp add: modify_payment_def del: if_image_distrib)
qed

lemma open_in_payments: "payments T' = payments T \<Longrightarrow> open_in T' = open_in T"
  by (simp add: open_in_def)

lemma open_in_save: "open_in (save_payment cs p T) = open_in T"
  unfolding save_payment_def by (rule open_in_modify) simp_all

lemma open_in_update_payment: "update_payment p response T = (p', T') \<Longrightarrow> open_in T' = open_in T \<and> p_pk p' = p_pk p"
  by (auto simp: update_payment_def Let_def open_in_save split: option.splits if_splits)

lemma open_in_create:
  assumes "create_transaction p kind d ar response er s T = (t, T')"
  shows "open_in T' \<subseteq> insert (p_pk p, t) (open_in T)"
proof -
  have "T' = modify_payment (p_pk p) (\<lambda>x. x\<lparr>p_transactions := p_transactions x @ [t]\<rparr>) T"
    using assms by (auto simp: create_transaction_def Let_def)
  then show ?thesis by (auto simp: open_in_def modify_payment_def split: if_splits)
qed

lemma open_in_charged: "open_in (modify_payment (p_pk p) (charged_row cs t q) T) \<subseteq> open_in T - {(p_pk p, t)}"
proof -
  have "still_counts (mark t x) \<Longrightarrow> mark t x = x \<and> x \<noteq> t" for x
    by (auto simp: mark_def still_counts_def split: if_splits)
  then show ?thesis
    by (auto simp: open_in_def modify_payment_def charged_row_def split: if_splits) metis+
qed

lemma open_in_charge_status: "open_in (snd (snd (update_payment_charge_status precision p t before T))) \<subseteq> open_in T - {(p_pk p, t)}"
proof -
  obtain p' extra where change: "charge_status_change (tx_kind t) (tx_amount t) p = (p', extra)"
    by (cases "charge_status_change (tx_kind t) (tx_amount t) p")
  let ?T1 = "modify_payment (p_pk p') (charged_row (before @ extra) t p') T"
  have "payments (snd (snd (update_payment_charge_status precision p t before T))) = payments ?T1"
    unfolding update_payment_charge_status_def Let_def change prod.case save_and_mark snd_conv
    by (simp add: updates_amounts_for_order_def save_order_def split: option.split)
  from open_in_payments [OF this] open_in_charged [of p' "before @ extra" t p' T] show ?thesis
    using charge_status_change_frame [OF change] by simp
qed

lemma open_in_postprocess:
  "open_in (snd (snd (gateway_postprocess precision t p T))) \<subseteq> open_in T - {(p_pk p, t)}"
proof (cases "\<not> tx_is_success t \<or> tx_already_processed t \<or> tx_action_required t")
  case True
  then have "\<not> still_counts t" by (auto simp: still_counts_def)
  then have "(p_pk p, t) \<notin> open_in T" by (auto simp: open_in_def)
  with True show ?thesis by (auto simp: gateway_postprocess_def open_in_save Let_def)
next
  case False
  with open_in_charge_status [of precision p t "[]" T]
    open_in_charge_status [of precision "p\<lparr>p_to_confirm := False\<rparr>" t "[F_To_Confirm]" T]
  show ?thesis by (simp add: gateway_postprocess_def)
qed

definition opens_own :: "(payment \<Rightarrow> order_tables \<Rightarrow> result) \<Rightarrow> bool" where
  "opens_own body \<longleftrightarrow> (\<forall>p T t p' T'. body p T = (Inr (t, p'), T') \<longrightarrow> open_in T' \<subseteq> insert (p_pk p', t) (open_in T))"

lemma opens_ownD: "opens_own body \<Longrightarrow> body p T = (Inr (t, p'), T') \<Longrightarrow> open_in T' \<subseteq> insert (p_pk p', t) (open_in T)"
  unfolding opens_own_def by blast

lemma call_gateway_opens:
  assumes "call_gateway gw op kind d p T = (Inr (t, p'), T')"
  shows "open_in T' \<subseteq> insert (p_pk p', t) (open_in T)"
proof -
  obtain response er where fetch: "fetch_gateway_response (gw op d) = (response, er)"
    by (cases "fetch_gateway_response (gw op d)")
  obtain p2 T2 where p2: "(if op \<in> {Refund, Void} then (p, T) else update_payment p response T) = (p2, T2)"
    by (cases "if op \<in> {Refund, Void} then (p, T) else update_payment p response T")
  define ar where "ar = (case response of None \<Rightarrow> False | Some r \<Rightarrow> op \<in> {Process, Confirm} \<and> gw_action_required r)"
  have result: "get_already_processed_transaction_or_create_new_transaction p2 kind d ar response er T2 = (t, T')" "p' = p2"
    using assms p2 by (simp_all add: call_gateway_def Let_def fetch ar_def split: prod.splits)
  have "open_in T2 = open_in T" using p2 open_in_update_payment [of p response T p2 T2] by (auto split: if_splits)
  moreover have "create_transaction p2 kind d ar response er False T2 = (t, T') \<or> T' = T2"
    using result(1) by (auto simp: get_already_processed_transaction_or_create_new_transaction_def Let_def split: option.splits if_splits)
  ultimately show ?thesis using open_in_create [of p2 kind d ar response er False T2 t T'] result(2) by auto
qed

lemma settled_decorated:
  "settled (snd (fn p T)) \<Longrightarrow> settled (snd (raise_payment_error fn p T))"
  "settled T \<Longrightarrow> settled (snd (fn p T)) \<Longrightarrow> settled (snd (require_active_payment fn p T))"
  by (auto simp: raise_payment_error_def require_active_payment_def split: prod.split sum.split)

lemma settled_locked:
  assumes "settled T" and "opens_own body"
  shows "settled (snd (with_locked_payment (payment_postprocess precision body) p T))"
proof (cases "find_row p_pk (p_pk p) (payments T)")
  case (Some r)
  obtain res T1 where run: "body r T = (res, T1)" by (cases "body r T")
  show ?thesis
  proof (cases res)
    case (Inl er)
    with Some run assms(1) show ?thesis by (simp add: with_locked_payment_def payment_postprocess_def)
  next
    case (Inr x)
    obtain t p' where x: "x = (t, p')" by (cases x)
    obtain t2 p2 T2 where post: "gateway_postprocess precision t p' T1 = (t2, p2, T2)"
      by (cases "gateway_postprocess precision t p' T1")
    have "open_in T2 = {}"
      using open_in_postprocess [of precision t p' T1] opens_ownD [OF assms(2) run [unfolded Inr x]] assms(1)
      by (auto simp: settled_iff post)
    with Some run show ?thesis
      by (simp add: with_locked_payment_def payment_postprocess_def settled_iff Inr x post)
  qed
qed (use assms(1) in \<open>simp add: with_locked_payment_def\<close>)

section \<open>A call of the gateway keeps the invariant\<close>

lemma call_gateway_ok:
  assumes "honest gw T" and "shop_ok strict T" and "settled T" and "find_row p_pk (p_pk p) (payments T) = Some p"
    and "pd_payment d = p_pk p" and "covered strict op (pd_amount d) p \<or> refers_to_earlier gw op d T"
    and "call_gateway gw op kind d p T = (Inr (t, p'), T')"
  shows "shop_ok strict T' \<and> ready strict t p' T'"
proof -
  obtain response er where fetch: "fetch_gateway_response (gw op d) = (response, er)"
    by (cases "fetch_gateway_response (gw op d)")
  have valid: "gw op d = Response r \<and> (\<exists>k \<in> set ALLOWED_GATEWAY_KINDS. gw_kind r = Some k)" if "response = Some r" for r
    using fetch that unfolding fetch_gateway_response_def validate_gateway_response_def
    by (auto split: gateway_outcome.splits option.splits if_splits)
  define ar where "ar = (case response of None \<Rightarrow> False | Some r \<Rightarrow> op \<in> {Process, Confirm} \<and> gw_action_required r)"
  obtain p2 T2 where p2: "(if op \<in> {Refund, Void} then (p, T) else update_payment p response T) = (p2, T2)"
    by (cases "if op \<in> {Refund, Void} then (p, T) else update_payment p response T")
  have "same_payment p p" by (simp add: same_payment_def)
  from p2 obtain r where r: "shop_ok strict T2" "find_row p_pk (p_pk p2) (payments T2) = Some r" "same_payment p2 r"
    "p_captured_amount r = p_captured_amount p" "p_total r = p_total p"
    using update_payment_ok [OF assms(2,4) \<open>same_payment p p\<close>] assms(2,4) \<open>same_payment p p\<close>
    by (cases "op \<in> {Refund, Void}") (auto split: if_splits, metis)
  have same: "transactions_of T2 p2 = transactions_of T p" "open_in T2 = open_in T"
    using p2 update_payment_transactions(1) [OF _ assms(4)] open_in_update_payment [of p response T p2 T2]
    by (auto split: if_splits)
  have result: "get_already_processed_transaction_or_create_new_transaction p2 kind d ar response er T2 = (t, T')" "p' = p2"
    using assms(7) p2 by (simp_all add: call_gateway_def Let_def fetch ar_def split: prod.splits)
  show ?thesis
  proof (cases "\<exists>g. response = Some g \<and> gw_transaction_already_processed g \<and> get_already_processed_transaction T2 p2 g \<noteq> None")
    case True
    with result(1) obtain g where g: "response = Some g" "T' = T2" "get_already_processed_transaction T2 p2 g = Some t"
      by (auto simp: get_already_processed_transaction_or_create_new_transaction_def Let_def split: option.splits if_splits)
    then have t: "t \<in> set (p_transactions r)" "Some (tx_kind t) = gw_kind g"
      using r(2) by (auto simp: get_already_processed_transaction_def transactions_of_def dest!: find_last_where)
    have "still_counts t \<Longrightarrow> (p_pk r, t) \<in> open_in T2" 
      unfolding open_in_def using t(1) find_row_in [OF r(2)] by blast
    then have "\<not> still_counts t" using assms(3) same(2) by (auto simp: settled_iff)
    moreover have "tx_kind t \<in> set ALLOWED_GATEWAY_KINDS" using valid [OF g(1)] t(2) by auto
    ultimately have "tx_is_success t \<Longrightarrow> \<not> tx_already_processed t \<Longrightarrow> \<not> tx_action_required t \<Longrightarrow> fits strict t r"
      by (auto simp: fits_def still_counts_def ALLOWED_GATEWAY_KINDS_def)
    with r g(2) t(1) result(2) show ?thesis by (auto simp: ready_def)
  next
    case False
    have new: "create_transaction p2 kind d ar response er False T2 = (t, T')"
      using result(1) False
      by (auto simp: get_already_processed_transaction_or_create_new_transaction_def Let_def split: option.splits if_splits)
    have fresh: "\<not> refers_to_earlier gw op d T" if g: "response = Some g" for g
      using False g valid [OF g] assms(4,5)
      by (auto simp: refers_to_earlier_def get_already_processed_transaction_def same(1) split: option.splits)
    have "fits strict t r" if success: "tx_is_success t"
    proof -
      from success obtain g where g: "response = Some g" "gw_is_success g" "tx_kind t = the (gw_kind g)" "tx_amount t = gw_amount g"
        using new by (cases response) (auto simp: create_transaction_def Let_def)
      from assms(1) valid [OF g(1)] g(2) fresh [OF g(1)]
      have trust: "gw_kind g = Some CAPTURE \<longrightarrow> op \<notin> {Refund, Void} \<and> gw_amount g = pd_amount d"
        "gw_kind g = Some REFUND_KIND \<longrightarrow> op = Refund \<and> gw_amount g = pd_amount d"
        unfolding honest_def by blast+
      obtain k where k: "gw_kind g = Some k" "k \<in> set ALLOWED_GATEWAY_KINDS" using valid [OF g(1)] by blast
      have "tx_kind t = k" by (simp add: g(3) k(1))
      with k trust g(4) have "tx_kind t \<in> set ALLOWED_GATEWAY_KINDS"
        "tx_kind t = CAPTURE \<longrightarrow> op \<notin> {Refund, Void} \<and> tx_amount t = pd_amount d"
        "tx_kind t = REFUND_KIND \<longrightarrow> op = Refund \<and> tx_amount t = pd_amount d"
        by auto
      with assms(6) fresh [OF g(1)] show ?thesis
        by (auto simp: fits_def covered_def r(4,5) ALLOWED_GATEWAY_KINDS_def)
    qed
    from create_transaction_ok [OF r(1-3) new this] result(2) show ?thesis by simp
  qed
qed

section \<open>Operations keep the invariant\<close>

definition body_ok :: "bool \<Rightarrow> (payment \<Rightarrow> order_tables \<Rightarrow> result) \<Rightarrow> payment \<Rightarrow> order_tables \<Rightarrow> bool" where
  "body_ok strict body p T \<longleftrightarrow> (\<forall>t p' T'. body p T = (Inr (t, p'), T') \<longrightarrow> shop_ok strict T' \<and> ready strict t p' T')"

lemma locked_ok:
  assumes "shop_ok strict T" and "\<And>r. find_row p_pk (p_pk p) (payments T) = Some r \<Longrightarrow> body_ok strict body r T"
  shows "shop_ok strict (snd (with_locked_payment (payment_postprocess precision body) p T))"
proof (cases "find_row p_pk (p_pk p) (payments T)")
  case None
  with assms(1) show ?thesis by (simp add: with_locked_payment_def)
next
  case (Some r)
  obtain res T1 where run: "body r T = (res, T1)" by (cases "body r T")
  show ?thesis
  proof (cases res)
    case (Inl er)
    with Some run assms(1) show ?thesis by (simp add: with_locked_payment_def payment_postprocess_def)
  next
    case (Inr x)
    obtain t p' where x: "x = (t, p')" by (cases x)
    have "shop_ok strict T1" "ready strict t p' T1" using assms(2) [OF Some] run by (simp_all add: body_ok_def Inr x)
    from gateway_postprocess_ok [OF this, of precision] show ?thesis
      using Some run by (auto simp: with_locked_payment_def payment_postprocess_def Inr x split: prod.split)
  qed
qed

lemma raise_require_ok:
  "shop_ok strict (snd (fn p T)) \<Longrightarrow> shop_ok strict (snd (raise_payment_error fn p T))"
  "shop_ok strict T \<Longrightarrow> shop_ok strict (snd (fn p T)) \<Longrightarrow> shop_ok strict (snd (require_active_payment fn p T))"
  by (auto simp: raise_payment_error_def require_active_payment_def split: prod.split sum.split)

text \<open>The second \<open>payment_postprocess\<close> of \<open>capture\<close> finds nothing left to do.\<close>

lemma postprocess_twice:
  "snd (payment_postprocess precision (raise_payment_error (require_active_payment
      (with_locked_payment (payment_postprocess precision body)))) p T)
   = snd (raise_payment_error (require_active_payment (with_locked_payment (payment_postprocess precision body))) p T)"
proof -
  have "snd (payment_postprocess precision fn p T) = snd (fn p T)"
    if "\<And>t p' T'. fn p T = (Inr (t, p'), T') \<Longrightarrow> gateway_postprocess precision t p' T' = (t, p', T')" for fn
    using that by (cases "fn p T"; cases "fst (fn p T)") (auto simp: payment_postprocess_def split: prod.split)
  moreover have "gateway_postprocess precision t p' T' = (t, p', T')"
    if "raise_payment_error (require_active_payment (with_locked_payment (payment_postprocess precision body))) p T
        = (Inr (t, p'), T')" for t p' T'
  proof -
    from that obtain t0 p0 T0 where "gateway_postprocess precision t0 p0 T0 = (t, p', T')"
      by (auto simp: raise_payment_error_def require_active_payment_def with_locked_payment_def
          payment_postprocess_def split: prod.splits sum.splits if_splits option.splits)
    then show ?thesis by (rule gateway_postprocess_again)
  qed
  ultimately show ?thesis by blast
qed

lemma covered_total:
  assumes "payment_ok strict p" and "strict \<Longrightarrow> p_captured_amount p = 0 \<or> op = Void" and "op \<noteq> Refund"
  shows "covered strict op (pd_amount (create_payment_information p token None)) p"
  using assms by (auto simp: covered_def payment_ok_def create_payment_information_def)

lemma row_again: "find_row p_pk k (payments T) = Some r \<Longrightarrow> find_row p_pk (p_pk r) (payments T) = Some r"
  by (auto simp: find_row_def dest: find_SomeD)

lemma payment_of_information [simp]: "pd_payment (create_payment_information p token a) = p_pk p"
  by (simp add: create_payment_information_def)

lemma call_body_ok:
  assumes "honest gw T" and "shop_ok strict T" and "settled T" and "find_row p_pk k (payments T) = Some r"
    and "covered strict op (pd_amount d) r \<or> refers_to_earlier gw op d T" and "pd_payment d = p_pk r"
  shows "body_ok strict (\<lambda>p T. call_gateway gw op kind d p T) r T"
  using call_gateway_ok [OF assms(1-3) row_again [OF assms(4)] assms(6,5)] unfolding body_ok_def by blast

lemma authorize_ok:
  assumes "honest gw T" and "shop_ok strict T" and "settled T"
  shows "shop_ok strict (snd (authorize precision gw token p T))"
  unfolding authorize_def
proof (intro raise_require_ok locked_ok assms(2))
  fix r assume r: "find_row p_pk (p_pk p) (payments T) = Some r"
  have "payment_ok strict r" using shop_ok_row [OF assms(2) r] by simp
  then have "covered strict Authorize (pd_amount (create_payment_information r token None)) r" if "clean_authorize r = None"
    using that by (intro covered_total)
      (auto simp: clean_authorize_def can_authorize_def not_charged_def payment_ok_def split: if_splits)
  with call_body_ok [OF assms r, of Authorize "create_payment_information r token None"]
  show "body_ok strict (\<lambda>p T. case clean_authorize p of Some er \<Rightarrow> (Inl er, T)
      | None \<Rightarrow> call_gateway gw Authorize AUTH (create_payment_information p token None) p T) r T"
    by (cases "clean_authorize r") (simp_all add: body_ok_def)
qed

lemma capture_ok:
  assumes "honest gw T" and "shop_ok strict T" and "settled T"
  shows "shop_ok strict (snd (capture precision gw amount p T))"
  unfolding capture_def postprocess_twice
proof (intro raise_require_ok locked_ok assms(2))
  fix r assume r: "find_row p_pk (p_pk p) (payments T) = Some r"
  have covered: "covered strict Capture (pd_amount (create_payment_information r token (Some a))) r"
    if "clean_capture r a = None" for a token
    using that by (auto simp: clean_capture_def covered_def create_payment_information_def split: if_splits)
  have called: "shop_ok strict T' \<and> ready strict t p' T'" if "clean_capture r a = None"
    "call_gateway gw Capture CAPTURE (create_payment_information r token (Some a)) r T = (Inr (t, p'), T')" for a token t p' T'
    using call_body_ok [OF assms r disjI1 [OF covered [OF that(1)]]] that(2) unfolding body_ok_def by simp
  show "body_ok strict (\<lambda>p T. let amount = (case amount of None \<Rightarrow> get_charge_amount p | Some a \<Rightarrow> a)
      in case clean_capture p amount of Some er \<Rightarrow> (Inl er, T)
         | None \<Rightarrow> (case get_past_transaction_token T p AUTH of Inl er \<Rightarrow> (Inl er, T)
            | Inr token \<Rightarrow> call_gateway gw Capture CAPTURE (create_payment_information p token (Some amount)) p T)) r T"
    using called unfolding body_ok_def Let_def by (auto split: option.splits sum.splits)
qed

lemma refund_ok:
  assumes "honest gw T" and "shop_ok strict T" and "settled T"
  shows "shop_ok strict (snd (refund precision gw amount p T))"
  unfolding refund_def
proof (intro raise_require_ok locked_ok assms(2))
  fix r assume r: "find_row p_pk (p_pk p) (payments T) = Some r"
  have amount: "pd_amount (create_payment_information r token (Some a)) = a \<and> 0 \<le> a \<and> a \<le> p_captured_amount r"
    if "validate_refund_amount r a = None" for a token
    using that by (auto simp: validate_refund_amount_def create_payment_information_def split: if_splits)
  have manual: "shop_ok strict T' \<and> ready strict t r T'"
    if "validate_refund_amount r a = None"
      and "create_transaction r REFUND_KIND (create_payment_information r token (Some a)) False None None True T = (t, T')"
    for a token t T'
  proof (rule create_transaction_ok [OF assms(2) row_again [OF r] _ that(2)])
    show "same_payment r r" by (simp add: same_payment_def)
    show "fits strict t r" using that(2) amount [OF that(1), of token] by (auto simp: create_transaction_def Let_def fits_def)
  qed
  have called: "shop_ok strict T' \<and> ready strict t p' T'" if "validate_refund_amount r a = None"
    "call_gateway gw Refund REFUND_KIND (create_payment_information r token (Some a)) r T = (Inr (t, p'), T')" for a token t p' T'
    using call_body_ok [OF assms r, of Refund "create_payment_information r token (Some a)"] amount [OF that(1)] that(2)
    by (simp add: covered_def body_ok_def)
  show "body_ok strict (\<lambda>p T. let amount = (case amount of None \<Rightarrow> p_captured_amount p | Some a \<Rightarrow> a)
      in case validate_refund_amount p amount of Some er \<Rightarrow> (Inl er, T)
         | None \<Rightarrow> if \<not> can_refund p then (Inl Cannot_Refund, T)
            else (case get_past_transaction_token T p (if is_manual p then EXTERNAL else CAPTURE) of
              Inl er \<Rightarrow> (Inl er, T)
            | Inr token \<Rightarrow>
                let payment_data = create_payment_information p token (Some amount)
                in if is_manual p
                   then (case create_transaction p REFUND_KIND payment_data False None None True T of
                           (t, T') \<Rightarrow> (Inr (t, p), T'))
                   else call_gateway gw Refund REFUND_KIND payment_data p T)) r T"
    using called manual unfolding body_ok_def Let_def
    by (auto split: option.splits sum.splits prod.splits if_splits)
qed

lemma void_ok:
  assumes "honest gw T" and "shop_ok strict T" and "settled T"
  shows "shop_ok strict (snd (void precision gw p T))"
  unfolding void_def
proof (intro raise_require_ok locked_ok assms(2))
  fix r assume r: "find_row p_pk (p_pk p) (payments T) = Some r"
  have "payment_ok strict r" using shop_ok_row [OF assms(2) r] by simp
  then have "covered strict Void (pd_amount (create_payment_information r token None)) r" for token
    by (rule covered_total) simp_all
  from call_body_ok [OF assms r disjI1 [OF this]]
  have "shop_ok strict T' \<and> ready strict t p' T'" if "call_gateway gw Void VOID (create_payment_information r token None) r T
      = (Inr (t, p'), T')" for token t p' T' using that unfolding body_ok_def by simp
  then show "body_ok strict (\<lambda>p T. case get_past_transaction_token T p AUTH of Inl er \<Rightarrow> (Inl er, T)
      | Inr token \<Rightarrow> call_gateway gw Void VOID (create_payment_information p token None) p T) r T"
    unfolding body_ok_def by (auto split: sum.splits)
qed

lemma total_called_ok:
  assumes "honest gw T" and "shop_ok strict T" and "settled T" and "find_row p_pk (p_pk p) (payments T) = Some r"
    and "op \<noteq> Refund"
    and "strict \<Longrightarrow> p_captured_amount r = 0 \<or> refers_to_earlier gw op (create_payment_information r token None) T"
  shows "body_ok strict (\<lambda>p T. call_gateway gw op kind (create_payment_information r token None) p T) r T"
proof (rule call_body_ok [OF assms(1-4)])
  have "payment_ok strict r" using shop_ok_row [OF assms(2,4)] by simp
  from covered_total [OF this _ assms(5)] assms(6)
  show "covered strict op (pd_amount (create_payment_information r token None)) r
      \<or> refers_to_earlier gw op (create_payment_information r token None) T" by blast
qed simp

lemma process_payment_ok:
  assumes "honest gw T" and "shop_ok strict T" and "settled T"
    and "\<And>r. strict \<Longrightarrow> find_row p_pk (p_pk p) (payments T) = Some r \<Longrightarrow>
      p_captured_amount r = 0 \<or> refers_to_earlier gw Process (create_payment_information r token None) T"
  shows "shop_ok strict (snd (process_payment precision gw token p T))"
  unfolding process_payment_def
proof (intro raise_require_ok locked_ok assms(2))
  fix r assume r: "find_row p_pk (p_pk p) (payments T) = Some r"
  have "body_ok strict (\<lambda>p T. call_gateway gw Process CAPTURE (create_payment_information r token None) p T) r T"
    by (rule total_called_ok [OF assms(1-3) r _ assms(4) [OF _ r]]) simp_all
  then show "body_ok strict (\<lambda>p T. call_gateway gw Process CAPTURE (create_payment_information p token None) p T) r T"
    unfolding body_ok_def .
qed

lemma confirm_ok:
  assumes "honest gw T" and "shop_ok strict T" and "settled T"
    and "\<And>r token. strict \<Longrightarrow> find_row p_pk (p_pk p) (payments T) = Some r \<Longrightarrow>
      p_captured_amount r = 0 \<or> refers_to_earlier gw Confirm (create_payment_information r token None) T"
  shows "shop_ok strict (snd (confirm precision gw p T))"
  unfolding confirm_def
proof (intro raise_require_ok locked_ok assms(2))
  fix r assume r: "find_row p_pk (p_pk p) (payments T) = Some r"
  have "body_ok strict (\<lambda>p T. call_gateway gw Confirm CONFIRM (create_payment_information r token None) p T) r T" for token
    by (rule total_called_ok [OF assms(1-3) r _ assms(4) [OF _ r]]) simp_all
  then show "body_ok strict (\<lambda>p T. let token = (case last_where (\<lambda>t. tx_kind t = ACTION_TO_CONFIRM \<and> tx_is_success t)
          (transactions_of T p) of None \<Rightarrow> [] | Some t \<Rightarrow> tx_token t)
      in call_gateway gw Confirm CONFIRM (create_payment_information p token None) p T) r T"
    unfolding body_ok_def Let_def .
qed

text \<open>Every operation leaves nothing open.\<close>

lemma capture_opens: "opens_own (\<lambda>p T. let amount = (case amount of None \<Rightarrow> get_charge_amount p | Some a \<Rightarrow> a)
      in case clean_capture p amount of Some er \<Rightarrow> (Inl er, T)
         | None \<Rightarrow> (case get_past_transaction_token T p AUTH of Inl er \<Rightarrow> (Inl er, T)
            | Inr token \<Rightarrow> call_gateway gw Capture CAPTURE (create_payment_information p token (Some amount)) p T))"
  unfolding opens_own_def Let_def
  by (auto split: option.splits sum.splits dest!: call_gateway_opens)

lemma operations_settle:
  assumes "settled T"
  shows "settled (snd (authorize precision gw token p T))" "settled (snd (capture precision gw amount p T))"
    "settled (snd (refund precision gw amount p T))" "settled (snd (void precision gw p T))"
    "settled (snd (process_payment precision gw token p T))" "settled (snd (confirm precision gw p T))"
proof -
  note intros = settled_decorated settled_locked assms
  show "settled (snd (authorize precision gw token p T))" unfolding authorize_def
    by (intro intros, unfold opens_own_def) (auto split: option.splits dest!: call_gateway_opens)
  show "settled (snd (capture precision gw amount p T))" unfolding capture_def postprocess_twice
    by (intro intros capture_opens)
  show "settled (snd (refund precision gw amount p T))" unfolding refund_def
    by (intro intros, unfold opens_own_def Let_def)
      (auto split: option.splits sum.splits prod.splits if_splits dest!: call_gateway_opens open_in_create)
  show "settled (snd (void precision gw p T))" unfolding void_def
    by (intro intros, unfold opens_own_def) (auto split: sum.splits dest!: call_gateway_opens)
  show "settled (snd (process_payment precision gw token p T))" unfolding process_payment_def
    by (intro intros, unfold opens_own_def) (auto dest!: call_gateway_opens)
  show "settled (snd (confirm precision gw p T))" unfolding confirm_def
    by (intro intros, unfold opens_own_def Let_def) (auto dest!: call_gateway_opens)
qed

section \<open>Sequences of operations\<close>

text \<open>
  The payment object given to an operation is arbitrary, so it may be out of date, and every step may have another
  gateway.  Only \<open>process_payment\<close> and \<open>confirm\<close> do not check what is charged, and neither does their caller
  \<open>_process_payment\<close> of \<open>checkout/complete_checkout.py\<close>: where the gateway captures again, more than the total is captured.  \<open>strict\<close>
  leaves out these steps: there the two operations get payments of which nothing is captured, or the answer
  refers to an earlier transaction, as the plugins of Stripe and Adyen answer.
\<close>

inductive payment_step :: "(string \<Rightarrow> nat) \<Rightarrow> bool \<Rightarrow> order_tables \<Rightarrow> order_tables \<Rightarrow> bool"
  for precision strict where
  Authorizes: "honest gw T \<Longrightarrow> payment_step precision strict T (snd (authorize precision gw token p T))"
| Captures: "honest gw T \<Longrightarrow> payment_step precision strict T (snd (capture precision gw amount p T))"
| Refunds: "honest gw T \<Longrightarrow> payment_step precision strict T (snd (refund precision gw amount p T))"
| Voids: "honest gw T \<Longrightarrow> payment_step precision strict T (snd (void precision gw p T))"
| Processes: "honest gw T \<Longrightarrow>
    (\<And>r. strict \<Longrightarrow> find_row p_pk (p_pk p) (payments T) = Some r \<Longrightarrow>
      p_captured_amount r = 0 \<or> refers_to_earlier gw Process (create_payment_information r token None) T) \<Longrightarrow>
    payment_step precision strict T (snd (process_payment precision gw token p T))"
| Confirms: "honest gw T \<Longrightarrow>
    (\<And>r token. strict \<Longrightarrow> find_row p_pk (p_pk p) (payments T) = Some r \<Longrightarrow>
      p_captured_amount r = 0 \<or> refers_to_earlier gw Confirm (create_payment_information r token None) T) \<Longrightarrow>
    payment_step precision strict T (snd (confirm precision gw p T))"

lemma payment_step_ok:
  assumes "payment_step precision strict T T'" and "shop_ok strict T" and "settled T"
  shows "shop_ok strict T' \<and> settled T'"
  using assms
proof cases
  case (Processes gw p token)
  with process_payment_ok [OF Processes(2) assms(2,3) Processes(3)] operations_settle [OF assms(3)]
  show ?thesis by simp
next
  case (Confirms gw p)
  with confirm_ok [OF Confirms(2) assms(2,3) Confirms(3)] operations_settle [OF assms(3)] show ?thesis by simp
qed (use assms(2,3) operations_settle [OF assms(3)] in \<open>auto intro: authorize_ok capture_ok refund_ok void_ok\<close>)

text \<open>
  C15: whatever authorizations, captures, refunds, voids, confirmations and payments run, in any order, with
  stale payment objects and with gateways that are \<open>honest\<close>, the captured amount of every payment is the sum of
  its processed captures less its processed refunds and not negative, its charge status agrees with it, every
  order counts as charged what its payments and transactions have charged, and no successful capture or refund is
  left that was not applied.  No payment has captured more than its total, where \<open>process_payment\<close> and \<open>confirm\<close> only
  run on payments of which nothing is captured or get an answer that refers to an earlier transaction (\<open>strict\<close>).
\<close>

theorem payments_keep_invariant:
  assumes "shop_ok strict T" and "settled T" and "(payment_step precision strict)\<^sup>*\<^sup>* T T'"
  shows "shop_ok strict T' \<and> settled T'"
  using assms(3,1,2)
proof (induction rule: rtranclp_induct)
  case (step T1 T2)
  with payment_step_ok [OF step.hyps(2)] show ?case by blast
qed simp

section \<open>Failed operations\<close>

text \<open>All of the tables but the transactions of payments and the references the gateway gave them.\<close>

definition amounts_of :: "order_tables \<Rightarrow> order_tables" where
  "amounts_of T = T\<lparr>payments := map (\<lambda>p. p\<lparr>p_transactions := [], p_psp_reference := None\<rparr>) (payments T)\<rparr>"

lemma amounts_of_modify:
  assumes "\<And>r. (f r)\<lparr>p_transactions := [], p_psp_reference := None\<rparr> = r\<lparr>p_transactions := [], p_psp_reference := None\<rparr>"
  shows "amounts_of (modify_payment k f T) = amounts_of T"
  using assms by (simp add: amounts_of_def modify_payment_def)

lemma create_transaction_amounts:
  "create_transaction p kind d ar response er s T = (t, T') \<Longrightarrow> amounts_of T' = amounts_of T"
  by (auto simp: create_transaction_def Let_def intro!: amounts_of_modify)

lemma call_gateway_amounts: "amounts_of (snd (call_gateway gw op kind d p T)) = amounts_of T"
proof -
  have "amounts_of (snd (update_payment p response T)) = amounts_of T" for response
    by (auto simp: update_payment_def Let_def save_payment_def intro!: amounts_of_modify split: option.split)
  moreover have "amounts_of (snd (get_already_processed_transaction_or_create_new_transaction p kind d ar response er T))
      = amounts_of T" for p ar response er T
  proof -
    have "amounts_of (snd (create_transaction p kind d ar response er False T)) = amounts_of T" for response
      by (cases "create_transaction p kind d ar response er False T") (simp add: create_transaction_amounts)
    then show ?thesis
      by (simp add: get_already_processed_transaction_or_create_new_transaction_def Let_def split: option.split)
  qed
  ultimately show ?thesis
    unfolding call_gateway_def Let_def by (auto split: prod.split) (metis snd_conv)+
qed

lemma gateway_postprocess_success:
  "gateway_postprocess precision t p T = (t', p', T') \<Longrightarrow> tx_is_success t' = tx_is_success t"
  by (auto simp: gateway_postprocess_def update_payment_charge_status_def Let_def split: if_splits prod.splits)

lemma failed_amounts:
  assumes "\<And>p T t p' T'. body p T = (Inr (t, p'), T') \<Longrightarrow> amounts_of T' = amounts_of T"
    and "fst (raise_payment_error fn p T) = Inl er"
    and "fn = with_locked_payment (payment_postprocess precision body)
      \<or> fn = require_active_payment (with_locked_payment (payment_postprocess precision body))"
  shows "amounts_of (snd (raise_payment_error fn p T)) = amounts_of T"
proof -
  obtain T' where T': "raise_payment_error fn p T = (Inl er, T')" using assms(2) by (cases "raise_payment_error fn p T") simp
  then consider "T' = T"
    | t p' where "with_locked_payment (payment_postprocess precision body) p T = (Inr (t, p'), T')" "\<not> tx_is_success t"
    using assms(3) by (auto simp: raise_payment_error_def require_active_payment_def with_locked_payment_def
        split: prod.splits sum.splits if_splits option.splits)
  then have "amounts_of T' = amounts_of T"
  proof cases
    case 2
    then obtain r t0 p0 T0 where body: "body r T = (Inr (t0, p0), T0)"
      and post: "gateway_postprocess precision t0 p0 T0 = (t, p', T')"
      by (auto simp: with_locked_payment_def payment_postprocess_def split: prod.splits sum.splits option.splits)
    from post 2(2) gateway_postprocess_success [OF post] have "T' = T0" by (simp add: gateway_postprocess_def)
    with assms(1) [OF body] show ?thesis by simp
  qed simp
  with T' show ?thesis by simp
qed

lemma called_amounts: "call_gateway gw op kind d p T = (Inr (t, p'), T') \<Longrightarrow> amounts_of T' = amounts_of T"
  using call_gateway_amounts [of gw op kind d p T] by simp

text \<open>
  C16: an authorization, capture, refund or void that raises a \<open>PaymentError\<close>, before or after the gateway was
  asked, changes no amount and no status of a payment or an order: at most a failed transaction
  and the gateway's reference of the payment stay behind.
\<close>

theorem failed_operations_change_no_amounts:
  "(fst (authorize precision gw token p T) = Inl er \<longrightarrow> amounts_of (snd (authorize precision gw token p T)) = amounts_of T)
   \<and> (fst (capture precision gw amount p T) = Inl er \<longrightarrow> amounts_of (snd (capture precision gw amount p T)) = amounts_of T)
   \<and> (fst (refund precision gw amount p T) = Inl er \<longrightarrow> amounts_of (snd (refund precision gw amount p T)) = amounts_of T)
   \<and> (fst (void precision gw p T) = Inl er \<longrightarrow> amounts_of (snd (void precision gw p T)) = amounts_of T)"
proof (intro conjI impI)
  assume failed: "fst (authorize precision gw token p T) = Inl er"
  show "amounts_of (snd (authorize precision gw token p T)) = amounts_of T"
    unfolding authorize_def
    by (rule failed_amounts [OF _ failed [unfolded authorize_def] disjI2 [OF refl]])
      (auto dest: called_amounts split: option.splits)
next
  assume failed: "fst (capture precision gw amount p T) = Inl er"
  have inner: "fst (fn p T) = Inl er" if "fst (payment_postprocess precision fn p T) = Inl er" for fn
    using that by (auto simp: payment_postprocess_def split: prod.splits sum.splits)
  show "amounts_of (snd (capture precision gw amount p T)) = amounts_of T"
    unfolding capture_def postprocess_twice
    by (rule failed_amounts [OF _ inner [OF failed [unfolded capture_def]] disjI2 [OF refl]])
      (auto simp: Let_def dest: called_amounts split: option.splits sum.splits)
next
  assume failed: "fst (refund precision gw amount p T) = Inl er"
  show "amounts_of (snd (refund precision gw amount p T)) = amounts_of T"
    unfolding refund_def
    by (rule failed_amounts [OF _ failed [unfolded refund_def] disjI1 [OF refl]])
      (auto simp: Let_def dest: called_amounts create_transaction_amounts
        split: option.splits sum.splits prod.splits if_splits)
next
  assume failed: "fst (void precision gw p T) = Inl er"
  show "amounts_of (snd (void precision gw p T)) = amounts_of T"
    unfolding void_def
    by (rule failed_amounts [OF _ failed [unfolded void_def] disjI1 [OF refl]])
      (auto dest: called_amounts split: sum.splits)
qed

section \<open>An example\<close>

definition ex_authorized :: payment where
  "ex_authorized = ex_payment\<lparr>p_charge_status := NOT_CHARGED, p_captured_amount := 0, p_transactions :=
     [\<lparr>tx_pk = 1, tx_token = ''t'', tx_kind = AUTH, tx_is_success = True, tx_action_required = False,
       tx_amount = 100, tx_currency = ''USD'', tx_error = None, tx_customer_id = None, tx_already_processed = True\<rparr>]\<rparr>"

definition ex_pay_tables :: order_tables where
  "ex_pay_tables = ex_tables\<lparr>payments := [ex_authorized],
     orders := [ex_sales_order\<lparr>so_total_authorized_amount := 100, so_authorize_status := AUTHORIZE_FULL\<rparr>]\<rparr>"

fun ex_answer :: "gateway_operation \<Rightarrow> transaction_kind" where
  "ex_answer Authorize = AUTH" | "ex_answer Refund = REFUND_KIND" | "ex_answer Void = VOID" | "ex_answer _ = CAPTURE"

definition ex_gateway :: "bool \<Rightarrow> gateway" where
  "ex_gateway success op d = Response \<lparr>gw_is_success = success, gw_action_required = False,
     gw_kind = Some (ex_answer op), gw_amount = pd_amount d, gw_currency = pd_currency d, gw_transaction_id = ''t2'',
     gw_error = None, gw_customer_id = None, gw_json_serializable = True, gw_transaction_already_processed = False,
     gw_psp_reference = None\<rparr>"

lemma ex_gateway_honest: "honest (ex_gateway s) T"
  unfolding honest_def ex_gateway_def by (intro allI impI; case_tac op) auto

lemma ex_pay_tables_ok: "shop_ok strict ex_pay_tables" "settled ex_pay_tables"
  by (simp_all add: shop_ok_def shop_ok_except_def payment_ok_def ledger_def ledger_effect_def charged_of_def
      order_payments_def order_transactions_def ex_pay_tables_def ex_authorized_def ex_payment_def ex_tables_def
      ex_sales_order_def settled_def still_counts_def)

text \<open>A gateway that captures a payment once: asked again, it answers with the capture it knows.\<close>

definition ex_known_capture :: "gateway" where
  "ex_known_capture op d = Response \<lparr>gw_is_success = (op = Process \<and> pd_payment d = 1), gw_action_required = False,
     gw_kind = Some CAPTURE, gw_amount = 60, gw_currency = ''USD'', gw_transaction_id = ''t2'',
     gw_error = None, gw_customer_id = None, gw_json_serializable = True, gw_transaction_already_processed = True,
     gw_psp_reference = None\<rparr>"

definition ex_captured_once :: order_tables where
  "ex_captured_once = snd (capture two_digits (ex_gateway True) (Some 60) ex_authorized ex_pay_tables)"

definition ex_processed_again :: order_tables where
  "ex_processed_again = snd (process_payment two_digits ex_known_capture [] ex_payment ex_captured_once)"

lemma ex_known_refers:
  assumes "pd_payment d = 1"
  shows "refers_to_earlier ex_known_capture Process d ex_captured_once"
proof -
  have "refers_to_earlier ex_known_capture Process
    \<lparr>pd_payment = 1, pd_amount = 100, pd_currency = ''USD'', pd_token = []\<rparr> ex_captured_once" by code_simp
  then show ?thesis using assms by (simp add: refers_to_earlier_def ex_known_capture_def)
qed

lemma ex_known_honest: "honest ex_known_capture ex_captured_once"
  unfolding honest_def using ex_known_refers by (auto simp: ex_known_capture_def)

lemma payments_keep_invariant_witness:
  "shop_ok True (snd (refund two_digits (ex_gateway True) (Some 20) ex_payment ex_processed_again))
   \<and> map p_captured_amount (payments ex_processed_again) = [60]"
proof -
  let ?last = "snd (refund two_digits (ex_gateway True) (Some 20) ex_payment ex_processed_again)"
  have "payment_step two_digits True ex_pay_tables ex_captured_once"
    unfolding ex_captured_once_def by (rule payment_step.Captures [OF ex_gateway_honest])
  moreover have "payment_step two_digits True ex_captured_once ex_processed_again"
    unfolding ex_processed_again_def
  proof (rule payment_step.Processes [OF ex_known_honest])
    fix r assume "find_row p_pk (p_pk ex_payment) (payments ex_captured_once) = Some r"
    then have "p_pk r = 1" by (auto simp: ex_payment_def dest: find_row_in)
    then show "p_captured_amount r = 0 \<or>
        refers_to_earlier ex_known_capture Process (create_payment_information r [] None) ex_captured_once"
      by (simp add: ex_known_refers)
  qed
  moreover have "payment_step two_digits True ex_processed_again ?last" by (rule payment_step.Refunds [OF ex_gateway_honest])
  ultimately have "(payment_step two_digits True)\<^sup>*\<^sup>* ex_pay_tables ?last" by (meson converse_rtranclp_into_rtranclp rtranclp.rtrancl_refl)
  from payments_keep_invariant [OF ex_pay_tables_ok this] have "shop_ok True ?last" ..
  moreover have "map p_captured_amount (payments ex_processed_again) = [60]" by code_simp
  ultimately show ?thesis ..
qed

text \<open>Without such an answer, processing a payment again captures its total once more.\<close>

lemma processing_again_overcharges:
  "map (\<lambda>p. (p_total p, p_captured_amount p)) (payments (snd (process_payment two_digits (ex_gateway True) [] ex_payment ex_captured_once)))
    = [(100, 160)]"
  by code_simp

lemma ex_payment_run:
  "map (\<lambda>p. (p_captured_amount p, p_charge_status p)) (payments (snd (refund two_digits (ex_gateway True) (Some 20) ex_payment
     (snd (capture two_digits (ex_gateway True) (Some 60) ex_authorized ex_pay_tables))))) = [(40, PARTIALLY_REFUNDED)]"
  by code_simp

lemma failed_operations_change_no_amounts_witness:
  "amounts_of (snd (capture two_digits (ex_gateway False) (Some 60) ex_authorized ex_pay_tables)) = amounts_of ex_pay_tables
   \<and> length (p_transactions (hd (payments (snd (capture two_digits (ex_gateway False) (Some 60) ex_authorized ex_pay_tables))))) = 2"
proof -
  have "fst (capture two_digits (ex_gateway False) (Some 60) ex_authorized ex_pay_tables) = Inl (Unsuccessful None)"
    "length (p_transactions (hd (payments (snd (capture two_digits (ex_gateway False) (Some 60) ex_authorized ex_pay_tables))))) = 2"
    by code_simp+
  with failed_operations_change_no_amounts [of two_digits "ex_gateway False" "[]" ex_authorized ex_pay_tables
      "Unsuccessful None" "Some 60"] show ?thesis by blast
qed

text \<open>
  Voiding a payment leaves the authorized amount of its order, although the payment is no longer active
  and the order has nothing authorized; and the reversal of a full refund makes the payment active in
  memory only, because \<open>is_active\<close> is not among the saved fields.
\<close>

lemma void_keeps_authorized_amount:
  "map so_total_authorized_amount (orders (snd (void two_digits (ex_gateway True) ex_authorized ex_pay_tables))) = [100]
   \<and> map (\<lambda>p. p_is_active p) (payments (snd (void two_digits (ex_gateway True) ex_authorized ex_pay_tables))) = [False]
   \<and> get_total_authorized (payments (snd (void two_digits (ex_gateway True) ex_authorized ex_pay_tables))) = 0"
  by code_simp

lemma reversed_refund_stays_inactive:
  assumes "tx_kind t = REFUND_REVERSED" and "tx_is_success t" and "\<not> tx_already_processed t" and "\<not> tx_action_required t"
    and "p_order p = None" and "\<not> p_to_confirm p"
  shows "map p_is_active (payments (snd (snd (gateway_postprocess precision t p T)))) = map p_is_active (payments T)
    \<and> p_is_active (fst (snd (gateway_postprocess precision t p T)))"
proof -
  obtain p' where change: "charge_status_change REFUND_REVERSED (tx_amount t) p = (p', [F_Charge_Status, F_Captured_Amount])"
    and p': "p_is_active p'" by (auto simp: charge_status_change_def Let_def)
  have "payment_order p' T' = None" for T'
    using charge_status_change_frame [OF change] assms(5) by (simp add: payment_order_def)
  then have "gateway_postprocess precision t p T = (t\<lparr>tx_already_processed := True\<rparr>, p',
      modify_payment (p_pk p') (charged_row [F_Charge_Status, F_Captured_Amount] t p') T)"
    using assms save_and_mark [of p' t "[F_Charge_Status, F_Captured_Amount]" T]
    by (simp add: gateway_postprocess_def update_payment_charge_status_def Let_def change)
  then show ?thesis by (simp add: p' modify_payment_def charged_row_def)
qed

end
