(* ===== verification/Order_Lines.thy ===== *)
theory Order_Lines
  imports Order_Amounts Stock_Movements
begin

text \<open>
  Lines of an order, from \<open>saleor/order/utils.py\<close>: changing the quantity of a line of an unconfirmed
  order with its allocations, deleting a line, putting the lines of a fulfillment back into
  stock, and the status of an order from its lines and fulfillments.
\<close>

section \<open>State\<close>

datatype order_event = Removed_Products pk int | Added_Products pk int

record shop =
  shop_db :: db
  shop_tables :: order_tables
  shop_events :: "order_event list"

section \<open>Changing and deleting lines\<close>

definition update_allocations_for_line ::
  "env \<Rightarrow> order_line_info \<Rightarrow> int \<Rightarrow> int \<Rightarrow> channel \<Rightarrow> db \<Rightarrow> error + order_line_info \<times> db" where
  \<comment> \<open>The line info is changed in place.\<close>
  "update_allocations_for_line e li old_quantity new_quantity ch d =
     (if old_quantity = new_quantity then Inr (li, d)
      else if get_order_lines_with_track_inventory e [li] = [] then Inr (li, d)
      else if old_quantity < new_quantity then
        let li = li\<lparr>li_quantity := new_quantity - old_quantity\<rparr>
        in (case increase_allocations e [li] ch d of Inl er \<Rightarrow> Inl er | Inr d' \<Rightarrow> Inr (li, d'))
      else
        let li = li\<lparr>li_quantity := old_quantity - new_quantity\<rparr>
        in (case decrease_allocations e [li] d of Inl er \<Rightarrow> Inl er | Inr d' \<Rightarrow> Inr (li, d')))"

definition delete_line_rows :: "pk \<Rightarrow> shop \<Rightarrow> shop" where
  \<comment> \<open>\<open>line.delete()\<close> with its cascade to allocations.\<close>
  "delete_line_rows k st = st\<lparr>
     shop_tables := (shop_tables st)\<lparr>lines := filter (\<lambda>l. ol_pk l \<noteq> k) (lines (shop_tables st)),
       fulfillments := map (\<lambda>f. f\<lparr>f_lines := filter (\<lambda>fl. fl_order_line fl \<noteq> k) (f_lines f)\<rparr>)
         (fulfillments (shop_tables st))\<rparr>,
     shop_db := (shop_db st)\<lparr>order_lines := filter (\<lambda>l. ol_pk l \<noteq> k) (order_lines (shop_db st)),
       allocations := filter (\<lambda>a. a_order_line a \<noteq> k) (allocations (shop_db st)),
       preorder_allocations := filter (\<lambda>a. pa_order_line a \<noteq> k) (preorder_allocations (shop_db st))\<rparr>\<rparr>"

definition delete_order_line :: "env \<Rightarrow> order_line_info \<Rightarrow> shop \<Rightarrow> error + shop" where
  "delete_order_line e li st =
     (let decreased = (if is_unconfirmed (ol_order (li_line li)) then decrease_allocations e [li] (shop_db st)
                       else Inr (shop_db st))
      in case decreased of Inl er \<Rightarrow> Inl er
         | Inr d \<Rightarrow> Inr (delete_line_rows (ol_pk (li_line li)) (st\<lparr>shop_db := d\<rparr>)))"

definition with_quantity :: "int \<Rightarrow> sales_line \<Rightarrow> sales_line" where
  "with_quantity n l = l\<lparr>sl_quantity := n,
     sl_total_price_net_amount := quantize 3 (of_int n * sl_unit_price_net_amount l),
     sl_total_price_gross_amount := quantize 3 (of_int n * sl_unit_price_gross_amount l),
     sl_undiscounted_total_price_gross_amount := quantize 3 (of_int n * sl_undiscounted_unit_price_gross_amount l),
     sl_undiscounted_total_price_net_amount := quantize 3 (of_int n * sl_undiscounted_unit_price_net_amount l)\<rparr>"

definition create_order_event :: "pk \<Rightarrow> int \<Rightarrow> shop \<Rightarrow> shop" where
  "create_order_event k quantity_diff st =
     (if 0 < quantity_diff then st\<lparr>shop_events := shop_events st @ [Removed_Products k quantity_diff]\<rparr>
      else if quantity_diff < 0 then st\<lparr>shop_events := shop_events st @ [Added_Products k (quantity_diff * -1)]\<rparr>
      else st)"

definition change_order_line_quantity ::
  "env \<Rightarrow> order_line_info \<Rightarrow> int \<Rightarrow> int \<Rightarrow> channel \<Rightarrow> bool \<Rightarrow> shop \<Rightarrow> error + shop" where
  \<comment> \<open>The saved columns are written to the row of the line; the unit prices of the line are the row's.\<close>
  "change_order_line_quantity e li old_quantity new_quantity ch send_event st =
     (let k = ol_pk (li_line li);
          changed =
            (if new_quantity \<noteq> 0 then
               let allocated = (if is_unconfirmed (ol_order (li_line li))
                                then (case update_allocations_for_line e li old_quantity new_quantity ch (shop_db st) of
                                        Inl er \<Rightarrow> Inl er | Inr (_, d) \<Rightarrow> Inr d)
                                else Inr (shop_db st))
               in (case allocated of Inl er \<Rightarrow> Inl er
                   | Inr d \<Rightarrow> Inr (st\<lparr>shop_db := d, shop_tables := (shop_tables st)\<lparr>lines :=
                       map (\<lambda>l. if ol_pk l = k then with_quantity new_quantity l else l) (lines (shop_tables st))\<rparr>\<rparr>))
             else delete_order_line e li st)
      in case changed of Inl er \<Rightarrow> Inl er
         | Inr st' \<Rightarrow> Inr (if send_event then create_order_event k (old_quantity - new_quantity) st' else st'))"

section \<open>Putting a fulfillment back into stock\<close>

definition line_of :: "shop \<Rightarrow> fulfillment_line \<Rightarrow> sales_line option" where
  "line_of st fl = find_row ol_pk (fl_order_line fl) (lines (shop_tables st))"

definition tracks_inventory :: "db \<Rightarrow> sales_line \<Rightarrow> bool" where
  \<comment> \<open>\<open>line.variant and line.variant.track_inventory\<close>\<close>
  "tracks_inventory d l = (case ol_variant l of None \<Rightarrow> False
     | Some v \<Rightarrow> (case find_row v_id v (product_variants d) of None \<Rightarrow> False | Some x \<Rightarrow> v_track_inventory x))"

fun restock_lines :: "pk \<Rightarrow> (sales_line \<times> fulfillment_line) list \<Rightarrow> db \<Rightarrow> error + db" where
  "restock_lines wh [] d = Inr d"
| "restock_lines wh ((l, fl) # fls) d =
     (let restocked = (if tracks_inventory d l then increase_stock (order_line.truncate l) wh (fl_quantity fl) True d
                       else Inr d)
      in case restocked of Inl er \<Rightarrow> Inl er | Inr d' \<Rightarrow> restock_lines wh fls d')"

definition less_fulfilled :: "sales_line \<times> fulfillment_line \<Rightarrow> pk \<times> (sales_line \<Rightarrow> sales_line)" where
  \<comment> \<open>Each fulfillment line has an object of its order line of its own.\<close>
  "less_fulfilled p = (case p of (l, fl) \<Rightarrow>
     (ol_pk l, \<lambda>r. r\<lparr>sl_quantity_fulfilled := sl_quantity_fulfilled l - fl_quantity fl\<rparr>))"

definition restock_fulfillment_lines :: "fulfillment \<Rightarrow> pk \<Rightarrow> shop \<Rightarrow> error + shop" where
  "restock_fulfillment_lines f wh st =
     (let pairs = List.map_filter (\<lambda>fl. map_option (\<lambda>l. (l, fl)) (line_of st fl)) (f_lines f)
      in case restock_lines wh pairs (shop_db st) of Inl er \<Rightarrow> Inl er
         | Inr d \<Rightarrow> Inr (st\<lparr>shop_db := d, shop_tables := (shop_tables st)\<lparr>lines :=
             bulk_update ol_pk (map less_fulfilled pairs) (lines (shop_tables st))\<rparr>\<rparr>))"

section \<open>The status of an order\<close>

definition status_quantity :: "fulfillment_status set \<Rightarrow> order_tables \<Rightarrow> 'a order_scheme \<Rightarrow> int" where
  "status_quantity ss T o1 = sum_of fulfillment_total_quantity (filter (\<lambda>f. f_status f \<in> ss) (order_fulfillments T o1))"

definition calculate_quantity_including_returns :: "order_tables \<Rightarrow> 'a order_scheme \<Rightarrow> int \<times> int \<times> int" where
  "calculate_quantity_including_returns T o1 =
     (let total_quantity = sum_of sl_quantity (order_lines_of T o1);
          quantity_fulfilled = sum_of sl_quantity_fulfilled (order_lines_of T o1);
          quantity_returned = status_quantity {RETURNED_F, REFUNDED_AND_RETURNED} T o1;
          quantity_replaced = status_quantity {REPLACED} T o1
      in (total_quantity - quantity_replaced, quantity_fulfilled - quantity_replaced, quantity_returned))"

definition update_order_status :: "order_tables \<Rightarrow> 'a order_scheme \<Rightarrow> 'a order_scheme" where
  "update_order_status T o1 =
     (case calculate_quantity_including_returns T o1 of (total_quantity, quantity_fulfilled, quantity_returned) \<Rightarrow>
       let awaiting_approval = filter (\<lambda>f. f_status f = WAITING_FOR_APPROVAL) (order_fulfillments T o1) \<noteq> [];
           status =
             (if total_quantity = 0 then o_status o1
              else if quantity_fulfilled \<le> 0 then UNFULFILLED
              else if 0 < quantity_returned \<and> quantity_returned < total_quantity then PARTIALLY_RETURNED
              else if quantity_returned = total_quantity then RETURNED
              else if quantity_fulfilled < total_quantity \<or> awaiting_approval then PARTIALLY_FULFILLED
              else FULFILLED)
       in if status \<noteq> o_status o1 then o1\<lparr>o_status := status\<rparr> else o1)"

section \<open>Primary keys\<close>

definition keys_ok :: "db \<Rightarrow> bool" where
  "keys_ok d \<longleftrightarrow> distinct (map a_pk (allocations d)) \<and> distinct (map s_pk (stocks d))
     \<and> (\<forall>a \<in> set (allocations d). a_pk a < allocation_seq d \<and> a_stock a < stock_seq d)
     \<and> (\<forall>s \<in> set (stocks d). s_pk s < stock_seq d)"

definition key_view :: "db \<Rightarrow> (pk \<times> pk) list \<times> pk list \<times> nat \<times> nat" where
  "key_view d = (map (\<lambda>a. (a_pk a, a_stock a)) (allocations d), map s_pk (stocks d), allocation_seq d, stock_seq d)"

lemma keys_ok_view: "keys_ok d \<longleftrightarrow> (case key_view d of (as, ss, n, m) \<Rightarrow>
    distinct (map fst as) \<and> distinct ss \<and> (\<forall>(k, s) \<in> set as. k < n \<and> s < m) \<and> (\<forall>s \<in> set ss. s < m))"
  by (auto simp: keys_ok_def key_view_def comp_def)

lemma update_views:
  "(\<And>a. a_pk (f a) = a_pk a) \<Longrightarrow> (\<And>a. a_stock (f a) = a_stock a) \<Longrightarrow>
   map (\<lambda>a. (a_pk a, a_stock a)) (bulk_update a_pk [(k, f)] as) = map (\<lambda>a. (a_pk a, a_stock a)) as"
  "(\<And>s. s_pk (g s) = s_pk s) \<Longrightarrow> map s_pk (bulk_update s_pk [(k, g)] ss) = map s_pk ss"
  by (rule bulk.upd_map; auto)+

lemma keys_ok_update:
  "(\<And>s. s_pk (g s) = s_pk s) \<Longrightarrow> keys_ok (d\<lparr>stocks := bulk_update s_pk [(k, g)] (stocks d)\<rparr>) = keys_ok d"
  "(\<And>a. a_pk (f a) = a_pk a) \<Longrightarrow> (\<And>a. a_stock (f a) = a_stock a) \<Longrightarrow>
   keys_ok (d\<lparr>allocations := bulk_update a_pk [(k, f)] (allocations d)\<rparr>) = keys_ok d"
  by (simp_all only: keys_ok_view) (simp_all add: key_view_def update_views)

lemma increase_stock_keys:
  assumes run: "increase_stock line wh quantity allocate d = Inr d'" and keys: "keys_ok d"
  shows "keys_ok d'"
proof -
  from run obtain v where v: "ol_variant line = Some v" by (auto simp: increase_stock_def split: option.splits)
  define start where "start = (case find (\<lambda>s. s_warehouse s = wh \<and> s_variant s = v) (stocks d) of
      Some s \<Rightarrow> Inr (s_pk s, stock_increase_stock (s_pk s) quantity d)
    | None \<Rightarrow> (case insert_stocks [\<lambda>k. \<lparr>s_pk = k, s_warehouse = wh, s_variant = v,
                                 s_quantity = quantity, s_quantity_allocated = 0\<rparr>] d of
          Inl err \<Rightarrow> Inl err | Inr (new, d') \<Rightarrow> Inr (s_pk (hd new), d')))"
  define second where "second sk d1 = (case find (\<lambda>a. a_order_line a = ol_pk line \<and> a_stock a = sk) (allocations d1) of
      Some a \<Rightarrow> (if a_quantity_allocated a + quantity < 0 then Inl Integrity_Error
         else Inr (d1\<lparr>allocations := bulk_update a_pk [(a_pk a, \<lambda>a'.
                a'\<lparr>a_quantity_allocated := a_quantity_allocated a' + quantity\<rparr>)] (allocations d1)\<rparr>))
    | None \<Rightarrow> (case insert_allocations [new_allocation (ol_pk line, sk, quantity)] d1 of
          Inl err \<Rightarrow> Inl err | Inr (_, d') \<Rightarrow> Inr d'))" for sk d1
  obtain sk d1 where start: "start = Inr (sk, d1)" and rest: "if \<not> allocate then d' = d1
      else \<exists>d2. second sk d1 = Inr d2 \<and> d' = d2\<lparr>stocks := bulk_update s_pk [(sk, add_allocated quantity)] (stocks d2)\<rparr>"
    using run unfolding increase_stock_def v option.case Let_def start_def [symmetric] second_def [symmetric]
    by (auto split: sum.splits if_splits)
  have new: "keys_ok x \<Longrightarrow> stock_seq x \<notin> s_pk ` set (stocks x) \<and> allocation_seq x \<notin> a_pk ` set (allocations x)" for x
    by (auto simp: keys_ok_def)
  have one: "keys_ok d1 \<and> sk < stock_seq d1"
  proof (cases "find (\<lambda>s. s_warehouse s = wh \<and> s_variant s = v) (stocks d)")
    case (Some s)
    then have "s \<in> set (stocks d)" by (auto dest: find_SomeD)
    with start Some keys show ?thesis
      by (auto simp: start_def stock_increase_stock_def keys_ok_update) (auto simp: keys_ok_def)
  next
    case None
    with start keys new [OF keys] show ?thesis
      by (auto simp: start_def insert_stocks_def Let_def keys_ok_def less_Suc_eq split: if_splits)
  qed
  have "keys_ok d2" if "second sk d1 = Inr d2" for d2
    using that one new [of d1] unfolding second_def
    by (auto simp: insert_allocations_def new_allocation_def Let_def keys_ok_update
        split: option.splits if_splits) (auto simp: keys_ok_def less_Suc_eq)
  with one rest show ?thesis by (auto simp: keys_ok_update add_allocated_def split: if_splits)
qed

lemma increase_stock_variants: "increase_stock line wh quantity allocate d = Inr d' \<Longrightarrow> product_variants d' = product_variants d"
  by (auto simp: increase_stock_def stock_increase_stock_def insert_stocks_def insert_allocations_def Let_def
      split: sum.splits option.splits if_splits)

section \<open>Restocking\<close>

text \<open>What is restocked: the quantities of the lines whose variant is tracked, by place and by line.\<close>

abbreviation tracked_pairs :: "db \<Rightarrow> (sales_line \<times> fulfillment_line) list \<Rightarrow> (sales_line \<times> fulfillment_line) list" where
  "tracked_pairs d fls \<equiv> filter (\<lambda>p. tracks_inventory d (fst p)) fls"

definition restocked_at :: "pk \<Rightarrow> (sales_line \<times> fulfillment_line) list \<Rightarrow> pk \<times> pk \<Rightarrow> int" where
  "restocked_at wh fls p = sum_of (\<lambda>x. fl_quantity (snd x)) (filter (\<lambda>x. Some (snd p) = ol_variant (fst x) \<and> fst p = wh) fls)"

lemma restock_lines_effect:
  assumes "restock_lines wh fls d = Inr d'" and "keys_ok d"
  shows "keys_ok d' \<and> (\<forall>p. stocked d' p = stocked d p + restocked_at wh (tracked_pairs d fls) p)
    \<and> (\<forall>x. line_sum d' x = line_sum d x + group_sum (\<lambda>q. ol_pk (fst q)) (\<lambda>q. fl_quantity (snd q)) (tracked_pairs d fls) x)
    \<and> (counters_ok d \<longrightarrow> counters_ok d')"
  using assms
proof (induction fls arbitrary: d)
  case Nil
  then show ?case by (simp add: restocked_at_def)
next
  case (Cons q fls)
  obtain l fl where q: "q = (l, fl)" by (cases q)
  show ?case
  proof (cases "tracks_inventory d l")
    case False
    with Cons.prems Cons.IH [of d] show ?thesis by (simp add: q)
  next
    case True
    with Cons.prems obtain d1 where d1: "increase_stock (order_line.truncate l) wh (fl_quantity fl) True d = Inr d1"
      and rest: "restock_lines wh fls d1 = Inr d'"
      by (auto simp: q split: sum.splits)
    have effect: "\<exists>v. ol_variant l = Some v \<and> (\<forall>p. stocked d1 p = stocked d p + (if p = (wh, v) then fl_quantity fl else 0))"
      "\<forall>x. line_sum d1 x = line_sum d x + (if x = ol_pk l then fl_quantity fl else 0)" "counters_ok d \<longrightarrow> counters_ok d1"
      using increase_stock_effect [OF d1] Cons.prems(2) by (simp_all add: keys_ok_def order_line.truncate_def)
    have same: "tracks_inventory d1 = tracks_inventory d"
      unfolding tracks_inventory_def increase_stock_variants [OF d1] ..
    from Cons.IH [OF rest increase_stock_keys [OF d1 Cons.prems(2)]] effect True show ?thesis
      by (auto simp: q same restocked_at_def)
  qed
qed

lemma line_of_pairs:
  assumes "\<forall>fl \<in> set fls. line_of st fl \<noteq> None"
  shows "List.map_filter (\<lambda>fl. map_option (\<lambda>l. (l, fl)) (line_of st fl)) fls = map (\<lambda>fl. (the (line_of st fl), fl)) fls"
  using assms by (induction fls) (auto simp: List.map_filter_simps)

lemma line_of_pk: "line_of st fl = Some l \<Longrightarrow> ol_pk l = fl_order_line fl"
  by (auto simp: line_of_def find_row_def dest: find_SomeD)

text \<open>
  C19: restocking a fulfillment puts every tracked quantity back into the given warehouse, allocated to its
  order line, keeps the allocation counters of the stocks, and takes from what each order line has
  fulfilled the quantity of its (first) line in the fulfillment.
\<close>

theorem restock_fulfillment_exact:
  assumes "restock_fulfillment_lines f wh st = Inr st'" and "keys_ok (shop_db st)"
    and "\<forall>fl \<in> set (f_lines f). line_of st fl \<noteq> None" and "distinct (map ol_pk (lines (shop_tables st)))"
  shows "(\<forall>p. stocked (shop_db st') p = stocked (shop_db st) p
        + restocked_at wh (tracked_pairs (shop_db st) (map (\<lambda>fl. (the (line_of st fl), fl)) (f_lines f))) p)
    \<and> (\<forall>x. line_sum (shop_db st') x = line_sum (shop_db st) x
        + sum_of fl_quantity (filter (\<lambda>fl. fl_order_line fl = x \<and> tracks_inventory (shop_db st) (the (line_of st fl))) (f_lines f)))
    \<and> (counters_ok (shop_db st) \<longrightarrow> counters_ok (shop_db st'))
    \<and> map (\<lambda>l. (ol_pk l, sl_quantity_fulfilled l)) (lines (shop_tables st')) =
      map (\<lambda>l. (ol_pk l, sl_quantity_fulfilled l - (case find_row fl_order_line (ol_pk l) (f_lines f) of None \<Rightarrow> 0
        | Some fl \<Rightarrow> fl_quantity fl))) (lines (shop_tables st))"
proof -
  let ?pairs = "map (\<lambda>fl. (the (line_of st fl), fl)) (f_lines f)"
  from assms(1) obtain d where d: "restock_lines wh ?pairs (shop_db st) = Inr d"
    and st': "st' = st\<lparr>shop_db := d, shop_tables := (shop_tables st)\<lparr>lines :=
        bulk_update ol_pk (map less_fulfilled ?pairs) (lines (shop_tables st))\<rparr>\<rparr>"
    by (auto simp: restock_fulfillment_lines_def line_of_pairs [OF assms(3)] Let_def split: sum.splits)
  note effect = restock_lines_effect [OF d assms(2)]
  have pk: "ol_pk (the (line_of st fl)) = fl_order_line fl" if "fl \<in> set (f_lines f)" for fl
    using that assms(3) line_of_pk by fastforce
  have sums: "group_sum (\<lambda>q. ol_pk (fst q)) (\<lambda>q. fl_quantity (snd q))
      (tracked_pairs (shop_db st) (map (\<lambda>fl. (the (line_of st fl), fl)) fls)) x =
    sum_of fl_quantity (filter (\<lambda>fl. fl_order_line fl = x \<and> tracks_inventory (shop_db st) (the (line_of st fl))) fls)"
    if "set fls \<subseteq> set (f_lines f)" for fls x
    using that by (induction fls) (auto simp: pk)
  have objs: "map_of (map less_fulfilled (map (\<lambda>fl. (the (line_of st fl), fl)) fls)) k =
      map_option (\<lambda>fl r. r\<lparr>sl_quantity_fulfilled := sl_quantity_fulfilled (the (line_of st fl)) - fl_quantity fl\<rparr>)
        (find_row fl_order_line k fls)" if "set fls \<subseteq> set (f_lines f)" for fls k
    using that by (induction fls) (auto simp: less_fulfilled_def pk find_row_def)
  note objs = objs [of "f_lines f", OF subset_refl]
  have "sl_quantity_fulfilled l - (case find_row fl_order_line (ol_pk l) (f_lines f) of None \<Rightarrow> 0 | Some fl \<Rightarrow> fl_quantity fl)
     = sl_quantity_fulfilled (case map_of (map less_fulfilled ?pairs) (ol_pk l) of None \<Rightarrow> l | Some g \<Rightarrow> g l)"
    if "l \<in> set (lines (shop_tables st))" for l
  proof (cases "find_row fl_order_line (ol_pk l) (f_lines f)")
    case None
    then show ?thesis unfolding objs by (simp split: option.split)
  next
    case (Some fl)
    then have "fl_order_line fl = ol_pk l" by (auto simp: find_row_def dest: find_SomeD)
    moreover have "find_row ol_pk (ol_pk l) (lines (shop_tables st)) = Some l"
      by (rule find_row_distinct [OF assms(4) that])
    ultimately show ?thesis using Some unfolding objs by (auto simp: line_of_def)
  qed
  moreover have "ol_pk (case map_of (map less_fulfilled ?pairs) (ol_pk l) of None \<Rightarrow> l | Some g \<Rightarrow> g l) = ol_pk l" for l
    unfolding objs by (simp split: option.split)
  ultimately have "map (\<lambda>l. (ol_pk l, sl_quantity_fulfilled l)) (lines (shop_tables st')) =
      map (\<lambda>l. (ol_pk l, sl_quantity_fulfilled l - (case find_row fl_order_line (ol_pk l) (f_lines f) of None \<Rightarrow> 0
        | Some fl \<Rightarrow> fl_quantity fl))) (lines (shop_tables st))"
    by (simp add: st' bulk_update_def del: map_map) simp
  with effect sums [of "f_lines f"] show ?thesis by (simp add: st')
qed

section \<open>The allocations follow the quantity\<close>

lemma decrease_allocations_one:
  assumes run: "decrease_allocations e [li] d = Inr d'" and tracked: "get_order_lines_with_track_inventory e [li] = [li]"
    and pks: "distinct (map a_pk (allocations d))" and nonneg: "\<forall>a \<in> set (allocations d). 0 \<le> a_quantity_allocated a"
    and q: "0 \<le> li_quantity li"
  shows "line_sum d' x = line_sum d x - (if x = ol_pk (li_line li) then min (li_quantity li) (line_sum d x) else 0)"
proof -
  let ?k = "ol_pk (li_line li)"
  obtain d1 failed where dealloc: "deallocate_stock e [li] d = (d1, failed)" by (cases "deallocate_stock e [li] d")
  have lines: "distinct (lines_of [li])" by (simp add: lines_of_def)
  note effect = deallocate_stock_lines_fact [OF pks lines nonneg dealloc, unfolded lines_of_def, simplified]
  have d': "d' = (case failed of None \<Rightarrow> d1 | Some ls \<Rightarrow> zero_lines ls d1)"
    using run by (auto simp: decrease_allocations_def tracked decrease_stock_def Let_def dealloc)
  have sums: "line_sum d1 ?k = line_sum d ?k - min (li_quantity li) (line_sum d ?k)"
    "x \<noteq> ?k \<Longrightarrow> line_sum d1 x = line_sum d x" for x
    using effect q by auto
  have zero: "line_sum (zero_lines ls y) x = (if x \<in> set ls then 0 else line_sum y x)" for ls y x
  proof -
    have "group_sum a_order_line a_quantity_allocated (map (\<lambda>a. if a_order_line a \<in> set ls
       then a\<lparr>a_quantity_allocated := 0\<rparr> else a) as) x
      = (if x \<in> set ls then 0 else group_sum a_order_line a_quantity_allocated as x)" for as :: "allocation list"
      by (induction as) auto
    then show ?thesis by (simp add: line_sum_def zero_lines_def)
  qed
  show ?thesis
  proof (cases failed)
    case None
    with sums d' show ?thesis by simp
  next
    case (Some ls)
    have "set ls \<subseteq> {?k}"
      using dealloc Some unfolding deallocate_stock_def Let_def
      by (auto simp: Let_def split: prod.splits sum.splits if_splits)
    moreover have "?k \<in> set ls \<longleftrightarrow> line_sum d ?k < li_quantity li" using effect q Some by auto
    ultimately show ?thesis using sums d' Some by (auto simp: zero)
  qed
qed

lemma tracked_quantity:
  "get_order_lines_with_track_inventory e [li\<lparr>li_quantity := q\<rparr>] = [li\<lparr>li_quantity := q\<rparr>]
   \<longleftrightarrow> get_order_lines_with_track_inventory e [li] = [li]"
  by (auto simp: get_order_lines_with_track_inventory_def split: if_splits)

lemma update_allocations_for_line_sum:
  assumes run: "update_allocations_for_line e li old new ch d = Inr (li', d')"
    and tracked: "get_order_lines_with_track_inventory e [li] = [li]"
    and pks: "distinct (map a_pk (allocations d))" and nonneg: "\<forall>a \<in> set (allocations d). 0 \<le> a_quantity_allocated a"
    and old: "line_sum d (ol_pk (li_line li)) = old" and new: "0 \<le> new"
  shows "line_sum d' x = (if x = ol_pk (li_line li) then new else line_sum d x)"
proof -
  consider "old = new" | "old < new" | "new < old" by linarith
  then show ?thesis
  proof cases
    case 1
    with run old show ?thesis by (auto simp: update_allocations_for_line_def)
  next
    case 2
    let ?li = "li\<lparr>li_quantity := new - old\<rparr>"
    from run 2 tracked have inc: "increase_allocations e [?li] ch d = Inr d'"
      by (auto simp: update_allocations_for_line_def Let_def split: sum.splits)
    have "line_sum d' x = line_sum d x + group_sum (\<lambda>li. ol_pk (li_line li)) li_quantity [?li] x"
      by (rule increase_allocations_effect [OF inc])
        (use tracked pks tracked_quantity in \<open>simp_all add: lines_of_def\<close>)
    with old show ?thesis by simp
  next
    case 3
    let ?li = "li\<lparr>li_quantity := old - new\<rparr>"
    from run 3 tracked have dec: "decrease_allocations e [?li] d = Inr d'"
      by (auto simp: update_allocations_for_line_def Let_def split: sum.splits)
    have "line_sum d' x = line_sum d x - (if x = ol_pk (li_line ?li) then min (li_quantity ?li) (line_sum d x) else 0)"
      by (rule decrease_allocations_one [OF dec])
        (use tracked pks nonneg 3 tracked_quantity in simp_all)
    with old new 3 show ?thesis by auto
  qed
qed

lemma delete_line_rows_sums: "line_sum (shop_db (delete_line_rows k st)) x = (if x = k then 0 else line_sum (shop_db st) x)"
proof -
  have "group_sum a_order_line a_quantity_allocated (filter (\<lambda>a. a_order_line a \<noteq> k) as) x
      = (if x = k then 0 else group_sum a_order_line a_quantity_allocated as x)" for as :: "allocation list"
    by (induction as) auto
  then show ?thesis by (simp add: delete_line_rows_def line_sum_def)
qed


section \<open>What the status of an order says\<close>

definition line_in_status :: "fulfillment_status set \<Rightarrow> order_tables \<Rightarrow> 'a order_scheme \<Rightarrow> pk \<Rightarrow> int" where
  "line_in_status ss T o1 x = sum_of (\<lambda>f. group_sum fl_order_line fl_quantity (f_lines f) x)
     (filter (\<lambda>f. f_status f \<in> ss) (order_fulfillments T o1))"

lemma status_quantity_lines:
  assumes "\<forall>f \<in> set (order_fulfillments T o1). \<forall>fl \<in> set (f_lines f). fl_order_line fl \<in> ol_pk ` set (order_lines_of T o1)"
    and "distinct (map ol_pk (order_lines_of T o1))"
  shows "status_quantity ss T o1 = sum_of (\<lambda>l. line_in_status ss T o1 (ol_pk l)) (order_lines_of T o1)"
proof -
  let ?ls = "order_lines_of T o1"
  have one: "fulfillment_total_quantity f = sum_of (\<lambda>l. group_sum fl_order_line fl_quantity (f_lines f) (ol_pk l)) ?ls"
    if f: "f \<in> set (order_fulfillments T o1)" for f
  proof -
    have "sum_of (\<lambda>l. group_sum fl_order_line fl_quantity fls (ol_pk l)) ?ls = sum_of fl_quantity fls"
      if "\<forall>fl \<in> set fls. fl_order_line fl \<in> ol_pk ` set ?ls" for fls :: "fulfillment_line list"
      using that
    proof (induction fls)
      case (Cons fl fls)
      have "sum_of (\<lambda>l. if fl_order_line fl = ol_pk l then fl_quantity fl else 0) ?ls = fl_quantity fl"
      proof -
        from Cons.prems obtain l where "l \<in> set ?ls" "fl_order_line fl = ol_pk l" by auto
        moreover have "sum_of (\<lambda>l. if c = ol_pk l then q else 0) ls = (if c \<in> ol_pk ` set ls then q else 0)"
          if "distinct (map ol_pk ls)" for c q and ls :: "sales_line list"
          using that by (induction ls) (auto simp: sum_of_zero)
        ultimately show ?thesis using assms(2) by simp
      qed
      with Cons show ?case by (simp add: sum_of_add)
    qed (simp add: sum_of_zero)
    with f assms(1) show ?thesis by (simp add: fulfillment_total_quantity_def)
  qed
  have "sum_of fulfillment_total_quantity fs = sum_of (\<lambda>l. sum_of (\<lambda>f. group_sum fl_order_line fl_quantity (f_lines f) (ol_pk l)) fs) ?ls"
    if "set fs \<subseteq> set (order_fulfillments T o1)" for fs :: "fulfillment list"
    using that by (induction fs) (simp_all add: sum_of_zero sum_of_add one)
  then show ?thesis by (simp add: status_quantity_def line_in_status_def)
qed


section \<open>An example\<close>

definition ex_sales_line :: sales_line where
  "ex_sales_line = order_line.extend (ex_order_line 1 1) \<lparr>sl_is_gift_card = False,
     sl_is_shipping_required = True, sl_quantity = 7, sl_quantity_fulfilled = 5,
     sl_unit_price_net_amount = 2, sl_unit_price_gross_amount = 3, sl_undiscounted_unit_price_net_amount = 2,
     sl_undiscounted_unit_price_gross_amount = 3, sl_total_price_net_amount = 14, sl_total_price_gross_amount = 21,
     sl_undiscounted_total_price_net_amount = 14, sl_undiscounted_total_price_gross_amount = 21\<rparr>"

definition ex_fulfillment :: "fulfillment_status \<Rightarrow> int \<Rightarrow> fulfillment" where
  "ex_fulfillment s q = \<lparr>f_pk = 1, f_order = 1, f_status = s, f_fulfillment_order = 1, f_tracking_number = [],
     f_total_refund_amount = None, f_shipping_refund_amount = None,
     f_lines = [\<lparr>fl_pk = 1, fl_order_line = 1, fl_quantity = q, fl_stock = Some 2\<rparr>]\<rparr>"

definition ex_sale :: shop where
  "ex_sale = \<lparr>shop_db = ex_sold, shop_tables = ex_tables\<lparr>lines := [ex_sales_line],
     fulfillments := [ex_fulfillment RETURNED_F 3]\<rparr>, shop_events = []\<rparr>"

lemma ex_sale_facts:
  "is_unconfirmed (ol_order (li_line (ex_info 1 1 2)))"
  "distinct (map a_pk (allocations (shop_db ex_sale)))"
  "\<forall>a \<in> set (allocations (shop_db ex_sale)). 0 \<le> a_quantity_allocated a"
  "line_sum (shop_db ex_sale) (ol_pk (li_line (ex_info 1 1 2))) = 7"
  "keys_ok (shop_db ex_sale)" "distinct (map ol_pk (lines (shop_tables ex_sale)))"
  by code_simp+


lemma restock_fulfillment_exact_witness:
  "stocked (shop_db (projr (restock_fulfillment_lines (ex_fulfillment RETURNED_F 3) 2 ex_sale))) (2, 1) = 12"
proof -
  have run: "\<not> isl (restock_fulfillment_lines (ex_fulfillment RETURNED_F 3) 2 ex_sale)" by code_simp
  have "\<forall>fl \<in> set (f_lines (ex_fulfillment RETURNED_F 3)). line_of ex_sale fl \<noteq> None" by code_simp
  note effect = restock_fulfillment_exact [OF not_isl_Inr [OF run] ex_sale_facts(5) this ex_sale_facts(6)]
  have "stocked (shop_db ex_sale) (2, 1) + restocked_at 2 (tracked_pairs (shop_db ex_sale)
      (map (\<lambda>fl. (the (line_of ex_sale fl), fl)) (f_lines (ex_fulfillment RETURNED_F 3)))) (2, 1) = 12" by code_simp
  with conjunct1 [OF effect] show ?thesis by simp
qed


end
