(* ===== verification/Minor_Units.thy ===== *)
theory Minor_Units
  imports Order_Amounts "HOL-Library.Char_ord"
begin

text \<open>
  Amounts as text: \<open>Decimal(text)\<close> and \<open>str(decimal)\<close> as far as \<open>saleor/payment/utils.py\<close> uses them, and
  \<open>price_from_minor_unit\<close> and \<open>price_to_minor_unit\<close>.  Characters are ASCII.  Decimals here have no
  negative zero, so \<open>str\<close> of a negative amount that rounds to zero is \<open>0\<close> instead of \<open>-0\<close>.
\<close>

section \<open>Decimal numbers in text\<close>

datatype parsed_decimal = Finite decimal | Special_Value | Syntax_Error

definition is_digit :: "char \<Rightarrow> bool" where
  "is_digit c \<longleftrightarrow> 48 \<le> (of_char c :: nat) \<and> (of_char c :: nat) \<le> 57"

definition digit_value :: "char \<Rightarrow> nat" where
  "digit_value c = of_char c - 48"

definition digit_char :: "nat \<Rightarrow> char" where
  "digit_char n = char_of (48 + n)"

definition is_space :: "char \<Rightarrow> bool" where
  "is_space c \<longleftrightarrow> c = CHR '' '' \<or> 9 \<le> (of_char c :: nat) \<and> (of_char c :: nat) \<le> 13
     \<or> 28 \<le> (of_char c :: nat) \<and> (of_char c :: nat) \<le> 31"

definition strip :: "string \<Rightarrow> string" where
  "strip s = rev (dropWhile is_space (rev (dropWhile is_space s)))"

definition digits_value :: "string \<Rightarrow> nat" where
  "digits_value ds = foldl (\<lambda>n c. 10 * n + digit_value c) 0 ds"

definition split_sign :: "string \<Rightarrow> int \<times> string" where
  "split_sign s = (case s of [] \<Rightarrow> (1, [])
     | c # r \<Rightarrow> if c = CHR ''-'' then (-1, r) else if c = CHR ''+'' then (1, r) else (1, c # r))"

definition lower :: "string \<Rightarrow> string" where
  "lower s = map (\<lambda>c. if 65 \<le> (of_char c :: nat) \<and> (of_char c :: nat) \<le> 90 then char_of (of_char c + 32 :: nat) else c) s"

definition special_value :: "string \<Rightarrow> bool" where
  "special_value s \<longleftrightarrow> lower s \<in> {''inf'', ''infinity''}
     \<or> take 3 (lower s) = ''nan'' \<and> list_all is_digit (drop 3 s)
     \<or> take 4 (lower s) = ''snan'' \<and> list_all is_digit (drop 4 s)"

definition exponent :: "string \<Rightarrow> int option" where
  "exponent s = (case s of [] \<Rightarrow> Some 0
     | c # r \<Rightarrow> if c = CHR ''e'' \<or> c = CHR ''E''
         then (case split_sign r of (sg, ds) \<Rightarrow>
           if ds \<noteq> [] \<and> list_all is_digit ds then Some (sg * int (digits_value ds)) else None)
         else None)"

definition ten_to :: "int \<Rightarrow> rat" where
  "ten_to n = (if 0 \<le> n then 10 ^ nat n else 1 / 10 ^ nat (- n))"

definition decimal_of_string :: "string \<Rightarrow> parsed_decimal" where
  \<comment> \<open>\<open>Decimal(s)\<close>: blanks around, underscores anywhere, a sign, digits with at most one point, an exponent.\<close>
  "decimal_of_string s =
     (case split_sign (filter (\<lambda>c. c \<noteq> CHR ''_'') (strip s)) of (sg, rest) \<Rightarrow>
       let int_part = takeWhile is_digit rest;
           after = dropWhile is_digit rest;
           (fraction, after) = (case after of [] \<Rightarrow> ([], [])
             | c # r \<Rightarrow> if c = CHR ''.'' then (takeWhile is_digit r, dropWhile is_digit r) else ([], c # r))
       in if int_part = [] \<and> fraction = [] then (if special_value rest then Special_Value else Syntax_Error)
          else (case exponent after of None \<Rightarrow> Syntax_Error
            | Some n \<Rightarrow> Finite (of_int (sg * int (digits_value (int_part @ fraction))) * ten_to (n - int (length fraction)))))"

fun string_of_nat :: "nat \<Rightarrow> string" where
  "string_of_nat n = (if n < 10 then [digit_char n] else string_of_nat (n div 10) @ [digit_char (n mod 10)])"

declare string_of_nat.simps [simp del]

definition string_of_int :: "int \<Rightarrow> string" where
  "string_of_int k = (if k < 0 then CHR ''-'' # string_of_nat (nat (- k)) else string_of_nat (nat k))"

section \<open>Minor units\<close>

definition price_from_minor_unit :: "(string \<Rightarrow> nat) \<Rightarrow> string \<Rightarrow> string \<Rightarrow> parsed_decimal" where
  "price_from_minor_unit precision text_value currency =
     (case decimal_of_string text_value of
        Finite v \<Rightarrow> Finite (v * ten_to (- int (precision currency))) | Special_Value \<Rightarrow> Special_Value
      | Syntax_Error \<Rightarrow> Syntax_Error)"

definition price_to_minor_unit :: "(string \<Rightarrow> nat) \<Rightarrow> decimal \<Rightarrow> string \<Rightarrow> string" where
  "price_to_minor_unit precision v currency =
     (let v = quantize_price precision v currency;
          value_without_comma = v * 10 ^ precision currency
      in string_of_int (round_half_even value_without_comma))"

section \<open>Text and back\<close>

lemma of_char_digit: "n < 10 \<Longrightarrow> (of_char (digit_char n) :: nat) = 48 + n"
  by (simp add: digit_char_def of_char_of)

lemma digit_char_facts:
  "n < 10 \<Longrightarrow> is_digit (digit_char n)" "n < 10 \<Longrightarrow> digit_value (digit_char n) = n"
  by (simp_all add: is_digit_def digit_value_def of_char_digit)

lemma string_of_nat_digits: "string_of_nat n \<noteq> [] \<and> list_all is_digit (string_of_nat n)"
  by (induction n rule: string_of_nat.induct) (subst (1 2) string_of_nat.simps, auto simp: digit_char_facts)

lemma digits_value_append: "digits_value (xs @ [c]) = 10 * digits_value xs + digit_value c"
  by (simp add: digits_value_def)

lemma digits_value_string: "digits_value (string_of_nat n) = n"
proof (induction n rule: string_of_nat.induct)
  case (1 n)
  then show ?case
    by (subst string_of_nat.simps) (auto simp: digits_value_append digit_char_facts digits_value_def)
qed

lemma is_digit_plain:
  assumes "is_digit c"
  shows "\<not> is_space c" "c \<noteq> CHR ''_''" "c \<noteq> CHR ''-''" "c \<noteq> CHR ''+''"
  using assms by (auto simp: is_digit_def is_space_def)

lemma dropWhile_none: "\<forall>x \<in> set xs. \<not> P x \<Longrightarrow> dropWhile P xs = xs"
  by (cases xs) simp_all

lemma strip_plain: "\<forall>c \<in> set s. \<not> is_space c \<Longrightarrow> strip s = s"
  by (simp add: strip_def dropWhile_none)

lemma decimal_of_digits:
  assumes "ds \<noteq> []" and "list_all is_digit ds"
  shows "decimal_of_string ds = Finite (of_nat (digits_value ds))"
    and "decimal_of_string (CHR ''-'' # ds) = Finite (- of_nat (digits_value ds))"
proof -
  have plain: "\<forall>c \<in> set ds. \<not> is_space c \<and> c \<noteq> CHR ''_'' \<and> c \<noteq> CHR ''-'' \<and> c \<noteq> CHR ''+''"
    using assms(2) is_digit_plain by (auto simp: list_all_iff)
  then have ds: "filter (\<lambda>c. c \<noteq> CHR ''_'') (strip ds) = ds"
    "filter (\<lambda>c. c \<noteq> CHR ''_'') (strip (CHR ''-'' # ds)) = CHR ''-'' # ds"
    by (auto simp: strip_plain filter_id_conv is_space_def)
  have sg: "split_sign ds = (1, ds)" "split_sign (CHR ''-'' # ds) = (-1, ds)"
    using plain by (auto simp: split_sign_def split: list.split)
  have parts: "takeWhile is_digit ds = ds" "dropWhile is_digit ds = []"
    using assms(2) by (auto simp: list_all_iff takeWhile_eq_all_conv dropWhile_eq_Nil_conv)
  show "decimal_of_string ds = Finite (of_nat (digits_value ds))"
    "decimal_of_string (CHR ''-'' # ds) = Finite (- of_nat (digits_value ds))"
    using assms(1) unfolding decimal_of_string_def Let_def ds sg prod.case parts list.case
    by (simp_all add: exponent_def ten_to_def)
qed

lemma decimal_of_string_of_int: "decimal_of_string (string_of_int k) = Finite (of_int k)"
  using string_of_nat_digits decimal_of_digits [of "string_of_nat (nat (- k))"] decimal_of_digits [of "string_of_nat (nat k)"]
  by (simp add: string_of_int_def digits_value_string)

text \<open>
  C22: reading back the text of an amount in minor units gives the amount rounded to its currency.
\<close>

theorem minor_unit_roundtrip:
  "price_from_minor_unit precision (price_to_minor_unit precision v currency) currency
   = Finite (quantize_price precision v currency)"
proof -
  have "quantize_price precision v currency * 10 ^ precision currency
      = of_int (round_half_even (v * 10 ^ precision currency))"
    by (simp add: quantize_price_def quantize_def)
  then show ?thesis
    by (simp add: price_from_minor_unit_def price_to_minor_unit_def Let_def decimal_of_string_of_int ten_to_def
        quantize_price_def quantize_def)
qed

end
