(* ===== verification/Checkout_Payments.thy ===== *)
theory Checkout_Payments
  imports Payment_Models
begin

text \<open>
  The charge and authorize status of a checkout: \<open>saleor/checkout/payment_utils.py\<close>, and from
  \<open>saleor/checkout/calculations.py\<close> and \<open>saleor/checkout/actions.py\<close> the functions that keep them up to date
  when the total or the transactions change.  The refreshed total of a checkout
  (\<open>_fetch_checkout_prices_if_expired\<close>, which asks the plugins for taxes) is the argument \<open>refreshed_total\<close>.
  The transactions of a checkout have its currency.
\<close>

section \<open>Checkouts\<close>

datatype checkout_charge_status =
    CHECKOUT_CHARGE_NONE | CHECKOUT_CHARGE_PARTIAL | CHECKOUT_CHARGE_FULL | CHECKOUT_OVERCHARGED

datatype checkout_authorize_status =
    CHECKOUT_AUTHORIZE_NONE | CHECKOUT_AUTHORIZE_PARTIAL | CHECKOUT_AUTHORIZE_FULL

record checkout =
  ck_pk :: pk
  ck_currency :: string
  ck_total_gross_amount :: decimal
  ck_authorize_status :: checkout_authorize_status
  ck_charge_status :: checkout_charge_status

section \<open>\<open>checkout/payment_utils.py\<close>\<close>

definition update_charge_status :: "decimal \<Rightarrow> decimal \<Rightarrow> checkout \<Rightarrow> checkout" where
  "update_charge_status checkout_total_gross total_charged ck =
     (let total_charged = max 0 total_charged
      in if total_charged \<le> 0 \<and> checkout_total_gross \<noteq> 0 then ck\<lparr>ck_charge_status := CHECKOUT_CHARGE_NONE\<rparr>
         else if total_charged < checkout_total_gross then ck\<lparr>ck_charge_status := CHECKOUT_CHARGE_PARTIAL\<rparr>
         else if total_charged = checkout_total_gross then ck\<lparr>ck_charge_status := CHECKOUT_CHARGE_FULL\<rparr>
         else if total_charged > checkout_total_gross then ck\<lparr>ck_charge_status := CHECKOUT_OVERCHARGED\<rparr>
         else ck\<lparr>ck_charge_status := CHECKOUT_CHARGE_NONE\<rparr>)"

definition update_authorize_status :: "decimal \<Rightarrow> decimal \<Rightarrow> decimal \<Rightarrow> checkout \<Rightarrow> checkout" where
  "update_authorize_status checkout_total_gross total_authorized total_charged ck =
     (let total_covered = total_authorized + total_charged
      in if total_covered = 0 \<and> checkout_total_gross \<noteq> 0 then ck\<lparr>ck_authorize_status := CHECKOUT_AUTHORIZE_NONE\<rparr>
         else if checkout_total_gross \<le> total_covered then ck\<lparr>ck_authorize_status := CHECKOUT_AUTHORIZE_FULL\<rparr>
         else if total_covered < checkout_total_gross \<and> 0 < total_covered
         then ck\<lparr>ck_authorize_status := CHECKOUT_AUTHORIZE_PARTIAL\<rparr>
         else ck\<lparr>ck_authorize_status := CHECKOUT_AUTHORIZE_NONE\<rparr>)"

definition get_payment_amount_for_checkout :: "transaction_item list \<Rightarrow> decimal \<times> decimal" where
  "get_payment_amount_for_checkout checkout_transactions =
     fold (\<lambda>t (total_authorized_amount, total_charged_amount).
         (total_authorized_amount + ti_authorized_value t + ti_authorize_pending_value t,
          total_charged_amount + ti_charged_value t + ti_charge_pending_value t))
       checkout_transactions (0, 0)"

definition checkout_transactions :: "checkout \<Rightarrow> transaction_item list \<Rightarrow> transaction_item list" where
  "checkout_transactions ck ts = filter (\<lambda>t. ti_checkout t = Some (ck_pk ck)) ts"

definition update_checkout_payment_statuses :: "decimal \<Rightarrow> transaction_item list \<Rightarrow> checkout \<Rightarrow> checkout" where
  "update_checkout_payment_statuses checkout_total_gross ts ck =
     (case get_payment_amount_for_checkout ts of (total_authorized_amount, total_charged_amount) \<Rightarrow>
        update_charge_status checkout_total_gross total_charged_amount
          (update_authorize_status checkout_total_gross total_authorized_amount total_charged_amount ck))"

section \<open>\<open>fetch_checkout_data\<close> and \<open>transaction_amounts_for_checkout_updated\<close>\<close>

definition fetch_checkout_data :: "(checkout \<Rightarrow> decimal) \<Rightarrow> transaction_item list \<Rightarrow> bool \<Rightarrow> checkout \<Rightarrow> checkout" where
  "fetch_checkout_data refreshed_total ts force_status_update ck =
     (let previous_total_gross = ck_total_gross_amount ck;
          ck = ck\<lparr>ck_total_gross_amount := refreshed_total ck\<rparr>;
          current_total_gross = ck_total_gross_amount ck
      in if current_total_gross \<noteq> previous_total_gross \<or> force_status_update
         then update_checkout_payment_statuses current_total_gross (checkout_transactions ck ts) ck
         else ck)"

definition fully_paid :: "checkout \<Rightarrow> bool" where
  "fully_paid ck \<longleftrightarrow> ck_charge_status ck \<in> {CHECKOUT_CHARGE_FULL, CHECKOUT_OVERCHARGED}"

definition transaction_amounts_for_checkout_updated ::
  "(checkout \<Rightarrow> decimal) \<Rightarrow> transaction_item list \<Rightarrow> transaction_item \<Rightarrow> checkout list \<Rightarrow> checkout list \<times> pk list" where
  \<comment> \<open>The checkouts, and those for which the webhook \<open>checkout_fully_paid\<close> is called.\<close>
  "transaction_amounts_for_checkout_updated refreshed_total ts t cks =
     (case ti_checkout t of None \<Rightarrow> (cks, [])
      | Some k \<Rightarrow> (case find_row ck_pk k cks of None \<Rightarrow> (cks, [])
         | Some ck \<Rightarrow>
             (let ck' = fetch_checkout_data refreshed_total ts True ck
              in (map (\<lambda>x. if ck_pk x = k then ck' else x) cks,
                  if \<not> fully_paid ck \<and> fully_paid ck' then [k] else []))))"

section \<open>What the statuses say\<close>

definition charged_or_pending :: "transaction_item \<Rightarrow> decimal" where
  "charged_or_pending t = ti_charged_value t + ti_charge_pending_value t"

definition covered_or_pending :: "transaction_item \<Rightarrow> decimal" where
  "covered_or_pending t = ti_authorized_value t + ti_authorize_pending_value t + charged_or_pending t"

lemma get_payment_amount_sums:
  "get_payment_amount_for_checkout ts =
     (sum_list (map covered_or_pending ts) - sum_list (map charged_or_pending ts), sum_list (map charged_or_pending ts))"
proof -
  have "fold (\<lambda>t (a, c). (a + ti_authorized_value t + ti_authorize_pending_value t,
          c + ti_charged_value t + ti_charge_pending_value t)) ts (a, c)
      = (a + sum_list (map covered_or_pending ts) - sum_list (map charged_or_pending ts),
         c + sum_list (map charged_or_pending ts))" for a c
    by (induction ts arbitrary: a c) (simp_all add: covered_or_pending_def charged_or_pending_def algebra_simps)
  from this [of 0 0] show ?thesis by (simp add: get_payment_amount_for_checkout_def)
qed

lemma update_checkout_payment_statuses_simps:
  "ck_charge_status (update_checkout_payment_statuses gross ts ck) =
     (let c = sum_list (map charged_or_pending ts) in
      if c \<le> 0 \<and> gross \<noteq> 0 then CHECKOUT_CHARGE_NONE
      else if max 0 c < gross then CHECKOUT_CHARGE_PARTIAL
      else if max 0 c = gross then CHECKOUT_CHARGE_FULL else CHECKOUT_OVERCHARGED)"
  "ck_authorize_status (update_checkout_payment_statuses gross ts ck) =
     (let c = sum_list (map covered_or_pending ts) in
      if c = 0 \<and> gross \<noteq> 0 then CHECKOUT_AUTHORIZE_NONE
      else if gross \<le> c then CHECKOUT_AUTHORIZE_FULL
      else if 0 < c then CHECKOUT_AUTHORIZE_PARTIAL else CHECKOUT_AUTHORIZE_NONE)"
  "ck_total_gross_amount (update_checkout_payment_statuses gross ts ck) = ck_total_gross_amount ck"
  "ck_pk (update_checkout_payment_statuses gross ts ck) = ck_pk ck"
  by (simp_all add: update_checkout_payment_statuses_def get_payment_amount_sums update_charge_status_def
      update_authorize_status_def Let_def max_def)

lemma find_row_replace:
  assumes "find_row key k rows = Some r" and "key r' = k"
  shows "find_row key k (map (\<lambda>x. if key x = k then r' else x) rows) = Some r'"
  using assms unfolding find_row_def by (induction rows) auto

lemma fully_paid_update:
  assumes "0 \<le> gross"
  shows "fully_paid (update_checkout_payment_statuses gross ts ck) \<longleftrightarrow> gross \<le> sum_list (map charged_or_pending ts) \<or> gross = 0"
  using assms by (auto simp: fully_paid_def update_checkout_payment_statuses_simps Let_def max_def)

lemma authorize_full_update:
  assumes "\<forall>x \<in> set ts. 0 \<le> ti_authorized_value x + ti_authorize_pending_value x"
    and "0 \<le> sum_list (map charged_or_pending ts)"
    and "0 \<le> gross" and "gross \<le> sum_list (map charged_or_pending ts)"
  shows "ck_authorize_status (update_checkout_payment_statuses gross ts ck) = CHECKOUT_AUTHORIZE_FULL"
proof -
  have "sum_list (map charged_or_pending ts) \<le> sum_list (map covered_or_pending ts)"
    using assms(1) by (intro sum_list_mono) (auto simp: covered_or_pending_def)
  then show ?thesis using assms(2-4) by (auto simp: update_checkout_payment_statuses_simps Let_def)
qed

lemma fetch_checkout_data_forced:
  "fetch_checkout_data refreshed_total ts True ck =
     update_checkout_payment_statuses (refreshed_total ck) (checkout_transactions ck ts)
       (ck\<lparr>ck_total_gross_amount := refreshed_total ck\<rparr>)"
  by (simp add: fetch_checkout_data_def checkout_transactions_def Let_def)

text \<open>
  C30: when a transaction of a checkout changes, the checkout is fully paid exactly when what is
  charged or being charged covers its refreshed total, it is then also fully authorized, and the webhook is
  called exactly when it became fully paid.
\<close>

theorem checkout_fully_paid_iff:
  assumes "ti_checkout t = Some (ck_pk ck)" and "find_row ck_pk (ck_pk ck) cks = Some ck"
    and "\<forall>x \<in> set (checkout_transactions ck ts). 0 \<le> ti_authorized_value x + ti_authorize_pending_value x"
    and "0 \<le> sum_list (map charged_or_pending (checkout_transactions ck ts))"
    and "0 \<le> refreshed_total ck"
    and "transaction_amounts_for_checkout_updated refreshed_total ts t cks = (cks', hooks)"
  shows "\<exists>ck'. find_row ck_pk (ck_pk ck) cks' = Some ck'
    \<and> (fully_paid ck' \<longleftrightarrow> refreshed_total ck \<le> sum_list (map charged_or_pending (checkout_transactions ck ts)))
    \<and> (fully_paid ck' \<longrightarrow> ck_authorize_status ck' = CHECKOUT_AUTHORIZE_FULL)
    \<and> (hooks = (if \<not> fully_paid ck \<and> fully_paid ck' then [ck_pk ck] else []))"
proof -
  let ?ck' = "fetch_checkout_data refreshed_total ts True ck"
  have pk: "ck_pk ?ck' = ck_pk ck"
    by (simp add: fetch_checkout_data_forced update_checkout_payment_statuses_simps)
  have paid: "fully_paid ?ck' \<longleftrightarrow> refreshed_total ck \<le> sum_list (map charged_or_pending (checkout_transactions ck ts))"
    using assms(4,5) by (auto simp: fetch_checkout_data_forced fully_paid_update)
  have "fully_paid ?ck' \<longrightarrow> ck_authorize_status ?ck' = CHECKOUT_AUTHORIZE_FULL"
    using assms(3-5) paid by (auto simp: fetch_checkout_data_forced intro: authorize_full_update)
  with paid show ?thesis using assms(1,2,6) find_row_replace [OF assms(2) pk]
    by (auto simp: transaction_amounts_for_checkout_updated_def Let_def)
qed

section \<open>An example\<close>

definition ex_checkout :: checkout where
  "ex_checkout = \<lparr>ck_pk = 3, ck_currency = ''USD'', ck_total_gross_amount = 12,
     ck_authorize_status = CHECKOUT_AUTHORIZE_NONE, ck_charge_status = CHECKOUT_CHARGE_NONE\<rparr>"

definition ex_checkout_item :: "pk \<Rightarrow> decimal \<Rightarrow> decimal \<Rightarrow> transaction_item" where
  "ex_checkout_item k charged pending = \<lparr>ti_pk = k, ti_name = None, ti_checkout = Some 3, ti_order = None, ti_user = None,
     ti_app = None, ti_app_identifier = None, ti_psp_reference = None, ti_message = None, ti_available_actions = [],
     ti_currency = ''USD'', ti_authorized_value = 1, ti_charged_value = charged, ti_refunded_value = 0,
     ti_canceled_value = 0, ti_authorize_pending_value = 0, ti_charge_pending_value = pending,
     ti_refund_pending_value = 0, ti_cancel_pending_value = 0\<rparr>"

definition ex_checkout_items :: "transaction_item list" where
  "ex_checkout_items = [ex_checkout_item 1 7 0, ex_checkout_item 2 0 3]"

lemma checkout_fully_paid_iff_witness:
  "\<exists>ck'. find_row ck_pk 3 (fst (transaction_amounts_for_checkout_updated (\<lambda>_. 10) ex_checkout_items
      (ex_checkout_item 2 0 3) [ex_checkout])) = Some ck' \<and> fully_paid ck'"
proof -
  have "ti_checkout (ex_checkout_item 2 0 3) = Some (ck_pk ex_checkout)"
    "find_row ck_pk (ck_pk ex_checkout) [ex_checkout] = Some ex_checkout"
    "\<forall>x \<in> set (checkout_transactions ex_checkout ex_checkout_items).
       0 \<le> ti_authorized_value x + ti_authorize_pending_value x"
    "0 \<le> sum_list (map charged_or_pending (checkout_transactions ex_checkout ex_checkout_items))"
    "(0 :: decimal) \<le> 10"
    by code_simp+
  note fact = checkout_fully_paid_iff [where refreshed_total = "\<lambda>_. 10", OF this prod.collapse [symmetric]]
  have "sum_list (map charged_or_pending (checkout_transactions ex_checkout ex_checkout_items)) = 10" by code_simp
  moreover have "ck_pk ex_checkout = 3" by code_simp
  ultimately show ?thesis using fact by auto
qed

end
