(* ===== verification/Transaction_Events.thy ===== *)
theory Transaction_Events
  imports Transaction_Calculations Minor_Units Checkout_Payments
begin

text \<open>
  The events of transactions in \<open>saleor/payment/utils.py\<close>: reading the answer of a payment app
  (\<open>parse_transaction_event_data\<close>, \<open>parse_transaction_action_data\<close>), recording a failed event,
  recognising an event that was recorded before (\<open>deduplicate_event\<close>), recording the event of an answer,
  and the events of a manual adjustment.

  \<^item> The answer is the decoded JSON object; its values have the types of the documentation of the webhook
    (texts, a list of texts for \<open>actions\<close>, a number or a text for \<open>amount\<close>).
  \<^item> \<open>datetime.fromisoformat\<close> and Django's \<open>parse_datetime\<close> are the parameter \<open>pe_parse_time\<close>:
    \<open>None\<close> when both raise \<open>ValueError\<close>, \<open>Some None\<close> when the second one returns \<open>None\<close>.
  \<^item> A row is refused by the database with \<open>Data_Error\<close> when a text is longer than its column.
    An operation therefore returns the error or its result, and the rows it leaves.
  \<^item> \<open>Decimal\<close> also accepts the texts of NaN and of the infinities, which the code would go on with; the
    model stops there with \<open>Not_Finite\<close>.
\<close>

section \<open>Texts\<close>

definition upper :: "string \<Rightarrow> string" where
  "upper s = map (\<lambda>c. if 97 \<le> (of_char c :: nat) \<and> (of_char c :: nat) \<le> 122 then char_of (of_char c - 32 :: nat) else c) s"

definition str_to_enum :: "string \<Rightarrow> string" where
  "str_to_enum name = upper (map (\<lambda>c. if c = CHR ''-'' then CHR ''_'' else c)
     (map (\<lambda>c. if c = CHR '' '' then CHR ''_'' else c) name))"

fun join :: "string \<Rightarrow> string list \<Rightarrow> string" where
  "join sep [] = []"
| "join sep [s] = s"
| "join sep (s # ss) = s @ sep @ join sep ss"

fun event_type_text :: "transaction_event_type \<Rightarrow> string" where
  "event_type_text AUTHORIZATION_SUCCESS = ''authorization_success''"
| "event_type_text AUTHORIZATION_FAILURE = ''authorization_failure''"
| "event_type_text AUTHORIZATION_ADJUSTMENT = ''authorization_adjustment''"
| "event_type_text AUTHORIZATION_REQUEST = ''authorization_request''"
| "event_type_text AUTHORIZATION_ACTION_REQUIRED = ''authorization_action_required''"
| "event_type_text CHARGE_SUCCESS = ''charge_success''"
| "event_type_text CHARGE_FAILURE = ''charge_failure''"
| "event_type_text CHARGE_BACK = ''charge_back''"
| "event_type_text CHARGE_ACTION_REQUIRED = ''charge_action_required''"
| "event_type_text CHARGE_REQUEST = ''charge_request''"
| "event_type_text REFUND_SUCCESS = ''refund_success''"
| "event_type_text REFUND_FAILURE = ''refund_failure''"
| "event_type_text REFUND_REVERSE = ''refund_reverse''"
| "event_type_text REFUND_REQUEST = ''refund_request''"
| "event_type_text CANCEL_SUCCESS = ''cancel_success''"
| "event_type_text CANCEL_FAILURE = ''cancel_failure''"
| "event_type_text CANCEL_REQUEST = ''cancel_request''"
| "event_type_text INFO = ''info''"

fun action_text :: "transaction_action \<Rightarrow> string" where
  "action_text CHARGE = ''charge''" | "action_text REFUND = ''refund''" | "action_text CANCEL = ''cancel''"

section \<open>The data of an answer\<close>

datatype json_amount = Json_Number decimal | Json_Text string

record response_data =
  rd_psp_reference :: "string option"
  rd_actions :: "string list option"
  rd_result :: "string option"
  rd_amount :: "json_amount option"
  rd_time :: "string option"
  rd_external_url :: "string option option"   \<comment> \<open>\<open>None\<close>: the key is absent; \<open>Some None\<close>: it is null\<close>
  rd_message :: "string option option"

record event_response =   \<comment> \<open>\<open>TransactionRequestEventResponse\<close>\<close>
  er_psp_reference :: "string option"
  er_type :: transaction_event_type
  er_amount :: decimal
  er_time :: "time option"
  er_external_url :: "string option"
  er_message :: "string option"

record request_response =   \<comment> \<open>\<open>TransactionRequestResponse\<close>\<close>
  rr_psp_reference :: "string option"
  rr_available_actions :: "transaction_action list option"
  rr_event :: "event_response option"

record app =
  app_pk :: pk
  app_identifier :: "string option"

record payment_env =
  pe_env :: env
  pe_parse_time :: "string \<Rightarrow> time option option"
  pe_precision :: "string \<Rightarrow> nat"
  pe_refreshed_total :: "checkout \<Rightarrow> decimal"   \<comment> \<open>the total gross after \<open>_fetch_checkout_prices_if_expired\<close>\<close>
  pe_valid_url :: "string \<Rightarrow> bool"   \<comment> \<open>Django's \<open>URLValidator\<close>\<close>

datatype event_error = Data_Error | Not_Finite

definition get_final_session_statuses :: "transaction_event_type list" where
  "get_final_session_statuses = [AUTHORIZATION_FAILURE, AUTHORIZATION_SUCCESS, AUTHORIZATION_REQUEST,
     CHARGE_FAILURE, CHARGE_SUCCESS, CHARGE_REQUEST]"

definition session_request :: string where
  "session_request = ''session-request''"

definition get_correct_event_types_based_on_request_type :: "string \<Rightarrow> transaction_event_type list" where
  "get_correct_event_types_based_on_request_type request_type =
     (case map_of [
          (event_type_text AUTHORIZATION_REQUEST, [AUTHORIZATION_FAILURE, AUTHORIZATION_ADJUSTMENT, AUTHORIZATION_SUCCESS]),
          (event_type_text CHARGE_REQUEST, [CHARGE_FAILURE, CHARGE_SUCCESS]),
          (event_type_text REFUND_REQUEST, [REFUND_FAILURE, REFUND_SUCCESS]),
          (event_type_text CANCEL_REQUEST, [CANCEL_FAILURE, CANCEL_SUCCESS]),
          (session_request, [AUTHORIZATION_ACTION_REQUIRED, CHARGE_ACTION_REQUIRED] @ get_final_session_statuses)]
        request_type of None \<Rightarrow> [] | Some types \<Rightarrow> types)"

text \<open>The keys of \<open>parsed_event_data\<close> that may be missing when an error is reported.\<close>

record parsed_event =
  pv_type :: "transaction_event_type option"
  pv_amount :: "decimal option"
  pv_time :: "time option"

definition missing_msg :: "string \<Rightarrow> string" where
  "missing_msg field = ''Missing value for field: '' @ field @ '' in response of transaction action webhook.''"

definition invalid_msg :: "string \<Rightarrow> string \<Rightarrow> string" where
  "invalid_msg field value = ''Incorrect value for field: '' @ field @ '', value: '' @ value
     @ '' in response of transaction action webhook.''"

definition possible_event_types :: "string \<Rightarrow> (string \<times> transaction_event_type) list" where
  "possible_event_types request_type =
     map (\<lambda>ty. (str_to_enum (event_type_text ty), ty)) (get_correct_event_types_based_on_request_type request_type)"

definition parse_result :: "string option \<Rightarrow> string \<Rightarrow> transaction_event_type option \<times> string list" where
  "parse_result result request_type =
     (if truthy_text result
      then (case map_of (possible_event_types request_type) (the result) of
          Some ty \<Rightarrow> (Some ty, [])
        | None \<Rightarrow> (None, [''Incorrect value: '' @ the result @ '' for field: `result` in the response. Request: ''
            @ upper request_type @ '' can accept only types: '' @ join '','' (map fst (possible_event_types request_type))]))
      else (None, [missing_msg ''result'']))"

definition parse_amount :: "json_amount option \<Rightarrow> event_error + decimal option \<times> string list" where
  "parse_amount a =
     (case a of None \<Rightarrow> Inr (None, [missing_msg ''amount''])
      | Some (Json_Number v) \<Rightarrow> Inr (Some v, [])
      | Some (Json_Text s) \<Rightarrow>
          (case decimal_of_string s of
             Finite v \<Rightarrow> Inr (Some v, [])
           | Special_Value \<Rightarrow> Inl Not_Finite
           | Syntax_Error \<Rightarrow> Inr (None, [invalid_msg ''amount'' s])))"

definition parse_event_time :: "payment_env \<Rightarrow> string option \<Rightarrow> time option \<times> string list" where
  "parse_event_time pe t =
     (if truthy_text t
      then (case pe_parse_time pe (the t) of
          Some tm \<Rightarrow> (tm, [])
        | None \<Rightarrow> (None, [invalid_msg ''time'' (the t)]))
      else (Some (now (pe_env pe)), []))"

definition get_default :: "string option option \<Rightarrow> string option" where
  \<comment> \<open>\<open>event_data.get(key, "")\<close>\<close>
  "get_default v = (case v of None \<Rightarrow> Some [] | Some x \<Rightarrow> x)"

definition parse_transaction_event_data ::
  "payment_env \<Rightarrow> response_data \<Rightarrow> string option \<Rightarrow> string \<Rightarrow> bool
   \<Rightarrow> event_error + event_response option \<times> string list" where
  \<comment> \<open>The parsed event and \<open>error_field_msg\<close>; the event lacks a field only where a message is reported.\<close>
  "parse_transaction_event_data pe d psp_reference request_type event_is_optional =
     (if event_is_optional \<and> rd_amount d = None \<and> \<not> truthy_text (rd_result d) then Inr (None, [])
      else case parse_amount (rd_amount d) of
        Inl er \<Rightarrow> Inl er
      | Inr (amount, amount_msgs) \<Rightarrow>
          (let (ty, type_msgs) = parse_result (rd_result d) request_type;
               (tm, time_msgs) = parse_event_time pe (rd_time d);
               event = (case (ty, amount) of
                   (Some ty, Some amount) \<Rightarrow> Some \<lparr>er_psp_reference = psp_reference, er_type = ty, er_amount = amount,
                       er_time = tm, er_external_url = get_default (rd_external_url d),
                       er_message = get_default (rd_message d)\<rparr>
                 | _ \<Rightarrow> None)
           in Inr (event, type_msgs @ amount_msgs @ time_msgs)))"

definition parse_actions :: "string list option \<Rightarrow> transaction_action list option" where
  "parse_actions as = map_option (List.map_filter (map_of (map (\<lambda>a. (str_to_enum (action_text a), a)) [CHARGE, REFUND, CANCEL]))) as"

definition shorten :: "string \<Rightarrow> string" where
  "shorten msg = (if 512 \<le> length msg then take 509 msg @ ''...'' else msg)"

definition parse_transaction_action_data ::
  "payment_env \<Rightarrow> response_data \<Rightarrow> string \<Rightarrow> bool \<Rightarrow> bool \<Rightarrow> event_error + request_response option \<times> string option" where
  "parse_transaction_action_data pe d request_type event_is_optional psp_reference_is_optional =
     (if \<not> truthy_text (rd_psp_reference d) \<and> \<not> psp_reference_is_optional
      then Inr (None, Some ''Missing `pspReference` field in the response.'')
      else case parse_transaction_event_data pe d (rd_psp_reference d) request_type event_is_optional of
        Inl er \<Rightarrow> Inl er
      | Inr (event, error_field_msg) \<Rightarrow>
          (if error_field_msg \<noteq> [] then Inr (None, Some (shorten (join [CHR 0x0A] error_field_msg)))
           else Inr (Some \<lparr>rr_psp_reference = rd_psp_reference d, rr_available_actions = parse_actions (rd_actions d),
                          rr_event = event\<rparr>, None)))"

definition get_parsed_transaction_action_data ::
  "payment_env \<Rightarrow> response_data option \<Rightarrow> string \<Rightarrow> bool \<Rightarrow> bool \<Rightarrow> event_error + request_response option \<times> string option" where
  "get_parsed_transaction_action_data pe response event_type event_is_optional psp_reference_is_optional =
     (case response of None \<Rightarrow> Inr (None, Some ''Failed to delivery request.'')
      | Some d \<Rightarrow>
          (case parse_transaction_action_data pe d event_type event_is_optional psp_reference_is_optional of
             Inl er \<Rightarrow> Inl er
           | Inr (None, error_msg) \<Rightarrow> Inr (None, Some (case error_msg of None \<Rightarrow> [] | Some m \<Rightarrow> m))
           | Inr (Some r, _) \<Rightarrow> Inr (Some r, None)))"

section \<open>Recording events\<close>

type_synonym event_rows = "transaction_event list"

definition fits :: "nat \<Rightarrow> string option \<Rightarrow> bool" where
  "fits n s = (case s of None \<Rightarrow> True | Some t \<Rightarrow> length t \<le> n)"

definition event_fits :: "transaction_event \<Rightarrow> bool" where
  "event_fits ev \<longleftrightarrow> fits 512 (te_psp_reference ev) \<and> fits 512 (te_message ev) \<and> fits 200 (te_external_url ev)
     \<and> fits 256 (te_app_identifier ev)"

definition next_event_pk :: "event_rows \<Rightarrow> pk" where
  "next_event_pk rows = Suc (fold max (map te_pk rows) 0)"

definition insert_event :: "transaction_event \<Rightarrow> event_rows \<Rightarrow> (event_error + transaction_event) \<times> event_rows" where
  "insert_event ev rows =
     (if event_fits ev then let ev = ev\<lparr>te_pk := next_event_pk rows\<rparr> in (Inr ev, rows @ [ev])
      else (Inl Data_Error, rows))"

definition update_event :: "transaction_event \<Rightarrow> event_rows \<Rightarrow> event_error option \<times> event_rows" where
  \<comment> \<open>\<open>save()\<close> of an event that has a row\<close>
  "update_event ev rows =
     (if event_fits ev then (None, map (\<lambda>r. if te_pk r = te_pk ev then ev else r) rows) else (Some Data_Error, rows))"

definition get_failed_transaction_event_type_for_request_event :: "transaction_event \<Rightarrow> transaction_event_type option" where
  "get_failed_transaction_event_type_for_request_event ev =
     (if te_type ev = AUTHORIZATION_REQUEST then Some AUTHORIZATION_FAILURE
      else if te_type ev = CHARGE_REQUEST then Some CHARGE_FAILURE
      else if te_type ev = REFUND_REQUEST then Some REFUND_FAILURE
      else if te_type ev = CANCEL_REQUEST then Some CANCEL_FAILURE
      else None)"

definition get_failed_type_based_on_event :: "transaction_event \<Rightarrow> transaction_event_type" where
  "get_failed_type_based_on_event ev =
     (case get_failed_transaction_event_type_for_request_event ev of Some ty \<Rightarrow> ty
      | None \<Rightarrow>
         (if te_type ev \<in> {AUTHORIZATION_SUCCESS, AUTHORIZATION_ADJUSTMENT} then AUTHORIZATION_FAILURE
          else if te_type ev \<in> {CHARGE_BACK, CHARGE_SUCCESS} then CHARGE_FAILURE
          else if te_type ev \<in> {REFUND_REVERSE, REFUND_SUCCESS} then REFUND_FAILURE
          else if te_type ev = CANCEL_SUCCESS then CANCEL_FAILURE
          else te_type ev))"

definition failed_event :: "payment_env \<Rightarrow> transaction_event \<Rightarrow> string \<Rightarrow> transaction_event" where
  "failed_event pe ev cause = \<lparr>te_pk = 0, te_transaction = te_transaction ev, te_created_at = now (pe_env pe),
     te_psp_reference = te_psp_reference ev, te_message = Some cause, te_type = get_failed_type_based_on_event ev,
     te_amount_value = te_amount_value ev, te_currency = te_currency ev, te_external_url = None, te_user = None,
     te_app = None, te_app_identifier = None, te_include_in_calculations = False\<rparr>"

definition create_failed_transaction_event ::
  "payment_env \<Rightarrow> transaction_event \<Rightarrow> string \<Rightarrow> event_rows \<Rightarrow> (event_error + transaction_event) \<times> event_rows" where
  "create_failed_transaction_event pe ev cause rows = insert_event (failed_event pe ev cause) rows"

definition authorization_success_already_exists :: "pk \<Rightarrow> event_rows \<Rightarrow> bool" where
  "authorization_success_already_exists transaction_id rows =
     list_ex (\<lambda>r. te_transaction r = transaction_id \<and> te_type r = AUTHORIZATION_SUCCESS) rows"

definition only_recorded :: "transaction_event_type \<Rightarrow> bool" where
  "only_recorded ty \<longleftrightarrow> ty \<in> {AUTHORIZATION_ACTION_REQUIRED, CHARGE_ACTION_REQUIRED, INFO}"

definition same_event :: "transaction_event \<Rightarrow> transaction_event \<Rightarrow> bool" where
  "same_event ev r \<longleftrightarrow> te_transaction r = te_transaction ev \<and> te_psp_reference r = te_psp_reference ev
     \<and> te_type r = te_type ev"

definition get_already_existing_event :: "transaction_event \<Rightarrow> event_rows \<Rightarrow> transaction_event option" where
  \<comment> \<open>\<open>first()\<close> follows the order of the model, by primary key.\<close>
  "get_already_existing_event ev rows =
     (if only_recorded (te_type ev) then None else find (same_event ev) (sort_key te_pk rows))"

definition amounts_differ :: "transaction_event \<Rightarrow> transaction_event \<Rightarrow> bool" where
  \<comment> \<open>\<open>!=\<close> of two \<open>Money\<close>\<close>
  "amounts_differ a b \<longleftrightarrow> \<not> (te_amount_value a = te_amount_value b \<and> te_currency a = te_currency b)"

definition different_amount_msg :: string where
  "different_amount_msg = ''The transaction with provided `pspReference` and `type` already exists with different amount.''"

definition already_reported_msg :: string where
  "already_reported_msg = ''Event with `AUTHORIZATION_SUCCESS` already reported for the transaction. ''
     @ ''Use `AUTHORIZATION_ADJUSTMENT` to change the authorization amount.''"

definition deduplicate_event :: "transaction_event \<Rightarrow> event_rows \<Rightarrow> transaction_event \<times> string option" where
  "deduplicate_event ev rows =
     (case get_already_existing_event ev rows of
        Some existing \<Rightarrow> (existing, if amounts_differ existing ev then Some different_amount_msg else None)
      | None \<Rightarrow> (ev, if te_type ev = AUTHORIZATION_SUCCESS \<and> authorization_success_already_exists (te_transaction ev) rows
                    then Some already_reported_msg else None))"

definition app_identifier_of :: "app option \<Rightarrow> string option" where
  "app_identifier_of a = (case a of None \<Rightarrow> None | Some x \<Rightarrow> if truthy_text (app_identifier x) then app_identifier x else None)"

definition response_event :: "payment_env \<Rightarrow> event_response \<Rightarrow> app option \<Rightarrow> pk \<Rightarrow> string \<Rightarrow> transaction_event" where
  "response_event pe r a transaction_id currency = \<lparr>te_pk = 0, te_transaction = transaction_id,
     te_created_at = (case er_time r of Some tm \<Rightarrow> tm | None \<Rightarrow> now (pe_env pe)),
     te_psp_reference = er_psp_reference r, te_message = er_message r, te_type = er_type r,
     te_amount_value = er_amount r, te_currency = currency, te_external_url = er_external_url r, te_user = None,
     te_app = map_option app_pk a, te_app_identifier = app_identifier_of a, te_include_in_calculations = True\<rparr>"

definition create_event_from_response ::
  "payment_env \<Rightarrow> event_response \<Rightarrow> app option \<Rightarrow> pk \<Rightarrow> string \<Rightarrow> event_rows
   \<Rightarrow> (event_error + transaction_event option \<times> string option) \<times> event_rows" where
  \<comment> \<open>A new event has no primary key, which is 0 here.\<close>
  "create_event_from_response pe r a transaction_id currency rows =
     (case deduplicate_event (response_event pe r a transaction_id currency) rows of
        (ev, Some error_msg) \<Rightarrow> (Inr (None, Some error_msg), rows)
      | (ev, None) \<Rightarrow>
          (if te_pk ev = 0
           then (case insert_event ev rows of
               (Inl er, rows) \<Rightarrow> (Inl er, rows) | (Inr ev, rows) \<Rightarrow> (Inr (Some ev, None), rows))
           else (Inr (Some ev, None), rows)))"

section \<open>Manual adjustments\<close>

record money_data =
  md_authorized_value :: "decimal option"
  md_charged_value :: "decimal option"
  md_refunded_value :: "decimal option"
  md_canceled_value :: "decimal option"

fun money_data_get :: "amount_field \<Rightarrow> money_data \<Rightarrow> decimal option" where
  "money_data_get Authorized_Value m = md_authorized_value m"
| "money_data_get Charged_Value m = md_charged_value m"
| "money_data_get Refunded_Value m = md_refunded_value m"
| "money_data_get Canceled_Value m = md_canceled_value m"
| "money_data_get _ m = None"

definition manual_event ::
  "payment_env \<Rightarrow> transaction_item \<Rightarrow> decimal \<Rightarrow> decimal \<Rightarrow> transaction_event_type \<Rightarrow> pk option \<Rightarrow> app option \<Rightarrow> transaction_event" where
  "manual_event pe t transaction_amount input_amount ty user a = \<lparr>te_pk = 0, te_transaction = ti_pk t,
     te_created_at = now (pe_env pe), te_psp_reference = None, te_message = Some ''Manual adjustment of the transaction.'',
     te_type = ty, te_amount_value = input_amount - transaction_amount, te_currency = ti_currency t,
     te_external_url = None, te_user = user, te_app = map_option app_pk a,
     te_app_identifier = (case a of None \<Rightarrow> None | Some x \<Rightarrow> app_identifier x), te_include_in_calculations = True\<rparr>"

definition prepare_manual_event ::
  "payment_env \<Rightarrow> amount_field \<Rightarrow> money_data \<Rightarrow> transaction_event_type \<Rightarrow> transaction_item \<Rightarrow> pk option \<Rightarrow> app option
   \<Rightarrow> transaction_event list \<Rightarrow> transaction_event list" where
  "prepare_manual_event pe amount_field m ty t user a events_to_create =
     (case money_data_get amount_field m of None \<Rightarrow> events_to_create
      | Some amount_value \<Rightarrow>
          (if getattr_value amount_field t \<noteq> amount_value
           then events_to_create @ [manual_event pe t (getattr_value amount_field t) amount_value ty user a]
           else events_to_create))"

definition adjust_authorized ::
  "payment_env \<Rightarrow> money_data \<Rightarrow> transaction_item \<Rightarrow> pk option \<Rightarrow> app option \<Rightarrow> event_rows \<Rightarrow> transaction_event list" where
  "adjust_authorized pe m t user a rows =
     (case md_authorized_value m of None \<Rightarrow> []
      | Some authorized_value \<Rightarrow>
          (let (ty, current_authorized_value) =
                 (if authorization_success_already_exists (ti_pk t) rows then (AUTHORIZATION_ADJUSTMENT, 0)
                  else (AUTHORIZATION_SUCCESS, ti_authorized_value t))
           in if ti_authorized_value t \<noteq> authorized_value
              then [manual_event pe t current_authorized_value authorized_value ty user a] else []))"

fun insert_all :: "transaction_event list \<Rightarrow> event_rows \<Rightarrow> event_rows" where
  "insert_all [] rows = rows"
| "insert_all (ev # evs) rows = insert_all evs (rows @ [ev\<lparr>te_pk := next_event_pk rows\<rparr>])"

definition bulk_create_events :: "transaction_event list \<Rightarrow> event_rows \<Rightarrow> event_error option \<times> event_rows" where
  "bulk_create_events evs rows = (if list_all event_fits evs then (None, insert_all evs rows) else (Some Data_Error, rows))"

definition create_manual_adjustment_events ::
  "payment_env \<Rightarrow> transaction_item \<Rightarrow> money_data \<Rightarrow> pk option \<Rightarrow> app option \<Rightarrow> event_rows \<Rightarrow> event_error option \<times> event_rows" where
  "create_manual_adjustment_events pe t m user a rows =
     (let events_to_create = adjust_authorized pe m t user a rows;
          events_to_create = prepare_manual_event pe Charged_Value m CHARGE_SUCCESS t user a events_to_create;
          events_to_create = prepare_manual_event pe Refunded_Value m REFUND_SUCCESS t user a events_to_create;
          events_to_create = prepare_manual_event pe Canceled_Value m CANCEL_SUCCESS t user a events_to_create
      in bulk_create_events events_to_create rows)"

section \<open>What is recorded\<close>

lemma next_event_pk_greater: "r \<in> set rows \<Longrightarrow> te_pk r < next_event_pk rows"
proof -
  have ge: "m \<le> fold max xs m" "x \<in> set xs \<Longrightarrow> x \<le> fold max xs m" for x :: nat and xs m
    by (induction xs arbitrary: m) (auto, (metis max.boundedE order.trans)+)
  show "r \<in> set rows \<Longrightarrow> te_pk r < next_event_pk rows"
    using ge(2) [of "te_pk r" "map te_pk rows" 0] by (auto simp: next_event_pk_def)
qed

lemma insert_event_keys:
  "distinct (map te_pk rows) \<Longrightarrow> distinct (map te_pk (snd (insert_event ev rows)))"
  by (auto simp: insert_event_def Let_def dest: next_event_pk_greater)

lemma insert_event_rows:
  "snd (insert_event ev rows) = (if event_fits ev then rows @ [ev\<lparr>te_pk := next_event_pk rows\<rparr>] else rows)"
  by (simp add: insert_event_def Let_def)

lemma fits_simps [simp]: "fits n None" "fits n (Some s) \<longleftrightarrow> length s \<le> n"
  by (simp_all add: fits_def)

lemma shorten_length: "length (shorten msg) \<le> 512"
  by (simp add: shorten_def)

text \<open>
  Whatever a payment app answers, and whatever it quotes of it, the message of a rejected answer has
  at most 512 characters, so the failed event of the request can always be recorded.
\<close>

lemma rejected_answer_recorded:
  assumes "get_parsed_transaction_action_data pe response event_type opt psp_opt = Inr (None, msg)"
    and "fits 512 (te_psp_reference ev)"
  shows "\<exists>m failed. msg = Some m \<and> length m \<le> 512
    \<and> create_failed_transaction_event pe ev m rows = (Inr failed, rows @ [failed])
    \<and> te_message failed = Some m \<and> \<not> te_include_in_calculations failed"
proof -
  obtain m where m: "msg = Some m" "length m \<le> 512"
    using assms(1) shorten_length
    by (auto simp: get_parsed_transaction_action_data_def parse_transaction_action_data_def
        split: option.splits sum.splits if_splits prod.splits)
  then show ?thesis using assms(2)
    by (auto simp: create_failed_transaction_event_def insert_event_def failed_event_def event_fits_def Let_def)
qed

lemma parse_result_typed:
  "parse_result result rt = (Some ty, msgs) \<Longrightarrow>
     ty \<in> set (get_correct_event_types_based_on_request_type rt) \<and> result = Some (str_to_enum (event_type_text ty)) \<and> msgs = []"
  by (auto simp: parse_result_def possible_event_types_def truthy_text_def split: if_splits option.splits
      dest!: map_of_SomeD)

text \<open>
  C29: what is accepted is well typed: an accepted answer has the reference when it is required, its event
  has one of the types that the request allows, named by the text of the answer, and the event is there
  unless it is optional and both its amount and its result are missing.
\<close>

theorem accepted_answer_typed:
  assumes "get_parsed_transaction_action_data pe (Some d) request_type opt psp_opt = Inr (Some rr, msg)"
  shows "msg = None \<and> rr_psp_reference rr = rd_psp_reference d \<and> (psp_opt \<or> truthy_text (rr_psp_reference rr))
    \<and> (case rr_event rr of
         Some re \<Rightarrow> er_type re \<in> set (get_correct_event_types_based_on_request_type request_type)
           \<and> rd_result d = Some (str_to_enum (event_type_text (er_type re)))
       | None \<Rightarrow> opt \<and> rd_amount d = None \<and> \<not> truthy_text (rd_result d))"
proof -
  obtain ev where ev: "parse_transaction_event_data pe d (rd_psp_reference d) request_type opt = Inr (ev, [])"
    "rr = \<lparr>rr_psp_reference = rd_psp_reference d, rr_available_actions = parse_actions (rd_actions d), rr_event = ev\<rparr>"
    "msg = None" "psp_opt \<or> truthy_text (rd_psp_reference d)"
    using assms by (auto simp: get_parsed_transaction_action_data_def parse_transaction_action_data_def
        split: option.splits sum.splits if_splits prod.splits)
  have "case ev of Some re \<Rightarrow> er_type re \<in> set (get_correct_event_types_based_on_request_type request_type)
           \<and> rd_result d = Some (str_to_enum (event_type_text (er_type re)))
       | None \<Rightarrow> opt \<and> rd_amount d = None \<and> \<not> truthy_text (rd_result d)"
  proof (cases "opt \<and> rd_amount d = None \<and> \<not> truthy_text (rd_result d)")
    case True
    with ev(1) show ?thesis by (simp add: parse_transaction_event_data_def)
  next
    case False
    obtain am where am: "parse_amount (rd_amount d) = Inr (am, [])" and rest: "\<exists>tm ty. parse_event_time pe (rd_time d) = (tm, [])
        \<and> parse_result (rd_result d) request_type = (ty, [])
        \<and> ev = (case (ty, am) of (Some ty, Some am) \<Rightarrow> Some \<lparr>er_psp_reference = rd_psp_reference d, er_type = ty,
            er_amount = am, er_time = tm, er_external_url = get_default (rd_external_url d),
            er_message = get_default (rd_message d)\<rparr> | _ \<Rightarrow> None)"
      using ev(1) False unfolding parse_transaction_event_data_def if_not_P [OF False] Let_def
      by (auto split: sum.splits prod.splits)
    have "am \<noteq> None" using am by (auto simp: parse_amount_def split: option.splits json_amount.splits parsed_decimal.splits)
    moreover have "ty \<noteq> None" if "parse_result (rd_result d) request_type = (ty, [])" for ty
      using that by (auto simp: parse_result_def split: if_splits option.splits) metis
    ultimately show ?thesis using rest parse_result_typed by (fastforce split: option.splits)
  qed
  with ev show ?thesis by simp
qed

section \<open>Examples\<close>

definition ex_pe :: payment_env where
  "ex_pe = \<lparr>pe_env = ex_env1, pe_parse_time = (\<lambda>s. if s = ''2023-05-01'' then Some (Some 50) else None),
     pe_precision = two_digits, pe_refreshed_total = ck_total_gross_amount, pe_valid_url = (\<lambda>_. True)\<rparr>"

definition ex_answer :: "string \<Rightarrow> decimal \<Rightarrow> response_data" where
  "ex_answer res amount = \<lparr>rd_psp_reference = Some ''psp-1'', rd_actions = None, rd_result = Some res,
     rd_amount = Some (Json_Number amount), rd_time = None, rd_external_url = None, rd_message = None\<rparr>"

definition ex_charging :: request_response where
  "ex_charging = \<lparr>rr_psp_reference = Some ''psp-1'', rr_available_actions = None,
     rr_event = Some \<lparr>er_psp_reference = Some ''psp-1'', er_type = CHARGE_SUCCESS, er_amount = 21 / 2, er_time = Some 100,
       er_external_url = Some [], er_message = Some []\<rparr>\<rparr>"

lemma session_result:
  "map_of (possible_event_types session_request) ''CHARGE_SUCCESS'' = Some CHARGE_SUCCESS"
  by code_simp

lemma charge_results:
  "possible_event_types (event_type_text CHARGE_REQUEST) = [(''CHARGE_FAILURE'', CHARGE_FAILURE), (''CHARGE_SUCCESS'', CHARGE_SUCCESS)]"
  by code_simp

lemmas answer_defs = get_parsed_transaction_action_data_def parse_transaction_action_data_def
  parse_transaction_event_data_def parse_amount_def parse_result_def parse_event_time_def parse_actions_def truthy_text_def
  get_default_def

lemma ex_charging_answer:
  "get_parsed_transaction_action_data ex_pe (Some (ex_answer ''CHARGE_SUCCESS'' (21 / 2))) session_request False True
    = Inr (Some ex_charging, None)"
  by (simp add: answer_defs ex_answer_def ex_charging_def session_result ex_pe_def ex_env1_def)

lemma ex_wrong_answer:
  "\<exists>m. get_parsed_transaction_action_data ex_pe (Some (ex_answer ''CHARGED'' 5)) (event_type_text CHARGE_REQUEST) True False
    = Inr (None, m)"
  unfolding answer_defs charge_results ex_answer_def by simp

lemma rejected_answer_recorded_witness:
  "\<exists>m failed. create_failed_transaction_event ex_pe (ex_event 1 10 None CHARGE_REQUEST 5) m ex_events = (Inr failed, ex_events @ [failed])
    \<and> length m \<le> 512"
proof -
  obtain m where m: "get_parsed_transaction_action_data ex_pe (Some (ex_answer ''CHARGED'' 5)) (event_type_text CHARGE_REQUEST)
      True False = Inr (None, m)" using ex_wrong_answer by blast
  have "fits 512 (te_psp_reference (ex_event 1 10 None CHARGE_REQUEST 5))" by (simp add: ex_event_def)
  from rejected_answer_recorded [OF m this, of ex_events] show ?thesis by blast
qed

lemma accepted_answer_typed_witness:
  "CHARGE_SUCCESS \<in> set (get_correct_event_types_based_on_request_type session_request)
   \<and> rd_result (ex_answer ''CHARGE_SUCCESS'' (21 / 2)) = Some (str_to_enum (event_type_text CHARGE_SUCCESS))"
  using accepted_answer_typed [OF ex_charging_answer] by (simp add: ex_charging_def)

end
