(* ===== verification/Transaction_Handlers.thy ===== *)
theory Transaction_Handlers
  imports Transaction_Events
begin

text \<open>
  The operations that change transactions: the sessions and the answers of webhooks in
  \<open>saleor/payment/utils.py\<close>, the requests of \<open>saleor/payment/gateway.py\<close>, and the mutations
  \<open>transactionEventReport\<close>, \<open>transactionCreate\<close>, \<open>transactionUpdate\<close> and \<open>transactionRequestAction\<close> of
  \<open>saleor/graphql/payment/mutations/transaction\<close>.

  \<^item> The state has the events, the tables of the orders with their transactions, the checkouts, and the calls that leave
    the component: order events, webhooks and emails of \<open>saleor/order/actions.py\<close>, in the order in which they
    are made.  \<open>handle_fully_paid_order\<close> (fulfillment of digital goods and gift cards) is one such call.
  \<^item> An operation returns its error or its result, and the state it leaves; what was saved before an error stays.
  \<^item> Objects in memory are written back as whole rows: the fields that the code saves are all that it changes.
\<close>

section \<open>State\<close>

datatype order_call =
    Payment_Captured_Event pk decimal
  | Payment_Refunded_Event pk decimal
  | Order_Paid pk
  | Handle_Fully_Paid_Order pk
  | Order_Updated pk
  | Send_Order_Refunded_Confirmation pk decimal
  | Order_Refunded pk
  | Order_Fully_Refunded pk
  | Checkout_Fully_Paid pk
  | Transaction_Action_Requested transaction_action pk decimal pk
  | Transaction_Charge_Requested_Event pk string decimal
  | Transaction_Refund_Requested_Event pk string decimal
  | Transaction_Cancel_Requested_Event pk string
  | Order_Transaction_Event pk "string option" string

record pay_state =
  ps_events :: event_rows
  ps_tables :: order_tables
  ps_checkouts :: "checkout list"
  ps_calls :: "order_call list"

definition item_of :: "pk \<Rightarrow> pay_state \<Rightarrow> transaction_item option" where
  "item_of k s = find_row ti_pk k (payment_transactions (ps_tables s))"

definition save_item :: "transaction_item \<Rightarrow> pay_state \<Rightarrow> pay_state" where
  "save_item t s = s\<lparr>ps_tables := (ps_tables s)\<lparr>payment_transactions :=
     map (\<lambda>x. if ti_pk x = ti_pk t then t else x) (payment_transactions (ps_tables s))\<rparr>\<rparr>"

definition add_calls :: "order_call list \<Rightarrow> pay_state \<Rightarrow> pay_state" where
  "add_calls cs s = s\<lparr>ps_calls := ps_calls s @ cs\<rparr>"

section \<open>\<open>order/actions.py\<close>\<close>

definition order_charged :: "order_tables \<Rightarrow> sales_order \<Rightarrow> decimal option \<Rightarrow> payment option \<Rightarrow> order_call list" where
  "order_charged T o1 amount payment =
     (case (payment, amount) of (Some p, Some v) \<Rightarrow> [Payment_Captured_Event (o_id o1) v] | _ \<Rightarrow> [])
     @ [Order_Paid (o_id o1)]
     @ (if so_charge_status o1 \<in> {CHARGE_FULL, CHARGE_OVERCHARGED} then [Handle_Fully_Paid_Order (o_id o1)]
        else [Order_Updated (o_id o1)])"

definition total_refunded :: "order_tables \<Rightarrow> sales_order \<Rightarrow> payment option \<Rightarrow> decimal" where
  "total_refunded T o1 payment =
     (case (case payment of Some p \<Rightarrow> Some p | None \<Rightarrow> get_last_payment (order_payments T o1)) of
        None \<Rightarrow> 0
      | Some p \<Rightarrow> (if p_charge_status p \<in> {PARTIALLY_REFUNDED, FULLY_REFUNDED}
          then sum_list (map tx_amount (filter (\<lambda>x. tx_kind x = REFUND_KIND \<and> tx_is_success x) (p_transactions p)))
          else 0))
     + sum_list (map ti_refunded_value (order_transactions T o1))"

definition order_refunded :: "order_tables \<Rightarrow> sales_order \<Rightarrow> decimal \<Rightarrow> payment option \<Rightarrow> bool \<Rightarrow> order_call list" where
  "order_refunded T o1 amount payment trigger_order_updated =
     (if payment \<noteq> None then [Payment_Refunded_Event (o_id o1) amount] else [])
     @ [Send_Order_Refunded_Confirmation (o_id o1) amount, Order_Refunded (o_id o1)]
     @ (if trigger_order_updated then [Order_Updated (o_id o1)] else [])
     @ (if so_total_gross_amount o1 \<le> total_refunded T o1 payment then [Order_Fully_Refunded (o_id o1)] else [])"

definition order_transaction_updated ::
  "order_tables \<Rightarrow> sales_order \<Rightarrow> transaction_item \<Rightarrow> decimal \<Rightarrow> decimal \<Rightarrow> decimal \<Rightarrow> order_call list" where
  "order_transaction_updated T o1 t previous_authorized_value previous_charged_value previous_refunded_value =
     (let payment = get_last_payment (order_payments T o1);
          order_updated = (ti_authorized_value t \<noteq> previous_authorized_value);
          (order_updated, charged) =
            (if previous_charged_value < ti_charged_value t
             then (False, order_charged T o1 (map_option p_total payment) payment)
             else if ti_charged_value t \<noteq> previous_charged_value then (True, [])
             else (order_updated, []));
          (order_updated, refunded) =
            (if previous_refunded_value < ti_refunded_value t
             then (False, order_refunded T o1 (ti_refunded_value t - previous_refunded_value) None True)
             else (order_updated, []))
      in charged @ refunded @ (if order_updated then [Order_Updated (o_id o1)] else []))"

definition update_order_with_transaction_details :: "payment_env \<Rightarrow> transaction_item \<Rightarrow> pay_state \<Rightarrow> pay_state" where
  "update_order_with_transaction_details pe t s =
     (case ti_order t of None \<Rightarrow> s
      | Some k \<Rightarrow> (case find_row o_id k (orders (ps_tables s)) of None \<Rightarrow> s
         | Some o1 \<Rightarrow> s\<lparr>ps_tables := updates_amounts_for_order (pe_precision pe) o1 (ps_tables s)\<rparr>))"

definition order_changed :: "payment_env \<Rightarrow> transaction_item \<Rightarrow> transaction_item \<Rightarrow> pay_state \<Rightarrow> pay_state" where
  \<comment> \<open>The branch \<open>if transaction_item.order_id\<close> after a recalculation; \<open>t0\<close> has the previous values.\<close>
  "order_changed pe t0 t s =
     (let s = update_order_with_transaction_details pe t s
      in case ti_order t of None \<Rightarrow> s
       | Some k \<Rightarrow> (case find_row o_id k (orders (ps_tables s)) of None \<Rightarrow> s
          | Some o1 \<Rightarrow> add_calls (order_transaction_updated (ps_tables s) o1 t (ti_authorized_value t0)
               (ti_charged_value t0) (ti_refunded_value t0)) s))"

definition checkout_changed :: "payment_env \<Rightarrow> transaction_item \<Rightarrow> pay_state \<Rightarrow> pay_state" where
  "checkout_changed pe t s =
     (case transaction_amounts_for_checkout_updated (pe_refreshed_total pe) (payment_transactions (ps_tables s)) t
             (ps_checkouts s) of
        (cks, became_paid) \<Rightarrow> add_calls (map Checkout_Fully_Paid became_paid) (s\<lparr>ps_checkouts := cks\<rparr>))"

definition order_or_checkout_changed :: "payment_env \<Rightarrow> transaction_item \<Rightarrow> transaction_item \<Rightarrow> pay_state \<Rightarrow> pay_state" where
  "order_or_checkout_changed pe t0 t s = (if ti_order t \<noteq> None then order_changed pe t0 t s else checkout_changed pe t s)"

section \<open>Sessions and answers of webhooks\<close>

definition fail_event ::
  "payment_env \<Rightarrow> transaction_event \<Rightarrow> string \<Rightarrow> pay_state \<Rightarrow> (event_error + transaction_event) \<times> pay_state" where
  "fail_event pe ev cause s =
     (case create_failed_transaction_event pe ev cause (ps_events s) of (r, rows) \<Rightarrow> (r, s\<lparr>ps_events := rows\<rparr>))"

definition set_actions :: "transaction_action list option \<Rightarrow> transaction_item \<Rightarrow> transaction_item" where
  \<comment> \<open>\<open>list(set(...))\<close>: the distinct actions, in an order that Python leaves open.\<close>
  "set_actions as t = (case as of None \<Rightarrow> t | Some as \<Rightarrow> t\<lparr>ti_available_actions := remdups as\<rparr>)"

definition session_types :: "transaction_event_type set" where
  "session_types = {AUTHORIZATION_REQUEST, AUTHORIZATION_SUCCESS, CHARGE_REQUEST, CHARGE_SUCCESS}"

definition finish_session ::
  "payment_env \<Rightarrow> transaction_event \<Rightarrow> transaction_action list option \<Rightarrow> pay_state \<Rightarrow> pay_state" where
  "finish_session pe ev available_actions s =
     (if te_type ev \<in> session_types
      then (case item_of (te_transaction ev) s of None \<Rightarrow> s
        | Some t0 \<Rightarrow>
            (let t = set_actions available_actions (t0\<lparr>ti_psp_reference := te_psp_reference ev\<rparr>);
                 t = recalculate_transaction_amounts (pe_env pe) (ps_events s) t
             in order_or_checkout_changed pe t0 t (save_item t s)))
      else s)"

definition save_request_event ::
  "transaction_event \<Rightarrow> pay_state \<Rightarrow> event_error option \<times> pay_state" where
  "save_request_event ev s = (case update_event ev (ps_events s) of (er, rows) \<Rightarrow> (er, s\<lparr>ps_events := rows\<rparr>))"

definition record_response_event ::
  "payment_env \<Rightarrow> event_response \<Rightarrow> app option \<Rightarrow> transaction_event \<Rightarrow> pay_state
   \<Rightarrow> (event_error + transaction_event option \<times> string option) \<times> pay_state" where
  "record_response_event pe re a request_event s =
     (case create_event_from_response pe re a (te_transaction request_event) (te_currency request_event) (ps_events s) of
        (r, rows) \<Rightarrow> (r, s\<lparr>ps_events := rows\<rparr>))"

definition create_transaction_event_for_transaction_session ::
  "payment_env \<Rightarrow> transaction_event \<Rightarrow> app option \<Rightarrow> response_data option \<Rightarrow> pay_state
   \<Rightarrow> (event_error + transaction_event) \<times> pay_state" where
  "create_transaction_event_for_transaction_session pe request_event a response s =
     (case get_parsed_transaction_action_data pe response session_request False True of
        Inl er \<Rightarrow> (Inl er, s)
      | Inr (None, error_msg) \<Rightarrow> fail_event pe request_event (case error_msg of None \<Rightarrow> [] | Some m \<Rightarrow> m) s
      | Inr (Some rr, error_msg) \<Rightarrow>
          (case rr_event rr of
             None \<Rightarrow> fail_event pe request_event (case error_msg of None \<Rightarrow> [] | Some m \<Rightarrow> m) s
           | Some re \<Rightarrow>
               (if \<not> truthy_text (er_psp_reference re)
                   \<and> er_type re \<notin> {AUTHORIZATION_ACTION_REQUIRED, CHARGE_ACTION_REQUIRED}
                then fail_event pe request_event
                       (''Providing `pspReference` is required for '' @ upper (event_type_text (er_type re))) s
                else if er_type re \<in> {AUTHORIZATION_REQUEST, CHARGE_REQUEST} then
                  (let ev = request_event\<lparr>te_type := er_type re, te_amount_value := er_amount re,
                          te_psp_reference := er_psp_reference re, te_include_in_calculations := True,
                          te_app := map_option app_pk a\<rparr>
                   in case save_request_event ev s of
                        (Some er, s) \<Rightarrow> (Inl er, s)
                      | (None, s) \<Rightarrow> (Inr ev, finish_session pe ev (rr_available_actions rr) s))
                else
                  (case record_response_event pe re a request_event s of
                     (Inl er, s) \<Rightarrow> (Inl er, s)
                   | (Inr (None, msg), s) \<Rightarrow> fail_event pe request_event (case msg of None \<Rightarrow> [] | Some m \<Rightarrow> m) s
                   | (Inr (Some ev, _), s) \<Rightarrow>
                       (case save_request_event (request_event\<lparr>te_psp_reference := te_psp_reference ev\<rparr>) s of
                          (Some er, s) \<Rightarrow> (Inl er, s)
                        | (None, s) \<Rightarrow> (Inr ev, finish_session pe ev (rr_available_actions rr) s))))))"

definition finish_answer ::
  "payment_env \<Rightarrow> pk \<Rightarrow> transaction_action list option \<Rightarrow> pay_state \<Rightarrow> pay_state" where
  "finish_answer pe k available_actions s =
     (case item_of k s of None \<Rightarrow> s
      | Some t0 \<Rightarrow>
          (let t = set_actions available_actions (recalculate_transaction_amounts (pe_env pe) (ps_events s) t0)
           in order_or_checkout_changed pe t0 t (save_item t s)))"

definition create_transaction_event_from_request_and_webhook_response ::
  "payment_env \<Rightarrow> transaction_event \<Rightarrow> app option \<Rightarrow> response_data option \<Rightarrow> pay_state
   \<Rightarrow> (event_error + transaction_event option) \<times> pay_state" where
  "create_transaction_event_from_request_and_webhook_response pe request_event a response s =
     (case get_parsed_transaction_action_data pe response (event_type_text (te_type request_event)) True False of
        Inl er \<Rightarrow> (Inl er, s)
      | Inr (None, error_msg) \<Rightarrow>
          apfst (map_sum id Some) (fail_event pe request_event (case error_msg of None \<Rightarrow> [] | Some m \<Rightarrow> m) s)
      | Inr (Some rr, _) \<Rightarrow>
          (let request_event = request_event\<lparr>te_psp_reference := rr_psp_reference rr\<rparr>
           in case save_request_event request_event s of
                (Some er, s) \<Rightarrow> (Inl er, s)
              | (None, s) \<Rightarrow>
                  (case rr_event rr of
                     None \<Rightarrow> (Inr None, finish_answer pe (te_transaction request_event) (rr_available_actions rr) s)
                   | Some re \<Rightarrow>
                       (case record_response_event pe re a request_event s of
                          (Inl er, s) \<Rightarrow> (Inl er, s)
                        | (Inr (ev, error_msg), s) \<Rightarrow>
                            (if truthy_text error_msg
                             then apfst (map_sum id Some) (fail_event pe request_event (the error_msg) s)
                             else (Inr ev, finish_answer pe (te_transaction request_event) (rr_available_actions rr) s))))))"

section \<open>Creating transactions and their sessions\<close>

datatype source_object = Source_Checkout pk string | Source_Order pk string   \<comment> \<open>with the currency\<close>

fun source_currency :: "source_object \<Rightarrow> string" where
  "source_currency (Source_Checkout k c) = c" | "source_currency (Source_Order k c) = c"

definition next_item_pk :: "pay_state \<Rightarrow> pk" where
  "next_item_pk s = Suc (fold max (map ti_pk (payment_transactions (ps_tables s))) 0)"

definition new_item ::
  "pk \<Rightarrow> source_object \<Rightarrow> pk option \<Rightarrow> app option \<Rightarrow> string option \<Rightarrow> transaction_action list option \<Rightarrow> string
   \<Rightarrow> transaction_item" where
  "new_item k source user a psp_reference available_actions nm = \<lparr>ti_pk = k, ti_name = Some nm,
     ti_checkout = (case source of Source_Checkout c _ \<Rightarrow> Some c | Source_Order _ _ \<Rightarrow> None),
     ti_order = (case source of Source_Order i _ \<Rightarrow> Some i | Source_Checkout _ _ \<Rightarrow> None),
     ti_user = user, ti_app = map_option app_pk a,
     ti_app_identifier = (case a of None \<Rightarrow> None | Some x \<Rightarrow> app_identifier x),
     ti_psp_reference = psp_reference, ti_message = Some [],
     ti_available_actions = (case available_actions of None \<Rightarrow> [] | Some as \<Rightarrow> as),
     ti_currency = source_currency source, ti_authorized_value = 0, ti_charged_value = 0, ti_refunded_value = 0,
     ti_canceled_value = 0, ti_authorize_pending_value = 0, ti_charge_pending_value = 0,
     ti_refund_pending_value = 0, ti_cancel_pending_value = 0\<rparr>"

definition create_transaction_item ::
  "source_object \<Rightarrow> pk option \<Rightarrow> app option \<Rightarrow> string option \<Rightarrow> transaction_action list option \<Rightarrow> string \<Rightarrow> pay_state
   \<Rightarrow> transaction_item \<times> pay_state" where
  "create_transaction_item source user a psp_reference available_actions nm s =
     (let t = new_item (next_item_pk s) source user a psp_reference available_actions nm
      in (t, s\<lparr>ps_tables := (ps_tables s)\<lparr>payment_transactions := payment_transactions (ps_tables s) @ [t]\<rparr>\<rparr>))"

definition request_event :: "payment_env \<Rightarrow> transaction_item \<Rightarrow> transaction_event_type \<Rightarrow> decimal \<Rightarrow> pk option \<Rightarrow> app option
   \<Rightarrow> transaction_event" where
  \<comment> \<open>\<open>transaction_item.events.create(...)\<close>: the defaults of the other columns\<close>
  "request_event pe t ty amount user a = \<lparr>te_pk = 0, te_transaction = ti_pk t, te_created_at = now (pe_env pe),
     te_psp_reference = None, te_message = Some [], te_type = ty, te_amount_value = amount,
     te_currency = ti_currency t, te_external_url = None, te_user = user, te_app = map_option app_pk a,
     te_app_identifier = (case a of None \<Rightarrow> None | Some x \<Rightarrow> app_identifier x),
     te_include_in_calculations = False\<rparr>"

definition add_event :: "transaction_event \<Rightarrow> pay_state \<Rightarrow> (event_error + transaction_event) \<times> pay_state" where
  "add_event ev s = (case insert_event ev (ps_events s) of (r, rows) \<Rightarrow> (r, s\<lparr>ps_events := rows\<rparr>))"

datatype transaction_flow_strategy = FLOW_AUTHORIZATION | FLOW_CHARGE

definition handle_transaction_initialize_session ::
  "payment_env \<Rightarrow> source_object \<Rightarrow> decimal \<Rightarrow> transaction_flow_strategy \<Rightarrow> app \<Rightarrow> (transaction_event \<Rightarrow> response_data option) \<Rightarrow> pay_state
   \<Rightarrow> (event_error + transaction_event) \<times> pay_state" where
  \<comment> \<open>\<open>transaction_initialize_session\<close> is the answer of the plugins.\<close>
  "handle_transaction_initialize_session pe source amount action a transaction_initialize_session s =
     (case create_transaction_item source None (Some a) None None [] s of (t, s) \<Rightarrow>
       (case add_event (request_event pe t (if action = FLOW_CHARGE then CHARGE_REQUEST else AUTHORIZATION_REQUEST) amount None None) s of
          (Inl er, s) \<Rightarrow> (Inl er, s)
        | (Inr ev, s) \<Rightarrow>
            create_transaction_event_for_transaction_session pe ev (Some a) (transaction_initialize_session ev) s))"

definition handle_transaction_process_session ::
  "payment_env \<Rightarrow> app \<Rightarrow> (transaction_event \<Rightarrow> response_data option) \<Rightarrow> transaction_event \<Rightarrow> pay_state
   \<Rightarrow> (event_error + transaction_event) \<times> pay_state" where
  "handle_transaction_process_session pe a transaction_process_session ev s =
     create_transaction_event_for_transaction_session pe ev (Some a) (transaction_process_session ev) s"

datatype process_error = No_Initialize | Nothing_Attached | No_Payment_App | Process_Event_Error event_error

definition events_of_item :: "transaction_item \<Rightarrow> pay_state \<Rightarrow> transaction_event list" where
  "events_of_item t s = sort_key te_pk (filter (\<lambda>ev. te_transaction ev = ti_pk t) (ps_events s))"

definition get_already_processed_event :: "transaction_event list \<Rightarrow> transaction_event option" where
  "get_already_processed_event evs =
     find (\<lambda>ev. te_type ev \<in> set get_final_session_statuses \<and> te_include_in_calculations ev) evs"

definition get_request_event :: "transaction_event list \<Rightarrow> transaction_event option" where
  "get_request_event evs =
     find (\<lambda>ev. te_type ev \<in> {AUTHORIZATION_REQUEST, CHARGE_REQUEST} \<and> \<not> te_include_in_calculations ev) evs"

definition clean_payment_app :: "app list \<Rightarrow> transaction_item \<Rightarrow> app option" where
  "clean_payment_app apps t =
     (if \<not> truthy_text (ti_app_identifier t) then None
      else find (\<lambda>a. app_identifier a = ti_app_identifier t) (sort_key app_pk apps))"

definition transaction_process ::
  "payment_env \<Rightarrow> app list \<Rightarrow> transaction_item \<Rightarrow> (transaction_event \<Rightarrow> response_data option) \<Rightarrow> pay_state
   \<Rightarrow> (process_error + transaction_event) \<times> pay_state" where
  \<comment> \<open>\<open>TransactionProcess.perform_mutation\<close>\<close>
  "transaction_process pe apps t plugin s =
     (case get_already_processed_event (events_of_item t s) of
        Some processed_event \<Rightarrow> (Inr processed_event, s)
      | None \<Rightarrow>
          (case get_request_event (events_of_item t s) of None \<Rightarrow> (Inl No_Initialize, s)
           | Some ev \<Rightarrow>
               (if ti_checkout t = None \<and> ti_order t = None then (Inl Nothing_Attached, s)
                else case clean_payment_app apps t of None \<Rightarrow> (Inl No_Payment_App, s)
                  | Some a \<Rightarrow> apfst (map_sum Process_Event_Error id)
                      (handle_transaction_process_session pe a plugin ev s))))"

section \<open>\<open>transactionEventReport\<close>\<close>

record report_input =
  ri_psp_reference :: string
  ri_type :: transaction_event_type
  ri_amount :: decimal   \<comment> \<open>\<open>PositiveDecimal\<close>: not negative\<close>
  ri_time :: "time option"
  ri_external_url :: "string option"
  ri_message :: "string option"
  ri_available_actions :: "transaction_action list option"

datatype report_error = Permission_Denied | Invalid_Event | Incorrect_Details | Already_Exists | Database_Error event_error

definition truthy_pk :: "pk option \<Rightarrow> bool" where
  "truthy_pk k \<longleftrightarrow> k \<noteq> None \<and> k \<noteq> Some 0"

definition check_if_requestor_has_access :: "transaction_item \<Rightarrow> pk option \<Rightarrow> app option \<Rightarrow> bool" where
  "check_if_requestor_has_access t user a =
     (if \<not> truthy_pk (ti_user t) \<and> \<not> truthy_text (ti_app_identifier t) \<and> \<not> truthy_pk (ti_app t) then True
      else if user \<noteq> None \<and> truthy_pk (ti_user t) then True
      else case a of None \<Rightarrow> False
        | Some x \<Rightarrow> ti_app t = Some (app_pk x)
            \<or> truthy_text (ti_app_identifier t) \<and> ti_app_identifier t = app_identifier x)"

definition reported_event :: "payment_env \<Rightarrow> report_input \<Rightarrow> transaction_item \<Rightarrow> pk option \<Rightarrow> app option \<Rightarrow> transaction_event" where
  "reported_event pe r t user a = \<lparr>te_pk = 0, te_transaction = ti_pk t,
     te_created_at = (case ri_time r of Some tm \<Rightarrow> tm | None \<Rightarrow> now (pe_env pe)),
     te_psp_reference = Some (ri_psp_reference r), te_message = Some (case ri_message r of None \<Rightarrow> [] | Some m \<Rightarrow> m),
     te_type = ri_type r, te_amount_value = ri_amount r, te_currency = ti_currency t,
     te_external_url = Some (case ri_external_url r of None \<Rightarrow> [] | Some u \<Rightarrow> u), te_user = user,
     te_app = map_option app_pk a, te_app_identifier = app_identifier_of a, te_include_in_calculations = True\<rparr>"

definition clean_event :: "payment_env \<Rightarrow> transaction_event \<Rightarrow> bool" where
  \<comment> \<open>\<open>full_clean\<close>: the lengths of the columns and the validator of the URL\<close>
  "clean_event pe ev \<longleftrightarrow> event_fits ev
     \<and> (truthy_text (te_external_url ev) \<longrightarrow> pe_valid_url pe (the (te_external_url ev)))"

definition assign_app :: "app option \<Rightarrow> transaction_item \<Rightarrow> transaction_item" where
  "assign_app a t =
     (case a of None \<Rightarrow> t
      | Some x \<Rightarrow> (if \<not> truthy_pk (ti_user t) \<and> \<not> (truthy_pk (ti_app t) \<or> truthy_text (ti_app_identifier t))
          then t\<lparr>ti_app := Some (app_pk x), ti_app_identifier := app_identifier x\<rparr> else t))"

definition update_reported_transaction ::
  "payment_env \<Rightarrow> transaction_event \<Rightarrow> transaction_action list option \<Rightarrow> app option \<Rightarrow> transaction_item \<Rightarrow> pay_state
   \<Rightarrow> transaction_item \<times> pay_state" where
  \<comment> \<open>\<open>TransactionEventReport.update_transaction\<close>\<close>
  "update_reported_transaction pe ev available_actions a t s =
     (let t = (if te_type ev \<in> session_types \<and> \<not> truthy_text (ti_psp_reference t)
               then t\<lparr>ti_psp_reference := te_psp_reference ev\<rparr> else t);
          t = set_actions available_actions t;
          t = recalculate_transaction_amounts (pe_env pe) (ps_events s) t;
          t = assign_app a t
      in (t, save_item t s))"

definition reported_order_and_checkout ::
  "payment_env \<Rightarrow> transaction_item \<Rightarrow> transaction_item \<Rightarrow> pay_state \<Rightarrow> pay_state" where
  "reported_order_and_checkout pe t0 t s =
     (let s = (if ti_order t \<noteq> None then order_changed pe t0 t s else s)
      in if ti_checkout t \<noteq> None then checkout_changed pe t s else s)"

definition transaction_event_report ::
  "payment_env \<Rightarrow> report_input \<Rightarrow> pk option \<Rightarrow> app option \<Rightarrow> transaction_item \<Rightarrow> pay_state
   \<Rightarrow> (report_error + bool \<times> transaction_item \<times> transaction_event) \<times> pay_state" where
  \<comment> \<open>\<open>TransactionEventReport.perform_mutation\<close>, after the transaction was found by its id\<close>
  "transaction_event_report pe r user a t s =
     (if \<not> check_if_requestor_has_access t user a then (Inl Permission_Denied, s)
      else let ev = reported_event pe r t user a;
               reject = (\<lambda>er cause. case fail_event pe ev cause s of
                   (Inl e, s) \<Rightarrow> (Inl (Database_Error e), s) | (Inr _, s) \<Rightarrow> (Inl er, s))
           in if \<not> clean_event pe ev then (Inl Invalid_Event, s)
              else case get_already_existing_event ev (ps_events s) of
                Some existing \<Rightarrow>
                  (if amounts_differ existing ev then reject Incorrect_Details different_amount_msg
                   else case ri_available_actions r of
                       None \<Rightarrow> (Inr (True, t, existing), s)
                     | Some as \<Rightarrow>
                         (if set (ti_available_actions t) \<noteq> set as
                          then let t = set_actions (Some as) t in (Inr (True, t, existing), save_item t s)
                          else (Inr (True, t, existing), s)))
              | None \<Rightarrow>
                  (if te_type ev = AUTHORIZATION_SUCCESS \<and> authorization_success_already_exists (ti_pk t) (ps_events s)
                   then reject Already_Exists already_reported_msg
                   else case add_event ev s of
                       (Inl e, s) \<Rightarrow> (Inl (Database_Error e), s)
                     | (Inr ev, s) \<Rightarrow>
                         (case update_reported_transaction pe ev (ri_available_actions r) a t s of
                            (t', s) \<Rightarrow> (Inr (False, t', ev), reported_order_and_checkout pe t t' s))))"

section \<open>Requested actions\<close>

datatype action_error = No_Handler | Request_Event_Error event_error

fun action_request_type :: "transaction_action \<Rightarrow> transaction_event_type" where
  "action_request_type CANCEL = CANCEL_REQUEST"
| "action_request_type CHARGE = CHARGE_REQUEST"
| "action_request_type REFUND = REFUND_REQUEST"

definition create_transaction_event_requested ::
  "payment_env \<Rightarrow> transaction_item \<Rightarrow> decimal \<Rightarrow> transaction_action \<Rightarrow> pk option \<Rightarrow> app option \<Rightarrow> pay_state
   \<Rightarrow> (event_error + transaction_event) \<times> pay_state" where
  "create_transaction_event_requested pe t action_value action user a s =
     add_event (request_event pe t (action_request_type action) action_value user a) s"

definition no_handler_msg :: string where
  "no_handler_msg = ''No app or plugin is configured to handle payment action requests.''"

definition request_payment_action ::
  "payment_env \<Rightarrow> bool \<Rightarrow> transaction_event \<Rightarrow> order_call \<Rightarrow> pay_state \<Rightarrow> (action_error + unit) \<times> pay_state" where
  \<comment> \<open>\<open>handled\<close>: a plugin has the event active, or the app of the transaction a webhook for it.\<close>
  "request_payment_action pe handled ev requested s =
     (if \<not> handled
      then (case fail_event pe ev no_handler_msg s of
          (Inl e, s) \<Rightarrow> (Inl (Request_Event_Error e), s) | (Inr _, s) \<Rightarrow> (Inl No_Handler, s))
      else (Inr (), add_calls [requested] s))"

definition reference_of :: "transaction_item \<Rightarrow> string" where
  "reference_of t = (case ti_psp_reference t of None \<Rightarrow> [] | Some r \<Rightarrow> r)"

definition request_with_event ::
  "payment_env \<Rightarrow> bool \<Rightarrow> transaction_action \<Rightarrow> decimal \<Rightarrow> transaction_event \<Rightarrow> transaction_item
   \<Rightarrow> (pk \<Rightarrow> order_call) \<Rightarrow> pay_state \<Rightarrow> (action_error + unit) \<times> pay_state" where
  "request_with_event pe handled action v ev t order_event s =
     (case request_payment_action pe handled ev (Transaction_Action_Requested action (ti_pk t) v (te_pk ev)) s of
        (Inl e, s) \<Rightarrow> (Inl e, s)
      | (Inr _, s) \<Rightarrow> (Inr (), case ti_order t of None \<Rightarrow> s | Some k \<Rightarrow> add_calls [order_event k] s))"

definition request_charge_action ::
  "payment_env \<Rightarrow> bool \<Rightarrow> transaction_item \<Rightarrow> decimal option \<Rightarrow> transaction_event \<Rightarrow> pay_state \<Rightarrow> (action_error + unit) \<times> pay_state" where
  "request_charge_action pe handled t charge_value ev s =
     (let v = (case charge_value of None \<Rightarrow> ti_authorized_value t | Some v \<Rightarrow> v)
      in request_with_event pe handled CHARGE v ev t (\<lambda>k. Transaction_Charge_Requested_Event k (reference_of t)
           (quantize_price (pe_precision pe) v (ti_currency t))) s)"

definition request_refund_action ::
  "payment_env \<Rightarrow> bool \<Rightarrow> transaction_item \<Rightarrow> decimal option \<Rightarrow> transaction_event \<Rightarrow> pay_state \<Rightarrow> (action_error + unit) \<times> pay_state" where
  "request_refund_action pe handled t refund_value ev s =
     (let v = (case refund_value of None \<Rightarrow> ti_charged_value t | Some v \<Rightarrow> v)
      in request_with_event pe handled REFUND v ev t (\<lambda>k. Transaction_Refund_Requested_Event k (reference_of t)
           (quantize_price (pe_precision pe) v (ti_currency t))) s)"

definition request_cancelation_action ::
  "payment_env \<Rightarrow> bool \<Rightarrow> transaction_item \<Rightarrow> decimal option \<Rightarrow> transaction_event \<Rightarrow> pay_state \<Rightarrow> (action_error + unit) \<times> pay_state" where
  \<comment> \<open>The amount of the action is passed on as it is; no amount is 0 in the recorded call.\<close>
  "request_cancelation_action pe handled t cancel_value ev s =
     request_with_event pe handled CANCEL (case cancel_value of None \<Rightarrow> 0 | Some v \<Rightarrow> v) ev t
       (\<lambda>k. Transaction_Cancel_Requested_Event k (reference_of t)) s"

definition action_amount :: "decimal option \<Rightarrow> decimal \<Rightarrow> decimal" where
  \<comment> \<open>\<open>action_value or available\<close>, at most what is available\<close>
  "action_amount action_value available =
     min (if action_value = None \<or> action_value = Some 0 then available else the action_value) available"

definition handle_transaction_action ::
  "payment_env \<Rightarrow> bool \<Rightarrow> transaction_action \<Rightarrow> decimal option \<Rightarrow> transaction_item \<Rightarrow> pk option \<Rightarrow> app option \<Rightarrow> pay_state
   \<Rightarrow> (action_error + unit) \<times> pay_state" where
  "handle_transaction_action pe handled action action_value t user a s =
     (let requested = (\<lambda>v act.
            case create_transaction_event_requested pe t v action user a s of
              (Inl e, s) \<Rightarrow> (Inl (Request_Event_Error e), s)
            | (Inr ev, s) \<Rightarrow> act ev s)
      in case action of
           CANCEL \<Rightarrow> requested 0 (request_cancelation_action pe handled t action_value)
         | CHARGE \<Rightarrow> (let v = action_amount action_value (ti_authorized_value t)
             in requested v (request_charge_action pe handled t (Some v)))
         | REFUND \<Rightarrow> (let v = action_amount action_value (ti_charged_value t)
             in requested v (request_refund_action pe handled t (Some v))))"

definition request_refund_for_granted_refund ::
  "payment_env \<Rightarrow> bool \<Rightarrow> granted_refund \<Rightarrow> transaction_item \<Rightarrow> pay_state \<Rightarrow> (action_error + unit) \<times> pay_state" where
  \<comment> \<open>\<open>TransactionRequestRefundForGrantedRefund.perform_mutation\<close>, for a refund granted on the order of the transaction\<close>
  "request_refund_for_granted_refund pe handled g t s =
     (let v = action_amount (Some (gr_amount g)) (ti_charged_value t)
      in case add_event (request_event pe t REFUND_REQUEST v None None) s of
           (Inl e, s) \<Rightarrow> (Inl (Request_Event_Error e), s)
         | (Inr ev, s) \<Rightarrow> request_refund_action pe handled t (Some v) ev s)"

section \<open>\<open>transactionCreate\<close> and \<open>transactionUpdate\<close>\<close>

text \<open>The fields of the input: \<open>None\<close> is an absent key, \<open>Some None\<close> an explicit null.\<close>

record transaction_input =
  tin_name :: "string option option"
  tin_message :: "string option option"
  tin_psp_reference :: "string option option"
  tin_available_actions :: "transaction_action list option option"
  tin_amount_authorized :: "(decimal \<times> string) option"
  tin_amount_charged :: "(decimal \<times> string) option"
  tin_amount_refunded :: "(decimal \<times> string) option"
  tin_amount_canceled :: "(decimal \<times> string) option"

definition get_money_data_from_input :: "transaction_input \<Rightarrow> money_data" where
  "get_money_data_from_input i = \<lparr>md_authorized_value = map_option fst (tin_amount_authorized i),
     md_charged_value = map_option fst (tin_amount_charged i),
     md_refunded_value = map_option fst (tin_amount_refunded i),
     md_canceled_value = map_option fst (tin_amount_canceled i)\<rparr>"

definition no_money_data :: "money_data \<Rightarrow> bool" where
  "no_money_data m \<longleftrightarrow> md_authorized_value m = None \<and> md_charged_value m = None
     \<and> md_refunded_value m = None \<and> md_canceled_value m = None"

definition validate_money_input :: "transaction_input \<Rightarrow> string \<Rightarrow> amount_field list" where
  \<comment> \<open>The amounts in another currency, each of which is an error.\<close>
  "validate_money_input i currency =
     List.map_filter (\<lambda>(f, v). case v of None \<Rightarrow> None | Some (_, c) \<Rightarrow> if c \<noteq> currency then Some f else None)
       [(Authorized_Value, tin_amount_authorized i), (Charged_Value, tin_amount_charged i),
        (Refunded_Value, tin_amount_refunded i), (Canceled_Value, tin_amount_canceled i)]"

datatype transaction_error =
    Transaction_Access | Incorrect_Currency "amount_field list" | Unique_Psp_Reference | Transaction_Event_Error event_error
  | Null_Actions_Type_Error    \<comment> \<open>the \<open>TypeError\<close> of \<open>set(None)\<close>\<close>

definition set_field :: "'v option \<Rightarrow> 'v \<Rightarrow> 'v" where
  "set_field given old = (case given of None \<Rightarrow> old | Some v \<Rightarrow> v)"

definition construct_instance :: "transaction_input \<Rightarrow> transaction_item \<Rightarrow> transaction_item" where
  \<comment> \<open>The list of actions has no null; its default is the empty list.\<close>
  "construct_instance i t = t\<lparr>ti_name := set_field (tin_name i) (ti_name t),
     ti_message := set_field (tin_message i) (ti_message t),
     ti_psp_reference := set_field (tin_psp_reference i) (ti_psp_reference t),
     ti_available_actions := (case tin_available_actions i of None \<Rightarrow> ti_available_actions t
        | Some None \<Rightarrow> [] | Some (Some as) \<Rightarrow> remdups as)\<rparr>"

definition update_transaction ::
  "payment_env \<Rightarrow> transaction_input \<Rightarrow> money_data \<Rightarrow> pk option \<Rightarrow> app option \<Rightarrow> transaction_item \<Rightarrow> pay_state
   \<Rightarrow> (transaction_error + transaction_item) \<times> pay_state" where
  "update_transaction pe i m user a t s =
     (let given = (case tin_psp_reference i of None \<Rightarrow> None | Some r \<Rightarrow> r)
      in if truthy_text given \<and> ti_psp_reference t \<noteq> given
            \<and> list_ex (\<lambda>x. ti_psp_reference x = given) (payment_transactions (ps_tables s))
         then (Inl Unique_Psp_Reference, s)
         else let t = construct_instance i t; s = save_item t s
           in if no_money_data m then (Inr t, s)
              else let t = calculate_transaction_amount_based_on_events (pe_env pe) (ps_events s) t
                in case create_manual_adjustment_events pe t m user a (ps_events s) of
                     (Some e, rows) \<Rightarrow> (Inl (Transaction_Event_Error e), s\<lparr>ps_events := rows\<rparr>)
                   | (None, rows) \<Rightarrow>
                       (let s = s\<lparr>ps_events := rows\<rparr>; t = recalculate_transaction_amounts (pe_env pe) rows t
                        in (Inr t, save_item t s)))"

definition update_order :: "payment_env \<Rightarrow> bool \<Rightarrow> sales_order \<Rightarrow> money_data \<Rightarrow> pay_state \<Rightarrow> sales_order \<times> pay_state" where
  \<comment> \<open>\<open>auto_confirm\<close>: \<open>order.channel.automatically_confirm_all_new_orders\<close>\<close>
  "update_order pe auto_confirm o1 m s =
     (let o1 = (if no_money_data m then o1 else updated_amounts (pe_precision pe) (ps_tables s) o1);
          o1 = (if auto_confirm \<and> o_status o1 = UNCONFIRMED then o1\<lparr>o_status := UNFULFILLED\<rparr> else o1)
      in (o1, s\<lparr>ps_tables := save_order o1 (ps_tables s)\<rparr>))"

definition transaction_order_changed ::
  "payment_env \<Rightarrow> bool \<Rightarrow> money_data \<Rightarrow> transaction_item \<Rightarrow> transaction_item \<Rightarrow> pay_state \<Rightarrow> pay_state" where
  "transaction_order_changed pe auto_confirm m t0 t s =
     (case ti_order t of None \<Rightarrow> s
      | Some k \<Rightarrow> (case find_row o_id k (orders (ps_tables s)) of None \<Rightarrow> s
         | Some o1 \<Rightarrow> (case update_order pe auto_confirm o1 m s of
             (o1, s) \<Rightarrow> add_calls (order_transaction_updated (ps_tables s) o1 t (ti_authorized_value t0)
                (ti_charged_value t0) (ti_refunded_value t0)) s)))"

record event_input =   \<comment> \<open>\<open>TransactionEventInput\<close>; an absent message is the empty text\<close>
  ein_psp_reference :: "string option"
  ein_message :: string

definition input_event :: "payment_env \<Rightarrow> event_input \<Rightarrow> transaction_item \<Rightarrow> pk option \<Rightarrow> app option \<Rightarrow> transaction_event" where
  "input_event pe x t user a = (request_event pe t INFO 0 user a)\<lparr>te_psp_reference := ein_psp_reference x,
     te_message := Some (ein_message x), te_app_identifier := app_identifier_of a\<rparr>"

definition create_transaction_event ::
  "payment_env \<Rightarrow> event_input option \<Rightarrow> transaction_item \<Rightarrow> pk option \<Rightarrow> app option \<Rightarrow> pay_state
   \<Rightarrow> event_error option \<times> pay_state" where
  \<comment> \<open>\<open>if transaction_event: create_transaction_event(...)\<close>\<close>
  "create_transaction_event pe x t user a s =
     (case x of None \<Rightarrow> (None, s)
      | Some x \<Rightarrow> (case add_event (input_event pe x t user a) s of
          (Inl e, s) \<Rightarrow> (Some e, s) | (Inr _, s) \<Rightarrow> (None, s)))"

definition order_transaction_event :: "event_input option \<Rightarrow> pk option \<Rightarrow> pay_state \<Rightarrow> pay_state" where
  "order_transaction_event x order s =
     (case (x, order) of
        (Some x, Some k) \<Rightarrow> add_calls [Order_Transaction_Event k (ein_psp_reference x) (ein_message x)] s
      | _ \<Rightarrow> s)"

definition transaction_update ::
  "payment_env \<Rightarrow> bool \<Rightarrow> transaction_input option \<Rightarrow> event_input option \<Rightarrow> pk option \<Rightarrow> app option \<Rightarrow> transaction_item
   \<Rightarrow> pay_state \<Rightarrow> (transaction_error + transaction_item) \<times> pay_state" where
  \<comment> \<open>\<open>TransactionUpdate.perform_mutation\<close>\<close>
  "transaction_update pe auto_confirm input x user a t s =
     (if \<not> check_if_requestor_has_access t user a then (Inl Transaction_Access, s)
      else let m = (case input of None \<Rightarrow> \<lparr>md_authorized_value = None, md_charged_value = None, md_refunded_value = None,
                        md_canceled_value = None\<rparr> | Some i \<Rightarrow> get_money_data_from_input i);
               updated = (case input of None \<Rightarrow> (Inr t, s)
                  | Some i \<Rightarrow> (if validate_money_input i (ti_currency t) \<noteq> []
                      then (Inl (Incorrect_Currency (validate_money_input i (ti_currency t))), s)
                      else update_transaction pe i m user a (assign_app a t) s))
        in case updated of
             (Inl e, s) \<Rightarrow> (Inl e, s)
           | (Inr t', s) \<Rightarrow>
               (case create_transaction_event pe x t' user a s of
                  (Some e, s) \<Rightarrow> (Inl (Transaction_Event_Error e), s)
                | (None, s) \<Rightarrow>
                    (let s = order_transaction_event x (ti_order t') s;
                         s = transaction_order_changed pe auto_confirm m t t' s
                     in (Inr t', if ti_checkout t' \<noteq> None \<and> \<not> no_money_data m then checkout_changed pe t' s else s))))"

definition input_item :: "transaction_input \<Rightarrow> pk \<Rightarrow> source_object \<Rightarrow> pk option \<Rightarrow> app option \<Rightarrow> transaction_item" where
  \<comment> \<open>\<open>TransactionItem(**transaction_input, ...)\<close>\<close>
  "input_item i k source user a =
     (construct_instance i (new_item k source user a None None []))\<lparr>ti_app_identifier := app_identifier_of a\<rparr>"

definition transaction_create ::
  "payment_env \<Rightarrow> bool \<Rightarrow> transaction_input \<Rightarrow> event_input option \<Rightarrow> source_object \<Rightarrow> pk option \<Rightarrow> app option \<Rightarrow> pay_state
   \<Rightarrow> (transaction_error + transaction_item) \<times> pay_state" where
  \<comment> \<open>\<open>TransactionCreate.perform_mutation\<close>\<close>
  "transaction_create pe auto_confirm i x source user a s =
     (if validate_money_input i (source_currency source) \<noteq> []
      then (Inl (Incorrect_Currency (validate_money_input i (source_currency source))), s)
      else let m = get_money_data_from_input i; t = input_item i (next_item_pk s) source user a;
               s = order_transaction_event x (ti_order t) s
        in if tin_available_actions i = Some None then (Inl Null_Actions_Type_Error, s)
           else let s = s\<lparr>ps_tables := (ps_tables s)\<lparr>payment_transactions := payment_transactions (ps_tables s) @ [t]\<rparr>\<rparr>;
               finish = (\<lambda>t s. case create_transaction_event pe x t user a s of
                  (Some e, s) \<Rightarrow> (Inl (Transaction_Event_Error e), s) | (None, s) \<Rightarrow> (Inr t, s))
        in if no_money_data m then finish t s
           else case create_manual_adjustment_events pe t m user a (ps_events s) of
             (Some e, rows) \<Rightarrow> (Inl (Transaction_Event_Error e), s\<lparr>ps_events := rows\<rparr>)
           | (None, rows) \<Rightarrow>
               (let t' = recalculate_transaction_amounts (pe_env pe) rows t;
                    s = save_item t' (s\<lparr>ps_events := rows\<rparr>);
                    s = transaction_order_changed pe auto_confirm m t t' s;
                    s = (if ti_checkout t' \<noteq> None then checkout_changed pe t' s else s)
                in finish t' s))"

definition create_transaction_for_order ::
  "payment_env \<Rightarrow> source_object \<Rightarrow> pk option \<Rightarrow> app option \<Rightarrow> string option \<Rightarrow> decimal \<Rightarrow> transaction_action list option \<Rightarrow> string
   \<Rightarrow> pay_state \<Rightarrow> (event_error + transaction_item) \<times> pay_state" where
  "create_transaction_for_order pe source user a psp_reference charged_value available_actions nm s =
     (case create_transaction_item source user a psp_reference available_actions nm s of (t, s) \<Rightarrow>
       (case create_manual_adjustment_events pe t \<lparr>md_authorized_value = None, md_charged_value = Some charged_value,
               md_refunded_value = None, md_canceled_value = None\<rparr> user a (ps_events s) of
          (Some e, rows) \<Rightarrow> (Inl e, s\<lparr>ps_events := rows\<rparr>)
        | (None, rows) \<Rightarrow>
            (let t = recalculate_transaction_amounts (pe_env pe) rows t in (Inr t, save_item t (s\<lparr>ps_events := rows\<rparr>)))))"

end
