(* ===== verification/Transaction_Log.thy ===== *)
theory Transaction_Log
  imports Transaction_Handlers
begin

text \<open>
  What every sequence of the handlers keeps of the event log of transactions.  A predicate on the log that survives the
  four ways in which the handlers write it (an event that does not count, an event that was not recorded
  before, a manual event, a request that is completed) survives every handler: that is the locale
  \<open>log_invariant\<close>, interpreted for the two invariants of the code.
\<close>

section \<open>Ways of writing the log\<close>

definition quiet :: "transaction_event \<Rightarrow> bool" where
  \<comment> \<open>failed events and new requests\<close>
  "quiet ev \<longleftrightarrow> \<not> te_include_in_calculations ev \<and> te_type ev \<noteq> AUTHORIZATION_SUCCESS"

definition request_types :: "transaction_event_type set" where
  "request_types = {AUTHORIZATION_REQUEST, CHARGE_REQUEST, REFUND_REQUEST, CANCEL_REQUEST}"

definition appended :: "transaction_event \<Rightarrow> event_rows \<Rightarrow> event_rows" where
  "appended ev rows = rows @ [ev\<lparr>te_pk := next_event_pk rows\<rparr>]"

definition replaced :: "transaction_event \<Rightarrow> event_rows \<Rightarrow> event_rows" where
  "replaced ev rows = map (\<lambda>r. if te_pk r = te_pk ev then ev else r) rows"

definition second_authorization :: "transaction_event \<Rightarrow> event_rows \<Rightarrow> bool" where
  "second_authorization ev rows \<longleftrightarrow>
     te_type ev = AUTHORIZATION_SUCCESS \<and> authorization_success_already_exists (te_transaction ev) rows"

text \<open>How the operations of \<open>Transaction_Events\<close> write.\<close>

lemma insert_event_appends: "insert_event ev rows = (r, rows') \<Longrightarrow> rows' = rows \<or> rows' = appended ev rows"
  by (auto simp: insert_event_def appended_def Let_def split: if_splits)

lemma update_event_replaces: "update_event ev rows = (er, rows') \<Longrightarrow> rows' = rows \<or> rows' = replaced ev rows"
  by (auto simp: update_event_def replaced_def split: if_splits)

lemma failed_event_quiet: "quiet (failed_event pe ev cause)"
  by (simp add: quiet_def failed_event_def get_failed_type_based_on_event_def
      get_failed_transaction_event_type_for_request_event_def)

lemma request_event_quiet: "ty \<noteq> AUTHORIZATION_SUCCESS \<Longrightarrow> quiet (request_event pe t ty v u a)"
  by (simp add: quiet_def request_event_def)

lemma get_already_existing_event_in:
  assumes "get_already_existing_event ev rows = Some r"
  shows "r \<in> set rows" "same_event ev r" "\<not> only_recorded (te_type ev)"
  using assms by (auto simp: get_already_existing_event_def dest!: find_SomeD split: if_splits)

lemma get_already_existing_event_none:
  assumes "get_already_existing_event ev rows = None"
  shows "only_recorded (te_type ev) \<or> (\<forall>r \<in> set rows. \<not> same_event ev r)"
  using assms by (simp add: get_already_existing_event_def find_None_iff split: if_splits)

lemma deduplicate_event_new:
  assumes "deduplicate_event ev rows = (ev', None)" and "te_pk ev' = 0" and "\<forall>r \<in> set rows. te_pk r \<noteq> 0"
  shows "ev' = ev" "get_already_existing_event ev rows = None" "\<not> second_authorization ev rows"
  using assms get_already_existing_event_in(1) [of ev rows]
  by (auto simp: deduplicate_event_def second_authorization_def split: option.splits if_splits)

lemma events_frame [simp]:
  "ps_events (save_item t s) = ps_events s" "ps_events (add_calls cs s) = ps_events s"
  "ps_events (update_order_with_transaction_details pe t s) = ps_events s"
  "ps_events (checkout_changed pe t s) = ps_events s"
  by (simp_all add: save_item_def add_calls_def update_order_with_transaction_details_def checkout_changed_def
      split: option.split prod.split)

lemma order_changed_events [simp]: "ps_events (order_changed pe t0 t s) = ps_events s"
  by (simp add: order_changed_def Let_def split: option.split)

lemma finish_events [simp]:
  "ps_events (order_or_checkout_changed pe t0 t s) = ps_events s"
  "ps_events (finish_session pe ev as s) = ps_events s" "ps_events (finish_answer pe k as s) = ps_events s"
  "ps_events (transaction_order_changed pe c m t0 t s) = ps_events s"
  "ps_events (order_transaction_event x order s) = ps_events s"
  "ps_events (reported_order_and_checkout pe t0 t s) = ps_events s"
  "ps_events (snd (create_transaction_item src u a r as nm s)) = ps_events s"
  by (simp_all add: order_or_checkout_changed_def finish_session_def finish_answer_def transaction_order_changed_def order_transaction_event_def
      reported_order_and_checkout_def update_order_def create_transaction_item_def Let_def split: option.split prod.split)

lemma record_response_keeps:
  assumes "record_response_event pe re a ev s = (r, s')"
  shows "set (ps_events s) \<subseteq> set (ps_events s')"
  using assms by (auto simp: record_response_event_def create_event_from_response_def appended_def
      split: prod.splits option.splits sum.splits if_splits dest!: insert_event_appends)

section \<open>Invariants of the log\<close>

locale log_invariant =
  fixes I :: "event_rows \<Rightarrow> bool"
  assumes keys: "I rows \<Longrightarrow> r \<in> set rows \<Longrightarrow> te_pk r \<noteq> 0"
    and quiet: "I rows \<Longrightarrow> quiet ev \<Longrightarrow> I (appended ev rows)"
    and recorded: "I rows \<Longrightarrow> get_already_existing_event ev rows = None \<Longrightarrow> \<not> second_authorization ev rows \<Longrightarrow>
      I (appended ev rows)"
    and manual: "I rows \<Longrightarrow> te_psp_reference ev = None \<Longrightarrow> \<not> second_authorization ev rows \<Longrightarrow> I (appended ev rows)"
    and completed: "I rows \<Longrightarrow> r \<in> set rows \<Longrightarrow> te_pk ev = te_pk r \<Longrightarrow> te_type r \<in> request_types \<Longrightarrow>
      te_type ev \<in> request_types \<Longrightarrow> te_transaction ev = te_transaction r \<Longrightarrow> I (replaced ev rows)"
begin

lemma fail_event: "I (ps_events s) \<Longrightarrow> fail_event pe ev cause s = (r, s') \<Longrightarrow> I (ps_events s')"
  using quiet [OF _ failed_event_quiet]
  by (auto simp: fail_event_def create_failed_transaction_event_def split: prod.splits dest!: insert_event_appends)

lemma add_request: "I (ps_events s) \<Longrightarrow> ty \<noteq> AUTHORIZATION_SUCCESS \<Longrightarrow> add_event (request_event pe t ty v u a) s = (r, s') \<Longrightarrow>
    I (ps_events s')"
  using quiet [OF _ request_event_quiet]
  by (auto simp: add_event_def split: prod.splits dest!: insert_event_appends)

lemma insert_recorded:
  assumes "I rows" and "get_already_existing_event ev rows = None" and "\<not> second_authorization ev rows"
    and "insert_event ev rows = (r, rows')"
  shows "I rows'"
  using assms recorded [OF assms(1-3)] by (auto dest!: insert_event_appends)

lemma create_event_from_response:
  assumes "I rows" and "create_event_from_response pe re a k c rows = (r, rows')"
  shows "I rows'"
proof -
  obtain ev msg where d: "deduplicate_event (response_event pe re a k c) rows = (ev, msg)" by (metis prod.exhaust)
  show ?thesis
  proof (cases "msg = None \<and> te_pk ev = 0")
    case True
    then have "deduplicate_event (response_event pe re a k c) rows = (ev, None)" "te_pk ev = 0" using d by auto
    note new = deduplicate_event_new [OF this] keys [OF assms(1)]
    obtain r1 rows1 where ins: "insert_event ev rows = (r1, rows1)" by (metis prod.exhaust)
    then have "rows' = rows1" using assms(2) d True
      by (auto simp: create_event_from_response_def split: sum.splits)
    with ins insert_recorded [OF assms(1), of ev] new show ?thesis by blast
  next
    case False
    then have "rows' = rows" using assms(2) d by (auto simp: create_event_from_response_def split: option.splits)
    with assms(1) show ?thesis by simp
  qed
qed

lemma insert_manual:
  assumes "I rows" and "\<forall>ev \<in> set evs. te_psp_reference ev = None \<and> te_type ev \<noteq> AUTHORIZATION_SUCCESS"
  shows "I (insert_all evs rows)"
  using assms
proof (induction evs arbitrary: rows)
  case (Cons ev evs)
  then have "I (appended ev rows)" by (intro manual) (auto simp: second_authorization_def)
  with Cons show ?case by (simp add: appended_def)
qed simp

lemma adjust_authorized_manual:
  assumes "ev \<in> set (adjust_authorized pe m t user a rows)"
  shows "te_psp_reference ev = None" "\<not> second_authorization ev rows"
  using assms by (auto simp: adjust_authorized_def manual_event_def second_authorization_def Let_def
      split: option.splits if_splits prod.splits)

lemma manual_adjustment:
  assumes "I rows" and "create_manual_adjustment_events pe t m user a rows = (e, rows')"
  shows "I rows'"
proof -
  let ?first = "adjust_authorized pe m t user a rows"
  obtain rest where rest: "rows' = rows \<or> rows' = insert_all (?first @ rest) rows"
      "\<forall>ev \<in> set rest. te_psp_reference ev = None \<and> te_type ev \<noteq> AUTHORIZATION_SUCCESS"
  proof
    let ?events = "prepare_manual_event pe Canceled_Value m CANCEL_SUCCESS t user a
       (prepare_manual_event pe Refunded_Value m REFUND_SUCCESS t user a
         (prepare_manual_event pe Charged_Value m CHARGE_SUCCESS t user a []))"
    have "prepare_manual_event pe f m ty t user a (xs @ ys) = xs @ prepare_manual_event pe f m ty t user a ys" for f ty xs ys
      by (simp add: prepare_manual_event_def split: option.split)
    from this [of _ _ ?first "[]"] this
    show "rows' = rows \<or> rows' = insert_all (?first @ ?events) rows"
      using assms(2) by (auto simp: create_manual_adjustment_events_def bulk_create_events_def Let_def split: if_splits)
    show "\<forall>ev \<in> set ?events. te_psp_reference ev = None \<and> te_type ev \<noteq> AUTHORIZATION_SUCCESS"
      by (auto simp: prepare_manual_event_def manual_event_def split: option.splits if_splits)
  qed
  have "?first = [] \<or> (\<exists>ev. ?first = [ev])"
    by (auto simp: adjust_authorized_def Let_def split: option.split)
  then show ?thesis
  proof
    assume "\<exists>ev. ?first = [ev]"
    then obtain ev where ev: "?first = [ev]" by blast
    then have "I (appended ev rows)" using assms(1) adjust_authorized_manual [of ev pe m t user a rows] by (auto intro: manual)
    with rest assms(1) insert_manual [OF this, of rest] ev show ?thesis by (auto simp: appended_def)
  qed (use rest assms(1) insert_manual [OF assms(1), of rest] in auto)
qed

lemma save_request:
  assumes "I (ps_events s)" and "r \<in> set (ps_events s)" and "te_pk ev = te_pk r" and "te_type r \<in> request_types"
    and "te_type ev \<in> request_types" and "te_transaction ev = te_transaction r" and "save_request_event ev s = (e, s')"
  shows "I (ps_events s')"
  using assms completed [OF assms(1-6)]
  by (auto simp: save_request_event_def split: prod.splits dest!: update_event_replaces)

lemma record_response:
  assumes "I (ps_events s)" and "record_response_event pe re a ev s = (r, s')"
  shows "I (ps_events s')"
  using assms create_event_from_response [OF assms(1)] by (auto simp: record_response_event_def split: prod.splits)

lemma session:
  assumes I: "I (ps_events s)" and row: "ev \<in> set (ps_events s)" and ty: "te_type ev \<in> request_types"
  shows "I (ps_events (snd (create_transaction_event_for_transaction_session pe ev a response s)))"
proof -
  have failed: "I (ps_events (snd (fail_event pe x cause s1)))" if "I (ps_events s1)" for x cause s1
    by (rule fail_event [OF that surjective_pairing])
  have completed_request: "I (ps_events (snd (case save_request_event x s1 of
        (Some er, s2) \<Rightarrow> (Inl er, s2) | (None, s2) \<Rightarrow> (Inr y, finish_session pe y as s2))))"
    if "I (ps_events s1)" "ev \<in> set (ps_events s1)" "te_pk x = te_pk ev" "te_type x \<in> request_types"
      "te_transaction x = te_transaction ev" for x s1 as and y :: transaction_event
    using save_request [OF that(1-3) ty that(4,5)] by (auto split: prod.split option.split)
  have recorded_response: "I (ps_events s2) \<and> ev \<in> set (ps_events s2)"
    if "record_response_event pe re a ev s = (r, s2)" for re r s2
    using record_response [OF I that] record_response_keeps [OF that] row by blast
  show ?thesis
  proof (cases "get_parsed_transaction_action_data pe response session_request False True")
    case (Inl er)
    with I show ?thesis by (simp add: create_transaction_event_for_transaction_session_def)
  next
    case (Inr parsed)
    obtain rr msg where p: "parsed = (rr, msg)" by (metis prod.exhaust)
    consider "rr = None" | x where "rr = Some x" "rr_event x = None" | x re where "rr = Some x" "rr_event x = Some re"
      by (metis option.exhaust)
    then show ?thesis
    proof cases
      case (3 x re)
      note run = create_transaction_event_for_transaction_session_def Inr p 3 sum.case prod.case option.case
      consider (missing) "\<not> truthy_text (er_psp_reference re)
            \<and> er_type re \<notin> {AUTHORIZATION_ACTION_REQUIRED, CHARGE_ACTION_REQUIRED}"
        | (request) "er_type re \<in> {AUTHORIZATION_REQUEST, CHARGE_REQUEST}" "\<not> (\<not> truthy_text (er_psp_reference re)
            \<and> er_type re \<notin> {AUTHORIZATION_ACTION_REQUIRED, CHARGE_ACTION_REQUIRED})"
        | (other) "er_type re \<notin> {AUTHORIZATION_REQUEST, CHARGE_REQUEST}" "\<not> (\<not> truthy_text (er_psp_reference re)
            \<and> er_type re \<notin> {AUTHORIZATION_ACTION_REQUIRED, CHARGE_ACTION_REQUIRED})" by blast
      then show ?thesis
      proof cases
        case missing
        then show ?thesis unfolding run by (simp add: failed [OF I])
      next
        case request
        have "er_type re \<in> request_types" using request(1) by (auto simp: request_types_def)
        then show ?thesis unfolding run if_not_P [OF request(2)] if_P [OF request(1)] Let_def
          by (intro completed_request I row) simp_all
      next
        case other
        obtain r s2 where rec: "record_response_event pe re a ev s = (r, s2)" by (metis prod.exhaust)
        note ok = recorded_response [OF rec]
        show ?thesis
        proof (cases r)
          case (Inl er)
          then show ?thesis unfolding run if_not_P [OF other(2)] if_not_P [OF other(1)] rec using ok by simp
        next
          case (Inr q)
          obtain y m where q: "q = (y, m)" by (metis prod.exhaust)
          show ?thesis
          proof (cases y)
            case None
            then show ?thesis unfolding run if_not_P [OF other(2)] if_not_P [OF other(1)] rec Inr q
              using failed ok by simp
          next
            case (Some z)
            show ?thesis unfolding run if_not_P [OF other(2)] if_not_P [OF other(1)] rec Inr q Some
                prod.case sum.case option.case
              by (rule completed_request) (use ok ty in simp_all)
          qed
        qed
      qed
    qed (use failed [OF I] Inr p in \<open>simp_all add: create_transaction_event_for_transaction_session_def\<close>)
  qed
qed

lemma answer:
  assumes I: "I (ps_events s)" and row: "ev \<in> set (ps_events s)" and ty: "te_type ev \<in> request_types"
  shows "I (ps_events (snd (create_transaction_event_from_request_and_webhook_response pe ev a response s)))"
proof -
  have failed: "I (ps_events (snd (apfst (map_sum id Some) (fail_event pe x cause s1))))" if "I (ps_events s1)" for x cause s1
    using fail_event [OF that surjective_pairing] by simp
  let ?parsed = "get_parsed_transaction_action_data pe response (event_type_text (te_type ev)) True False"
  show ?thesis
  proof (cases "\<exists>rr msg. ?parsed = Inr (Some rr, msg)")
    case True
    then obtain rr msg where p: "?parsed = Inr (Some rr, msg)" by blast
    let ?ev = "ev\<lparr>te_psp_reference := rr_psp_reference rr\<rparr>"
    obtain e s1 where save: "save_request_event ?ev s = (e, s1)" by (metis prod.exhaust)
    have I1: "I (ps_events s1)" by (rule save_request [OF I row _ ty _ _ save]) (use ty in simp_all)
    note run = create_transaction_event_from_request_and_webhook_response_def p sum.case prod.case option.case Let_def save
    show ?thesis
    proof (cases e)
      case (Some er)
      with I1 show ?thesis unfolding run by simp
    next
      case None
      show ?thesis
      proof (cases "rr_event rr")
        case (Some re)
        obtain r s2 where rec: "record_response_event pe re a ?ev s1 = (r, s2)" by (metis prod.exhaust)
        have "I (ps_events s2)" by (rule record_response [OF I1 rec])
        then show ?thesis unfolding run None Some using rec failed by (auto split: sum.split)
      qed (use I1 None in \<open>unfold run, simp\<close>)
    qed
  next
    case False
    then show ?thesis using I failed
      by (auto simp: create_transaction_event_from_request_and_webhook_response_def split: sum.split option.split)
  qed
qed

lemma report:
  assumes I: "I (ps_events s)"
  shows "I (ps_events (snd (transaction_event_report pe r user a t s)))"
proof -
  let ?ev = "reported_event pe r t user a"
  have failed: "I (ps_events (snd (case fail_event pe ?ev cause s of
      (Inl e, s) \<Rightarrow> (Inl (Database_Error e), s) | (Inr _, s) \<Rightarrow> (Inl er, s))))" for cause er
    using fail_event [OF I] by (auto split: prod.split sum.split)
  show ?thesis
  proof (cases "get_already_existing_event ?ev (ps_events s)")
    case (Some x)
    then show ?thesis using I failed
      by (auto simp: transaction_event_report_def Let_def split: option.split)
  next
    case None
    obtain q s1 where add: "add_event ?ev s = (q, s1)" by (metis prod.exhaust)
    have "I (ps_events s1)" if "\<not> second_authorization ?ev (ps_events s)"
      using add insert_recorded [OF I None that] by (auto simp: add_event_def split: prod.splits)
    then show ?thesis using I None failed add
      by (auto simp: transaction_event_report_def Let_def second_authorization_def update_reported_transaction_def
          reported_event_def split: sum.split)
  qed
qed

lemma requested:
  assumes I: "I (ps_events s)" and add: "add_event (request_event pe t ty v u a) s = (q, s1)"
    and "ty \<noteq> AUTHORIZATION_SUCCESS"
  shows "I (ps_events s1)" "I (ps_events (snd (request_with_event pe handled action w x t oe s1)))"
proof -
  show I1: "I (ps_events s1)" by (rule add_request [OF I assms(3) add])
  show "I (ps_events (snd (request_with_event pe handled action w x t oe s1)))"
    using I1 fail_event [OF I1]
    by (auto simp: request_with_event_def request_payment_action_def split: sum.splits prod.splits option.splits if_splits)
qed

lemma action_request:
  assumes I: "I (ps_events s)"
  shows "I (ps_events (snd (handle_transaction_action pe handled action v t user a s)))"
  by (cases action) (auto simp: handle_transaction_action_def create_transaction_event_requested_def
      request_cancelation_action_def request_charge_action_def request_refund_action_def Let_def
      split: prod.split sum.split intro!: requested [OF I])

lemma granted_refund_request:
  assumes I: "I (ps_events s)"
  shows "I (ps_events (snd (request_refund_for_granted_refund pe handled g t s)))"
  by (auto simp: request_refund_for_granted_refund_def request_refund_action_def Let_def
      split: prod.split sum.split intro!: requested [OF I])

lemma input_event:
  assumes "I (ps_events s)" and "create_transaction_event pe x t u a s = (e, s')"
  shows "I (ps_events s')"
proof -
  have "quiet (input_event pe y t u a)" for y by (simp add: quiet_def input_event_def request_event_def)
  with assms quiet [OF assms(1)] show ?thesis
    by (auto simp: create_transaction_event_def add_event_def split: option.splits prod.splits sum.splits dest!: insert_event_appends)
qed

lemma updated_transaction:
  assumes I: "I (ps_events s)"
  shows "I (ps_events (snd (update_transaction pe i m user a t s)))"
  using I manual_adjustment [OF I] by (auto simp: update_transaction_def Let_def split: prod.split option.split)

lemma update:
  assumes I: "I (ps_events s)"
  shows "I (ps_events (snd (transaction_update pe c input x user a t s)))"
proof -
  have step1: "I (ps_events s')" if "update_transaction pe i m user a t1 s = (r, s')" for i m t1 r s'
    using updated_transaction [OF I, of pe i m user a t1] that by simp
  have step2: "I (ps_events s2)"
    if "update_transaction pe i m user a t1 s = (r, s1)" "create_transaction_event pe x t' user a s1 = (e, s2)"
    for i m t1 r s1 t' e s2
    by (rule input_event [OF step1 [OF that(1)] that(2)])
  show ?thesis using I
    by (auto simp: transaction_update_def Let_def split: prod.split sum.split option.split
        intro: step1 step2 input_event [OF I])
qed

lemma create:
  assumes I: "I (ps_events s)"
  shows "I (ps_events (snd (transaction_create pe c i x src user a s)))"
proof -
  have finish: "I (ps_events (snd (case create_transaction_event pe x t user a s1 of
      (Some e, s) \<Rightarrow> (Inl (Transaction_Event_Error e), s) | (None, s) \<Rightarrow> (Inr t, s))))" if "I (ps_events s1)" for t s1
    using input_event [OF that] by (auto split: prod.split option.split)
  let ?t = "input_item i (next_item_pk s) src user a" and ?m = "get_money_data_from_input i"
  obtain e rows where adj: "create_manual_adjustment_events pe ?t ?m user a (ps_events s) = (e, rows)" by (metis prod.exhaust)
  have "I rows" by (rule manual_adjustment [OF I adj])
  then show ?thesis using I adj
    by (cases e; cases "no_money_data ?m") (simp_all add: transaction_create_def Let_def finish)
qed

lemma create_for_order:
  assumes I: "I (ps_events s)"
  shows "I (ps_events (snd (create_transaction_for_order pe src user a r v as nm s)))"
  using I manual_adjustment [OF I]
  by (auto simp: create_transaction_for_order_def create_transaction_item_def Let_def split: prod.split option.split)

lemma initialize:
  assumes I: "I (ps_events s)"
  shows "I (ps_events (snd (handle_transaction_initialize_session pe src v action a plugin s)))"
proof -
  obtain t s1 where item: "create_transaction_item src None (Some a) None None [] s = (t, s1)" by (metis prod.exhaust)
  then have ev: "ps_events s1 = ps_events s" using finish_events(7) [of src None "Some a" None None "[]" s] by simp
  let ?ty = "if action = FLOW_CHARGE then CHARGE_REQUEST else AUTHORIZATION_REQUEST"
  obtain q s2 where add: "add_event (request_event pe t ?ty v None None) s1 = (q, s2)" by (metis prod.exhaust)
  have I2: "I (ps_events s2)" by (rule add_request [OF _ _ add]) (simp_all add: I ev)
  show ?thesis
  proof (cases q)
    case (Inr x)
    then have "x \<in> set (ps_events s2)" "te_type x = ?ty" using add
      by (auto simp: add_event_def insert_event_def request_event_def Let_def split: if_splits)
    then have "I (ps_events (snd (create_transaction_event_for_transaction_session pe x (Some a) (plugin x) s2)))"
      by (intro session I2) (auto simp: request_types_def)
    then show ?thesis using item add Inr by (simp add: handle_transaction_initialize_session_def)
  qed (use item add I2 in \<open>simp add: handle_transaction_initialize_session_def\<close>)
qed

lemma process:
  assumes I: "I (ps_events s)"
  shows "I (ps_events (snd (transaction_process pe apps t plugin s)))"
proof -
  have "x \<in> set (ps_events s) \<and> te_type x \<in> request_types" if "get_request_event (events_of_item t s) = Some x" for x
    using that by (auto simp: get_request_event_def events_of_item_def request_types_def dest!: find_SomeD)
  then show ?thesis using I session [OF I]
    by (auto simp: transaction_process_def handle_transaction_process_session_def split: option.split)
qed

end

section \<open>Steps\<close>

text \<open>
  One run of a handler, at any time and with any input.  The answer of a webhook comes for a recorded request;
  the requests of a session are found by the handler itself.
\<close>

inductive handler_step :: "pay_state \<Rightarrow> pay_state \<Rightarrow> bool" where
  reported: "handler_step s (snd (transaction_event_report pe r user a t s))"
| answered: "ev \<in> set (ps_events s) \<Longrightarrow> te_type ev \<in> request_types \<Longrightarrow>
    handler_step s (snd (create_transaction_event_from_request_and_webhook_response pe ev a response s))"
| initialized: "handler_step s (snd (handle_transaction_initialize_session pe source v action a' plugin s))"
| processed: "handler_step s (snd (transaction_process pe apps t plugin s))"
| requested: "handler_step s (snd (handle_transaction_action pe handled action' v' t user a s))"
| refund_requested: "handler_step s (snd (request_refund_for_granted_refund pe handled g t s))"
| updated: "handler_step s (snd (transaction_update pe auto_confirm input x user a t s))"
| created: "handler_step s (snd (transaction_create pe auto_confirm i x source user a s))"
| created_for_order: "handler_step s (snd (create_transaction_for_order pe source user a psp v actions nm s))"

context log_invariant
begin

lemma step: "handler_step s s' \<Longrightarrow> I (ps_events s) \<Longrightarrow> I (ps_events s')"
  by (induction rule: handler_step.induct)
    (auto intro: report answer initialize process action_request granted_refund_request update create create_for_order)

lemma steps: "handler_step\<^sup>*\<^sup>* s s' \<Longrightarrow> I (ps_events s) \<Longrightarrow> I (ps_events s')"
  by (induction rule: rtranclp_induct) (auto intro: step)

end

section \<open>Events count once\<close>

definition log_keys :: "event_rows \<Rightarrow> bool" where
  "log_keys rows \<longleftrightarrow> distinct (map te_pk rows) \<and> 0 \<notin> te_pk ` set rows"

definition reportable :: "transaction_event \<Rightarrow> bool" where
  "reportable r \<longleftrightarrow> te_include_in_calculations r \<and> has_ref r \<and> te_type r \<notin> request_types \<and> \<not> only_recorded (te_type r)"

definition counted_once :: "event_rows \<Rightarrow> bool" where
  "counted_once rows \<longleftrightarrow> log_keys rows
     \<and> (\<forall>r \<in> set rows. \<forall>r' \<in> set rows. reportable r \<and> reportable r' \<and> same_event r r' \<longrightarrow> r = r')"

definition authorized_once :: "event_rows \<Rightarrow> bool" where
  "authorized_once rows \<longleftrightarrow> log_keys rows
     \<and> (\<forall>r \<in> set rows. \<forall>r' \<in> set rows. te_type r = AUTHORIZATION_SUCCESS \<and> te_type r' = AUTHORIZATION_SUCCESS
          \<and> te_transaction r = te_transaction r' \<longrightarrow> r = r')"

lemma log_keys_appended: "log_keys rows \<Longrightarrow> log_keys (appended ev rows)"
  by (auto simp: log_keys_def appended_def next_event_pk_def dest: next_event_pk_greater [unfolded next_event_pk_def])

lemma log_keys_replaced: "log_keys rows \<Longrightarrow> log_keys (replaced ev rows)"
proof -
  have "map te_pk (replaced ev rows) = map te_pk rows" by (simp add: replaced_def)
  then show "log_keys rows \<Longrightarrow> log_keys (replaced ev rows)" unfolding log_keys_def by (metis image_set)
qed

lemma pair_rule:
  assumes "\<forall>r \<in> set rows. \<forall>r' \<in> set rows. P r r' \<longrightarrow> r = r'" and "\<And>r. r \<in> set rows \<Longrightarrow> \<not> P r x \<and> \<not> P x r"
  shows "\<forall>r \<in> set (rows @ [x]). \<forall>r' \<in> set (rows @ [x]). P r r' \<longrightarrow> r = r'"
  using assms by auto

lemma same_event_pk [simp]:
  "same_event (ev\<lparr>te_pk := k\<rparr>) r = same_event ev r" "same_event r (ev\<lparr>te_pk := k\<rparr>) = same_event r ev"
  "reportable (ev\<lparr>te_pk := k\<rparr>) = reportable ev"
  by (simp_all add: same_event_def reportable_def has_ref_def)

lemma same_event_sym: "same_event a b = same_event b a"
  by (auto simp: same_event_def)

lemma counted_once_appended:
  assumes "counted_once rows" and "reportable ev \<Longrightarrow> \<forall>r \<in> set rows. \<not> same_event ev r"
  shows "counted_once (appended ev rows)"
  unfolding counted_once_def
proof
  show "log_keys (appended ev rows)" using assms(1) by (simp add: counted_once_def log_keys_appended)
  show "\<forall>r \<in> set (appended ev rows). \<forall>r' \<in> set (appended ev rows).
      reportable r \<and> reportable r' \<and> same_event r r' \<longrightarrow> r = r'"
    unfolding appended_def using assms
    by (intro pair_rule) (auto simp: counted_once_def same_event_sym)
qed

lemma authorized_once_appended:
  assumes "authorized_once rows" and "\<not> second_authorization ev rows"
  shows "authorized_once (appended ev rows)"
  unfolding authorized_once_def
proof
  show "log_keys (appended ev rows)" using assms(1) by (simp add: authorized_once_def log_keys_appended)
  show "\<forall>r \<in> set (appended ev rows). \<forall>r' \<in> set (appended ev rows).
      te_type r = AUTHORIZATION_SUCCESS \<and> te_type r' = AUTHORIZATION_SUCCESS \<and> te_transaction r = te_transaction r' \<longrightarrow> r = r'"
    unfolding appended_def using assms
    by (intro pair_rule)
      (auto simp: authorized_once_def second_authorization_def authorization_success_already_exists_def list_ex_iff)
qed

lemma log_keys_pk: "log_keys rows \<Longrightarrow> r \<in> set rows \<Longrightarrow> te_pk r \<noteq> 0"
  by (auto simp: log_keys_def)

lemma quiet_not_reportable: "quiet ev \<Longrightarrow> \<not> reportable ev \<and> \<not> second_authorization ev rows"
  by (simp add: quiet_def reportable_def second_authorization_def)

interpretation counted: log_invariant counted_once
proof
  fix rows ev r
  assume rows: "counted_once rows"
  show "r \<in> set rows \<Longrightarrow> te_pk r \<noteq> 0" using rows log_keys_pk by (auto simp: counted_once_def)
  show "quiet ev \<Longrightarrow> counted_once (appended ev rows)"
    using quiet_not_reportable counted_once_appended [OF rows] by blast
  show "get_already_existing_event ev rows = None \<Longrightarrow> counted_once (appended ev rows)"
    using counted_once_appended [OF rows] get_already_existing_event_none by (auto simp: reportable_def)
  show "te_psp_reference ev = None \<Longrightarrow> counted_once (appended ev rows)"
    by (intro counted_once_appended [OF rows]) (simp add: reportable_def has_ref_def truthy_text_def)
  assume "te_type ev \<in> request_types"
  then have "\<not> reportable ev" by (simp add: reportable_def)
  moreover have "x \<in> set rows \<or> x = ev" if "x \<in> set (replaced ev rows)" for x
    using that by (auto simp: replaced_def split: if_splits)
  ultimately show "counted_once (replaced ev rows)"
    using rows unfolding counted_once_def by (metis log_keys_replaced)
qed

interpretation authorized: log_invariant authorized_once
proof
  fix rows ev r
  assume rows: "authorized_once rows"
  show "r \<in> set rows \<Longrightarrow> te_pk r \<noteq> 0" using rows log_keys_pk by (auto simp: authorized_once_def)
  show "quiet ev \<Longrightarrow> authorized_once (appended ev rows)"
    using quiet_not_reportable authorized_once_appended [OF rows] by blast
  show "\<not> second_authorization ev rows \<Longrightarrow> authorized_once (appended ev rows)"
    "\<not> second_authorization ev rows \<Longrightarrow> authorized_once (appended ev rows)"
    using authorized_once_appended [OF rows] by blast+
  assume "te_type ev \<in> request_types"
  then have "te_type ev \<noteq> AUTHORIZATION_SUCCESS" by (auto simp: request_types_def)
  moreover have "x \<in> set rows \<or> x = ev" if "x \<in> set (replaced ev rows)" for x
    using that by (auto simp: replaced_def split: if_splits)
  ultimately show "authorized_once (replaced ev rows)"
    using rows unfolding authorized_once_def by (metis log_keys_replaced)
qed

text \<open>
  C23: whatever payment apps, staff and webhooks do, in whatever order and however often they repeat it, no
  two counting events of a transaction have the same reference and type (requests and mere records
  apart), and no transaction has two successful authorizations.
\<close>

theorem events_count_once:
  assumes "handler_step\<^sup>*\<^sup>* s s'" and "counted_once (ps_events s)" and "authorized_once (ps_events s)"
  shows "counted_once (ps_events s') \<and> authorized_once (ps_events s')"
  using counted.steps [OF assms(1,2)] authorized.steps [OF assms(1,3)] ..

section \<open>An example\<close>

definition ex_paid_item :: transaction_item where
  "ex_paid_item = ex_item\<lparr>ti_order := Some 1, ti_authorized_value := 40, ti_charged_value := 50, ti_refund_pending_value := 10\<rparr>"

definition ex_pay_state :: pay_state where
  "ex_pay_state = \<lparr>ps_events = ex_events, ps_tables = ex_tables\<lparr>payment_transactions := [ex_paid_item]\<rparr>,
     ps_checkouts = [], ps_calls = []\<rparr>"

definition ex_report :: "transaction_event_type \<Rightarrow> decimal \<Rightarrow> report_input" where
  "ex_report ty v = \<lparr>ri_psp_reference = ''n'', ri_type = ty, ri_amount = v, ri_time = Some 90, ri_external_url = None,
     ri_message = None, ri_available_actions = Some [REFUND]\<rparr>"

definition ex_reported :: "(report_error + bool \<times> transaction_item \<times> transaction_event) \<times> pay_state" where
  "ex_reported = transaction_event_report ex_pe (ex_report CHARGE_SUCCESS 30) None None ex_paid_item ex_pay_state"

lemma ex_pay_state_facts:
  "counted_once (ps_events ex_pay_state)" "authorized_once (ps_events ex_pay_state)" "log_keys (ps_events ex_pay_state)"
  by code_simp+

lemma events_count_once_witness:
  "counted_once (ps_events (snd ex_reported)) \<and> authorized_once (ps_events (snd ex_reported))"
proof (rule events_count_once)
  show "handler_step\<^sup>*\<^sup>* ex_pay_state (snd ex_reported)"
    unfolding ex_reported_def by (intro r_into_rtranclp reported)
qed (rule ex_pay_state_facts)+

end
