(* ===== verification/Transaction_Reports.thy ===== *)
theory Transaction_Reports
  imports Transaction_Log
begin

text \<open>
  What reports and sessions do to a transaction: repeated and rejected reports, the amounts of the order after an accepted
  one, manual adjustments, and the session of a payment app from its request to the charge.
\<close>

section \<open>Frames\<close>

lemma recalculate_frame [simp]:
  "ti_pk (recalculate_transaction_amounts e rows t) = ti_pk t"
  "ti_order (recalculate_transaction_amounts e rows t) = ti_order t"
  "ti_checkout (recalculate_transaction_amounts e rows t) = ti_checkout t"
  "ti_user (recalculate_transaction_amounts e rows t) = ti_user t"
  "ti_app (recalculate_transaction_amounts e rows t) = ti_app t"
  "ti_app_identifier (recalculate_transaction_amounts e rows t) = ti_app_identifier t"
  "ti_available_actions (recalculate_transaction_amounts e rows t) = ti_available_actions t"
  "ti_psp_reference (recalculate_transaction_amounts e rows t) = ti_psp_reference t"
  "ti_currency (recalculate_transaction_amounts e rows t) = ti_currency t"
proof -
  have frame: "f (recalculate_transaction_amounts e rows t) = f t"
    if "\<And>x. f (set_transaction_amounts_to_zero x) = f x"
      "\<And>x v w. f (x\<lparr>ti_authorized_value := v, ti_authorize_pending_value := w\<rparr>) = f x"
    for f :: "transaction_item \<Rightarrow> 'a"
  proof -
    have "f (calculate_from (events_of e rows t) t) = f t"
      using calculate_from_frame [of "events_of e rows t" t] that(1) by metis
    then show ?thesis
      by (simp add: recalculate_transaction_amounts_def calculate_transaction_amount_based_on_events_def Let_def that(2))
  qed
  show "ti_pk (recalculate_transaction_amounts e rows t) = ti_pk t"
    "ti_order (recalculate_transaction_amounts e rows t) = ti_order t"
    "ti_checkout (recalculate_transaction_amounts e rows t) = ti_checkout t"
    "ti_user (recalculate_transaction_amounts e rows t) = ti_user t"
    "ti_app (recalculate_transaction_amounts e rows t) = ti_app t"
    "ti_app_identifier (recalculate_transaction_amounts e rows t) = ti_app_identifier t"
    "ti_available_actions (recalculate_transaction_amounts e rows t) = ti_available_actions t"
    "ti_psp_reference (recalculate_transaction_amounts e rows t) = ti_psp_reference t"
    "ti_currency (recalculate_transaction_amounts e rows t) = ti_currency t"
    by (rule frame; simp add: set_transaction_amounts_to_zero_def)+
qed

section \<open>Repeated and rejected reports\<close>

lemma events_of_quiet:
  "\<not> te_include_in_calculations ev \<Longrightarrow> events_of e (rows @ [ev]) t = events_of e rows t"
  by (simp add: events_of_def)

text \<open>
  C26: a rejected report changes no transaction, order or checkout and makes no call, and the failed event it
  leaves never counts: any recalculation gives what it gave before.
\<close>

theorem rejected_report_harmless:
  assumes "transaction_event_report pe r user a t s = (Inl er, s')"
  shows "ps_tables s' = ps_tables s \<and> ps_checkouts s' = ps_checkouts s \<and> ps_calls s' = ps_calls s
    \<and> recalculate_transaction_amounts e (ps_events s') x = recalculate_transaction_amounts e (ps_events s) x"
proof -
  have failed: "s'' = s \<or> (\<exists>ev. \<not> te_include_in_calculations ev \<and> s'' = s\<lparr>ps_events := ps_events s @ [ev]\<rparr>)"
    if run: "fail_event pe x cause s = (q, s'')" for x cause q s''
  proof -
    let ?ev = "(failed_event pe x cause)\<lparr>te_pk := next_event_pk (ps_events s)\<rparr>"
    have "s'' = s \<or> s'' = s\<lparr>ps_events := ps_events s @ [?ev]\<rparr>"
      using run by (auto simp: fail_event_def create_failed_transaction_event_def appended_def split: prod.splits
          dest!: insert_event_appends)
    moreover have "\<not> te_include_in_calculations ?ev" by (simp add: failed_event_def)
    ultimately show ?thesis by blast
  qed
  have stored: "s'' = s" if "add_event x s = (Inl q, s'')" for x q s''
    using that by (auto simp: add_event_def insert_event_def Let_def split: if_splits)
  have "s' = s \<or> (\<exists>ev. \<not> te_include_in_calculations ev \<and> s' = s\<lparr>ps_events := ps_events s @ [ev]\<rparr>)"
    using assms failed stored
    by (auto simp: transaction_event_report_def Let_def
        split: if_splits option.splits sum.splits prod.splits)
  then show ?thesis
    by (auto simp: recalculate_transaction_amounts_def calculate_transaction_amount_based_on_events_def events_of_quiet)
qed

lemma get_already_existing_event_appended:
  assumes "get_already_existing_event ev rows = None" and "\<not> only_recorded (te_type ev)" and "same_event ev x"
  shows "get_already_existing_event ev (rows @ [x]) = Some x"
proof -
  have none: "\<forall>r \<in> set rows. \<not> same_event ev r" using get_already_existing_event_none [OF assms(1)] assms(2) by blast
  obtain y where y: "find (same_event ev) (sort_key te_pk (rows @ [x])) = Some y"
    using assms(3) by (cases "find (same_event ev) (sort_key te_pk (rows @ [x]))") (auto simp: find_None_iff)
  with find_SomeD [OF this] none have "y = x" by auto
  with y assms(2) show ?thesis by (simp add: get_already_existing_event_def)
qed

lemma set_actions_simps [simp]:
  "ti_pk (set_actions as t) = ti_pk t" "ti_order (set_actions as t) = ti_order t" "ti_checkout (set_actions as t) = ti_checkout t"
  "ti_user (set_actions as t) = ti_user t" "ti_app (set_actions as t) = ti_app t"
  "ti_app_identifier (set_actions as t) = ti_app_identifier t" "ti_currency (set_actions as t) = ti_currency t"
  by (simp_all add: set_actions_def split: option.split)

lemma set_actions_actions [simp]: "ti_available_actions (set_actions (Some xs) t) = remdups xs"
  by (simp add: set_actions_def)

lemma access_set_actions [simp]:
  "check_if_requestor_has_access (set_actions as t) user a = check_if_requestor_has_access t user a"
  by (cases a) (simp_all add: check_if_requestor_has_access_def)

lemma assign_app_simps [simp]:
  "ti_pk (assign_app a t) = ti_pk t" "ti_order (assign_app a t) = ti_order t" "ti_checkout (assign_app a t) = ti_checkout t"
  "ti_currency (assign_app a t) = ti_currency t" "ti_available_actions (assign_app a t) = ti_available_actions t"
  "getattr_value f (assign_app a t) = getattr_value f t"
  by (cases f; simp add: assign_app_def split: option.split)+

lemma access_assigned:
  assumes "check_if_requestor_has_access t user a" and "ti_user t' = ti_user t" "ti_app t' = ti_app t"
    and "ti_app_identifier t' = ti_app_identifier t"
  shows "check_if_requestor_has_access (assign_app a t') user a"
  using assms by (auto simp: check_if_requestor_has_access_def assign_app_def split: option.splits if_splits)

lemma update_reported_transaction_item:
  assumes "update_reported_transaction pe ev as a t s = (t', s')"
  shows "ti_pk t' = ti_pk t" "ti_currency t' = ti_currency t" "ti_order t' = ti_order t" "ti_checkout t' = ti_checkout t"
    "as = Some xs \<Longrightarrow> set (ti_available_actions t') = set xs"
    "check_if_requestor_has_access t user a \<Longrightarrow> check_if_requestor_has_access t' user a"
  using assms
  by (auto simp: update_reported_transaction_def Let_def set_actions_def split: option.splits
      intro!: access_assigned)

text \<open>
  C25: reporting an event again is recognised: the second report returns the recorded event, says that it was
  already processed, and leaves the whole state as it is, at any later time.  Events of the types that are \<open>only_recorded\<close>
  are excepted: the code stores them again.
\<close>

theorem report_twice:
  assumes "transaction_event_report pe r user a t s = (Inr (processed, t', ev), s')"
    and "\<not> only_recorded (ri_type r)"
  shows "transaction_event_report (pe\<lparr>pe_env := e'\<rparr>) r user a t' s' = (Inr (True, t', ev), s')"
proof -
  let ?ev = "reported_event pe r t user a" and ?ev' = "reported_event (pe\<lparr>pe_env := e'\<rparr>) r t' user a"
  have access: "check_if_requestor_has_access t user a" and clean: "clean_event pe ?ev"
    using assms(1) by (auto simp: transaction_event_report_def Let_def split: if_splits)
  have again: "transaction_event_report (pe\<lparr>pe_env := e'\<rparr>) r user a t' s' = (Inr (True, t', ev), s')"
    if "check_if_requestor_has_access t' user a" "ti_pk t' = ti_pk t" "ti_currency t' = ti_currency t"
      "get_already_existing_event ?ev (ps_events s') = Some ev" "\<not> amounts_differ ev ?ev"
      "\<And>xs. ri_available_actions r = Some xs \<Longrightarrow> set (ti_available_actions t') = set xs"
  proof -
    have "same_event ?ev' = same_event ?ev" "te_type ?ev' = te_type ?ev" "clean_event (pe\<lparr>pe_env := e'\<rparr>) ?ev'"
      "amounts_differ ev ?ev' = amounts_differ ev ?ev"
      using that(2,3) clean
      by (auto simp: fun_eq_iff same_event_def reported_event_def clean_event_def event_fits_def amounts_differ_def)
    moreover from this have "get_already_existing_event ?ev' (ps_events s') = Some ev"
      using that(4) by (simp add: get_already_existing_event_def split: if_splits)
    ultimately show ?thesis using that(1,5,6)
      by (simp add: transaction_event_report_def Let_def split: option.split)
  qed
  show ?thesis
  proof (cases "get_already_existing_event ?ev (ps_events s)")
    case (Some x)
    have "t' = t \<and> s' = s \<and> (\<forall>xs. ri_available_actions r = Some xs \<longrightarrow> set (ti_available_actions t) = set xs)
        \<or> (\<exists>xs. ri_available_actions r = Some xs \<and> t' = set_actions (Some xs) t \<and> s' = save_item t' s)"
      and "ev = x" "\<not> amounts_differ x ?ev"
      using assms(1) Some access clean
      by (auto simp: transaction_event_report_def Let_def split: if_splits option.splits sum.splits prod.splits)
    then show ?thesis using Some access
      by (intro again) auto
  next
    case None
    obtain q s1 where add: "add_event ?ev s = (q, s1)" by (metis prod.exhaust)
    have q: "q = Inr ev" and upd: "update_reported_transaction pe ev (ri_available_actions r) a t s1 = (t', s2)
        \<Longrightarrow> s' = reported_order_and_checkout pe t t' s2" and
      upd': "fst (update_reported_transaction pe ev (ri_available_actions r) a t s1) = t'" for s2
      using assms(1) None access clean add
      by (auto simp: transaction_event_report_def Let_def split: if_splits sum.splits prod.splits)
    obtain s2 where u: "update_reported_transaction pe ev (ri_available_actions r) a t s1 = (t', s2)"
      using upd' by (metis prod.collapse)
    have s': "ps_events s' = ps_events s1" using upd [OF u] u by (auto simp: update_reported_transaction_def Let_def)
    have ev: "ev = ?ev\<lparr>te_pk := next_event_pk (ps_events s)\<rparr>" "ps_events s1 = ps_events s @ [ev]"
      using add q by (auto simp: add_event_def insert_event_def Let_def split: if_splits)
    have "get_already_existing_event ?ev (ps_events s') = Some ev"
      unfolding s' ev(2) by (rule get_already_existing_event_appended [OF None])
        (use assms(2) in \<open>simp_all add: ev(1) reported_event_def same_event_def\<close>)
    moreover have "\<not> amounts_differ ev ?ev" by (simp add: ev(1) amounts_differ_def)
    ultimately show ?thesis
      using update_reported_transaction_item [OF u] access by (intro again) auto
  qed
qed

section \<open>The order after an accepted report\<close>

lemma updated_amounts_sums:
  "o_id (updated_amounts precision T o1) = o_id o1"
  "so_total_charged_amount (updated_amounts precision T o1)
     = sum_list (map p_captured_amount (order_payments T o1)) + sum_list (map ti_charged_value (order_transactions T o1))"
  "so_total_authorized_amount (updated_amounts precision T o1)
     = get_total_authorized (order_payments T o1) + sum_list (map ti_authorized_value (order_transactions T o1))"
  by (simp_all add: updated_amounts_def update_order_authorize_data_def update_order_authorize_status_def
      update_order_total_authorized_def update_order_charge_data_def update_order_charge_status_def
      update_order_total_charged_def Let_def)

definition order_in_step :: "order_tables \<Rightarrow> sales_order \<Rightarrow> bool" where
  \<comment> \<open>The amounts of an order are the sums over its payments and transactions.\<close>
  "order_in_step T o1 \<longleftrightarrow>
     so_total_charged_amount o1 = sum_list (map p_captured_amount (order_payments T o1))
       + sum_list (map ti_charged_value (order_transactions T o1))
     \<and> so_total_authorized_amount o1 = get_total_authorized (order_payments T o1)
       + sum_list (map ti_authorized_value (order_transactions T o1))"

lemma order_rows_save [simp]:
  "order_payments (save_order o1 T) = order_payments T" "order_transactions (save_order o1 T) = order_transactions T"
  "order_granted_refunds (save_order o1 T) = order_granted_refunds T"
  "payment_transactions (save_order o1 T) = payment_transactions T"
  by (simp_all add: fun_eq_iff order_payments_def order_transactions_def order_granted_refunds_def save_order_def)

lemma order_rows_id:
  "o_id o1 = o_id o2 \<Longrightarrow> order_payments T o1 = order_payments T o2"
  "o_id o1 = o_id o2 \<Longrightarrow> order_transactions T o1 = order_transactions T o2"
  by (simp_all add: order_payments_def order_transactions_def)

lemma find_row_key: "find_row key k rows = Some r \<Longrightarrow> key r = k \<and> r \<in> set rows"
  unfolding find_row_def by (blast dest: find_SomeD)

lemma updates_amounts_in_step:
  assumes "find_row o_id k (orders T) = Some o1"
  shows "\<exists>o2. find_row o_id k (orders (updates_amounts_for_order precision o1 T)) = Some o2
    \<and> order_in_step (updates_amounts_for_order precision o1 T) o2"
proof -
  let ?o = "updated_amounts precision T o1"
  have k: "o_id o1 = k" using find_row_key [OF assms] by simp
  then have "find_row o_id k (orders (updates_amounts_for_order precision o1 T)) = Some ?o"
    using find_row_replace [OF assms, of ?o] by (simp add: updates_amounts_for_order_def save_order_def updated_amounts_sums)
  moreover have "order_in_step (updates_amounts_for_order precision o1 T) ?o"
    by (simp add: order_in_step_def updates_amounts_for_order_def updated_amounts_sums
        order_rows_id [OF updated_amounts_sums(1) [of precision T o1]])
  ultimately show ?thesis by blast
qed

lemma tables_frame [simp]:
  "ps_tables (add_calls cs s) = ps_tables s" "ps_tables (checkout_changed pe t s) = ps_tables s"
  by (simp_all add: add_calls_def checkout_changed_def split: prod.split)

lemma order_changed_tables:
  "ps_tables (order_changed pe t0 t s) = ps_tables (update_order_with_transaction_details pe t s)"
  by (simp add: order_changed_def Let_def split: option.split)

lemma item_of_save: "item_of k s = Some t0 \<Longrightarrow> ti_pk t = k \<Longrightarrow> item_of k (save_item t s) = Some t"
  using find_row_replace [of ti_pk k _ t0 t] by (simp add: item_of_def save_item_def)

lemma item_of_cong: "payment_transactions (ps_tables s) = payment_transactions (ps_tables s') \<Longrightarrow> item_of k s = item_of k s'"
  by (simp add: item_of_def)

lemma update_order_items [simp]:
  "payment_transactions (ps_tables (update_order_with_transaction_details pe t s)) = payment_transactions (ps_tables s)"
  by (simp add: update_order_with_transaction_details_def updates_amounts_for_order_def split: option.split)

lemma reported_tables:
  "ps_tables (reported_order_and_checkout pe t0 t s) =
     ps_tables (if ti_order t = None then s else update_order_with_transaction_details pe t s)"
  by (simp add: reported_order_and_checkout_def Let_def order_changed_tables)

lemma amounts_assigned:
  assumes "row_order_ok e" and "distinct (map te_pk rows)" and "ti_pk t1 = ti_pk t2"
  shows "getattr_value f (recalculate_transaction_amounts e rows t1) = getattr_value f (recalculate_transaction_amounts e rows t2)"
proof -
  have "events_of e rows t1 = events_of e rows t2" by (simp add: events_of_def assms(3))
  then show ?thesis by (simp add: recalculation_spec_fact [OF assms(1,2)])
qed

text \<open>
  C24: an accepted report leaves the transaction with the amounts that its events give, the new one
  included, and its order with the sums over its payments and transactions.
\<close>

theorem accepted_report_in_step:
  assumes "transaction_event_report pe r user a t s = (Inr (False, t', ev), s')"
    and "item_of (ti_pk t) s = Some t" and "row_order_ok (pe_env pe)" and "log_keys (ps_events s)"
    and "ti_order t = Some k" and "find_row o_id k (orders (ps_tables s)) = Some o1"
  shows "item_of (ti_pk t) s' = Some t'
    \<and> ps_events s' = ps_events s @ [ev]
    \<and> (\<forall>f. getattr_value f t' = getattr_value f (recalculate_transaction_amounts (pe_env pe) (ps_events s @ [ev]) t))
    \<and> (\<exists>o2. find_row o_id k (orders (ps_tables s')) = Some o2 \<and> order_in_step (ps_tables s') o2)"
proof -
  let ?ev = "reported_event pe r t user a"
  obtain q s1 where add: "add_event ?ev s = (q, s1)" by (metis prod.exhaust)
  obtain t1 s2 where u: "update_reported_transaction pe ev (ri_available_actions r) a t s1 = (t1, s2)" by (metis prod.exhaust)
  have q: "q = Inr ev" "t1 = t'" "s' = reported_order_and_checkout pe t t' s2"
    using assms(1) add u
    by (auto simp: transaction_event_report_def Let_def split: if_splits sum.splits prod.splits option.splits)
  have s1: "s1 = s\<lparr>ps_events := ps_events s @ [ev]\<rparr>" and ev: "ev = ?ev\<lparr>te_pk := next_event_pk (ps_events s)\<rparr>"
    using add q(1) by (auto simp: add_event_def insert_event_def Let_def split: if_splits)
  have s2: "s2 = save_item t' s1" and t': "ti_pk t' = ti_pk t" "ti_order t' = ti_order t"
    using u update_reported_transaction_item [OF u] by (auto simp: update_reported_transaction_def Let_def q(2))
  have events: "ps_events s' = ps_events s @ [ev]" by (simp add: q(3) s2 s1)
  have keys: "distinct (map te_pk (ps_events s @ [ev]))"
    using log_keys_appended [OF assms(4), of ?ev] by (simp add: log_keys_def appended_def ev)
  define x where "x = (if te_type ev \<in> session_types \<and> \<not> truthy_text (ti_psp_reference t)
      then t\<lparr>ti_psp_reference := te_psp_reference ev\<rparr> else t)"
  have x: "t' = assign_app a (recalculate_transaction_amounts (pe_env pe) (ps_events s @ [ev])
      (set_actions (ri_available_actions r) x))" "ti_pk x = ti_pk t"
    using u unfolding update_reported_transaction_def Let_def x_def [symmetric] by (simp_all add: s1 q(2), simp add: x_def)
  have amounts: "getattr_value f t' = getattr_value f (recalculate_transaction_amounts (pe_env pe) (ps_events s @ [ev]) t)" for f
    unfolding x(1) assign_app_simps by (rule amounts_assigned [OF assms(3) keys]) (simp add: x(2))
  have "item_of (ti_pk t) s2 = Some t'"
    unfolding s2 by (rule item_of_save) (use assms(2) t' in \<open>simp_all add: s1 item_of_def\<close>)
  then have item: "item_of (ti_pk t) s' = Some t'"
    using item_of_cong [of s' s2] by (simp add: q(3) reported_tables)
  have "find_row o_id k (orders (ps_tables s2)) = Some o1" using assms(6) by (simp add: s2 s1 save_item_def)
  with updates_amounts_in_step [OF this, of "pe_precision pe"] assms(5) t'(2)
  have "\<exists>o2. find_row o_id k (orders (ps_tables s')) = Some o2 \<and> order_in_step (ps_tables s') o2"
    by (simp add: q(3) reported_tables update_order_with_transaction_details_def)
  with item events amounts show ?thesis by blast
qed

section \<open>Manual adjustments\<close>

definition sequenced :: "transaction_event \<Rightarrow> bool" where
  \<comment> \<open>The events whose order matters; the others are only added up.\<close>
  "sequenced ev \<longleftrightarrow> has_ref ev \<or> is_authorization_event ev"

lemma filter_eq_mono: "filter P xs = filter P ys \<Longrightarrow> (\<And>x. Q x \<Longrightarrow> P x) \<Longrightarrow> filter Q xs = filter Q ys"
proof -
  assume "filter P xs = filter P ys" and QP: "\<And>x. Q x \<Longrightarrow> P x"
  then have "filter Q (filter P xs) = filter Q (filter P ys)" by simp
  with QP show "filter Q xs = filter Q ys" by (metis (mono_tags, lifting) filter_cong filter_filter)
qed

lemma find_filter: "find P xs = find P (filter P xs)"
  by (induction xs) auto

lemma sequenced_functions:
  assumes "filter sequenced es' = filter sequenced es"
  shows "get_authorize_events es' = get_authorize_events es" "refs es' = refs es" "last_of es' = last_of es"
proof -
  have part: "filter Q es' = filter Q es" if "\<And>x. Q x \<Longrightarrow> sequenced x" for Q
    by (rule filter_eq_mono [OF assms that])
  have auth: "filter is_authorization_event es' = filter is_authorization_event es" by (rule part) (simp add: sequenced_def)
  then show "get_authorize_events es' = get_authorize_events es" by (simp add: get_authorize_events_def)
  have "filter has_ref es' = filter has_ref es" by (rule part) (simp add: sequenced_def)
  then show "refs es' = refs es" by (simp add: refs_def)
  show "last_of es' = last_of es"
  proof (intro ext)
    fix p ty
    let ?Q = "\<lambda>e. has_ref e \<and> ref_of e = p \<and> te_type e = ty"
    have "filter ?Q es' = filter ?Q es" by (rule part) (simp add: sequenced_def)
    then show "last_of es' p ty = last_of es p ty"
      unfolding last_of_def find_filter [of ?Q "rev es'"] find_filter [of ?Q "rev es"] by (simp add: rev_filter [symmetric])
  qed
qed

lemma spec_amount_adjusted:
  assumes "filter sequenced es' = filter sequenced es" and "\<And>ty. unreferenced es' ty = unreferenced es ty + d ty"
  shows "spec_amount f es' = spec_amount f es + (case f of Charged_Value \<Rightarrow> d CHARGE_SUCCESS - d CHARGE_BACK + d REFUND_REVERSE
      | Refunded_Value \<Rightarrow> d REFUND_SUCCESS | Canceled_Value \<Rightarrow> d CANCEL_SUCCESS | _ \<Rightarrow> 0)"
proof -
  note same = sequenced_functions [OF assms(1)]
  have "pending_amount es' = pending_amount es" "counted_amount es' = counted_amount es"
    by (simp_all only: fun_eq_iff pending_amount_def counted_amount_def same simp_thms)
  moreover from this have "moved es' = moved es" by (simp add: fun_eq_iff moved_def same)
  moreover have "authorized_start es' = authorized_start es" by (simp only: authorized_start_def same)
  ultimately show ?thesis by (cases f) (simp_all add: same assms(2))
qed

definition own_events :: "event_rows \<Rightarrow> transaction_item \<Rightarrow> transaction_event list" where
  "own_events rows t = filter (\<lambda>ev. te_transaction ev = ti_pk t \<and> te_include_in_calculations ev) rows"

lemma events_of_mset:
  assumes "row_order_ok e" and "distinct (map te_pk rows)"
  shows "mset (events_of e rows t) = mset (own_events rows t)"
  using in_row_order_mset [OF assms(1), of te_pk "own_events rows t"] assms(2)
  by (simp add: events_of_def own_events_def distinct_map_filter)

lemma unreferenced_own:
  assumes "row_order_ok e" and "distinct (map te_pk rows)"
  shows "unreferenced (events_of e rows t) ty = unreferenced (own_events rows t) ty"
proof -
  have "mset (map te_amount_value (filter (\<lambda>e. \<not> has_ref e \<and> te_type e = ty) (events_of e rows t)))
      = mset (map te_amount_value (filter (\<lambda>e. \<not> has_ref e \<and> te_type e = ty) (own_events rows t)))"
    using events_of_mset [OF assms, of t] by (simp only: mset_map mset_filter)
  then show ?thesis unfolding unreferenced_def by (metis sum_mset_sum_list)
qed

lemma sequenced_own:
  assumes e: "row_order_ok e" and rows: "distinct (map te_pk (rows @ new))"
    and inj: "inj_on te_created_at {ev \<in> set rows. sequenced ev}" and new: "\<forall>ev \<in> set new. \<not> sequenced ev"
  shows "filter sequenced (events_of e (rows @ new) t) = filter sequenced (events_of e rows t)"
proof -
  let ?in = "\<lambda>rows. filter sequenced (in_row_order e te_pk (own_events rows t))"
  have events: "filter sequenced (events_of e rows t) = sort_key te_created_at (?in rows)" for rows
    by (simp add: events_of_def own_events_def filter_sort)
  have in_mset: "mset (?in rs) = mset (filter sequenced (own_events rs t))" if "distinct (map te_pk rs)" for rs
  proof -
    have "mset (in_row_order e te_pk (own_events rs t)) = mset (own_events rs t)"
      by (rule in_row_order_mset [OF e]) (simp add: own_events_def distinct_map_filter that)
    then show ?thesis by (simp only: mset_filter)
  qed
  have "filter sequenced (own_events (rows @ new) t) = filter sequenced (own_events rows t)"
    using new by (auto simp: own_events_def filter_empty_conv)
  moreover have "distinct (map te_pk rows)" using rows by simp
  ultimately have "mset (?in (rows @ new)) = mset (?in rows)" using in_mset [OF rows] in_mset by (simp only:)
  moreover have "inj_on te_created_at (set (?in (rows @ new)))"
  proof (rule inj_on_subset [OF inj])
    show "set (?in (rows @ new)) \<subseteq> {ev \<in> set rows. sequenced ev}"
      using mset_eq_setD [OF in_mset [OF rows]] new by (auto simp: own_events_def)
  qed
  ultimately show ?thesis unfolding events by (rule sort_key_unique)
qed

lemma insert_all_rows:
  "\<exists>new. insert_all evs rows = rows @ new \<and> list_all2 (\<lambda>ev x. \<exists>k. x = ev\<lparr>te_pk := k\<rparr>) evs new"
proof (induction evs arbitrary: rows)
  case (Cons ev evs)
  let ?x = "ev\<lparr>te_pk := next_event_pk rows\<rparr>"
  obtain new where new: "insert_all evs (rows @ [?x]) = (rows @ [?x]) @ new"
      "list_all2 (\<lambda>ev x. \<exists>k. x = ev\<lparr>te_pk := k\<rparr>) evs new"
    using Cons.IH [of "rows @ [?x]"] by blast
  have "list_all2 (\<lambda>ev x. \<exists>k. x = ev\<lparr>te_pk := k\<rparr>) (ev # evs) (?x # new)"
    unfolding list_all2_Cons using new(2) by blast
  moreover have "insert_all (ev # evs) rows = rows @ (?x # new)" using new(1) by simp
  ultimately show ?case by blast
qed simp

lemma insert_all_keys: "log_keys rows \<Longrightarrow> log_keys (insert_all evs rows)"
proof (induction evs arbitrary: rows)
  case (Cons ev evs)
  from Cons.IH [OF log_keys_appended [OF Cons.prems, of ev]] show ?case by (simp add: appended_def)
qed simp

lemma unreferenced_pk:
  assumes "list_all2 (\<lambda>ev x. \<exists>k. x = ev\<lparr>te_pk := k\<rparr>) evs new"
  shows "unreferenced (own_events new t) ty = unreferenced (own_events evs t) ty
    \<and> ((\<forall>ev \<in> set new. \<not> sequenced ev) \<longleftrightarrow> (\<forall>ev \<in> set evs. \<not> sequenced ev))"
  using assms
proof (induction rule: list_all2_induct)
  case (Cons ev evs x new)
  then obtain k where "x = ev\<lparr>te_pk := k\<rparr>" by blast
  then have "has_ref x = has_ref ev" "te_type x = te_type ev" "te_amount_value x = te_amount_value ev"
    "te_transaction x = te_transaction ev" "te_include_in_calculations x = te_include_in_calculations ev"
    "sequenced x = sequenced ev"
    by (simp_all add: has_ref_def sequenced_def is_authorization_event_def)
  with Cons.IH show ?case by (simp add: own_events_def unreferenced_def)
qed simp

definition adjustment :: "payment_env \<Rightarrow> amount_field \<Rightarrow> money_data \<Rightarrow> transaction_event_type \<Rightarrow> transaction_item \<Rightarrow> pk option
    \<Rightarrow> app option \<Rightarrow> transaction_event list" where
  "adjustment pe f m ty t user a = prepare_manual_event pe f m ty t user a []"

lemma prepare_manual_event_append:
  "prepare_manual_event pe f m ty t user a evs = evs @ adjustment pe f m ty t user a"
  by (simp add: adjustment_def prepare_manual_event_def split: option.split)

lemma unreferenced_append [simp]:
  "unreferenced (xs @ ys) ty = unreferenced xs ty + unreferenced ys ty"
  "own_events (xs @ ys) t = own_events xs t @ own_events ys t"
  by (simp_all add: unreferenced_def own_events_def)

lemma unreferenced_adjustment:
  assumes "ti_pk t' = ti_pk t"
  shows "unreferenced (own_events (adjustment pe f m ty t user a) t') ty' =
    (case money_data_get f m of None \<Rightarrow> 0 | Some v \<Rightarrow> if ty' = ty then v - getattr_value f t else 0)"
  using assms by (simp add: adjustment_def prepare_manual_event_def manual_event_def own_events_def unreferenced_def
      has_ref_def truthy_text_def split: option.split)

lemma adjustment_not_sequenced:
  "ty \<in> {CHARGE_SUCCESS, REFUND_SUCCESS, CANCEL_SUCCESS} \<Longrightarrow> ev \<in> set (adjustment pe f m ty t user a) \<Longrightarrow> \<not> sequenced ev"
  by (auto simp: adjustment_def prepare_manual_event_def manual_event_def sequenced_def has_ref_def truthy_text_def
      is_authorization_event_def split: option.splits if_splits)

definition adjustments :: "payment_env \<Rightarrow> money_data \<Rightarrow> transaction_item \<Rightarrow> pk option \<Rightarrow> app option \<Rightarrow> transaction_event list" where
  "adjustments pe m t user a = adjustment pe Charged_Value m CHARGE_SUCCESS t user a
     @ adjustment pe Refunded_Value m REFUND_SUCCESS t user a @ adjustment pe Canceled_Value m CANCEL_SUCCESS t user a"

lemma create_manual_adjustment_rows:
  assumes "create_manual_adjustment_events pe t m user a rows = (None, rows')" and "md_authorized_value m = None"
  shows "rows' = insert_all (adjustments pe m t user a) rows"
  using assms by (auto simp: create_manual_adjustment_events_def adjust_authorized_def bulk_create_events_def
      prepare_manual_event_append adjustments_def split: if_splits)

lemma spec_after_adjustments:
  assumes e: "row_order_ok e" and keys: "log_keys rows" and inj: "inj_on te_created_at {ev \<in> set rows. sequenced ev}"
    and t: "ti_pk t1 = ti_pk t" and current: "\<And>f. getattr_value f t1 = spec_amount f (events_of e rows t)"
  shows "spec_amount f (events_of e (insert_all (adjustments pe m t1 user a) rows) t) =
    (case money_data_get f m of Some v \<Rightarrow> if f = Authorized_Value then spec_amount f (events_of e rows t) else v
     | None \<Rightarrow> spec_amount f (events_of e rows t))"
proof -
  let ?evs = "adjustments pe m t1 user a"
  obtain new where new: "insert_all ?evs rows = rows @ new" "list_all2 (\<lambda>ev x. \<exists>k. x = ev\<lparr>te_pk := k\<rparr>) ?evs new"
    using insert_all_rows by blast
  have dist: "distinct (map te_pk (rows @ new))" "distinct (map te_pk rows)"
    using insert_all_keys [OF keys, of ?evs] keys new(1) by (simp_all add: log_keys_def)
  have "\<forall>ev \<in> set ?evs. \<not> sequenced ev" by (auto simp: adjustments_def dest: adjustment_not_sequenced [rotated])
  then have seq: "filter sequenced (events_of e (rows @ new) t) = filter sequenced (events_of e rows t)"
    using unreferenced_pk [OF new(2)] by (intro sequenced_own [OF e dist(1) inj]) blast
  let ?d = "\<lambda>ty. unreferenced (own_events ?evs t) ty"
  have un: "unreferenced (events_of e (rows @ new) t) ty = unreferenced (events_of e rows t) ty + ?d ty" for ty
    using unreferenced_pk [OF new(2)] by (simp add: unreferenced_own [OF e dist(1)] unreferenced_own [OF e dist(2)])
  show ?thesis
    unfolding new(1) spec_amount_adjusted [OF seq un]
    using unreferenced_adjustment [OF t [symmetric]] current
    by (cases f) (simp_all add: adjustments_def split: option.split)
qed

text \<open>
  C27: a manual update of the charged, refunded and canceled amounts is exact: after
  \<open>TransactionUpdate.update_transaction\<close> each given amount is the one asked for, and every other amount is what
  the events gave before, whatever was charged, refunded or canceled with references.
\<close>

theorem manual_update_exact:
  assumes "update_transaction pe i m user a t s = (Inr t', s')" and "\<not> no_money_data m" and "md_authorized_value m = None"
    and "row_order_ok (pe_env pe)" and "log_keys (ps_events s)"
    and "inj_on te_created_at {ev \<in> set (ps_events s). sequenced ev}"
  shows "getattr_value f t' = (case money_data_get f m of Some v \<Rightarrow> v
    | None \<Rightarrow> getattr_value f (recalculate_transaction_amounts (pe_env pe) (ps_events s) t))"
proof -
  let ?e = "pe_env pe" and ?rows = "ps_events s"
  let ?t1 = "calculate_transaction_amount_based_on_events ?e ?rows (construct_instance i t)"
  obtain rows' where rows': "create_manual_adjustment_events pe ?t1 m user a ?rows = (None, rows')"
      "t' = recalculate_transaction_amounts ?e rows' ?t1"
    using assms(1,2) by (auto simp: update_transaction_def Let_def split: if_splits prod.splits option.splits)
  have dist: "distinct (map te_pk ?rows)" using assms(5) by (simp add: log_keys_def)
  have pk: "ti_pk (construct_instance i t) = ti_pk t" by (simp add: construct_instance_def)
  have pk1: "ti_pk ?t1 = ti_pk t"
    using arg_cong [OF calculate_from_frame [of "events_of ?e ?rows (construct_instance i t)" "construct_instance i t"], of ti_pk]
    by (simp add: calculate_transaction_amount_based_on_events_def set_transaction_amounts_to_zero_def pk)
  have same: "events_of ?e rows (construct_instance i t) = events_of ?e rows t" "events_of ?e rows ?t1 = events_of ?e rows t" for rows
    by (simp_all add: events_of_def pk pk1)
  have current: "getattr_value g ?t1 = spec_amount g (events_of ?e ?rows t)" for g
    using calculate_from_spec [OF events_of_distinct [OF assms(4) dist], of g t]
    by (simp add: calculate_transaction_amount_based_on_events_def same)
  have rows: "rows' = insert_all (adjustments pe m ?t1 user a) ?rows"
    by (rule create_manual_adjustment_rows [OF rows'(1) assms(3)])
  have dist': "distinct (map te_pk rows')" using insert_all_keys [OF assms(5)] by (simp add: rows log_keys_def)
  have none: "money_data_get Authorize_Pending_Value m = None" "money_data_get Authorized_Value m = None" using assms(3) by simp_all
  have after: "getattr_value f t' = (if f \<in> {Authorized_Value, Authorize_Pending_Value}
      then max (spec_amount f (events_of ?e rows' t)) 0 else spec_amount f (events_of ?e rows' t))"
    unfolding rows'(2) recalculation_spec_fact [OF assms(4) dist'] same ..
  have before: "getattr_value f (recalculate_transaction_amounts ?e ?rows t) = (if f \<in> {Authorized_Value, Authorize_Pending_Value}
      then max (spec_amount f (events_of ?e ?rows t)) 0 else spec_amount f (events_of ?e ?rows t))"
    by (rule recalculation_spec_fact [OF assms(4) dist])
  show ?thesis
    unfolding after before rows spec_after_adjustments [OF assms(4-6) pk1 current] using none
    by (cases "f \<in> {Authorized_Value, Authorize_Pending_Value}") (auto split: option.split)
qed

section \<open>Examples\<close>

lemma report_accepted:
  assumes "check_if_requestor_has_access t user a" and "clean_event pe (reported_event pe r t user a)"
    and "get_already_existing_event (reported_event pe r t user a) (ps_events s) = None"
    and "\<not> second_authorization (reported_event pe r t user a) (ps_events s)"
  shows "\<exists>t' ev s'. transaction_event_report pe r user a t s = (Inr (False, t', ev), s')"
  using assms
  by (auto simp: transaction_event_report_def Let_def second_authorization_def reported_event_def add_event_def
      insert_event_def clean_event_def split: prod.split)

lemma ex_report_facts:
  "check_if_requestor_has_access ex_paid_item None None"
  "clean_event ex_pe (reported_event ex_pe (ex_report CHARGE_SUCCESS 30) ex_paid_item None None)"
  "get_already_existing_event (reported_event ex_pe (ex_report CHARGE_SUCCESS 30) ex_paid_item None None) (ps_events ex_pay_state) = None"
  "\<not> second_authorization (reported_event ex_pe (ex_report CHARGE_SUCCESS 30) ex_paid_item None None) (ps_events ex_pay_state)"
  "\<not> only_recorded (ri_type (ex_report CHARGE_SUCCESS 30))"
  "item_of (ti_pk ex_paid_item) ex_pay_state = Some ex_paid_item" "ti_order ex_paid_item = Some 1"
  "find_row o_id 1 (orders (ps_tables ex_pay_state)) = Some ex_sales_order"
  by code_simp+

lemma ex_report_run:
  obtains t' ev s' where "transaction_event_report ex_pe (ex_report CHARGE_SUCCESS 30) None None ex_paid_item ex_pay_state
    = (Inr (False, t', ev), s')"
  using report_accepted [OF ex_report_facts(1-4)] by blast

lemma ex_pe_row_order: "row_order_ok (pe_env ex_pe)"
  using ex_events_facts(1) by (simp add: ex_pe_def)

lemma rejected_report_harmless_witness:
  "ps_tables (snd (transaction_event_report ex_pe (ex_report AUTHORIZATION_SUCCESS 30) None None ex_paid_item ex_pay_state))
    = ps_tables ex_pay_state"
proof -
  have "isl (fst (transaction_event_report ex_pe (ex_report AUTHORIZATION_SUCCESS 30) None None ex_paid_item ex_pay_state))"
    by code_simp
  then obtain er s' where run: "transaction_event_report ex_pe (ex_report AUTHORIZATION_SUCCESS 30) None None ex_paid_item ex_pay_state
      = (Inl er, s')" by (metis isl_def prod.collapse)
  from rejected_report_harmless [OF run] run show ?thesis by simp
qed

lemma report_twice_witness:
  "\<exists>t' ev s' s. transaction_event_report (ex_pe\<lparr>pe_env := ex_env2\<rparr>) (ex_report CHARGE_SUCCESS 30) None None t' s' = (Inr (True, t', ev), s)"
proof -
  obtain t' ev s' where run: "transaction_event_report ex_pe (ex_report CHARGE_SUCCESS 30) None None ex_paid_item ex_pay_state
      = (Inr (False, t', ev), s')" by (rule ex_report_run)
  from report_twice [OF run ex_report_facts(5)] show ?thesis by blast
qed

lemma accepted_report_in_step_witness:
  "\<exists>t' s' o2. item_of 1 s' = Some t' \<and> find_row o_id 1 (orders (ps_tables s')) = Some o2 \<and> order_in_step (ps_tables s') o2"
proof -
  obtain t' ev s' where run: "transaction_event_report ex_pe (ex_report CHARGE_SUCCESS 30) None None ex_paid_item ex_pay_state
      = (Inr (False, t', ev), s')" by (rule ex_report_run)
  from accepted_report_in_step [OF run ex_report_facts(6) ex_pe_row_order ex_pay_state_facts(3) ex_report_facts(7,8)]
  moreover have "ti_pk ex_paid_item = 1" by (simp add: ex_paid_item_def ex_item_def)
  ultimately show ?thesis by auto
qed

definition ex_money :: money_data where
  "ex_money = \<lparr>md_authorized_value = None, md_charged_value = Some 25, md_refunded_value = None, md_canceled_value = None\<rparr>"

definition no_input :: transaction_input where
  "no_input = \<lparr>tin_name = None, tin_message = None, tin_psp_reference = None, tin_available_actions = None,
     tin_amount_authorized = None, tin_amount_charged = None, tin_amount_refunded = None, tin_amount_canceled = None\<rparr>"

lemma manual_events_fit:
  "list_all event_fits (adjustments pe m t user None)"
  by (auto simp: adjustments_def adjustment_def prepare_manual_event_def manual_event_def event_fits_def split: option.split)

lemma update_accepted:
  assumes "tin_psp_reference i = None" and "\<not> no_money_data m" and "md_authorized_value m = None"
  shows "\<exists>t' s'. update_transaction pe i m user None t s = (Inr t', s')"
proof -
  have "create_manual_adjustment_events pe t1 m user None rows = (None, insert_all (adjustments pe m t1 user None) rows)" for t1 rows
    using manual_events_fit assms(3)
    by (simp add: create_manual_adjustment_events_def adjust_authorized_def prepare_manual_event_append bulk_create_events_def
        adjustments_def Let_def)
  then show ?thesis using assms(1,2) by (simp add: update_transaction_def Let_def truthy_text_def)
qed

lemma manual_update_exact_witness:
  "\<exists>t' s'. update_transaction ex_pe no_input ex_money None None ex_paid_item ex_pay_state = (Inr t', s') \<and> ti_charged_value t' = 25"
proof -
  have m: "\<not> no_money_data ex_money" "md_authorized_value ex_money = None"
    by (simp_all add: no_money_data_def ex_money_def)
  obtain t' s' where run: "update_transaction ex_pe no_input ex_money None None ex_paid_item ex_pay_state = (Inr t', s')"
    using update_accepted [OF _ m, of no_input ex_pe None ex_paid_item ex_pay_state] by (auto simp: no_input_def)
  have "inj_on te_created_at {ev \<in> set (ps_events ex_pay_state). sequenced ev}"
    using ex_events_facts(4) by (auto simp: ex_pay_state_def intro: inj_on_subset)
  from manual_update_exact [OF run m ex_pe_row_order ex_pay_state_facts(3) this, of Charged_Value] run
  show ?thesis by (simp add: ex_money_def)
qed

text \<open>
  The authorized amount is not covered: where the transaction has a successful authorization, the update is an
  adjustment to the given amount, from which the referenced charges are then taken.
\<close>

lemma manual_authorization_inexact:
  "spec_amount Authorized_Value [ex_event 1 10 (Some ''a'') AUTHORIZATION_SUCCESS 100, ex_event 2 20 (Some ''c'') CHARGE_SUCCESS 60] = 40"
  "spec_amount Authorized_Value [ex_event 1 10 (Some ''a'') AUTHORIZATION_SUCCESS 100, ex_event 2 20 (Some ''c'') CHARGE_SUCCESS 60,
     ex_event 3 30 None AUTHORIZATION_ADJUSTMENT 70] = 10"
  by (simp_all add: authorized_start_def get_authorize_events_def is_authorization_event_def refs_def has_ref_def ref_of_def
      ex_event_def truthy_text_def moved_def pending_amount_def counted_amount_def last_of_def unreferenced_def amount_of_def)

end
