(* ===== verification/Transaction_Sessions.thy ===== *)
theory Transaction_Sessions
  imports Transaction_Reports
begin

text \<open>
  The session of a payment app: a transaction that is initialized stays open while the app gives no usable answer, and
  the first good answer finishes it.
\<close>

section \<open>Open sessions\<close>

definition waiting_event :: "transaction_event \<Rightarrow> bool" where
  "waiting_event ev \<longleftrightarrow> \<not> te_include_in_calculations ev \<and> event_fits ev
     \<and> te_type ev \<in> {AUTHORIZATION_REQUEST, CHARGE_REQUEST, AUTHORIZATION_FAILURE, CHARGE_FAILURE}"

definition open_session :: "app list \<Rightarrow> transaction_item \<Rightarrow> pay_state \<Rightarrow> bool" where
  \<comment> \<open>Nothing counts yet, and the request is there.\<close>
  "open_session apps t s \<longleftrightarrow> item_of (ti_pk t) s = Some t \<and> log_keys (ps_events s)
     \<and> (ti_order t \<noteq> None \<or> ti_checkout t \<noteq> None) \<and> clean_payment_app apps t \<noteq> None
     \<and> (\<forall>ev \<in> set (ps_events s). te_transaction ev = ti_pk t \<longrightarrow> waiting_event ev)
     \<and> (\<exists>ev \<in> set (ps_events s). te_transaction ev = ti_pk t \<and> te_type ev \<in> {AUTHORIZATION_REQUEST, CHARGE_REQUEST})"

lemma open_session_request:
  assumes "open_session apps t s"
  obtains ev a where "get_already_processed_event (events_of_item t s) = None"
    "get_request_event (events_of_item t s) = Some ev" "ev \<in> set (ps_events s)" "te_transaction ev = ti_pk t"
    "te_type ev \<in> {AUTHORIZATION_REQUEST, CHARGE_REQUEST}" "waiting_event ev" "clean_payment_app apps t = Some a"
proof -
  obtain x where x: "x \<in> set (ps_events s)" "te_transaction x = ti_pk t" "te_type x \<in> {AUTHORIZATION_REQUEST, CHARGE_REQUEST}"
    using assms by (auto simp: open_session_def)
  have waiting: "waiting_event ev" if "ev \<in> set (events_of_item t s)" for ev
    using that assms by (auto simp: events_of_item_def open_session_def)
  have "x \<in> set (events_of_item t s)" using x by (simp add: events_of_item_def)
  then obtain ev where ev: "get_request_event (events_of_item t s) = Some ev"
    using x(3) waiting [of x] by (cases "get_request_event (events_of_item t s)")
      (auto simp: get_request_event_def find_None_iff waiting_event_def)
  then have "ev \<in> set (events_of_item t s)" "te_type ev \<in> {AUTHORIZATION_REQUEST, CHARGE_REQUEST}"
    by (auto simp: get_request_event_def dest: find_SomeD)
  moreover from this have "ev \<in> set (ps_events s)" "te_transaction ev = ti_pk t" by (auto simp: events_of_item_def)
  moreover have "get_already_processed_event (events_of_item t s) = None"
    using waiting by (auto simp: get_already_processed_event_def find_None_iff waiting_event_def)
  moreover obtain a where "clean_payment_app apps t = Some a" using assms by (auto simp: open_session_def)
  ultimately show ?thesis using that ev waiting by blast
qed

lemma process_open_session:
  assumes "open_session apps t s"
  obtains ev a where "transaction_process pe apps t plugin s = apfst (map_sum Process_Event_Error id)
      (create_transaction_event_for_transaction_session pe ev (Some a) (plugin ev) s)"
    "ev \<in> set (ps_events s)" "te_transaction ev = ti_pk t"
    "te_type ev \<in> {AUTHORIZATION_REQUEST, CHARGE_REQUEST}" "waiting_event ev" "a \<in> set apps"
proof -
  obtain ev a where ev: "get_already_processed_event (events_of_item t s) = None"
    "get_request_event (events_of_item t s) = Some ev" "ev \<in> set (ps_events s)" "te_transaction ev = ti_pk t"
    "te_type ev \<in> {AUTHORIZATION_REQUEST, CHARGE_REQUEST}" "waiting_event ev" "clean_payment_app apps t = Some a"
    using open_session_request [OF assms] by blast
  have "a \<in> set apps" using ev(7) by (auto simp: clean_payment_app_def split: if_splits dest!: find_SomeD)
  moreover have "transaction_process pe apps t plugin s = apfst (map_sum Process_Event_Error id)
      (create_transaction_event_for_transaction_session pe ev (Some a) (plugin ev) s)"
    using ev assms by (auto simp: transaction_process_def handle_transaction_process_session_def open_session_def)
  ultimately show ?thesis using that ev by blast
qed

lemma open_session_failed:
  assumes "open_session apps t s" and "ev \<in> set (ps_events s)" "te_transaction ev = ti_pk t"
    "te_type ev \<in> {AUTHORIZATION_REQUEST, CHARGE_REQUEST}"
  shows "open_session apps t (snd (fail_event pe ev cause s))"
proof -
  let ?x = "(failed_event pe ev cause)\<lparr>te_pk := next_event_pk (ps_events s)\<rparr>"
  have rows: "snd (fail_event pe ev cause s)
      = (if event_fits (failed_event pe ev cause) then s\<lparr>ps_events := appended (failed_event pe ev cause) (ps_events s)\<rparr> else s)"
    by (simp add: fail_event_def create_failed_transaction_event_def insert_event_def appended_def Let_def)
  have "event_fits (failed_event pe ev cause) \<longrightarrow> waiting_event ?x"
    using assms(4) by (auto simp: waiting_event_def event_fits_def failed_event_def get_failed_type_based_on_event_def
        get_failed_transaction_event_type_for_request_event_def)
  then show ?thesis unfolding rows
    using assms(1) log_keys_appended [of "ps_events s" "failed_event pe ev cause"]
    by (auto simp: open_session_def item_of_def appended_def)
qed

lemma silent_session_open:
  assumes "open_session apps t s"
  shows "open_session apps t (snd (transaction_process pe apps t (\<lambda>_. None) s))"
proof -
  have silent: "create_transaction_event_for_transaction_session pe ev a None s
      = fail_event pe ev ''Failed to delivery request.'' s" for ev a
    by (simp add: create_transaction_event_for_transaction_session_def get_parsed_transaction_action_data_def)
  obtain ev a where ev: "transaction_process pe apps t (\<lambda>_. None) s = apfst (map_sum Process_Event_Error id)
      (fail_event pe ev ''Failed to delivery request.'' s)" "ev \<in> set (ps_events s)" "te_transaction ev = ti_pk t"
    "te_type ev \<in> {AUTHORIZATION_REQUEST, CHARGE_REQUEST}"
    using process_open_session [OF assms, of pe "\<lambda>_. None"] unfolding silent by blast
  show ?thesis unfolding ev(1) snd_apfst by (rule open_session_failed [OF assms ev(2-4)])
qed

text \<open>The rounds of a session in which the app gives no answer, at any times.\<close>

inductive silent_rounds :: "app list \<Rightarrow> transaction_item \<Rightarrow> pay_state \<Rightarrow> pay_state \<Rightarrow> bool" for apps t where
  silent_none: "silent_rounds apps t s s"
| silent_round: "silent_rounds apps t s s' \<Longrightarrow>
    silent_rounds apps t s (snd (transaction_process pe apps t (\<lambda>_. None) s'))"

lemma silent_rounds_open: "silent_rounds apps t s s' \<Longrightarrow> open_session apps t s \<Longrightarrow> open_session apps t s'"
  by (induction rule: silent_rounds.induct) (auto intro: silent_session_open)

section \<open>A good answer\<close>

text \<open>The tables that a session leaves alone.\<close>

lemma change_items [simp]:
  "payment_transactions (ps_tables (order_or_checkout_changed pe t0 t s)) = payment_transactions (ps_tables s)"
  by (simp add: order_or_checkout_changed_def order_changed_tables)

lemma events_of_single:
  assumes "row_order_ok e" and "log_keys rows" and "own_events rows t = [ev]"
  shows "events_of e rows t = [ev]"
proof -
  have "mset (events_of e rows t) = {#ev#}"
    using events_of_mset [OF assms(1), of rows t] assms(2,3) by (simp add: log_keys_def)
  then show ?thesis by (metis mset_single_iff_right mset.simps)
qed

lemma charged_single:
  assumes "row_order_ok e" and "log_keys rows" and "own_events rows t = [ev]" and "te_type ev = CHARGE_SUCCESS" and "has_ref ev"
  shows "ti_charged_value (recalculate_transaction_amounts e rows t) = te_amount_value ev"
proof -
  have "refs [ev] = {ref_of ev}" using assms(5) by (simp add: refs_def)
  then have "spec_amount Charged_Value [ev] = te_amount_value ev"
    using assms(4,5) by (simp add: unreferenced_def last_of_def counted_amount_def moved_def pending_amount_def amount_of_def)
  then show ?thesis
    using recalculation_spec_fact [OF assms(1), of rows Charged_Value t] assms(2) events_of_single [OF assms(1-3)]
    by (simp add: log_keys_def)
qed

definition charging_answer :: "payment_env \<Rightarrow> app list \<Rightarrow> response_data \<Rightarrow> decimal \<Rightarrow> bool" where
  \<comment> \<open>An answer that says, with a reference, that an amount was charged, and whose texts fit.\<close>
  "charging_answer pe apps d v \<longleftrightarrow> (\<exists>rr re.
     get_parsed_transaction_action_data pe (Some d) session_request False True = Inr (Some rr, None)
     \<and> rr_event rr = Some re \<and> er_type re = CHARGE_SUCCESS \<and> er_amount re = v \<and> truthy_text (er_psp_reference re)
     \<and> fits 512 (er_psp_reference re) \<and> fits 512 (er_message re) \<and> fits 200 (er_external_url re)
     \<and> (\<forall>a \<in> set apps. fits 256 (app_identifier a)))"

lemma own_events_replaced:
  assumes "\<forall>r \<in> set rows. te_transaction r = ti_pk t \<longrightarrow> \<not> te_include_in_calculations r"
    and "\<not> te_include_in_calculations x" and "te_pk x \<noteq> te_pk y" and "te_transaction y = ti_pk t" "te_include_in_calculations y"
  shows "own_events (replaced x (rows @ [y])) t = [y]"
  using assms by (auto simp: own_events_def replaced_def filter_empty_conv)

lemma good_answer_charges:
  assumes s: "open_session apps t s" and good: "charging_answer pe apps d v" and order: "row_order_ok (pe_env pe)"
    and row: "ev \<in> set (ps_events s)" "te_transaction ev = ti_pk t" "waiting_event ev" and a: "a \<in> set apps"
  shows "\<exists>new s' t'. create_transaction_event_for_transaction_session pe ev (Some a) (Some d) s = (Inr new, s')
    \<and> te_type new = CHARGE_SUCCESS \<and> te_include_in_calculations new \<and> item_of (ti_pk t) s' = Some t' \<and> ti_charged_value t' = v"
proof -
  obtain rr re where re: "get_parsed_transaction_action_data pe (Some d) session_request False True = Inr (Some rr, None)"
    "rr_event rr = Some re" "er_type re = CHARGE_SUCCESS" "er_amount re = v" "truthy_text (er_psp_reference re)"
    "fits 512 (er_psp_reference re)" "fits 512 (er_message re)" "fits 200 (er_external_url re)" "fits 256 (app_identifier a)"
    using good a by (auto simp: charging_answer_def)
  let ?rows = "ps_events s"
  let ?x = "response_event pe re (Some a) (ti_pk t) (te_currency ev)"
  define new where "new = ?x\<lparr>te_pk := next_event_pk ?rows\<rparr>"
  let ?req = "ev\<lparr>te_psp_reference := er_psp_reference re\<rparr>"
  let ?rows' = "replaced ?req (?rows @ [new])"
  have waiting: "\<forall>r \<in> set ?rows. te_transaction r = ti_pk t \<longrightarrow> waiting_event r" and keys: "log_keys ?rows"
    and item: "item_of (ti_pk t) s = Some t" using s by (simp_all add: open_session_def)
  have "\<not> only_recorded CHARGE_SUCCESS" by (simp add: only_recorded_def)
  moreover have "find (same_event ?x) (sort_key te_pk ?rows) = None"
    using waiting re(3) by (auto simp: find_None_iff same_event_def response_event_def waiting_event_def)
  ultimately have "deduplicate_event ?x ?rows = (?x, None)"
    using re(3) by (simp add: deduplicate_event_def get_already_existing_event_def response_event_def)
  moreover have "event_fits ?x"
    using re(6-9) by (auto simp: event_fits_def response_event_def app_identifier_of_def)
  ultimately have rec: "record_response_event pe re (Some a) ev s = (Inr (Some new, None), s\<lparr>ps_events := ?rows @ [new]\<rparr>)"
    using row(2) by (simp add: record_response_event_def create_event_from_response_def insert_event_def Let_def new_def
        response_event_def)
  have "event_fits ?req" using row(3) re(6) by (simp add: waiting_event_def event_fits_def)
  moreover have psp: "te_psp_reference new = er_psp_reference re" by (simp add: new_def response_event_def)
  ultimately have save: "save_request_event (ev\<lparr>te_psp_reference := te_psp_reference new\<rparr>) (s\<lparr>ps_events := ?rows @ [new]\<rparr>)
      = (None, s\<lparr>ps_events := ?rows'\<rparr>)"
    by (simp add: save_request_event_def update_event_def replaced_def)
  let ?s' = "finish_session pe new (rr_available_actions rr) (s\<lparr>ps_events := ?rows'\<rparr>)"
  have run: "create_transaction_event_for_transaction_session pe ev (Some a) (Some d) s = (Inr new, ?s')"
    unfolding create_transaction_event_for_transaction_session_def re(1) sum.case prod.case option.case re(2)
    using re(3,5) rec save by simp
  have type_new: "te_type new = CHARGE_SUCCESS" "te_include_in_calculations new" "te_transaction new = ti_pk t" "te_amount_value new = v"
    "has_ref new"
    using re(3-5) by (simp_all add: new_def response_event_def has_ref_def)
  have keys': "log_keys ?rows'"
    using log_keys_replaced [OF log_keys_appended [OF keys, of ?x]] by (simp add: appended_def new_def)
  have fresh: "te_pk ?req \<noteq> te_pk new" using next_event_pk_greater [OF row(1)] by (simp add: new_def)
  define t' where "t' = recalculate_transaction_amounts (pe_env pe) ?rows'
      (set_actions (rr_available_actions rr) (t\<lparr>ti_psp_reference := te_psp_reference new\<rparr>))"
  have "own_events ?rows' (set_actions (rr_available_actions rr) (t\<lparr>ti_psp_reference := te_psp_reference new\<rparr>)) = [new]"
    using waiting row(3) fresh type_new by (intro own_events_replaced) (auto simp: waiting_event_def)
  from charged_single [OF order keys' this] type_new have charged: "ti_charged_value t' = v" by (simp add: t'_def)
  have item': "item_of (ti_pk t) (s\<lparr>ps_events := ?rows'\<rparr>) = Some t" using item by (simp add: item_of_def)
  have "item_of (ti_pk t) ?s' = item_of (ti_pk t) (save_item t' (s\<lparr>ps_events := ?rows'\<rparr>))"
    using type_new item' by (intro item_of_cong) (simp add: finish_session_def session_types_def t'_def Let_def)
  also have "\<dots> = Some t'" using item' by (intro item_of_save) (simp_all add: t'_def)
  finally show ?thesis using run type_new charged by blast
qed

lemma initialized_session_open:
  assumes init: "handle_transaction_initialize_session pe source v action a (\<lambda>_. None) s = (Inr ev, s')"
    and keys: "log_keys (ps_events s)"
    and known: "te_transaction ` set (ps_events s) \<subseteq> ti_pk ` set (payment_transactions (ps_tables s))"
    and app: "truthy_text (app_identifier a)" "a \<in> set apps"
  shows "\<exists>t. item_of (te_transaction ev) s' = Some t \<and> open_session apps t s'"
proof -
  define t where "t = new_item (next_item_pk s) source None (Some a) None None []"
  define s1 where "s1 = s\<lparr>ps_tables := (ps_tables s)\<lparr>payment_transactions := payment_transactions (ps_tables s) @ [t]\<rparr>\<rparr>"
  have item: "create_transaction_item source None (Some a) None None [] s = (t, s1)"
    by (simp add: create_transaction_item_def t_def s1_def Let_def)
  have pk: "ti_pk t = next_item_pk s" by (simp add: t_def new_item_def)
  have ge: "m \<le> fold max xs m" "x \<in> set xs \<Longrightarrow> x \<le> fold max xs m" for x :: nat and xs m
    by (induction xs arbitrary: m) (auto, (metis max.boundedE order.trans)+)
  have above: "k < next_item_pk s" if "k \<in> ti_pk ` set (payment_transactions (ps_tables s))" for k
    using ge(2) [of k "map ti_pk (payment_transactions (ps_tables s))" 0] that by (auto simp: next_item_pk_def)
  have found: "item_of (ti_pk t) s1 = Some t"
  proof -
    have "find (\<lambda>r. ti_pk r = ti_pk t) (xs @ [t]) = Some t" if "\<forall>x \<in> set xs. ti_pk x \<noteq> ti_pk t" for xs
      using that by (induction xs) auto
    moreover have "\<forall>x \<in> set (payment_transactions (ps_tables s)). ti_pk x \<noteq> ti_pk t" using above pk by fastforce
    ultimately show ?thesis by (simp add: s1_def item_of_def find_row_def)
  qed
  let ?x = "request_event pe t (if action = FLOW_CHARGE then CHARGE_REQUEST else AUTHORIZATION_REQUEST) v None None"
  let ?ev = "?x\<lparr>te_pk := next_event_pk (ps_events s)\<rparr>"
  let ?s2 = "s1\<lparr>ps_events := ps_events s @ [?ev]\<rparr>"
  have "event_fits ?x" by (simp add: request_event_def event_fits_def)
  then have add: "add_event ?x s1 = (Inr ?ev, ?s2)" by (simp add: add_event_def insert_event_def s1_def Let_def)
  have run: "fail_event pe ?ev ''Failed to delivery request.'' ?s2 = (Inr ev, s')"
    using init item add by (simp add: handle_transaction_initialize_session_def
        create_transaction_event_for_transaction_session_def get_parsed_transaction_action_data_def)
  have request: "te_transaction ?ev = ti_pk t" "te_type ?ev \<in> {AUTHORIZATION_REQUEST, CHARGE_REQUEST}" "waiting_event ?ev"
    using \<open>event_fits ?x\<close> by (simp_all add: request_event_def waiting_event_def event_fits_def)
  have "te_transaction r \<noteq> ti_pk t" if "r \<in> set (ps_events s)" for r using known above that by (fastforce simp: pk)
  moreover have "ti_order t \<noteq> None \<or> ti_checkout t \<noteq> None" by (cases source) (simp_all add: t_def new_item_def)
  moreover have "clean_payment_app apps t \<noteq> None"
    using app by (auto simp: clean_payment_app_def t_def new_item_def find_None_iff)
  moreover have "item_of (ti_pk t) ?s2 = Some t" using found by (simp add: item_of_def)
  moreover have "log_keys (ps_events ?s2)" using log_keys_appended [OF keys, of ?x] by (simp add: appended_def)
  ultimately have "open_session apps t ?s2" using request by (auto simp: open_session_def)
  from open_session_failed [OF this _ request(1,2)] have "open_session apps t (snd (fail_event pe ?ev ''Failed to delivery request.'' ?s2))"
    by simp
  then have "open_session apps t s'" unfolding run by simp
  moreover have "te_transaction ev = ti_pk t"
    using run by (auto simp: fail_event_def create_failed_transaction_event_def insert_event_def failed_event_def
        request_event_def Let_def split: if_splits)
  ultimately show ?thesis by (auto simp: open_session_def)
qed

text \<open>
  C28: a session whose app does not answer is not lost: after any number of unanswered rounds,
  \<open>transactionProcess\<close> with an answer that an amount was charged succeeds, and the transaction is charged
  exactly that amount.
\<close>

theorem session_can_be_finished:
  assumes "handle_transaction_initialize_session pe0 source w action a (\<lambda>_. None) s0 = (Inr failed, s1)"
    and "log_keys (ps_events s0)" and "te_transaction ` set (ps_events s0) \<subseteq> ti_pk ` set (payment_transactions (ps_tables s0))"
    and "truthy_text (app_identifier a)" and "a \<in> set apps" and "item_of (te_transaction failed) s1 = Some t"
    and "silent_rounds apps t s1 s2" and "charging_answer pe apps d v" and "row_order_ok (pe_env pe)"
  shows "\<exists>ev s' t'. transaction_process pe apps t (\<lambda>_. Some d) s2 = (Inr ev, s') \<and> te_type ev = CHARGE_SUCCESS
    \<and> te_include_in_calculations ev \<and> item_of (ti_pk t) s' = Some t' \<and> ti_charged_value t' = v"
proof -
  have "open_session apps t s1" using initialized_session_open [OF assms(1-5)] assms(6) by auto
  with assms(7) have "open_session apps t s2" by (rule silent_rounds_open)
  obtain ev a' where ev: "transaction_process pe apps t (\<lambda>_. Some d) s2 = apfst (map_sum Process_Event_Error id)
      (create_transaction_event_for_transaction_session pe ev (Some a') (Some d) s2)"
    "ev \<in> set (ps_events s2)" "te_transaction ev = ti_pk t" "waiting_event ev" "a' \<in> set apps"
    using process_open_session [OF \<open>open_session apps t s2\<close>, of pe "\<lambda>_. Some d"] by blast
  from good_answer_charges [OF \<open>open_session apps t s2\<close> assms(8,9) ev(2-5)] show ?thesis unfolding ev(1) by force
qed

section \<open>An example\<close>

definition ex_app :: app where
  "ex_app = \<lparr>app_pk = 4, app_identifier = Some ''app''\<rparr>"

lemma ex_session_runs:
  "\<exists>failed s1. handle_transaction_initialize_session ex_pe (Source_Order 1 ''USD'') 20 FLOW_CHARGE ex_app (\<lambda>_. None) ex_pay_state
     = (Inr failed, s1)"
  by (simp add: handle_transaction_initialize_session_def create_transaction_item_def add_event_def insert_event_def
      request_event_def event_fits_def create_transaction_event_for_transaction_session_def
      get_parsed_transaction_action_data_def fail_event_def create_failed_transaction_event_def failed_event_def Let_def)

lemma session_can_be_finished_witness:
  "\<exists>t s ev s' t'. transaction_process ex_pe [ex_app] t (\<lambda>_. Some (ex_answer ''CHARGE_SUCCESS'' (21 / 2))) s = (Inr ev, s')
    \<and> item_of (ti_pk t) s' = Some t' \<and> ti_charged_value t' = 21 / 2"
proof -
  obtain failed s1 where run: "handle_transaction_initialize_session ex_pe (Source_Order 1 ''USD'') 20 FLOW_CHARGE ex_app
      (\<lambda>_. None) ex_pay_state = (Inr failed, s1)" using ex_session_runs by blast
  have known: "te_transaction ` set (ps_events ex_pay_state) \<subseteq> ti_pk ` set (payment_transactions (ps_tables ex_pay_state))"
    by (simp add: ex_pay_state_def ex_events_def ex_event_def ex_paid_item_def ex_item_def)
  have app: "truthy_text (app_identifier ex_app)" "ex_app \<in> set [ex_app]" by (simp_all add: ex_app_def truthy_text_def)
  obtain t where t: "item_of (te_transaction failed) s1 = Some t"
    using initialized_session_open [OF run ex_pay_state_facts(3) known app] by blast
  have answer: "charging_answer ex_pe [ex_app] (ex_answer ''CHARGE_SUCCESS'' (21 / 2)) (21 / 2)"
    unfolding charging_answer_def
    by (intro exI [of _ ex_charging] exI [of _ "the (rr_event ex_charging)"])
      (simp add: ex_charging_answer, simp add: ex_charging_def ex_app_def truthy_text_def)
  have "silent_rounds [ex_app] t s1 (snd (transaction_process ex_pe [ex_app] t (\<lambda>_. None) s1))"
    by (intro silent_round silent_none)
  from session_can_be_finished [OF run ex_pay_state_facts(3) known app t this answer ex_pe_row_order] show ?thesis by blast
qed

end
