(* ===== verification/Fulfillments.thy ===== *)
theory Fulfillments
  imports Order_Lines Payment_Operations Transaction_Handlers
begin

text \<open>
  Fulfilling an order, from \<open>saleor/order/actions.py\<close>: creating, approving and cancelling fulfillments,
  the automatic fulfillment of digital lines and gift cards of a paid order, and the steps of an order
  that only record events and call webhooks.

  The state \<open>action_state\<close> is the shop with the calls that the code makes to the outside (event rows, webhooks
  of the plugin manager, notifications), in the order in which it makes or queues them.  The objects of
  order lines that a caller passes are shared: \<open>ful\<close> maps the key of a line to the \<open>quantity_fulfilled\<close> of
  its object, all other attributes of a line are read only.
\<close>

section \<open>State\<close>

datatype action_error = Stock_Error error | Payment_Failed payment_error | Multiple_Objects_Returned
  | Gift_Card_Not_Applicable | Does_Not_Exist

datatype action_call =
    Order_Call order_call
  | Order_Created_Event pk bool | Order_Created pk
  | Order_Confirmed_Event pk | Order_Confirmed pk | Send_Order_Confirmed pk
  | Order_Canceled_Event pk | Order_Cancelled pk | Send_Order_Canceled_Confirmation pk
  | Payment_Voided_Event pk pk | Payment_Authorized_Event pk pk decimal
  | Order_Fully_Paid_Event pk | Order_Fully_Paid pk | Send_Payment_Confirmation pk
  | Order_Manually_Marked_As_Paid_Event pk
  | Gift_Cards_Create pk "(pk \<times> int) list"
  | Fulfillment_Fulfilled_Items_Event pk "fulfillment_line list"
  | Fulfillment_Awaits_Approval_Event pk "fulfillment_line list"
  | Fulfillment_Created pk | Fulfillment_Approved pk | Order_Fulfilled pk
  | Send_Fulfillment_Confirmation pk pk
  | Fulfillment_Tracking_Updated_Event pk pk string | Tracking_Number_Updated pk
  | Fulfillment_Canceled_Event pk "pk option" | Fulfillment_Restocked_Items_Event pk pk pk
  | Fulfillment_Canceled pk
  | Fulfillment_Refunded_Event pk "(int \<times> pk) list" decimal bool
  | Order_Returned_Event pk "(int \<times> pk) list"
  | Fulfillment_Replaced_Event pk "pk list"
  | Draft_Order_Created_From_Replace_Event pk pk "pk list"
  | Order_Replacement_Created pk pk

record digital_content =
  dc_use_default_settings :: bool
  dc_automatic_fulfillment :: bool

record action_state =
  as_shop :: shop
  as_calls :: "action_call list"
  as_digital_variants :: "pk list"      \<comment> \<open>variants with \<open>is_digital()\<close>\<close>
  as_digital_contents :: "(pk \<times> digital_content) list"
  as_digital_urls :: "pk list"          \<comment> \<open>order lines with a \<open>DigitalContentUrl\<close>, one to one\<close>

record action_env =
  ae_env :: env
  ae_precision :: "string \<Rightarrow> nat"
  ae_default_automatic_fulfillment :: bool
  ae_gateway :: gateway

record action_line =      \<comment> \<open>\<open>OrderLineInfo\<close> of \<open>order/fetch.py\<close>\<close>
  al_line :: sales_line
  al_quantity :: int
  al_variant :: "product_variant option"
  al_warehouse_pk :: "pk option"
  al_replace :: bool

abbreviation tables_of :: "action_state \<Rightarrow> order_tables" where
  "tables_of s \<equiv> shop_tables (as_shop s)"

abbreviation db_of :: "action_state \<Rightarrow> db" where
  "db_of s \<equiv> shop_db (as_shop s)"

definition with_tables :: "(order_tables \<Rightarrow> order_tables) \<Rightarrow> action_state \<Rightarrow> action_state" where
  "with_tables f s = s\<lparr>as_shop := (as_shop s)\<lparr>shop_tables := f (tables_of s)\<rparr>\<rparr>"

definition with_db :: "db \<Rightarrow> action_state \<Rightarrow> action_state" where
  "with_db d s = s\<lparr>as_shop := (as_shop s)\<lparr>shop_db := d\<rparr>\<rparr>"

definition log_calls :: "action_call list \<Rightarrow> action_state \<Rightarrow> action_state" where
  "log_calls cs s = s\<lparr>as_calls := as_calls s @ cs\<rparr>"

definition line_variant :: "db \<Rightarrow> sales_line \<Rightarrow> product_variant option" where
  "line_variant d l = (case ol_variant l of None \<Rightarrow> None | Some v \<Rightarrow> find_row v_id v (product_variants d))"

definition line_is_digital :: "action_state \<Rightarrow> sales_line \<Rightarrow> bool" where
  \<comment> \<open>\<open>OrderLine.is_digital\<close>\<close>
  "line_is_digital s l = (case line_variant (db_of s) l of None \<Rightarrow> False
     | Some v \<Rightarrow> v_id v \<in> set (as_digital_variants s) \<and> map_of (as_digital_contents s) (v_id v) \<noteq> None)"

definition line_digital_content :: "action_state \<Rightarrow> sales_line \<Rightarrow> digital_content option" where
  "line_digital_content s l = (if line_is_digital s l
     then (case line_variant (db_of s) l of None \<Rightarrow> None | Some v \<Rightarrow> map_of (as_digital_contents s) (v_id v)) else None)"

definition fetch_order_lines :: "pk \<Rightarrow> action_state \<Rightarrow> action_line list" where
  "fetch_order_lines k s = map (\<lambda>l. \<lparr>al_line = l, al_quantity = sl_quantity l, al_variant = line_variant (db_of s) l,
     al_warehouse_pk = None, al_replace = False\<rparr>) (filter (\<lambda>l. o_id (ol_order l) = k) (lines (tables_of s)))"

definition order_by_key :: "pk \<Rightarrow> action_state \<Rightarrow> sales_order option" where
  "order_by_key k s = find_row o_id k (orders (tables_of s))"

section \<open>Rows\<close>

definition set_order_status :: "pk \<Rightarrow> order_status \<Rightarrow> action_state \<Rightarrow> action_state" where
  \<comment> \<open>\<open>order.save(update_fields=["status", "updated_at"])\<close>; the rows of lines hold a copy of their order.\<close>
  "set_order_status k st s = with_db ((db_of s)\<lparr>order_lines :=
       map (\<lambda>l. if o_id (ol_order l) = k then l\<lparr>ol_order := (ol_order l)\<lparr>o_status := st\<rparr>\<rparr> else l) (order_lines (db_of s))\<rparr>)
     (with_tables (\<lambda>T. T\<lparr>
       orders := map (\<lambda>x. if o_id x = k then x\<lparr>o_status := st\<rparr> else x) (orders T),
       lines := map (\<lambda>l. if o_id (ol_order l) = k then l\<lparr>ol_order := (ol_order l)\<lparr>o_status := st\<rparr>\<rparr> else l) (lines T)\<rparr>) s)"

definition refresh_order_status :: "pk \<Rightarrow> action_state \<Rightarrow> action_state" where
  \<comment> \<open>\<open>update_order_status(order)\<close>\<close>
  "refresh_order_status k s = (case order_by_key k s of None \<Rightarrow> s
     | Some o1 \<Rightarrow> (let st = o_status (update_order_status (tables_of s) o1)
                   in if st \<noteq> o_status o1 then set_order_status k st s else s))"

definition fulfillment_object ::
  "pk \<Rightarrow> fulfillment_status \<Rightarrow> string \<Rightarrow> decimal option \<Rightarrow> decimal option \<Rightarrow> order_tables \<Rightarrow> fulfillment" where
  \<comment> \<open>With the numbering of \<open>Fulfillment.save\<close>.\<close>
  "fulfillment_object k st tracking total_refund shipping_refund T =
     \<lparr>f_pk = fulfillment_seq T, f_order = k, f_status = st,
       f_fulfillment_order = (case map f_fulfillment_order (filter (\<lambda>f. f_order f = k) (fulfillments T)) of
         [] \<Rightarrow> 1 | n # ns \<Rightarrow> fold max ns n + 1),
       f_tracking_number = tracking, f_total_refund_amount = total_refund, f_shipping_refund_amount = shipping_refund,
       f_lines = []\<rparr>"

definition new_fulfillment ::
  "pk \<Rightarrow> fulfillment_status \<Rightarrow> string \<Rightarrow> decimal option \<Rightarrow> decimal option \<Rightarrow> action_state \<Rightarrow> pk \<times> action_state" where
  \<comment> \<open>\<open>Fulfillment.objects.create\<close>\<close>
  "new_fulfillment k st tracking total_refund shipping_refund s =
     (let f = fulfillment_object k st tracking total_refund shipping_refund (tables_of s)
      in (f_pk f, with_tables (\<lambda>T. T\<lparr>fulfillments := fulfillments T @ [f], fulfillment_seq := Suc (fulfillment_seq T)\<rparr>) s))"

record new_line =        \<comment> \<open>a \<open>FulfillmentLine\<close> that is not saved yet\<close>
  nl_fulfillment :: pk
  nl_order_line :: pk
  nl_quantity :: int
  nl_stock :: "pk option"

definition saved_line :: "pk \<times> new_line \<Rightarrow> fulfillment_line" where
  "saved_line p = (case p of (k, n) \<Rightarrow>
     \<lparr>fl_pk = k, fl_order_line = nl_order_line n, fl_quantity = nl_quantity n, fl_stock = nl_stock n\<rparr>)"

definition number_lines :: "order_tables \<Rightarrow> new_line list \<Rightarrow> (pk \<times> new_line) list" where
  "number_lines T ns = zip [fulfillment_line_seq T ..< fulfillment_line_seq T + length ns] ns"

definition create_lines :: "new_line list \<Rightarrow> action_state \<Rightarrow> action_error + fulfillment_line list \<times> action_state" where
  \<comment> \<open>\<open>FulfillmentLine.objects.bulk_create\<close>; \<open>quantity\<close> is a \<open>PositiveIntegerField\<close>.\<close>
  "create_lines ns s =
     (if list_ex (\<lambda>n. nl_quantity n < 0) ns then Inl (Stock_Error Integrity_Error)
      else let numbered = number_lines (tables_of s) ns
        in Inr (map saved_line numbered, with_tables (\<lambda>T. T\<lparr>
             fulfillments := map (\<lambda>f. f\<lparr>f_lines := f_lines f
               @ map saved_line (filter (\<lambda>(k, n). nl_fulfillment n = f_pk f) numbered)\<rparr>) (fulfillments T),
             fulfillment_line_seq := fulfillment_line_seq T + length ns\<rparr>) s))"

definition fulfillment_by_key :: "pk \<Rightarrow> action_state \<Rightarrow> fulfillment option" where
  "fulfillment_by_key k s = find_row f_pk k (fulfillments (tables_of s))"

definition set_fulfillment_status :: "pk \<Rightarrow> fulfillment_status \<Rightarrow> action_state \<Rightarrow> action_state" where
  "set_fulfillment_status k st s = with_tables (\<lambda>T. T\<lparr>fulfillments :=
     map (\<lambda>f. if f_pk f = k then f\<lparr>f_status := st\<rparr> else f) (fulfillments T)\<rparr>) s"

section \<open>Taking the quantities of a fulfillment\<close>

type_synonym fulfilled_memory = "pk \<Rightarrow> int"

definition stock_info :: "action_line \<Rightarrow> order_line_info" where
  "stock_info i = \<lparr>li_line = order_line.truncate (al_line i), li_quantity = al_quantity i, li_variant = al_variant i,
     li_warehouse_pk = al_warehouse_pk i\<rparr>"

definition decrease_stocks :: "action_env \<Rightarrow> action_line list \<Rightarrow> bool \<Rightarrow> action_state \<Rightarrow> action_error + action_state" where
  "decrease_stocks e infos allow_stock_to_be_exceeded s =
     (let lines_to_decrease_stock = get_order_lines_with_track_inventory (ae_env e) (map stock_info infos)
      in if lines_to_decrease_stock = [] then Inr s
         else (case decrease_stock (ae_env e) lines_to_decrease_stock True allow_stock_to_be_exceeded (db_of s) of
                 Inl er \<Rightarrow> Inl (Stock_Error er) | Inr d \<Rightarrow> Inr (with_db d s)))"

definition line_key :: "action_line \<Rightarrow> pk" where "line_key i = ol_pk (al_line i)"

definition add_fulfilled :: "action_line list \<Rightarrow> fulfilled_memory \<Rightarrow> fulfilled_memory" where
  "add_fulfilled infos ful = fold (\<lambda>i ful. ful(line_key i := ful (line_key i) + al_quantity i)) infos ful"

definition save_fulfilled :: "pk list \<Rightarrow> fulfilled_memory \<Rightarrow> action_state \<Rightarrow> action_state" where
  \<comment> \<open>\<open>OrderLine.objects.bulk_update(order_lines, ["quantity_fulfilled"])\<close>\<close>
  "save_fulfilled ks ful s = with_tables (\<lambda>T. T\<lparr>lines :=
     bulk_update ol_pk (map (\<lambda>k. (k, \<lambda>r. r\<lparr>sl_quantity_fulfilled := ful k\<rparr>)) ks) (lines T)\<rparr>) s"

definition increase_order_line_quantity ::
  "action_line list \<Rightarrow> fulfilled_memory \<Rightarrow> action_state \<Rightarrow> fulfilled_memory \<times> action_state" where
  "increase_order_line_quantity infos ful s =
     (let ful = add_fulfilled infos ful in (ful, save_fulfilled (map line_key infos) ful s))"

definition fulfill_order_lines ::
  "action_env \<Rightarrow> action_line list \<Rightarrow> bool \<Rightarrow> fulfilled_memory \<Rightarrow> action_state
   \<Rightarrow> action_error + fulfilled_memory \<times> action_state" where
  "fulfill_order_lines e infos allow_stock_to_be_exceeded ful s =
     (case decrease_stocks e infos allow_stock_to_be_exceeded s of Inl er \<Rightarrow> Inl er
      | Inr s \<Rightarrow> Inr (increase_order_line_quantity infos ful s))"

fun create_digital_urls :: "pk list \<Rightarrow> action_state \<Rightarrow> action_error + action_state" where
  "create_digital_urls [] s = Inr s"
| "create_digital_urls (k # ks) s =
     (if k \<in> set (as_digital_urls s) then Inl (Stock_Error Integrity_Error)
      else create_digital_urls ks (s\<lparr>as_digital_urls := as_digital_urls s @ [k]\<rparr>))"

section \<open>Creating fulfillments\<close>

definition stock_of_line :: "db \<Rightarrow> string \<Rightarrow> pk \<Rightarrow> (sales_line \<times> int) list \<Rightarrow> sales_line \<Rightarrow> stock option" where
  "stock_of_line d channel_slug wh lines_data l =
     (let variants = List.map_filter (\<lambda>(l, q). map_option v_id (line_variant d l)) lines_data;
          ss = filter (\<lambda>x. s_warehouse x = wh \<and> s_variant x \<in> set variants)
                 (for_channel_and_country d channel_slug None False)
      in case line_variant d l of None \<Rightarrow> None | Some v \<Rightarrow> find (\<lambda>x. s_variant x = v_id v) ss)"

definition missing_stock :: "pk \<Rightarrow> db \<Rightarrow> sales_line \<Rightarrow> insufficient_stock_data" where
  "missing_stock wh d l = \<lparr>i_available_quantity = 0, i_variant = map_option v_id (line_variant d l),
     i_order_line = Some (ol_pk l), i_warehouse_pk = Some wh\<rparr>"

definition create_fulfillment_lines ::
  "action_env \<Rightarrow> pk \<Rightarrow> pk \<Rightarrow> (sales_line \<times> int) list \<Rightarrow> string \<Rightarrow> bool \<Rightarrow> bool \<Rightarrow> fulfilled_memory \<Rightarrow> action_state
   \<Rightarrow> action_error + new_line list \<times> (pk \<times> int) list \<times> fulfilled_memory \<times> action_state" where
  \<comment> \<open>The unsaved lines and what is added to \<open>gift_card_lines_info\<close>.\<close>
  "create_fulfillment_lines e fk wh lines_data channel_slug decrease allow_stock_to_be_exceeded ful s =
     (let d = db_of s;
          stock = stock_of_line d channel_slug wh lines_data;
          wanted = filter (\<lambda>(l, q). 0 < q) lines_data;
          missing = (if allow_stock_to_be_exceeded then [] else filter (\<lambda>(l, q). stock l = None) wanted);
          kept = (if allow_stock_to_be_exceeded then wanted else filter (\<lambda>(l, q). stock l \<noteq> None) wanted);
          lines_info = map (\<lambda>(l, q). \<lparr>al_line = l, al_quantity = q, al_variant = line_variant d l,
             al_warehouse_pk = Some wh, al_replace = False\<rparr>) kept;
          fulfillment_lines = map (\<lambda>(l, q). \<lparr>nl_fulfillment = fk, nl_order_line = ol_pk l, nl_quantity = q,
             nl_stock = map_option s_pk (stock l)\<rparr>) kept;
          gift_card_lines = map (\<lambda>(l, q). (ol_pk l, q)) (filter (\<lambda>(l, q). sl_is_gift_card l) kept)
      in case create_digital_urls (map (\<lambda>(l, q). ol_pk l) (filter (\<lambda>(l, q). line_is_digital s l) kept)) s of
           Inl er \<Rightarrow> Inl er
         | Inr s \<Rightarrow>
             (if missing \<noteq> [] then Inl (Stock_Error (Insufficient_Stock (map (\<lambda>(l, q). missing_stock wh d l) missing)))
              else if lines_info = [] then Inr (fulfillment_lines, gift_card_lines, ful, s)
              else (case (if decrease then decrease_stocks e lines_info allow_stock_to_be_exceeded s else Inr s) of
                      Inl er \<Rightarrow> Inl er
                    | Inr s \<Rightarrow> (case increase_order_line_quantity lines_info ful s of
                        (ful, s) \<Rightarrow> Inr (fulfillment_lines, gift_card_lines, ful, s)))))"

fun fulfill_from_warehouses ::
  "action_env \<Rightarrow> pk \<Rightarrow> string \<Rightarrow> (pk \<times> (sales_line \<times> int) list) list \<Rightarrow> bool \<Rightarrow> bool \<Rightarrow> string
   \<Rightarrow> fulfilled_memory \<Rightarrow> action_state \<Rightarrow> action_error + pk list \<times> new_line list \<times> (pk \<times> int) list \<times> action_state" where
  \<comment> \<open>The loop of \<open>create_fulfillments\<close>: the fulfillments, their lines and the gift card lines.\<close>
  "fulfill_from_warehouses e k channel_slug [] approved allow tracking ful s = Inr ([], [], [], s)"
| "fulfill_from_warehouses e k channel_slug ((wh, lines_data) # whs) approved allow tracking ful s =
     (case new_fulfillment k (if approved then FULFILLED_F else WAITING_FOR_APPROVAL) tracking None None s of (fk, s) \<Rightarrow>
       case create_fulfillment_lines e fk wh lines_data channel_slug approved allow ful s of Inl er \<Rightarrow> Inl er
       | Inr (ns, gs, ful, s) \<Rightarrow>
           let s = (if tracking \<noteq> [] then log_calls [Tracking_Number_Updated fk] s else s)
           in case fulfill_from_warehouses e k channel_slug whs approved allow tracking ful s of Inl er \<Rightarrow> Inl er
              | Inr (fks, ns', gs', s) \<Rightarrow> Inr (fk # fks, ns @ ns', gs @ gs', s))"

definition order_fulfilled ::
  "pk \<Rightarrow> pk list \<Rightarrow> fulfillment_line list \<Rightarrow> (pk \<times> int) list \<Rightarrow> bool \<Rightarrow> action_state \<Rightarrow> action_error + action_state" where
  \<comment> \<open>The order is that of the first fulfillment.\<close>
  "order_fulfilled k fks fls gift_cards notify_customer s =
     (if fks = [] then Inl (Stock_Error Index_Error)
      else
       let s = refresh_order_status k s;
           s = log_calls ([Gift_Cards_Create k gift_cards, Fulfillment_Fulfilled_Items_Event k fls,
                 Order_Call (Order_Updated k)] @ map Fulfillment_Created fks) s;
           s = (if map_option o_status (order_by_key k s) = Some FULFILLED
                then log_calls (Order_Fulfilled k # map Fulfillment_Approved fks) s else s)
       in Inr (if notify_customer then log_calls (map (Send_Fulfillment_Confirmation k) fks) s else s))"

definition order_awaits_fulfillment_approval ::
  "pk \<Rightarrow> pk list \<Rightarrow> fulfillment_line list \<Rightarrow> action_state \<Rightarrow> action_error + action_state" where
  "order_awaits_fulfillment_approval k fks fls s =
     (if fks = [] then Inl (Stock_Error Index_Error)
      else Inr (log_calls [Fulfillment_Awaits_Approval_Event k fls, Order_Call (Order_Updated k)] s))"

definition read_fulfilled :: "action_state \<Rightarrow> fulfilled_memory" where
  \<comment> \<open>The objects of the lines as they are read from the database.\<close>
  "read_fulfilled s k = (case find_row ol_pk k (lines (tables_of s)) of None \<Rightarrow> 0 | Some l \<Rightarrow> sl_quantity_fulfilled l)"

definition create_fulfillments ::
  "action_env \<Rightarrow> sales_order \<Rightarrow> (pk \<times> (sales_line \<times> int) list) list \<Rightarrow> bool \<Rightarrow> bool \<Rightarrow> bool \<Rightarrow> string
   \<Rightarrow> action_state \<Rightarrow> (action_error + pk list) \<times> action_state" where
  \<comment> \<open>The last call runs when the transaction has committed: its error does not roll it back.\<close>
  "create_fulfillments e o1 fulfillment_lines_for_warehouses notify_customer approved allow_stock_to_be_exceeded
       tracking_number s =
     (let k = o_id o1 in
      case fulfill_from_warehouses e k (so_channel_slug o1) fulfillment_lines_for_warehouses approved
             allow_stock_to_be_exceeded tracking_number (read_fulfilled s) s of
        Inl er \<Rightarrow> (Inl er, s)
      | Inr (fks, ns, gift_cards, s1) \<Rightarrow>
          (case create_lines ns s1 of
             Inl er \<Rightarrow> (Inl er, s)
           | Inr (fls, s2) \<Rightarrow>
               (case (if approved then order_fulfilled k fks fls gift_cards notify_customer s2
                      else order_awaits_fulfillment_approval k fks fls s2) of
                  Inl er \<Rightarrow> (Inl er, s2) | Inr s3 \<Rightarrow> (Inr fks, s3))))"

section \<open>Cancelling and approving\<close>

definition cancel_fulfillment :: "pk \<Rightarrow> pk option \<Rightarrow> action_state \<Rightarrow> action_error + action_state" where
  "cancel_fulfillment fk warehouse s =
     (case fulfillment_by_key fk s of None \<Rightarrow> Inl Does_Not_Exist
      | Some f \<Rightarrow>
         (let k = f_order f;
              s = log_calls [Fulfillment_Canceled_Event k (Some fk)] s;
              restocked = (case warehouse of None \<Rightarrow> Inr s
                | Some wh \<Rightarrow> (case restock_fulfillment_lines f wh (as_shop s) of Inl er \<Rightarrow> Inl (Stock_Error er)
                    | Inr st \<Rightarrow> Inr (log_calls [Fulfillment_Restocked_Items_Event k fk wh] (s\<lparr>as_shop := st\<rparr>))))
          in case restocked of Inl er \<Rightarrow> Inl er
             | Inr s \<Rightarrow>
                (let s = refresh_order_status k (set_fulfillment_status fk CANCELED_F s)
                 in Inr (log_calls [Fulfillment_Canceled fk, Order_Call (Order_Updated k)] s))))"

definition fulfillment_pairs :: "action_state \<Rightarrow> fulfillment \<Rightarrow> (sales_line \<times> fulfillment_line) list" where
  \<comment> \<open>The lines of a fulfillment, each with its own object of its order line.\<close>
  "fulfillment_pairs s f = List.map_filter (\<lambda>fl. map_option (\<lambda>l. (l, fl)) (line_of (as_shop s) fl)) (f_lines f)"

definition cancel_waiting_fulfillment :: "pk \<Rightarrow> action_state \<Rightarrow> action_error + action_state" where
  "cancel_waiting_fulfillment fk s =
     (case fulfillment_by_key fk s of None \<Rightarrow> Inl Does_Not_Exist
      | Some f \<Rightarrow>
         (let k = f_order f;
              s1 = log_calls [Fulfillment_Canceled_Event k None] s;
              s2 = with_tables (\<lambda>T. T\<lparr>lines := bulk_update ol_pk (map less_fulfilled (fulfillment_pairs s f)) (lines T),
                     fulfillments := filter (\<lambda>x. f_pk x \<noteq> fk) (fulfillments T)\<rparr>) s1
          in Inr (log_calls [Fulfillment_Canceled fk, Order_Call (Order_Updated k)] (refresh_order_status k s2))))"

definition warehouse_of_stock :: "db \<Rightarrow> pk option \<Rightarrow> pk option" where
  "warehouse_of_stock d sk = (case sk of None \<Rightarrow> None | Some sk \<Rightarrow> map_option s_warehouse (find_row s_pk sk (stocks d)))"

definition approve_fulfillment ::
  "action_env \<Rightarrow> pk \<Rightarrow> bool \<Rightarrow> bool \<Rightarrow> action_state \<Rightarrow> action_error + action_state" where
  "approve_fulfillment e fk notify_customer allow_stock_to_be_exceeded s =
     (case fulfillment_by_key fk s of None \<Rightarrow> Inl Does_Not_Exist
      | Some f \<Rightarrow>
         (let k = f_order f; d = db_of s; pairs = fulfillment_pairs s f;
              s = set_fulfillment_status fk FULFILLED_F s;
              s = log_calls ((if notify_customer then [Send_Fulfillment_Confirmation k fk] else [])
                    @ [Fulfillment_Fulfilled_Items_Event k (f_lines f)]) s;
              insufficient_stocks = (if allow_stock_to_be_exceeded then []
                else map (\<lambda>(l, fl). (missing_stock 0 d l)\<lparr>i_warehouse_pk := None\<rparr>) (filter (\<lambda>(l, fl). fl_stock fl = None) pairs));
              lines_to_fulfill = map (\<lambda>(l, fl). \<lparr>al_line = l, al_quantity = fl_quantity fl, al_variant = line_variant d l,
                al_warehouse_pk = warehouse_of_stock d (fl_stock fl), al_replace = False\<rparr>) pairs;
              gift_card_lines_info = map (\<lambda>(l, fl). (ol_pk l, fl_quantity fl)) (filter (\<lambda>(l, fl). sl_is_gift_card l) pairs)
          in if insufficient_stocks \<noteq> [] then Inl (Stock_Error (Insufficient_Stock insufficient_stocks))
             else (case decrease_stocks e lines_to_fulfill allow_stock_to_be_exceeded s of Inl er \<Rightarrow> Inl er
               | Inr s \<Rightarrow>
                  (let s = log_calls [Order_Call (Order_Updated k), Fulfillment_Approved fk] (refresh_order_status k s);
                       s = (if map_option o_status (order_by_key k s) = Some FULFILLED
                            then log_calls [Order_Fulfilled k] s else s)
                   in Inr (if gift_card_lines_info \<noteq> [] then log_calls [Gift_Cards_Create k gift_card_lines_info] s else s)))))"

definition fulfillment_tracking_updated :: "fulfillment \<Rightarrow> string \<Rightarrow> action_state \<Rightarrow> action_state" where
  "fulfillment_tracking_updated f tracking_number s = log_calls [Fulfillment_Tracking_Updated_Event (f_order f) (f_pk f) tracking_number,
     Tracking_Number_Updated (f_pk f), Order_Call (Order_Updated (f_order f))] s"

definition cancel_order :: "action_env \<Rightarrow> pk \<Rightarrow> action_state \<Rightarrow> action_state" where
  "cancel_order e k s =
     (let s = log_calls [Order_Canceled_Event k] s;
          s = with_db (deallocate_stock_for_order (ae_env e) k (db_of s)) s;
          s = set_order_status k CANCELED s
      in log_calls [Order_Cancelled k, Order_Call (Order_Updated k), Send_Order_Canceled_Confirmation k] s)"

section \<open>Digital lines and gift cards of a paid order\<close>

definition order_line_needs_automatic_fulfillment :: "action_env \<Rightarrow> digital_content option \<Rightarrow> bool" where
  "order_line_needs_automatic_fulfillment e content = (case content of None \<Rightarrow> False
     | Some c \<Rightarrow> ae_default_automatic_fulfillment e \<and> dc_use_default_settings c \<or> dc_automatic_fulfillment c)"

definition order_needs_automatic_fulfillment :: "action_env \<Rightarrow> action_line list \<Rightarrow> action_state \<Rightarrow> bool" where
  "order_needs_automatic_fulfillment e lines_data s = list_ex (\<lambda>i. line_is_digital s (al_line i)
     \<and> order_line_needs_automatic_fulfillment e (line_digital_content s (al_line i))) lines_data"

definition digital_warehouse :: "db \<Rightarrow> action_line \<Rightarrow> pk option" where
  "digital_warehouse d i = (case filter (\<lambda>a. a_order_line a = line_key i) (sort_key a_pk (allocations d)) of
       a # _ \<Rightarrow> warehouse_of_stock d (Some (a_stock a))
     | [] \<Rightarrow> (case al_variant i of None \<Rightarrow> al_warehouse_pk i
         | Some v \<Rightarrow> (case filter (\<lambda>x. s_variant x = v_id v) (sort_key s_pk (stocks d)) of
             [] \<Rightarrow> al_warehouse_pk i | x # _ \<Rightarrow> Some (s_warehouse x))))"

definition automatically_fulfill_digital_lines ::
  "action_env \<Rightarrow> pk \<Rightarrow> action_line list \<Rightarrow> action_state \<Rightarrow> action_error + action_state" where
  "automatically_fulfill_digital_lines e k lines_data s =
     (let digital_lines_data = filter (\<lambda>i. \<not> sl_is_shipping_required (al_line i)
            \<and> line_digital_content s (al_line i) \<noteq> None) lines_data;
          chosen = filter (\<lambda>i. order_line_needs_automatic_fulfillment e (line_digital_content s (al_line i))) digital_lines_data
      in if digital_lines_data = [] then Inr s
         else case (case filter (\<lambda>f. f_order f = k) (fulfillments (tables_of s)) of
                [] \<Rightarrow> (case new_fulfillment k FULFILLED_F [] None None s of (fk, s) \<Rightarrow> Inr (fk, True, s))
              | [f] \<Rightarrow> Inr (f_pk f, False, s)
              | _ \<Rightarrow> Inl Multiple_Objects_Returned) of
            Inl er \<Rightarrow> Inl er
          | Inr (fk, created, s) \<Rightarrow>
            (case create_digital_urls (map line_key chosen) s of Inl er \<Rightarrow> Inl er
             | Inr s \<Rightarrow>
               (let ns = map (\<lambda>i. \<lparr>nl_fulfillment = fk, nl_order_line = line_key i, nl_quantity = al_quantity i, nl_stock = None\<rparr>) chosen;
                    lines_info = map (\<lambda>i. i\<lparr>al_warehouse_pk := digital_warehouse (db_of s) i\<rparr>) chosen
                in case create_lines ns s of Inl er \<Rightarrow> Inl er
                   | Inr (_, s) \<Rightarrow>
                     (case fulfill_order_lines e lines_info False (\<lambda>x. case find (\<lambda>i. line_key i = x) chosen of
                              None \<Rightarrow> 0 | Some i \<Rightarrow> sl_quantity_fulfilled (al_line i)) s of
                        Inl er \<Rightarrow> Inl er
                      | Inr (_, s) \<Rightarrow>
                         Inr (refresh_order_status k (log_calls (Send_Fulfillment_Confirmation k fk
                           # (if created then [Fulfillment_Created fk] else [])) s))))))"

fun add_to_group :: "pk \<Rightarrow> 'v \<Rightarrow> (pk \<times> 'v list) list \<Rightarrow> (pk \<times> 'v list) list" where
  \<comment> \<open>\<open>groups[k].append(v)\<close> of a \<open>defaultdict(list)\<close>\<close>
  "add_to_group k v [] = [(k, [v])]"
| "add_to_group k v ((k', vs) # gs) = (if k' = k then (k', vs @ [v]) # gs else (k', vs) # add_to_group k v gs)"

definition get_non_shippable_gift_card_lines :: "sales_line list \<Rightarrow> action_state \<Rightarrow> sales_line list" where
  "get_non_shippable_gift_card_lines ls s = filter (\<lambda>r. ol_pk r \<in> ol_pk ` set (filter sl_is_gift_card ls)
     \<and> \<not> sl_is_shipping_required r) (lines (tables_of s))"

fun gift_card_lines_for_warehouses ::
  "db \<Rightarrow> string \<Rightarrow> sales_line list \<Rightarrow> (pk \<times> (sales_line \<times> int) list) list
   \<Rightarrow> action_error + (pk \<times> (sales_line \<times> int) list) list" where
  "gift_card_lines_for_warehouses d channel_slug [] groups = Inr groups"
| "gift_card_lines_for_warehouses d channel_slug (l # ls) groups =
     (case sort_key a_pk (filter (\<lambda>a. a_order_line a = ol_pk l) (allocations d)) of
        [] \<Rightarrow> (case line_variant d l of None \<Rightarrow> Inl (Stock_Error Attribute_Error)
          | Some v \<Rightarrow> (case filter (\<lambda>x. s_variant x = v_id v) (for_channel_and_country d channel_slug None False) of
              [] \<Rightarrow> Inl Gift_Card_Not_Applicable
            | x # _ \<Rightarrow> gift_card_lines_for_warehouses d channel_slug ls (add_to_group (s_warehouse x) (l, sl_quantity l) groups)))
      | as \<Rightarrow> gift_card_lines_for_warehouses d channel_slug ls
          (fold (\<lambda>a groups. if 0 < a_quantity_allocated a
             then (case warehouse_of_stock d (Some (a_stock a)) of None \<Rightarrow> groups
               | Some wh \<Rightarrow> add_to_group wh (l, a_quantity_allocated a) groups)
             else groups) as groups))"

definition fulfill_non_shippable_gift_cards ::
  "action_env \<Rightarrow> sales_order \<Rightarrow> sales_line list \<Rightarrow> action_state \<Rightarrow> (action_error + unit) \<times> action_state" where
  \<comment> \<open>With \<open>fulfill_gift_card_lines\<close>.\<close>
  "fulfill_non_shippable_gift_cards e o1 order_ls s =
     (let gift_card_lines = get_non_shippable_gift_card_lines order_ls s
      in if gift_card_lines = [] then (Inr (), s)
         else (case gift_card_lines_for_warehouses (db_of s) (so_channel_slug o1) gift_card_lines [] of
                 Inl er \<Rightarrow> (Inl er, s)
               | Inr groups \<Rightarrow> (case create_fulfillments e o1 groups True True False [] s of
                   (Inl er, s) \<Rightarrow> (Inl er, s) | (Inr _, s) \<Rightarrow> (Inr (), s))))"

section \<open>Steps of an order that call the outside\<close>

record order_info =
  oi_order :: sales_order
  oi_customer_email :: string
  oi_automatically_confirm_all_new_orders :: bool
  oi_automatically_fulfill_non_shippable_gift_card :: bool
  oi_payment :: "payment option"
  oi_lines_data :: "action_line list"

definition handle_fully_paid_order :: "action_env \<Rightarrow> order_info \<Rightarrow> action_state \<Rightarrow> (action_error + unit) \<times> action_state" where
  "handle_fully_paid_order e oi s =
     (let k = o_id (oi_order oi);
          s = log_calls [Order_Fully_Paid_Event k] s;
          s = (if oi_customer_email oi \<noteq> [] then log_calls [Send_Payment_Confirmation k] s else s);
          digital = (if oi_customer_email oi \<noteq> [] \<and> order_needs_automatic_fulfillment e (oi_lines_data oi) s
                     then automatically_fulfill_digital_lines e k (oi_lines_data oi) s else Inr s)
      in case digital of Inl er \<Rightarrow> (Inl er, s)
         | Inr s \<Rightarrow>
            (case (if oi_automatically_fulfill_non_shippable_gift_card oi
                   then fulfill_non_shippable_gift_cards e (oi_order oi) (map al_line (oi_lines_data oi)) s else (Inr (), s)) of
               (Inl er, s) \<Rightarrow> (Inl er, s)
             | (Inr (), s) \<Rightarrow> (Inr (), log_calls [Order_Fully_Paid k, Order_Call (Order_Updated k)] s)))"

fun perform_calls :: "action_env \<Rightarrow> order_info \<Rightarrow> order_call list \<Rightarrow> action_state \<Rightarrow> (action_error + unit) \<times> action_state" where
  \<comment> \<open>The calls of \<open>order_charged\<close>, with \<open>handle_fully_paid_order\<close> carried out.\<close>
  "perform_calls e oi [] s = (Inr (), s)"
| "perform_calls e oi (c # cs) s =
     (case c of
        Handle_Fully_Paid_Order k \<Rightarrow>
          (case handle_fully_paid_order e oi s of (Inl er, s) \<Rightarrow> (Inl er, s) | (Inr (), s) \<Rightarrow> perform_calls e oi cs s)
      | _ \<Rightarrow> perform_calls e oi cs (log_calls [Order_Call c] s))"

definition order_confirmed :: "pk \<Rightarrow> bool \<Rightarrow> action_state \<Rightarrow> action_state" where
  "order_confirmed k send_confirmation_email s = log_calls ([Order_Confirmed_Event k, Order_Confirmed k]
     @ (if send_confirmation_email then [Send_Order_Confirmed k] else [])) s"

definition order_authorized :: "pk \<Rightarrow> decimal \<Rightarrow> payment \<Rightarrow> action_state \<Rightarrow> action_state" where
  "order_authorized k amount p s = log_calls [Payment_Authorized_Event k (p_pk p) amount, Order_Call (Order_Updated k)] s"

definition order_voided :: "pk \<Rightarrow> payment \<Rightarrow> action_state \<Rightarrow> action_state" where
  "order_voided k p s = log_calls [Payment_Voided_Event k (p_pk p), Order_Call (Order_Updated k)] s"

definition is_pre_authorized :: "order_tables \<Rightarrow> sales_order \<Rightarrow> bool" where
  \<comment> \<open>The second \<open>filter\<close> of the query may be satisfied by another transaction than the first.\<close>
  "is_pre_authorized T o1 = list_ex (\<lambda>p. p_is_active p \<and> list_ex (\<lambda>t. tx_kind t = AUTH \<and> \<not> tx_action_required t) (p_transactions p)
     \<and> list_ex tx_is_success (p_transactions p)) (order_payments T o1)"

definition order_created :: "action_env \<Rightarrow> order_info \<Rightarrow> bool \<Rightarrow> action_state \<Rightarrow> (action_error + unit) \<times> action_state" where
  "order_created e oi from_draft s =
     (let o1 = oi_order oi; k = o_id o1;
          s = log_calls [Order_Created_Event k from_draft, Order_Created k] s;
          s = (case oi_payment oi of None \<Rightarrow> s
               | Some p \<Rightarrow> if is_pre_authorized (tables_of s) o1 then order_authorized k (p_total p) p s else s);
          charged = (if so_charge_status o1 \<in> {CHARGE_FULL, CHARGE_OVERCHARGED}
                     then perform_calls e oi (order_charged (tables_of s) o1 (map_option p_total (oi_payment oi)) (oi_payment oi)) s
                     else (Inr (), s))
      in case charged of (Inl er, s) \<Rightarrow> (Inl er, s)
         | (Inr (), s) \<Rightarrow> (Inr (), if oi_automatically_confirm_all_new_orders oi \<or> from_draft then order_confirmed k False s else s))"

definition clean_mark_order_as_paid :: "order_tables \<Rightarrow> sales_order \<Rightarrow> bool" where
  \<comment> \<open>Whether no \<open>PaymentError\<close> is raised.\<close>
  "clean_mark_order_as_paid T o1 \<longleftrightarrow> order_payments T o1 = [] \<and> order_transactions T o1 = []"

definition mark_order_as_paid_with_payment :: "action_env \<Rightarrow> sales_order \<Rightarrow> string option \<Rightarrow> action_state \<Rightarrow> action_state" where
  \<comment> \<open>For an order with a billing address and without payments, where \<open>create_payment\<close> makes a new row.\<close>
  "mark_order_as_paid_with_payment e o1 external_reference s =
     (let T = tables_of s; k = o_id o1; amount = so_total_gross_amount o1;
          reference = (case external_reference of None \<Rightarrow> [] | Some r \<Rightarrow> r);
          t = \<lparr>tx_pk = new_transaction_pk T, tx_token = reference, tx_kind = EXTERNAL, tx_is_success = True,
                tx_action_required = False, tx_amount = amount, tx_currency = so_currency o1, tx_error = None,
                tx_customer_id = None, tx_already_processed = False\<rparr>;
          p = \<lparr>p_pk = Suc (fold max (map p_pk (payments T)) 0), p_gateway = ''manual'', p_is_active = True, p_partial = False,
                p_order = Some k, p_to_confirm = False, p_charge_status = FULLY_CHARGED, p_total = amount,
                p_captured_amount = amount, p_currency = so_currency o1, p_psp_reference = Some reference,
                p_transactions = [t]\<rparr>;
          s = with_tables (\<lambda>T. T\<lparr>payments := payments T @ [p]\<rparr>) s;
          s = log_calls [Order_Manually_Marked_As_Paid_Event k, Order_Fully_Paid k, Order_Call (Order_Updated k)] s
      in with_tables (updates_amounts_for_order (ae_precision e) o1) s)"

end
