(* ===== verification/Returns.thy ===== *)
theory Returns
  imports Fulfillments
begin

text \<open>
  Refunding, returning and replacing lines of an order, from \<open>saleor/order/actions.py\<close>: quantities move from
  the unfulfilled part of order lines and from lines of fulfillments to a fulfillment of their own, the
  payment gateway refunds the money, and replaced quantities become a new draft order.
\<close>

section \<open>Moving lines to a fulfillment\<close>

record moved_line =      \<comment> \<open>\<open>FulfillmentLineData\<close> of \<open>order/__init__.py\<close>\<close>
  ml_line :: fulfillment_line
  ml_quantity :: int
  ml_replace :: bool

fun unfulfilled_moves :: "action_line list \<Rightarrow> fulfilled_memory \<Rightarrow> (action_line \<times> int) list" where
  \<comment> \<open>The quantity of each line that is moved.\<close>
  "unfulfilled_moves [] ful = []"
| "unfulfilled_moves (i # is) ful =
     (let unfulfilled_to_move = min (sl_quantity (al_line i) - ful (line_key i)) (al_quantity i)
      in (i, unfulfilled_to_move) # unfulfilled_moves is (ful(line_key i := ful (line_key i) + unfulfilled_to_move)))"

definition move_order_lines_to_target_fulfillment ::
  "action_env \<Rightarrow> action_line list \<Rightarrow> pk \<Rightarrow> action_state \<Rightarrow> action_error + fulfillment_line list \<times> action_state" where
  \<comment> \<open>Lines that could not be deallocated are only logged.\<close>
  "move_order_lines_to_target_fulfillment e order_lines_to_move target s =
     (let moves = unfulfilled_moves order_lines_to_move (\<lambda>k. case find (\<lambda>i. line_key i = k) order_lines_to_move of
            None \<Rightarrow> 0 | Some i \<Rightarrow> sl_quantity_fulfilled (al_line i));
          ful = (\<lambda>k. (case find (\<lambda>i. line_key i = k) order_lines_to_move of None \<Rightarrow> 0 | Some i \<Rightarrow> sl_quantity_fulfilled (al_line i))
                  + sum_of snd (filter (\<lambda>(i, q). line_key i = k) moves));
          ns = map (\<lambda>(i, q). \<lparr>nl_fulfillment = target, nl_order_line = line_key i, nl_quantity = q, nl_stock = None\<rparr>) moves;
          lines_to_dellocate = map (\<lambda>(i, q). \<lparr>li_line = order_line.truncate (al_line i), li_quantity = q, li_variant = None,
              li_warehouse_pk = None\<rparr>)
            (filter (\<lambda>(i, q). list_ex (\<lambda>a. a_order_line a = line_key i) (allocations (db_of s))) moves);
          s = (if lines_to_dellocate = [] then s
               else with_db (fst (deallocate_stock (ae_env e) lines_to_dellocate (db_of s))) s)
      in case create_lines ns s of Inl er \<Rightarrow> Inl er
         | Inr (created, s) \<Rightarrow> Inr (created, save_fulfilled (map line_key order_lines_to_move) ful s))"

definition set_line_quantities :: "(pk \<times> int) list \<Rightarrow> order_tables \<Rightarrow> order_tables" where
  "set_line_quantities us T = T\<lparr>fulfillments := map (\<lambda>f. f\<lparr>f_lines :=
     bulk_update fl_pk (map (\<lambda>(k, q). (k, \<lambda>fl. fl\<lparr>fl_quantity := q\<rparr>)) us) (f_lines f)\<rparr>) (fulfillments T)\<rparr>"

definition delete_fulfillment_lines :: "pk list \<Rightarrow> order_tables \<Rightarrow> order_tables" where
  "delete_fulfillment_lines ks T = T\<lparr>fulfillments :=
     map (\<lambda>f. f\<lparr>f_lines := filter (\<lambda>fl. fl_pk fl \<notin> set ks) (f_lines f)\<rparr>) (fulfillments T)\<rparr>"

fun move_loop ::
  "pk \<Rightarrow> moved_line list \<Rightarrow> fulfillment_line list \<Rightarrow> new_line list \<Rightarrow> pk list \<Rightarrow> fulfillment_line list \<Rightarrow> pk list
   \<Rightarrow> fulfillment_line list \<times> new_line list \<times> pk list \<times> fulfillment_line list \<times> pk list" where
  \<comment> \<open>The lines of the target that existed, as objects; the lines to create; the existing lines to update;
      the moved lines to update and the keys of those to delete.\<close>
  "move_loop target [] mem to_create to_update sources to_delete = (mem, to_create, to_update, sources, to_delete)"
| "move_loop target (m # ms) mem to_create to_update sources to_delete =
     (let line = ml_line m;
          found = find (\<lambda>x. fl_order_line x = fl_order_line line \<and> fl_stock x = fl_stock line) mem;
          fulfilled_to_move = min (fl_quantity line) (ml_quantity m);
          line = line\<lparr>fl_quantity := fl_quantity line - fulfilled_to_move\<rparr>;
          to_delete = (if fl_quantity line = 0 then to_delete @ [fl_pk line] else to_delete);
          sources = (if fl_quantity line = 0 then sources else sources @ [line])
      in case found of
           Some x \<Rightarrow> move_loop target ms
             (map (\<lambda>y. if fl_pk y = fl_pk x then y\<lparr>fl_quantity := fl_quantity y + fulfilled_to_move\<rparr> else y) mem)
             to_create (to_update @ [fl_pk x]) sources to_delete
         | None \<Rightarrow> move_loop target ms mem
             (if 0 < fulfilled_to_move then to_create @ [\<lparr>nl_fulfillment = target, nl_order_line = fl_order_line line,
                 nl_quantity = fulfilled_to_move, nl_stock = fl_stock line\<rparr>] else to_create)
             to_update sources to_delete)"

definition move_fulfillment_lines_to_target_fulfillment ::
  "moved_line list \<Rightarrow> fulfillment_line list \<Rightarrow> pk \<Rightarrow> action_state \<Rightarrow> action_error + action_state" where
  "move_fulfillment_lines_to_target_fulfillment fulfillment_lines_to_move lines_in_target target s =
     (case move_loop target fulfillment_lines_to_move lines_in_target [] [] [] [] of
        (mem, to_create, to_update, sources, to_delete) \<Rightarrow>
          let us = map (\<lambda>fl. (fl_pk fl, fl_quantity fl)) sources
                 @ map (\<lambda>fl. (fl_pk fl, fl_quantity fl)) (filter (\<lambda>fl. fl_pk fl \<in> set to_update) mem)
          in if list_ex (\<lambda>(k, q). q < 0) us then Inl (Stock_Error Integrity_Error)
             else (case create_lines to_create (with_tables (set_line_quantities us) s) of Inl er \<Rightarrow> Inl er
                | Inr (_, s) \<Rightarrow> Inr (with_tables (delete_fulfillment_lines to_delete) s)))"

definition delete_empty_fulfillments :: "pk \<Rightarrow> action_state \<Rightarrow> action_state" where
  "delete_empty_fulfillments k = with_tables (\<lambda>T. T\<lparr>fulfillments := filter (\<lambda>f. \<not> (f_order f = k \<and> f_lines f = []
     \<and> f_status f \<in> {FULFILLED_F, WAITING_FOR_APPROVAL})) (fulfillments T)\<rparr>)"

section \<open>Refunds\<close>

definition get_shipping_refund_amount :: "bool \<Rightarrow> decimal option \<Rightarrow> decimal \<Rightarrow> decimal option" where
  "get_shipping_refund_amount refund_shipping_costs amount shipping_price =
     (if refund_shipping_costs \<and> amount = None then Some shipping_price else None)"

definition fulfillment_of_line :: "action_state \<Rightarrow> fulfillment_line \<Rightarrow> fulfillment option" where
  "fulfillment_of_line s fl = find (\<lambda>f. fl_pk fl \<in> fl_pk ` set (f_lines f)) (fulfillments (tables_of s))"

definition count_line :: "pk \<Rightarrow> int \<Rightarrow> (pk \<times> int) list \<Rightarrow> (pk \<times> int) list" where
  \<comment> \<open>The dictionary of quantities by order line, in insertion order.\<close>
  "count_line k q counts = (case map_of counts k of None \<Rightarrow> counts @ [(k, q)]
     | Some q' \<Rightarrow> map (\<lambda>(x, n). if x = k then (x, n + q) else (x, n)) counts)"

definition set_count :: "pk \<Rightarrow> int \<Rightarrow> (pk \<times> int) list \<Rightarrow> (pk \<times> int) list" where
  "set_count k q counts = (case map_of counts k of None \<Rightarrow> counts @ [(k, q)]
     | Some _ \<Rightarrow> map (\<lambda>(x, n). if x = k then (x, q) else (x, n)) counts)"

fun refund_of_fulfillment_lines ::
  "action_state \<Rightarrow> moved_line list \<Rightarrow> decimal \<Rightarrow> (pk \<times> int) list \<Rightarrow> action_error + decimal \<times> (pk \<times> int) list" where
  "refund_of_fulfillment_lines s [] amount counts = Inr (amount, counts)"
| "refund_of_fulfillment_lines s (m # ms) amount counts =
     (if map_option f_status (fulfillment_of_line s (ml_line m)) = Some REFUNDED_F
      then refund_of_fulfillment_lines s ms amount counts
      else (case line_of (as_shop s) (ml_line m) of None \<Rightarrow> Inl (Stock_Error Key_Error)
        | Some l \<Rightarrow> refund_of_fulfillment_lines s ms
            (amount + of_int (ml_quantity m) * sl_unit_price_gross_amount l) (count_line (ol_pk l) (ml_quantity m) counts)))"

definition calculate_refund_amount ::
  "action_state \<Rightarrow> action_line list \<Rightarrow> moved_line list \<Rightarrow> action_error + decimal \<times> (pk \<times> int) list" where
  "calculate_refund_amount s return_order_lines return_fulfillment_lines =
     refund_of_fulfillment_lines s return_fulfillment_lines
       (sum_list (map (\<lambda>i. of_int (al_quantity i) * sl_unit_price_gross_amount (al_line i)) return_order_lines))
       (fold (\<lambda>i counts. set_count (line_key i) (al_quantity i) counts) return_order_lines [])"

definition process_refund ::
  "action_env \<Rightarrow> sales_order \<Rightarrow> payment option \<Rightarrow> action_line list \<Rightarrow> moved_line list \<Rightarrow> decimal option \<Rightarrow> bool
   \<Rightarrow> action_state \<Rightarrow> (action_error + decimal) \<times> action_state" where
  \<comment> \<open>An error of the gateway leaves what was written (\<open>transaction_with_commit_on_errors\<close>).\<close>
  "process_refund e o1 payment order_lines_to_refund fulfillment_lines_to_refund amount refund_shipping_costs s =
     (let calculated = (case amount of Some a \<Rightarrow> Inr (a, [])
            | None \<Rightarrow> (case calculate_refund_amount s order_lines_to_refund fulfillment_lines_to_refund of Inl er \<Rightarrow> Inl er
                | Inr (a, counts) \<Rightarrow> Inr (if refund_shipping_costs then a + so_shipping_price_gross_amount o1 else a, counts)))
      in case calculated of Inl er \<Rightarrow> (Inl er, s)
         | Inr (a, counts) \<Rightarrow>
            (let event = (\<lambda>a. Fulfillment_Refunded_Event (o_id o1) (map (\<lambda>(k, q). (q, k)) counts) a refund_shipping_costs)
             in case (if a = 0 then None else payment) of
                  None \<Rightarrow> (Inr a, log_calls [event a] s)
                | Some p \<Rightarrow>
                    (let a = min (p_captured_amount p) a
                     in case Payment_Operations.refund (ae_precision e) (ae_gateway e) (Some a) p (tables_of s) of
                          (Inl er, T) \<Rightarrow> (Inl (Payment_Failed er), with_tables (\<lambda>_. T) s)
                        | (Inr _, T) \<Rightarrow>
                            (let s = with_tables (\<lambda>_. T) s
                             in (Inr a, log_calls (map Order_Call (order_refunded T o1 a (find_row p_pk (p_pk p) (payments T)) False)
                                    @ [event a]) s)))))"

definition move_all_lines ::
  "action_env \<Rightarrow> action_line list \<Rightarrow> moved_line list \<Rightarrow> pk \<Rightarrow> action_state \<Rightarrow> action_error + action_state" where
  \<comment> \<open>The order lines, then the fulfillment lines, to one fulfillment.\<close>
  "move_all_lines e order_ls fulfillment_ls target s =
     (case move_order_lines_to_target_fulfillment e order_ls target s of Inl er \<Rightarrow> Inl er
      | Inr (created, s) \<Rightarrow> move_fulfillment_lines_to_target_fulfillment fulfillment_ls created target s)"

definition create_refund_fulfillment ::
  "action_env \<Rightarrow> sales_order \<Rightarrow> payment option \<Rightarrow> action_line list \<Rightarrow> moved_line list \<Rightarrow> decimal option \<Rightarrow> bool
   \<Rightarrow> action_state \<Rightarrow> (action_error + pk) \<times> action_state" where
  \<comment> \<open>An error of the database rolls everything back, an error of the gateway nothing.\<close>
  "create_refund_fulfillment e o1 payment order_lines_to_refund fulfillment_lines_to_refund amount refund_shipping_costs s =
     (case process_refund e o1 payment order_lines_to_refund fulfillment_lines_to_refund amount refund_shipping_costs s of
        (Inl er, s') \<Rightarrow> (Inl er, s')
      | (Inr total_refund_amount, s') \<Rightarrow>
          (case new_fulfillment (o_id o1) REFUNDED_F [] (Some total_refund_amount)
               (get_shipping_refund_amount refund_shipping_costs amount (so_shipping_price_gross_amount o1)) s' of
             (fk, s') \<Rightarrow>
               (case move_all_lines e order_lines_to_refund fulfillment_lines_to_refund fk s' of
                  Inl er \<Rightarrow> (Inl er, s)
                | Inr s' \<Rightarrow> (Inr fk, log_calls [Order_Call (Order_Updated (o_id o1))] (delete_empty_fulfillments (o_id o1) s')))))"

section \<open>Replacing lines\<close>

definition populate_replace_order_fields :: "sales_order \<Rightarrow> action_state \<Rightarrow> sales_order \<times> action_state" where
  "populate_replace_order_fields o1 s =
     (let new = o1\<lparr>o_id := order_seq (tables_of s), o_status := DRAFT, o_shipping_zone := None, so_total_gross_amount := 0,
            so_total_charged_amount := 0, so_total_authorized_amount := 0, so_charge_status := CHARGE_NONE,
            so_authorize_status := AUTHORIZE_NONE, so_shipping_price_gross_amount := 0, so_origin := REISSUE,
            so_original := Some (o_id o1)\<rparr>
      in (new, with_tables (\<lambda>T. T\<lparr>orders := orders T @ [new], order_seq := Suc (order_seq T)\<rparr>) s))"

definition replacing_line :: "sales_order \<Rightarrow> int \<Rightarrow> sales_line \<Rightarrow> sales_line" where
  "replacing_line new q l = l\<lparr>ol_order := order.truncate new, sl_quantity := q, sl_quantity_fulfilled := 0\<rparr>"

definition replace_order_lines :: "sales_order \<Rightarrow> action_line list \<Rightarrow> (pk \<times> sales_line) list" where
  "replace_order_lines new is = fold (\<lambda>i ls. let l = replacing_line new (al_quantity i) (al_line i) in
     case map_of ls (line_key i) of None \<Rightarrow> ls @ [(line_key i, l)]
     | Some _ \<Rightarrow> map (\<lambda>(k, l'). if k = line_key i then (k, l) else (k, l')) ls) is []"

fun replace_fulfillment_lines ::
  "action_state \<Rightarrow> sales_order \<Rightarrow> moved_line list \<Rightarrow> (pk \<times> sales_line) list \<Rightarrow> action_error + (pk \<times> sales_line) list" where
  "replace_fulfillment_lines s new [] ls = Inr ls"
| "replace_fulfillment_lines s new (m # ms) ls =
     (let k = fl_order_line (ml_line m) in
      case map_of ls k of
        Some _ \<Rightarrow> replace_fulfillment_lines s new ms
          (map (\<lambda>(x, l). if x = k then (x, l\<lparr>sl_quantity := sl_quantity l + ml_quantity m\<rparr>) else (x, l)) ls)
      | None \<Rightarrow> (case line_of (as_shop s) (ml_line m) of None \<Rightarrow> Inl (Stock_Error Key_Error)
          | Some l \<Rightarrow> replace_fulfillment_lines s new ms (ls @ [(k, replacing_line new (ml_quantity m) l)])))"

definition create_order_lines :: "sales_line list \<Rightarrow> action_state \<Rightarrow> sales_line list \<times> action_state" where
  "create_order_lines ls s =
     (let start = line_seq (tables_of s);
          new = map (\<lambda>(k, l). l\<lparr>ol_pk := k\<rparr>) (zip [start ..< start + length ls] ls)
      in (new, with_db ((db_of s)\<lparr>order_lines := order_lines (db_of s) @ map order_line.truncate new\<rparr>)
            (with_tables (\<lambda>T. T\<lparr>lines := lines T @ new, line_seq := start + length ls\<rparr>) s)))"

definition create_replace_order ::
  "sales_order \<Rightarrow> action_line list \<Rightarrow> moved_line list \<Rightarrow> action_state \<Rightarrow> action_error + sales_order \<times> sales_line list \<times> action_state" where
  "create_replace_order original order_lines_to_replace fulfillment_lines_to_replace s =
     (case populate_replace_order_fields original s of (new, s) \<Rightarrow>
       case replace_fulfillment_lines s new fulfillment_lines_to_replace (replace_order_lines new order_lines_to_replace) of
         Inl er \<Rightarrow> Inl er
       | Inr ls \<Rightarrow> (case create_order_lines (map snd ls) s of (created, s) \<Rightarrow>
           Inr (new, created, log_calls [Draft_Order_Created_From_Replace_Event (o_id new) (o_id original) (map ol_pk created)] s)))"

definition move_lines_to_replace_fulfillment ::
  "action_env \<Rightarrow> action_line list \<Rightarrow> moved_line list \<Rightarrow> pk \<Rightarrow> action_state \<Rightarrow> action_error + pk \<times> action_state" where
  "move_lines_to_replace_fulfillment e order_ls fulfillment_ls k s =
     (case new_fulfillment k REPLACED [] None None s of (fk, s) \<Rightarrow>
       case move_all_lines e order_ls fulfillment_ls fk s of Inl er \<Rightarrow> Inl er | Inr s \<Rightarrow> Inr (fk, s))"

definition process_replace ::
  "action_env \<Rightarrow> sales_order \<Rightarrow> action_line list \<Rightarrow> moved_line list \<Rightarrow> action_state \<Rightarrow> action_error + (pk \<times> sales_order) \<times> action_state" where
  "process_replace e o1 order_ls fulfillment_ls s =
     (case move_lines_to_replace_fulfillment e order_ls fulfillment_ls (o_id o1) s of Inl er \<Rightarrow> Inl er
      | Inr (fk, s) \<Rightarrow>
          (case create_replace_order o1 order_ls fulfillment_ls s of Inl er \<Rightarrow> Inl er
           | Inr (new, created, s) \<Rightarrow> Inr ((fk, new), log_calls [Fulfillment_Replaced_Event (o_id o1) (map ol_pk created),
               Order_Replacement_Created (o_id o1) (o_id new)] s)))"

section \<open>Returning lines\<close>

definition already_refunded :: "pk \<Rightarrow> action_state \<Rightarrow> pk list" where
  "already_refunded k s = map fl_pk (concat (map f_lines (filter (\<lambda>f. f_order f = k \<and> f_status f = REFUNDED_F)
     (fulfillments (tables_of s)))))"

definition move_lines_to_return_fulfillment ::
  "action_env \<Rightarrow> action_line list \<Rightarrow> moved_line list \<Rightarrow> fulfillment_status \<Rightarrow> pk \<Rightarrow> decimal option \<Rightarrow> decimal option
   \<Rightarrow> action_state \<Rightarrow> action_error + pk \<times> action_state" where
  "move_lines_to_return_fulfillment e order_ls fulfillment_ls st k total_refund_amount shipping_refund_amount s =
     (case new_fulfillment k st [] total_refund_amount shipping_refund_amount s of (fk, s) \<Rightarrow>
       case move_order_lines_to_target_fulfillment e order_ls fk s of Inl er \<Rightarrow> Inl er
       | Inr (created, s) \<Rightarrow>
          (let refunded = already_refunded k s;
               refunded_lines = filter (\<lambda>m. fl_pk (ml_line m) \<in> set refunded) fulfillment_ls;
               other_lines = filter (\<lambda>m. fl_pk (ml_line m) \<notin> set refunded) fulfillment_ls
           in case move_fulfillment_lines_to_target_fulfillment other_lines created fk s of Inl er \<Rightarrow> Inl er
              | Inr s \<Rightarrow>
                 (if refunded_lines = [] then Inr (fk, s)
                  else case (if st = REFUNDED_AND_RETURNED then (fk, s)
                             else new_fulfillment k REFUNDED_AND_RETURNED [] None None s) of
                    (rk, s) \<Rightarrow> (case move_fulfillment_lines_to_target_fulfillment refunded_lines [] rk s of
                       Inl er \<Rightarrow> Inl er | Inr s \<Rightarrow> Inr (fk, s)))))"

fun count_returned :: "action_state \<Rightarrow> moved_line list \<Rightarrow> (pk \<times> int) list \<Rightarrow> action_error + (pk \<times> int) list" where
  "count_returned s [] counts = Inr counts"
| "count_returned s (m # ms) counts = (case line_of (as_shop s) (ml_line m) of None \<Rightarrow> Inl (Stock_Error Key_Error)
     | Some l \<Rightarrow> count_returned s ms (count_line (ol_pk l) (ml_quantity m) counts))"

definition create_return_fulfillment ::
  "action_env \<Rightarrow> pk \<Rightarrow> action_line list \<Rightarrow> moved_line list \<Rightarrow> decimal option \<Rightarrow> decimal option \<Rightarrow> action_state
   \<Rightarrow> action_error + pk \<times> (pk \<times> int) list \<times> action_state" where
  \<comment> \<open>With the returned lines, for \<open>order_returned\<close> when the transaction has committed.\<close>
  "create_return_fulfillment e k order_ls fulfillment_ls total_refund_amount shipping_refund_amount s =
     (case move_lines_to_return_fulfillment e order_ls fulfillment_ls
             (if total_refund_amount = None then RETURNED_F else REFUNDED_AND_RETURNED) k total_refund_amount
             shipping_refund_amount s of
        Inl er \<Rightarrow> Inl er
      | Inr (fk, s) \<Rightarrow> (case count_returned s fulfillment_ls
            (fold (\<lambda>i counts. set_count (line_key i) (al_quantity i) counts) order_ls []) of
          Inl er \<Rightarrow> Inl er | Inr returned_lines \<Rightarrow> Inr (fk, returned_lines, s)))"

definition order_returned :: "pk \<Rightarrow> (pk \<times> int) list \<Rightarrow> action_state \<Rightarrow> action_state" where
  "order_returned k returned_lines s =
     refresh_order_status k (log_calls [Order_Returned_Event k (map (\<lambda>(x, q). (q, x)) returned_lines)] s)"

definition create_fulfillments_for_returned_products ::
  "action_env \<Rightarrow> sales_order \<Rightarrow> payment option \<Rightarrow> action_line list \<Rightarrow> moved_line list \<Rightarrow> bool \<Rightarrow> decimal option \<Rightarrow> bool
   \<Rightarrow> action_state \<Rightarrow> (action_error + pk \<times> (pk \<times> sales_order) option) \<times> action_state" where
  \<comment> \<open>The return fulfillment, the replace fulfillment and the new order; any error rolls back.\<close>
  "create_fulfillments_for_returned_products e o1 payment order_ls fulfillment_ls refunds amount refund_shipping_costs s =
     (let k = o_id o1;
          return_order_lines = filter (\<lambda>i. \<not> al_replace i) order_ls;
          return_fulfillment_lines = filter (\<lambda>m. \<not> ml_replace m) fulfillment_ls;
          replaced_order_lines = filter al_replace order_ls;
          replaced_fulfillment_lines = filter ml_replace fulfillment_ls;
          shipping_refund_amount = get_shipping_refund_amount refund_shipping_costs amount (so_shipping_price_gross_amount o1);
          refunded = (if refunds \<and> payment \<noteq> None
            then (case process_refund e o1 payment return_order_lines return_fulfillment_lines amount refund_shipping_costs s of
                    (Inl er, _) \<Rightarrow> Inl er | (Inr a, s) \<Rightarrow> Inr (Some a, s))
            else Inr (None, s))
      in case refunded of Inl er \<Rightarrow> (Inl er, s)
         | Inr (total_refund_amount, s1) \<Rightarrow>
            (case (if replaced_order_lines \<noteq> [] \<or> replaced_fulfillment_lines \<noteq> []
                   then (case process_replace e o1 replaced_order_lines replaced_fulfillment_lines s1 of
                           Inl er \<Rightarrow> Inl er | Inr (r, s) \<Rightarrow> Inr (Some r, s))
                   else Inr (None, s1)) of
               Inl er \<Rightarrow> (Inl er, s)
             | Inr (replace, s2) \<Rightarrow>
                (case create_return_fulfillment e k return_order_lines return_fulfillment_lines total_refund_amount
                        shipping_refund_amount s2 of
                   Inl er \<Rightarrow> (Inl er, s)
                 | Inr (fk, returned_lines, s3) \<Rightarrow>
                    (Inr (fk, replace), log_calls [Order_Call (Order_Updated k)]
                       (order_returned k returned_lines (delete_empty_fulfillments k s3))))))"

end
