(* ===== verification/Order_Mutations.thy ===== *)
theory Order_Mutations
  imports Returns
begin

text \<open>
  The mutations of \<open>saleor/graphql/order/mutations\<close> that fulfill, approve, cancel, refund and return: how they
  check their input and what they call.  Ids are the keys of rows, permissions are not modelled.
\<close>

section \<open>Errors and input\<close>

datatype order_error_code =
    CANNOT_FULFILL_UNPAID_ORDER | DUPLICATED_INPUT_ITEM | FULFILL_ORDER_LINE | ZERO_QUANTITY | GRAPHQL_ERROR
  | CANNOT_REFUND | GIFT_CARD_LINE | INVALID_QUANTITY | INVALID_STATUS | CANNOT_CANCEL_FULFILLMENT | REQUIRED
  | CANNOT_CANCEL_ORDER | MISSING_NODE | INSUFFICIENT_STOCK "insufficient_stock_data list"
  | UNHANDLED action_error

record site_settings =
  fulfillment_auto_approve :: bool
  fulfillment_allow_unpaid :: bool

record fulfill_line_input =
  fi_order_line_id :: pk
  fi_stocks :: "(pk \<times> int) list"     \<comment> \<open>(warehouse, quantity)\<close>

record return_line_input =
  ri_line_id :: pk
  ri_quantity :: int
  ri_replace :: bool

definition get_nodes :: "('r \<Rightarrow> pk) \<Rightarrow> pk list \<Rightarrow> 'r list \<Rightarrow> order_error_code + 'r list" where
  \<comment> \<open>Every row once, in the order in which its key first occurs.\<close>
  "get_nodes key ks rows =
     (let nodes = sort_key (\<lambda>r. the (index_of (key r) ks)) (filter (\<lambda>r. key r \<in> set ks) rows)
      in if nodes = [] then Inl GRAPHQL_ERROR
         else if list_all (\<lambda>k. k \<in> key ` set nodes) ks then Inr nodes else Inl MISSING_NODE)"

section \<open>\<open>OrderFulfill\<close>\<close>

definition quantity_unfulfilled :: "sales_line \<Rightarrow> int" where
  "quantity_unfulfilled l = sl_quantity l - sl_quantity_fulfilled l"

definition fulfill_clean_lines :: "sales_line list \<Rightarrow> int list list \<Rightarrow> bool" where
  \<comment> \<open>\<open>clean_lines\<close>: whether no error is raised.\<close>
  "fulfill_clean_lines order_ls quantities_for_lines \<longleftrightarrow>
     list_all (\<lambda>(l, qs). sum_list qs \<le> quantity_unfulfilled l) (zip order_ls quantities_for_lines)"

definition check_lines_for_preorder :: "env \<Rightarrow> db \<Rightarrow> sales_line list \<Rightarrow> bool" where
  "check_lines_for_preorder e d order_ls \<longleftrightarrow> list_all (\<lambda>l. case line_variant d l of None \<Rightarrow> True
     | Some v \<Rightarrow> \<not> is_preorder_active e v) order_ls"

definition lines_for_warehouses :: "(fulfill_line_input \<times> sales_line) list \<Rightarrow> (pk \<times> (sales_line \<times> int) list) list" where
  "lines_for_warehouses ps = fold (\<lambda>(l, (wh, q)) groups. if 0 < q then add_to_group wh (l, q) groups else groups)
     (concat (map (\<lambda>(inp, l). map (Pair l) (fi_stocks inp)) ps)) []"

definition fulfill_clean_input ::
  "action_env \<Rightarrow> site_settings \<Rightarrow> sales_order \<Rightarrow> fulfill_line_input list \<Rightarrow> action_state
   \<Rightarrow> order_error_code + (pk \<times> (sales_line \<times> int) list) list" where
  "fulfill_clean_input e site o1 inputs s =
     (if \<not> is_fully_paid o1 \<and> fulfillment_auto_approve site \<and> \<not> fulfillment_allow_unpaid site
      then Inl CANNOT_FULFILL_UNPAID_ORDER
      else if \<not> list_all (\<lambda>i. distinct (map fst (fi_stocks i))) inputs then Inl DUPLICATED_INPUT_ITEM
      else if \<not> distinct (map fi_order_line_id inputs) then Inl DUPLICATED_INPUT_ITEM
      else case get_nodes ol_pk (map fi_order_line_id inputs) (lines (tables_of s)) of Inl er \<Rightarrow> Inl er
        | Inr order_ls \<Rightarrow>
            (let quantities_for_lines = map (\<lambda>i. map snd (fi_stocks i)) inputs
             in if \<not> fulfill_clean_lines order_ls quantities_for_lines then Inl FULFILL_ORDER_LINE
                else if fulfillment_auto_approve site \<and> \<not> check_lines_for_preorder (ae_env e) (db_of s) order_ls
                then Inl FULFILL_ORDER_LINE
                else if sum_list (concat quantities_for_lines) \<le> 0 then Inl ZERO_QUANTITY
                else Inr (lines_for_warehouses (zip inputs order_ls))))"

definition action_failed :: "action_error \<Rightarrow> order_error_code" where
  "action_failed er = (case er of Stock_Error (Insufficient_Stock ds) \<Rightarrow> INSUFFICIENT_STOCK ds | _ \<Rightarrow> UNHANDLED er)"

definition order_fulfill ::
  "action_env \<Rightarrow> site_settings \<Rightarrow> pk \<Rightarrow> fulfill_line_input list \<Rightarrow> bool \<Rightarrow> bool \<Rightarrow> string \<Rightarrow> action_state
   \<Rightarrow> (order_error_code + pk list) \<times> action_state" where
  "order_fulfill e site k inputs notify_customer allow_stock_to_be_exceeded tracking_number s =
     (case order_by_key k s of None \<Rightarrow> (Inl GRAPHQL_ERROR, s)
      | Some o1 \<Rightarrow> (case fulfill_clean_input e site o1 inputs s of Inl er \<Rightarrow> (Inl er, s)
         | Inr groups \<Rightarrow> (case create_fulfillments e o1 groups notify_customer (fulfillment_auto_approve site)
               allow_stock_to_be_exceeded tracking_number s of
             (Inl er, s') \<Rightarrow> (Inl (action_failed er), s') | (Inr fks, s') \<Rightarrow> (Inr fks, s'))))"

section \<open>\<open>FulfillmentApprove\<close>, \<open>FulfillmentCancel\<close>, \<open>OrderCancel\<close>\<close>

definition order_has_gift_card_lines :: "pk \<Rightarrow> action_state \<Rightarrow> bool" where
  "order_has_gift_card_lines k s = list_ex (\<lambda>l. o_id (ol_order l) = k \<and> sl_is_gift_card l) (lines (tables_of s))"

definition fulfillment_approve ::
  "action_env \<Rightarrow> site_settings \<Rightarrow> pk \<Rightarrow> bool \<Rightarrow> bool \<Rightarrow> action_state \<Rightarrow> (order_error_code + unit) \<times> action_state" where
  "fulfillment_approve e site fk allow_stock_to_be_exceeded notify_customer s =
     (case fulfillment_by_key fk s of None \<Rightarrow> (Inl GRAPHQL_ERROR, s)
      | Some f \<Rightarrow> (case order_by_key (f_order f) s of None \<Rightarrow> (Inl GRAPHQL_ERROR, s)
         | Some o1 \<Rightarrow>
            (if f_status f \<noteq> WAITING_FOR_APPROVAL then (Inl INVALID_STATUS, s)
             else if \<not> check_lines_for_preorder (ae_env e) (db_of s) (map fst (fulfillment_pairs s f)) then (Inl FULFILL_ORDER_LINE, s)
             else if \<not> fulfillment_allow_unpaid site \<and> \<not> is_fully_paid o1 then (Inl CANNOT_FULFILL_UNPAID_ORDER, s)
             else (case approve_fulfillment e fk notify_customer allow_stock_to_be_exceeded s of
                 Inl er \<Rightarrow> (Inl (action_failed er), s) | Inr s' \<Rightarrow> (Inr (), s')))))"

definition fulfillment_cancel :: "pk \<Rightarrow> pk option \<Rightarrow> action_state \<Rightarrow> (order_error_code + unit) \<times> action_state" where
  \<comment> \<open>A warehouse that is given for a fulfillment that waits for approval is not used.\<close>
  "fulfillment_cancel fk warehouse s =
     (case fulfillment_by_key fk s of None \<Rightarrow> (Inl GRAPHQL_ERROR, s)
      | Some f \<Rightarrow>
         (if order_has_gift_card_lines (f_order f) s then (Inl CANNOT_CANCEL_FULFILLMENT, s)
          else if f_status f = CANCELED_F then (Inl CANNOT_CANCEL_FULFILLMENT, s)
          else if f_status f \<noteq> WAITING_FOR_APPROVAL \<and> warehouse = None then (Inl REQUIRED, s)
          else (case (if f_status f = WAITING_FOR_APPROVAL then cancel_waiting_fulfillment fk s
                      else cancel_fulfillment fk warehouse s) of
              Inl er \<Rightarrow> (Inl (action_failed er), s) | Inr s' \<Rightarrow> (Inr (), s'))))"

definition order_cancel :: "action_env \<Rightarrow> pk \<Rightarrow> action_state \<Rightarrow> (order_error_code + unit) \<times> action_state" where
  "order_cancel e k s =
     (case order_by_key k s of None \<Rightarrow> (Inl GRAPHQL_ERROR, s)
      | Some o1 \<Rightarrow> if \<not> can_cancel (tables_of s) o1 then (Inl CANNOT_CANCEL_ORDER, s) else (Inr (), cancel_order e k s))"

section \<open>\<open>FulfillmentRefundProducts\<close>, \<open>FulfillmentReturnProducts\<close>\<close>

definition clean_order_payment :: "payment option \<Rightarrow> order_error_code + payment" where
  "clean_order_payment p = (case p of None \<Rightarrow> Inl CANNOT_REFUND | Some p \<Rightarrow> if can_refund p then Inr p else Inl CANNOT_REFUND)"

definition clean_amount_to_refund :: "pk \<Rightarrow> decimal option \<Rightarrow> decimal \<Rightarrow> action_state \<Rightarrow> bool" where
  "clean_amount_to_refund k amount_to_refund charged_value s = (case amount_to_refund of None \<Rightarrow> True
     | Some a \<Rightarrow> \<not> order_has_gift_card_lines k s \<and> a \<le> charged_value)"

fun clean_line_pairs :: "db \<Rightarrow> (sales_line \<times> return_line_input) list \<Rightarrow> order_error_code + action_line list" where
  "clean_line_pairs d [] = Inr []"
| "clean_line_pairs d ((l, inp) # ps) =
     (if sl_is_gift_card l then Inl GIFT_CARD_LINE
      else if sl_quantity l < ri_quantity inp then Inl INVALID_QUANTITY
      else if quantity_unfulfilled l < ri_quantity inp then Inl INVALID_QUANTITY
      else if ri_replace inp \<and> ol_variant l = None then Inl INVALID_QUANTITY
      else case clean_line_pairs d ps of Inl er \<Rightarrow> Inl er
        | Inr is \<Rightarrow> Inr (\<lparr>al_line = l, al_quantity = ri_quantity inp, al_variant = line_variant d l, al_warehouse_pk = None,
            al_replace = ri_replace inp\<rparr> # is))"

definition clean_lines :: "return_line_input list \<Rightarrow> action_state \<Rightarrow> order_error_code + action_line list" where
  "clean_lines lines_data s = (if lines_data = [] then Inr []
     else case get_nodes ol_pk (map ri_line_id lines_data) (lines (tables_of s)) of Inl er \<Rightarrow> Inl er
       | Inr order_ls \<Rightarrow> clean_line_pairs (db_of s) (zip order_ls lines_data))"

definition all_fulfillment_lines :: "order_tables \<Rightarrow> (fulfillment \<times> fulfillment_line) list" where
  "all_fulfillment_lines T = concat (map (\<lambda>f. map (Pair f) (f_lines f)) (fulfillments T))"

fun clean_fulfillment_line_pairs ::
  "action_state \<Rightarrow> fulfillment_status set \<Rightarrow> ((fulfillment \<times> fulfillment_line) \<times> return_line_input) list
   \<Rightarrow> order_error_code + moved_line list" where
  "clean_fulfillment_line_pairs s whitelisted_statuses [] = Inr []"
| "clean_fulfillment_line_pairs s whitelisted_statuses (((f, fl), inp) # ps) =
     (case line_of (as_shop s) fl of None \<Rightarrow> Inl MISSING_NODE
      | Some l \<Rightarrow>
         if sl_is_gift_card l then Inl GIFT_CARD_LINE
         else if fl_quantity fl < ri_quantity inp then Inl INVALID_QUANTITY
         else if f_status f \<notin> whitelisted_statuses then Inl INVALID_STATUS
         else if ri_replace inp \<and> ol_variant l = None then Inl INVALID_QUANTITY
         else case clean_fulfillment_line_pairs s whitelisted_statuses ps of Inl er \<Rightarrow> Inl er
           | Inr ms \<Rightarrow> Inr (\<lparr>ml_line = fl, ml_quantity = ri_quantity inp, ml_replace = ri_replace inp\<rparr> # ms))"

definition clean_fulfillment_lines ::
  "fulfillment_status set \<Rightarrow> return_line_input list \<Rightarrow> action_state \<Rightarrow> order_error_code + moved_line list" where
  "clean_fulfillment_lines whitelisted_statuses lines_data s = (if lines_data = [] then Inr []
     else case get_nodes (\<lambda>(f, fl). fl_pk fl) (map ri_line_id lines_data) (all_fulfillment_lines (tables_of s)) of Inl er \<Rightarrow> Inl er
       | Inr fls \<Rightarrow> clean_fulfillment_line_pairs s whitelisted_statuses (zip fls lines_data))"

definition refund_failed :: "action_error \<Rightarrow> order_error_code" where
  "refund_failed er = (case er of Payment_Failed _ \<Rightarrow> CANNOT_REFUND | _ \<Rightarrow> UNHANDLED er)"

definition fulfillment_refund_products ::
  "action_env \<Rightarrow> pk \<Rightarrow> return_line_input list \<Rightarrow> return_line_input list \<Rightarrow> decimal option \<Rightarrow> bool \<Rightarrow> action_state
   \<Rightarrow> (order_error_code + pk) \<times> action_state" where
  "fulfillment_refund_products e k order_lines_data fulfillment_lines_data amount_to_refund include_shipping_costs s =
     (case order_by_key k s of None \<Rightarrow> (Inl GRAPHQL_ERROR, s)
      | Some o1 \<Rightarrow> (case clean_order_payment (get_last_payment (order_payments (tables_of s) o1)) of Inl er \<Rightarrow> (Inl er, s)
         | Inr p \<Rightarrow>
            (if \<not> clean_amount_to_refund k amount_to_refund (p_captured_amount p) s then (Inl CANNOT_REFUND, s)
             else case clean_lines order_lines_data s of Inl er \<Rightarrow> (Inl er, s)
               | Inr is \<Rightarrow> (case clean_fulfillment_lines {FULFILLED_F, RETURNED_F, WAITING_FOR_APPROVAL} fulfillment_lines_data s of
                   Inl er \<Rightarrow> (Inl er, s)
                 | Inr ms \<Rightarrow> (case create_refund_fulfillment e o1 (Some p) is ms amount_to_refund include_shipping_costs s of
                     (Inl er, s') \<Rightarrow> (Inl (refund_failed er), s') | (Inr fk, s') \<Rightarrow> (Inr fk, s'))))))"

definition fulfillment_return_products ::
  "action_env \<Rightarrow> pk \<Rightarrow> return_line_input list \<Rightarrow> return_line_input list \<Rightarrow> decimal option \<Rightarrow> bool \<Rightarrow> bool \<Rightarrow> action_state
   \<Rightarrow> (order_error_code + pk \<times> (pk \<times> sales_order) option) \<times> action_state" where
  "fulfillment_return_products e k order_lines_data fulfillment_lines_data amount_to_refund include_shipping_costs refunds s =
     (case order_by_key k s of None \<Rightarrow> (Inl GRAPHQL_ERROR, s)
      | Some o1 \<Rightarrow>
         (case (if refunds then (case clean_order_payment (get_last_payment (order_payments (tables_of s) o1)) of Inl er \<Rightarrow> Inl er
                   | Inr p \<Rightarrow> if clean_amount_to_refund k amount_to_refund (p_captured_amount p) s then Inr (Some p) else Inl CANNOT_REFUND)
                else Inr None) of Inl er \<Rightarrow> (Inl er, s)
          | Inr payment \<Rightarrow> (case clean_lines order_lines_data s of Inl er \<Rightarrow> (Inl er, s)
             | Inr is \<Rightarrow> (case clean_fulfillment_lines {FULFILLED_F, REFUNDED_F, WAITING_FOR_APPROVAL} fulfillment_lines_data s of
                 Inl er \<Rightarrow> (Inl er, s)
               | Inr ms \<Rightarrow>
                  \<comment> \<open>Without \<open>refund\<close> the amount is not in the cleaned input.\<close>
                  (case create_fulfillments_for_returned_products e o1 payment is ms refunds
                       (if refunds then amount_to_refund else None) include_shipping_costs s of
                    (Inl er, s') \<Rightarrow> (Inl (refund_failed er), s') | (Inr r, s') \<Rightarrow> (Inr r, s'))))))"

end
