(* ===== verification/Fulfillment_Ledger.thy ===== *)
theory Fulfillment_Ledger
  imports Order_Mutations
begin

text \<open>
  The books of fulfilled quantities: for every order line, \<open>quantity_fulfilled\<close> is what the lines of its
  fulfillments that are not cancelled add up to, and no more than was ordered, after every sequence of
  mutations that fulfill, approve, cancel, refund, return and replace.
\<close>

section \<open>The books\<close>

definition held_in :: "fulfillment \<Rightarrow> pk \<Rightarrow> int" where
  "held_in f x = (if f_status f = CANCELED_F then 0 else group_sum fl_order_line fl_quantity (f_lines f) x)"

definition held :: "order_tables \<Rightarrow> pk \<Rightarrow> int" where
  "held T x = sum_of (\<lambda>f. held_in f x) (fulfillments T)"

definition line_keys :: "order_tables \<Rightarrow> pk set" where
  "line_keys T = ol_pk ` set (lines T)"

definition rows_ok :: "order_tables \<Rightarrow> bool" where
  "rows_ok T \<longleftrightarrow> distinct (map ol_pk (lines T)) \<and> distinct (map f_pk (fulfillments T))
     \<and> distinct (map (\<lambda>(f, fl). fl_pk fl) (all_fulfillment_lines T))
     \<and> (\<forall>x \<in> line_keys T. x < line_seq T) \<and> (\<forall>f \<in> set (fulfillments T). f_pk f < fulfillment_seq T)
     \<and> (\<forall>(f, fl) \<in> set (all_fulfillment_lines T). fl_pk fl < fulfillment_line_seq T \<and> 0 \<le> fl_quantity fl
          \<and> fl_order_line fl \<in> line_keys T)"

definition books :: "(pk \<Rightarrow> int) \<Rightarrow> order_tables \<Rightarrow> bool" where
  \<comment> \<open>\<open>D\<close> is what is still to be entered for a line in the middle of an operation.\<close>
  "books D T \<longleftrightarrow> rows_ok T \<and> (\<forall>l \<in> set (lines T). sl_quantity_fulfilled l + D (ol_pk l) = held T (ol_pk l))"

definition ledger_ok :: "order_tables \<Rightarrow> bool" where
  "ledger_ok T \<longleftrightarrow> books (\<lambda>_. 0) T \<and> (\<forall>l \<in> set (lines T). sl_quantity_fulfilled l \<le> sl_quantity l)"

lemma held_flat: "held T x = sum_of (\<lambda>(f, fl). if f_status f \<noteq> CANCELED_F \<and> fl_order_line fl = x then fl_quantity fl else 0)
    (all_fulfillment_lines T)"
proof -
  have "held_in f x = sum_of (\<lambda>(f, fl). if f_status f \<noteq> CANCELED_F \<and> fl_order_line fl = x then fl_quantity fl else 0)
      (map (Pair f) (f_lines f))" for f
  proof -
    have "(if f_status f = CANCELED_F then 0 else group_sum fl_order_line fl_quantity fls x)
      = sum_of (\<lambda>(f, fl). if f_status f \<noteq> CANCELED_F \<and> fl_order_line fl = x then fl_quantity fl else 0) (map (Pair f) fls)"
      for fls by (induction fls) auto
    from this [of "f_lines f"] show ?thesis unfolding held_in_def .
  qed
  then have "sum_of (\<lambda>f. held_in f x) fs = sum_of (\<lambda>(f, fl). if f_status f \<noteq> CANCELED_F \<and> fl_order_line fl = x then fl_quantity fl else 0)
      (concat (map (\<lambda>f. map (Pair f) (f_lines f)) fs))" for fs
    by (induction fs) simp_all
  then show ?thesis unfolding held_def all_fulfillment_lines_def .
qed

lemma held_nonneg: "rows_ok T \<Longrightarrow> 0 \<le> held T x"
  unfolding held_flat by (rule sum_of_nonneg) (auto simp: rows_ok_def)

lemma held_absent: "rows_ok T \<Longrightarrow> x \<notin> line_keys T \<Longrightarrow> held T x = 0"
  unfolding held_flat by (rule sum_of_zero) (auto simp: rows_ok_def)

section \<open>Parts of the tables that the books do not read\<close>

definition same_books :: "order_tables \<Rightarrow> order_tables \<Rightarrow> bool" where
  "same_books T T' \<longleftrightarrow> map (\<lambda>l. (ol_pk l, sl_quantity l, sl_quantity_fulfilled l)) (lines T')
       = map (\<lambda>l. (ol_pk l, sl_quantity l, sl_quantity_fulfilled l)) (lines T)
     \<and> fulfillments T' = fulfillments T \<and> line_seq T' = line_seq T \<and> fulfillment_seq T' = fulfillment_seq T
     \<and> fulfillment_line_seq T' = fulfillment_line_seq T"

lemma same_books_refl [simp]: "same_books T T" by (simp add: same_books_def)

lemma same_books_trans: "same_books T T1 \<Longrightarrow> same_books T1 T2 \<Longrightarrow> same_books T T2"
  by (simp add: same_books_def)

lemma map_eq_set: "map f xs = map g ys \<Longrightarrow> y \<in> set ys \<Longrightarrow> \<exists>x \<in> set xs. f x = g y"
  by (metis (no_types, lifting) image_iff list.set_map)

lemma books_same:
  assumes "same_books T T'" and "books D T"
  shows "books D T'"
proof -
  have lines: "map (\<lambda>l. (ol_pk l, sl_quantity l, sl_quantity_fulfilled l)) (lines T')
      = map (\<lambda>l. (ol_pk l, sl_quantity l, sl_quantity_fulfilled l)) (lines T)"
    using assms(1) by (simp add: same_books_def)
  have fs: "fulfillments T' = fulfillments T" using assms(1) by (simp add: same_books_def)
  have "map fst (map (\<lambda>l. (ol_pk l, sl_quantity l, sl_quantity_fulfilled l)) (lines T')) = map fst (map (\<lambda>l. (ol_pk l, sl_quantity l, sl_quantity_fulfilled l)) (lines T))"
    unfolding lines ..
  then have keys: "map ol_pk (lines T') = map ol_pk (lines T)" by (simp add: comp_def)
  then have keyset: "line_keys T' = line_keys T" by (simp add: line_keys_def flip: set_map)
  have "rows_ok T'" using assms keys keyset by (simp add: books_def rows_ok_def same_books_def all_fulfillment_lines_def)
  moreover have "sl_quantity_fulfilled l + D (ol_pk l) = held T' (ol_pk l)"
    if l: "l \<in> set (lines T')" for l
  proof -
    from map_eq_set [OF lines [symmetric] l] obtain l0 where "l0 \<in> set (lines T)" "ol_pk l0 = ol_pk l"
      "sl_quantity l0 = sl_quantity l" "sl_quantity_fulfilled l0 = sl_quantity_fulfilled l" by auto
    moreover have "held T' y = held T y" for y by (simp add: held_def fs)
    moreover have "sl_quantity_fulfilled l0 + D (ol_pk l0) = held T (ol_pk l0)"
      using assms(2) \<open>l0 \<in> set (lines T)\<close> unfolding books_def by blast
    ultimately show ?thesis by simp
  qed
  ultimately show ?thesis by (simp add: books_def)
qed

lemma same_books_status [simp]: "same_books (tables_of s) (tables_of (set_order_status k st s))"
  by (simp add: same_books_def set_order_status_def with_db_def with_tables_def comp_def if_distrib cong: if_cong)

lemma same_books_refresh [simp]: "same_books (tables_of s) (tables_of (refresh_order_status k s))"
  by (simp add: refresh_order_status_def Let_def split: option.split)

lemma tables_log [simp]: "tables_of (log_calls cs s) = tables_of s"
  by (simp add: log_calls_def)

lemma tables_with_db [simp]: "tables_of (with_db d s) = tables_of s"
  by (simp add: with_db_def)

lemma tables_with_tables [simp]: "tables_of (with_tables f s) = f (tables_of s)"
  by (simp add: with_tables_def)

section \<open>New rows\<close>

lemma sum_list_hit:
  fixes v :: "'a::comm_monoid_add"
  shows "distinct (map k fs) \<Longrightarrow> (\<Sum>f\<leftarrow>fs. if x = k f then v else 0) = (if x \<in> k ` set fs then v else 0)"
proof (induction fs)
  case (Cons f fs)
  then show ?case by (auto simp: image_iff)
qed simp

lemma partition_mset:
  assumes "distinct (map k fs)" and "\<forall>n \<in> set ns. t n \<in> k ` set fs"
  shows "(\<Sum>f\<leftarrow>fs. mset (filter (\<lambda>n. t n = k f) ns)) = mset ns"
  using assms(2)
proof (induction ns)
  case (Cons n ns)
  have "(\<Sum>f\<leftarrow>fs. mset (filter (\<lambda>n. t n = k f) (n # ns)))
      = (\<Sum>f\<leftarrow>fs. (if t n = k f then {#n#} else {#}) + mset (filter (\<lambda>n. t n = k f) ns))"
    by (rule arg_cong [where f = sum_list], rule map_cong) auto
  also have "\<dots> = {#n#} + mset ns" using Cons by (simp add: sum_list_addf sum_list_hit [OF assms(1)])
  finally show ?case by simp
qed (simp add: sum_list_0)

definition line_pks :: "order_tables \<Rightarrow> pk list" where
  "line_pks T = concat (map (\<lambda>f. map fl_pk (f_lines f)) (fulfillments T))"

lemma line_pks_eq: "map (\<lambda>(f, fl). fl_pk fl) (all_fulfillment_lines T) = line_pks T"
  by (simp add: line_pks_def all_fulfillment_lines_def map_concat comp_def)

lemma all_lines_iff: "(f, fl) \<in> set (all_fulfillment_lines T) \<longleftrightarrow> f \<in> set (fulfillments T) \<and> fl \<in> set (f_lines f)"
  by (auto simp: all_fulfillment_lines_def)

lemma rows_okD:
  assumes "rows_ok T"
  shows "distinct (map ol_pk (lines T))" "distinct (map f_pk (fulfillments T))" "distinct (line_pks T)"
    "x \<in> line_keys T \<Longrightarrow> x < line_seq T" "f \<in> set (fulfillments T) \<Longrightarrow> f_pk f < fulfillment_seq T"
    "f \<in> set (fulfillments T) \<Longrightarrow> fl \<in> set (f_lines f) \<Longrightarrow> fl_pk fl < fulfillment_line_seq T"
    "f \<in> set (fulfillments T) \<Longrightarrow> fl \<in> set (f_lines f) \<Longrightarrow> 0 \<le> fl_quantity fl"
    "f \<in> set (fulfillments T) \<Longrightarrow> fl \<in> set (f_lines f) \<Longrightarrow> fl_order_line fl \<in> line_keys T"
  using assms unfolding rows_ok_def line_pks_eq by (auto simp: all_lines_iff)

lemma rows_okI:
  assumes "distinct (map ol_pk (lines T))" "distinct (map f_pk (fulfillments T))" "distinct (line_pks T)"
    "\<And>x. x \<in> line_keys T \<Longrightarrow> x < line_seq T" "\<And>f. f \<in> set (fulfillments T) \<Longrightarrow> f_pk f < fulfillment_seq T"
    "\<And>f fl. f \<in> set (fulfillments T) \<Longrightarrow> fl \<in> set (f_lines f) \<Longrightarrow>
       fl_pk fl < fulfillment_line_seq T \<and> 0 \<le> fl_quantity fl \<and> fl_order_line fl \<in> line_keys T"
  shows "rows_ok T"
  using assms unfolding rows_ok_def line_pks_eq by (auto simp: all_lines_iff)

lemma new_fulfillment_facts:
  assumes "new_fulfillment k st tracking a b s = (fk, s')"
  shows "fk = fulfillment_seq (tables_of s)"
    "tables_of s' = (tables_of s)\<lparr>fulfillments := fulfillments (tables_of s) @
       [fulfillment_object k st tracking a b (tables_of s)], fulfillment_seq := Suc fk\<rparr>"
    "db_of s' = db_of s"
  using assms by (auto simp: new_fulfillment_def Let_def with_tables_def fulfillment_object_def)

lemma new_fulfillment_books:
  assumes "new_fulfillment k st tracking a b s = (fk, s')" and "books D (tables_of s)"
  shows "books D (tables_of s')" "\<exists>f \<in> set (fulfillments (tables_of s')). f_pk f = fk \<and> f_status f = st"
proof -
  let ?T = "tables_of s"
  define f where "f = fulfillment_object k st tracking a b ?T"
  note fk = new_fulfillment_facts(1) [OF assms(1)] and T' = new_fulfillment_facts(2) [OF assms(1), folded f_def]
  have f: "f_pk f = fk" "f_status f = st" "f_lines f = []" by (simp_all add: f_def fk fulfillment_object_def)
  have ok: "rows_ok ?T" using assms(2) by (simp add: books_def)
  note R = rows_okD [OF ok]
  have "rows_ok (tables_of s')"
    by (rule rows_okI) (use R f fk in \<open>fastforce simp: T' line_keys_def line_pks_def less_Suc_eq\<close>)+
  moreover have "held (tables_of s') x = held ?T x" for x using f by (simp add: T' held_def held_in_def)
  ultimately show "books D (tables_of s')" using assms(2) by (simp add: books_def T')
  show "\<exists>f \<in> set (fulfillments (tables_of s')). f_pk f = fk \<and> f_status f = st" using f by (auto simp: T')
qed

lemma numbered_snd: "map snd (number_lines T ns) = ns"
  by (simp add: number_lines_def)

lemma numbered_fst: "map fst (number_lines T ns) = [fulfillment_line_seq T ..< fulfillment_line_seq T + length ns]"
  by (simp add: number_lines_def)

lemma numbered_in: "(k, n) \<in> set (number_lines T ns) \<Longrightarrow>
    n \<in> set ns \<and> fulfillment_line_seq T \<le> k \<and> k < fulfillment_line_seq T + length ns"
  by (auto simp: number_lines_def dest: set_zip_leftD set_zip_rightD)

lemma numbered_snd_in: "p \<in> set (number_lines T ns) \<Longrightarrow> snd p \<in> set ns"
  by (cases p) (auto dest: numbered_in)

definition filed :: "order_tables \<Rightarrow> pk \<Rightarrow> bool" where
  \<comment> \<open>A fulfillment of the table that is not cancelled.\<close>
  "filed T fk \<longleftrightarrow> (\<exists>f \<in> set (fulfillments T). f_pk f = fk \<and> f_status f \<noteq> CANCELED_F)"

lemma new_lines_held:
  assumes "distinct (map f_pk fs)" and "\<forall>p \<in> set ps. \<exists>f \<in> set fs. f_pk f = nl_fulfillment (snd p) \<and> f_status f \<noteq> CANCELED_F"
  shows "sum_of (\<lambda>f. held_in (f\<lparr>f_lines := f_lines f @ map saved_line (filter (\<lambda>(k, n). nl_fulfillment n = f_pk f) ps)\<rparr>) x) fs
    = sum_of (\<lambda>f. held_in f x) fs + group_sum nl_order_line nl_quantity (map snd ps) x"
  using assms(2)
proof (induction ps)
  case (Cons p ps)
  obtain k n where p: "p = (k, n)" by fastforce
  let ?q = "if nl_order_line n = x then nl_quantity n else 0"
  have "sum_of (\<lambda>f. held_in (f\<lparr>f_lines := f_lines f @ map saved_line (filter (\<lambda>(k, n). nl_fulfillment n = f_pk f) (p # ps))\<rparr>) x) fs
    = sum_of (\<lambda>f. held_in (f\<lparr>f_lines := f_lines f @ map saved_line (filter (\<lambda>(k, n). nl_fulfillment n = f_pk f) ps)\<rparr>) x
        + (if nl_fulfillment n = f_pk f then ?q else 0)) fs"
  proof -
    have "f_status f \<noteq> CANCELED_F" if "f \<in> set fs" "nl_fulfillment n = f_pk f" for f
    proof -
      from Cons.prems p obtain f' where "f' \<in> set fs" "f_pk f' = nl_fulfillment n" "f_status f' \<noteq> CANCELED_F" by auto
      with assms(1) that show ?thesis by (auto simp: distinct_map inj_on_def)
    qed
    then show ?thesis by (auto simp: sum_of_def p saved_line_def held_in_def intro!: arg_cong [where f = sum_list] map_cong)
  qed
  moreover have "sum_of (\<lambda>f. if nl_fulfillment n = f_pk f then ?q else 0) fs = ?q"
    using Cons.prems by (subst sum_of_hit [OF assms(1)]) (auto simp: p image_iff)
  ultimately show ?case using Cons by (simp add: sum_of_add p)
qed (simp add: sum_of_def)

lemma create_lines_Inr:
  assumes "create_lines ns s = Inr (fls, s')"
  shows "\<forall>n \<in> set ns. 0 \<le> nl_quantity n" "fls = map saved_line (number_lines (tables_of s) ns)" "db_of s' = db_of s"
    "as_calls s' = as_calls s"
    "tables_of s' = (tables_of s)\<lparr>
       fulfillments := map (\<lambda>f. f\<lparr>f_lines := f_lines f
         @ map saved_line (filter (\<lambda>(k, n). nl_fulfillment n = f_pk f) (number_lines (tables_of s) ns))\<rparr>) (fulfillments (tables_of s)),
       fulfillment_line_seq := fulfillment_line_seq (tables_of s) + length ns\<rparr>"
  using assms by (auto simp: create_lines_def Let_def with_tables_def list_ex_iff not_less split: if_splits)

lemma line_pks_new:
  assumes "distinct (map f_pk fs)" and "\<forall>p \<in> set ps. nl_fulfillment (snd p) \<in> f_pk ` set fs"
  shows "mset (concat (map (\<lambda>f. map fl_pk (f_lines f @ map saved_line (filter (\<lambda>(k, n). nl_fulfillment n = f_pk f) ps))) fs))
    = mset (concat (map (\<lambda>f. map fl_pk (f_lines f)) fs)) + mset (map fst ps)"
proof -
  have pks: "map (\<lambda>p. fl_pk (saved_line p)) ps = map fst ps" for ps by (auto simp: saved_line_def)
  have "(\<Sum>f\<leftarrow>fs. mset (map fst (filter (\<lambda>(k, n). nl_fulfillment n = f_pk f) ps))) = mset (map fst ps)"
  proof -
    have "(\<Sum>f\<leftarrow>fs. image_mset fst (mset (filter (\<lambda>p. nl_fulfillment (snd p) = f_pk f) ps)))
        = image_mset fst (\<Sum>f\<leftarrow>fs. mset (filter (\<lambda>p. nl_fulfillment (snd p) = f_pk f) ps))"
      by (induction fs) simp_all
    with partition_mset [OF assms(1), of ps "\<lambda>p. nl_fulfillment (snd p)"] assms(2) show ?thesis
      by (simp add: case_prod_unfold)
  qed
  then show ?thesis by (simp add: mset_concat comp_def sum_list_addf pks flip: mset_map)
qed

lemma create_lines_books:
  assumes "create_lines ns s = Inr (fls, s')" and "books D (tables_of s)"
    and "\<forall>n \<in> set ns. filed (tables_of s) (nl_fulfillment n) \<and> nl_order_line n \<in> line_keys (tables_of s)"
  shows "books (\<lambda>x. D x + group_sum nl_order_line nl_quantity ns x) (tables_of s')"
    "held (tables_of s') x = held (tables_of s) x + group_sum nl_order_line nl_quantity ns x"
proof -
  let ?T = "tables_of s" and ?ps = "number_lines (tables_of s) ns"
  note C = create_lines_Inr [OF assms(1)]
  have ok: "rows_ok ?T" using assms(2) by (simp add: books_def)
  note R = rows_okD [OF ok]
  have held: "held (tables_of s') x = held ?T x + group_sum nl_order_line nl_quantity ns x" for x
  proof -
    have "\<forall>p \<in> set ?ps. \<exists>f \<in> set (fulfillments ?T). f_pk f = nl_fulfillment (snd p) \<and> f_status f \<noteq> CANCELED_F"
      using assms(3) by (fastforce simp: filed_def dest: numbered_snd_in)
    from new_lines_held [OF R(2) this, of x] show ?thesis by (simp add: held_def C(5) sum_of_def comp_def numbered_snd)
  qed
  have "mset (line_pks (tables_of s')) = mset (line_pks ?T) + mset (map fst ?ps)"
  proof -
    have "\<forall>p \<in> set ?ps. nl_fulfillment (snd p) \<in> f_pk ` set (fulfillments ?T)"
      using assms(3) by (metis filed_def imageI numbered_snd_in)
    from line_pks_new [OF R(2) this] show ?thesis by (simp add: line_pks_def C(5) comp_def)
  qed
  moreover have "distinct (line_pks ?T @ map fst ?ps)"
    using R(3,6) by (auto simp: numbered_fst line_pks_def) (meson leD)
  ultimately have pks: "distinct (line_pks (tables_of s'))" by (metis mset_append mset_eq_imp_distinct_iff)
  have "rows_ok (tables_of s')"
  proof (rule rows_okI)
    fix f fl assume f: "f \<in> set (fulfillments (tables_of s'))" and fl: "fl \<in> set (f_lines f)"
    from f obtain f0 where f0: "f0 \<in> set (fulfillments ?T)" and "f_lines f = f_lines f0
        @ map saved_line (filter (\<lambda>(k, n). nl_fulfillment n = f_pk f0) ?ps)" by (auto simp: C(5))
    with fl have fl: "fl \<in> set (f_lines f0) \<or> (\<exists>k n. (k, n) \<in> set ?ps \<and> fl = saved_line (k, n))" by auto
    from fl show "fl_pk fl < fulfillment_line_seq (tables_of s') \<and> 0 \<le> fl_quantity fl \<and> fl_order_line fl \<in> line_keys (tables_of s')"
    proof
      assume "fl \<in> set (f_lines f0)"
      with R(6-8) [OF f0] show ?thesis by (auto simp: C(5) line_keys_def intro: trans_less_add1)
    next
      assume "\<exists>k n. (k, n) \<in> set ?ps \<and> fl = saved_line (k, n)"
      with assms(3) C(1) show ?thesis by (auto simp: saved_line_def C(5) line_keys_def dest: numbered_in)
    qed
  qed (use R pks in \<open>auto simp: C(5) line_keys_def comp_def\<close>)
  moreover have "lines (tables_of s') = lines ?T" by (simp add: C(5))
  ultimately show "books (\<lambda>x. D x + group_sum nl_order_line nl_quantity ns x) (tables_of s')"
    using assms(2) by (auto simp: books_def held)
  show "held (tables_of s') x = held ?T x + group_sum nl_order_line nl_quantity ns x" by (rule held)
qed

section \<open>Changed and deleted rows\<close>

lemma sum_of_if: "sum_of (\<lambda>p. if P p then v p else 0) rs = sum_of v (filter P rs)"
  by (induction rs) simp_all

lemma sum_of_map: "sum_of g (map h xs) = sum_of (\<lambda>x. g (h x)) xs"
  by (simp add: sum_of_def comp_def)

lemma sum_of_cong: "(\<And>x. x \<in> set xs \<Longrightarrow> f x = g x) \<Longrightarrow> sum_of f xs = sum_of g xs"
  by (induction xs) simp_all

lemma held_filter: "held T x = sum_of (\<lambda>(f, fl). fl_quantity fl)
    (filter (\<lambda>(f, fl). f_status f \<noteq> CANCELED_F \<and> fl_order_line fl = x) (all_fulfillment_lines T))"
  unfolding held_flat case_prod_unfold by (rule sum_of_if)

definition filed_row :: "order_tables \<Rightarrow> fulfillment_line \<Rightarrow> bool" where
  "filed_row T r \<longleftrightarrow> (\<exists>f \<in> set (fulfillments T). f_status f \<noteq> CANCELED_F \<and> r \<in> set (f_lines f))"

lemma same_row:
  assumes "rows_ok T" and "(f, fl) \<in> set (all_fulfillment_lines T)" and "(f', fl') \<in> set (all_fulfillment_lines T)"
    and "fl_pk fl = fl_pk fl'"
  shows "f = f' \<and> fl = fl'"
proof -
  have "inj_on (\<lambda>(f, fl). fl_pk fl) (set (all_fulfillment_lines T))"
    using assms(1) by (simp add: rows_ok_def distinct_map)
  from inj_onD [OF this, of "(f, fl)" "(f', fl')"] assms(2-4) show ?thesis by simp
qed

lemma sum_of_rows:
  \<comment> \<open>What the items add to the rows of one order line.\<close>
  assumes "rows_ok T" and "\<forall>i \<in> set items. filed_row T (row i)"
  shows "sum_of (\<lambda>(f, fl). group_sum (\<lambda>i. fl_pk (row i)) v items (fl_pk fl))
      (filter (\<lambda>(f, fl). f_status f \<noteq> CANCELED_F \<and> fl_order_line fl = x) (all_fulfillment_lines T))
    = group_sum (\<lambda>i. fl_order_line (row i)) v items x"
proof -
  let ?rows = "filter (\<lambda>(f, fl). f_status f \<noteq> CANCELED_F \<and> fl_order_line fl = x) (all_fulfillment_lines T)"
  have d: "distinct (map (\<lambda>p. fl_pk (snd p)) ?rows)"
    using assms(1) by (auto simp: rows_ok_def case_prod_unfold distinct_map_filter)
  have "(fl_pk (row i) \<in> (\<lambda>p. fl_pk (snd p)) ` set ?rows) = (fl_order_line (row i) = x)" if i: "i \<in> set items" for i
  proof -
    from assms(2) i obtain f where f: "(f, row i) \<in> set (all_fulfillment_lines T)" "f_status f \<noteq> CANCELED_F"
      by (auto simp: filed_row_def all_lines_iff)
    show ?thesis
    proof
      assume "fl_pk (row i) \<in> (\<lambda>p. fl_pk (snd p)) ` set ?rows"
      then obtain f' fl' where "(f', fl') \<in> set (all_fulfillment_lines T)" "fl_order_line fl' = x" "fl_pk (row i) = fl_pk fl'" by auto
      with same_row [OF assms(1) f(1)] show "fl_order_line (row i) = x" by blast
    qed (use f in \<open>force simp: image_iff\<close>)
  qed
  then have "filter (\<lambda>i. fl_pk (row i) \<in> (\<lambda>p. fl_pk (snd p)) ` set ?rows) items = filter (\<lambda>i. fl_order_line (row i) = x) items"
    by (intro filter_cong) auto
  with sum_of_group_sum [OF d, of "\<lambda>i. fl_pk (row i)" v items] show ?thesis
    by (simp add: group_sum_def case_prod_unfold)
qed

lemma all_lines_set_quantities: "all_fulfillment_lines (set_line_quantities us T) =
    map (\<lambda>(f, fl). (f\<lparr>f_lines := bulk_update fl_pk (map (\<lambda>(k, q). (k, \<lambda>fl. fl\<lparr>fl_quantity := q\<rparr>)) us) (f_lines f)\<rparr>,
      case map_of us (fl_pk fl) of None \<Rightarrow> fl | Some q \<Rightarrow> fl\<lparr>fl_quantity := q\<rparr>)) (all_fulfillment_lines T)"
proof -
  have m: "map_of (map (\<lambda>(k, q). (k, \<lambda>fl. fl\<lparr>fl_quantity := q\<rparr>)) us) k = map_option (\<lambda>q fl. fl\<lparr>fl_quantity := q\<rparr>) (map_of us k)" for k
    by (induction us) auto
  show ?thesis
    by (auto simp: all_fulfillment_lines_def set_line_quantities_def bulk_update_def m map_concat comp_def
        intro!: arg_cong [where f = concat] map_cong split: option.splits)
qed

lemma set_quantities_held:
  assumes "rows_ok T" and "\<forall>(r, q) \<in> set vs. filed_row T r" and "distinct (map (\<lambda>(r, q). fl_pk r) vs)"
  shows "held (set_line_quantities (map (\<lambda>(r, q). (fl_pk r, q)) vs) T) x
    = held T x + group_sum (\<lambda>(r, q). fl_order_line r) (\<lambda>(r, q). q - fl_quantity r) vs x"
proof -
  let ?us = "map (\<lambda>(r, q). (fl_pk r, q)) vs" and ?P = "\<lambda>(f, fl). f_status f \<noteq> CANCELED_F \<and> fl_order_line fl = x"
  have new: "fl_quantity (case map_of ?us (fl_pk fl) of None \<Rightarrow> fl | Some q \<Rightarrow> fl\<lparr>fl_quantity := q\<rparr>)
      = fl_quantity fl + group_sum (\<lambda>i. fl_pk (fst i)) (\<lambda>(r, q). q - fl_quantity r) vs (fl_pk fl)"
    if fl: "(f, fl) \<in> set (all_fulfillment_lines T)" for f fl
  proof (cases "\<exists>q. (fl, q) \<in> set vs")
    case True
    then obtain q where q: "(fl, q) \<in> set vs" ..
    have "(fl_pk fl, q) \<in> set ?us" using q by force
    moreover have "distinct (map fst ?us)" using assms(3) by (simp add: comp_def case_prod_unfold)
    ultimately have "map_of ?us (fl_pk fl) = Some q" by simp
    moreover have "group_sum (\<lambda>i. fl_pk (fst i)) (\<lambda>(r, q). q - fl_quantity r) vs (fl_pk fl) = q - fl_quantity fl"
      using group_sum_distinct [of "\<lambda>i. fl_pk (fst i)" vs "(fl, q)" "\<lambda>(r, q). q - fl_quantity r"] assms(3) q
      by (simp add: case_prod_unfold)
    ultimately show ?thesis by simp
  next
    case False
    have "fl_pk fl \<notin> (\<lambda>i. fl_pk (fst i)) ` set vs"
    proof
      assume "fl_pk fl \<in> (\<lambda>i. fl_pk (fst i)) ` set vs"
      then obtain r q where r: "(r, q) \<in> set vs" "fl_pk fl = fl_pk r" by auto
      with assms(2) obtain f' where "(f', r) \<in> set (all_fulfillment_lines T)" by (auto simp: filed_row_def all_lines_iff)
      with same_row [OF assms(1) fl this r(2)] r(1) False show False by blast
    qed
    moreover have "fst ` set ?us = (\<lambda>i. fl_pk (fst i)) ` set vs" by (simp add: image_image case_prod_unfold)
    ultimately have "map_of ?us (fl_pk fl) = None" by (simp add: map_of_eq_None_iff)
    moreover note \<open>fl_pk fl \<notin> (\<lambda>i. fl_pk (fst i)) ` set vs\<close>
    ultimately show ?thesis by (simp add: group_sum_absent)
  qed
  define upd where "upd fl = (case map_of ?us (fl_pk fl) of None \<Rightarrow> fl | Some q \<Rightarrow> fl\<lparr>fl_quantity := q\<rparr>)" for fl :: fulfillment_line
  have same: "fl_order_line (upd fl) = fl_order_line fl" for fl by (simp add: upd_def split: option.split)
  have "held (set_line_quantities ?us T) x = sum_of (\<lambda>(f, fl). if f_status f \<noteq> CANCELED_F \<and> fl_order_line fl = x
      then fl_quantity (upd fl) else 0) (all_fulfillment_lines T)"
    unfolding held_flat all_lines_set_quantities sum_of_map upd_def [symmetric]
    by (rule sum_of_cong) (auto simp: same)
  also have "\<dots> = sum_of (\<lambda>(f, fl). if f_status f \<noteq> CANCELED_F \<and> fl_order_line fl = x then fl_quantity fl
      + group_sum (\<lambda>i. fl_pk (fst i)) (\<lambda>(r, q). q - fl_quantity r) vs (fl_pk fl) else 0) (all_fulfillment_lines T)"
    by (rule sum_of_cong) (auto simp: new upd_def)
  also have "\<dots> = sum_of (\<lambda>(f, fl). fl_quantity fl
      + group_sum (\<lambda>i. fl_pk (fst i)) (\<lambda>(r, q). q - fl_quantity r) vs (fl_pk fl)) (filter ?P (all_fulfillment_lines T))"
    unfolding case_prod_unfold by (rule sum_of_if)
  also have "\<dots> = held T x + group_sum (\<lambda>i. fl_order_line (fst i)) (\<lambda>(r, q). q - fl_quantity r) vs x"
    using sum_of_rows [OF assms(1), of vs fst "\<lambda>(r, q). q - fl_quantity r" x] assms(2)
    by (simp add: held_filter case_prod_unfold sum_of_add)
  finally show ?thesis by (simp add: case_prod_unfold)
qed

lemma delete_lines_held:
  assumes "rows_ok T" and "\<forall>r \<in> set rs. filed_row T r" and "distinct (map fl_pk rs)"
  shows "held (delete_fulfillment_lines (map fl_pk rs) T) x = held T x - group_sum fl_order_line fl_quantity rs x"
proof -
  let ?P = "\<lambda>(f, fl). f_status f \<noteq> CANCELED_F \<and> fl_order_line fl = x"
  let ?g = "\<lambda>(f, fl). if fl_pk fl \<in> set (map fl_pk rs) then 0 else fl_quantity fl"
  have del: "group_sum fl_order_line fl_quantity (filter (\<lambda>fl. fl_pk fl \<notin> K) fls) x
      = group_sum fl_order_line (\<lambda>fl. if fl_pk fl \<in> K then 0 else fl_quantity fl) fls x" for K and fls :: "fulfillment_line list"
    by (induction fls) auto
  have flat: "(if f_status f = CANCELED_F then 0 else group_sum fl_order_line (\<lambda>fl. if fl_pk fl \<in> K then 0 else fl_quantity fl) fls x)
      = sum_of (\<lambda>(f, fl). if fl_pk fl \<in> K then 0 else fl_quantity fl) (filter ?P (map (Pair f) fls))" for f :: fulfillment and K and fls
    by (induction fls) auto
  have "held (delete_fulfillment_lines (map fl_pk rs) T) x = sum_of ?g (filter ?P (all_fulfillment_lines T))"
  proof -
    have one: "held_in (f\<lparr>f_lines := filter (\<lambda>fl. fl_pk fl \<notin> K) (f_lines f)\<rparr>) x
      = sum_of (\<lambda>(f, fl). if fl_pk fl \<in> K then 0 else fl_quantity fl) (filter ?P (map (Pair f) (f_lines f)))" for f K
      unfolding flat [symmetric] held_in_def by (simp add: del)
    have "sum_of (\<lambda>f. held_in (f\<lparr>f_lines := filter (\<lambda>fl. fl_pk fl \<notin> K) (f_lines f)\<rparr>) x) fs
      = sum_of (\<lambda>(f, fl). if fl_pk fl \<in> K then 0 else fl_quantity fl) (filter ?P (concat (map (\<lambda>f. map (Pair f) (f_lines f)) fs)))" for fs K
      by (induction fs) (simp_all add: one)
    from this [of "set (map fl_pk rs)" "fulfillments T"]
    show ?thesis by (simp add: held_def delete_fulfillment_lines_def all_fulfillment_lines_def sum_of_def comp_def)
  qed
  also have "\<dots> = sum_of (\<lambda>(f, fl). fl_quantity fl - group_sum fl_pk fl_quantity rs (fl_pk fl)) (filter ?P (all_fulfillment_lines T))"
  proof (rule sum_of_cong)
    fix p assume "p \<in> set (filter ?P (all_fulfillment_lines T))"
    then obtain f fl where p: "p = (f, fl)" and fl: "(f, fl) \<in> set (all_fulfillment_lines T)" by (metis (no_types) filter_is_subset prod.exhaust subset_code(1))
    have "(if fl_pk fl \<in> set (map fl_pk rs) then 0 else fl_quantity fl) = fl_quantity fl - group_sum fl_pk fl_quantity rs (fl_pk fl)"
    proof (cases "fl_pk fl \<in> set (map fl_pk rs)")
      case True
      then obtain r where r: "r \<in> set rs" "fl_pk fl = fl_pk r" by auto
      with assms(2) obtain f' where "(f', r) \<in> set (all_fulfillment_lines T)" by (auto simp: filed_row_def all_lines_iff)
      with same_row [OF assms(1) fl this r(2)] r(1) True group_sum_distinct [OF assms(3) r(1), of fl_quantity] show ?thesis by auto
    qed (auto simp: group_sum_absent)
    then show "?g p = (case p of (f, fl) \<Rightarrow> fl_quantity fl - group_sum fl_pk fl_quantity rs (fl_pk fl))" by (simp only: p prod.case)
  qed
  also have "\<dots> = held T x - group_sum fl_order_line fl_quantity rs x"
    using sum_of_rows [OF assms(1,2), of fl_quantity x] by (simp add: held_filter case_prod_unfold sum_of_diff)
  finally show ?thesis .
qed

section \<open>Moving lines between fulfillments\<close>

definition moved_quantity :: "moved_line \<Rightarrow> int" where
  "moved_quantity m = min (fl_quantity (ml_line m)) (ml_quantity m)"

definition goes_to :: "fulfillment_line list \<Rightarrow> moved_line \<Rightarrow> pk option" where
  "goes_to mem m = map_option fl_pk
     (find (\<lambda>x. fl_order_line x = fl_order_line (ml_line m) \<and> fl_stock x = fl_stock (ml_line m)) mem)"

definition moves_to :: "fulfillment_line list \<Rightarrow> moved_line list \<Rightarrow> fulfillment_line \<Rightarrow> int" where
  "moves_to mem ms y = sum_of moved_quantity (filter (\<lambda>m. goes_to mem m = Some (fl_pk y)) ms)"

definition rest :: "moved_line \<Rightarrow> int" where
  "rest m = fl_quantity (ml_line m) - moved_quantity m"

definition line_in_target :: "pk \<Rightarrow> moved_line \<Rightarrow> new_line" where
  "line_in_target target m = \<lparr>nl_fulfillment = target, nl_order_line = fl_order_line (ml_line m),
     nl_quantity = moved_quantity m, nl_stock = fl_stock (ml_line m)\<rparr>"

lemma goes_to_update: "goes_to (map (\<lambda>y. if fl_pk y = k then y\<lparr>fl_quantity := g y\<rparr> else y) mem) = goes_to mem"
proof
  fix m
  show "goes_to (map (\<lambda>y. if fl_pk y = k then y\<lparr>fl_quantity := g y\<rparr> else y) mem) m = goes_to mem m"
    by (induction mem) (auto simp: goes_to_def)
qed

lemma move_loop_step: "move_loop target (m # ms) mem to_create to_update sources to_delete =
    (let to_delete = (if rest m = 0 then to_delete @ [fl_pk (ml_line m)] else to_delete);
         sources = (if rest m = 0 then sources else sources @ [(ml_line m)\<lparr>fl_quantity := rest m\<rparr>])
     in case find (\<lambda>x. fl_order_line x = fl_order_line (ml_line m) \<and> fl_stock x = fl_stock (ml_line m)) mem of
          Some x \<Rightarrow> move_loop target ms
            (map (\<lambda>y. if fl_pk y = fl_pk x then y\<lparr>fl_quantity := fl_quantity y + moved_quantity m\<rparr> else y) mem)
            to_create (to_update @ [fl_pk x]) sources to_delete
        | None \<Rightarrow> move_loop target ms mem
            (if 0 < moved_quantity m then to_create @ [line_in_target target m] else to_create) to_update sources to_delete)"
proof -
  have q: "min (fl_quantity (ml_line m)) (ml_quantity m) = moved_quantity m" by (simp add: moved_quantity_def)
  have r: "fl_quantity (ml_line m) - moved_quantity m = rest m" by (simp add: rest_def)
  show ?thesis unfolding move_loop.simps Let_def q r line_in_target_def by (simp add: r split: option.split)
qed

lemma move_loop_eq: "move_loop target ms mem to_create to_update sources to_delete =
    (map (\<lambda>y. y\<lparr>fl_quantity := fl_quantity y + moves_to mem ms y\<rparr>) mem,
     to_create @ map (line_in_target target) (filter (\<lambda>m. goes_to mem m = None \<and> 0 < moved_quantity m) ms),
     to_update @ List.map_filter (goes_to mem) ms,
     sources @ map (\<lambda>m. (ml_line m)\<lparr>fl_quantity := rest m\<rparr>) (filter (\<lambda>m. rest m \<noteq> 0) ms),
     to_delete @ map (\<lambda>m. fl_pk (ml_line m)) (filter (\<lambda>m. rest m = 0) ms))"
proof (induction ms arbitrary: mem to_create to_update sources to_delete)
  case Nil
  show ?case by (simp add: moves_to_def List.map_filter_simps map_idI)
next
  case (Cons m ms)
  let ?found = "find (\<lambda>x. fl_order_line x = fl_order_line (ml_line m) \<and> fl_stock x = fl_stock (ml_line m)) mem"
  show ?case
  proof (cases ?found)
    case None
    then have "goes_to mem m = None" by (simp add: goes_to_def)
    moreover from this have "moves_to mem (m # ms) = moves_to mem ms" by (auto simp: moves_to_def)
    ultimately show ?thesis using None Cons.IH
      by (simp add: Let_def List.map_filter_simps move_loop_step del: move_loop.simps(2))
  next
    case (Some x)
    then have to: "goes_to mem m = Some (fl_pk x)" by (simp add: goes_to_def)
    let ?mem = "map (\<lambda>y. if fl_pk y = fl_pk x then y\<lparr>fl_quantity := fl_quantity y + moved_quantity m\<rparr> else y) mem"
    have "map (\<lambda>y. y\<lparr>fl_quantity := fl_quantity y + moves_to ?mem ms y\<rparr>) ?mem
        = map (\<lambda>y. y\<lparr>fl_quantity := fl_quantity y + moves_to mem (m # ms) y\<rparr>) mem"
      by (auto simp: moves_to_def goes_to_update to)
    with Some to Cons.IH [of ?mem] show ?thesis
      by (simp add: Let_def List.map_filter_simps goes_to_update move_loop_step del: move_loop.simps(2))
  qed
qed

lemma set_quantities_rows:
  assumes "rows_ok T" and "\<forall>(k, q) \<in> set us. 0 \<le> q"
  shows "rows_ok (set_line_quantities us T)"
proof -
  let ?u = "bulk_update fl_pk (map (\<lambda>(k, q). (k, \<lambda>fl. fl\<lparr>fl_quantity := q\<rparr>)) us)"
  note R = rows_okD [OF assms(1)]
  have T': "set_line_quantities us T = T\<lparr>fulfillments := map (\<lambda>f. f\<lparr>f_lines := ?u (f_lines f)\<rparr>) (fulfillments T)\<rparr>"
    by (simp add: set_line_quantities_def)
  have pks: "map fl_pk (?u fls) = map fl_pk fls" for fls by (rule bulk.upd_map) auto
  have keys: "line_keys (set_line_quantities us T) = line_keys T" by (simp add: T' line_keys_def)
  show ?thesis
  proof (rule rows_okI)
    show "distinct (line_pks (set_line_quantities us T))" using R(3) by (simp add: T' line_pks_def comp_def pks)
    fix f fl assume "f \<in> set (fulfillments (set_line_quantities us T))" "fl \<in> set (f_lines f)"
    then obtain f0 where f0: "f0 \<in> set (fulfillments T)" and "fl \<in> set (?u (f_lines f0))" by (auto simp: T')
    from bulk.upd_in [OF this(2)] obtain fl0 where "fl0 \<in> set (f_lines f0)" and
      fl: "fl = fl0 \<or> (\<exists>k q. (k, q) \<in> set us \<and> fl = fl0\<lparr>fl_quantity := q\<rparr>)"
      by (fastforce split: option.splits dest: map_of_SomeD)
    with R(6-8) [OF f0 this(1)] assms(2) show "fl_pk fl < fulfillment_line_seq (set_line_quantities us T) \<and> 0 \<le> fl_quantity fl
        \<and> fl_order_line fl \<in> line_keys (set_line_quantities us T)"
      unfolding keys by (auto simp: T')
  qed (use R keys in \<open>auto simp: T' comp_def\<close>)
qed

lemma delete_lines_rows:
  assumes "rows_ok T"
  shows "rows_ok (delete_fulfillment_lines ks T)"
proof -
  note R = rows_okD [OF assms]
  have T': "delete_fulfillment_lines ks T = T\<lparr>fulfillments :=
      map (\<lambda>f. f\<lparr>f_lines := filter (\<lambda>fl. fl_pk fl \<notin> set ks) (f_lines f)\<rparr>) (fulfillments T)\<rparr>"
    by (simp add: delete_fulfillment_lines_def)
  have "line_pks (delete_fulfillment_lines ks T) = filter (\<lambda>k. k \<notin> set ks) (line_pks T)"
    by (simp add: T' line_pks_def filter_concat filter_map comp_def)
  with R(3) have "distinct (line_pks (delete_fulfillment_lines ks T))" by simp
  then show ?thesis using R by (intro rows_okI) (auto simp: T' line_keys_def comp_def)
qed

lemma group_sum_filter_split: "group_sum key v (filter P rs) x + group_sum key v (filter (\<lambda>r. \<not> P r) rs) x = group_sum key v rs x"
  by (induction rs) auto

lemma matched_moves:
  assumes "distinct (map fl_pk mem)"
  shows "group_sum fl_order_line (moves_to mem ms) mem x
    = group_sum (\<lambda>m. fl_order_line (ml_line m)) moved_quantity (filter (\<lambda>m. goes_to mem m \<noteq> None) ms) x"
proof -
  let ?rows = "filter (\<lambda>y. fl_order_line y = x) mem" and ?items = "filter (\<lambda>m. goes_to mem m \<noteq> None) ms"
  have "moves_to mem ms y = group_sum (\<lambda>m. the (goes_to mem m)) moved_quantity ?items (fl_pk y)" for y
    unfolding moves_to_def group_sum_def filter_filter by (intro arg_cong [where f = "sum_of moved_quantity"] filter_cong) auto
  then have "group_sum fl_order_line (moves_to mem ms) mem x
      = sum_of (\<lambda>y. group_sum (\<lambda>m. the (goes_to mem m)) moved_quantity ?items (fl_pk y)) ?rows"
    unfolding group_sum_def [of fl_order_line] by (intro sum_of_cong)
  also have "\<dots> = sum_of moved_quantity (filter (\<lambda>m. the (goes_to mem m) \<in> fl_pk ` set ?rows) ?items)"
    by (rule sum_of_group_sum) (use assms in \<open>auto simp: distinct_map_filter\<close>)
  also have "filter (\<lambda>m. the (goes_to mem m) \<in> fl_pk ` set ?rows) ?items
      = filter (\<lambda>m. fl_order_line (ml_line m) = x) ?items"
  proof (rule filter_cong)
    fix m assume "m \<in> set ?items"
    then obtain y where "find (\<lambda>x. fl_order_line x = fl_order_line (ml_line m) \<and> fl_stock x = fl_stock (ml_line m)) mem = Some y"
      and to: "goes_to mem m = Some (fl_pk y)" by (auto simp: goes_to_def)
    with find_SomeD [OF this(1)] have y: "y \<in> set mem" "fl_order_line y = fl_order_line (ml_line m)" by auto
    have "fl_pk y \<in> fl_pk ` set ?rows \<longleftrightarrow> y \<in> set ?rows"
      by (rule inj_on_image_mem_iff [of _ "set mem"]) (use assms y in \<open>auto simp: distinct_map\<close>)
    with y to show "(the (goes_to mem m) \<in> fl_pk ` set ?rows) = (fl_order_line (ml_line m) = x)" by simp
  qed simp
  finally show ?thesis by (simp add: group_sum_def)
qed


definition fulfillment_view :: "order_tables \<Rightarrow> (pk \<times> pk \<times> fulfillment_status) list" where
  "fulfillment_view T = map (\<lambda>f. (f_pk f, f_order f, f_status f)) (fulfillments T)"

definition line_view :: "order_tables \<Rightarrow> (pk \<times> pk option \<times> int \<times> int) list" where
  "line_view T = map (\<lambda>l. (ol_pk l, ol_variant l, sl_quantity l, sl_quantity_fulfilled l)) (lines T)"

lemma filed_view: "fulfillment_view T' = fulfillment_view T \<Longrightarrow> filed T' = filed T"
proof -
  assume "fulfillment_view T' = fulfillment_view T"
  then have "set (fulfillment_view T') = set (fulfillment_view T)" by simp
  moreover have "filed T fk \<longleftrightarrow> (\<exists>k st. (fk, k, st) \<in> set (fulfillment_view T) \<and> st \<noteq> CANCELED_F)" for T fk
    by (force simp: filed_def fulfillment_view_def)
  ultimately show ?thesis by (intro ext) simp
qed

lemma move_fulfillment_lines_books:
  assumes move: "move_fulfillment_lines_to_target_fulfillment ms mem target s = Inr s'"
    and books: "books D (tables_of s)"
    and sources: "\<forall>m \<in> set ms. filed_row (tables_of s) (ml_line m) \<and> 0 \<le> ml_quantity m"
    and targets: "\<forall>y \<in> set mem. filed_row (tables_of s) y" "filed (tables_of s) target"
    and distinct: "distinct (map (\<lambda>m. fl_pk (ml_line m)) ms @ map fl_pk mem)"
  shows "books D (tables_of s')" "held (tables_of s') x = held (tables_of s) x" "lines (tables_of s') = lines (tables_of s)"
    "fulfillment_view (tables_of s') = fulfillment_view (tables_of s)" "db_of s' = db_of s"
proof -
  let ?T = "tables_of s" and ?M = "group_sum (\<lambda>m. fl_order_line (ml_line m)) moved_quantity"
  define vs where "vs = map (\<lambda>m. (ml_line m, rest m)) (filter (\<lambda>m. rest m \<noteq> 0) ms)
    @ map (\<lambda>y. (y, fl_quantity y + moves_to mem ms y)) (filter (\<lambda>y. fl_pk y \<in> set (List.map_filter (goes_to mem) ms)) mem)"
  define ns where "ns = map (line_in_target target) (filter (\<lambda>m. goes_to mem m = None \<and> 0 < moved_quantity m) ms)"
  define rs where "rs = map ml_line (filter (\<lambda>m. rest m = 0) ms)"
  let ?us = "map (\<lambda>(r, q). (fl_pk r, q)) vs"
  define T2 where "T2 = set_line_quantities ?us ?T"
  have nonneg: "0 \<le> moved_quantity m" if "m \<in> set ms" for m
    using sources that rows_okD(7) books by (fastforce simp: moved_quantity_def filed_row_def books_def)
  have us: "?us = map (\<lambda>fl. (fl_pk fl, fl_quantity fl)) (map (\<lambda>m. (ml_line m)\<lparr>fl_quantity := rest m\<rparr>) (filter (\<lambda>m. rest m \<noteq> 0) ms))
      @ map (\<lambda>fl. (fl_pk fl, fl_quantity fl)) (filter (\<lambda>fl. fl_pk fl \<in> set (List.map_filter (goes_to mem) ms))
          (map (\<lambda>y. y\<lparr>fl_quantity := fl_quantity y + moves_to mem ms y\<rparr>) mem))"
    by (simp add: vs_def filter_map comp_def)
  from move [unfolded move_fulfillment_lines_to_target_fulfillment_def move_loop_eq append_Nil prod.case Let_def, folded us ns_def]
  obtain fls s3 where pos: "\<not> list_ex (\<lambda>(k, q). q < 0) ?us"
    and create: "create_lines ns (with_tables (set_line_quantities ?us) s) = Inr (fls, s3)"
    and s': "s' = with_tables (delete_fulfillment_lines (map fl_pk rs)) s3"
    by (auto simp: rs_def comp_def split: if_splits sum.splits)
  have ok: "rows_ok ?T" using books by (simp add: books_def)
  have ok2: "rows_ok T2" unfolding T2_def using pos
    by (intro set_quantities_rows [OF ok]) (auto simp: list_ex_iff not_less)
  note C = create_lines_Inr [OF create, unfolded tables_with_tables, folded T2_def]
  define M1 where "M1 = ?M (filter (\<lambda>m. rest m = 0) ms) x"
  have vs_rows: "\<forall>(r, q) \<in> set vs. filed_row ?T r" using sources targets(1) by (auto simp: vs_def)
  have vs_distinct: "distinct (map (\<lambda>(r, q). fl_pk r) vs)"
    using distinct by (auto simp: vs_def comp_def distinct_map_filter)
  have held2: "held T2 x = held ?T x - ?M (filter (\<lambda>m. rest m \<noteq> 0) ms) x + group_sum fl_order_line (moves_to mem ms) mem x" for x
  proof -
    have "group_sum (\<lambda>(r, q). fl_order_line r) (\<lambda>(r, q). q - fl_quantity r) (map (\<lambda>m. (ml_line m, rest m)) ms') x = - ?M ms' x" for ms'
      by (induction ms') (auto simp: rest_def)
    moreover have "group_sum (\<lambda>(r, q). fl_order_line r) (\<lambda>(r, q). q - fl_quantity r)
        (map (\<lambda>y. (y, fl_quantity y + moves_to mem ms y)) ys) x = group_sum fl_order_line (moves_to mem ms) ys x" for ys
      by (induction ys) auto
    moreover have "group_sum fl_order_line (moves_to mem ms) (filter (\<lambda>y. fl_pk y \<in> set (List.map_filter (goes_to mem) ms)) ys) x
        = group_sum fl_order_line (moves_to mem ms) ys x" for ys
    proof (induction ys)
      case (Cons y ys)
      have "moves_to mem ms y = 0" if "fl_pk y \<notin> set (List.map_filter (goes_to mem) ms)"
      proof -
        have "goes_to mem m \<noteq> Some (fl_pk y)" if "m \<in> set ms" for m
          using that \<open>fl_pk y \<notin> _\<close> by (force simp: List.map_filter_def)
        then show ?thesis by (simp add: moves_to_def)
      qed
      with Cons show ?case by auto
    qed simp
    ultimately show ?thesis unfolding T2_def set_quantities_held [OF ok vs_rows vs_distinct] by (simp add: vs_def)
  qed
  have view2: "fulfillment_view T2 = fulfillment_view ?T" by (simp add: T2_def set_line_quantities_def fulfillment_view_def comp_def)
  have lines2: "lines T2 = lines ?T" by (simp add: T2_def set_line_quantities_def)
  have books2: "books (\<lambda>x. D x + (held T2 x - held ?T x)) T2"
    using books ok2 by (simp add: books_def lines2) (simp add: algebra_simps)
  have targets2: "\<forall>n \<in> set ns. filed T2 (nl_fulfillment n) \<and> nl_order_line n \<in> line_keys T2"
  proof -
    have "fl_order_line (ml_line m) \<in> line_keys T2" if "m \<in> set ms" for m
      using sources that rows_okD(8) [OF ok] by (auto simp: filed_row_def line_keys_def lines2)
    then show ?thesis using targets(2) by (auto simp: ns_def line_in_target_def filed_view [OF view2])
  qed
  have "books (\<lambda>x. D x + (held T2 x - held ?T x)) (tables_of (with_tables (set_line_quantities ?us) s))"
    using books2 by (simp add: T2_def)
  note B3 = create_lines_books [OF create this, unfolded tables_with_tables, folded T2_def, OF targets2]
  let ?T3 = "tables_of s3"
  have ok3: "rows_ok ?T3" using B3(1) by (simp add: books_def)
  have held3: "held ?T3 x = held T2 x + ?M (filter (\<lambda>m. goes_to mem m = None \<and> 0 < moved_quantity m) ms) x" for x
  proof -
    have "group_sum nl_order_line nl_quantity (map (line_in_target target) ms') x = ?M ms' x" for ms'
      by (induction ms') (auto simp: line_in_target_def)
    then show ?thesis using B3(2) [of x] by (simp add: ns_def)
  qed
  have rows3: "\<forall>r \<in> set rs. filed_row ?T3 r"
  proof
    fix r assume "r \<in> set rs"
    then obtain m where m: "m \<in> set ms" "rest m = 0" "r = ml_line m" by (auto simp: rs_def)
    with sources obtain f where f: "f \<in> set (fulfillments ?T)" "f_status f \<noteq> CANCELED_F" "r \<in> set (f_lines f)" by (auto simp: filed_row_def)
    have "fl_pk r \<noteq> fl_pk (ml_line m')" if "m' \<in> set ms" "rest m' \<noteq> 0" for m'
    proof
      assume "fl_pk r = fl_pk (ml_line m')"
      with distinct m that(1) have "m' = m" by (auto simp: distinct_map inj_on_def)
      with that(2) m(2) show False by simp
    qed
    then have "fl_pk r \<notin> (\<lambda>m. fl_pk (ml_line m)) ` set (filter (\<lambda>m. rest m \<noteq> 0) ms)" by auto
    moreover have "fl_pk r \<notin> fl_pk ` set mem" using distinct m by auto
    ultimately have "fl_pk r \<notin> fst ` set ?us" by (auto simp: vs_def image_iff)
    then have "r \<in> set (bulk_update fl_pk (map (\<lambda>(k, q). (k, \<lambda>fl. fl\<lparr>fl_quantity := q\<rparr>)) ?us) (f_lines f))"
      by (intro bulk.upd_untouched [OF _ f(3) refl]) (auto simp: image_iff)
    with f show "filed_row ?T3 r" unfolding filed_row_def C(5)
      by (auto simp: T2_def set_line_quantities_def intro!: bexI [of _ f])
  qed
  have "distinct (map fl_pk rs)" using distinct by (auto simp: rs_def comp_def distinct_map_filter)
  note held4 = delete_lines_held [OF ok3 rows3 this]
  have held: "held (tables_of s') x = held ?T x" for x
  proof -
    have "group_sum fl_order_line fl_quantity rs x = ?M (filter (\<lambda>m. rest m = 0) ms) x"
    proof -
      have "group_sum fl_order_line fl_quantity (map ml_line ms') x = ?M ms' x" if "\<forall>m \<in> set ms'. rest m = 0" for ms'
        using that by (induction ms') (auto simp: rest_def)
      then show ?thesis by (simp add: rs_def)
    qed
    moreover have "?M (filter (\<lambda>m. goes_to mem m = None \<and> 0 < moved_quantity m) ms) x = ?M (filter (\<lambda>m. \<not> goes_to mem m \<noteq> None) ms) x"
      using nonneg by (induction ms) (auto simp: order.antisym)
    ultimately have "held (tables_of s') x = held ?T x - ?M (filter (\<lambda>m. rest m \<noteq> 0) ms) x + ?M (filter (\<lambda>m. goes_to mem m \<noteq> None) ms) x
        + ?M (filter (\<lambda>m. \<not> goes_to mem m \<noteq> None) ms) x - ?M (filter (\<lambda>m. \<not> rest m \<noteq> 0) ms) x"
      using held4 [of x] held3 [of x] held2 [of x] matched_moves [of mem ms x] distinct by (simp add: s')
    with group_sum_filter_split [of "\<lambda>m. fl_order_line (ml_line m)" moved_quantity "\<lambda>m. rest m \<noteq> 0" ms x]
      group_sum_filter_split [of "\<lambda>m. fl_order_line (ml_line m)" moved_quantity "\<lambda>m. goes_to mem m \<noteq> None" ms x]
    show ?thesis by linarith
  qed
  have lines: "lines (tables_of s') = lines ?T" by (simp add: s' delete_fulfillment_lines_def C(5) lines2)
  have "rows_ok (tables_of s')" using delete_lines_rows [OF ok3] by (simp add: s')
  then show "books D (tables_of s')" using books by (simp add: books_def lines held)
  show "held (tables_of s') x = held ?T x" by (rule held)
  show "lines (tables_of s') = lines ?T" by (rule lines)
  show "fulfillment_view (tables_of s') = fulfillment_view ?T"
    using view2 by (simp add: s' delete_fulfillment_lines_def fulfillment_view_def C(5) comp_def)
  show "db_of s' = db_of s" using C(3) by (simp add: s' with_tables_def)
qed

lemma move_fulfillment_lines_keeps:
  \<comment> \<open>Rows that are neither moved nor in the target stay as they are.\<close>
  assumes move: "move_fulfillment_lines_to_target_fulfillment ms mem target s = Inr s'"
    and row: "filed_row (tables_of s) r" and "fl_pk r \<notin> (\<lambda>m. fl_pk (ml_line m)) ` set ms" and "fl_pk r \<notin> fl_pk ` set mem"
  shows "filed_row (tables_of s') r"
proof -
  from row obtain f where f: "f \<in> set (fulfillments (tables_of s))" "f_status f \<noteq> CANCELED_F" "r \<in> set (f_lines f)"
    by (auto simp: filed_row_def)
  define us where "us = map (\<lambda>fl. (fl_pk fl, fl_quantity fl)) (map (\<lambda>m. (ml_line m)\<lparr>fl_quantity := rest m\<rparr>) (filter (\<lambda>m. rest m \<noteq> 0) ms))
      @ map (\<lambda>fl. (fl_pk fl, fl_quantity fl)) (filter (\<lambda>fl. fl_pk fl \<in> set (List.map_filter (goes_to mem) ms))
          (map (\<lambda>y. y\<lparr>fl_quantity := fl_quantity y + moves_to mem ms y\<rparr>) mem))"
  define ns where "ns = map (line_in_target target) (filter (\<lambda>m. goes_to mem m = None \<and> 0 < moved_quantity m) ms)"
  define ks where "ks = map (\<lambda>m. fl_pk (ml_line m)) (filter (\<lambda>m. rest m = 0) ms)"
  from move [unfolded move_fulfillment_lines_to_target_fulfillment_def move_loop_eq append_Nil prod.case Let_def,
      folded us_def ns_def ks_def]
  obtain fls s3 where create: "create_lines ns (with_tables (set_line_quantities us) s) = Inr (fls, s3)"
    and s': "s' = with_tables (delete_fulfillment_lines ks) s3"
    by (auto split: if_splits sum.splits)
  have us: "fst ` set us \<subseteq> (\<lambda>m. fl_pk (ml_line m)) ` set ms \<union> fl_pk ` set mem" by (auto simp: us_def)
  have ks: "set ks \<subseteq> (\<lambda>m. fl_pk (ml_line m)) ` set ms" by (auto simp: ks_def)
  let ?u = "bulk_update fl_pk (map (\<lambda>(k, q). (k, \<lambda>fl. fl\<lparr>fl_quantity := q\<rparr>)) us)"
  have "fl_pk r \<notin> fst ` set us" using us assms(3,4) by blast
  then have "r \<in> set (?u (f_lines f))"
    by (intro bulk.upd_untouched [OF _ f(3) refl]) (auto simp: image_iff)
  moreover have "fl_pk r \<notin> set ks" using ks assms(3) by blast
  moreover have "fulfillments (tables_of s') = map (\<lambda>f. f\<lparr>f_lines := filter (\<lambda>fl. fl_pk fl \<notin> set ks) (?u (f_lines f)
      @ map saved_line (filter (\<lambda>(k, n). nl_fulfillment n = f_pk f) (number_lines (set_line_quantities us (tables_of s)) ns)))\<rparr>)
      (fulfillments (tables_of s))"
    by (simp add: s' create_lines_Inr(5) [OF create] set_line_quantities_def delete_fulfillment_lines_def comp_def)
  ultimately show ?thesis using f unfolding filed_row_def by (auto intro!: bexI [of _ f])
qed

section \<open>Entering the quantities of lines\<close>

lemma lines_save_fulfilled: "lines (tables_of (save_fulfilled ks ful s)) =
    map (\<lambda>l. if ol_pk l \<in> set ks then l\<lparr>sl_quantity_fulfilled := ful (ol_pk l)\<rparr> else l) (lines (tables_of s))"
proof -
  have "map_of (map (\<lambda>k. (k, \<lambda>r :: sales_line. r\<lparr>sl_quantity_fulfilled := ful k\<rparr>)) ks) k
      = (if k \<in> set ks then Some (\<lambda>r. r\<lparr>sl_quantity_fulfilled := ful k\<rparr>) else None)" for k
    by (induction ks) auto
  then show ?thesis unfolding save_fulfilled_def bulk_update_def tables_with_tables by (auto intro!: map_cong)
qed

lemma save_fulfilled_rest [simp]:
  "fulfillments (tables_of (save_fulfilled ks ful s)) = fulfillments (tables_of s)"
  "line_seq (tables_of (save_fulfilled ks ful s)) = line_seq (tables_of s)"
  "fulfillment_seq (tables_of (save_fulfilled ks ful s)) = fulfillment_seq (tables_of s)"
  "fulfillment_line_seq (tables_of (save_fulfilled ks ful s)) = fulfillment_line_seq (tables_of s)"
  "db_of (save_fulfilled ks ful s) = db_of s" "as_calls (save_fulfilled ks ful s) = as_calls s"
  by (simp_all add: save_fulfilled_def with_tables_def)

lemma save_fulfilled_books:
  assumes "books D (tables_of s)" and "\<forall>l \<in> set (lines (tables_of s)). ol_pk l \<in> set ks \<longrightarrow> ful (ol_pk l) = sl_quantity_fulfilled l + E (ol_pk l)"
    and "\<forall>x. x \<notin> set ks \<longrightarrow> E x = 0"
  shows "books (\<lambda>x. D x - E x) (tables_of (save_fulfilled ks ful s))"
proof -
  let ?T = "tables_of s" and ?T' = "tables_of (save_fulfilled ks ful s)"
  have ok: "rows_ok ?T" using assms(1) by (simp add: books_def)
  note R = rows_okD [OF ok]
  have keys: "map ol_pk (lines ?T') = map ol_pk (lines ?T)" by (simp add: lines_save_fulfilled comp_def if_distrib cong: if_cong)
  then have keyset: "line_keys ?T' = line_keys ?T" by (simp add: line_keys_def flip: set_map)
  have "rows_ok ?T'" using R by (intro rows_okI) (simp_all add: keys keyset line_pks_def)
  moreover have "held ?T' x = held ?T x" for x by (simp add: held_def)
  moreover have "sl_quantity_fulfilled l + (D (ol_pk l) - E (ol_pk l)) = held ?T (ol_pk l)" if l: "l \<in> set (lines ?T')" for l
  proof -
    from l obtain l0 where l0: "l0 \<in> set (lines ?T)" and l: "l = (if ol_pk l0 \<in> set ks then l0\<lparr>sl_quantity_fulfilled := ful (ol_pk l0)\<rparr> else l0)"
      by (auto simp: lines_save_fulfilled)
    from assms(1) l0 have "sl_quantity_fulfilled l0 + D (ol_pk l0) = held ?T (ol_pk l0)" by (simp add: books_def)
    with assms(2,3) l0 show ?thesis unfolding l by (cases "ol_pk l0 \<in> set ks") auto
  qed
  ultimately show ?thesis by (simp add: books_def)
qed

section \<open>Moving unfulfilled quantities\<close>

definition valid_lines :: "action_line list \<Rightarrow> order_tables \<Rightarrow> bool" where
  \<comment> \<open>Different lines, as they are in the table, with quantities that are left to fulfill.\<close>
  "valid_lines is T \<longleftrightarrow> distinct (map line_key is) \<and> (\<forall>i \<in> set is. al_line i \<in> set (lines T) \<and> 0 \<le> al_quantity i
     \<and> al_quantity i \<le> quantity_unfulfilled (al_line i))"

definition valid_moves :: "moved_line list \<Rightarrow> order_tables \<Rightarrow> bool" where
  "valid_moves ms T \<longleftrightarrow> distinct (map (\<lambda>m. fl_pk (ml_line m)) ms)
     \<and> (\<forall>m \<in> set ms. filed_row T (ml_line m) \<and> 0 \<le> ml_quantity m)"

abbreviation asked :: "action_line list \<Rightarrow> pk \<Rightarrow> int" where
  "asked is \<equiv> group_sum line_key al_quantity is"

lemma unfulfilled_moves_distinct:
  "distinct (map line_key is) \<Longrightarrow> (\<And>i. i \<in> set is \<Longrightarrow> al_quantity i \<le> sl_quantity (al_line i) - ful (line_key i)) \<Longrightarrow>
   unfulfilled_moves is ful = map (\<lambda>i. (i, al_quantity i)) is"
proof (induction "is" arbitrary: ful)
  case (Cons i "is")
  have "min (sl_quantity (al_line i) - ful (line_key i)) (al_quantity i) = al_quantity i" using Cons.prems(2) [of i] by simp
  moreover have "al_quantity j \<le> sl_quantity (al_line j) - (ful(line_key i := c)) (line_key j)" if "j \<in> set is" for j c
    using Cons.prems that by (auto simp: image_iff)
  ultimately show ?case using Cons by (simp add: Let_def)
qed simp

lemma find_line_distinct:
  "distinct (map line_key is) \<Longrightarrow> i \<in> set is \<Longrightarrow> find (\<lambda>j. line_key j = line_key i) is = Some i"
  by (induction "is") auto

lemma asked_pairs: "sum_of snd (filter (\<lambda>(i, q). line_key i = k) (map (\<lambda>i. (i, al_quantity i)) is)) = asked is k"
  by (induction "is") auto

lemma create_lines_keeps:
  assumes "create_lines ns s = Inr (fls, s')" and "filed_row (tables_of s) r"
  shows "filed_row (tables_of s') r"
  using assms(2) unfolding filed_row_def create_lines_Inr(5) [OF assms(1)] by fastforce

lemma created_rows:
  assumes "create_lines ns s = Inr (fls, s')" and "\<forall>n \<in> set ns. filed (tables_of s) (nl_fulfillment n)"
  shows "y \<in> set fls \<Longrightarrow> filed_row (tables_of s') y" "y \<in> set fls \<Longrightarrow> fulfillment_line_seq (tables_of s) \<le> fl_pk y"
    "distinct (map fl_pk fls)"
proof -
  note C = create_lines_Inr [OF assms(1)]
  have pks: "map fl_pk fls = map fst (number_lines (tables_of s) ns)" by (simp add: C(2) saved_line_def case_prod_unfold)
  show "distinct (map fl_pk fls)" by (simp add: pks numbered_fst)
  assume "y \<in> set fls"
  then obtain k n where kn: "(k, n) \<in> set (number_lines (tables_of s) ns)" "y = saved_line (k, n)" by (auto simp: C(2))
  with assms(2) obtain f where "f \<in> set (fulfillments (tables_of s))" "f_pk f = nl_fulfillment n" "f_status f \<noteq> CANCELED_F"
    by (auto simp: filed_def dest: numbered_in)
  with kn show "filed_row (tables_of s') y" unfolding filed_row_def C(5) by fastforce
  from numbered_in [OF kn(1)] kn(2) show "fulfillment_line_seq (tables_of s) \<le> fl_pk y" by (simp add: saved_line_def)
qed

lemma created_view:
  assumes "create_lines ns s = Inr (fls, s')"
  shows "fulfillment_view (tables_of s') = fulfillment_view (tables_of s)" "lines (tables_of s') = lines (tables_of s)"
    "line_seq (tables_of s') = line_seq (tables_of s)"
  by (simp_all add: create_lines_Inr(5) [OF assms] fulfillment_view_def comp_def)

definition with_asked :: "action_line list \<Rightarrow> sales_line \<Rightarrow> sales_line" where
  "with_asked is l = (if ol_pk l \<in> line_key ` set is
     then l\<lparr>sl_quantity_fulfilled := sl_quantity_fulfilled l + asked is (ol_pk l)\<rparr> else l)"

lemma with_asked_simps [simp]:
  "ol_pk (with_asked is l) = ol_pk l" "sl_quantity (with_asked is l) = sl_quantity l"
  "ol_order (with_asked is l) = ol_order l" "ol_variant (with_asked is l) = ol_variant l"
  "sl_is_gift_card (with_asked is l) = sl_is_gift_card l"
  by (simp_all add: with_asked_def)

lemma move_order_lines_ok:
  assumes run: "move_order_lines_to_target_fulfillment e is target s = Inr (created, s')"
    and books: "books D (tables_of s)" and valid: "valid_lines is (tables_of s)" and target: "filed (tables_of s) target"
  shows "books D (tables_of s')" "lines (tables_of s') = map (with_asked is) (lines (tables_of s))"
    "fulfillment_view (tables_of s') = fulfillment_view (tables_of s)" "line_seq (tables_of s') = line_seq (tables_of s)"
    "filed_row (tables_of s) r \<Longrightarrow> filed_row (tables_of s') r"
    "y \<in> set created \<Longrightarrow> filed_row (tables_of s') y"
    "y \<in> set created \<Longrightarrow> fulfillment_line_seq (tables_of s) \<le> fl_pk y" "distinct (map fl_pk created)"
proof -
  let ?T = "tables_of s"
  note distinct = valid [unfolded valid_lines_def, THEN conjunct1]
  have lines: "al_line i \<in> set (lines ?T)" "0 \<le> al_quantity i" "al_quantity i \<le> sl_quantity (al_line i) - sl_quantity_fulfilled (al_line i)"
    if "i \<in> set is" for i using valid that by (auto simp: valid_lines_def quantity_unfulfilled_def)
  let ?start = "\<lambda>k. case find (\<lambda>i. line_key i = k) is of None \<Rightarrow> 0 | Some i \<Rightarrow> sl_quantity_fulfilled (al_line i)"
  have start: "?start (line_key i) = sl_quantity_fulfilled (al_line i)" if "i \<in> set is" for i
    by (simp add: find_line_distinct [OF distinct that])
  have moves: "unfulfilled_moves is ?start = map (\<lambda>i. (i, al_quantity i)) is"
    by (rule unfulfilled_moves_distinct [OF distinct]) (simp add: start lines)
  define ns where "ns = map (\<lambda>i. \<lparr>nl_fulfillment = target, nl_order_line = line_key i, nl_quantity = al_quantity i, nl_stock = None\<rparr>) is"
  let ?deallocated = "map (\<lambda>(i, q). \<lparr>li_line = order_line.truncate (al_line i), li_quantity = q, li_variant = None,
      li_warehouse_pk = None\<rparr>) (filter (\<lambda>(i, q). list_ex (\<lambda>a. a_order_line a = line_key i) (allocations (db_of s)))
        (map (\<lambda>i. (i, al_quantity i)) is))"
  define s1 where "s1 = (if ?deallocated = [] then s else with_db (fst (deallocate_stock (ae_env e) ?deallocated (db_of s))) s)"
  have s1: "tables_of s1 = ?T" by (simp add: s1_def)
  from run [unfolded move_order_lines_to_target_fulfillment_def moves Let_def, folded s1_def]
  obtain s2 where create: "create_lines ns s1 = Inr (created, s2)"
    and s': "s' = save_fulfilled (map line_key is) (\<lambda>k. ?start k + asked is k) s2"
    by (auto simp: ns_def comp_def asked_pairs split: sum.splits)
  have ok: "rows_ok ?T" using books by (simp add: books_def)
  have ns: "\<forall>n \<in> set ns. filed (tables_of s1) (nl_fulfillment n) \<and> nl_order_line n \<in> line_keys (tables_of s1)"
    using target lines(1) by (auto simp: ns_def s1 line_keys_def line_key_def)
  have books1: "books D (tables_of s1)" using books by (simp add: s1)
  have asked: "group_sum nl_order_line nl_quantity ns = asked is"
  proof
    fix x have "group_sum nl_order_line nl_quantity (map (\<lambda>i. \<lparr>nl_fulfillment = target, nl_order_line = line_key i,
        nl_quantity = al_quantity i, nl_stock = None\<rparr>) is') x = asked is' x" for is' by (induction is') auto
    then show "group_sum nl_order_line nl_quantity ns x = asked is x" by (simp add: ns_def)
  qed
  have books2: "books (\<lambda>x. D x + asked is x) (tables_of s2)" using create_lines_books(1) [OF create books1 ns] by (simp add: asked)
  have lines2: "lines (tables_of s2) = lines ?T" using created_view(2) [OF create] by (simp add: s1)
  have ful: "(\<lambda>k. ?start k + asked is k) (ol_pk l) = sl_quantity_fulfilled l + asked is (ol_pk l)"
    if l: "l \<in> set (lines ?T)" and k: "ol_pk l \<in> line_key ` set is" for l
  proof -
    from k obtain i where i: "i \<in> set is" "ol_pk l = line_key i" by auto
    with lines(1) [OF i(1)] l rows_okD(1) [OF ok] have "al_line i = l" by (auto simp: line_key_def distinct_map inj_on_def)
    with start [OF i(1)] i(2) show ?thesis by simp
  qed
  have "\<forall>l \<in> set (lines (tables_of s2)). ol_pk l \<in> set (map line_key is) \<longrightarrow>
      (\<lambda>k. ?start k + asked is k) (ol_pk l) = sl_quantity_fulfilled l + asked is (ol_pk l)"
    using ful by (simp add: lines2)
  moreover have "\<forall>x. x \<notin> set (map line_key is) \<longrightarrow> asked is x = 0" by (simp add: group_sum_absent)
  ultimately have "books (\<lambda>x. D x + asked is x - asked is x) (tables_of s')" unfolding s' by (rule save_fulfilled_books [OF books2])
  then show "books D (tables_of s')" by simp
  show "lines (tables_of s') = map (with_asked is) (lines ?T)"
    unfolding s' lines_save_fulfilled lines2 by (rule map_cong) (auto simp: with_asked_def ful)
  show "fulfillment_view (tables_of s') = fulfillment_view ?T" "line_seq (tables_of s') = line_seq ?T"
    using created_view [OF create] by (simp_all add: s' s1 fulfillment_view_def)
  have rows: "filed_row (tables_of s') = filed_row (tables_of s2)" by (simp add: filed_row_def s' fun_eq_iff)
  show "filed_row ?T r \<Longrightarrow> filed_row (tables_of s') r" unfolding rows
    using create_lines_keeps [OF create, of r] by (simp add: s1)
  have "\<forall>n \<in> set ns. filed (tables_of s1) (nl_fulfillment n)" using ns by blast
  note R = created_rows [OF create this]
  show "y \<in> set created \<Longrightarrow> filed_row (tables_of s') y" unfolding rows by (rule R(1))
  show "y \<in> set created \<Longrightarrow> fulfillment_line_seq ?T \<le> fl_pk y" using R(2) by (simp add: s1)
  show "distinct (map fl_pk created)" by (rule R(3))
qed

lemma filed_row_seq: "rows_ok T \<Longrightarrow> filed_row T r \<Longrightarrow> fl_pk r < fulfillment_line_seq T"
  using rows_okD(6) by (auto simp: filed_row_def)

lemma move_all_lines_ok:
  assumes run: "move_all_lines e is ms target s = Inr s'"
    and books: "books D (tables_of s)" and valid: "valid_lines is (tables_of s)" "valid_moves ms (tables_of s)"
    and target: "filed (tables_of s) target"
  shows "books D (tables_of s')" "lines (tables_of s') = map (with_asked is) (lines (tables_of s))"
    "fulfillment_view (tables_of s') = fulfillment_view (tables_of s)"
    "filed_row (tables_of s) r \<Longrightarrow> fl_pk r \<notin> (\<lambda>m. fl_pk (ml_line m)) ` set ms \<Longrightarrow> filed_row (tables_of s') r"
proof -
  from run obtain created s1 where first: "move_order_lines_to_target_fulfillment e is target s = Inr (created, s1)"
    and second: "move_fulfillment_lines_to_target_fulfillment ms created target s1 = Inr s'"
    by (auto simp: move_all_lines_def split: sum.splits)
  note F = move_order_lines_ok [OF first books valid(1) target]
  have ok: "rows_ok (tables_of s)" using books by (simp add: books_def)
  have new: "fl_pk r \<notin> fl_pk ` set created" if "filed_row (tables_of s) r" for r
    using F(7) filed_row_seq [OF ok that] by force
  have sources: "\<forall>m \<in> set ms. filed_row (tables_of s1) (ml_line m) \<and> 0 \<le> ml_quantity m"
    using valid(2) F(5) by (auto simp: valid_moves_def)
  have distinct: "distinct (map (\<lambda>m. fl_pk (ml_line m)) ms @ map fl_pk created)"
    using valid(2) F(8) new by (auto simp: valid_moves_def)
  have target1: "filed (tables_of s1) target" using target by (simp add: filed_view [OF F(3)])
  have created: "\<forall>y \<in> set created. filed_row (tables_of s1) y" using F(6) by blast
  note M = move_fulfillment_lines_books [OF second F(1) sources created target1 distinct]
  show "books D (tables_of s')" by (rule M(1))
  show "lines (tables_of s') = map (with_asked is) (lines (tables_of s))" using M(3) F(2) by simp
  show "fulfillment_view (tables_of s') = fulfillment_view (tables_of s)" using M(4) F(3) by simp
  show "filed_row (tables_of s') r" if "filed_row (tables_of s) r" "fl_pk r \<notin> (\<lambda>m. fl_pk (ml_line m)) ` set ms"
    using move_fulfillment_lines_keeps [OF second F(5) [OF that(1)] that(2) new [OF that(1)]] .
qed

lemma within_asked:
  assumes "valid_lines is T" and "rows_ok T" and "\<forall>l \<in> set (lines T). sl_quantity_fulfilled l \<le> sl_quantity l"
  shows "\<forall>l \<in> set (map (with_asked is) (lines T)). sl_quantity_fulfilled l \<le> sl_quantity l"
proof -
  have "sl_quantity_fulfilled (with_asked is l) \<le> sl_quantity l" if l: "l \<in> set (lines T)" for l
  proof (cases "ol_pk l \<in> line_key ` set is")
    case True
    then obtain i where i: "i \<in> set is" "ol_pk l = line_key i" by auto
    with assms(1,2) l have "al_line i = l" by (auto simp: valid_lines_def rows_ok_def line_key_def distinct_map inj_on_def)
    moreover have "asked is (line_key i) = al_quantity i"
      using assms(1) i(1) by (intro group_sum_distinct) (simp_all add: valid_lines_def)
    ultimately show ?thesis using assms(1) i True by (auto simp: valid_lines_def with_asked_def quantity_unfulfilled_def)
  qed (use assms(3) l in \<open>simp add: with_asked_def\<close>)
  then show ?thesis by simp
qed

section \<open>Refunds do not touch lines\<close>

definition lines_part :: "order_tables \<Rightarrow> order_tables" where
  "lines_part T = T\<lparr>payments := [], orders := []\<rparr>"

lemma lines_part_simps [simp]:
  "lines_part (modify_payment k f T) = lines_part T" "lines_part (save_payment fs p T) = lines_part T"
  "lines_part (mark_processed p t T) = lines_part T" "lines_part (save_order o1 T) = lines_part T"
  "lines_part (updates_amounts_for_order precision o1 T) = lines_part T"
  by (simp_all add: lines_part_def modify_payment_def save_payment_def mark_processed_def save_order_def updates_amounts_for_order_def)

lemma lines_part_charge_status: "lines_part (snd (snd (update_payment_charge_status precision p t fs T))) = lines_part T"
  by (simp add: update_payment_charge_status_def Let_def split: prod.split option.split)

lemma lines_part_postprocess: "lines_part (snd (snd (gateway_postprocess precision t p T))) = lines_part T"
  by (simp add: gateway_postprocess_def Let_def lines_part_charge_status)

lemma lines_part_transaction: "lines_part (snd (create_transaction p kind d ar r er ok T)) = lines_part T"
  by (simp add: create_transaction_def Let_def)

lemma lines_part_transaction_again:
  "lines_part (snd (get_already_processed_transaction_or_create_new_transaction p kind d ar r er T)) = lines_part T"
  by (simp add: get_already_processed_transaction_or_create_new_transaction_def Let_def lines_part_transaction split: option.split)

lemma lines_part_update_payment: "lines_part (snd (update_payment p r T)) = lines_part T"
  by (simp add: update_payment_def Let_def split: option.split)

lemma lines_part_call_gateway: "lines_part (snd (call_gateway gw op kind d p T)) = lines_part T"
  by (auto simp: call_gateway_def Let_def split: prod.split
      dest!: arg_cong [where f = "\<lambda>x. lines_part (snd x)"] simp: lines_part_update_payment lines_part_transaction_again)

lemma lines_part_raise:
  "(\<And>p T. lines_part (snd (fn p T)) = lines_part T) \<Longrightarrow> lines_part (snd (raise_payment_error fn p T)) = lines_part T"
  by (cases "fn p T") (auto simp: raise_payment_error_def split: sum.split dest: arg_cong [where f = lines_part], (metis snd_conv)+)

lemma lines_part_locked:
  assumes "\<And>p T. lines_part (snd (fn p T)) = lines_part T"
  shows "lines_part (snd (with_locked_payment fn p T)) = lines_part T"
proof -
  have "lines_part T' = lines_part T" if "fn r T = (x, T')" for r x T' using assms [of r T] that by simp
  then show ?thesis by (simp add: with_locked_payment_def split: option.split prod.split sum.split)
qed

lemma lines_part_payment_postprocess:
  assumes "\<And>p T. lines_part (snd (fn p T)) = lines_part T"
  shows "lines_part (snd (payment_postprocess precision fn p T)) = lines_part T"
proof -
  have "lines_part T' = lines_part T" if "fn p T = (x, T')" for x T' using assms [of p T] that by simp
  moreover have "lines_part T'' = lines_part T'" if "gateway_postprocess precision t p' T' = (t', p'', T'')" for t p' T' t' p'' T''
    using lines_part_postprocess [of precision t p' T'] that by simp
  ultimately show ?thesis by (simp add: payment_postprocess_def split: prod.split sum.split)
qed

lemma lines_part_refund: "lines_part (snd (Payment_Operations.refund precision gw amount p T)) = lines_part T"
  unfolding Payment_Operations.refund_def
  by (intro lines_part_raise lines_part_locked lines_part_payment_postprocess)
    (auto simp: Let_def lines_part_call_gateway split: option.split sum.split prod.split
      dest!: arg_cong [where f = "\<lambda>x. lines_part (snd x)"] simp: lines_part_transaction)

lemma lines_part_books: "lines_part T' = lines_part T \<Longrightarrow> lines T' = lines T \<and> same_books T T'"
proof -
  assume eq: "lines_part T' = lines_part T"
  have "lines (lines_part T') = lines (lines_part T)" "fulfillments (lines_part T') = fulfillments (lines_part T)"
    "line_seq (lines_part T') = line_seq (lines_part T)" "fulfillment_seq (lines_part T') = fulfillment_seq (lines_part T)"
    "fulfillment_line_seq (lines_part T') = fulfillment_line_seq (lines_part T)" unfolding eq by (rule refl)+
  then show ?thesis by (simp add: lines_part_def same_books_def)
qed

lemma process_refund_lines:
  assumes "process_refund e o1 payment is ms amount shipping s = (r, s')"
  shows "lines_part (tables_of s') = lines_part (tables_of s)" "db_of s' = db_of s"
proof -
  have "lines_part T = lines_part (tables_of s)"
    if "Payment_Operations.refund (ae_precision e) (ae_gateway e) a p (tables_of s) = (x, T)" for a p x T
    using lines_part_refund [of "ae_precision e" "ae_gateway e" a p "tables_of s"] that by simp
  with assms show "lines_part (tables_of s') = lines_part (tables_of s)"
    by (auto simp: process_refund_def Let_def split: sum.splits option.splits prod.splits if_splits)
  from assms show "db_of s' = db_of s"
    by (auto simp: process_refund_def Let_def log_calls_def with_tables_def split: sum.splits option.splits prod.splits if_splits)
qed

section \<open>Fulfillments that go\<close>

lemma books_fewer_fulfillments:
  \<comment> \<open>Fulfillments are deleted and statuses change; \<open>E\<close> is what that takes from the lines.\<close>
  assumes "books D T" and "fulfillments T' = map g (filter P (fulfillments T))"
    and "\<And>f. f \<in> set (fulfillments T) \<Longrightarrow> f_pk (g f) = f_pk f \<and> f_lines (g f) = f_lines f"
    and "lines T' = lines T" "line_seq T' = line_seq T" "fulfillment_seq T' = fulfillment_seq T"
      "fulfillment_line_seq T' = fulfillment_line_seq T"
    and "\<And>x. held T' x = held T x - E x"
  shows "books (\<lambda>x. D x - E x) T'"
proof -
  have ok: "rows_ok T" using assms(1) by (simp add: books_def)
  note R = rows_okD [OF ok]
  have keys: "line_keys T' = line_keys T" by (simp add: line_keys_def assms(4))
  have "rows_ok T'"
  proof (rule rows_okI)
    have "map f_pk (fulfillments T') = map f_pk (filter P (fulfillments T))" using assms(3) by (simp add: assms(2))
    with R(2) show "distinct (map f_pk (fulfillments T'))" by (simp add: distinct_map_filter)
    have "line_pks T' = concat (map (\<lambda>f. map fl_pk (f_lines f)) (filter P (fulfillments T)))"
      using assms(3) by (auto simp: line_pks_def assms(2) intro!: arg_cong [where f = concat])
    moreover have "subseq (concat (map h (filter P fs))) (concat (map h fs))" for h :: "fulfillment \<Rightarrow> pk list" and fs
      by (induction fs) (auto intro: list_emb_append_mono subseq_append' list_emb_append2)
    ultimately show "distinct (line_pks T')" using R(3) subseq_distinct unfolding line_pks_def by metis
  next
    fix f fl assume "f \<in> set (fulfillments T')" "fl \<in> set (f_lines f)"
    then obtain f0 where f0: "f0 \<in> set (fulfillments T)" and "fl \<in> set (f_lines f0)" using assms(3) by (auto simp: assms(2))
    with R(6-8) [OF f0] show "fl_pk fl < fulfillment_line_seq T' \<and> 0 \<le> fl_quantity fl \<and> fl_order_line fl \<in> line_keys T'"
      by (simp add: keys assms(7))
  qed (use R keys assms in auto)
  then show ?thesis using assms(1) by (simp add: books_def assms(4,8))
qed

lemma held_filter_fulfillments:
  assumes "fulfillments T' = map g (filter P (fulfillments T))"
  shows "held T' x = held T x - sum_of (\<lambda>f. held_in f x - (if P f then held_in (g f) x else 0)) (fulfillments T)"
proof -
  have "sum_of (\<lambda>f. held_in f x) (map g (filter P fs)) = sum_of (\<lambda>f. held_in f x) fs
      - sum_of (\<lambda>f. held_in f x - (if P f then held_in (g f) x else 0)) fs" for fs by (induction fs) auto
  then show ?thesis by (simp add: held_def assms)
qed

lemma delete_empty_books:
  assumes "books D (tables_of s)"
  shows "books D (tables_of (delete_empty_fulfillments k s))" "lines (tables_of (delete_empty_fulfillments k s)) = lines (tables_of s)"
    "db_of (delete_empty_fulfillments k s) = db_of s"
proof -
  let ?T = "tables_of s" and ?T' = "tables_of (delete_empty_fulfillments k s)"
  let ?P = "\<lambda>f. \<not> (f_order f = k \<and> f_lines f = [] \<and> f_status f \<in> {FULFILLED_F, WAITING_FOR_APPROVAL})"
  have fs: "fulfillments ?T' = map (\<lambda>f. f) (filter ?P (fulfillments ?T))" by (simp add: delete_empty_fulfillments_def)
  have "held ?T' x = held ?T x - (\<lambda>_. 0) x" for x
    using held_filter_fulfillments [OF fs, of x] by (subst (asm) sum_of_zero) (auto simp: held_in_def)
  from books_fewer_fulfillments [OF assms fs _ _ _ _ _ this] show "books D ?T'" by (simp add: delete_empty_fulfillments_def)
  show "lines ?T' = lines ?T" "db_of (delete_empty_fulfillments k s) = db_of s" by (simp_all add: delete_empty_fulfillments_def with_tables_def)
qed

lemma held_one:
  assumes "distinct (map f_pk fs)" and "f \<in> set fs"
  shows "sum_of (\<lambda>g. if f_pk g = f_pk f then v g else 0) fs = v f"
proof -
  have "sum_of (\<lambda>g. if f_pk g = f_pk f then v g else 0) fs = sum_of (\<lambda>g. if f_pk f = f_pk g then v f else 0) fs"
    using assms by (intro sum_of_cong) (auto simp: distinct_map inj_on_def)
  also have "\<dots> = v f" using assms by (subst sum_of_hit) auto
  finally show ?thesis .
qed

end
