(* ===== verification/Fulfillment_Steps.thy ===== *)
theory Fulfillment_Steps
  imports Fulfillment_Ledger Payment_Ledger
begin

text \<open>
  Every mutation that fulfills, approves, cancels, refunds, returns and replaces keeps the books of fulfilled
  quantities, and so does every sequence of them: the step relation and its invariant.
\<close>

section \<open>Cancelling\<close>

definition not_exceeded :: "order_tables \<Rightarrow> bool" where
  "not_exceeded T \<longleftrightarrow> (\<forall>l \<in> set (lines T). sl_quantity_fulfilled l \<le> sl_quantity l)"

lemma ledger_ok_iff: "ledger_ok T \<longleftrightarrow> books (\<lambda>_. 0) T \<and> not_exceeded T"
  by (simp add: ledger_ok_def not_exceeded_def)

definition entered :: "(pk \<Rightarrow> int) \<Rightarrow> sales_line \<Rightarrow> sales_line" where
  "entered E l = l\<lparr>sl_quantity_fulfilled := sl_quantity_fulfilled l + E (ol_pk l)\<rparr>"

lemma entered_simps [simp]: "ol_pk (entered E l) = ol_pk l" "sl_quantity (entered E l) = sl_quantity l"
  "sl_quantity_fulfilled (entered E l) = sl_quantity_fulfilled l + E (ol_pk l)" "ol_order (entered E l) = ol_order l"
  by (simp_all add: entered_def)

lemma lines_entered_books:
  assumes "books D T" and "lines T' = map (entered E) (lines T)" and "fulfillments T' = fulfillments T"
    and "line_seq T' = line_seq T" "fulfillment_seq T' = fulfillment_seq T" "fulfillment_line_seq T' = fulfillment_line_seq T"
  shows "books (\<lambda>x. D x - E x) T'"
proof -
  have ok: "rows_ok T" using assms(1) by (simp add: books_def)
  note R = rows_okD [OF ok]
  have keys: "map ol_pk (lines T') = map ol_pk (lines T)" by (simp add: assms(2) comp_def)
  then have "line_keys T' = line_keys T" by (simp add: line_keys_def flip: set_map)
  then have "rows_ok T'" using R by (intro rows_okI) (simp_all add: keys assms line_pks_def comp_def)
  moreover have "held T' x = held T x" for x by (simp add: held_def assms(3))
  ultimately show ?thesis using assms(1) by (auto simp: books_def assms(2))
qed

lemma less_fulfilled_lines:
  assumes ok: "rows_ok (shop_tables st)" and f: "f \<in> set (fulfillments (shop_tables st))"
    and distinct: "distinct (map fl_order_line (f_lines f))"
  shows "bulk_update ol_pk (map less_fulfilled (List.map_filter (\<lambda>fl. map_option (\<lambda>l. (l, fl)) (line_of st fl)) (f_lines f)))
      (lines (shop_tables st))
    = map (entered (\<lambda>x. - group_sum fl_order_line fl_quantity (f_lines f) x)) (lines (shop_tables st))"
proof -
  let ?T = "shop_tables st" and ?g = "group_sum fl_order_line fl_quantity (f_lines f)"
  note R = rows_okD [OF ok]
  have line: "line_of st fl = Some l" if "l \<in> set (lines ?T)" "ol_pk l = fl_order_line fl" for l fl
    using find_row_distinct [OF R(1) that(1)] that(2) by (simp add: line_of_def)
  have found: "\<forall>fl \<in> set (f_lines f). line_of st fl \<noteq> None"
    using R(8) [OF f] line by (fastforce simp: line_keys_def)
  have upd: "(case map_of (map less_fulfilled (map (\<lambda>fl. (the (line_of st fl), fl)) (f_lines f))) (ol_pk l) of
      None \<Rightarrow> l | Some h \<Rightarrow> h l) = entered (\<lambda>x. - ?g x) l" if l: "l \<in> set (lines ?T)" for l
  proof (cases "ol_pk l \<in> fl_order_line ` set (f_lines f)")
    case True
    then obtain fl where fl: "fl \<in> set (f_lines f)" "ol_pk l = fl_order_line fl" by auto
    let ?us = "map less_fulfilled (map (\<lambda>fl. (the (line_of st fl), fl)) (f_lines f))"
    have pk: "ol_pk (the (line_of st x)) = fl_order_line x" if "x \<in> set (f_lines f)" for x
      using found that line_of_pk by force
    then have "map fst ?us = map fl_order_line (f_lines f)" by (simp add: less_fulfilled_def)
    moreover have "(ol_pk l, \<lambda>r. r\<lparr>sl_quantity_fulfilled := sl_quantity_fulfilled l - fl_quantity fl\<rparr>) \<in> set ?us"
      using fl line [OF l fl(2)] by (auto simp: less_fulfilled_def image_iff intro!: bexI [of _ fl])
    moreover have "distinct (map fst ?us)" unfolding calculation(1) by (rule distinct)
    ultimately have "map_of ?us (ol_pk l) = Some (\<lambda>r. r\<lparr>sl_quantity_fulfilled := sl_quantity_fulfilled l - fl_quantity fl\<rparr>)"
      by (intro map_of_is_SomeI)
    moreover have "?g (ol_pk l) = fl_quantity fl" using group_sum_distinct [OF distinct fl(1)] fl(2) by simp
    ultimately show ?thesis by (simp add: entered_def)
  next
    case False
    then have "map_of (map less_fulfilled (map (\<lambda>fl. (the (line_of st fl), fl)) (f_lines f))) (ol_pk l) = None"
      using found line_of_pk by (force simp: map_of_eq_None_iff less_fulfilled_def)
    with False show ?thesis by (simp add: entered_def group_sum_absent)
  qed
  show ?thesis unfolding line_of_pairs [OF found] bulk_update_def by (rule map_cong [OF refl], rule upd)
qed

lemma fulfillment_held_in: "rows_ok T \<Longrightarrow> f \<in> set (fulfillments T) \<Longrightarrow> 0 \<le> group_sum fl_order_line fl_quantity (f_lines f) x"
  unfolding group_sum_def by (rule sum_of_nonneg) (auto dest: rows_okD(7))

lemma not_exceeded_entered:
  assumes "not_exceeded T" and "lines T' = map (entered E) (lines T)" and "\<forall>x. E x \<le> 0"
  shows "not_exceeded T'"
  unfolding not_exceeded_def
proof
  fix l assume "l \<in> set (lines T')"
  with assms(2) obtain l0 where l0: "l0 \<in> set (lines T)" "l = entered E l0" by auto
  with assms(1) have "sl_quantity_fulfilled l0 \<le> sl_quantity l0" by (simp add: not_exceeded_def)
  moreover from assms(3) have "E (ol_pk l0) \<le> 0" by blast
  ultimately show "sl_quantity_fulfilled l \<le> sl_quantity l" by (simp add: l0(2))
qed

lemma ledger_same: "same_books T T' \<Longrightarrow> ledger_ok T \<Longrightarrow> ledger_ok T'"
proof -
  assume same: "same_books T T'" and ok: "ledger_ok T"
  have "not_exceeded T'" unfolding not_exceeded_def
  proof
    fix l assume "l \<in> set (lines T')"
    moreover have "map (\<lambda>l. (ol_pk l, sl_quantity l, sl_quantity_fulfilled l)) (lines T)
      = map (\<lambda>l. (ol_pk l, sl_quantity l, sl_quantity_fulfilled l)) (lines T')" using same by (simp add: same_books_def)
    ultimately obtain l0 where "l0 \<in> set (lines T)" "sl_quantity l0 = sl_quantity l"
      "sl_quantity_fulfilled l0 = sl_quantity_fulfilled l" by (auto dest!: map_eq_set)
    with ok show "sl_quantity_fulfilled l \<le> sl_quantity l" by (auto simp: ledger_ok_iff not_exceeded_def dest!: bspec [of _ _ l0])
  qed
  with books_same [OF same] ok show ?thesis by (simp add: ledger_ok_iff)
qed

lemma cancelled_books:
  \<comment> \<open>A fulfillment that is taken out of the books, as cancelled or deleted.\<close>
  assumes books: "ledger_ok T" and f: "f \<in> set (fulfillments T)" "f_status f \<noteq> CANCELED_F"
    and "lines T' = map (entered (\<lambda>x. - group_sum fl_order_line fl_quantity (f_lines f) x)) (lines T)"
    and "fulfillments T' = map g (filter P (fulfillments T))"
    and g: "\<And>f'. f' \<in> set (fulfillments T) \<Longrightarrow> f_pk f' \<noteq> f_pk f \<Longrightarrow> P f' \<and> g f' = f'"
    and gone: "P f \<Longrightarrow> g f = f\<lparr>f_status := CANCELED_F\<rparr>"
    and "line_seq T' = line_seq T" "fulfillment_seq T' = fulfillment_seq T" "fulfillment_line_seq T' = fulfillment_line_seq T"
  shows "ledger_ok T'"
proof -
  let ?g = "group_sum fl_order_line fl_quantity (f_lines f)"
  have ok: "rows_ok T" using books by (simp add: ledger_ok_iff books_def)
  note R = rows_okD [OF ok]
  have same: "f' = f" if "f' \<in> set (fulfillments T)" "f_pk f' = f_pk f" for f' using R(2) f(1) that by (auto simp: distinct_map inj_on_def)
  define T1 where "T1 = T\<lparr>lines := map (entered (\<lambda>x. - ?g x)) (lines T)\<rparr>"
  have "books (\<lambda>x. 0 - - ?g x) T1" using books by (intro lines_entered_books [of _ T]) (simp_all add: ledger_ok_iff T1_def)
  then have books1: "books ?g T1" by simp
  have out: "held_in f' x - (if P f' then held_in (g f') x else 0) = (if f_pk f' = f_pk f then ?g x else 0)"
    if f': "f' \<in> set (fulfillments T)" for f' x
  proof (cases "f_pk f' = f_pk f")
    case True
    with same [OF f'] gone f(2) show ?thesis by (simp add: held_in_def)
  qed (use g [OF f'] in simp)
  have fs: "fulfillments T' = map g (filter P (fulfillments T1))" by (simp add: T1_def assms(5))
  have "held T' x = held T1 x - ?g x" for x
    using held_filter_fulfillments [OF fs, of x] sum_of_cong [OF out [of _ x], of "fulfillments T"] held_one [OF R(2) f(1), of "\<lambda>_. ?g x"]
    by (simp add: T1_def)
  moreover have "f_pk (g f') = f_pk f' \<and> f_lines (g f') = f_lines f'" if "f' \<in> set (filter P (fulfillments T))" for f'
  proof (cases "f_pk f' = f_pk f")
    case True
    with same that gone show ?thesis by fastforce
  qed (use g that in simp)
  moreover have "fulfillments T' = map (\<lambda>f'. if P f' then g f' else f') (filter P (fulfillments T1))" unfolding fs by simp
  ultimately have "books (\<lambda>x. ?g x - ?g x) T'"
    using books1 by (intro books_fewer_fulfillments [of _ T1 _ "\<lambda>f'. if P f' then g f' else f'" P]) (auto simp: T1_def assms)
  moreover have "not_exceeded T'" using books fulfillment_held_in [OF ok f(1)]
    by (intro not_exceeded_entered [OF _ assms(4)]) (auto simp: ledger_ok_iff)
  ultimately show ?thesis by (simp add: ledger_ok_iff)
qed


lemma fulfillment_in: "fulfillment_by_key fk s = Some f \<Longrightarrow> f \<in> set (fulfillments (tables_of s)) \<and> f_pk f = fk"
  unfolding fulfillment_by_key_def find_row_def by (blast dest: find_SomeD)

lemma refreshed: "tables_of s = T \<Longrightarrow> same_books T (tables_of (refresh_order_status k s))"
  by (metis same_books_refresh)

lemma cancel_fulfillment_ledger:
  assumes run: "cancel_fulfillment fk warehouse s = Inr s'" and ok: "ledger_ok (tables_of s)"
    and f: "fulfillment_by_key fk s = Some f" "f_status f \<noteq> CANCELED_F" "distinct (map fl_order_line (f_lines f))"
    and "warehouse \<noteq> None"
  shows "ledger_ok (tables_of s')"
proof -
  from assms(6) obtain wh where wh: "warehouse = Some wh" by blast
  note in_f = fulfillment_in [OF f(1)]
  from run f(1) wh obtain st where restock: "restock_fulfillment_lines f wh (as_shop s) = Inr st"
    and refresh: "tables_of s' = tables_of (refresh_order_status (f_order f) (set_fulfillment_status fk CANCELED_F
        (log_calls [Fulfillment_Restocked_Items_Event (f_order f) fk wh]
          ((log_calls [Fulfillment_Canceled_Event (f_order f) (Some fk)] s)\<lparr>as_shop := st\<rparr>))))"
    by (auto simp: cancel_fulfillment_def Let_def log_calls_def split: sum.splits)
  have "tables_of (set_fulfillment_status fk CANCELED_F (log_calls [Fulfillment_Restocked_Items_Event (f_order f) fk wh]
      ((log_calls [Fulfillment_Canceled_Event (f_order f) (Some fk)] s)\<lparr>as_shop := st\<rparr>)))
    = tables_of (set_fulfillment_status fk CANCELED_F (s\<lparr>as_shop := st\<rparr>))" by (simp add: set_fulfillment_status_def log_calls_def)
  then have s': "same_books (tables_of (set_fulfillment_status fk CANCELED_F (s\<lparr>as_shop := st\<rparr>))) (tables_of s')"
    unfolding refresh by (metis same_books_refresh)
  have rows: "rows_ok (tables_of s)" using ok by (simp add: ledger_ok_iff books_def)
  from restock have st: "shop_tables st = (tables_of s)\<lparr>lines :=
      map (entered (\<lambda>x. - group_sum fl_order_line fl_quantity (f_lines f) x)) (lines (tables_of s))\<rparr>"
    using less_fulfilled_lines [of "as_shop s" f] rows in_f f(3)
    by (auto simp: restock_fulfillment_lines_def Let_def split: sum.splits)
  have "ledger_ok (tables_of (set_fulfillment_status fk CANCELED_F (s\<lparr>as_shop := st\<rparr>)))"
    using in_f by (intro cancelled_books [OF ok _ f(2), where P = "\<lambda>_. True"
        and g = "\<lambda>f. if f_pk f = fk then f\<lparr>f_status := CANCELED_F\<rparr> else f"])
      (auto simp: set_fulfillment_status_def st)
  with ledger_same [OF s'] show ?thesis .
qed

lemma cancel_waiting_ledger:
  assumes run: "cancel_waiting_fulfillment fk s = Inr s'" and ok: "ledger_ok (tables_of s)"
    and f: "fulfillment_by_key fk s = Some f" "f_status f \<noteq> CANCELED_F" "distinct (map fl_order_line (f_lines f))"
  shows "ledger_ok (tables_of s')"
proof -
  note in_f = fulfillment_in [OF f(1)]
  define s1 where "s1 = with_tables (\<lambda>T. T\<lparr>lines := bulk_update ol_pk (map less_fulfilled (fulfillment_pairs s f)) (lines T),
      fulfillments := filter (\<lambda>x. f_pk x \<noteq> fk) (fulfillments T)\<rparr>) (log_calls [Fulfillment_Canceled_Event (f_order f) None] s)"
  from run f(1) have s': "same_books (tables_of s1) (tables_of s')"
    by (auto simp: cancel_waiting_fulfillment_def Let_def s1_def intro!: refreshed)
  have rows: "rows_ok (tables_of s)" using ok by (simp add: ledger_ok_iff books_def)
  have lines: "lines (tables_of s1) = map (entered (\<lambda>x. - group_sum fl_order_line fl_quantity (f_lines f) x)) (lines (tables_of s))"
    using less_fulfilled_lines [of "as_shop s" f] rows in_f f(3) by (simp add: s1_def fulfillment_pairs_def)
  have "ledger_ok (tables_of s1)"
    using in_f by (intro cancelled_books [OF ok _ f(2) lines, where P = "\<lambda>x. f_pk x \<noteq> fk" and g = "\<lambda>f. f"])
      (auto simp: s1_def)
  with ledger_same [OF s'] show ?thesis .
qed

definition separate_lines :: "pk \<Rightarrow> action_state \<Rightarrow> bool" where
  \<comment> \<open>No two lines of the fulfillment are of one order line.\<close>
  "separate_lines fk s = (case fulfillment_by_key fk s of None \<Rightarrow> True | Some f \<Rightarrow> distinct (map fl_order_line (f_lines f)))"

lemma fulfillment_cancel_ledger:
  assumes "fulfillment_cancel fk warehouse s = (r, s')" and "ledger_ok (tables_of s)" and "separate_lines fk s"
  shows "ledger_ok (tables_of s')"
  using assms cancel_fulfillment_ledger [of fk warehouse s] cancel_waiting_ledger [of fk s]
  by (auto simp: fulfillment_cancel_def separate_lines_def split: option.splits if_splits sum.splits)

section \<open>Approving and cancelling the order\<close>

lemma status_ledger:
  \<comment> \<open>A fulfillment that is not cancelled changes to a status that is not cancelled.\<close>
  assumes "ledger_ok (tables_of s)" and "fulfillment_by_key fk s = Some f" "f_status f \<noteq> CANCELED_F" and "st \<noteq> CANCELED_F"
  shows "ledger_ok (tables_of (set_fulfillment_status fk st s))"
proof -
  let ?T = "tables_of s" and ?T' = "tables_of (set_fulfillment_status fk st s)"
  let ?g = "\<lambda>f. if f_pk f = fk then f\<lparr>f_status := st\<rparr> else f"
  have books: "books (\<lambda>_. 0) ?T" using assms(1) by (simp add: ledger_ok_iff)
  then have R: "distinct (map f_pk (fulfillments ?T))" by (simp add: books_def rows_ok_def)
  have fs: "fulfillments ?T' = map ?g (filter (\<lambda>_. True) (fulfillments ?T))" by (simp add: set_fulfillment_status_def)
  have "held_in f' x - (if True then held_in (?g f') x else 0) = 0" if "f' \<in> set (fulfillments ?T)" for f' x
  proof (cases "f_pk f' = fk")
    case True
    with fulfillment_in [OF assms(2)] R that have "f' = f" by (auto simp: distinct_map inj_on_def)
    with assms(3,4) show ?thesis by (simp add: held_in_def)
  qed simp
  then have "held ?T' x = held ?T x - (\<lambda>_. 0) x" for x
    unfolding held_filter_fulfillments [OF fs, of x] by (subst sum_of_zero) simp_all
  from books_fewer_fulfillments [OF books fs _ _ _ _ _ this] have "books (\<lambda>_. 0) ?T'"
    by (simp add: set_fulfillment_status_def)
  with assms(1) show ?thesis by (simp add: ledger_ok_iff not_exceeded_def set_fulfillment_status_def)
qed

lemma decrease_stocks_tables: "decrease_stocks e is a s = Inr s' \<Longrightarrow> tables_of s' = tables_of s"
  by (auto simp: decrease_stocks_def Let_def split: if_splits sum.splits)

lemma fulfillment_approve_ledger:
  assumes run: "fulfillment_approve e site fk a n s = (r, s')" and ok: "ledger_ok (tables_of s)"
  shows "ledger_ok (tables_of s')"
proof (cases "s' = s")
  case False
  with run obtain f where f: "fulfillment_by_key fk s = Some f" "f_status f = WAITING_FOR_APPROVAL"
    and approve: "approve_fulfillment e fk n a s = Inr s'"
    by (auto simp: fulfillment_approve_def split: option.splits if_splits sum.splits)
  from approve f(1) have "same_books (tables_of (set_fulfillment_status fk FULFILLED_F s)) (tables_of s')"
    by (auto simp: approve_fulfillment_def Let_def dest!: decrease_stocks_tables split: if_splits sum.splits intro!: refreshed)
  with ledger_same status_ledger [OF ok f(1)] f(2) show ?thesis by simp
qed (use ok in simp)

lemma order_cancel_ledger:
  assumes "order_cancel e k s = (r, s')" and "ledger_ok (tables_of s)"
  shows "ledger_ok (tables_of s')"
proof -
  have "same_books (tables_of s) (tables_of (cancel_order e k s))"
    by (simp add: cancel_order_def Let_def) (rule same_books_trans [OF _ same_books_status], simp)
  with assms ledger_same show ?thesis by (auto simp: order_cancel_def split: option.splits if_splits)
qed

section \<open>Fulfilling from warehouses\<close>

definition wanted :: "(sales_line \<times> int) list \<Rightarrow> (sales_line \<times> int) list" where
  "wanted ld = filter (\<lambda>(l, q). 0 < q) ld"

definition demand_of :: "(sales_line \<times> int) list \<Rightarrow> pk \<Rightarrow> int" where
  "demand_of ld = group_sum (\<lambda>(l, q). ol_pk l) snd (wanted ld)"

definition knows :: "fulfilled_memory \<Rightarrow> order_tables \<Rightarrow> bool" where
  "knows ful T \<longleftrightarrow> (\<forall>l \<in> set (lines T). ful (ol_pk l) = sl_quantity_fulfilled l)"

lemma knows_read: "rows_ok (tables_of s) \<Longrightarrow> knows (read_fulfilled s) (tables_of s)"
  by (simp add: knows_def read_fulfilled_def find_row_distinct rows_okD(1))

lemma add_fulfilled_eq: "add_fulfilled is ful = (\<lambda>k. ful k + asked is k)"
  unfolding add_fulfilled_def by (induction "is" arbitrary: ful) auto

lemma create_digital_urls_shop: "create_digital_urls ks s = Inr s' \<Longrightarrow> as_shop s' = as_shop s"
  by (induction ks arbitrary: s) (auto split: if_splits)

lemma entered_zero [simp]: "entered (\<lambda>_. 0) = (\<lambda>l. l)"
  by (simp add: entered_def fun_eq_iff)

lemma increase_lines:
  assumes "increase_order_line_quantity is ful s = (ful', s')" and "knows ful (tables_of s)"
  shows "lines (tables_of s') = map (entered (asked is)) (lines (tables_of s))"
    "fulfillments (tables_of s') = fulfillments (tables_of s)" "line_seq (tables_of s') = line_seq (tables_of s)"
    "fulfillment_seq (tables_of s') = fulfillment_seq (tables_of s)"
    "fulfillment_line_seq (tables_of s') = fulfillment_line_seq (tables_of s)" "knows ful' (tables_of s')"
proof -
  from assms(1) have ful': "ful' = (\<lambda>k. ful k + asked is k)" and s': "s' = save_fulfilled (map line_key is) ful' s"
    by (auto simp: increase_order_line_quantity_def Let_def add_fulfilled_eq)
  have "(if ol_pk l \<in> set (map line_key is) then l\<lparr>sl_quantity_fulfilled := ful' (ol_pk l)\<rparr> else l) = entered (asked is) l"
    if "l \<in> set (lines (tables_of s))" for l
    using assms(2) that by (simp add: knows_def ful' entered_def group_sum_absent)
  then show lines: "lines (tables_of s') = map (entered (asked is)) (lines (tables_of s))"
    unfolding s' lines_save_fulfilled by (rule map_cong [OF refl])
  show "knows ful' (tables_of s')" using assms(2) by (simp add: knows_def lines ful')
qed (use assms(1) in \<open>auto simp: increase_order_line_quantity_def Let_def\<close>)

lemma create_fulfillment_lines_Inr:
  assumes run: "create_fulfillment_lines e fk wh ld channel_slug dec allow ful s = Inr (ns, gs, ful', s')"
    and ful: "knows ful (tables_of s)"
  shows "map (\<lambda>n. (nl_fulfillment n, nl_order_line n, nl_quantity n)) ns = map (\<lambda>(l, q). (fk, ol_pk l, q)) (wanted ld)"
    "lines (tables_of s') = map (entered (demand_of ld)) (lines (tables_of s))"
    "fulfillments (tables_of s') = fulfillments (tables_of s)" "line_seq (tables_of s') = line_seq (tables_of s)"
    "fulfillment_seq (tables_of s') = fulfillment_seq (tables_of s)"
    "fulfillment_line_seq (tables_of s') = fulfillment_line_seq (tables_of s)" "knows ful' (tables_of s')"
proof -
  define stock where "stock = stock_of_line (db_of s) channel_slug wh ld"
  define kept where "kept = (if allow then wanted ld else filter (\<lambda>(l, q). stock l \<noteq> None) (wanted ld))"
  define infos where "infos = map (\<lambda>(l, q). \<lparr>al_line = l, al_quantity = q, al_variant = line_variant (db_of s) l,
      al_warehouse_pk = Some wh, al_replace = False\<rparr>) kept"
  from run [unfolded create_fulfillment_lines_def Let_def, folded wanted_def stock_def, folded kept_def, folded infos_def]
  obtain s1 where urls: "create_digital_urls (map (\<lambda>(l, q). ol_pk l) (filter (\<lambda>(l, q). line_is_digital s l) kept)) s = Inr s1"
    and all: "allow \<or> filter (\<lambda>(l, q). stock l = None) (wanted ld) = []"
    and ns: "ns = map (\<lambda>(l, q). \<lparr>nl_fulfillment = fk, nl_order_line = ol_pk l, nl_quantity = q,
             nl_stock = map_option s_pk (stock l)\<rparr>) kept"
    and rest: "(infos = [] \<and> ful' = ful \<and> s' = s1) \<or> (\<exists>s2. tables_of s2 = tables_of s1 \<and> increase_order_line_quantity infos ful s2 = (ful', s'))"
    by (auto split: sum.splits if_splits prod.splits dest: decrease_stocks_tables)
  have kept: "kept = wanted ld" using all by (auto simp: kept_def filter_empty_conv case_prod_unfold)
  show "map (\<lambda>n. (nl_fulfillment n, nl_order_line n, nl_quantity n)) ns = map (\<lambda>(l, q). (fk, ol_pk l, q)) (wanted ld)"
    by (simp add: ns kept case_prod_unfold)
  have asked: "asked infos = demand_of ld"
  proof
    fix x have "asked (map (\<lambda>(l, q). \<lparr>al_line = l, al_quantity = q, al_variant = line_variant (db_of s) l,
        al_warehouse_pk = Some wh, al_replace = False\<rparr>) ps) x = group_sum (\<lambda>(l, q). ol_pk l) snd ps x" for ps
      by (induction ps) (simp_all add: line_key_def case_prod_unfold)
    then show "asked infos x = demand_of ld x" by (simp add: infos_def demand_of_def kept)
  qed
  have s1: "tables_of s1 = tables_of s" using create_digital_urls_shop [OF urls] by simp
  from rest have "lines (tables_of s') = map (entered (demand_of ld)) (lines (tables_of s)) \<and>
    fulfillments (tables_of s') = fulfillments (tables_of s) \<and> line_seq (tables_of s') = line_seq (tables_of s) \<and>
    fulfillment_seq (tables_of s') = fulfillment_seq (tables_of s) \<and>
    fulfillment_line_seq (tables_of s') = fulfillment_line_seq (tables_of s) \<and> knows ful' (tables_of s')"
  proof
    assume none: "infos = [] \<and> ful' = ful \<and> s' = s1"
    then have "wanted ld = []" by (simp add: infos_def kept)
    then have "demand_of ld = (\<lambda>_. 0)" by (simp add: demand_of_def fun_eq_iff)
    with none s1 ful show ?thesis by simp
  next
    assume "\<exists>s2. tables_of s2 = tables_of s1 \<and> increase_order_line_quantity infos ful s2 = (ful', s')"
    then obtain s2 where s2: "tables_of s2 = tables_of s" "increase_order_line_quantity infos ful s2 = (ful', s')" using s1 by auto
    from increase_lines [OF s2(2)] ful show ?thesis by (simp add: s2(1) asked)
  qed
  then show "lines (tables_of s') = map (entered (demand_of ld)) (lines (tables_of s))"
    "fulfillments (tables_of s') = fulfillments (tables_of s)" "line_seq (tables_of s') = line_seq (tables_of s)"
    "fulfillment_seq (tables_of s') = fulfillment_seq (tables_of s)"
    "fulfillment_line_seq (tables_of s') = fulfillment_line_seq (tables_of s)" "knows ful' (tables_of s')" by simp_all
qed

definition group_demand :: "(pk \<times> (sales_line \<times> int) list) list \<Rightarrow> pk \<Rightarrow> int" where
  "group_demand groups x = sum_of (\<lambda>(wh, ld). demand_of ld x) groups"

abbreviation entries :: "new_line list \<Rightarrow> pk \<Rightarrow> int" where
  "entries ns \<equiv> group_sum nl_order_line nl_quantity ns"

lemma entries_view: "map (\<lambda>n. (nl_fulfillment n, nl_order_line n, nl_quantity n)) ns = map (\<lambda>(l, q). (fk, ol_pk l, q)) ps \<Longrightarrow>
    entries ns x = group_sum (\<lambda>(l, q). ol_pk l) snd ps x \<and> (\<forall>n \<in> set ns. nl_fulfillment n = fk \<and> nl_order_line n \<in> (\<lambda>(l, q). ol_pk l) ` set ps)"
proof (induction ps arbitrary: ns)
  case (Cons p ps)
  from Cons.prems obtain n ns' where ns: "ns = n # ns'" by (cases ns) auto
  with Cons show ?case by (cases p) auto
qed simp

lemma entered_entered: "map (entered E) (map (entered F) ls) = map (entered (\<lambda>x. F x + E x)) ls"
  by (simp add: entered_def comp_def)

lemma new_fulfillment_keeps:
  assumes "new_fulfillment k st tracking a b s = (fk, s')"
  shows "lines (tables_of s') = lines (tables_of s)" "line_seq (tables_of s') = line_seq (tables_of s)"
    "filed (tables_of s) x \<Longrightarrow> filed (tables_of s') x" "st \<noteq> CANCELED_F \<Longrightarrow> filed (tables_of s') fk"
    "filed_row (tables_of s) r \<Longrightarrow> filed_row (tables_of s') r" "fulfillment_line_seq (tables_of s') = fulfillment_line_seq (tables_of s)"
  using new_fulfillment_facts [OF assms] by (auto simp: filed_def filed_row_def fulfillment_object_def)

lemma filed_same: "fulfillments T' = fulfillments T \<Longrightarrow> filed T' = filed T"
  by (simp add: filed_def fun_eq_iff)

lemma fulfill_loop:
  assumes "fulfill_from_warehouses e k channel_slug groups approved allow tracking ful s = Inr (fks, ns, gs, s')"
    and "books D (tables_of s)" and "knows ful (tables_of s)"
    and "\<forall>(wh, ld) \<in> set groups. \<forall>(l, q) \<in> set ld. ol_pk l \<in> line_keys (tables_of s)"
  shows "books (\<lambda>x. D x - group_demand groups x) (tables_of s') \<and> entries ns = group_demand groups
    \<and> lines (tables_of s') = map (entered (group_demand groups)) (lines (tables_of s))
    \<and> (\<forall>n \<in> set ns. filed (tables_of s') (nl_fulfillment n) \<and> nl_order_line n \<in> line_keys (tables_of s'))
    \<and> (\<forall>x. filed (tables_of s) x \<longrightarrow> filed (tables_of s') x)"
  using assms
proof (induction groups arbitrary: ful s D fks ns gs s')
  case Nil
  then show ?case by (simp add: group_demand_def fun_eq_iff)
next
  case (Cons g groups)
  obtain wh ld where g: "g = (wh, ld)" by fastforce
  obtain fk s1 where new: "new_fulfillment k (if approved then FULFILLED_F else WAITING_FOR_APPROVAL) tracking None None s = (fk, s1)"
    by fastforce
  from Cons.prems(1) obtain ns1 gs1 ful1 s2 ns2 gs2 fks2 where
      make: "create_fulfillment_lines e fk wh ld channel_slug approved allow ful s1 = Inr (ns1, gs1, ful1, s2)"
    and ns: "ns = ns1 @ ns2"
    and rest: "fulfill_from_warehouses e k channel_slug groups approved allow tracking ful1
        (if tracking \<noteq> [] then log_calls [Tracking_Number_Updated fk] s2 else s2) = Inr (fks2, ns2, gs2, s')"
    unfolding g by (simp add: new Let_def split: sum.splits prod.splits) blast
  define s2' where "s2' = (if tracking \<noteq> [] then log_calls [Tracking_Number_Updated fk] s2 else s2)"
  have s2': "tables_of s2' = tables_of s2" by (simp add: s2'_def)
  note rest = rest [folded s2'_def]
  note N = new_fulfillment_books(1) [OF new Cons.prems(2)] and K = new_fulfillment_keeps [OF new]
  have knows: "knows ful (tables_of s1)" using Cons.prems(3) by (simp add: knows_def K(1))
  note M = create_fulfillment_lines_Inr [OF make knows]
  have books2: "books (\<lambda>x. D x - demand_of ld x) (tables_of s2')"
    unfolding s2' by (rule lines_entered_books [OF N]) (simp_all add: M)
  have keys: "line_keys (tables_of s2') = line_keys (tables_of s)"
    by (simp add: s2' line_keys_def M(2) K(1) image_image)
  have "\<forall>(wh, ld) \<in> set groups. \<forall>(l, q) \<in> set ld. ol_pk l \<in> line_keys (tables_of s2')" using Cons.prems(4) by (simp add: keys)
  from Cons.IH [OF rest books2 _ this] M(7)
  have IH: "books (\<lambda>x. D x - demand_of ld x - group_demand groups x) (tables_of s')" "entries ns2 = group_demand groups"
    "lines (tables_of s') = map (entered (group_demand groups)) (lines (tables_of s2'))"
    "\<forall>n \<in> set ns2. filed (tables_of s') (nl_fulfillment n) \<and> nl_order_line n \<in> line_keys (tables_of s')"
    "\<forall>x. filed (tables_of s2') x \<longrightarrow> filed (tables_of s') x" by (simp_all add: s2')
  have demand_of: "group_demand (g # groups) = (\<lambda>x. demand_of ld x + group_demand groups x)" by (simp add: g group_demand_def fun_eq_iff)
  have lines: "lines (tables_of s') = map (entered (group_demand (g # groups))) (lines (tables_of s))"
    by (simp only: IH(3) s2' M(2) K(1) entered_entered demand_of)
  have e: "entries ns1 x = demand_of ld x" "\<forall>n \<in> set ns1. nl_fulfillment n = fk \<and> nl_order_line n \<in> (\<lambda>(l, q). ol_pk l) ` set (wanted ld)" for x
    using entries_view [OF M(1)] by (simp_all add: demand_of_def)
  have "filed (tables_of s2') fk" using K(4) by (auto simp: s2' filed_same [OF M(3)] split: if_splits)
  moreover have "(\<lambda>(l, q). ol_pk l) ` set (wanted ld) \<subseteq> line_keys (tables_of s')"
    using Cons.prems(4) by (auto simp: g wanted_def lines line_keys_def image_image)
  ultimately have "\<forall>n \<in> set ns. filed (tables_of s') (nl_fulfillment n) \<and> nl_order_line n \<in> line_keys (tables_of s')"
    using IH(4,5) e(2) by (auto simp: ns)
  moreover have "\<forall>x. filed (tables_of s) x \<longrightarrow> filed (tables_of s') x" using K(3) IH(5) by (auto simp: s2' filed_same [OF M(3)])
  moreover have "entries ns = group_demand (g # groups)" by (simp add: demand_of ns fun_eq_iff e(1) IH(2))
  moreover have "books (\<lambda>x. D x - group_demand (g # groups) x) (tables_of s')" using IH(1) by (simp add: demand_of algebra_simps)
  ultimately show ?case using lines by blast
qed

lemma order_fulfilled_same:
  assumes "order_fulfilled k fks fls gs notify s = Inr s'"
  shows "same_books (tables_of s) (tables_of s')"
  using assms by (auto simp: order_fulfilled_def Let_def split: if_splits)

lemma create_fulfillments_ledger:
  assumes run: "create_fulfillments e o1 groups notify approved allow tracking s = (r, s')"
    and ok: "ledger_ok (tables_of s)"
    and ls: "\<forall>(wh, ld) \<in> set groups. \<forall>(l, q) \<in> set ld. ol_pk l \<in> line_keys (tables_of s)"
    and demand_of: "\<forall>l \<in> set (lines (tables_of s)). group_demand groups (ol_pk l) \<le> quantity_unfulfilled l"
  shows "ledger_ok (tables_of s')"
proof (cases "s' = s")
  case False
  with run obtain fks ns gs s1 fls s2 where
      loop: "fulfill_from_warehouses e (o_id o1) (so_channel_slug o1) groups approved allow tracking (read_fulfilled s) s
        = Inr (fks, ns, gs, s1)"
    and create: "create_lines ns s1 = Inr (fls, s2)"
    and same: "same_books (tables_of s2) (tables_of s')"
    by (auto simp: create_fulfillments_def Let_def order_awaits_fulfillment_approval_def
        split: sum.splits prod.splits if_splits intro: order_fulfilled_same)
  have books: "books (\<lambda>_. 0) (tables_of s)" using ok by (simp add: ledger_ok_iff)
  then have "knows (read_fulfilled s) (tables_of s)" by (simp add: knows_read books_def)
  note L = fulfill_loop [OF loop books this ls]
  have "books (\<lambda>x. 0 - group_demand groups x + entries ns x) (tables_of s2)"
    using L by (intro create_lines_books(1) [OF create]) blast+
  moreover have "entries ns = group_demand groups" using L by blast
  ultimately have "books (\<lambda>_. 0) (tables_of s2)" by simp
  moreover have "not_exceeded (tables_of s2)"
    using L demand_of created_view(2) [OF create] by (auto simp: not_exceeded_def quantity_unfulfilled_def)
  ultimately show ?thesis using ledger_same [OF same] by (simp add: ledger_ok_iff)
qed (use ok in simp)

section \<open>The mutation that fulfills\<close>

lemma get_nodes_Inr:
  assumes "get_nodes key ks rows = Inr nodes"
  shows "set nodes \<subseteq> set rows" "distinct (map key rows) \<Longrightarrow> distinct (map key nodes)"
proof -
  let ?sort = "sort_key (\<lambda>r. the (index_of (key r) ks)) (filter (\<lambda>r. key r \<in> set ks) rows)"
  from assms have nodes: "nodes = ?sort" by (auto simp: get_nodes_def Let_def split: if_splits)
  then show "set nodes \<subseteq> set rows" by auto
  assume "distinct (map key rows)"
  then have "distinct (map key (filter (\<lambda>r. key r \<in> set ks) rows))" by (simp add: distinct_map_filter)
  moreover have "mset (map key nodes) = mset (map key (filter (\<lambda>r. key r \<in> set ks) rows))" by (simp add: nodes)
  ultimately show "distinct (map key nodes)" using mset_eq_imp_distinct_iff by blast
qed

lemma group_demand_add: "group_demand (add_to_group wh (l, q) gs) x = group_demand gs x + (if ol_pk l = x \<and> 0 < q then q else 0)"
proof -
  show ?thesis unfolding group_demand_def by (induction gs) (auto simp: demand_of_def wanted_def)
qed

lemma lines_of_group: "set (concat (map snd (add_to_group wh v gs))) = insert v (set (concat (map snd gs)))"
proof (induction gs)
  case (Cons g gs)
  obtain wh' ld where g: "g = (wh', ld)" by fastforce
  have "set (concat (map snd (add_to_group wh v (g # gs))))
      = (if wh' = wh then set ld \<union> {v} \<union> set (concat (map snd gs)) else set ld \<union> set (concat (map snd (add_to_group wh v gs))))"
    by (simp add: g)
  then show ?case unfolding Cons.IH by (auto simp: g)
qed simp

lemma lines_for_warehouses_fold:
  "group_demand (fold (\<lambda>(l, wh, q) groups. if 0 < q then add_to_group wh (l, q) groups else groups) xs gs) x
    = group_demand gs x + sum_of (\<lambda>(l, wh, q). if ol_pk l = x \<and> 0 < q then q else 0) xs"
  by (induction xs arbitrary: gs) (auto simp: group_demand_add)

lemma lines_for_warehouses_lines:
  "fst ` set (concat (map snd (fold (\<lambda>(l, wh, q) groups. if 0 < q then add_to_group wh (l, q) groups else groups) xs gs)))
    \<subseteq> fst ` set xs \<union> fst ` set (concat (map snd gs))"
proof (induction xs arbitrary: gs)
  case (Cons y xs)
  obtain l wh q where y: "y = (l, wh, q)" by (cases y) auto
  show ?case
  proof (cases "0 < q")
    case True
    with Cons.IH [of "add_to_group wh (l, q) gs"] show ?thesis unfolding lines_of_group by (auto simp: y)
  next
    case False
    with Cons.IH [of gs] show ?thesis by (auto simp: y)
  qed
qed simp

lemma input_demand:
  assumes "\<forall>(inp, l) \<in> set ps. \<forall>(wh, q) \<in> set (fi_stocks inp). 0 \<le> q" and "distinct (map (\<lambda>(inp, l). ol_pk l) ps)"
  shows "group_demand (lines_for_warehouses ps) x
    = (case find (\<lambda>(inp, l). ol_pk l = x) ps of None \<Rightarrow> 0 | Some (inp, l) \<Rightarrow> sum_list (map snd (fi_stocks inp)))"
proof -
  have one: "sum_of (\<lambda>(l, wh, q). if ol_pk l = x \<and> 0 < q then q else 0) (map (Pair l) ss)
      = (if ol_pk l = x then sum_list (map snd ss) else 0)" if "\<forall>(wh, q) \<in> set ss. 0 \<le> q" for l and ss :: "(pk \<times> int) list"
    using that by (induction ss) auto
  have none: "sum_of (\<lambda>(l, wh, q). if ol_pk l = x \<and> 0 < q then q else 0) (concat (map (\<lambda>(inp, l). map (Pair l) (fi_stocks inp)) qs)) = 0"
    if "\<forall>(inp, l) \<in> set qs. ol_pk l \<noteq> x" for qs
    using that by (intro sum_of_zero) auto
  have "sum_of (\<lambda>(l, wh, q). if ol_pk l = x \<and> 0 < q then q else 0) (concat (map (\<lambda>(inp, l). map (Pair l) (fi_stocks inp)) ps))
    = (case find (\<lambda>(inp, l). ol_pk l = x) ps of None \<Rightarrow> 0 | Some (inp, l) \<Rightarrow> sum_list (map snd (fi_stocks inp)))"
    using assms
  proof (induction ps)
    case (Cons p ps)
    obtain inp l where p: "p = (inp, l)" by fastforce
    have "\<forall>(inp, l) \<in> set ps. ol_pk l \<noteq> x" if "ol_pk l = x" using Cons.prems(2) that by (force simp: p)
    with Cons none [of ps] one [of "fi_stocks inp" l] show ?case by (auto simp: p)
  qed simp
  then show ?thesis unfolding lines_for_warehouses_def lines_for_warehouses_fold by (simp add: group_demand_def)
qed

definition fulfill_input_ok :: "fulfill_line_input list \<Rightarrow> bool" where
  \<comment> \<open>The schema does not exclude negative quantities.\<close>
  "fulfill_input_ok inputs \<longleftrightarrow> (\<forall>inp \<in> set inputs. \<forall>(wh, q) \<in> set (fi_stocks inp). 0 \<le> q)"

lemma order_fulfill_ledger:
  assumes run: "order_fulfill e site k inputs notify allow tracking s = (r, s')"
    and ok: "ledger_ok (tables_of s)" and inputs: "fulfill_input_ok inputs"
  shows "ledger_ok (tables_of s')"
proof (cases "s' = s")
  case False
  from run False obtain o1 groups r' where clean: "fulfill_clean_input e site o1 inputs s = Inr groups"
    and create: "create_fulfillments e o1 groups notify (fulfillment_auto_approve site) allow tracking s = (r', s')"
    by (auto simp: order_fulfill_def split: option.splits sum.splits prod.splits)
  from clean obtain nodes where nodes: "get_nodes ol_pk (map fi_order_line_id inputs) (lines (tables_of s)) = Inr nodes"
    and checked: "fulfill_clean_lines nodes (map (\<lambda>i. map snd (fi_stocks i)) inputs)"
    and groups: "groups = lines_for_warehouses (zip inputs nodes)"
    by (auto simp: fulfill_clean_input_def Let_def split: if_splits sum.splits)
  have rows: "rows_ok (tables_of s)" using ok by (simp add: ledger_ok_iff books_def)
  note N = get_nodes_Inr [OF nodes]
  have take: "take (min n (length xs)) xs = take n xs" for n and xs :: "'x list" by (simp add: min_def)
  have snds: "map (\<lambda>(inp, l). ol_pk l) (zip inputs nodes) = take (length inputs) (map ol_pk nodes)"
    by (simp add: case_prod_unfold map_snd_zip_take take_map take flip: map_map [of ol_pk snd, unfolded comp_def])
  have distinct: "distinct (map (\<lambda>(inp, l). ol_pk l) (zip inputs nodes))"
    unfolding snds using N(2) rows_okD(1) [OF rows] by (simp add: distinct_take)
  have nonneg: "\<forall>(inp, l) \<in> set (zip inputs nodes). \<forall>(wh, q) \<in> set (fi_stocks inp). 0 \<le> q"
    using inputs by (auto simp: fulfill_input_ok_def dest!: set_zip_leftD)
  have "ol_pk l \<in> line_keys (tables_of s)" if "(wh, ld) \<in> set groups" "(l, q) \<in> set ld" for wh ld l q
  proof -
    from that have "l \<in> fst ` set (concat (map snd groups))" by force
    then have "l \<in> fst ` set (concat (map (\<lambda>(inp, l). map (Pair l) (fi_stocks inp)) (zip inputs nodes)))"
      using lines_for_warehouses_lines [of "concat (map (\<lambda>(inp, l). map (Pair l) (fi_stocks inp)) (zip inputs nodes))" "[]"]
      unfolding groups lines_for_warehouses_def list.map concat.simps list.set image_empty Un_empty_right by (rule subsetD [rotated])
    then have "l \<in> set nodes" by (auto dest: set_zip_rightD)
    with N(1) show ?thesis by (auto simp: line_keys_def)
  qed
  moreover have "group_demand groups (ol_pk l) \<le> quantity_unfulfilled l" if l: "l \<in> set (lines (tables_of s))" for l
  proof (cases "find (\<lambda>(inp, l'). ol_pk l' = ol_pk l) (zip inputs nodes)")
    case None
    have "sl_quantity_fulfilled l \<le> sl_quantity l" using ok l by (simp add: ledger_ok_def)
    with None show ?thesis unfolding groups input_demand [OF nonneg distinct] by (simp add: quantity_unfulfilled_def)
  next
    case (Some p)
    obtain inp l' where p: "p = (inp, l')" by fastforce
    from find_SomeD [OF Some] have at: "(inp, l') \<in> set (zip inputs nodes)" "ol_pk l' = ol_pk l" by (auto simp: p)
    with N(1) l rows_okD(1) [OF rows] have "l' = l" by (auto simp: distinct_map inj_on_def dest!: set_zip_rightD)
    moreover have "(l', map snd (fi_stocks inp)) \<in> set (zip nodes (map (\<lambda>i. map snd (fi_stocks i)) inputs))"
      using at(1) by (auto simp: in_set_zip)
    with checked have "sum_list (map snd (fi_stocks inp)) \<le> quantity_unfulfilled l'"
      by (auto simp: fulfill_clean_lines_def list_all_iff)
    ultimately show ?thesis unfolding groups input_demand [OF nonneg distinct] by (simp add: Some p)
  qed
  ultimately show ?thesis by (intro create_fulfillments_ledger [OF create ok]) auto
qed (use ok in simp)

section \<open>The mutation that refunds\<close>

definition quantities_ok :: "return_line_input list \<Rightarrow> bool" where
  \<comment> \<open>The schema does not exclude negative quantities.\<close>
  "quantities_ok inputs \<longleftrightarrow> (\<forall>inp \<in> set inputs. 0 \<le> ri_quantity inp)"

lemma clean_line_pairs_Inr:
  "clean_line_pairs d ps = Inr is \<Longrightarrow> map al_line is = map fst ps \<and>
    (\<forall>i \<in> set is. \<exists>(l, inp) \<in> set ps. al_line i = l \<and> al_quantity i = ri_quantity inp \<and> ri_quantity inp \<le> quantity_unfulfilled l)"
  by (induction d ps arbitrary: "is" rule: clean_line_pairs.induct) (fastforce split: if_splits sum.splits)+

lemma clean_fulfillment_line_pairs_Inr:
  "clean_fulfillment_line_pairs s ss ps = Inr ms \<Longrightarrow> map ml_line ms = map (\<lambda>p. snd (fst p)) ps \<and>
    (\<forall>m \<in> set ms. \<exists>((f, fl), inp) \<in> set ps. ml_line m = fl \<and> ml_quantity m = ri_quantity inp \<and> f_status f \<in> ss)"
  by (induction s ss ps arbitrary: ms rule: clean_fulfillment_line_pairs.induct)
    (fastforce split: if_splits sum.splits option.splits)+

lemma distinct_zip_fst: "distinct (map key xs) \<Longrightarrow> distinct (map (\<lambda>p. key (fst p)) (zip xs ys))"
proof -
  assume "distinct (map key xs)"
  moreover have "map (\<lambda>p. key (fst p)) (zip xs ys) = take (length ys) (map key xs)"
    by (induction xs arbitrary: ys) (auto simp: zip_Cons1 split: list.split)
  ultimately show ?thesis by (metis distinct_take)
qed

lemma clean_lines_valid:
  assumes "clean_lines inputs s = Inr is" and "rows_ok (tables_of s)" and "quantities_ok inputs"
  shows "valid_lines is (tables_of s)"
proof (cases "inputs = []")
  case False
  with assms(1) obtain nodes where nodes: "get_nodes ol_pk (map ri_line_id inputs) (lines (tables_of s)) = Inr nodes"
    and clean: "clean_line_pairs (db_of s) (zip nodes inputs) = Inr is" by (auto simp: clean_lines_def split: sum.splits)
  note N = get_nodes_Inr [OF nodes] and C = clean_line_pairs_Inr [OF clean]
  have "map line_key is = map (\<lambda>p. ol_pk (fst p)) (zip nodes inputs)"
    using C by (simp add: line_key_def [abs_def] flip: map_map [of ol_pk al_line, unfolded comp_def] map_map [of ol_pk fst, unfolded comp_def])
  then have "distinct (map line_key is)" using distinct_zip_fst N(2) rows_okD(1) [OF assms(2)] by metis
  with C N(1) assms(3) show ?thesis by (fastforce simp: valid_lines_def quantities_ok_def dest: set_zip_leftD set_zip_rightD)
qed (use assms(1) in \<open>simp add: clean_lines_def valid_lines_def\<close>)

lemma clean_fulfillment_lines_valid:
  assumes "clean_fulfillment_lines ss inputs s = Inr ms" and "rows_ok (tables_of s)" and "quantities_ok inputs" and "CANCELED_F \<notin> ss"
  shows "valid_moves ms (tables_of s)"
proof (cases "inputs = []")
  case False
  let ?key = "\<lambda>(f :: fulfillment, fl). fl_pk fl"
  from False assms(1) obtain nodes where
      nodes: "get_nodes ?key (map ri_line_id inputs) (all_fulfillment_lines (tables_of s)) = Inr nodes"
    and clean: "clean_fulfillment_line_pairs s ss (zip nodes inputs) = Inr ms" by (auto simp: clean_fulfillment_lines_def split: sum.splits)
  note N = get_nodes_Inr [OF nodes] and C = clean_fulfillment_line_pairs_Inr [OF clean]
  have "map (\<lambda>m. fl_pk (ml_line m)) ms = map fl_pk (map ml_line ms)" by simp
  also have "\<dots> = map (\<lambda>p. ?key (fst p)) (zip nodes inputs)" using C by (simp add: case_prod_unfold)
  finally have "distinct (map (\<lambda>m. fl_pk (ml_line m)) ms)"
    using distinct_zip_fst [of ?key nodes inputs] N(2) assms(2) by (simp add: rows_ok_def)
  moreover have "filed_row (tables_of s) (ml_line m) \<and> 0 \<le> ml_quantity m" if m: "m \<in> set ms" for m
  proof -
    from C m obtain f fl inp where p: "((f, fl), inp) \<in> set (zip nodes inputs)" "ml_line m = fl" "ml_quantity m = ri_quantity inp"
      "f_status f \<in> ss" by fastforce
    from p(1) N(1) have "(f, fl) \<in> set (all_fulfillment_lines (tables_of s))" by (auto dest: set_zip_leftD)
    moreover from p(1) have "inp \<in> set inputs" by (rule set_zip_rightD)
    moreover from p(4) assms(4) have "f_status f \<noteq> CANCELED_F" by auto
    ultimately show ?thesis using p assms(3,4) by (auto simp: filed_row_def all_lines_iff quantities_ok_def)
  qed
  ultimately show ?thesis by (simp add: valid_moves_def)
qed (use assms(1) in \<open>simp add: clean_fulfillment_lines_def valid_moves_def\<close>)

lemma valid_same:
  assumes "lines T' = lines T" and "fulfillments T' = fulfillments T"
  shows "valid_lines is T' = valid_lines is T" "valid_moves ms T' = valid_moves ms T"
  by (simp_all add: valid_lines_def valid_moves_def filed_row_def assms)

lemma refunded_part:
  assumes "process_refund e o1 payment is ms amount shipping s = (r, s')"
  shows "lines (tables_of s') = lines (tables_of s)" "fulfillments (tables_of s') = fulfillments (tables_of s)"
    "same_books (tables_of s) (tables_of s')"
  using lines_part_books [OF process_refund_lines(1) [OF assms]] by (simp_all add: same_books_def)

lemma refund_fulfillment_ledger:
  assumes run: "create_refund_fulfillment e o1 payment is ms amount shipping s = (r, s')"
    and ok: "ledger_ok (tables_of s)" and valid: "valid_lines is (tables_of s)" "valid_moves ms (tables_of s)"
  shows "ledger_ok (tables_of s')"
proof -
  obtain r1 s1 where refund: "process_refund e o1 payment is ms amount shipping s = (r1, s1)" by fastforce
  note P = refunded_part [OF refund]
  have ok1: "ledger_ok (tables_of s1)" using ledger_same [OF P(3) ok] .
  show ?thesis
  proof (cases r1)
    case (Inl er)
    with run refund ok1 show ?thesis by (simp add: create_refund_fulfillment_def)
  next
    case (Inr total)
    obtain fk s2 where new: "new_fulfillment (o_id o1) REFUNDED_F [] (Some total)
        (get_shipping_refund_amount shipping amount (so_shipping_price_gross_amount o1)) s1 = (fk, s2)" by fastforce
    show ?thesis
    proof (cases "move_all_lines e is ms fk s2")
      case (Inl er)
      with run refund \<open>r1 = Inr total\<close> new ok show ?thesis by (simp add: create_refund_fulfillment_def)
    next
      case (Inr s3)
      with run refund \<open>r1 = Inr total\<close> new have s': "tables_of s' = tables_of (delete_empty_fulfillments (o_id o1) s3)"
        by (auto simp: create_refund_fulfillment_def)
      have rows: "rows_ok (tables_of s)" using ok by (simp add: ledger_ok_iff books_def)
      note K = new_fulfillment_keeps [OF new]
      have books2: "books (\<lambda>_. 0) (tables_of s2)" using new_fulfillment_books(1) [OF new] ok1 by (simp add: ledger_ok_iff)
      have valid2: "valid_lines is (tables_of s2)" "valid_moves ms (tables_of s2)"
        using valid K(5) by (simp_all add: valid_lines_def valid_moves_def K(1) P filed_row_def [of "tables_of s1"] filed_row_def [of "tables_of s"])
      have "filed (tables_of s2) fk" using K(4) by simp
      note M = move_all_lines_ok [OF Inr books2 valid2 this]
      have lines3: "lines (tables_of s3) = map (with_asked is) (lines (tables_of s))" by (simp add: M(2) K(1) P(1))
      have "not_exceeded (tables_of s3)"
        using within_asked [OF valid(1) rows] ok by (simp add: not_exceeded_def lines3 ledger_ok_def)
      with delete_empty_books [OF M(1)] show ?thesis by (simp add: ledger_ok_iff s' not_exceeded_def)
    qed
  qed
qed

lemma refund_products_ledger:
  assumes run: "fulfillment_refund_products e k ls fls amount shipping s = (r, s')"
    and ok: "ledger_ok (tables_of s)" and inputs: "quantities_ok ls" "quantities_ok fls"
  shows "ledger_ok (tables_of s')"
proof (cases "s' = s")
  case False
  with run obtain o1 p "is" ms r' where "clean_lines ls s = Inr is"
      "clean_fulfillment_lines {FULFILLED_F, RETURNED_F, WAITING_FOR_APPROVAL} fls s = Inr ms"
    and create: "create_refund_fulfillment e o1 (Some p) is ms amount shipping s = (r', s')"
    by (auto simp: fulfillment_refund_products_def split: option.splits sum.splits if_splits prod.splits)
  moreover have "rows_ok (tables_of s)" using ok by (simp add: ledger_ok_iff books_def)
  ultimately have "valid_lines is (tables_of s)" "valid_moves ms (tables_of s)"
    using clean_lines_valid clean_fulfillment_lines_valid inputs by (blast, fastforce)
  from refund_fulfillment_ledger [OF create ok this] show ?thesis .
qed (use ok in simp)


section \<open>The mutation that returns and replaces\<close>

definition fresh_line :: "sales_line \<Rightarrow> bool" where
  "fresh_line l \<longleftrightarrow> sl_quantity_fulfilled l = 0 \<and> 0 \<le> sl_quantity l"

lemma new_order_lines_books:
  assumes books: "books (\<lambda>_. 0) T" and "lines T' = lines T @ new" and new: "map ol_pk new = [line_seq T ..< line_seq T + length new]"
    and "\<forall>l \<in> set new. fresh_line l" and "line_seq T' = line_seq T + length new" and fs: "fulfillments T' = fulfillments T"
    and "fulfillment_seq T' = fulfillment_seq T" "fulfillment_line_seq T' = fulfillment_line_seq T"
  shows "books (\<lambda>_. 0) T'"
proof -
  have ok: "rows_ok T" using books by (simp add: books_def)
  note R = rows_okD [OF ok]
  have keys: "line_keys T' = line_keys T \<union> {line_seq T ..< line_seq T + length new}"
    using arg_cong [OF new, of set] by (simp add: line_keys_def assms(2) image_Un)
  have fresh: "ol_pk l \<notin> line_keys T" if "l \<in> set new" for l
  proof -
    from that new have "ol_pk l \<in> set [line_seq T ..< line_seq T + length new]" by (metis image_eqI set_map)
    then show ?thesis using R(4) by fastforce
  qed
  have "rows_ok T'"
  proof (rule rows_okI)
    have "distinct (map ol_pk new)" by (simp add: new)
    moreover have "ol_pk ` set (lines T) \<inter> ol_pk ` set new = {}" using fresh by (auto simp: line_keys_def) (metis imageI)
    ultimately show "distinct (map ol_pk (lines T'))" using R(1) by (simp add: assms(2))
    show "x < line_seq T'" if "x \<in> line_keys T'" for x using that R(4) [of x] by (auto simp: keys assms(5))
  qed (use R in \<open>simp_all add: fs line_pks_def assms keys\<close>)
  moreover have held: "held T' x = held T x" for x by (simp add: held_def fs)
  moreover have "sl_quantity_fulfilled l = held T (ol_pk l)" if "l \<in> set new" for l
    using held_absent [OF ok fresh [OF that]] assms(4) that by (simp add: fresh_line_def)
  ultimately show ?thesis using books by (auto simp: books_def assms(2))
qed

lemma replace_order_lines_fresh:
  assumes "\<forall>i \<in> set is. 0 \<le> al_quantity i" and "\<forall>(k, l) \<in> set ls. fresh_line l"
  shows "\<forall>(k, l) \<in> set (fold (\<lambda>i ls. let l = replacing_line new (al_quantity i) (al_line i) in
     case map_of ls (line_key i) of None \<Rightarrow> ls @ [(line_key i, l)]
     | Some _ \<Rightarrow> map (\<lambda>(k, l'). if k = line_key i then (k, l) else (k, l')) ls) is ls). fresh_line l"
  using assms
proof (induction "is" arbitrary: ls)
  case (Cons i "is")
  have "fresh_line (replacing_line new (al_quantity i) (al_line i))" using Cons.prems(1) by (simp add: replacing_line_def fresh_line_def)
  with Cons.prems have "\<forall>(k, l) \<in> set (let l = replacing_line new (al_quantity i) (al_line i) in
     case map_of ls (line_key i) of None \<Rightarrow> ls @ [(line_key i, l)]
     | Some _ \<Rightarrow> map (\<lambda>(k, l'). if k = line_key i then (k, l) else (k, l')) ls). fresh_line l"
    by (auto simp: Let_def split: option.splits if_splits)
  with Cons.IH Cons.prems(1) show ?case by (simp add: Let_def)
qed simp

lemma replace_fulfillment_lines_fresh:
  "replace_fulfillment_lines s new ms ls = Inr ls' \<Longrightarrow> \<forall>m \<in> set ms. 0 \<le> ml_quantity m \<Longrightarrow> \<forall>(k, l) \<in> set ls. fresh_line l \<Longrightarrow>
    \<forall>(k, l) \<in> set ls'. fresh_line l"
proof (induction s new ms ls rule: replace_fulfillment_lines.induct)
  case (2 s new m ms ls)
  have new_ok: "fresh_line (replacing_line new (ml_quantity m) l)" for l
    using 2(4) by (simp add: replacing_line_def fresh_line_def)
  show ?case
  proof (cases "map_of ls (fl_order_line (ml_line m))")
    case None
    with 2(3) obtain l where l: "line_of (as_shop s) (ml_line m) = Some l" by (auto split: option.splits)
    have "\<forall>(k, l) \<in> set (ls @ [(fl_order_line (ml_line m), replacing_line new (ml_quantity m) l)]). fresh_line l"
      using 2(5) new_ok by auto
    with 2(1) [OF refl None l] 2(3,4) show ?thesis by (simp add: None l)
  next
    case (Some a)
    have "\<forall>(k, l) \<in> set (map (\<lambda>(x, l). if x = fl_order_line (ml_line m) then (x, l\<lparr>sl_quantity := sl_quantity l + ml_quantity m\<rparr>)
        else (x, l)) ls). fresh_line l" using 2(4,5) by (auto simp: fresh_line_def split: if_splits)
    with 2(2) [OF refl Some] 2(3,4) show ?thesis by (simp add: Some)
  qed
qed simp

lemma create_order_lines_tables:
  assumes "create_order_lines ls s = (created, s')"
  shows "lines (tables_of s') = lines (tables_of s) @ created" "line_seq (tables_of s') = line_seq (tables_of s) + length created"
    "map ol_pk created = [line_seq (tables_of s) ..< line_seq (tables_of s) + length created]"
    "fulfillments (tables_of s') = fulfillments (tables_of s)" "fulfillment_seq (tables_of s') = fulfillment_seq (tables_of s)"
    "fulfillment_line_seq (tables_of s') = fulfillment_line_seq (tables_of s)"
    "\<forall>l \<in> set ls. fresh_line l \<Longrightarrow> \<forall>l \<in> set created. fresh_line l"
proof -
  from assms have created: "created = map (\<lambda>(k, l). l\<lparr>ol_pk := k\<rparr>) (zip [line_seq (tables_of s) ..< line_seq (tables_of s) + length ls] ls)"
    and s': "tables_of s' = (tables_of s)\<lparr>lines := lines (tables_of s) @ created, line_seq := line_seq (tables_of s) + length ls\<rparr>"
    by (auto simp: create_order_lines_def Let_def)
  have len: "length created = length ls" by (simp add: created)
  have pks: "map ol_pk (map (\<lambda>(k, l). l\<lparr>ol_pk := k\<rparr>) (zip ks xs)) = ks" if "length ks = length xs" for ks and xs :: "sales_line list"
    using that by (induction ks xs rule: list_induct2) auto
  show "map ol_pk created = [line_seq (tables_of s) ..< line_seq (tables_of s) + length created]" unfolding len by (subst created, rule pks) simp
  show "\<forall>l \<in> set ls. fresh_line l \<Longrightarrow> \<forall>l \<in> set created. fresh_line l"
    by (auto simp: created fresh_line_def dest!: set_zip_rightD)
  show "lines (tables_of s') = lines (tables_of s) @ created" "line_seq (tables_of s') = line_seq (tables_of s) + length created"
    "fulfillments (tables_of s') = fulfillments (tables_of s)" "fulfillment_seq (tables_of s') = fulfillment_seq (tables_of s)"
    "fulfillment_line_seq (tables_of s') = fulfillment_line_seq (tables_of s)" by (simp_all add: s' len)
qed

lemma valid_lines_new: "lines T' = map (with_asked is1) (lines T) @ news \<Longrightarrow> valid_lines is T \<Longrightarrow>
    line_key ` set is \<inter> line_key ` set is1 = {} \<Longrightarrow> valid_lines is T'"
  by (fastforce simp: valid_lines_def with_asked_def line_key_def image_iff)

lemma create_replace_order_tables:
  assumes run: "create_replace_order o1 is ms s = Inr (new, created, s')" and books: "books (\<lambda>_. 0) (tables_of s)"
    and "\<forall>i \<in> set is. 0 \<le> al_quantity i" "\<forall>m \<in> set ms. 0 \<le> ml_quantity m"
  shows "books (\<lambda>_. 0) (tables_of s')" "lines (tables_of s') = lines (tables_of s) @ created" "\<forall>l \<in> set created. fresh_line l"
    "fulfillments (tables_of s') = fulfillments (tables_of s)"
proof -
  obtain new1 s1 where pop: "populate_replace_order_fields o1 s = (new1, s1)" by fastforce
  then have s1: "same_books (tables_of s) (tables_of s1)" "lines (tables_of s1) = lines (tables_of s)"
      "fulfillments (tables_of s1) = fulfillments (tables_of s)"
    by (auto simp: populate_replace_order_fields_def Let_def same_books_def)
  from run pop obtain ls s2 where replace: "replace_fulfillment_lines s1 new1 ms (replace_order_lines new1 is) = Inr ls"
    and create: "create_order_lines (map snd ls) s1 = (created, s2)" and s': "tables_of s' = tables_of s2"
    by (auto simp: create_replace_order_def split: sum.splits prod.splits)
  have "\<forall>(k, l) \<in> set (replace_order_lines new1 is). fresh_line l"
    unfolding replace_order_lines_def by (rule replace_order_lines_fresh) (use assms(3) in simp_all)
  from replace_fulfillment_lines_fresh [OF replace assms(4) this] have "\<forall>l \<in> set (map snd ls). fresh_line l" by fastforce
  then have fresh: "\<forall>l \<in> set created. fresh_line l" by (rule create_order_lines_tables(7) [OF create])
  note C = create_order_lines_tables [OF create]
  show "\<forall>l \<in> set created. fresh_line l" by (rule fresh)
  have books1: "books (\<lambda>_. 0) (tables_of s1)" by (rule books_same [OF s1(1) books])
  show "books (\<lambda>_. 0) (tables_of s')" unfolding s'
    by (rule new_order_lines_books [OF books1 C(1) C(3) fresh C(2) C(4-6)])
  show "lines (tables_of s') = lines (tables_of s) @ created" "fulfillments (tables_of s') = fulfillments (tables_of s)"
    by (simp_all add: s' C s1)
qed

lemma process_replace_ok:
  assumes run: "process_replace e o1 is ms s = Inr (r, s')" and books: "books (\<lambda>_. 0) (tables_of s)"
    and valid: "valid_lines is (tables_of s)" "valid_moves ms (tables_of s)"
  shows "books (\<lambda>_. 0) (tables_of s')"
    "\<exists>news. lines (tables_of s') = map (with_asked is) (lines (tables_of s)) @ news \<and> (\<forall>l \<in> set news. fresh_line l)"
    "filed_row (tables_of s) x \<Longrightarrow> fl_pk x \<notin> (\<lambda>m. fl_pk (ml_line m)) ` set ms \<Longrightarrow> filed_row (tables_of s') x"
proof -
  obtain fk s1 where new: "new_fulfillment (o_id o1) REPLACED [] None None s = (fk, s1)" by fastforce
  from run new obtain s2 o2 created s3 where move: "move_all_lines e is ms fk s1 = Inr s2"
    and replace: "create_replace_order o1 is ms s2 = Inr (o2, created, s3)" and s': "tables_of s' = tables_of s3"
    by (auto simp: process_replace_def move_lines_to_replace_fulfillment_def split: sum.splits)
  note K = new_fulfillment_keeps [OF new]
  have books1: "books (\<lambda>_. 0) (tables_of s1)" by (rule new_fulfillment_books(1) [OF new books])
  have valid1: "valid_lines is (tables_of s1)" "valid_moves ms (tables_of s1)"
    using valid K(5) by (simp_all add: valid_lines_def valid_moves_def K(1))
  have "filed (tables_of s1) fk" using K(4) by simp
  note M = move_all_lines_ok [OF move books1 valid1 this]
  have "\<forall>i \<in> set is. 0 \<le> al_quantity i" "\<forall>m \<in> set ms. 0 \<le> ml_quantity m" using valid by (simp_all add: valid_lines_def valid_moves_def)
  note C = create_replace_order_tables [OF replace M(1) this]
  show "books (\<lambda>_. 0) (tables_of s')" unfolding s' by (rule C(1))
  show "\<exists>news. lines (tables_of s') = map (with_asked is) (lines (tables_of s)) @ news \<and> (\<forall>l \<in> set news. fresh_line l)"
    using C(2,3) by (auto simp: s' M(2) K(1))
  show "filed_row (tables_of s') x" if "filed_row (tables_of s) x" "fl_pk x \<notin> (\<lambda>m. fl_pk (ml_line m)) ` set ms"
    using M(4) [OF K(5) [OF that(1)] that(2)] by (simp add: filed_row_def s' C(4))
qed

lemma distinct_filters: "distinct (map key xs) \<Longrightarrow> key ` set (filter P xs) \<inter> key ` set (filter (\<lambda>x. \<not> P x) xs) = {}"
  by (induction xs) auto

lemma move_lines_to_return_ok:
  assumes run: "move_lines_to_return_fulfillment e is ms st k a b s = Inr (fk, s')" and books: "books (\<lambda>_. 0) (tables_of s)"
    and valid: "valid_lines is (tables_of s)" "valid_moves ms (tables_of s)" and st: "st \<noteq> CANCELED_F"
  shows "books (\<lambda>_. 0) (tables_of s')" "lines (tables_of s') = map (with_asked is) (lines (tables_of s))"
proof -
  obtain fk1 s1 where new: "new_fulfillment k st [] a b s = (fk1, s1)" by fastforce
  from run new obtain created s2 where first: "move_order_lines_to_target_fulfillment e is fk1 s1 = Inr (created, s2)"
    by (auto simp: move_lines_to_return_fulfillment_def split: sum.splits)
  define P where "P m \<longleftrightarrow> fl_pk (ml_line m) \<in> set (already_refunded k s2)" for m :: moved_line
  from run [unfolded move_lines_to_return_fulfillment_def new prod.case first sum.case Let_def, folded P_def]
  obtain s3 where second: "move_fulfillment_lines_to_target_fulfillment (filter (\<lambda>m. \<not> P m) ms) created fk1 s2 = Inr s3"
    and third: "filter P ms = [] \<and> s' = s3 \<or> (\<exists>rk s4. (if st = REFUNDED_AND_RETURNED then (fk1, s3)
        else new_fulfillment k REFUNDED_AND_RETURNED [] None None s3) = (rk, s4)
      \<and> move_fulfillment_lines_to_target_fulfillment (filter P ms) [] rk s4 = Inr s')"
    by (auto split: sum.splits if_splits prod.splits)
  note K = new_fulfillment_keeps [OF new]
  have books1: "books (\<lambda>_. 0) (tables_of s1)" by (rule new_fulfillment_books(1) [OF new books])
  have valid1: "valid_lines is (tables_of s1)" using valid by (simp add: valid_lines_def K(1))
  have target1: "filed (tables_of s1) fk1" using K(4) st by simp
  note F = move_order_lines_ok [OF first books1 valid1 target1]
  have ok1: "rows_ok (tables_of s1)" using books1 by (simp add: books_def)
  have sources: "filed_row (tables_of s1) (ml_line m) \<and> filed_row (tables_of s2) (ml_line m) \<and> 0 \<le> ml_quantity m" if "m \<in> set ms" for m
    using valid(2) K(5) F(5) that by (simp add: valid_moves_def)
  have new_pk: "fl_pk r \<notin> fl_pk ` set created" if "filed_row (tables_of s1) r" for r
    using F(7) filed_row_seq [OF ok1 that] by force
  let ?key = "\<lambda>m :: moved_line. fl_pk (ml_line m)"
  have dm: "distinct (map ?key ms)" using valid(2) by (simp add: valid_moves_def)
  have "distinct (map ?key (filter (\<lambda>m. \<not> P m) ms) @ map fl_pk created)"
    using dm F(8) new_pk sources by (auto simp: distinct_map_filter)
  moreover have "\<forall>m \<in> set (filter (\<lambda>m. \<not> P m) ms). filed_row (tables_of s2) (ml_line m) \<and> 0 \<le> ml_quantity m" using sources by simp
  moreover have "\<forall>y \<in> set created. filed_row (tables_of s2) y" using F(6) by blast
  moreover have target2: "filed (tables_of s2) fk1" using target1 by (simp add: filed_view [OF F(3)])
  ultimately have M: "books (\<lambda>_. 0) (tables_of s3)" "lines (tables_of s3) = lines (tables_of s2)"
      "fulfillment_view (tables_of s3) = fulfillment_view (tables_of s2)"
    using move_fulfillment_lines_books [OF second F(1)] by simp_all
  have kept: "filed_row (tables_of s3) (ml_line m)" if "m \<in> set (filter P ms)" for m
  proof (rule move_fulfillment_lines_keeps [OF second])
    from that show "filed_row (tables_of s2) (ml_line m)" "fl_pk (ml_line m) \<notin> fl_pk ` set created" using sources new_pk by simp_all
    from that distinct_filters [OF dm, of P] show "fl_pk (ml_line m) \<notin> ?key ` set (filter (\<lambda>m. \<not> P m) ms)" by blast
  qed
  have lines3: "lines (tables_of s3) = map (with_asked is) (lines (tables_of s))" using M(2) F(2) K(1) by simp
  have "books (\<lambda>_. 0) (tables_of s') \<and> lines (tables_of s') = map (with_asked is) (lines (tables_of s))"
    using third
  proof
    assume "filter P ms = [] \<and> s' = s3"
    with M(1) lines3 show ?thesis by simp
  next
    assume "\<exists>rk s4. (if st = REFUNDED_AND_RETURNED then (fk1, s3)
        else new_fulfillment k REFUNDED_AND_RETURNED [] None None s3) = (rk, s4)
      \<and> move_fulfillment_lines_to_target_fulfillment (filter P ms) [] rk s4 = Inr s'"
    then obtain rk s4 where choice: "(if st = REFUNDED_AND_RETURNED then (fk1, s3)
        else new_fulfillment k REFUNDED_AND_RETURNED [] None None s3) = (rk, s4)"
      and last: "move_fulfillment_lines_to_target_fulfillment (filter P ms) [] rk s4 = Inr s'" by blast
    have S: "books (\<lambda>_. 0) (tables_of s4) \<and> lines (tables_of s4) = lines (tables_of s3) \<and> filed (tables_of s4) rk
      \<and> (\<forall>r. filed_row (tables_of s3) r \<longrightarrow> filed_row (tables_of s4) r)"
    proof (cases "st = REFUNDED_AND_RETURNED")
      case True
      moreover have "filed (tables_of s3) fk1" using target2 by (simp add: filed_view [OF M(3)])
      ultimately show ?thesis using choice M(1) by auto
    next
      case False
      with choice have n: "new_fulfillment k REFUNDED_AND_RETURNED [] None None s3 = (rk, s4)" by simp
      from new_fulfillment_books(1) [OF n M(1)] new_fulfillment_keeps [OF n] show ?thesis by simp
    qed
    have "\<forall>m \<in> set (filter P ms). filed_row (tables_of s4) (ml_line m) \<and> 0 \<le> ml_quantity m" using kept S sources by simp
    from move_fulfillment_lines_books [OF last conjunct1 [OF S] this _ _ _] S dm lines3
    show ?thesis by (simp add: distinct_map_filter)
  qed
  then show "books (\<lambda>_. 0) (tables_of s')" "lines (tables_of s') = map (with_asked is) (lines (tables_of s))" by simp_all
qed


lemma returned_products_ledger:
  assumes run: "create_fulfillments_for_returned_products e o1 payment is ms refunds amount shipping s = (r, s')"
    and ok: "ledger_ok (tables_of s)" and valid: "valid_lines is (tables_of s)" "valid_moves ms (tables_of s)"
  shows "ledger_ok (tables_of s')"
proof (cases "s' = s")
  case False
  define is1 where "is1 = filter al_replace is"
  define ms1 where "ms1 = filter ml_replace ms"
  define is2 where "is2 = filter (\<lambda>i. \<not> al_replace i) is"
  define ms2 where "ms2 = filter (\<lambda>m. \<not> ml_replace m) ms"
  define shipping_amount where "shipping_amount = get_shipping_refund_amount shipping amount (so_shipping_price_gross_amount o1)"
  from run [unfolded create_fulfillments_for_returned_products_def Let_def, folded is1_def is2_def ms1_def ms2_def shipping_amount_def] False
  obtain total s1 replace s2 fk counts s3 where
      refunded: "(if refunds \<and> payment \<noteq> None
            then (case process_refund e o1 payment is2 ms2 amount shipping s of
                    (Inl er, _) \<Rightarrow> Inl er | (Inr a, s) \<Rightarrow> Inr (Some a, s))
            else Inr (None, s)) = Inr (total, s1)"
    and replaced: "(if is1 \<noteq> [] \<or> ms1 \<noteq> [] then (case process_replace e o1 is1 ms1 s1 of
                           Inl er \<Rightarrow> Inl er | Inr (r, s) \<Rightarrow> Inr (Some r, s))
                   else Inr (None, s1)) = Inr (replace, s2)"
    and returned: "create_return_fulfillment e (o_id o1) is2 ms2 total shipping_amount s2 = Inr (fk, counts, s3)"
    and s': "s' = log_calls [Order_Call (Order_Updated (o_id o1))]
                       (order_returned (o_id o1) counts (delete_empty_fulfillments (o_id o1) s3))"
    by (auto split: sum.splits prod.splits)
  have P: "lines (tables_of s1) = lines (tables_of s) \<and> fulfillments (tables_of s1) = fulfillments (tables_of s)
      \<and> same_books (tables_of s) (tables_of s1)"
  proof (cases "refunds \<and> payment \<noteq> None")
    case True
    with refunded obtain a where "process_refund e o1 payment is2 ms2 amount shipping s = (Inr a, s1)"
      by (simp split: prod.splits sum.splits)
    from refunded_part [OF this] show ?thesis by simp
  next
    case False
    from refunded [unfolded if_not_P [OF False]] show ?thesis by simp
  qed
  have ok1: "ledger_ok (tables_of s1)" using ledger_same P ok by blast
  have rows: "rows_ok (tables_of s1)" using ok1 by (simp add: ledger_ok_iff books_def)
  have valid1: "valid_lines is (tables_of s1)" "valid_moves ms (tables_of s1)" using valid valid_same [of "tables_of s1" "tables_of s"] P by simp_all
  have v: "valid_lines is1 (tables_of s1)" "valid_lines is2 (tables_of s1)" "valid_moves ms1 (tables_of s1)" "valid_moves ms2 (tables_of s1)"
    using valid1 by (simp_all add: valid_lines_def valid_moves_def is1_def is2_def ms1_def ms2_def distinct_map_filter)
  have apart: "line_key ` set is2 \<inter> line_key ` set is1 = {}"
      "(\<lambda>m. fl_pk (ml_line m)) ` set ms1 \<inter> (\<lambda>m. fl_pk (ml_line m)) ` set ms2 = {}"
    using valid1 distinct_filters [of line_key "is" al_replace] distinct_filters [of "\<lambda>m. fl_pk (ml_line m)" ms ml_replace]
    by (auto simp: valid_lines_def valid_moves_def is1_def is2_def ms1_def ms2_def)
  have R: "ledger_ok (tables_of s2) \<and> valid_lines is2 (tables_of s2) \<and> valid_moves ms2 (tables_of s2)"
  proof (cases "is1 \<noteq> [] \<or> ms1 \<noteq> []")
    case True
    with replaced obtain r2 where "process_replace e o1 is1 ms1 s1 = Inr (r2, s2)" by (auto split: sum.splits)
    note O = process_replace_ok [OF this _ v(1,3)]
    have books1: "books (\<lambda>_. 0) (tables_of s1)" using ok1 by (simp add: ledger_ok_iff)
    from O(2) [OF books1] obtain news where news: "lines (tables_of s2) = map (with_asked is1) (lines (tables_of s1)) @ news"
      "\<forall>l \<in> set news. fresh_line l" by blast
    have "not_exceeded (tables_of s2)"
      using within_asked [OF v(1) rows] ok1 news(2) unfolding not_exceeded_def news(1) by (auto simp: ledger_ok_def fresh_line_def)
    moreover have "filed_row (tables_of s2) (ml_line m)" if m: "m \<in> set ms2" for m
    proof (rule O(3) [OF books1])
      from m apart(2) show "fl_pk (ml_line m) \<notin> (\<lambda>m. fl_pk (ml_line m)) ` set ms1" by blast
      from m v(4) show "filed_row (tables_of s1) (ml_line m)" by (simp add: valid_moves_def)
    qed
    ultimately show ?thesis using O(1) [OF books1] valid_lines_new [OF news(1) v(2) apart(1)] v(4)
      by (simp add: ledger_ok_iff valid_moves_def)
  qed (use replaced ok1 v in simp)
  define st where "st = (if total = None then RETURNED_F else REFUNDED_AND_RETURNED)"
  have st: "st \<noteq> CANCELED_F" by (simp add: st_def)
  from returned have move: "move_lines_to_return_fulfillment e is2 ms2 st (o_id o1) total shipping_amount s2 = Inr (fk, s3)"
    unfolding create_return_fulfillment_def st_def [symmetric] by (auto split: sum.splits)
  have books2: "books (\<lambda>_. 0) (tables_of s2)" using R by (simp add: ledger_ok_iff)
  then have rows2: "rows_ok (tables_of s2)" by (simp add: books_def)
  note M = move_lines_to_return_ok [OF move books2 _ _ st]
  have M: "books (\<lambda>_. 0) (tables_of s3)" "lines (tables_of s3) = map (with_asked is2) (lines (tables_of s2))" using M R by blast+
  have "not_exceeded (tables_of s3)"
    using within_asked [OF conjunct1 [OF conjunct2 [OF R]] rows2] R by (simp add: not_exceeded_def M(2) ledger_ok_def)
  with delete_empty_books [OF M(1), of "o_id o1"] have "ledger_ok (tables_of (delete_empty_fulfillments (o_id o1) s3))"
    by (simp add: ledger_ok_iff not_exceeded_def)
  moreover have "same_books (tables_of (delete_empty_fulfillments (o_id o1) s3)) (tables_of s')"
    by (auto simp: s' order_returned_def intro: refreshed)
  ultimately show ?thesis by (rule ledger_same [rotated])
qed (use ok in simp)

lemma return_products_ledger:
  assumes run: "fulfillment_return_products e k ls fls amount shipping refunds s = (r, s')"
    and ok: "ledger_ok (tables_of s)" and inputs: "quantities_ok ls" "quantities_ok fls"
  shows "ledger_ok (tables_of s')"
proof (cases "s' = s")
  case False
  with run obtain o1 payment amount' "is" ms r' where "clean_lines ls s = Inr is"
      "clean_fulfillment_lines {FULFILLED_F, REFUNDED_F, WAITING_FOR_APPROVAL} fls s = Inr ms"
    and create: "create_fulfillments_for_returned_products e o1 payment is ms refunds amount' shipping s = (r', s')"
    unfolding fulfillment_return_products_def by (auto split: option.splits sum.splits if_splits prod.splits)
  moreover have "rows_ok (tables_of s)" using ok by (simp add: ledger_ok_iff books_def)
  ultimately have "valid_lines is (tables_of s)" "valid_moves ms (tables_of s)"
    using clean_lines_valid clean_fulfillment_lines_valid inputs by (blast, fastforce)
  from returned_products_ledger [OF create ok this] show ?thesis .
qed (use ok in simp)


section \<open>Every sequence of mutations\<close>

inductive order_step :: "action_env \<Rightarrow> site_settings \<Rightarrow> action_state \<Rightarrow> action_state \<Rightarrow> bool" for e site where
  fulfill_step: "order_fulfill e site k inputs notify allow tracking s = (r, s') \<Longrightarrow> fulfill_input_ok inputs \<Longrightarrow> order_step e site s s'"
| approve_step: "fulfillment_approve e site fk allow notify s = (r, s') \<Longrightarrow> order_step e site s s'"
| cancel_step: "fulfillment_cancel fk warehouse s = (r, s') \<Longrightarrow> separate_lines fk s \<Longrightarrow> order_step e site s s'"
| cancel_order_step: "order_cancel e k s = (r, s') \<Longrightarrow> order_step e site s s'"
| refund_step: "fulfillment_refund_products e k ls fls amount shipping s = (r, s') \<Longrightarrow> quantities_ok ls \<Longrightarrow> quantities_ok fls \<Longrightarrow>
    order_step e site s s'"
| return_step: "fulfillment_return_products e k ls fls amount shipping refunds s = (r, s') \<Longrightarrow> quantities_ok ls \<Longrightarrow>
    quantities_ok fls \<Longrightarrow> order_step e site s s'"

lemma order_step_ledger: "order_step e site s s' \<Longrightarrow> ledger_ok (tables_of s) \<Longrightarrow> ledger_ok (tables_of s')"
  by (induction rule: order_step.induct)
    (blast intro: order_fulfill_ledger fulfillment_approve_ledger fulfillment_cancel_ledger order_cancel_ledger
      refund_products_ledger return_products_ledger)+

text \<open>
  C21: Starting from consistent books, after every sequence of the mutations that fulfill an order, approve or
  cancel a fulfillment, cancel an order, refund and return lines (each accepted or refused, with quantities that
  are not negative; a fulfillment is only cancelled when its lines are of different order lines), the quantity
  fulfilled of every order line is what the lines of its fulfillments that are not cancelled add up to, and is
  not more than what was ordered.
\<close>

theorem fulfilled_quantities_stay_consistent:
  assumes "(order_step e site)\<^sup>*\<^sup>* s s'" and "ledger_ok (tables_of s)"
  shows "\<forall>l \<in> set (lines (tables_of s')). sl_quantity_fulfilled l = held (tables_of s') (ol_pk l)
    \<and> 0 \<le> sl_quantity_fulfilled l \<and> sl_quantity_fulfilled l \<le> sl_quantity l"
proof -
  from assms have "ledger_ok (tables_of s')" by (induction rule: rtranclp_induct) (blast intro: order_step_ledger)+
  then show ?thesis using held_nonneg [of "tables_of s'"] by (auto simp: ledger_ok_def books_def)
qed

section \<open>An example\<close>

definition ex_open_line :: sales_line where
  "ex_open_line = ex_sales_line\<lparr>sl_quantity_fulfilled := 0\<rparr>"

definition ex_captured :: payment where
  "ex_captured = ex_payment\<lparr>p_captured_amount := 60, p_transactions :=
     [\<lparr>tx_pk = 1, tx_token = ''t'', tx_kind = CAPTURE, tx_is_success = True, tx_action_required = False,
       tx_amount = 60, tx_currency = ''USD'', tx_error = None, tx_customer_id = None, tx_already_processed = True\<rparr>]\<rparr>"

definition ex_open :: action_state where
  "ex_open = \<lparr>as_shop = ex_sale\<lparr>shop_tables := ex_tables\<lparr>lines := [ex_open_line], payments := [ex_captured]\<rparr>\<rparr>,
     as_calls = [], as_digital_variants = [], as_digital_contents = [], as_digital_urls = []\<rparr>"

definition ex_actions :: action_env where
  "ex_actions = \<lparr>ae_env = ex_env, ae_precision = two_digits, ae_default_automatic_fulfillment = False,
     ae_gateway = ex_gateway True\<rparr>"

definition ex_site :: site_settings where
  "ex_site = \<lparr>fulfillment_auto_approve = True, fulfillment_allow_unpaid = True\<rparr>"

definition ex_fulfill :: "pk \<Rightarrow> int \<Rightarrow> action_state \<Rightarrow> (order_error_code + pk list) \<times> action_state" where
  "ex_fulfill wh q = order_fulfill ex_actions ex_site 1 [\<lparr>fi_order_line_id = 1, fi_stocks = [(wh, q)]\<rparr>] True False []"

definition ex_return :: "return_line_input list \<Rightarrow> return_line_input list \<Rightarrow> action_state
    \<Rightarrow> (order_error_code + pk \<times> (pk \<times> sales_order) option) \<times> action_state" where
  "ex_return ls fls = fulfillment_return_products ex_actions 1 ls fls None True True"

abbreviation line_numbers :: "action_state \<Rightarrow> (pk \<times> int \<times> int) list" where
  "line_numbers s \<equiv> map (\<lambda>l. (ol_pk l, sl_quantity l, sl_quantity_fulfilled l)) (lines (tables_of s))"

abbreviation fulfillment_numbers :: "action_state \<Rightarrow> (pk \<times> fulfillment_status \<times> (pk \<times> pk \<times> int) list) list" where
  "fulfillment_numbers s \<equiv> map (\<lambda>f. (f_pk f, f_status f, map (\<lambda>fl. (fl_pk fl, fl_order_line fl, fl_quantity fl)) (f_lines f)))
     (fulfillments (tables_of s))"


definition ex_refund :: "return_line_input list \<Rightarrow> return_line_input list \<Rightarrow> decimal option \<Rightarrow> action_state
    \<Rightarrow> (order_error_code + pk) \<times> action_state" where
  "ex_refund ls fls amount = fulfillment_refund_products ex_actions 1 ls fls amount False"

definition ex_shipped :: action_state where
  "ex_shipped = snd (ex_fulfill 2 4 ex_open)"

definition ex_input :: "pk \<Rightarrow> int \<Rightarrow> return_line_input" where
  "ex_input k q = \<lparr>ri_line_id = k, ri_quantity = q, ri_replace = False\<rparr>"

lemma ex_open_ok: "ledger_ok (tables_of ex_open)"
  by code_simp

lemma fulfilled_quantities_stay_consistent_witness:
  "list_all (\<lambda>l. sl_quantity_fulfilled l = held (tables_of (snd (ex_return [] [ex_input 10 3] ex_shipped))) (ol_pk l))
     (lines (tables_of (snd (ex_return [] [ex_input 10 3] ex_shipped))))
   \<and> fulfillment_numbers (snd (ex_return [] [ex_input 10 3] ex_shipped)) = [(10, FULFILLED_F, [(10, 1, 1)]), (11, REFUNDED_AND_RETURNED, [(11, 1, 3)])]"
proof
  have "order_step ex_actions ex_site ex_open ex_shipped"
  proof (rule fulfill_step)
    show "order_fulfill ex_actions ex_site 1 [\<lparr>fi_order_line_id = 1, fi_stocks = [(2, 4)]\<rparr>] True False [] ex_open
        = (fst (ex_fulfill 2 4 ex_open), ex_shipped)" by (simp add: ex_fulfill_def ex_shipped_def)
  qed code_simp
  moreover have "order_step ex_actions ex_site ex_shipped (snd (ex_return [] [ex_input 10 3] ex_shipped))"
    unfolding ex_return_def by (rule return_step [OF surjective_pairing]) code_simp+
  ultimately have "(order_step ex_actions ex_site)\<^sup>*\<^sup>* ex_open (snd (ex_return [] [ex_input 10 3] ex_shipped))" by simp
  from fulfilled_quantities_stay_consistent [OF this ex_open_ok]
  show "list_all (\<lambda>l. sl_quantity_fulfilled l = held (tables_of (snd (ex_return [] [ex_input 10 3] ex_shipped))) (ol_pk l))
     (lines (tables_of (snd (ex_return [] [ex_input 10 3] ex_shipped))))" unfolding list_all_iff by blast
qed code_simp


text \<open>The checks do not exclude what breaks the books.\<close>

lemma negative_stock_quantity_overfulfills:
  \<comment> \<open>A negative quantity for one warehouse lets another one fulfill more than was ordered.\<close>
  "line_numbers (snd (order_fulfill ex_actions ex_site 1 [\<lparr>fi_order_line_id = 1, fi_stocks = [(1, - 2), (2, 9)]\<rparr>]
     True False [] ex_open)) = [(1, 7, 9)]"
  by code_simp

lemma negative_return_enlarges_fulfillment:
  "line_numbers ex_shipped = [(1, 7, 4)]
   \<and> fulfillment_numbers ex_shipped = [(10, FULFILLED_F, [(10, 1, 4)])]
   \<and> fulfillment_numbers (snd (fulfillment_return_products ex_actions 1 [] [ex_input 10 (- 3)] None False False ex_shipped))
     = [(10, FULFILLED_F, [(10, 1, 7)]), (11, RETURNED_F, [])]"
  by (intro conjI) code_simp+

lemma cancelled_refund_creates_stock:
  \<comment> \<open>Five units are refunded before they are fulfilled; cancelling the refund puts five that never left into stock.\<close>
  "(case ex_refund [ex_input 1 5] [] None ex_open of (r, s) \<Rightarrow>
      r = Inr 10 \<and> map (\<lambda>x. (s_warehouse x, s_quantity x)) (stocks (db_of s)) = [(1, 5), (2, 9)])
   \<and> (case fulfillment_cancel 10 (Some 1) (snd (ex_refund [ex_input 1 5] [] None ex_open)) of (r, s) \<Rightarrow>
      r = Inr () \<and> map (\<lambda>x. (s_warehouse x, s_quantity x)) (stocks (db_of s)) = [(1, 10), (2, 9)])"
  by (intro conjI) code_simp+

definition ex_two_lines :: action_state where
  \<comment> \<open>A fulfillment of one order line from two stocks, as the refund of two fulfillments leaves it.\<close>
  "ex_two_lines = with_tables (\<lambda>T. T\<lparr>lines := [ex_sales_line], fulfillments :=
     [(ex_fulfillment REFUNDED_F 2)\<lparr>f_lines := [\<lparr>fl_pk = 1, fl_order_line = 1, fl_quantity = 2, fl_stock = Some 1\<rparr>,
        \<lparr>fl_pk = 2, fl_order_line = 1, fl_quantity = 3, fl_stock = Some 2\<rparr>]\<rparr>]\<rparr>) ex_open"

lemma cancelled_lines_of_one_order_line:
  \<comment> \<open>Only one of the two quantities is taken from the line.\<close>
  "ledger_ok (tables_of ex_two_lines) \<and> line_numbers ex_two_lines = [(1, 7, 5)]
   \<and> line_numbers (snd (fulfillment_cancel 1 (Some 1) ex_two_lines)) = [(1, 7, 3)]
   \<and> fulfillment_numbers (snd (fulfillment_cancel 1 (Some 1) ex_two_lines)) = [(1, CANCELED_F, [(1, 1, 2), (2, 1, 3)])]"
  by (intro conjI) code_simp+

lemma repeated_ids_swap_quantities:
  \<comment> \<open>The quantity asked for the second line is that of the second entry, which repeats the first line.\<close>
  "map_sum id (map (\<lambda>m. (fl_pk (ml_line m), ml_quantity m)))
     (clean_fulfillment_lines {REFUNDED_F} [ex_input 1 1, ex_input 1 2, ex_input 2 3] ex_two_lines) = Inr [(1, 1), (2, 2)]"
  by code_simp

end
