(* ===== verification/Spec2Isabelle.thy ===== *)
theory Spec2Isabelle
  imports Order_Prices Gift_Card_Issue Warehouse_Availability Transaction_Calculations Gift_Cards Payment_Ledger Order_Lines Minor_Units
    Transaction_Sessions Fulfillment_Steps
begin

text \<open>
  A verification development for the commerce backend under \<open>src/saleor\<close>: stock, payments, orders, and prices.

  \<^bold>\<open>The program.\<close>  A Django application.  Its state is a database; its operations are the mutations of a GraphQL
  API, which check their input and call functions of the packages \<open>warehouse\<close>, \<open>payment\<close>, \<open>order\<close>, \<open>checkout\<close>,
  \<open>discount\<close>, \<open>tax\<close> and \<open>giftcard\<close>.  Those read and write rows, mostly inside a transaction, and call a plugin manager, which
  sends webhooks or asks external services.  Here a table is the list of its rows in the order of their keys, a
  row is a record with the columns that the modelled code uses, and an operation is a function from the tables
  to its outcome: \<open>Inl\<close> the exception (with no state when the transaction rolls back, with the state when what
  was written stays) or \<open>Inr\<close> the result with the new tables.  Calls that leave the program are recorded in lists.

  \<^bold>\<open>Stock\<close> (package \<open>warehouse\<close>; state \<open>db\<close>).
    \<^item> \<open>Warehouse_Models\<close>: the rows and query sets of \<open>warehouse/models.py\<close>.
    \<^item> \<open>Stock_Allocation\<close>, \<open>Stock_Movements\<close>, \<open>Preorder_Allocation\<close>: \<open>warehouse/management.py\<close>, the
      allocation of stock to order lines, its release, the changes of quantities, and preorders.  The lemmas
      show that exactly the asked quantities are allocated, released, added and taken, when
      \<open>InsufficientStock\<close> is raised, that nothing is oversold, and that the counter
      \<open>Stock.quantity_allocated\<close> stays the sum of the allocations.
    \<^item> \<open>Warehouse_Reservations\<close>: \<open>warehouse/reservations.py\<close>; \<open>Warehouse_Availability\<close>:
      \<open>warehouse/availability.py\<close>, what the checks accept.

  \<^bold>\<open>Payments through gateways\<close> (state \<open>order_tables\<close>).
    \<^item> \<open>Payment_Models\<close>, \<open>Order_Models\<close>: the rows of \<open>payment/models.py\<close> and \<open>order/models.py\<close>.
    \<^item> \<open>Payment_Operations\<close>: \<open>payment/gateway.py\<close> and what it calls of \<open>payment/utils.py\<close>.
    \<^item> \<open>Payment_Ledger\<close>: a step relation over these operations and its invariant: captured amounts are the sums of
      the processed transactions, and what orders count as charged is what their payments captured.  That no more than
      the total is captured needs what the code does not check (\<open>strict\<close>).
    \<^item> \<open>Order_Amounts\<close>: \<open>updates_amounts_for_order\<close> of \<open>order/utils.py\<close>; the locale \<open>quantizer\<close> states what the
      statuses rely on of rounding.  \<open>Gift_Cards\<close>: paying with gift cards.  \<open>Minor_Units\<close>: amounts as text.
    \<^item> \<open>Gift_Card_Issue\<close>: promo codes (\<open>core/utils/promo_code.py\<close>) and the life of gift cards and voucher codes
      (\<open>giftcard/utils.py\<close>, \<open>graphql/giftcard\<close>): what a card is created with, when it can be used, that no code names
      both a card and a voucher, whatever is issued.

  \<^bold>\<open>Transactions of payment apps\<close> (state \<open>pay_state\<close>).
    \<^item> \<open>Transaction_Calculations\<close>: \<open>payment/transaction_item_calculations.py\<close>, the eight amounts of a transaction from
      its events, refined to declarative sums per reference (locales for \<open>getattr\<close>/\<open>setattr\<close> and \<open>defaultdict\<close>).
    \<^item> \<open>Transaction_Events\<close>, \<open>Transaction_Handlers\<close>: the answers of apps, sessions, requests, reports and manual
      changes of \<open>payment/utils.py\<close>, \<open>payment/gateway.py\<close> and \<open>graphql/payment/mutations/transaction\<close>.
    \<^item> \<open>Transaction_Log\<close>: what every sequence of the handlers keeps of the event log (locale \<open>log_invariant\<close>).
    \<^item> \<open>Transaction_Reports\<close>, \<open>Transaction_Sessions\<close>: repeated, accepted and rejected reports, and that a session
      can be finished.  \<open>Checkout_Payments\<close>: the statuses of a checkout.

  \<^bold>\<open>Orders and fulfillments\<close> (state \<open>shop\<close>: the stock and the order tables; \<open>action_state\<close> adds the recorded calls).
    \<^item> \<open>Order_Lines\<close>: changing and deleting lines, restocking, and the status of an order (\<open>order/utils.py\<close>).
    \<^item> \<open>Fulfillments\<close>, \<open>Returns\<close>: \<open>order/actions.py\<close>; \<open>Order_Mutations\<close>: the mutations of
      \<open>graphql/order/mutations\<close> that use them.
    \<^item> \<open>Fulfillment_Ledger\<close>, \<open>Fulfillment_Steps\<close>: the books of fulfilled quantities.  \<open>books D T\<close> says that
      \<open>quantity_fulfilled\<close> of every line is what its fulfillments hold, up to the quantities \<open>D\<close> that an operation
      in progress has still to enter; each function of the code is shown to change \<open>D\<close> as it enters or moves
      quantities, and the mutations to start and end with \<open>D = 0\<close>.  The step relation \<open>order_step\<close> puts them together.

  \<^bold>\<open>Prices\<close> (states \<open>priced_checkout\<close> and \<open>priced_order\<close> with their lines, \<open>voucher_tables\<close>).
    \<^item> \<open>Decimal_Context\<close>: the rounding of Python's decimals to 28 digits; the locale \<open>relative_rounding\<close> has what the
      bounds on sums of quotients rely on.
    \<^item> \<open>Discounts\<close>: vouchers and promotions, \<open>discount/utils.py\<close> and \<open>discount/models.py\<close>: the best promotion, and
      the discounts it gives to the lines of a checkout.
    \<^item> \<open>Base_Prices\<close>: \<open>checkout/base_calculations.py\<close> and the vouchers of \<open>checkout/utils.py\<close> and
      \<open>checkout/fetch.py\<close>: bounds of the price of a line, which line a voucher is for, how a discount is divided.
    \<^item> \<open>Checkout_Prices\<close>: \<open>checkout/calculations.py\<close>, \<open>tax/utils.py\<close> and \<open>tax/calculations\<close>: after a refresh
      with flat rates the prices of a checkout add up, and are not negative where promotions do not exceed prices.
    \<^item> \<open>Order_Prices\<close>: \<open>order/calculations.py\<close>, \<open>order/base_calculations.py\<close>, \<open>tax/calculations/order.py\<close> and the
      discounts of \<open>order/utils.py\<close>.

  \<^bold>\<open>Parameters.\<close>  Code outside the repository is an argument.  \<open>env\<close> has the clock, the order in which a query
  without an order returns rows (\<open>row_order\<close>, a permutation where a property needs it) and the collation of
  strings; \<open>precision\<close> the digits of a currency (\<open>babel\<close>); \<open>gateway\<close> the answer of a payment plugin (the ledger
  assumes \<open>honest\<close>: a successful answer that captures or refunds is of the amount that was asked for and answers no other
  request, or it refers to an earlier transaction of the payment);
  \<open>pe_parse_time\<close>, \<open>pe_valid_url\<close> the parsers of times and URLs; \<open>pe_refreshed_total\<close> the total of a checkout with
  the taxes of the plugins; \<open>pricing\<close> the discount functions of the library \<open>prices\<close> (\<open>pricing_ok\<close>: they do not raise a
  price); \<open>price_plugin\<close> the price methods of a plugin; the answers of apps are arguments of the handlers; \<open>card_env\<close>
  has the random bytes of codes, the calendar and the validator of addresses.

  \<^bold>\<open>Bounds.\<close>  Loops are recursions over lists, so no fuel is needed.  The exception is the draw of a new code until it is unused:
  \<open>generate_promo_code\<close> is a partial function, \<open>None\<close> when the draws never end, and it is shown to return when the
  draws are fresh at some point (\<open>fresh_tokens\<close>).  Amounts are exact rationals, rounded where the
  code quantizes; the columns have 12 digits and the decimal context 28, so sums do not round.  Quotients do, and what is
  computed from them (\<open>ctx\<close>).  Integers of the
  code are unbounded or far from the bounds of their columns, except \<open>PositiveIntegerField\<close>, whose check against
  negative values is modelled.

  \<^bold>\<open>Not modelled.\<close>  The GraphQL layer beyond the mutations above, permissions, plugins and webhook payloads, the clients
  of payment services, accounts, apps, site content, exports, migrations and tests: input and output, generated
  schema, or configuration.  Concurrency: every operation runs alone, as the row locks of the code intend.
  The completion of a checkout, shipping methods and sales of the old API are not modelled.
\<close>

end
